(* ===== verification/Go_Prelude.thy ===== *)
theory Go_Prelude
  imports Main "HOL-Library.Word" "HOL-Library.Sublist"
begin

unbundle bit_operations_syntax

text \<open>
  What every component of the model shares: Go's bytes and byte slices, the fixed-width
  integers the decoders read out of them, the few functions of Go's standard library the
  sources call (\<^verbatim>\<open>encoding/binary\<close>, \<^verbatim>\<open>strings\<close>, \<^verbatim>\<open>strconv\<close>) and the generic lemmas on
  lists, options and words that the component proofs rest on.

  A \<^verbatim>\<open>[]byte\<close> is a list of 8-bit words; a Go string is a list of bytes too, written as an
  Isabelle \<^typ>\<open>string\<close> (a character is a byte), and \<open>str\<close> is the conversion
  \<^verbatim>\<open>string(b)\<close>. Go's \<^verbatim>\<open>int\<close> is 64 bits wide. Where a quantity is a length, an index or a
  sum of a bounded number of bytes it cannot overflow, and it is a \<^typ>\<open>nat\<close> or an \<^typ>\<open>int\<close>;
  where the code relies on the width the model uses a word. A Go function that returns an
  error returns a sum here, \<^term>\<open>Inl e\<close> for the error.
\<close>

section \<open>Collections of facts\<close>

named_theorems go_le_simps \<open>reading fixed-width integers out of byte slices\<close>
named_theorems go_str_simps \<open>the modelled functions of packages strings and strconv\<close>
named_theorems frame_simps \<open>one step of a frame reader\<close>

section \<open>Bytes, slices and strings\<close>

type_synonym byte = "8 word"
type_synonym bytes = "byte list"

definition str :: "bytes \<Rightarrow> string" where
  "str b = map (\<lambda>w. char_of (unat w)) b"

definition bytes_of :: "string \<Rightarrow> bytes" where
  "bytes_of s = map (\<lambda>c. of_nat (of_char c)) s"

text \<open>The slice \<^verbatim>\<open>b[i:j]\<close>, for bounds the code has checked.\<close>

definition slice :: "nat \<Rightarrow> nat \<Rightarrow> 'a list \<Rightarrow> 'a list" where
  "slice i j b = take (j - i) (drop i b)"

lemma length_str [simp]: "length (str b) = length b"
  by (simp add: str_def)

lemma length_bytes_of [simp]: "length (bytes_of s) = length s"
  by (simp add: bytes_of_def)

lemma str_simps [simp]:
  "str [] = []" "str (w # b) = char_of (unat w) # str b" "str (b @ c) = str b @ str c"
  by (simp_all add: str_def)

lemma bytes_of_simps [simp]:
  "bytes_of [] = []" "bytes_of (c # s) = of_nat (of_char c) # bytes_of s"
  "bytes_of (s @ t) = bytes_of s @ bytes_of t"
  by (simp_all add: bytes_of_def)

lemma str_bytes_of [simp]: "str (bytes_of s) = s"
proof (induction s)
  case (Cons c s)
  have "unat (of_nat (of_char c) :: byte) = of_char c"
    by (simp add: unat_of_nat take_bit_eq_mod)
  with Cons show ?case by simp
qed simp

lemma bytes_of_str [simp]: "bytes_of (str b) = b"
proof (induction b)
  case (Cons w b)
  have "unat w < 256" using unsigned_less [of w, where ?'a = nat] by simp
  with Cons show ?case by simp
qed simp

lemma length_slice [simp]: "j \<le> length b \<Longrightarrow> length (slice i j b) = j - i"
  by (simp add: slice_def)

lemma slice_append_left [simp]: "j \<le> length b \<Longrightarrow> slice i j (b @ c) = slice i j b"
  by (cases "i \<le> length b") (simp_all add: slice_def)


lemma byte_cases_lt: "unat (w :: byte) < 256"
  using unsigned_less [of w, where ?'a = nat] by simp

section \<open>Fixed-width integers in a slice\<close>

text \<open>
  \<open>le_nat\<close> and \<open>be_nat\<close> are the values \<^verbatim>\<open>binary.LittleEndian\<close> and \<^verbatim>\<open>binary.BigEndian\<close> read
  from the bytes of a slice; \<open>le_u32\<close> reads the first four bytes, \<open>le_i32\<close> is
  \<^verbatim>\<open>int(int32(binary.LittleEndian.Uint32(b)))\<close>.
\<close>

primrec le_nat :: "bytes \<Rightarrow> nat" where
  "le_nat [] = 0"
| "le_nat (w # b) = unat w + 256 * le_nat b"

definition be_nat :: "bytes \<Rightarrow> nat" where
  "be_nat b = le_nat (rev b)"

definition le_u32 :: "bytes \<Rightarrow> nat" where
  "le_u32 b = le_nat (take 4 b)"

definition le_i32 :: "bytes \<Rightarrow> int" where
  "le_i32 b = sint (of_nat (le_u32 b) :: 32 word)"

definition le_u64 :: "bytes \<Rightarrow> 64 word" where
  "le_u64 b = of_nat (le_nat (take 8 b))"

definition be_u16 :: "bytes \<Rightarrow> nat" where
  "be_u16 b = be_nat (take 2 b)"

definition be_u32 :: "bytes \<Rightarrow> nat" where
  "be_u32 b = be_nat (take 4 b)"

text \<open>The encoders the round-trip lemmas are stated with.\<close>

fun le_enc :: "nat \<Rightarrow> nat \<Rightarrow> bytes" where
  "le_enc 0 v = []"
| "le_enc (Suc k) v = of_nat (v mod 256) # le_enc k (v div 256)"

lemma length_le_enc [simp]: "length (le_enc k v) = k"
  by (induction k arbitrary: v) auto

lemma unat_byte_mod [simp]: "unat (of_nat (v mod 256) :: byte) = v mod 256"
  by (simp add: unat_of_nat take_bit_eq_mod)

lemma le_nat_le_enc [go_le_simps]: "v < 256 ^ k \<Longrightarrow> le_nat (le_enc k v) = v"
proof (induction k arbitrary: v)
  case (Suc k)
  then have "v div 256 < 256 ^ k"
    by (simp add: less_mult_imp_div_less mult.commute)
  from Suc.IH [OF this] show ?case by simp
qed simp

lemma le_enc_le_nat [go_le_simps]: "le_enc (length b) (le_nat b) = b"
proof (induction b)
  case (Cons w b)
  have "unat w < 256" by (rule byte_cases_lt)
  then have "(unat w + 256 * le_nat b) div 256 = le_nat b" "(unat w + 256 * le_nat b) mod 256 = unat w"
    by simp_all
  with Cons show ?case by simp
qed simp

lemma le_nat_append: "le_nat (b @ c) = le_nat b + 256 ^ length b * le_nat c"
  by (induction b) (simp_all add: algebra_simps)

lemma le_nat_less: "le_nat b < 256 ^ length b"
proof (induction b)
  case (Cons w b)
  have "unat w < 256" by (rule byte_cases_lt)
  with Cons have "unat w + 256 * le_nat b < 256 * 256 ^ length b"
    by linarith
  then show ?case by simp
qed simp

lemma le_u32_append [simp, go_le_simps]: "4 \<le> length b \<Longrightarrow> le_u32 (b @ c) = le_u32 b"
  by (simp add: le_u32_def)

lemma le_i32_append [simp, go_le_simps]: "4 \<le> length b \<Longrightarrow> le_i32 (b @ c) = le_i32 b"
  by (simp add: le_i32_def)

lemma sint_of_nat_32: "v < 2 ^ 31 \<Longrightarrow> sint (of_nat v :: 32 word) = int v"
  by (simp add: signed_of_nat signed_take_bit_int_eq_self)

lemma le_u32_le_enc [go_le_simps]: "v < 2 ^ 32 \<Longrightarrow> le_u32 (le_enc 4 v @ c) = v"
  using le_nat_le_enc [of v 4] by (simp add: le_u32_def)

lemma le_i32_le_enc [go_le_simps]: "v < 2 ^ 31 \<Longrightarrow> le_i32 (le_enc 4 v @ c) = int v"
  using le_u32_le_enc [of v c] by (simp add: le_i32_def sint_of_nat_32)

lemma be_u16_append [simp, go_le_simps]: "2 \<le> length b \<Longrightarrow> be_u16 (b @ c) = be_u16 b"
  by (simp add: be_u16_def)

lemma be_u32_append [simp, go_le_simps]: "4 \<le> length b \<Longrightarrow> be_u32 (b @ c) = be_u32 b"
  by (simp add: be_u32_def)

text \<open>Go assembles integers with shifts and \<^verbatim>\<open>|\<close>; on disjoint bits that is addition.\<close>

lemma or_push_bit_add: "b < 2 ^ k \<Longrightarrow> b OR push_bit k a = b + push_bit k (a :: nat)"
proof (rule disjunctive_add [symmetric])
  fix n
  assume b: "b < 2 ^ k"
  show "\<not> bit b n \<or> \<not> bit (push_bit k a) n"
  proof (cases "n < k")
    case True
    then show ?thesis by (simp add: bit_push_bit_iff)
  next
    case False
    then have "b < 2 ^ n" using b by (meson le_less_trans less_le_trans not_less one_le_numeral power_increasing)
    then have "\<not> bit b n" by (simp add: bit_iff_odd)
    then show ?thesis by simp
  qed
qed

lemma unat_drop_bit_byte: "unat (drop_bit k w) = unat (w :: byte) div 2 ^ k"
  by (simp add: unat_drop_bit_eq flip: drop_bit_eq_div)

lemma nat_and_mask:
  "n AND 3 = n mod (4 :: nat)" "n AND 7 = n mod (8 :: nat)"
  "n AND 15 = n mod (16 :: nat)" "n AND 127 = n mod (128 :: nat)"
  using take_bit_eq_mask [of 2 n] take_bit_eq_mask [of 3 n] take_bit_eq_mask [of 4 n] take_bit_eq_mask [of 7 n]
  by (simp_all add: take_bit_eq_mod mask_eq_exp_minus_1)

lemma unat_and_mask_byte:
  "unat (w AND 3) = unat (w :: byte) mod 4" "unat (w AND 7) = unat w mod 8"
  "unat (w AND 15) = unat w mod 16" "unat (w AND 127) = unat w mod 128"
  by (simp_all add: unsigned_and_eq nat_and_mask)

text \<open>A predicate of a conditional, for proofs over long chains of branches.\<close>

lemma if_pred: "(b \<Longrightarrow> P x) \<Longrightarrow> (\<not> b \<Longrightarrow> P y) \<Longrightarrow> P (if b then x else y)"
  by simp

end
