(* ===== verification/Go_Strings.thy ===== *)
theory Go_Strings
  imports Go_Prelude
begin

text \<open>
  The functions of Go's packages \<^verbatim>\<open>strings\<close> and \<^verbatim>\<open>strconv\<close> that the modelled code calls, on
  strings as byte sequences: \<open>TrimSpace\<close> (Unicode white space, recognised by its UTF-8
  encoding), \<open>HasPrefix\<close>, \<open>CutPrefix\<close>, \<open>Contains\<close>, \<open>Cut\<close>, \<open>Join\<close>, \<open>ParseInt\<close> in base 10
  with its 64-bit range check, and \<open>Itoa\<close>.
\<close>

section \<open>Package strings\<close>

definition go_spaces :: "string list" where
  "go_spaces =
     [[CHR 0x09], [CHR 0x0A], [CHR 0x0B], [CHR 0x0C], [CHR 0x0D], [CHR 0x20],
      [CHR 0xC2, CHR 0x85], [CHR 0xC2, CHR 0xA0], [CHR 0xE1, CHR 0x9A, CHR 0x80],
      [CHR 0xE2, CHR 0x80, CHR 0x80], [CHR 0xE2, CHR 0x80, CHR 0x81], [CHR 0xE2, CHR 0x80, CHR 0x82],
      [CHR 0xE2, CHR 0x80, CHR 0x83], [CHR 0xE2, CHR 0x80, CHR 0x84], [CHR 0xE2, CHR 0x80, CHR 0x85],
      [CHR 0xE2, CHR 0x80, CHR 0x86], [CHR 0xE2, CHR 0x80, CHR 0x87], [CHR 0xE2, CHR 0x80, CHR 0x88],
      [CHR 0xE2, CHR 0x80, CHR 0x89], [CHR 0xE2, CHR 0x80, CHR 0x8A], [CHR 0xE2, CHR 0x80, CHR 0xA8],
      [CHR 0xE2, CHR 0x80, CHR 0xA9], [CHR 0xE2, CHR 0x80, CHR 0xAF], [CHR 0xE2, CHR 0x81, CHR 0x9F],
      [CHR 0xE3, CHR 0x80, CHR 0x80]]"

lemma go_spaces_nonempty: "find P go_spaces = Some p \<Longrightarrow> p \<noteq> []"
  by (auto simp: go_spaces_def split: if_splits)

function go_TrimLeft :: "string \<Rightarrow> string" where
  "go_TrimLeft s =
     (if s = [] then s
      else case find (\<lambda>p. prefix p s) go_spaces of
             None \<Rightarrow> s
           | Some p \<Rightarrow> go_TrimLeft (drop (length p) s))"
  by pat_completeness auto
termination
  by (relation "measure length") (auto dest: go_spaces_nonempty)

function go_TrimRight :: "string \<Rightarrow> string" where
  "go_TrimRight s =
     (if s = [] then s
      else case find (\<lambda>p. suffix p s) go_spaces of
             None \<Rightarrow> s
           | Some p \<Rightarrow> go_TrimRight (take (length s - length p) s))"
  by pat_completeness auto
termination
  by (relation "measure length") (auto dest: go_spaces_nonempty)

declare go_TrimLeft.simps [simp del] go_TrimRight.simps [simp del]

definition go_TrimSpace :: "string \<Rightarrow> string" where
  "go_TrimSpace s = go_TrimRight (go_TrimLeft s)"

definition go_HasPrefix :: "string \<Rightarrow> string \<Rightarrow> bool" where
  "go_HasPrefix s p = prefix p s"

definition go_CutPrefix :: "string \<Rightarrow> string \<Rightarrow> string option" where
  "go_CutPrefix s p = (if prefix p s then Some (drop (length p) s) else None)"

definition go_Contains :: "string \<Rightarrow> string \<Rightarrow> bool" where
  "go_Contains s t = sublist t s"

text \<open>\<^verbatim>\<open>strings.Cut\<close> at a one-byte separator: before, after, found.\<close>

definition go_Cut :: "string \<Rightarrow> char \<Rightarrow> string \<times> string \<times> bool" where
  "go_Cut s c = (let a = takeWhile (\<lambda>x. x \<noteq> c) s
     in if length a = length s then (s, [], False) else (a, drop (length a + 1) s, True))"

text \<open>\<^verbatim>\<open>strings.Index\<close>; the code gets -1 where this is \<open>None\<close>.\<close>

definition go_Index :: "string \<Rightarrow> string \<Rightarrow> nat option" where
  "go_Index s t = find (\<lambda>i. prefix t (drop i s)) [0..<length s + 1]"

fun go_Join :: "string list \<Rightarrow> string \<Rightarrow> string" where
  "go_Join [] sep = []"
| "go_Join [s] sep = s"
| "go_Join (s # t # ss) sep = s @ sep @ go_Join (t # ss) sep"

text \<open>\<^verbatim>\<open>strings.Split\<close> at a one-byte separator: always at least one part.\<close>

fun go_Split :: "string \<Rightarrow> char \<Rightarrow> string list" where
  "go_Split [] c = [[]]"
| "go_Split (x # s) c =
     (if x = c then [] # go_Split s c
      else (case go_Split s c of [] \<Rightarrow> [[x]] | p # ps \<Rightarrow> (x # p) # ps))"

definition go_TrimPrefix :: "string \<Rightarrow> string \<Rightarrow> string" where
  "go_TrimPrefix s p = (if prefix p s then drop (length p) s else s)"

definition go_TrimSuffix :: "string \<Rightarrow> string \<Rightarrow> string" where
  "go_TrimSuffix s p = (if suffix p s then take (length s - length p) s else s)"

text \<open>
  \<^verbatim>\<open>strings.Fields\<close>: the runs of text between white space. \<open>go_field\<close> takes one such run off
  the head of the string.
\<close>

fun go_field :: "string \<Rightarrow> string \<times> string" where
  "go_field [] = ([], [])"
| "go_field (c # s) =
     (if find (\<lambda>p. prefix p (c # s)) go_spaces \<noteq> None then ([], c # s)
      else (let (f, r) = go_field s in (c # f, r)))"

lemma go_field_split: "s = fst (go_field s) @ snd (go_field s)"
  by (induction s rule: go_field.induct) (auto simp: split_beta Let_def)

lemma length_go_TrimLeft_le: "length (go_TrimLeft s) \<le> length s"
proof (induction s rule: go_TrimLeft.induct)
  case (1 s)
  show ?case
  proof (cases "s = [] \<or> find (\<lambda>p. prefix p s) go_spaces = None")
    case False
    then obtain p where "find (\<lambda>p. prefix p s) go_spaces = Some p" "s \<noteq> []" by auto
    with 1 [of p] show ?thesis by (simp add: go_TrimLeft.simps [of s])
  qed (auto simp: go_TrimLeft.simps [of s])
qed

lemma go_TrimLeft_no_space: "find (\<lambda>p. prefix p (go_TrimLeft s)) go_spaces = None"
proof (induction s rule: go_TrimLeft.induct)
  case (1 s)
  show ?case
  proof (cases "s = []")
    case True
    then show ?thesis
      by (auto simp: go_TrimLeft.simps [of "[]"] find_None_iff go_spaces_def)
  next
    case False
    with 1 show ?thesis
      by (cases "find (\<lambda>p. prefix p s) go_spaces") (simp_all add: go_TrimLeft.simps [of s])
  qed
qed

lemma go_field_shorter: "go_TrimLeft s \<noteq> [] \<Longrightarrow> length (snd (go_field (go_TrimLeft s))) < length s"
proof -
  assume ne: "go_TrimLeft s \<noteq> []"
  then obtain c t where ct: "go_TrimLeft s = c # t" by (cases "go_TrimLeft s") auto
  have "fst (go_field (c # t)) \<noteq> []"
    using go_TrimLeft_no_space [of s] ct by (simp add: split_beta Let_def)
  then have "0 < length (fst (go_field (c # t)))" by blast
  moreover have "length (c # t) = length (fst (go_field (c # t))) + length (snd (go_field (c # t)))"
    using arg_cong [OF go_field_split [of "c # t"], of length] by simp
  moreover have "length (c # t) \<le> length s" using length_go_TrimLeft_le [of s] ct by simp
  ultimately show ?thesis by (simp only: ct)
qed

function go_Fields :: "string \<Rightarrow> string list" where
  "go_Fields s =
     (if go_TrimLeft s = [] then []
      else fst (go_field (go_TrimLeft s)) # go_Fields (snd (go_field (go_TrimLeft s))))"
  by pat_completeness auto
termination
  by (relation "measure length") (auto simp: go_field_shorter)

declare go_Fields.simps [simp del]

text \<open>
  The UTF-8 decoder behind \<^verbatim>\<open>for _, r := range s\<close> and \<^verbatim>\<open>utf8.DecodeRuneInString\<close>: the code
  point at the head of the string and how many bytes it took. A malformed sequence is
  \<^verbatim>\<open>utf8.RuneError\<close> (0xFFFD) of width one.
\<close>

definition go_cont :: "nat \<Rightarrow> bool" where
  "go_cont c \<longleftrightarrow> 128 \<le> c \<and> c \<le> 191"

definition go_rune2_lo :: "nat \<Rightarrow> nat" where
  "go_rune2_lo c = (if c = 224 then 160 else if c = 240 then 144 else 128)"

definition go_rune2_hi :: "nat \<Rightarrow> nat" where
  "go_rune2_hi c = (if c = 237 then 159 else if c = 244 then 143 else 191)"

definition go_DecodeRune :: "nat list \<Rightarrow> nat \<times> nat" where
  "go_DecodeRune s =
     (if s = [] then (65533, 0)
      else let c = s ! 0; d = s ! 1; e = s ! 2; f = s ! 3; n = length s;
               d_ok = (n > 1 \<and> go_rune2_lo c \<le> d \<and> d \<le> go_rune2_hi c) in
        if c < 128 then (c, 1)
        else if 194 \<le> c \<and> c \<le> 223 \<and> d_ok then (64 * (c - 192) + (d - 128), 2)
        else if 224 \<le> c \<and> c \<le> 239 \<and> d_ok \<and> n > 2 \<and> go_cont e
          then (4096 * (c - 224) + 64 * (d - 128) + (e - 128), 3)
        else if 240 \<le> c \<and> c \<le> 244 \<and> d_ok \<and> n > 3 \<and> go_cont e \<and> go_cont f
          then (262144 * (c - 240) + 4096 * (d - 128) + 64 * (e - 128) + (f - 128), 4)
        else (65533, 1))"

lemma go_DecodeRune_width: "s \<noteq> [] \<Longrightarrow> 0 < snd (go_DecodeRune s) \<and> snd (go_DecodeRune s) \<le> length s"
  by (cases s) (auto simp: go_DecodeRune_def Let_def Suc_le_eq)

function go_rune_codes :: "nat list \<Rightarrow> nat list" where
  "go_rune_codes s =
     (if s = [] then []
      else fst (go_DecodeRune s) # go_rune_codes (drop (snd (go_DecodeRune s)) s))"
  by pat_completeness auto
termination
proof (relation "measure length")
  fix s :: "nat list"
  assume "s \<noteq> []"
  with go_DecodeRune_width [OF this] show "(drop (snd (go_DecodeRune s)) s, s) \<in> measure length" by simp
qed simp

declare go_rune_codes.simps [simp del]

definition go_runes :: "string \<Rightarrow> nat list" where
  "go_runes s = go_rune_codes (map of_char s)"

text \<open>
  \<^verbatim>\<open>strings.Map\<close>: each code point is mapped or dropped and the result encoded again, so a
  malformed byte comes out as the encoding of \<^verbatim>\<open>utf8.RuneError\<close>.
\<close>

definition go_EncodeRune :: "nat \<Rightarrow> string" where
  "go_EncodeRune r = map char_of
     (if r < 128 then [r]
      else if r < 2048 then [192 + r div 64, 128 + r mod 64]
      else if r < 65536 then [224 + r div 4096, 128 + r div 64 mod 64, 128 + r mod 64]
      else [240 + r div 262144, 128 + r div 4096 mod 64, 128 + r div 64 mod 64, 128 + r mod 64])"

definition go_Map :: "(nat \<Rightarrow> nat option) \<Rightarrow> string \<Rightarrow> string" where
  "go_Map f s = concat (map go_EncodeRune (List.map_filter f (go_runes s)))"

text \<open>The formats \<^verbatim>\<open>%02x\<close> of a byte and \<^verbatim>\<open>%04x\<close> of a 16-bit number, and three characters beyond ASCII.\<close>

definition hex_char :: "nat \<Rightarrow> char" where
  "hex_char d = char_of (if d < 10 then 48 + d else 87 + d)"

definition go_02x :: "byte \<Rightarrow> string" where
  "go_02x b = [hex_char (unat b div 16), hex_char (unat b mod 16)]"

definition go_04x :: "nat \<Rightarrow> string" where
  "go_04x v = [hex_char (v div 4096 mod 16), hex_char (v div 256 mod 16), hex_char (v div 16 mod 16), hex_char (v mod 16)]"

definition em_dash :: string where "em_dash = [CHR 0xE2, CHR 0x80, CHR 0x94]"
definition ellipsis :: string where "ellipsis = [CHR 0xE2, CHR 0x80, CHR 0xA6]"
definition right_arrow :: string where "right_arrow = [CHR 0xE2, CHR 0x86, CHR 0x92]"

text \<open>ASCII letters: \<^verbatim>\<open>strings.ToUpper\<close> on an ASCII string.\<close>

definition go_upper_char :: "char \<Rightarrow> char" where
  "go_upper_char c = (if 97 \<le> (of_char c :: nat) \<and> (of_char c :: nat) \<le> 122
     then char_of ((of_char c :: nat) - 32) else c)"

section \<open>Package strconv\<close>

definition go_digit :: "char \<Rightarrow> bool" where
  "go_digit c \<longleftrightarrow> 48 \<le> (of_char c :: nat) \<and> (of_char c :: nat) \<le> 57"

definition go_digit_val :: "char \<Rightarrow> nat" where
  "go_digit_val c = of_char c - 48"

fun go_digits_val :: "string \<Rightarrow> nat \<Rightarrow> nat option" where
  "go_digits_val [] acc = Some acc"
| "go_digits_val (c # s) acc =
     (if go_digit c then go_digits_val s (10 * acc + go_digit_val c) else None)"

definition go_ParseUint :: "string \<Rightarrow> nat option" where
  "go_ParseUint s = (if s = [] then None else go_digits_val s 0)"

text \<open>\<^verbatim>\<open>strconv.ParseInt(s, 10, 64)\<close> and \<^verbatim>\<open>strconv.Atoi(s)\<close>: an optional sign, digits, the 64-bit range.\<close>

definition go_ParseInt :: "string \<Rightarrow> int option" where
  "go_ParseInt s =
     (let (neg, ds) = (case s of
          [] \<Rightarrow> (False, [])
        | c # t \<Rightarrow> if c = CHR ''+'' then (False, t) else if c = CHR ''-'' then (True, t) else (False, s))
      in case go_ParseUint ds of
           None \<Rightarrow> None
         | Some u \<Rightarrow> if neg then (if u > 2 ^ 63 then None else Some (- int u))
                     else (if u \<ge> 2 ^ 63 then None else Some (int u)))"

definition digit_char :: "nat \<Rightarrow> char" where
  "digit_char d = char_of (48 + d)"

fun go_utoa :: "nat \<Rightarrow> string" where
  "go_utoa n = (if n < 10 then [digit_char n] else go_utoa (n div 10) @ [digit_char (n mod 10)])"

declare go_utoa.simps [simp del]

definition go_Itoa :: "int \<Rightarrow> string" where
  "go_Itoa i = (if i < 0 then CHR ''-'' # go_utoa (nat (- i)) else go_utoa (nat i))"

text \<open>\<^verbatim>\<open>%.1f\<close> of a quotient that a \<^verbatim>\<open>float64\<close> holds exactly, and \<^verbatim>\<open>%.0f\<close>: half to even.\<close>

definition go_round_div :: "nat \<Rightarrow> nat \<Rightarrow> nat" where
  "go_round_div a b =
     (let q = a div b; r = a mod b in if 2 * r > b \<or> (2 * r = b \<and> q mod 2 = 1) then q + 1 else q)"

definition go_1f :: "nat \<Rightarrow> nat \<Rightarrow> string" where
  "go_1f a b = (let t = go_round_div (10 * a) b in go_utoa (t div 10) @ ''.'' @ [digit_char (t mod 10)])"

section \<open>Lemmas\<close>

lemma of_char_digit_char [simp]: "d < 10 \<Longrightarrow> (of_char (digit_char d) :: nat) = 48 + d"
  by (simp add: digit_char_def)

lemma go_digit_digit_char [simp]: "d < 10 \<Longrightarrow> go_digit (digit_char d)"
  "d < 10 \<Longrightarrow> go_digit_val (digit_char d) = d"
  by (simp_all add: go_digit_def go_digit_val_def)

lemma go_utoa_nonempty [simp]: "go_utoa n \<noteq> []"
  by (subst go_utoa.simps) simp

lemma go_utoa_digits: "\<forall>c \<in> set (go_utoa n). go_digit c"
proof (induction n rule: go_utoa.induct)
  case (1 n)
  then show ?case by (cases "n < 10") (auto simp: go_utoa.simps [of n])
qed

lemma go_digits_val_append:
  "go_digits_val (s @ t) acc = (case go_digits_val s acc of None \<Rightarrow> None | Some v \<Rightarrow> go_digits_val t v)"
  by (induction s arbitrary: acc) auto

lemma go_digits_val_utoa: "go_digits_val (go_utoa n) 0 = Some n"
proof (induction n rule: go_utoa.induct)
  case (1 n)
  then show ?case
    by (cases "n < 10") (simp_all add: go_utoa.simps [of n] go_digits_val_append)
qed

lemma go_digit_not_sign: "go_digit c \<Longrightarrow> c \<noteq> CHR ''+'' \<and> c \<noteq> CHR ''-''"
  by (auto simp: go_digit_def)

lemma go_utoa_hd: "go_digit (hd (go_utoa n))"
  using go_utoa_digits [of n] by (cases "go_utoa n") auto

lemma go_ParseInt_utoa [go_str_simps]: "n < 2 ^ 63 \<Longrightarrow> go_ParseInt (go_utoa n) = Some (int n)"
  using go_digit_not_sign [OF go_utoa_hd, of n] go_digits_val_utoa [of n]
  by (cases "go_utoa n") (simp_all add: go_ParseInt_def go_ParseUint_def)

lemma go_ParseInt_Itoa [go_str_simps]:
  "- (2 ^ 63) \<le> i \<Longrightarrow> i < 2 ^ 63 \<Longrightarrow> go_ParseInt (go_Itoa i) = Some i"
proof (cases "i < 0")
  case True
  assume b: "- (2 ^ 63) \<le> i"
  have "go_ParseInt (go_Itoa i) = (if nat (- i) > 2 ^ 63 then None else Some (- int (nat (- i))))"
    using True by (simp add: go_Itoa_def go_ParseInt_def go_ParseUint_def go_digits_val_utoa)
  with b True show ?thesis by auto
next
  case False
  assume "i < 2 ^ 63"
  then have "nat i < 2 ^ 63" by simp
  with False show ?thesis by (simp add: go_Itoa_def go_ParseInt_utoa)
qed

lemma go_ParseInt_range: "go_ParseInt s = Some i \<Longrightarrow> - (2 ^ 63) \<le> i \<and> i < 2 ^ 63"
  by (auto simp: go_ParseInt_def Let_def split: option.splits list.splits if_splits)

text \<open>Text with no byte that could begin or end a white-space character is left alone.\<close>

definition go_plain :: "char \<Rightarrow> bool" where
  "go_plain c \<longleftrightarrow> 33 \<le> (of_char c :: nat) \<and> (of_char c :: nat) < 128"

lemma go_spaces_not_plain: "p \<in> set go_spaces \<Longrightarrow> \<not> go_plain (hd p) \<and> \<not> go_plain (last p)"
  by (auto simp: go_spaces_def go_plain_def)

lemma find_go_spaces_None:
  "\<forall>c \<in> set s. go_plain c \<Longrightarrow> find (\<lambda>p. prefix p s) go_spaces = None"
  "\<forall>c \<in> set s. go_plain c \<Longrightarrow> find (\<lambda>p. suffix p s) go_spaces = None"
proof -
  have ne: "\<forall>p \<in> set go_spaces. p \<noteq> []" by (simp add: go_spaces_def)
  assume pl: "\<forall>c \<in> set s. go_plain c"
  show "find (\<lambda>p. prefix p s) go_spaces = None"
    unfolding find_None_iff using pl ne go_spaces_not_plain
    by (metis hd_in_set set_mono_prefix subsetD)
  show "find (\<lambda>p. suffix p s) go_spaces = None"
    unfolding find_None_iff using pl ne go_spaces_not_plain
    by (metis last_in_set set_mono_suffix subsetD)
qed

lemma go_TrimSpace_plain [go_str_simps]: "\<forall>c \<in> set s. go_plain c \<Longrightarrow> go_TrimSpace s = s"
  by (simp add: go_TrimSpace_def go_TrimLeft.simps [of s] go_TrimRight.simps [of s] go_TrimRight.simps [of "[]"] find_go_spaces_None)

lemma go_digit_plain: "go_digit c \<Longrightarrow> go_plain c"
  by (simp add: go_digit_def go_plain_def)

lemma go_TrimSpace_utoa [go_str_simps]: "go_TrimSpace (go_utoa n) = go_utoa n"
  using go_utoa_digits [of n] by (intro go_TrimSpace_plain) (auto intro: go_digit_plain)

lemma go_TrimSpace_Itoa [go_str_simps]: "go_TrimSpace (go_Itoa i) = go_Itoa i"
  using go_utoa_digits
  by (intro go_TrimSpace_plain) (auto simp: go_Itoa_def go_plain_def [of "CHR ''-''"] intro: go_digit_plain)

section \<open>Splitting\<close>

lemma go_Split_nonempty [simp]: "go_Split s c \<noteq> []"
  by (cases s) (auto split: list.splits)

lemma go_Split_no_sep: "p \<in> set (go_Split s c) \<Longrightarrow> c \<notin> set p"
proof (induction s arbitrary: p)
  case (Cons x s)
  then show ?case by (cases "go_Split s c") (auto split: if_splits)
qed simp

lemma go_Split_plain: "c \<notin> set s \<Longrightarrow> go_Split s c = [s]"
  by (induction s) auto

lemma go_Split_cut: "c \<notin> set p \<Longrightarrow> go_Split (p @ c # s) c = p # go_Split s c"
  by (induction p) auto

lemma go_Split_append: "go_Split (s @ c # t) c = go_Split s c @ go_Split t c"
proof (induction s)
  case (Cons x s)
  then show ?case by (cases "go_Split s c") auto
qed simp

lemma go_Cut_found: "c \<notin> set p \<Longrightarrow> go_Cut (p @ c # s) c = (p, s, True)"
proof -
  assume c: "c \<notin> set p"
  then have "takeWhile (\<lambda>x. x \<noteq> c) (p @ c # s) = p"
    by (subst takeWhile_append2) auto
  then show ?thesis by (simp add: go_Cut_def)
qed

lemma go_Cut_missing: "c \<notin> set p \<Longrightarrow> go_Cut p c = (p, [], False)"
proof -
  assume c: "c \<notin> set p"
  have "takeWhile (\<lambda>x. x \<noteq> c) p = p"
    using c by (auto simp: takeWhile_eq_all_conv)
  then show ?thesis unfolding go_Cut_def Let_def by (rule ssubst) simp
qed

lemma go_rune_codes_ascii: "\<forall>c \<in> set s. c < 128 \<Longrightarrow> go_rune_codes s = s"
proof (induction s)
  case (Cons c s)
  then show ?case by (simp add: go_rune_codes.simps [of "c # s"] go_DecodeRune_def)
qed (simp add: go_rune_codes.simps [of "[]"])

end
