(* ===== verification/Frame_Reader.thy ===== *)
theory Frame_Reader
  imports Go_Prelude
begin

text \<open>
  The contract between a packet decoder and the framing routine it calls. Every protocol
  decoder of the packet inspector (\<^verbatim>\<open>pktAppDecode\<close>, \<^verbatim>\<open>pktValkeyDecode\<close>, \<^verbatim>\<open>pktMongoDecode\<close>, \<^verbatim>\<open>pktPGDecode\<close>)
  keeps a buffer per direction, appends each TCP segment to it, and then takes complete
  messages off its head for as long as the framing routine finds one. \<open>drain\<close> is that
  inner loop and \<open>feed\<close> the outer one, over any framing routine.

  A framing routine keeps the contract \<open>frame_reader\<close> when what it returns lies within the
  buffer, makes progress, and does not depend on bytes that have not arrived yet. From
  those laws alone follows what makes reassembly correct: how TCP cut the stream into
  segments does not change the messages that are decoded.
\<close>

text \<open>
  Take messages off the head of the buffer while there are any. The guard on \<open>n\<close> makes the
  function total for any routine; under the contract it never fires.
\<close>

function drain :: "(bytes \<Rightarrow> ('m \<times> nat) option) \<Rightarrow> bytes \<Rightarrow> 'm list \<times> bytes" where
  "drain rd b =
     (case rd b of
        None \<Rightarrow> ([], b)
      | Some (m, n) \<Rightarrow>
          if n = 0 \<or> n > length b then ([], b)
          else let (ms, r) = drain rd (drop n b) in (m # ms, r))"
  by pat_completeness auto
termination
  by (relation "measure (\<lambda>(rd, b). length b)") auto

declare drain.simps [simp del]

text \<open>Segments arrive one by one; what is left of one waits for the next.\<close>

fun feed :: "(bytes \<Rightarrow> ('m \<times> nat) option) \<Rightarrow> bytes \<Rightarrow> bytes list \<Rightarrow> 'm list \<times> bytes" where
  "feed rd buf [] = ([], buf)"
| "feed rd buf (s # segs) =
     (let (ms, r) = drain rd (buf @ s); (ms', r') = feed rd r segs in (ms @ ms', r'))"

locale frame_reader =
  fixes rd :: "bytes \<Rightarrow> ('m \<times> nat) option"
  assumes rd_pos: "rd b = Some (m, n) \<Longrightarrow> 0 < n"
    and rd_within: "rd b = Some (m, n) \<Longrightarrow> n \<le> length b"
    and rd_stable: "rd b = Some (m, n) \<Longrightarrow> rd (b @ c) = Some (m, n)"
begin

lemma drain_None: "rd b = None \<Longrightarrow> drain rd b = ([], b)"
  by (simp add: drain.simps [of rd b])

lemma drain_Some:
  "rd b = Some (m, n) \<Longrightarrow> drain rd b = (m # fst (drain rd (drop n b)), snd (drain rd (drop n b)))"
  using rd_pos [of b m n] rd_within [of b m n]
  by (simp add: drain.simps [of rd b] split_beta Let_def)

text \<open>What is left after draining holds no further message.\<close>

lemma drain_rest_None: "rd (snd (drain rd b)) = None"
proof (induction "length b" arbitrary: b rule: less_induct)
  case less
  show ?case
  proof (cases "rd b")
    case (Some mn)
    obtain m n where mn: "mn = (m, n)" by (cases mn)
    have "length (drop n b) < length b"
      using rd_pos [OF Some [unfolded mn]] rd_within [OF Some [unfolded mn]] by simp
    with less show ?thesis using drain_Some [OF Some [unfolded mn]] by simp
  qed (simp add: drain_None)
qed

text \<open>Draining part of the buffer first changes nothing.\<close>

lemma drain_append:
  "drain rd (b @ c) =
     (fst (drain rd b) @ fst (drain rd (snd (drain rd b) @ c)), snd (drain rd (snd (drain rd b) @ c)))"
proof (induction "length b" arbitrary: b rule: less_induct)
  case less
  show ?case
  proof (cases "rd b")
    case None
    then show ?thesis by (simp add: drain_None)
  next
    case (Some mn)
    obtain m n where mn: "mn = (m, n)" by (cases mn)
    note rd = Some [unfolded mn]
    have n: "0 < n" "n \<le> length b" using rd_pos [OF rd] rd_within [OF rd] by auto
    have "drain rd (b @ c) =
        (m # fst (drain rd (drop n b @ c)), snd (drain rd (drop n b @ c)))"
      using drain_Some [OF rd_stable [OF rd]] n by simp
    with less [of "drop n b"] n drain_Some [OF rd] show ?thesis by simp
  qed
qed

text \<open>The messages do not depend on how the stream was cut into segments.\<close>

theorem feed_concat: "feed rd (snd (drain rd buf)) segs =
    (drop (length (fst (drain rd buf))) (fst (drain rd (buf @ concat segs))), snd (drain rd (buf @ concat segs)))"
proof (induction segs arbitrary: buf)
  case Nil
  then show ?case by simp
next
  case (Cons s segs)
  let ?r = "snd (drain rd buf)"
  have a: "drain rd (buf @ s @ t) =
      (fst (drain rd buf) @ fst (drain rd (?r @ s @ t)), snd (drain rd (?r @ s @ t)))" for t
    by (rule drain_append)
  have b: "drain rd ((?r @ s) @ concat segs) =
     (fst (drain rd (?r @ s)) @ fst (drain rd (snd (drain rd (?r @ s)) @ concat segs)),
      snd (drain rd (snd (drain rd (?r @ s)) @ concat segs)))"
    by (rule drain_append)
  show ?case
    using Cons [of "?r @ s"] a [of "concat segs"] b
    by (simp add: split_beta Let_def)
qed

lemma rd_Nil: "rd [] = None"
  using rd_pos [of "[]"] rd_within [of "[]"] by (cases "rd []") fastforce+

corollary feed_start: "feed rd [] segs = drain rd (concat segs)"
  using feed_concat [of "[]" segs] by (simp add: drain_None rd_Nil)

corollary feed_same_stream: "concat segs = concat segs' \<Longrightarrow> feed rd [] segs = feed rd [] segs'"
  by (simp add: feed_start)

end

end
