(* ===== verification/Snappy.thy ===== *)
theory Snappy
  imports Go_Prelude
begin

unbundle bit_operations_syntax

text \<open>
  The raw-block Snappy decompressor of \<^verbatim>\<open>src/app/pktsnappy.go\<close>, which the MongoDB decoder
  runs on every compressed message. \<open>snappyDecode\<close>, \<open>snappyLength\<close> and \<open>snappyCopy\<close> are the
  three functions of the file; one turn of the decoder's loop is \<open>snappy_step\<close>. Against
  them stands a specification of the format that does not mention the decoder: a block is a
  varint length followed by elements (\<open>snappy_elem\<close>), each in one of the seven encodings of
  \<open>snappy_encodes\<close>, and means what \<open>snappy_run\<close> says. The lemmas show that the decoder
  accepts exactly the well-formed blocks and returns their meaning.
\<close>

section \<open>The decoder\<close>

datatype snappy_error =
    NoPreamble
  | Implausible nat
  | HeaderMismatch nat int
  | TruncatedLiteralLength
  | LiteralPastBlock nat
  | TruncatedCopy1
  | TruncatedCopy2
  | TruncatedCopy4
  | CopyOutside int nat
  | NegativeCopyLength
  | OutputOverran
  | DecodedOtherLength nat nat

definition snappyMaxOut :: nat where
  "snappyMaxOut = push_bit 20 128"

fun snappyLength_loop :: "bytes \<Rightarrow> nat \<Rightarrow> nat \<Rightarrow> nat \<Rightarrow> snappy_error + nat \<times> nat" where
  "snappyLength_loop [] i v shift = Inl NoPreamble"
| "snappyLength_loop (b # src) i v shift =
     (if \<not> i < 5 then Inl NoPreamble
      else let v' = v OR push_bit shift (unat (b AND 0x7f))
           in if b AND 0x80 = 0 then Inr (v', i + 1)
              else snappyLength_loop src (i + 1) v' (shift + 7))"

definition snappyLength :: "bytes \<Rightarrow> snappy_error + nat \<times> nat" where
  "snappyLength src = snappyLength_loop src 0 0 0"

text \<open>The byte-by-byte loop of a back-reference: \<open>at\<close> is \<^verbatim>\<open>start+i\<close>.\<close>

primrec snappyCopy_loop :: "nat \<Rightarrow> nat \<Rightarrow> bytes \<Rightarrow> bytes" where
  "snappyCopy_loop 0 at dst = dst"
| "snappyCopy_loop (Suc k) at dst = snappyCopy_loop k (at + 1) (dst @ [dst ! at])"

definition snappyCopy :: "bytes \<Rightarrow> int \<Rightarrow> int \<Rightarrow> snappy_error + bytes" where
  "snappyCopy dst offset len =
     (if offset \<le> 0 \<or> offset > int (length dst) then Inl (CopyOutside offset (length dst))
      else if len < 0 then Inl NegativeCopyLength
      else Inr (snappyCopy_loop (nat len) (length dst - nat offset) dst))"

text \<open>\<^verbatim>\<open>for i := 0; i < lenBytes; i++ { v |= int(src[1+i]) << (8 * i) }\<close>\<close>

primrec snappy_lenBytes :: "bytes \<Rightarrow> nat \<Rightarrow> nat \<Rightarrow> nat" where
  "snappy_lenBytes [] i v = v"
| "snappy_lenBytes (b # bs) i v = snappy_lenBytes bs (i + 1) (v OR push_bit (8 * i) (unat b))"

text \<open>How many bytes of explicit length a literal tag announces.\<close>

definition snappy_lenBytes_of :: "nat \<Rightarrow> nat" where
  "snappy_lenBytes_of len0 = (if len0 < 60 then 0 else if len0 = 60 then 1
     else if len0 = 61 then 2 else if len0 = 62 then 3 else 4)"

text \<open>
  One turn of the loop over a non-empty \<open>src\<close>: the rest of the block and the output so far
  after the element at its head.
\<close>

definition snappy_step :: "bytes \<Rightarrow> bytes \<Rightarrow> snappy_error + bytes \<times> bytes" where
  "snappy_step src dst =
     (let tag = src ! 0 in
      if tag AND 0x03 = 0 then
        (let len0 = unat (drop_bit 2 tag);
             lenBytes = snappy_lenBytes_of len0
         in if lenBytes > 0 \<and> length src < 1 + lenBytes then Inl TruncatedLiteralLength
            else let len = (if lenBytes > 0 then snappy_lenBytes (slice 1 (1 + lenBytes) src) 0 0 + 1
                            else len0 + 1);
                     off = 1 + lenBytes
                 in if off + len > length src then Inl (LiteralPastBlock len)
                    else Inr (drop (off + len) src, dst @ slice off (off + len) src))
      else if tag AND 0x03 = 1 then
        (if length src < 2 then Inl TruncatedCopy1
         else let len = 4 + unat (drop_bit 2 tag AND 0x07);
                  offset = push_bit 8 (unat (drop_bit 5 tag AND 0x07)) OR unat (src ! 1)
              in case snappyCopy dst (int offset) (int len) of
                   Inl e \<Rightarrow> Inl e | Inr dst' \<Rightarrow> Inr (drop 2 src, dst'))
      else if tag AND 0x03 = 2 then
        (if length src < 3 then Inl TruncatedCopy2
         else let len = 1 + unat (drop_bit 2 tag);
                  offset = unat (src ! 1) OR push_bit 8 (unat (src ! 2))
              in case snappyCopy dst (int offset) (int len) of
                   Inl e \<Rightarrow> Inl e | Inr dst' \<Rightarrow> Inr (drop 3 src, dst'))
      else
        (if length src < 5 then Inl TruncatedCopy4
         else let len = 1 + unat (drop_bit 2 tag);
                  offset = ((unat (src ! 1) OR push_bit 8 (unat (src ! 2)))
                             OR push_bit 16 (unat (src ! 3))) OR push_bit 24 (unat (src ! 4))
              in case snappyCopy dst (int offset) (int len) of
                   Inl e \<Rightarrow> Inl e | Inr dst' \<Rightarrow> Inr (drop 5 src, dst')))"

text \<open>Every turn takes at least the tag byte off the block, so the loop ends.\<close>

lemma snappy_step_shorter:
  "snappy_step src dst = Inr (src', dst') \<Longrightarrow> src \<noteq> [] \<Longrightarrow> length src' < length src"
  by (auto simp: snappy_step_def Let_def split: if_splits sum.splits)

function snappyDecode_loop :: "nat \<Rightarrow> bytes \<Rightarrow> bytes \<Rightarrow> snappy_error + bytes" where
  "snappyDecode_loop n src dst =
     (if src = [] then
        (if length dst \<noteq> n then Inl (DecodedOtherLength (length dst) n) else Inr dst)
      else case snappy_step src dst of
             Inl e \<Rightarrow> Inl e
           | Inr (src', dst') \<Rightarrow>
               if length dst' > n then Inl OutputOverran else snappyDecode_loop n src' dst')"
  by pat_completeness auto
termination
  by (relation "measure (\<lambda>(n, src, dst). length src)") (auto dest: snappy_step_shorter)

declare snappyDecode_loop.simps [simp del]

definition snappyDecode :: "bytes \<Rightarrow> int \<Rightarrow> snappy_error + bytes" where
  "snappyDecode src want =
     (case snappyLength src of
        Inl e \<Rightarrow> Inl e
      | Inr (n, hdr) \<Rightarrow>
          if n > snappyMaxOut then Inl (Implausible n)
          else if want \<ge> 0 \<and> int n \<noteq> want then Inl (HeaderMismatch n want)
          else snappyDecode_loop n (drop hdr src) [])"

section \<open>The format, independently of the decoder\<close>

datatype snappy_elem = Literal bytes | Copy nat nat

text \<open>
  A back-reference of length \<open>l\<close> to the last \<open>d\<close> bytes repeats those \<open>d\<close> bytes, which is
  how the format writes a run.
\<close>

fun snappy_apply :: "snappy_elem \<Rightarrow> bytes \<Rightarrow> bytes" where
  "snappy_apply (Literal l) dst = dst @ l"
| "snappy_apply (Copy d l) dst = dst @ take l (concat (replicate l (drop (length dst - d) dst)))"

fun snappy_valid :: "snappy_elem \<Rightarrow> bytes \<Rightarrow> bool" where
  "snappy_valid (Literal l) dst \<longleftrightarrow> True"
| "snappy_valid (Copy d l) dst \<longleftrightarrow> 0 < d \<and> d \<le> length dst"

fun snappy_run :: "snappy_elem list \<Rightarrow> bytes \<Rightarrow> bytes option" where
  "snappy_run [] dst = Some dst"
| "snappy_run (e # es) dst =
     (if snappy_valid e dst then snappy_run es (snappy_apply e dst) else None)"

inductive snappy_encodes :: "snappy_elem \<Rightarrow> bytes \<Rightarrow> bool" where
  lit_short: "0 < length l \<Longrightarrow> length l \<le> 60 \<Longrightarrow>
    snappy_encodes (Literal l) (of_nat (4 * (length l - 1)) # l)"
| lit_long: "0 < k \<Longrightarrow> k \<le> 4 \<Longrightarrow> 0 < length l \<Longrightarrow> length l \<le> 256 ^ k \<Longrightarrow>
    snappy_encodes (Literal l) (of_nat (4 * (59 + k)) # le_enc k (length l - 1) @ l)"
| copy1: "4 \<le> l \<Longrightarrow> l < 12 \<Longrightarrow> d < 2048 \<Longrightarrow>
    snappy_encodes (Copy d l) [of_nat (1 + 4 * (l - 4) + 32 * (d div 256)), of_nat (d mod 256)]"
| copy2: "1 \<le> l \<Longrightarrow> l \<le> 64 \<Longrightarrow> d < 65536 \<Longrightarrow>
    snappy_encodes (Copy d l) (of_nat (2 + 4 * (l - 1)) # le_enc 2 d)"
| copy4: "1 \<le> l \<Longrightarrow> l \<le> 64 \<Longrightarrow> d < 2 ^ 32 \<Longrightarrow>
    snappy_encodes (Copy d l) (of_nat (3 + 4 * (l - 1)) # le_enc 4 d)"

inductive snappy_block :: "snappy_elem list \<Rightarrow> bytes \<Rightarrow> bool" where
  block_nil: "snappy_block [] []"
| block_cons: "snappy_encodes e enc \<Longrightarrow> snappy_block es rest \<Longrightarrow> snappy_block (e # es) (enc @ rest)"

inductive_cases snappy_block_NilE: "snappy_block [] bs"
inductive_cases snappy_block_ConsE: "snappy_block (e # es) bs"

section \<open>Lemmas on the pieces\<close>

lemma snappyMaxOut_eq [simp]: "snappyMaxOut = 134217728"
  by (simp add: snappyMaxOut_def push_bit_eq_mult)

lemma concat_replicate_rotate:
  "concat (replicate (Suc k) (x # xs)) = x # concat (replicate k (xs @ [x])) @ xs"
  by (induction k) simp_all

lemma length_concat_replicate [simp]: "length (concat (replicate k w)) = k * length w"
  by (induction k) simp_all

lemma take_cycle_Suc:
  assumes "w \<noteq> []"
  shows "take (Suc k) (concat (replicate (Suc k) w)) = hd w # take k (concat (replicate k (tl w @ [hd w])))"
proof -
  from assms obtain x xs where "w = x # xs" by (cases w) auto
  then show ?thesis by (simp only: concat_replicate_rotate) simp
qed

lemma snappyCopy_loop_cycle:
  "at < length dst \<Longrightarrow>
   snappyCopy_loop k at dst = dst @ take k (concat (replicate k (drop at dst)))"
proof (induction k arbitrary: at dst)
  case (Suc k)
  let ?w = "drop at dst"
  have w: "?w \<noteq> []" "hd ?w = dst ! at" "tl ?w = drop (Suc at) dst"
    using Suc.prems by (simp_all add: hd_drop_conv_nth tl_drop drop_Suc)
  have "snappyCopy_loop (Suc k) at dst = (dst @ [dst ! at]) @ take k (concat (replicate k (tl ?w @ [hd ?w])))"
    using Suc.IH [of "Suc at" "dst @ [dst ! at]"] Suc.prems w by simp
  also have "\<dots> = dst @ take (Suc k) (concat (replicate (Suc k) ?w))"
    using take_cycle_Suc [OF w(1), of k] w(2) by (simp del: replicate.simps)
  finally show ?case .
qed simp

lemma snappyCopy_apply:
  "snappyCopy dst (int d) (int l) =
     (if snappy_valid (Copy d l) dst then Inr (snappy_apply (Copy d l) dst)
      else Inl (CopyOutside (int d) (length dst)))"
  by (auto simp: snappyCopy_def snappyCopy_loop_cycle)

lemma snappy_lenBytes_le_nat:
  "v < 2 ^ (8 * i) \<Longrightarrow> snappy_lenBytes bs i v = v + 2 ^ (8 * i) * le_nat bs"
proof (induction bs arbitrary: i v)
  case (Cons b bs)
  have b: "unat b < 2 ^ 8" using byte_cases_lt [of b] by simp
  have "v + 2 ^ (8 * i) * unat b < 2 ^ (8 * i) * (unat b + 1)"
    using Cons.prems by simp
  also have "\<dots> \<le> 2 ^ (8 * i) * 2 ^ 8"
    using b by (intro mult_left_mono) auto
  finally have lt: "v + 2 ^ (8 * i) * unat b < 2 ^ (8 * (i + 1))"
    by (simp add: power_add)
  have "v OR push_bit (8 * i) (unat b) = v + 2 ^ (8 * i) * unat b"
    using or_push_bit_add [OF Cons.prems] by (simp add: push_bit_eq_mult mult.commute)
  with Cons.IH [OF lt] show ?case
    by (simp add: power_add algebra_simps)
qed simp

lemma snappy_lenBytes_0 [simp]: "snappy_lenBytes bs 0 0 = le_nat bs"
  using snappy_lenBytes_le_nat [of 0 0 bs] by simp

text \<open>The offsets the code assembles with shifts are the little-endian values.\<close>

lemma offset2_le_nat: "unat a OR push_bit 8 (unat b) = le_nat [a, b :: byte]"
  using or_push_bit_add [of "unat a" 8 "unat b"] byte_cases_lt [of a] by (simp add: push_bit_eq_mult)

lemma offset4_le_nat:
  "((unat a OR push_bit 8 (unat b)) OR push_bit 16 (unat c)) OR push_bit 24 (unat d) = le_nat [a, b, c, d :: byte]"
proof -
  have l2: "le_nat [a, b] < 2 ^ 16" and l3: "le_nat [a, b, c] < 2 ^ 24"
    using le_nat_less [of "[a, b]"] le_nat_less [of "[a, b, c]"] by simp_all
  have "le_nat [a, b] OR push_bit 16 (unat c) = le_nat [a, b, c]"
    using or_push_bit_add [OF l2, of "unat c"] by (simp add: push_bit_eq_mult)
  moreover have "le_nat [a, b, c] OR push_bit 24 (unat d) = le_nat [a, b, c, d]"
    using or_push_bit_add [OF l3, of "unat d"] by (simp add: push_bit_eq_mult)
  ultimately show ?thesis by (simp add: offset2_le_nat del: le_nat.simps)
qed

lemma offset1_split: "push_bit 8 h OR unat b = 256 * h + unat (b :: byte)"
  using or_push_bit_add [of "unat b" 8 h] byte_cases_lt [of b] by (simp add: push_bit_eq_mult or.commute)

section \<open>One element\<close>

lemma tag_kind:
  "(tag AND 0x03 = 0) = (unat (tag :: byte) mod 4 = 0)"
  "(tag AND 0x03 = 1) = (unat tag mod 4 = 1)"
  "(tag AND 0x03 = 2) = (unat tag mod 4 = 2)"
  by (simp_all add: word_unat_eq_iff unat_and_mask_byte)

text \<open>The step read over the tag's number, with offsets as little-endian values.\<close>

lemma snappy_step_literal:
  assumes "unat tag mod 4 = 0" and "k = snappy_lenBytes_of (unat tag div 4)"
    and "len = (if k = 0 then unat tag div 4 else le_nat (take k src)) + 1"
  shows "snappy_step (tag # src) dst =
    (if length src < k then Inl TruncatedLiteralLength
     else if k + len > length src then Inl (LiteralPastBlock len)
     else Inr (drop (k + len) src, dst @ take len (drop k src)))"
  using assms
  by (simp add: snappy_step_def tag_kind unat_drop_bit_byte slice_def Let_def)

lemma snappy_step_copy1:
  assumes "unat tag mod 4 = 1"
  shows "snappy_step (tag # b # src) dst =
    (case snappyCopy dst (int (256 * (unat tag div 32) + unat b)) (int (4 + unat tag div 4 mod 8)) of
       Inl e \<Rightarrow> Inl e | Inr dst' \<Rightarrow> Inr (src, dst'))"
proof -
  have "unat tag div 32 mod 8 = unat tag div 32" using byte_cases_lt [of tag] by simp
  then show ?thesis using assms
    by (simp add: snappy_step_def tag_kind unat_drop_bit_byte unat_and_mask_byte offset1_split Let_def split: sum.split)
qed

lemma snappy_step_copy2:
  assumes "unat tag mod 4 = 2"
  shows "snappy_step (tag # a # b # src) dst =
    (case snappyCopy dst (int (le_nat [a, b])) (int (1 + unat tag div 4)) of
       Inl e \<Rightarrow> Inl e | Inr dst' \<Rightarrow> Inr (src, dst'))"
  using assms
  by (simp add: snappy_step_def tag_kind unat_drop_bit_byte offset2_le_nat Let_def split: sum.split)

lemma snappy_step_copy4:
  assumes "unat tag mod 4 = 3"
  shows "snappy_step (tag # a # b # c # d # src) dst =
    (case snappyCopy dst (int (le_nat [a, b, c, d])) (int (1 + unat tag div 4)) of
       Inl e \<Rightarrow> Inl e | Inr dst' \<Rightarrow> Inr (src, dst'))"
  using assms
  by (simp add: snappy_step_def tag_kind unat_drop_bit_byte offset4_le_nat Let_def del: le_nat.simps split: sum.split)

lemma unat_small_byte [simp]: "v < 256 \<Longrightarrow> unat (of_nat v :: byte) = v"
  by (simp add: unat_of_nat take_bit_nat_eq_self)

lemma snappy_lenBytes_of_cases:
  "n < 64 \<Longrightarrow> k = snappy_lenBytes_of n \<Longrightarrow> (k = 0 \<and> n < 60) \<or> (0 < k \<and> k \<le> 4 \<and> n = 59 + k)"
  by (auto simp: snappy_lenBytes_of_def)

lemma copy1_tag:
  fixes m q :: nat
  assumes "m < 8" "q < 8"
  shows "1 + 4 * m + 32 * q < 256" "(1 + 4 * m + 32 * q) mod 4 = 1"
    "(1 + 4 * m + 32 * q) div 32 = q" "(1 + 4 * m + 32 * q) div 4 mod 8 = m"
proof -
  have e: "1 + 4 * m + 32 * q = 1 + 4 * (m + 8 * q)" by simp
  show "1 + 4 * m + 32 * q < 256" using assms by simp
  show "(1 + 4 * m + 32 * q) mod 4 = 1" unfolding e by presburger
  show "(1 + 4 * m + 32 * q) div 32 = q" using assms by simp
  have "(1 + 4 * m + 32 * q) div 4 = m + 8 * q" unfolding e by simp
  then show "(1 + 4 * m + 32 * q) div 4 mod 8 = m" using assms by simp
qed

lemma tag_split:
  fixes t :: nat
  shows "t = t mod 4 + 4 * (t div 4 mod 8) + 32 * (t div 32)" "t = t mod 4 + 4 * (t div 4)"
proof -
  have "t div 32 = t div 4 div 8" by (simp flip: div_mult2_eq)
  then show "t = t mod 4 + 4 * (t div 4 mod 8) + 32 * (t div 32)"
    using mod_mult_div_eq [of t 4] mod_mult_div_eq [of "t div 4" 8] by linarith
  show "t = t mod 4 + 4 * (t div 4)" by simp
qed

lemma snappyCopy_Inr_iff:
  "(case snappyCopy dst (int d) (int l) of Inl e \<Rightarrow> Inl e | Inr dst' \<Rightarrow> Inr (src, dst')) = Inr (src', dst'') \<longleftrightarrow>
   snappy_valid (Copy d l) dst \<and> src' = src \<and> dst'' = snappy_apply (Copy d l) dst"
  by (auto simp: snappyCopy_apply split: if_splits)

lemma numeral_4_Suc: "(4 :: nat) = Suc (Suc (Suc (Suc 0)))"
  by simp

text \<open>Completeness of one turn: it undoes every encoding of every valid element.\<close>

lemma snappy_step_complete:
  "snappy_encodes e enc \<Longrightarrow> snappy_valid e dst \<Longrightarrow>
   snappy_step (enc @ rest) dst = Inr (rest, snappy_apply e dst)"
proof (induction rule: snappy_encodes.induct)
  case (lit_short l)
  let ?t = "of_nat (4 * (length l - 1)) :: byte"
  have t: "unat ?t = 4 * (length l - 1)"
    using lit_short by (intro unat_small_byte) simp
  have "snappy_step (?t # l @ rest) dst =
    (if length (l @ rest) < 0 then Inl TruncatedLiteralLength
     else if 0 + length l > length (l @ rest) then Inl (LiteralPastBlock (length l))
     else Inr (drop (0 + length l) (l @ rest), dst @ take (length l) (drop 0 (l @ rest))))"
    using lit_short by (intro snappy_step_literal) (simp_all only: t, simp_all add: snappy_lenBytes_of_def)
  then show ?case by simp
next
  case (lit_long k l)
  let ?t = "of_nat (4 * (59 + k)) :: byte" and ?src = "le_enc k (length l - 1) @ l @ rest"
  have t: "unat ?t = 4 * (59 + k)"
    using lit_long by (intro unat_small_byte) simp
  have k: "k = snappy_lenBytes_of (59 + k)"
    using lit_long by (auto simp: snappy_lenBytes_of_def)
  have v: "le_nat (le_enc k (length l - 1)) = length l - 1"
    using lit_long by (intro le_nat_le_enc) linarith
  have "snappy_step (?t # ?src) dst =
    (if length ?src < k then Inl TruncatedLiteralLength
     else if k + length l > length ?src then Inl (LiteralPastBlock (length l))
     else Inr (drop (k + length l) ?src, dst @ take (length l) (drop k ?src)))"
    using lit_long k v by (intro snappy_step_literal) (simp_all only: t, simp_all)
  then show ?case by simp
next
  case (copy1 l d)
  let ?t = "1 + 4 * (l - 4) + 32 * (d div 256)"
  have "d div 256 < 8" "l - 4 < 8" using copy1 by (auto simp: less_mult_imp_div_less)
  note tg = copy1_tag [OF this(2,1)]
  then have lt: "?t < 256" and m: "?t mod 4 = 1" and h: "?t div 32 = d div 256" and l: "?t div 4 mod 8 = l - 4"
    by simp_all
  define tag :: byte where "tag = of_nat ?t"
  have t: "unat tag = ?t" unfolding tag_def using lt by (rule unat_small_byte)
  have "snappy_step (tag # of_nat (d mod 256) # rest) dst = Inr (rest, snappy_apply (Copy d l) dst)"
    using copy1 snappy_step_copy1 [of tag "of_nat (d mod 256)" rest dst] m h l
    unfolding t by (simp add: snappyCopy_apply del: snappy_apply.simps snappy_valid.simps of_nat_add of_nat_mult)
  then show ?case unfolding tag_def by simp
next
  case (copy2 l d)
  let ?t = "2 + 4 * (l - 1)"
  define tag :: byte where "tag = of_nat ?t"
  have t: "unat tag = ?t" unfolding tag_def using copy2 by (intro unat_small_byte) simp
  have m: "?t mod 4 = 2" by presburger
  have h: "1 + ?t div 4 = l" using copy2 by simp
  have e: "le_enc 2 d = [of_nat (d mod 256), of_nat (d div 256 mod 256)]" by (simp add: numeral_2_eq_2)
  have v: "le_nat (le_enc 2 d) = d" using copy2 by (intro le_nat_le_enc) simp
  have "snappy_step (tag # le_enc 2 d @ rest) dst = Inr (rest, snappy_apply (Copy d l) dst)"
    using snappy_step_copy2 [of tag "of_nat (d mod 256)" "of_nat (d div 256 mod 256)" rest dst, unfolded t, OF m] v copy2(4)
    unfolding h e by (simp only: append_Cons append_Nil snappyCopy_Inr_iff)
  then show ?case unfolding tag_def by simp
next
  case (copy4 l d)
  let ?t = "3 + 4 * (l - 1)"
  define tag :: byte where "tag = of_nat ?t"
  have t: "unat tag = ?t" unfolding tag_def using copy4 by (intro unat_small_byte) simp
  have m: "?t mod 4 = 3" by presburger
  have h: "1 + ?t div 4 = l" using copy4 by simp
  have e: "le_enc 4 d = [of_nat (d mod 256), of_nat (d div 256 mod 256),
      of_nat (d div 256 div 256 mod 256), of_nat (d div 256 div 256 div 256 mod 256)]"
    by (simp only: le_enc.simps numeral_4_Suc)
  have v: "le_nat (le_enc 4 d) = d" using copy4 by (intro le_nat_le_enc) simp
  have "snappy_step (tag # le_enc 4 d @ rest) dst = Inr (rest, snappy_apply (Copy d l) dst)"
    using snappy_step_copy4 [of tag "of_nat (d mod 256)" "of_nat (d div 256 mod 256)"
      "of_nat (d div 256 div 256 mod 256)" "of_nat (d div 256 div 256 div 256 mod 256)" rest dst, unfolded t, OF m] v copy4(4)
    unfolding h e by (simp only: append_Cons append_Nil snappyCopy_Inr_iff)
  then show ?case unfolding tag_def by simp
qed

text \<open>Soundness of one turn: what it takes off the block is an encoding of a valid element.\<close>

lemma byte_eq_of_nat: "unat (w :: byte) = v \<Longrightarrow> w = of_nat v"
  by auto

lemma snappy_step_sound_literal:
  assumes step: "snappy_step (tag # src) dst = Inr (src', dst')" and t: "unat tag mod 4 = 0"
  shows "\<exists>e enc. snappy_encodes e enc \<and> snappy_valid e dst \<and> tag # src = enc @ src' \<and> dst' = snappy_apply e dst"
proof -
  define k where "k = snappy_lenBytes_of (unat tag div 4)"
  define len where "len = (if k = 0 then unat tag div 4 else le_nat (take k src)) + 1"
  define l where "l = take len (drop k src)"
  have fit: "k + len \<le> length src" and src': "src' = drop (k + len) src" and dst': "dst' = dst @ l"
    using step snappy_step_literal [OF t k_def len_def, of dst] by (auto simp: l_def split: if_splits)
  have len: "length l = len" "0 < length l" using fit by (simp_all add: l_def len_def)
  have split: "src = take k src @ l @ src'"
    unfolding l_def src' by (metis append_take_drop_id drop_drop add.commute)
  have "unat tag div 4 < 64" using byte_cases_lt [of tag] by simp
  then consider "k = 0" "unat tag div 4 < 60" | "0 < k" "k \<le> 4" "unat tag div 4 = 59 + k"
    using snappy_lenBytes_of_cases [OF _ k_def] by blast
  then have "snappy_encodes (Literal l) (tag # take k src @ l)"
  proof cases
    case 1
    have l: "length l = unat tag div 4 + 1" using 1 len by (simp add: len_def)
    have tag: "tag = of_nat (4 * (length l - 1))"
      using tag_split(2) [of "unat tag"] t l by (intro byte_eq_of_nat) simp
    have "length l \<le> 60" using l 1 by simp
    from lit_short [OF len(2) this] show ?thesis
      unfolding tag [symmetric] using 1 by simp
  next
    case 2
    have tag: "tag = of_nat (4 * (59 + k))"
      using tag_split(2) [of "unat tag"] t 2 by (intro byte_eq_of_nat) simp
    have tk: "length (take k src) = k" using fit by simp
    have le: "le_enc k (length l - 1) = take k src" and bnd: "length l \<le> 256 ^ k"
      using le_enc_le_nat [of "take k src"] le_nat_less [of "take k src"] 2 tk len by (simp_all add: len_def)
    from 2 show ?thesis using lit_long [of k l] len(2) bnd unfolding le tag by simp
  qed
  moreover have "tag # src = (tag # take k src @ l) @ src'" using split by simp
  ultimately show ?thesis using dst' by (metis snappy_apply.simps(1) snappy_valid.simps(1))
qed

lemma snappy_copy_sound:
  assumes "snappy_encodes (Copy d l) enc" and "src = enc @ rest"
    and "snappy_step src dst =
      (case snappyCopy dst (int d) (int l) of Inl e \<Rightarrow> Inl e | Inr dst' \<Rightarrow> Inr (rest, dst'))"
    and "snappy_step src dst = Inr (src', dst')"
  shows "\<exists>e enc. snappy_encodes e enc \<and> snappy_valid e dst \<and> src = enc @ src' \<and> dst' = snappy_apply e dst"
  using assms unfolding assms(3) snappyCopy_Inr_iff by blast

lemma snappy_step_sound:
  assumes step: "snappy_step src dst = Inr (src', dst')" and ne: "src \<noteq> []"
  shows "\<exists>e enc. snappy_encodes e enc \<and> snappy_valid e dst \<and> src = enc @ src' \<and> dst' = snappy_apply e dst"
proof -
  from ne obtain tag rest where src: "src = tag # rest" by (cases src) auto
  have tl: "unat tag < 256" by (rule byte_cases_lt)
  consider "unat tag mod 4 = 0" | "unat tag mod 4 = 1" | "unat tag mod 4 = 2" | "unat tag mod 4 = 3"
    by linarith
  then show ?thesis
  proof cases
    case 1
    with step show ?thesis unfolding src by (rule snappy_step_sound_literal)
  next
    case 2
    with step src obtain b rest' where r: "rest = b # rest'"
      by (cases rest) (auto simp: snappy_step_def tag_kind Let_def)
    let ?d = "256 * (unat tag div 32) + unat b" and ?l = "4 + unat tag div 4 mod 8"
    have bl: "unat b < 256" by (rule byte_cases_lt)
    then have dd: "?d div 256 = unat tag div 32" "?d mod 256 = unat b" by simp_all
    have "tag = of_nat (1 + 4 * (?l - 4) + 32 * (?d div 256))"
      unfolding dd using tag_split(1) [of "unat tag"] 2 by (intro byte_eq_of_nat) simp
    moreover have "b = of_nat (?d mod 256)" unfolding dd by (rule byte_eq_of_nat) simp
    moreover have "unat tag div 32 < 8" using tl by simp
    then have "?d < 2048" "?l < 12" using bl by linarith+
    ultimately have enc: "snappy_encodes (Copy ?d ?l) [tag, b]"
      using copy1 [of ?l ?d] by (metis le_add1)
    show ?thesis unfolding src r
      by (rule snappy_copy_sound [OF enc _ snappy_step_copy1 [OF 2, of b rest' dst] step [unfolded src r]]) simp
  next
    case 3
    with step src obtain a b rest' where r: "rest = a # b # rest'"
      by (cases rest; cases "tl rest") (auto simp: snappy_step_def tag_kind Let_def)
    let ?d = "le_nat [a, b]" and ?l = "1 + unat tag div 4"
    have "tag = of_nat (2 + 4 * (?l - 1))" using 3 by (intro byte_eq_of_nat) presburger
    moreover have "le_enc 2 ?d = [a, b]" using le_enc_le_nat [of "[a, b]"] by (simp add: numeral_2_eq_2)
    moreover have "?d < 65536" "?l \<le> 64" using le_nat_less [of "[a, b]"] tl by auto
    ultimately have enc: "snappy_encodes (Copy ?d ?l) [tag, a, b]"
      using copy2 [of ?l ?d] by (metis le_add1)
    show ?thesis unfolding src r
      by (rule snappy_copy_sound [OF enc _ snappy_step_copy2 [OF 3, of a b rest' dst] step [unfolded src r]]) simp
  next
    case 4
    with step src obtain a b c d rest' where r: "rest = a # b # c # d # rest'"
      by (cases rest; cases "tl rest"; cases "tl (tl rest)"; cases "tl (tl (tl rest))")
         (auto simp: snappy_step_def tag_kind Let_def)
    let ?d = "le_nat [a, b, c, d]" and ?l = "1 + unat tag div 4"
    have "tag = of_nat (3 + 4 * (?l - 1))" using 4 by (intro byte_eq_of_nat) presburger
    moreover have n4: "length [a, b, c, d] = 4" by simp
    have "le_enc 4 ?d = [a, b, c, d]" using le_enc_le_nat [of "[a, b, c, d]"] by (simp only: n4)
    moreover have "?d < 2 ^ 32" "?l \<le> 64" using le_nat_less [of "[a, b, c, d]"] tl by auto
    ultimately have enc: "snappy_encodes (Copy ?d ?l) [tag, a, b, c, d]"
      using copy4 [of ?l ?d] by (metis le_add1)
    show ?thesis unfolding src r
      by (rule snappy_copy_sound [OF enc _ snappy_step_copy4 [OF 4, of a b c d rest' dst] step [unfolded src r]]) simp
  qed
qed

section \<open>The whole block\<close>

lemma snappy_apply_length: "snappy_valid e dst \<Longrightarrow> length dst \<le> length (snappy_apply e dst)"
  by (cases e) auto

lemma snappy_run_length: "snappy_run es dst = Some d \<Longrightarrow> length dst \<le> length d"
proof (induction es arbitrary: dst)
  case (Cons e es)
  then have "snappy_valid e dst" "length (snappy_apply e dst) \<le> length d"
    by (auto split: if_splits)
  with snappy_apply_length [of e dst] show ?case by simp
qed simp

lemma snappy_encodes_nonempty: "snappy_encodes e enc \<Longrightarrow> enc \<noteq> []"
  by (induction rule: snappy_encodes.induct) auto

lemma snappyDecode_loop_complete:
  "snappy_block es src \<Longrightarrow> snappy_run es dst = Some d \<Longrightarrow> snappyDecode_loop (length d) src dst = Inr d"
proof (induction arbitrary: dst rule: snappy_block.induct)
  case block_nil
  then show ?case by (simp add: snappyDecode_loop.simps)
next
  case (block_cons e enc es rest)
  then have v: "snappy_valid e dst" and run: "snappy_run es (snappy_apply e dst) = Some d"
    by (auto split: if_splits)
  have "\<not> length d < length (snappy_apply e dst)"
    using snappy_run_length [OF run] by simp
  then show ?case
    using snappy_encodes_nonempty [OF block_cons.hyps(1)] snappy_step_complete [OF block_cons.hyps(1) v, of rest]
      block_cons.IH [OF run]
    by (simp add: snappyDecode_loop.simps [of "length d" "enc @ rest"])
qed

lemma snappyDecode_loop_sound:
  "snappyDecode_loop n src dst = Inr d \<Longrightarrow>
   length d = n \<and> (\<exists>es. snappy_block es src \<and> snappy_run es dst = Some d)"
proof (induction n src dst rule: snappyDecode_loop.induct)
  case (1 n src dst)
  show ?case
  proof (cases "src = []")
    case True
    with "1.prems" show ?thesis
      by (auto simp: snappyDecode_loop.simps [of n "[]" dst] split: if_splits
        intro!: exI [of _ "[]"] block_nil)
  next
    case False
    with "1.prems" obtain src' dst' where s: "snappy_step src dst = Inr (src', dst')"
      and le: "\<not> length dst' > n" and r: "snappyDecode_loop n src' dst' = Inr d"
      by (auto simp: snappyDecode_loop.simps [of n src dst] split: sum.splits if_splits)
    from "1.IH" [OF False s refl le r] obtain es where es: "length d = n" "snappy_block es src'"
      "snappy_run es dst' = Some d" by blast
    from snappy_step_sound [OF s False] obtain e enc where e: "snappy_encodes e enc" "snappy_valid e dst"
      "src = enc @ src'" "dst' = snappy_apply e dst" by blast
    have "snappy_block (e # es) src" "snappy_run (e # es) dst = Some d"
      using e es by (auto intro: block_cons)
    with es(1) show ?thesis by blast
  qed
qed

text \<open>The varint of the preamble.\<close>

fun snappy_preamble :: "nat \<Rightarrow> bytes" where
  "snappy_preamble n =
     (if n < 128 then [of_nat n] else of_nat (n mod 128 + 128) # snappy_preamble (n div 128))"

declare snappy_preamble.simps [simp del]

lemma pow7_128: "(2 :: nat) ^ 7 = 128"
  by simp

lemma high_bit_byte: "(w AND 0x80 = 0) = (unat (w :: byte) < 128)"
proof -
  have "w AND 0x80 = 0 \<longleftrightarrow> \<not> bit w 7"
    by (simp add: and_exp_eq_0_iff_not_bit [of w 7, simplified])
  also have "bit w 7 \<longleftrightarrow> bit (unat w) 7"
    by (simp add: bit_unsigned_iff)
  also have "\<dots> \<longleftrightarrow> odd (unat w div 2 ^ 7)"
    by (simp only: bit_iff_odd)
  also have "\<not> odd (unat w div 2 ^ 7) \<longleftrightarrow> unat w < 128"
  proof (cases "unat w < 128")
    case False
    then have "unat w div 128 = 1" using byte_cases_lt [of w] by (intro div_nat_eqI) simp_all
    with False show ?thesis by simp
  qed simp
  finally show ?thesis .
qed

lemma snappyLength_loop_preamble:
  "v < 2 ^ shift \<Longrightarrow> i + length (snappy_preamble n) \<le> 5 \<Longrightarrow>
   snappyLength_loop (snappy_preamble n @ rest) i v shift =
     Inr (v + 2 ^ shift * n, i + length (snappy_preamble n))"
proof (induction n arbitrary: i v shift rule: snappy_preamble.induct)
  case (1 n)
  show ?case
  proof (cases "n < 128")
    case True
    have "v OR push_bit shift n = v + 2 ^ shift * n"
      using or_push_bit_add [OF "1.prems"(1), of n] by (simp add: push_bit_eq_mult mult.commute)
    with True 1 show ?thesis
      by (simp add: snappy_preamble.simps [of n] unat_and_mask_byte high_bit_byte)
  next
    case False
    let ?v = "v + 2 ^ shift * (n mod 128)"
    have ov: "v OR push_bit shift (n mod 128) = ?v"
      using or_push_bit_add [OF "1.prems"(1), of "n mod 128"] by (simp add: push_bit_eq_mult mult.commute)
    have "?v < 2 ^ shift * (n mod 128 + 1)" using "1.prems" by simp
    also have "\<dots> \<le> 2 ^ shift * 128" by (intro mult_left_mono) simp_all
    finally have lt: "?v < 2 ^ (shift + 7)" by (simp add: power_add)
    have len: "length (snappy_preamble n) = Suc (length (snappy_preamble (n div 128)))"
      using False by (subst snappy_preamble.simps) simp
    have "i < 5" "Suc i + length (snappy_preamble (n div 128)) \<le> 5" using "1.prems" len by auto
    moreover have "2 ^ shift * (n mod 128) + 2 ^ (shift + 7) * (n div 128) = 2 ^ shift * n"
      by (metis distrib_left mod_mult_div_eq mult.assoc power_add pow7_128)
    moreover have "unat (of_nat (n mod 128 + 128) :: byte) = n mod 128 + 128"
      by (rule unat_small_byte) simp
    ultimately show ?thesis
      using "1.IH" [OF False lt, of "Suc i"] False ov len
      by (simp add: snappy_preamble.simps [of n] unat_and_mask_byte high_bit_byte del: of_nat_add)
  qed
qed

lemma length_snappy_preamble: "n < 128 ^ k \<Longrightarrow> 0 < k \<Longrightarrow> length (snappy_preamble n) \<le> k"
proof (induction k arbitrary: n)
  case (Suc k)
  show ?case
  proof (cases "n < 128")
    case False
    have "n div 128 < 128 ^ k" using Suc.prems by (simp add: less_mult_imp_div_less mult.commute)
    moreover have "0 < k" using False Suc.prems by (cases k) auto
    ultimately show ?thesis using Suc.IH [of "n div 128"] False
      by (simp add: snappy_preamble.simps [of n])
  qed (simp add: snappy_preamble.simps [of n])
qed simp

section \<open>Properties\<close>

lemma snappyLength_preamble:
  "n < 2 ^ 35 \<Longrightarrow> snappyLength (snappy_preamble n @ rest) = Inr (n, length (snappy_preamble n))"
  using snappyLength_loop_preamble [of 0 0 0 n rest] length_snappy_preamble [of n 5]
  by (simp add: snappyLength_def)

text \<open>
  C1. The decompressor accepts exactly the well-formed Snappy blocks: it returns \<open>d\<close> if and
  only if the preamble announces \<^term>\<open>length d\<close> bytes, that length is plausible and agrees with the
  one the message header gave (when it gave one), and what follows the preamble is a
  sequence of encoded literals and back-references, each reaching only bytes already
  written, whose meaning is \<open>d\<close>. In particular it never returns a wrong or partial output.
\<close>

theorem snappyDecode_exact:
  "snappyDecode src want = Inr d \<longleftrightarrow>
   (\<exists>hdr es. snappyLength src = Inr (length d, hdr) \<and> length d \<le> snappyMaxOut \<and>
      (want < 0 \<or> want = int (length d)) \<and>
      snappy_block es (drop hdr src) \<and> snappy_run es [] = Some d)"
  (is "?L \<longleftrightarrow> ?R")
proof
  assume ?L
  then obtain n hdr where n: "snappyLength src = Inr (n, hdr)" "\<not> n > snappyMaxOut"
    "\<not> (want \<ge> 0 \<and> int n \<noteq> want)" and l: "snappyDecode_loop n (drop hdr src) [] = Inr d"
    by (auto simp: snappyDecode_def split: sum.splits if_splits)
  from snappyDecode_loop_sound [OF l] n show ?R by auto
next
  assume ?R
  then show ?L by (auto simp: snappyDecode_def snappyDecode_loop_complete)
qed

text \<open>
  Round trip: whatever an encoder wrote, in any mix of the format's encodings, the
  decompressor gives back, provided the output is within the 128 MB ceiling.
\<close>

theorem snappyDecode_roundtrip:
  assumes "snappy_block es bs" and "snappy_run es [] = Some d" and "length d \<le> snappyMaxOut"
  shows "snappyDecode (snappy_preamble (length d) @ bs) (int (length d)) = Inr d"
proof -
  have "length d < 2 ^ 35" using assms(3) by simp
  from snappyLength_preamble [OF this, of bs] assms show ?thesis
    unfolding snappyDecode_exact by auto
qed

text \<open>The witness of C2: a run of seven bytes written as a literal and an overlapping copy.\<close>

lemma snappyDecode_roundtrip_witness:
  "snappyDecode (snappy_preamble (length [7, 8, 7, 8, 7, 8 :: byte]) @ [4, 7, 8, 1, 2]) (int (length [7, 8, 7, 8, 7, 8 :: byte])) =
   Inr [7, 8, 7, 8, 7, 8]"
proof (rule snappyDecode_roundtrip)
  have "snappy_encodes (Literal [7, 8]) [4, 7, 8]" "snappy_encodes (Copy 2 4) [1, 2]"
    using lit_short [of "[7, 8 :: byte]"] copy1 [of 4 2] by simp_all
  then show "snappy_block [Literal [7, 8], Copy 2 4] [4, 7, 8, 1, 2]"
    using block_cons [OF _ block_cons [OF _ block_nil]] by fastforce
  show "snappy_run [Literal [7, 8], Copy 2 4] [] = Some [7, 8, 7, 8, 7, 8]"
    by code_simp
qed simp

end
