(* ===== verification/Resp.thy ===== *)
theory Resp
  imports Go_Strings Frame_Reader "HOL-Library.Char_ord"
begin

text \<open>
  The RESP parser of \<^verbatim>\<open>src/app/pktresp.go\<close>: the serialisation protocol of Valkey and Redis.
  \<open>respParse\<close> takes one value off the head of a buffer; its three outcomes (a value and its
  size, "wait for more", "not RESP at all") are the constructors of \<open>resp_result\<close>. The
  parser recurses into aggregates up to \<open>respMaxDepth\<close> levels, and that bound is also why it
  terminates. Map and attribute counts are doubled with Go's 64-bit wrap-around, as the
  source does.
\<close>

section \<open>The parser\<close>

definition respSimple :: byte where "respSimple = 0x2b"
definition respError :: byte where "respError = 0x2d"
definition respInt :: byte where "respInt = 0x3a"
definition respBulk :: byte where "respBulk = 0x24"
definition respArray :: byte where "respArray = 0x2a"
definition respNull :: byte where "respNull = 0x5f"
definition respBool :: byte where "respBool = 0x23"
definition respDouble :: byte where "respDouble = 0x2c"
definition respBigNum :: byte where "respBigNum = 0x28"
definition respBlobErr :: byte where "respBlobErr = 0x21"
definition respVerbatim :: byte where "respVerbatim = 0x3d"
definition respMap :: byte where "respMap = 0x25"
definition respSet :: byte where "respSet = 0x7e"
definition respAttr :: byte where "respAttr = 0x7c"
definition respPush :: byte where "respPush = 0x3e"

lemmas resp_types = respSimple_def respError_def respInt_def respBulk_def respArray_def
  respNull_def respBool_def respDouble_def respBigNum_def respBlobErr_def respVerbatim_def
  respMap_def respSet_def respAttr_def respPush_def

definition respMaxBulk :: int where "respMaxBulk = 536870912"
definition respMaxDepth :: nat where "respMaxDepth = 12"
definition respKeepBytes :: nat where "respKeepBytes = 160"

datatype respValue = RespValue
  (rv_Type: byte) (rv_Str: string) (rv_Int: int) (rv_Items: "respValue list")
  (rv_Bytes: nat) (rv_Truncated: bool)

datatype resp_result =
    RespOK respValue nat   \<comment> \<open>a value and the bytes it took\<close>
  | RespMore               \<comment> \<open>the buffer holds only part of a value\<close>
  | RespBad                \<comment> \<open>these bytes cannot be RESP\<close>

datatype resp_items = ItemsOK "respValue list" nat nat | ItemsMore | ItemsBad

fun respLine :: "bytes \<Rightarrow> (string \<times> nat) option" where
  "respLine (a # c # b) =
     (if a = 0x0d \<and> c = 0x0a then Some ([], 2)
      else map_option (\<lambda>(s, n). (char_of (unat a) # s, n + 1)) (respLine (c # b)))"
| "respLine _ = None"

text \<open>Go's 64-bit product \<^verbatim>\<open>count * 2\<close>.\<close>

definition wrap64 :: "int \<Rightarrow> int" where
  "wrap64 i = sint (of_int i :: 64 word)"

function (sequential) respParse :: "bytes \<Rightarrow> nat \<Rightarrow> resp_result"
  and respItems :: "nat \<Rightarrow> nat \<Rightarrow> bytes \<Rightarrow> nat \<Rightarrow> nat \<Rightarrow> respValue list \<Rightarrow> resp_items" where
  "respParse b depth =
     (if b = [] then RespMore
      else if depth > respMaxDepth then RespBad
      else let typ = b ! 0 in
        case respLine (drop 1 b) of
          None \<Rightarrow> if length b > 65536 then RespBad else RespMore
        | Some (line, lineLen) \<Rightarrow>
          (let hdr = 1 + lineLen in
           if typ \<in> {respSimple, respError, respBigNum, respDouble, respBool, respNull} then
             RespOK (RespValue typ line 0 [] hdr False) hdr
           else if typ = respInt then
             (case go_ParseInt (go_TrimSpace line) of
                None \<Rightarrow> RespBad
              | Some i \<Rightarrow> RespOK (RespValue typ line i [] hdr False) hdr)
           else if typ \<in> {respBulk, respVerbatim, respBlobErr} then
             (case go_ParseInt (go_TrimSpace line) of
                None \<Rightarrow> RespBad
              | Some l \<Rightarrow>
                  if l < 0 then RespOK (RespValue respNull ''(nil)'' 0 [] hdr False) hdr
                  else if l > respMaxBulk then RespBad
                  else if length b < hdr + nat l + 2 then RespMore
                  else let payload = slice hdr (hdr + nat l) b; n = hdr + nat l + 2 in
                    if nat l > respKeepBytes
                    then RespOK (RespValue typ (str (take respKeepBytes payload)) l [] n True) n
                    else RespOK (RespValue typ (str payload) l [] n False) n)
           else if typ \<in> {respArray, respSet, respPush, respMap, respAttr} then
             (case go_ParseInt (go_TrimSpace line) of
                None \<Rightarrow> RespBad
              | Some count \<Rightarrow>
                  if count < 0 then RespOK (RespValue respNull ''(nil array)'' 0 [] hdr False) hdr
                  else let items = (if typ = respMap \<or> typ = respAttr then wrap64 (count * 2) else count) in
                    if items > 1048576 then RespBad
                    else case respItems (nat items) (depth + 1) b hdr hdr [] of
                           ItemsBad \<Rightarrow> RespBad
                         | ItemsMore \<Rightarrow> RespMore
                         | ItemsOK kept off bs \<Rightarrow> RespOK (RespValue typ [] count kept bs False) off)
           else RespBad))"
| "respItems 0 depth b off bs kept = ItemsOK kept off bs"
| "respItems (Suc k) depth b off bs kept =
     (case respParse (drop off b) depth of
        RespBad \<Rightarrow> ItemsBad
      | RespMore \<Rightarrow> ItemsMore
      | RespOK el used \<Rightarrow>
          respItems k depth b (off + used) (bs + used) (if length kept < 8 then kept @ [el] else kept))"
  by pat_completeness auto
termination
  by (relation "measures [case_sum (\<lambda>(b, d). 13 - d) (\<lambda>(k, d, _). 13 - d), case_sum (\<lambda>_. 0) (\<lambda>(k, _). k)]")
     (auto simp: respMaxDepth_def)

declare respParse.simps [simp del]

definition respTypeName :: "byte \<Rightarrow> string" where
  "respTypeName t =
     (if t = respSimple then ''simple string'' else if t = respError then ''error''
      else if t = respInt then ''integer'' else if t = respBulk then ''bulk string''
      else if t = respArray then ''array'' else if t = respNull then ''null''
      else if t = respBool then ''boolean'' else if t = respDouble then ''double''
      else if t = respBigNum then ''big number'' else if t = respBlobErr then ''blob error''
      else if t = respVerbatim then ''verbatim string'' else if t = respMap then ''map''
      else if t = respSet then ''set'' else if t = respAttr then ''attribute''
      else if t = respPush then ''push'' else ''?'')"

text \<open>
  \<^verbatim>\<open>for _, c := range first.Str\<close> decodes runes; a name with a byte outside ASCII has a rune
  outside the accepted ranges, so the test is the same on bytes.
\<close>

definition resp_name_char :: "char \<Rightarrow> bool" where
  "resp_name_char c \<longleftrightarrow> (CHR ''a'' \<le> c \<and> c \<le> CHR ''z'') \<or> (CHR ''A'' \<le> c \<and> c \<le> CHR ''Z'')
     \<or> c = CHR ''.'' \<or> c = CHR ''_''"

definition respIsCommand :: "respValue \<Rightarrow> bool" where
  "respIsCommand v \<longleftrightarrow>
     (if rv_Type v \<noteq> respArray \<or> rv_Int v < 1 \<or> rv_Items v = [] then False
      else let first = rv_Items v ! 0 in
        if rv_Type first \<noteq> respBulk \<or> rv_Str first = [] \<or> length (rv_Str first) > 32 then False
        else list_all resp_name_char (rv_Str first))"

section \<open>What a parse consumes, and that later bytes do not change it\<close>

lemma respLine_stable [frame_simps]: "respLine b = Some x \<Longrightarrow> respLine (b @ c) = Some x"
  by (induction b arbitrary: x rule: respLine.induct) (auto split: if_splits)

lemma respLine_length: "respLine b = Some (s, n) \<Longrightarrow> n = length s + 2 \<and> n \<le> length b"
  by (induction b arbitrary: s n rule: respLine.induct) (auto split: if_splits)

lemma respLine_text:
  "CHR 0x0D \<notin> set s \<Longrightarrow> respLine (bytes_of s @ 0x0d # 0x0a # rest) = Some (s, length s + 2)"
proof (induction s)
  case (Cons x s)
  have ne: "(of_nat (of_char x) :: byte) \<noteq> 0x0d"
  proof
    assume "(of_nat (of_char x) :: byte) = 0x0d"
    then have "str (bytes_of [x]) = str [0x0d]" by simp
    then have "x = char_of (13 :: nat)" by (simp del: bytes_of_simps)
    also have "\<dots> = CHR 0x0D" by code_simp
    finally show False using Cons.prems by simp
  qed
  obtain a b where ab: "bytes_of s @ 0x0d # 0x0a # rest = a # b" by (cases "bytes_of s") auto
  have "char_of (unat (of_nat (of_char x) :: byte)) = x"
    using str_bytes_of [of "[x]"] by simp
  with Cons ne ab show ?case by simp
qed simp

definition resp_ok :: "resp_result \<Rightarrow> (respValue \<times> nat) option" where
  "resp_ok r = (case r of RespOK v n \<Rightarrow> Some (v, n) | _ \<Rightarrow> None)"

lemma resp_ok_Some [simp]: "resp_ok r = Some (v, n) \<longleftrightarrow> r = RespOK v n"
  by (auto simp: resp_ok_def split: resp_result.splits)

text \<open>What a successful parse at one depth promises to the loop over an aggregate's elements.\<close>

definition resp_good :: "nat \<Rightarrow> bool" where
  "resp_good d \<longleftrightarrow> (\<forall>b v n. respParse b d = RespOK v n \<longrightarrow>
     0 < n \<and> n \<le> length b \<and> rv_Bytes v = n \<and> length (rv_Items v) \<le> 8 \<and>
     (\<forall>c. respParse (b @ c) d = RespOK v n))"

lemma respItems_good:
  "resp_good d \<Longrightarrow> respItems k d b off bs kept = ItemsOK kept' off' bs' \<Longrightarrow> off \<le> length b \<Longrightarrow> length kept \<le> 8 \<Longrightarrow>
   off \<le> off' \<and> off' \<le> length b \<and> bs' + off = bs + off' \<and> length kept' \<le> 8 \<and>
   (\<forall>c. respItems k d (b @ c) off bs kept = ItemsOK kept' off' bs')"
proof (induction k arbitrary: off bs kept)
  case (Suc k)
  from Suc.prems(2) obtain el used where el: "respParse (drop off b) d = RespOK el used"
    and rest: "respItems k d b (off + used) (bs + used) (if length kept < 8 then kept @ [el] else kept) = ItemsOK kept' off' bs'"
    by (auto split: resp_result.splits)
  from Suc.prems(1) el have g: "0 < used" "used \<le> length (drop off b)"
    and st: "\<And>c. respParse (drop off b @ c) d = RespOK el used"
    unfolding resp_good_def by blast+
  have "off + used \<le> length b" "length (if length kept < 8 then kept @ [el] else kept) \<le> 8"
    using g(2) Suc.prems(3,4) by simp_all
  from Suc.IH [OF Suc.prems(1) rest this] Suc.prems(3) st show ?case
    by (auto simp: el)
qed simp

lemma resp_good_step:
  assumes "resp_good (d + 1)"
  shows "resp_good d"
  unfolding resp_good_def
proof (intro allI impI)
  fix b v n
  assume ok: "respParse b d = RespOK v n"
  then obtain t r line ll where b: "b = t # r" "\<not> d > respMaxDepth" and line: "respLine r = Some (line, ll)"
    by (cases b) (auto simp: respParse.simps [of "[]" d] respParse.simps [of "_ # _" d] Let_def split: if_splits option.splits)
  have ll: "2 \<le> ll" "Suc ll \<le> length b" using respLine_length [OF line] b by auto
  note unf = respParse.simps [of "t # r" d] respParse.simps [of "t # r @ c" d for c] line respLine_stable [OF line] b(2)
  note items = respItems_good [OF assms _ ll(2) _, unfolded b(1)]
  consider (scalar) "t \<in> {respSimple, respError, respBigNum, respDouble, respBool, respNull}"
    | (int) "t = respInt" | (bulk) "t \<in> {respBulk, respVerbatim, respBlobErr}"
    | (agg) "t \<in> {respArray, respSet, respPush, respMap, respAttr}"
    using ok by (auto simp: b(1) unf Let_def split: if_splits)
  then show "0 < n \<and> n \<le> length b \<and> rv_Bytes v = n \<and> length (rv_Items v) \<le> 8 \<and> (\<forall>c. respParse (b @ c) d = RespOK v n)"
  proof cases
    case scalar
    then show ?thesis using ok ll by (auto simp: b(1) unf Let_def)
  next
    case int
    have "respInt \<notin> {respSimple, respError, respBigNum, respDouble, respBool, respNull}"
      by (simp add: resp_types)
    then show ?thesis using ok ll
      by (auto simp: b(1) int unf [unfolded int] Let_def split: option.splits)
  next
    case bulk
    have ns: "t \<notin> {respSimple, respError, respBigNum, respDouble, respBool, respNull}" "t \<noteq> respInt"
      using bulk by (auto simp: resp_types)
    then obtain l where l: "go_ParseInt (go_TrimSpace line) = Some l"
      using ok bulk by (auto simp: b(1) unf Let_def split: option.splits)
    show ?thesis using ok ll ns bulk
      by (cases "l < 0"; cases "l > respMaxBulk"; cases "length b < 1 + ll + nat l + 2"; cases "respKeepBytes < nat l")
         (auto simp: b(1) unf Let_def l slice_append_left [of _ "t # r", simplified])
  next
    case agg
    have ns: "t \<notin> {respSimple, respError, respBigNum, respDouble, respBool, respNull}" "t \<noteq> respInt"
      "t \<notin> {respBulk, respVerbatim, respBlobErr}"
      using agg by (auto simp: resp_types)
    then obtain count where count: "go_ParseInt (go_TrimSpace line) = Some count"
      using ok agg by (auto simp: b(1) unf Let_def split: option.splits)
    define items where "items = (if t = respMap \<or> t = respAttr then wrap64 (count * 2) else count)"
    show ?thesis
    proof (cases "count < 0")
      case True
      then show ?thesis using ok ll ns agg by (auto simp: b(1) unf Let_def count)
    next
      case False
      then obtain kept bs where it: "respItems (nat items) (d + 1) (t # r) (1 + ll) (1 + ll) [] = ItemsOK kept n bs"
        and v: "v = RespValue t [] count kept bs False" and le: "\<not> items > 1048576"
        using ok ns agg
        by (auto simp: b(1) unf Let_def count items_def [symmetric] split: if_splits resp_items.splits)
      from respItems_good [OF assms it] ll b(1)
      have g: "1 + ll \<le> n" "n \<le> length b" "bs = n" "length kept \<le> 8"
        "\<And>c. respItems (nat items) (d + 1) (t # r @ c) (1 + ll) (1 + ll) [] = ItemsOK kept n bs"
        by auto
      have "respParse (b @ c) d = RespOK v n" for c
        using False ns agg le g(5) [of c]
        by (simp add: b(1) unf Let_def count items_def [symmetric] v)
      with g v show ?thesis by auto
    qed
  qed
qed

lemma resp_good: "resp_good d"
proof (induction "13 - d" arbitrary: d)
  case 0
  then have "d > respMaxDepth" by (simp add: respMaxDepth_def)
  then show ?case by (auto simp: resp_good_def respParse.simps)
next
  case (Suc m)
  then have "resp_good (d + 1)" by simp
  then show ?case by (rule resp_good_step)
qed

interpretation resp: frame_reader "\<lambda>b. resp_ok (respParse b d)" for d
  using resp_good [of d] by unfold_locales (auto simp: resp_good_def)

section \<open>Round trip\<close>

text \<open>
  RESP values as a client or server means them, and their encoding. \<open>resp_view\<close> is what the
  parser keeps of one: a long bulk payload is cut to \<open>respKeepBytes\<close>, an aggregate to its
  first eight elements, and the sizes are always the whole encoded ones.
\<close>

datatype resp =
    RLine byte string             \<comment> \<open>simple string, error, big number, double, boolean, null\<close>
  | RInt int
  | RBulk byte bytes              \<comment> \<open>bulk string, verbatim string, blob error\<close>
  | RNullBulk
  | RAgg byte "resp list"         \<comment> \<open>array, set, push\<close>
  | RPairs byte "(resp \<times> resp) list"   \<comment> \<open>map, attribute\<close>

abbreviation crlf :: bytes where "crlf \<equiv> [0x0d, 0x0a]"

fun resp_enc :: "resp \<Rightarrow> bytes" where
  "resp_enc (RLine t s) = t # bytes_of s @ crlf"
| "resp_enc (RInt i) = respInt # bytes_of (go_Itoa i) @ crlf"
| "resp_enc (RBulk t p) = t # bytes_of (go_utoa (length p)) @ crlf @ p @ crlf"
| "resp_enc RNullBulk = respBulk # bytes_of (go_Itoa (- 1)) @ crlf"
| "resp_enc (RAgg t vs) = t # bytes_of (go_utoa (length vs)) @ crlf @ concat (map resp_enc vs)"
| "resp_enc (RPairs t ps) = t # bytes_of (go_utoa (length ps)) @ crlf
     @ concat (map (\<lambda>(k, v). resp_enc k @ resp_enc v) ps)"

fun resp_view :: "resp \<Rightarrow> respValue" where
  "resp_view (RLine t s) = RespValue t s 0 [] (length s + 3) False"
| "resp_view (RInt i) = RespValue respInt (go_Itoa i) i [] (length (go_Itoa i) + 3) False"
| "resp_view (RBulk t p) = RespValue t (str (take respKeepBytes p)) (int (length p)) []
     (length (go_utoa (length p)) + length p + 5) (length p > respKeepBytes)"
| "resp_view RNullBulk = RespValue respNull ''(nil)'' 0 [] (length (go_Itoa (- 1)) + 3) False"
| "resp_view (RAgg t vs) = RespValue t [] (int (length vs)) (take 8 (map resp_view vs))
     (length (resp_enc (RAgg t vs))) False"
| "resp_view (RPairs t ps) = RespValue t [] (int (length ps))
     (take 8 (concat (map (\<lambda>(k, v). [resp_view k, resp_view v]) ps))) (length (resp_enc (RPairs t ps))) False"

text \<open>Well-formed within the protocol's and the parser's limits, at nesting depth \<open>d\<close>.\<close>

fun resp_wf :: "nat \<Rightarrow> resp \<Rightarrow> bool" where
  "resp_wf d (RLine t s) \<longleftrightarrow> d \<le> respMaxDepth \<and>
     t \<in> {respSimple, respError, respBigNum, respDouble, respBool, respNull} \<and> CHR 0x0D \<notin> set s"
| "resp_wf d (RInt i) \<longleftrightarrow> d \<le> respMaxDepth \<and> - (2 ^ 63) \<le> i \<and> i < 2 ^ 63"
| "resp_wf d (RBulk t p) \<longleftrightarrow> d \<le> respMaxDepth \<and>
     t \<in> {respBulk, respVerbatim, respBlobErr} \<and> int (length p) \<le> respMaxBulk"
| "resp_wf d RNullBulk \<longleftrightarrow> d \<le> respMaxDepth"
| "resp_wf d (RAgg t vs) \<longleftrightarrow> d \<le> respMaxDepth \<and> t \<in> {respArray, respSet, respPush} \<and>
     length vs \<le> 1048576 \<and> (\<forall>v \<in> set vs. resp_wf (d + 1) v)"
| "resp_wf d (RPairs t ps) \<longleftrightarrow> d \<le> respMaxDepth \<and> t \<in> {respMap, respAttr} \<and>
     length ps \<le> 524288 \<and> (\<forall>(k, v) \<in> set ps. resp_wf (d + 1) k \<and> resp_wf (d + 1) v)"

lemma go_plain_no_cr: "(\<forall>c \<in> set s. go_plain c) \<Longrightarrow> CHR 0x0D \<notin> set s"
  by (auto simp: go_plain_def)

lemma respLine_utoa: "respLine (bytes_of (go_utoa n) @ 0x0d # 0x0a # rest) = Some (go_utoa n, length (go_utoa n) + 2)"
  using go_utoa_digits [of n] by (intro respLine_text go_plain_no_cr) (auto intro: go_digit_plain)

lemma respLine_Itoa: "respLine (bytes_of (go_Itoa i) @ 0x0d # 0x0a # rest) = Some (go_Itoa i, length (go_Itoa i) + 2)"
  using go_utoa_digits
  by (intro respLine_text go_plain_no_cr) (auto simp: go_Itoa_def go_plain_def [of "CHR ''-''"] intro: go_digit_plain)

text \<open>The element loop on a sequence of encodings it can parse.\<close>

lemma respItems_enc:
  assumes "\<And>v rest. v \<in> set vs \<Longrightarrow> respParse (resp_enc v @ rest) d = RespOK (resp_view v) (length (resp_enc v))"
  shows "respItems (length vs) d (pre @ concat (map resp_enc vs) @ rest) (length pre) bs kept =
    ItemsOK (kept @ take (8 - length kept) (map resp_view vs))
      (length pre + length (concat (map resp_enc vs))) (bs + length (concat (map resp_enc vs)))"
  using assms
proof (induction vs arbitrary: pre bs kept)
  case (Cons v vs)
  have "respParse (drop (length pre) (pre @ concat (map resp_enc (v # vs)) @ rest)) d =
      RespOK (resp_view v) (length (resp_enc v))"
    using Cons.prems [of v] by simp
  then show ?case
    using Cons.IH [of "pre @ resp_enc v" "bs + length (resp_enc v)"] Cons.prems
    by (auto simp: take_Cons')
qed simp

lemma wrap64_small: "- (2 ^ 63) \<le> i \<Longrightarrow> i < 2 ^ 63 \<Longrightarrow> wrap64 i = i"
  by (simp add: wrap64_def signed_of_int signed_take_bit_int_eq_self)

lemma respParse_header:
  assumes "respLine r = Some (line, ll)" and "d \<le> respMaxDepth"
  shows "respParse (t # r) d =
    (let hdr = 1 + ll in
     if t \<in> {respSimple, respError, respBigNum, respDouble, respBool, respNull} then
       RespOK (RespValue t line 0 [] hdr False) hdr
     else case go_ParseInt (go_TrimSpace line) of
       None \<Rightarrow> RespBad
     | Some l \<Rightarrow>
       if t = respInt then RespOK (RespValue t line l [] hdr False) hdr
       else if t \<in> {respBulk, respVerbatim, respBlobErr} then
         (if l < 0 then RespOK (RespValue respNull ''(nil)'' 0 [] hdr False) hdr
          else if l > respMaxBulk then RespBad
          else if length r + 1 < hdr + nat l + 2 then RespMore
          else RespOK (RespValue t (str (take respKeepBytes (slice hdr (hdr + nat l) (t # r)))) l []
                 (hdr + nat l + 2) (nat l > respKeepBytes)) (hdr + nat l + 2))
       else if t \<in> {respArray, respSet, respPush, respMap, respAttr} then
         (if l < 0 then RespOK (RespValue respNull ''(nil array)'' 0 [] hdr False) hdr
          else let items = (if t = respMap \<or> t = respAttr then wrap64 (l * 2) else l) in
            if items > 1048576 then RespBad
            else case respItems (nat items) (d + 1) (t # r) hdr hdr [] of
                   ItemsBad \<Rightarrow> RespBad
                 | ItemsMore \<Rightarrow> RespMore
                 | ItemsOK kept off bs \<Rightarrow> RespOK (RespValue t [] l kept bs False) off)
       else RespBad)"
proof -
  have sl: "take respKeepBytes (slice hdr (hdr + nat l) (t # r)) = slice hdr (hdr + nat l) (t # r)"
    if "\<not> respKeepBytes < nat l" for hdr l
    using that by (auto simp: slice_def)
  show ?thesis
    using assms sl
    by (auto simp: respParse.simps [of "t # r" d] Let_def resp_types split: option.splits)
qed

lemma respParse_enc:
  "resp_wf d v \<Longrightarrow> respParse (resp_enc v @ rest) d = RespOK (resp_view v) (length (resp_enc v))"
proof (induction v arbitrary: d rest)
  case (RLine t s)
  then show ?case
    by (auto simp: respParse_header [OF respLine_text])
next
  case (RInt i)
  then show ?case
    by (simp add: respParse_header [OF respLine_Itoa] go_str_simps resp_types)
next
  case (RBulk t p)
  have "length p < 2 ^ 63" using RBulk by (simp add: respMaxBulk_def)
  moreover have "t \<notin> {respSimple, respError, respBigNum, respDouble, respBool, respNull}" "t \<noteq> respInt"
    using RBulk by (auto simp: resp_types)
  moreover have "slice (Suc (Suc (Suc (length (go_utoa (length p)))))) (Suc (Suc (Suc (length (go_utoa (length p)) + length p))))
      (t # bytes_of (go_utoa (length p)) @ 0x0d # 0x0a # p @ crlf @ rest) = p"
    by (simp add: slice_def)
  ultimately show ?case using RBulk
    by (simp add: respParse_header [OF respLine_utoa] go_str_simps Let_def)
next
  case RNullBulk
  then show ?case
    by (simp add: respParse_header [OF respLine_Itoa] go_str_simps resp_types)
next
  case (RAgg t vs)
  have it: "respItems (length vs) (d + 1) ((t # bytes_of (go_utoa (length vs)) @ crlf) @ concat (map resp_enc vs) @ rest)
      (length (t # bytes_of (go_utoa (length vs)) @ crlf)) bs [] =
    ItemsOK (take 8 (map resp_view vs))
      (length (t # bytes_of (go_utoa (length vs)) @ crlf) + length (concat (map resp_enc vs))) (bs + length (concat (map resp_enc vs)))" for bs
    using respItems_enc [of vs "d + 1" "t # bytes_of (go_utoa (length vs)) @ crlf" rest bs "[]"] RAgg by simp
  have n: "t \<notin> {respSimple, respError, respBigNum, respDouble, respBool, respNull}" "t \<noteq> respInt"
    "t \<notin> {respBulk, respVerbatim, respBlobErr}" "t \<noteq> respMap" "t \<noteq> respAttr"
    using RAgg.prems by (auto simp: resp_types)
  have "length vs < 2 ^ 63" using RAgg.prems by simp
  with RAgg.prems n it [of "Suc (Suc (Suc (length (go_utoa (length vs)))))"] show ?case
    by (simp add: respParse_header [OF respLine_utoa] go_str_simps Let_def)
next
  case (RPairs t ps)
  define vs where "vs = concat (map (\<lambda>(k, v). [k, v]) ps)"
  have enc: "concat (map (\<lambda>(k, v). resp_enc k @ resp_enc v) ps) = concat (map resp_enc vs)"
    unfolding vs_def by (induction ps) auto
  have view: "concat (map (\<lambda>(k, v). [resp_view k, resp_view v]) ps) = map resp_view vs"
    unfolding vs_def by (induction ps) auto
  have len: "length vs = 2 * length ps" unfolding vs_def by (induction ps) auto
  have prem: "respParse (resp_enc v @ rest') (d + 1) = RespOK (resp_view v) (length (resp_enc v))"
    if "v \<in> set vs" for v rest'
    using RPairs that unfolding vs_def by fastforce
  have it: "respItems (length vs) (d + 1) ((t # bytes_of (go_utoa (length ps)) @ crlf) @ concat (map resp_enc vs) @ rest)
      (length (t # bytes_of (go_utoa (length ps)) @ crlf)) bs [] =
    ItemsOK (take 8 (map resp_view vs))
      (length (t # bytes_of (go_utoa (length ps)) @ crlf) + length (concat (map resp_enc vs))) (bs + length (concat (map resp_enc vs)))" for bs
    using respItems_enc [of vs "d + 1", OF prem, of "t # bytes_of (go_utoa (length ps)) @ crlf" rest bs "[]"] by simp
  have n: "t \<notin> {respSimple, respError, respBigNum, respDouble, respBool, respNull}" "t \<noteq> respInt"
    "t \<notin> {respBulk, respVerbatim, respBlobErr}"
    using RPairs.prems by (auto simp: resp_types)
  have w: "wrap64 (int (length ps) * 2) = int (length ps) * 2" and l63: "length ps < 2 ^ 63"
    using RPairs.prems by (auto intro!: wrap64_small)
  have nt: "nat (int (length ps) * 2) = length vs" using len by simp
  show ?case using RPairs.prems n it [of "Suc (Suc (Suc (length (go_utoa (length ps)))))"] w l63
    by (simp add: respParse_header [OF respLine_utoa] go_str_simps Let_def enc view nt del: length_concat)
qed

section \<open>Properties\<close>

text \<open>
  C3. A buffer that starts with the encoding of a well-formed RESP value (any type, nested
  up to twelve levels, payloads that contain CRLF included) parses to that value and
  consumes exactly its encoding, whatever follows it.
\<close>

theorem respParse_roundtrip:
  "resp_wf d v \<Longrightarrow> respParse (resp_enc v @ rest) d = RespOK (resp_view v) (length (resp_enc v))"
  by (rule respParse_enc)

lemma respParse_roundtrip_witness:
  "respParse (resp_enc (RAgg respArray [RBulk respBulk [0x0d, 0x0a], RInt 7]) @ []) 0 =
     RespOK (resp_view (RAgg respArray [RBulk respBulk [0x0d, 0x0a], RInt 7]))
       (length (resp_enc (RAgg respArray [RBulk respBulk [0x0d, 0x0a], RInt 7])))"
  by (rule respParse_roundtrip) (simp add: respMaxDepth_def respMaxBulk_def)

text \<open>
  Reassembly: feeding a RESP stream to the parser in any segmentation, keeping the
  unfinished tail between segments, yields the same values and the same tail as parsing
  the whole stream at once. A value split over any number of TCP segments is never lost,
  duplicated or cut short.
\<close>

theorem resp_feed_segmentation:
  "feed (\<lambda>b. resp_ok (respParse b 0)) [] segs = drain (\<lambda>b. resp_ok (respParse b 0)) (concat segs)"
  by (rule resp.feed_start)

text \<open>
  What a successful parse promises: at least one byte and no more than the buffer is
  consumed, the value's \<^verbatim>\<open>Bytes\<close> is exactly the number of bytes consumed, and no more than
  eight elements of an aggregate are kept.
\<close>

theorem respParse_bounds:
  "respParse b d = RespOK v n \<Longrightarrow> 0 < n \<and> n \<le> length b \<and> rv_Bytes v = n \<and> length (rv_Items v) \<le> 8"
  using resp_good [of d] unfolding resp_good_def by blast

lemma respParse_bounds_witness:
  "0 < (5 :: nat) \<and> 5 \<le> length ([0x2b, 0x4f, 0x4b, 0x0d, 0x0a] :: bytes) \<and>
   rv_Bytes (RespValue respSimple ''OK'' 0 [] 5 False) = 5 \<and> length (rv_Items (RespValue respSimple ''OK'' 0 [] 5 False)) \<le> 8"
  by (rule respParse_bounds [of _ 0]) code_simp

text \<open>
  The element count of a map is doubled in 64-bit arithmetic before it is bounded, so
  a map that declares \<open>2 ^ 62\<close> pairs and holds none is accepted as a complete value
  instead of being refused as misframing.
\<close>

theorem respParse_map_count_wraps:
  "respParse (respMap # bytes_of ''4611686018427387904'' @ crlf) 0 =
     RespOK (RespValue respMap [] 4611686018427387904 [] 22 False) 22"
proof -
  let ?s = "''4611686018427387904''"
  have line: "respLine (bytes_of ?s @ crlf) = Some (?s, 21)"
    using respLine_text [of ?s "[]"] by simp
  have trim: "go_TrimSpace ?s = ?s" by (rule go_TrimSpace_plain) (simp add: go_plain_def)
  have count: "go_ParseInt ?s = Some 4611686018427387904"
    by (simp add: go_ParseInt_def go_ParseUint_def go_digit_def go_digit_val_def)
  have wrap: "wrap64 (4611686018427387904 * 2) = - (2 ^ 63)" by (simp add: wrap64_def)
  show ?thesis
    using respParse_header [OF line, of 0 respMap]
    by (simp add: trim count wrap [simplified] Let_def resp_types del: bytes_of_simps)
qed

end
