(* ===== verification/Aio_Ports.thy ===== *)
theory Aio_Ports
  imports Go_Strings
begin

text \<open>
  The All-in-One node's feature catalogue and port allocator, \<^verbatim>\<open>src/app/aio_ports.go\<close>. One
  container runs many database instances side by side, so every member of every instance
  gets a private slot of ten ports: instances are walked in design order, each takes as
  many consecutive slots of its family as it has members, and a slot's ports are the
  family's base plus ten times the slot. The lemmas show that two different members never
  share a port, that every port lies in its family's range and clear of the product
  defaults, and that adding an instance never moves another's ports.
\<close>

section \<open>The catalogue\<close>

definition famMySQL :: string where "famMySQL = ''mysql''"
definition famPG :: string where "famPG = ''postgres''"
definition famMongo :: string where "famMongo = ''mongodb''"
definition famValkey :: string where "famValkey = ''valkey''"
definition famProxy :: string where "famProxy = ''proxysql''"
definition famHAProxy :: string where "famHAProxy = ''haproxy''"
definition famOrch :: string where "famOrch = ''orchestrator''"

lemmas fam_defs = famMySQL_def famPG_def famMongo_def famValkey_def famProxy_def famHAProxy_def famOrch_def

record aioKind =
  ak_Kind :: string
  ak_Label :: string
  ak_Family :: string
  ak_Cluster :: bool
  ak_MinMem :: int
  ak_MaxMem :: int
  ak_DefMem :: int
  ak_OddOnly :: bool
  ak_MemChoices :: "int list"
  ak_EstMemMB :: int

text \<open>A standalone kind and a cluster kind as the table writes them (fields left out are zero).\<close>

definition ak_single :: "string \<Rightarrow> string \<Rightarrow> string \<Rightarrow> int \<Rightarrow> aioKind" where
  "ak_single k l f mb = \<lparr>ak_Kind = k, ak_Label = l, ak_Family = f, ak_Cluster = False, ak_MinMem = 0,
     ak_MaxMem = 0, ak_DefMem = 0, ak_OddOnly = False, ak_MemChoices = [], ak_EstMemMB = mb\<rparr>"

definition ak_cluster :: "string \<Rightarrow> string \<Rightarrow> string \<Rightarrow> int \<Rightarrow> int \<Rightarrow> int \<Rightarrow> bool \<Rightarrow> int list \<Rightarrow> int \<Rightarrow> aioKind" where
  "ak_cluster k l f mn mx df oddonly ch mb = \<lparr>ak_Kind = k, ak_Label = l, ak_Family = f, ak_Cluster = True,
     ak_MinMem = mn, ak_MaxMem = mx, ak_DefMem = df, ak_OddOnly = oddonly, ak_MemChoices = ch, ak_EstMemMB = mb\<rparr>"

definition aioKinds :: "aioKind list" where
  "aioKinds =
    [ak_single ''ps'' ''Percona Server'' famMySQL 700,
     ak_cluster ''psrepl'' ''Percona Server Replication'' famMySQL 2 5 3 False [] 700,
     ak_cluster ''innodb'' ''InnoDB Cluster / GR'' famMySQL 3 9 3 True [] 800,
     ak_cluster ''pxc'' ''PXC'' famMySQL 2 5 3 False [] 900,
     ak_single ''mysqlce'' ''MySQL Community'' famMySQL 700,
     ak_cluster ''mysqlcerepl'' ''MySQL Replication'' famMySQL 2 5 3 False [] 700,
     ak_cluster ''mysqlceinnodb'' ''MySQL InnoDB / GR'' famMySQL 3 9 3 True [] 800,
     ak_single ''mariadb'' ''MariaDB'' famMySQL 600,
     ak_cluster ''mariadbrepl'' ''MariaDB Replication'' famMySQL 2 5 3 False [] 600,
     ak_cluster ''mariadbgalera'' ''MariaDB Galera'' famMySQL 3 5 3 True [] 800,
     ak_single ''pg'' ''PostgreSQL'' famPG 300,
     ak_cluster ''patroni'' ''Patroni Cluster'' famPG 2 5 3 False [] 450,
     ak_cluster ''repmgr'' ''repmgr Cluster'' famPG 2 5 3 False [] 350,
     ak_cluster ''spock'' ''Spock Cluster'' famPG 2 5 2 False [] 350,
     ak_single ''psmdb'' ''PSMDB'' famMongo 500,
     ak_cluster ''psmrs'' ''PSMDB Replica Set'' famMongo 3 7 3 True [] 500,
     ak_cluster ''psmdbsharded'' ''PSMDB Sharded'' famMongo 5 13 5 False [5, 13] 400,
     ak_single ''valkey'' ''Valkey'' famValkey 120,
     ak_cluster ''valkeycluster'' ''Valkey Cluster'' famValkey 3 7 3 False [] 120,
     ak_cluster ''proxysql'' ''ProxySQL'' famProxy 1 3 1 False [] 200,
     ak_single ''haproxy'' ''HAProxy'' famHAProxy 80,
     ak_single ''orchestrator'' ''Orchestrator'' famOrch 150]"

text \<open>The map built from the table: a later entry of the same id would win.\<close>

definition aioKindOf :: "string \<Rightarrow> aioKind option" where
  "aioKindOf kind = map_of (rev (map (\<lambda>k. (ak_Kind k, k)) aioKinds)) kind"

definition aioFamilyOf :: "string \<Rightarrow> string" where
  "aioFamilyOf kind = (case aioKindOf kind of Some k \<Rightarrow> ak_Family k | None \<Rightarrow> '''')"

text \<open>The largest topology the count covers, 0 when it covers none.\<close>

definition aio_snap :: "int list \<Rightarrow> int \<Rightarrow> int" where
  "aio_snap choices members = fold (\<lambda>c best. if members \<ge> c \<and> c > best then c else best) choices 0"

definition aioMemberCount :: "string \<Rightarrow> int \<Rightarrow> int" where
  "aioMemberCount kind members =
     (case aioKindOf kind of
        None \<Rightarrow> 1
      | Some k \<Rightarrow>
          if \<not> ak_Cluster k then 1
          else if ak_MemChoices k \<noteq> [] then
            (let best = aio_snap (ak_MemChoices k) members in if best = 0 then ak_DefMem k else best)
          else if members < ak_MinMem k then ak_DefMem k
          else if members > ak_MaxMem k then ak_MaxMem k
          else members)"

definition aioMemberChoiceOK :: "aioKind \<Rightarrow> int \<Rightarrow> bool" where
  "aioMemberChoiceOK k members = (if ak_MemChoices k = [] then True else members \<in> set (ak_MemChoices k))"

definition aioMemberChoicesText :: "aioKind \<Rightarrow> string" where
  "aioMemberChoicesText k =
     (let parts = map go_Itoa (ak_MemChoices k) in
      case parts of
        [] \<Rightarrow> []
      | [p] \<Rightarrow> p
      | _ \<Rightarrow> go_Join (butlast parts) '', '' @ '' or '' @ last parts)"

section \<open>MySQL flavors and shapes\<close>

definition aioMySQLFlavorOfKind :: "string \<Rightarrow> string" where
  "aioMySQLFlavorOfKind kind =
     (if kind \<in> {''ps'', ''psrepl'', ''innodb''} then ''ps''
      else if kind = ''pxc'' then ''pxc''
      else if kind \<in> {''mariadb'', ''mariadbrepl'', ''mariadbgalera''} then ''mariadb''
      else if kind \<in> {''mysqlce'', ''mysqlcerepl'', ''mysqlceinnodb''} then ''mysqlce''
      else '''')"

definition aioMySQLShape :: "string \<Rightarrow> string" where
  "aioMySQLShape kind =
     (if kind \<in> {''ps'', ''mariadb'', ''mysqlce''} then ''single''
      else if kind \<in> {''psrepl'', ''mariadbrepl'', ''mysqlcerepl''} then ''repl''
      else if kind \<in> {''innodb'', ''mysqlceinnodb''} then ''gr''
      else if kind \<in> {''pxc'', ''mariadbgalera''} then ''galera''
      else '''')"

definition aioIsMariaDB :: "string \<Rightarrow> bool" where
  "aioIsMariaDB flavor \<longleftrightarrow> flavor = ''mariadb''"

definition aioFlavorLabel :: "string \<Rightarrow> string" where
  "aioFlavorLabel flavor =
     (if flavor = ''ps'' then ''Percona Server''
      else if flavor = ''pxc'' then ''Percona XtraDB Cluster''
      else if flavor = ''mariadb'' then ''MariaDB''
      else if flavor = ''mysqlce'' then ''MySQL Community''
      else ''MySQL'')"

section \<open>Ports\<close>

definition aioFamilyBase :: "string \<Rightarrow> int" where
  "aioFamilyBase fam =
     (if fam = famMySQL then 13000 else if fam = famPG then 15000 else if fam = famProxy then 16000
      else if fam = famMongo then 17000 else if fam = famHAProxy then 18000
      else if fam = famValkey then 19000 else if fam = famOrch then 20000 else 0)"

definition aioSlotWidth :: int where "aioSlotWidth = 10"
definition aioSlotsPerFamily :: int where "aioSlotsPerFamily = 100"

record aioPorts =
  ap_Base :: int
  ap_Client :: int
  ap_Admin :: int
  ap_Group :: int
  ap_IST :: int
  ap_SST :: int
  ap_Check :: int
  ap_REST :: int
  ap_EtcdCli :: int
  ap_EtcdPr :: int

definition aioPortsFor :: "string \<Rightarrow> int \<Rightarrow> int \<Rightarrow> aioPorts" where
  "aioPortsFor kind slot member =
     (let fam = aioFamilyOf kind;
          base = aioFamilyBase fam + (slot + member) * aioSlotWidth;
          p = \<lparr>ap_Base = base, ap_Client = base, ap_Admin = 0, ap_Group = 0, ap_IST = 0, ap_SST = 0,
               ap_Check = 0, ap_REST = 0, ap_EtcdCli = 0, ap_EtcdPr = 0\<rparr>
      in if fam = famMySQL then
           p\<lparr>ap_Admin := base + 1, ap_Group := base + 2, ap_IST := base + 3, ap_SST := base + 4, ap_Check := base + 5\<rparr>
         else if fam = famPG then p\<lparr>ap_REST := base + 1, ap_EtcdCli := base + 2, ap_EtcdPr := base + 3\<rparr>
         else if fam = famMongo then p
         else if fam = famValkey then p\<lparr>ap_Group := base + 1\<rparr>
         else if fam = famProxy then p\<lparr>ap_Admin := base + 1, ap_Group := base + 2\<rparr>
         else if fam = famHAProxy then p\<lparr>ap_Check := base + 1, ap_Admin := base + 2\<rparr>
         else p)"

definition aioPorts_list :: "aioPorts \<Rightarrow> int list" where
  "aioPorts_list p = sort (filter (\<lambda>v. v \<noteq> 0)
     [ap_Client p, ap_Admin p, ap_Group p, ap_IST p, ap_SST p, ap_Check p, ap_REST p, ap_EtcdCli p, ap_EtcdPr p])"

text \<open>The fields of an instance the modelled functions read.\<close>

record aioInstance =
  ai_ID :: string
  ai_Kind :: string
  ai_Name :: string
  ai_Members :: int
  ai_Distribution :: string
  ai_PGMajor :: string

fun aioAssignSlots_loop ::
  "aioInstance list \<Rightarrow> (string \<Rightarrow> int) \<Rightarrow> (string \<rightharpoonup> int) \<Rightarrow> (string \<rightharpoonup> int)" where
  "aioAssignSlots_loop [] nxt out = out"
| "aioAssignSlots_loop (i # is) nxt out =
     (let fam = aioFamilyOf (ai_Kind i) in
      if fam = '''' then aioAssignSlots_loop is nxt out
      else aioAssignSlots_loop is (nxt(fam := nxt fam + aioMemberCount (ai_Kind i) (ai_Members i)))
             (out(ai_ID i \<mapsto> nxt fam)))"

definition aioAssignSlots :: "aioInstance list \<Rightarrow> (string \<rightharpoonup> int)" where
  "aioAssignSlots instances = aioAssignSlots_loop instances (\<lambda>_. 0) Map.empty"

fun aioSlotsUsed :: "aioInstance list \<Rightarrow> string \<Rightarrow> int" where
  "aioSlotsUsed [] family = 0"
| "aioSlotsUsed (i # is) family =
     (if aioFamilyOf (ai_Kind i) = family then aioMemberCount (ai_Kind i) (ai_Members i) else 0)
       + aioSlotsUsed is family"

section \<open>Web endpoints\<close>

record aioWebEndpoint =
  we_Label :: string
  we_Port :: int
  we_Path :: string

definition aioWebEndpoints :: "string \<Rightarrow> aioPorts \<Rightarrow> aioWebEndpoint list" where
  "aioWebEndpoints kind p =
     (if kind = ''orchestrator'' then [\<lparr>we_Label = ''Orchestrator'', we_Port = ap_Client p, we_Path = ''/''\<rparr>]
      else if kind = ''haproxy'' then [\<lparr>we_Label = ''HAProxy stats'', we_Port = ap_Admin p, we_Path = ''/stats''\<rparr>]
      else if kind = ''patroni'' then [\<lparr>we_Label = ''Patroni REST'', we_Port = ap_REST p, we_Path = ''/cluster''\<rparr>]
      else [])"

definition aioPublishPorts :: "string \<Rightarrow> aioPorts \<Rightarrow> int list" where
  "aioPublishPorts kind p =
     fold (\<lambda>w out. if we_Port w > 0 \<and> we_Port w \<notin> set out then out @ [we_Port w] else out)
       (aioWebEndpoints kind p) [ap_Client p]"

section \<open>Lemmas\<close>

text \<open>Every entry of the table, once: facts about a kind are checked entry by entry.\<close>

lemma aioKinds_distinct: "distinct (map ak_Kind aioKinds)"
  by (simp add: aioKinds_def ak_single_def ak_cluster_def)

lemma aioKindOf_mem: "aioKindOf kind = Some k \<Longrightarrow> k \<in> set aioKinds \<and> ak_Kind k = kind"
  unfolding aioKindOf_def by (drule map_of_SomeD) auto

definition ak_wf :: "aioKind \<Rightarrow> bool" where
  "ak_wf k \<longleftrightarrow>
     (ak_Cluster k \<longrightarrow> 1 \<le> ak_MinMem k \<and> ak_MinMem k \<le> ak_DefMem k \<and> ak_DefMem k \<le> ak_MaxMem k) \<and>
     (\<forall>c \<in> set (ak_MemChoices k). ak_MinMem k \<le> c \<and> c \<le> ak_MaxMem k) \<and>
     (ak_MemChoices k \<noteq> [] \<longrightarrow> ak_DefMem k \<in> set (ak_MemChoices k)) \<and>
     (ak_OddOnly k \<longrightarrow> odd (ak_DefMem k)) \<and>
     ak_Family k \<in> {famMySQL, famPG, famMongo, famValkey, famProxy, famHAProxy, famOrch}"

lemma aioKinds_wf: "\<forall>k \<in> set aioKinds. ak_wf k"
  by (simp add: aioKinds_def ak_single_def ak_cluster_def ak_wf_def)

lemma aioKindOf_wf: "aioKindOf kind = Some k \<Longrightarrow> ak_wf k"
  using aioKindOf_mem aioKinds_wf by blast

lemma aio_snap_fold:
  "fold (\<lambda>c best. if m \<ge> c \<and> c > best then c else best) cs b = b \<or>
   (fold (\<lambda>c best. if m \<ge> c \<and> c > best then c else best) cs b \<in> set cs \<and>
    fold (\<lambda>c best. if m \<ge> c \<and> c > best then c else best) cs b \<le> (m :: int))"
proof (induction cs arbitrary: b)
  case (Cons c cs)
  show ?case using Cons [of "if m \<ge> c \<and> c > b then c else b"] by (auto split: if_splits)
qed simp

lemma aio_snap_in: "aio_snap cs m = 0 \<or> (aio_snap cs m \<in> set cs \<and> aio_snap cs m \<le> m)"
  unfolding aio_snap_def by (rule aio_snap_fold)

lemma aioMemberCount_pos: "1 \<le> aioMemberCount kind members"
proof (cases "aioKindOf kind")
  case (Some k)
  have "ak_wf k" using Some by (rule aioKindOf_wf)
  then show ?thesis using Some aio_snap_in [of "ak_MemChoices k" members]
    by (auto simp: aioMemberCount_def ak_wf_def Let_def)
qed (simp add: aioMemberCount_def)

lemma aioFamilyOf_known:
  "aioFamilyOf kind \<noteq> '''' \<Longrightarrow>
   aioFamilyOf kind \<in> {famMySQL, famPG, famMongo, famValkey, famProxy, famHAProxy, famOrch}"
  using aioKindOf_wf [of kind] by (auto simp: aioFamilyOf_def ak_wf_def split: option.splits)

text \<open>The member count is one the kind can have, whatever the design asks for.\<close>

lemma aioMemberCount_in_kind:
  assumes "aioKindOf kind = Some k" and "ak_Cluster k"
  shows "ak_MinMem k \<le> aioMemberCount kind members \<and> aioMemberCount kind members \<le> ak_MaxMem k \<and>
    aioMemberChoiceOK k (aioMemberCount kind members)"
proof -
  have "ak_wf k" using assms(1) by (rule aioKindOf_wf)
  then show ?thesis using assms aio_snap_in [of "ak_MemChoices k" members]
    by (auto simp: aioMemberCount_def aioMemberChoiceOK_def ak_wf_def Let_def)
qed

text \<open>Slots: an instance's first slot is what the instances before it in its family use.\<close>

lemma aioSlotsUsed_nonneg: "0 \<le> aioSlotsUsed xs fam"
proof (induction xs)
  case (Cons i xs)
  then show ?case using aioMemberCount_pos [of "ai_Kind i" "ai_Members i"] by simp
qed simp

lemma aioSlotsUsed_append: "aioSlotsUsed (xs @ ys) fam = aioSlotsUsed xs fam + aioSlotsUsed ys fam"
  by (induction xs) simp_all

lemma aioAssignSlots_loop_other:
  "x \<notin> ai_ID ` set xs \<Longrightarrow> aioAssignSlots_loop xs nxt out x = out x"
  by (induction xs arbitrary: nxt out) (auto simp: Let_def)

lemma aioAssignSlots_loop_nth:
  "k < length xs \<Longrightarrow> distinct (map ai_ID xs) \<Longrightarrow> aioFamilyOf (ai_Kind (xs ! k)) \<noteq> [] \<Longrightarrow>
   aioAssignSlots_loop xs nxt out (ai_ID (xs ! k)) =
     Some (nxt (aioFamilyOf (ai_Kind (xs ! k))) + aioSlotsUsed (take k xs) (aioFamilyOf (ai_Kind (xs ! k))))"
proof (induction xs arbitrary: k nxt out)
  case (Cons i xs)
  show ?case
  proof (cases k)
    case 0
    with Cons.prems show ?thesis by (auto simp: Let_def aioAssignSlots_loop_other)
  next
    case (Suc j)
    with Cons.prems have "j < length xs" "distinct (map ai_ID xs)" "aioFamilyOf (ai_Kind (xs ! j)) \<noteq> []"
      by auto
    from Cons.IH [OF this] this(3) Suc show ?thesis by (auto simp: Let_def)
  qed
qed simp

lemma aioAssignSlots_nth:
  assumes "k < length xs" and "distinct (map ai_ID xs)" and "aioFamilyOf (ai_Kind (xs ! k)) \<noteq> []"
  shows "aioAssignSlots xs (ai_ID (xs ! k)) = Some (aioSlotsUsed (take k xs) (aioFamilyOf (ai_Kind (xs ! k))))"
  using aioAssignSlots_loop_nth [OF assms] by (simp add: aioAssignSlots_def)

lemma aioSlotsUsed_step:
  assumes "j < k" and "k \<le> length xs" and "aioFamilyOf (ai_Kind (xs ! j)) = fam"
  shows "aioSlotsUsed (take j xs) fam + aioMemberCount (ai_Kind (xs ! j)) (ai_Members (xs ! j)) \<le> aioSlotsUsed (take k xs) fam"
proof -
  have "take k xs = take j (take k xs) @ (take k xs ! j) # drop (Suc j) (take k xs)"
    using assms(1,2) by (intro id_take_nth_drop) simp
  then have "take k xs = take j xs @ (xs ! j) # drop (Suc j) (take k xs)"
    using assms(1) by (simp add: min_def)
  then have "aioSlotsUsed (take k xs) fam =
      aioSlotsUsed (take j xs) fam + aioSlotsUsed ((xs ! j) # drop (Suc j) (take k xs)) fam"
    by (metis aioSlotsUsed_append)
  then show ?thesis using assms(3) aioSlotsUsed_nonneg [of "drop (Suc j) (take k xs)" fam] by simp
qed

lemma aioSlotsUsed_take: "aioSlotsUsed (take k xs) fam \<le> aioSlotsUsed xs fam"
  using aioSlotsUsed_append [of "take k xs" "drop k xs" fam] aioSlotsUsed_nonneg [of "drop k xs" fam] by simp

section \<open>The contract of a slotted port plan\<close>

text \<open>
  What the allocator relies on: families are numbered far enough apart for their slots.
  Then a port determines its family and its slot.
\<close>

locale port_plan =
  fixes fams :: "'f set" and base :: "'f \<Rightarrow> int" and width slots :: int
  assumes width_pos: "0 < width"
    and bases_apart: "f \<in> fams \<Longrightarrow> g \<in> fams \<Longrightarrow> f \<noteq> g \<Longrightarrow> base f + width * slots \<le> base g \<or> base g + width * slots \<le> base f"
begin

lemma port_in_range:
  assumes "0 \<le> s" "s < slots" "0 \<le> x" "x < width"
  shows "base f \<le> base f + s * width + x" "base f + s * width + x < base f + width * slots"
proof -
  have "s * width + x < (s + 1) * width" using assms by (simp add: algebra_simps)
  also have "\<dots> \<le> slots * width" using assms width_pos by (intro mult_right_mono) auto
  finally show "base f + s * width + x < base f + width * slots" by (simp add: mult.commute)
  show "base f \<le> base f + s * width + x" using assms width_pos by simp
qed

lemma port_determines_slot:
  assumes fg: "f \<in> fams" "g \<in> fams" and s: "0 \<le> s" "s < slots" and t: "0 \<le> t" "t < slots"
    and x: "0 \<le> x" "x < width" and y: "0 \<le> y" "y < width"
    and eq: "base f + s * width + x = base g + t * width + y"
  shows "f = g \<and> s = t \<and> x = y"
proof -
  have "f = g"
  proof (rule ccontr)
    assume "f \<noteq> g"
    from bases_apart [OF fg this] port_in_range [OF s x, of f] port_in_range [OF t y, of g] eq
    show False by linarith
  qed
  with eq have st: "s * width + x = t * width + y" by simp
  then have "(s * width + x) div width = (t * width + y) div width" by simp
  then have "s = t" using x y width_pos by simp
  with st \<open>f = g\<close> show ?thesis by simp
qed

end

abbreviation aio_families :: "string set" where
  "aio_families \<equiv> {famMySQL, famPG, famMongo, famValkey, famProxy, famHAProxy, famOrch}"

lemma aioFamilyBase_simps:
  "aioFamilyBase famMySQL = 13000" "aioFamilyBase famPG = 15000" "aioFamilyBase famProxy = 16000"
  "aioFamilyBase famMongo = 17000" "aioFamilyBase famHAProxy = 18000" "aioFamilyBase famValkey = 19000"
  "aioFamilyBase famOrch = 20000"
  by (simp_all add: aioFamilyBase_def fam_defs)

interpretation aio_plan: port_plan aio_families aioFamilyBase aioSlotWidth aioSlotsPerFamily
proof unfold_locales
  show "0 < aioSlotWidth" by (simp add: aioSlotWidth_def)
  fix f g
  assume "f \<in> aio_families" "g \<in> aio_families" "f \<noteq> g"
  then show "aioFamilyBase f + aioSlotWidth * aioSlotsPerFamily \<le> aioFamilyBase g \<or>
      aioFamilyBase g + aioSlotWidth * aioSlotsPerFamily \<le> aioFamilyBase f"
    by (simp add: aioSlotWidth_def aioSlotsPerFamily_def) (elim disjE; simp add: aioFamilyBase_simps)
qed

section \<open>Properties\<close>

text \<open>A member's ports all lie in its slot.\<close>

lemma aioPorts_list_in_slot:
  assumes "v \<in> set (aioPorts_list (aioPortsFor kind slot member))"
  shows "\<exists>x. 0 \<le> x \<and> x < aioSlotWidth \<and> v = aioFamilyBase (aioFamilyOf kind) + (slot + member) * aioSlotWidth + x"
proof -
  let ?b = "aioFamilyBase (aioFamilyOf kind) + (slot + member) * aioSlotWidth"
  have "v \<in> {?b, ?b + 1, ?b + 2, ?b + 3, ?b + 4, ?b + 5}"
    using assms unfolding aioPorts_list_def aioPortsFor_def Let_def
    by (auto split: if_splits)
  then show ?thesis
    by (elim insertE) (auto simp: aioSlotWidth_def)
qed

text \<open>
  C7. Two different members never share a port. For any All-in-One node whose instance ids
  are unique and whose families stay within their hundred slots, take any two members
  (of the same or of different instances, of known kinds): the port sets the allocator
  gives them are disjoint.
\<close>

theorem aio_ports_disjoint:
  assumes ids: "distinct (map ai_ID xs)"
    and fits: "\<forall>f. aioSlotsUsed xs f \<le> aioSlotsPerFamily"
    and i: "i < length xs" "aioFamilyOf (ai_Kind (xs ! i)) \<noteq> []" "0 \<le> m" "m < aioMemberCount (ai_Kind (xs ! i)) (ai_Members (xs ! i))"
    and j: "j < length xs" "aioFamilyOf (ai_Kind (xs ! j)) \<noteq> []" "0 \<le> n" "n < aioMemberCount (ai_Kind (xs ! j)) (ai_Members (xs ! j))"
    and ne: "(i, m) \<noteq> (j, n)"
    and slots: "aioAssignSlots xs (ai_ID (xs ! i)) = Some s" "aioAssignSlots xs (ai_ID (xs ! j)) = Some t"
  shows "set (aioPorts_list (aioPortsFor (ai_Kind (xs ! i)) s m)) \<inter>
    set (aioPorts_list (aioPortsFor (ai_Kind (xs ! j)) t n)) = {}"
proof (rule ccontr)
  let ?f = "aioFamilyOf (ai_Kind (xs ! i))" and ?g = "aioFamilyOf (ai_Kind (xs ! j))"
  assume "\<not> ?thesis"
  then obtain v where v: "v \<in> set (aioPorts_list (aioPortsFor (ai_Kind (xs ! i)) s m))"
    "v \<in> set (aioPorts_list (aioPortsFor (ai_Kind (xs ! j)) t n))" by blast
  have s: "s = aioSlotsUsed (take i xs) ?f" and t: "t = aioSlotsUsed (take j xs) ?g"
    using slots aioAssignSlots_nth [OF i(1) ids i(2)] aioAssignSlots_nth [OF j(1) ids j(2)] by simp_all
  have sm: "0 \<le> s + m" "s + m < aioSlotsPerFamily"
    using s i aioSlotsUsed_nonneg [of "take i xs" ?f] aioSlotsUsed_step [of i "Suc i" xs ?f]
      aioSlotsUsed_take [of "Suc i" xs ?f] fits [rule_format, of ?f] by auto
  have tn: "0 \<le> t + n" "t + n < aioSlotsPerFamily"
    using t j aioSlotsUsed_nonneg [of "take j xs" ?g] aioSlotsUsed_step [of j "Suc j" xs ?g]
      aioSlotsUsed_take [of "Suc j" xs ?g] fits [rule_format, of ?g] by auto
  obtain x y where xy: "0 \<le> x" "x < aioSlotWidth" "0 \<le> y" "y < aioSlotWidth"
    and eq: "aioFamilyBase ?f + (s + m) * aioSlotWidth + x = aioFamilyBase ?g + (t + n) * aioSlotWidth + y"
    using v aioPorts_list_in_slot by metis
  from aio_plan.port_determines_slot [OF aioFamilyOf_known [OF i(2)] aioFamilyOf_known [OF j(2)] sm tn xy eq]
  have fg: "?f = ?g" and slot: "s + m = t + n" by auto
  consider "i < j" | "j < i" | "i = j" by linarith
  then show False
  proof cases
    case 1
    with aioSlotsUsed_step [of i j xs ?f] fg s t slot i j show False by auto
  next
    case 2
    with aioSlotsUsed_step [of j i xs ?g] fg s t slot i j show False by auto
  next
    case 3
    with s t slot ne show False by auto
  qed
qed

text \<open>A node with a Percona Server, a three-member PXC and a PostgreSQL, for the witnesses.\<close>

definition aio_example :: "aioInstance list" where
  "aio_example =
     [\<lparr>ai_ID = ''a'', ai_Kind = ''ps'', ai_Name = ''ps01'', ai_Members = 1, ai_Distribution = [], ai_PGMajor = []\<rparr>,
      \<lparr>ai_ID = ''b'', ai_Kind = ''pxc'', ai_Name = ''pxc01'', ai_Members = 3, ai_Distribution = [], ai_PGMajor = []\<rparr>,
      \<lparr>ai_ID = ''c'', ai_Kind = ''pg'', ai_Name = ''pg01'', ai_Members = 1, ai_Distribution = [], ai_PGMajor = []\<rparr>]"

lemma aioKindOf_example [simp]:
  "aioKindOf ''ps'' = Some (ak_single ''ps'' ''Percona Server'' famMySQL 700)"
  "aioKindOf ''pxc'' = Some (ak_cluster ''pxc'' ''PXC'' famMySQL 2 5 3 False [] 900)"
  "aioKindOf ''pg'' = Some (ak_single ''pg'' ''PostgreSQL'' famPG 300)"
  by (simp_all add: aioKindOf_def aioKinds_def ak_single_def ak_cluster_def)

lemma aio_example_facts:
  "aioFamilyOf ''ps'' = famMySQL" "aioFamilyOf ''pxc'' = famMySQL" "aioFamilyOf ''pg'' = famPG"
  "aioMemberCount ''ps'' 1 = 1" "aioMemberCount ''pxc'' 3 = 3" "aioMemberCount ''pg'' 1 = 1"
  by (simp_all add: aioFamilyOf_def aioMemberCount_def ak_single_def ak_cluster_def)

lemma aio_ports_disjoint_witness:
  "set (aioPorts_list (aioPortsFor ''ps'' 0 0)) \<inter> set (aioPorts_list (aioPortsFor ''pxc'' 1 2)) = {}"
proof -
  have "set (aioPorts_list (aioPortsFor (ai_Kind (aio_example ! 0)) 0 0)) \<inter>
    set (aioPorts_list (aioPortsFor (ai_Kind (aio_example ! 1)) 1 2)) = {}"
  proof (rule aio_ports_disjoint)
    show "\<forall>f. aioSlotsUsed aio_example f \<le> aioSlotsPerFamily"
      by (simp add: aio_example_def aio_example_facts aioSlotsPerFamily_def)
  qed (simp_all add: aio_example_def aio_example_facts aioAssignSlots_def Let_def famMySQL_def famPG_def)
  then show ?thesis by (simp add: aio_example_def)
qed

text \<open>
  Every port of a member is inside its family's range of a thousand, at least 13000,
  so no instance is ever given a product's default port (3306, 5432, 6033, 6379, 8404,
  9200 and the like), and the ports of one member are pairwise distinct.
\<close>

theorem aio_ports_in_family_range:
  assumes "aioFamilyOf kind \<noteq> []" and "0 \<le> slot + member" and "slot + member < aioSlotsPerFamily"
  shows "(\<forall>v \<in> set (aioPorts_list (aioPortsFor kind slot member)).
      13000 \<le> v \<and> aioFamilyBase (aioFamilyOf kind) \<le> v \<and> v < aioFamilyBase (aioFamilyOf kind) + 1000)
    \<and> distinct (aioPorts_list (aioPortsFor kind slot member))"
proof (intro conjI ballI)
  fix v assume "v \<in> set (aioPorts_list (aioPortsFor kind slot member))"
  then obtain x where x: "0 \<le> x" "x < aioSlotWidth"
    and v: "v = aioFamilyBase (aioFamilyOf kind) + (slot + member) * aioSlotWidth + x"
    using aioPorts_list_in_slot by blast
  show "aioFamilyBase (aioFamilyOf kind) \<le> v" "v < aioFamilyBase (aioFamilyOf kind) + 1000"
    using aio_plan.port_in_range [OF assms(2,3) x, of "aioFamilyOf kind"] unfolding v
    by (simp_all add: aioSlotWidth_def aioSlotsPerFamily_def)
  moreover have "13000 \<le> aioFamilyBase (aioFamilyOf kind)"
    using aioFamilyOf_known [OF assms(1)] by (auto simp: aioFamilyBase_simps)
  ultimately show "13000 \<le> v" by simp
next
  define b where "b = aioFamilyBase (aioFamilyOf kind) + (slot + member) * aioSlotWidth"
  define fam where "fam = aioFamilyOf kind"
  have "13000 \<le> aioFamilyBase (aioFamilyOf kind)"
    using aioFamilyOf_known [OF assms(1)] by (auto simp: aioFamilyBase_simps)
  moreover have "0 \<le> (slot + member) * aioSlotWidth" using assms(2) by (simp add: aioSlotWidth_def)
  ultimately have "0 < b" unfolding b_def by linarith
  then have "b \<noteq> 0" "b + 1 \<noteq> 0" "b + 2 \<noteq> 0" "b + 3 \<noteq> 0" "b + 4 \<noteq> 0" "b + 5 \<noteq> 0" by linarith+
  then show "distinct (aioPorts_list (aioPortsFor kind slot member))"
    unfolding aioPortsFor_def Let_def b_def [symmetric] fam_def [symmetric]
    by (intro if_pred [where P = "\<lambda>p. distinct (aioPorts_list p)"]) (simp_all add: aioPorts_list_def)
qed

lemma aio_ports_in_family_range_witness:
  "list_all (\<lambda>v. 13000 \<le> v \<and> aioFamilyBase (aioFamilyOf ''pxc'') \<le> v
        \<and> v < aioFamilyBase (aioFamilyOf ''pxc'') + 1000) (aioPorts_list (aioPortsFor ''pxc'' 1 2))
    \<and> distinct (aioPorts_list (aioPortsFor ''pxc'' 1 2))"
  unfolding list_all_iff
  by (rule aio_ports_in_family_range) (simp_all add: aio_example_facts famMySQL_def aioSlotsPerFamily_def)

text \<open>
  Allocation is positional: appending instances to a design leaves the slot of every
  instance already there where it was, so a redeploy of an extended node never moves a
  running instance's ports.
\<close>

theorem aio_slots_stable:
  assumes "distinct (map ai_ID (xs @ ys))" and "x \<in> set xs" and "aioFamilyOf (ai_Kind x) \<noteq> []"
  shows "aioAssignSlots (xs @ ys) (ai_ID x) = aioAssignSlots xs (ai_ID x) \<and> aioAssignSlots xs (ai_ID x) \<noteq> None"
proof -
  from assms(2) obtain k where k: "k < length xs" "xs ! k = x" by (auto simp: in_set_conv_nth)
  have "aioAssignSlots (xs @ ys) (ai_ID ((xs @ ys) ! k)) =
      Some (aioSlotsUsed (take k (xs @ ys)) (aioFamilyOf (ai_Kind ((xs @ ys) ! k))))"
    by (rule aioAssignSlots_nth) (use assms k in \<open>simp_all add: nth_append\<close>)
  moreover have "aioAssignSlots xs (ai_ID (xs ! k)) = Some (aioSlotsUsed (take k xs) (aioFamilyOf (ai_Kind (xs ! k))))"
    by (rule aioAssignSlots_nth) (use assms k in simp_all)
  ultimately show ?thesis using k by (simp add: nth_append)
qed

lemma aio_slots_stable_witness:
  "aioAssignSlots (take 2 aio_example @ drop 2 aio_example) (ai_ID (aio_example ! 1)) =
     aioAssignSlots (take 2 aio_example) (ai_ID (aio_example ! 1)) \<and>
   aioAssignSlots (take 2 aio_example) (ai_ID (aio_example ! 1)) \<noteq> None"
  by (rule aio_slots_stable) (simp_all add: aio_example_def aio_example_facts famMySQL_def)

text \<open>
  The member count the allocator uses is one the kind can have: within the kind's
  bounds, and for a fixed-topology kind exactly one of its topologies, whatever number
  the design carries. A count already inside the bounds is kept as it is.
\<close>

theorem aioMemberCount_sound:
  assumes "aioKindOf kind = Some k" and "ak_Cluster k"
  shows "ak_MinMem k \<le> aioMemberCount kind members \<and> aioMemberCount kind members \<le> ak_MaxMem k
    \<and> aioMemberChoiceOK k (aioMemberCount kind members)
    \<and> (ak_MemChoices k = [] \<and> ak_MinMem k \<le> members \<and> members \<le> ak_MaxMem k \<longrightarrow> aioMemberCount kind members = members)"
  using aioMemberCount_in_kind [OF assms] assms by (auto simp: aioMemberCount_def)

lemma aioMemberCount_sound_witness:
  "ak_MinMem (ak_cluster ''pxc'' ''PXC'' famMySQL 2 5 3 False [] 900) \<le> aioMemberCount ''pxc'' 9
   \<and> aioMemberCount ''pxc'' 9 \<le> ak_MaxMem (ak_cluster ''pxc'' ''PXC'' famMySQL 2 5 3 False [] 900)"
proof -
  have "ak_Cluster (ak_cluster ''pxc'' ''PXC'' famMySQL 2 5 3 False [] 900)" by (simp add: ak_cluster_def)
  from aioMemberCount_sound [OF aioKindOf_example(2) this] show ?thesis by blast
qed

text \<open>What an instance publishes is a subset of what it binds, without repetition.\<close>

lemma aioPublishPorts_bound:
  "distinct (aioPublishPorts kind p) \<and> set (aioPublishPorts kind p) \<subseteq> {ap_Client p, ap_Admin p, ap_REST p}"
  by (auto simp: aioPublishPorts_def aioWebEndpoints_def)

end
