(* ===== verification/Sec_Groups.thy ===== *)
theory Sec_Groups
  imports Go_Strings
begin

text \<open>
  Security groups, \<^verbatim>\<open>src/app/secgroups.go\<close>: which pages of the application, and which API
  routes, each kind of account may use. The stored configuration maps group and feature to
  allowed or refused; \<open>normalize\<close> fills in defaults, applies the two fixed cells per
  group and takes a tool away from a group that lacks what the tool requires. It is applied
  whenever the configuration is read and before it is written. \<open>handleSetSecurityGroups\<close>
  is the handler that changes it, \<open>featureGate\<close> the check every API request passes.

  The stored JSON document is modelled as the map it encodes; a missing or unreadable row
  is the empty map, as in the source. The handler's input is the decoded request body,
  \<^term>\<open>None\<close> when it does not decode or holds no \<^verbatim>\<open>allowed\<close> object; its maps are lists of
  entries in the order Go's iteration happens to take.
\<close>

section \<open>The catalogue\<close>

definition GroupAdmin :: string where "GroupAdmin = ''admin''"
definition GroupUser :: string where "GroupUser = ''user''"
definition GroupGuest :: string where "GroupGuest = ''guest''"

lemmas group_defs = GroupAdmin_def GroupUser_def GroupGuest_def

definition groupOrder :: "string list" where
  "groupOrder = [GroupAdmin, GroupUser, GroupGuest]"

definition groupLabels :: "string \<rightharpoonup> string" where
  "groupLabels = [GroupAdmin \<mapsto> ''Administrators'', GroupUser \<mapsto> ''Regular Users'', GroupGuest \<mapsto> ''Guests'']"

record User =
  u_GuestAccount :: bool
  u_Role :: string

definition groupOf :: "User \<Rightarrow> string" where
  "groupOf u = (if u_GuestAccount u then GroupGuest else if u_Role u = ''admin'' then GroupAdmin else GroupUser)"

definition featDashboard :: string where "featDashboard = ''dashboard''"
definition featStacks :: string where "featStacks = ''stack-designer''"
definition featKanban :: string where "featKanban = ''kanban''"
definition featScratch :: string where "featScratch = ''scratchboard''"
definition featDataGen :: string where "featDataGen = ''data-generator''"
definition featExplorer :: string where "featExplorer = ''database-explorer''"
definition featQueryRun :: string where "featQueryRun = ''queryrun''"
definition featBenchmark :: string where "featBenchmark = ''benchmark''"
definition featSampleCode :: string where "featSampleCode = ''sample-code''"
definition featPacket :: string where "featPacket = ''packet-inspector''"
definition featOpDebugger :: string where "featOpDebugger = ''operator-debugger''"
definition featCoreDump :: string where "featCoreDump = ''core-dump''"
definition featStalk :: string where "featStalk = ''stalk-summary''"
definition featLogSummary :: string where "featLogSummary = ''log-summary''"
definition featFTDC :: string where "featFTDC = ''ftdc-summary''"
definition featOpSummary :: string where "featOpSummary = ''operator-summary''"
definition featK8sStates :: string where "featK8sStates = ''k8s-states''"
definition featAPI :: string where "featAPI = ''api''"
definition featProfile :: string where "featProfile = ''profile''"
definition featSettings :: string where "featSettings = ''settings''"
definition featManageUsers :: string where "featManageUsers = ''users''"

lemmas feat_defs = featDashboard_def featStacks_def featKanban_def featScratch_def featDataGen_def
  featExplorer_def featQueryRun_def featBenchmark_def featSampleCode_def featPacket_def
  featOpDebugger_def featCoreDump_def featStalk_def featLogSummary_def featFTDC_def
  featOpSummary_def featK8sStates_def featAPI_def featProfile_def featSettings_def featManageUsers_def

datatype Feature = Feature (ft_ID: string) (ft_Label: string) (ft_Requires: string)

definition features :: "Feature list" where
  "features =
    [Feature featDashboard ''Dashboard'' [], Feature featStacks ''Database Stacks'' [],
     Feature featKanban ''Kanban'' [], Feature featScratch ''Scratchboard'' [],
     Feature featDataGen ''Data Generator'' featStacks, Feature featExplorer ''Database Explorer'' featStacks,
     Feature featQueryRun ''Query Runner'' featStacks, Feature featBenchmark ''Benchmark'' featStacks,
     Feature featSampleCode ''Sample Client Code'' featStacks, Feature featPacket ''Packet Inspector'' featStacks,
     Feature featOpDebugger ''Operator Debugger'' featStacks, Feature featCoreDump ''Core Dump Analyzer'' featStacks,
     Feature featStalk ''Stalk Summary'' featStacks, Feature featLogSummary ''Log Summary'' featStacks,
     Feature featFTDC ''FTDC Summary'' featStacks, Feature featOpSummary ''Operator Summary'' featStacks,
     Feature featK8sStates ''Kubernetes States'' featStacks, Feature featAPI ''API'' [],
     Feature featProfile ''Profile'' [], Feature featSettings ''Settings'' [],
     Feature featManageUsers ''Manage Users'' []]"

definition featureByID :: "string \<Rightarrow> Feature option" where
  "featureByID i = find (\<lambda>f. ft_ID f = i) features"

text \<open>\<open>Some v\<close>: the group's access is fixed to \<open>v\<close>.\<close>

definition lockedFeature :: "string \<Rightarrow> string \<Rightarrow> bool option" where
  "lockedFeature grp feat =
     (if grp = GroupAdmin \<and> (feat = featManageUsers \<or> feat = featSettings) then Some True
      else if grp \<noteq> GroupAdmin \<and> feat = featManageUsers then Some False
      else None)"

definition defaultAllowed :: "string \<Rightarrow> string \<Rightarrow> bool" where
  "defaultAllowed grp feat =
     (if grp = GroupAdmin then True
      else if grp = GroupUser then feat \<noteq> featManageUsers
      else feat = featDashboard \<or> feat = featStacks)"

section \<open>Permissions\<close>

text \<open>\<open>p g f\<close> is Go's \<^verbatim>\<open>v, ok := p[g][f]\<close>.\<close>

type_synonym perms = "string \<Rightarrow> string \<rightharpoonup> bool"

definition sg_cell :: "perms \<Rightarrow> string \<Rightarrow> string \<Rightarrow> bool" where
  "sg_cell p g f =
     (let v = (case p g f of Some v \<Rightarrow> v | None \<Rightarrow> defaultAllowed g f)
      in case lockedFeature g f of Some fixed \<Rightarrow> fixed | None \<Rightarrow> v)"

text \<open>The second loop, over the features in catalogue order.\<close>

definition sg_require :: "Feature \<Rightarrow> (string \<rightharpoonup> bool) \<Rightarrow> (string \<rightharpoonup> bool)" where
  "sg_require f m =
     (if ft_Requires f \<noteq> [] \<and> m (ft_ID f) = Some True \<and> m (ft_Requires f) \<noteq> Some True
      then m(ft_ID f \<mapsto> False) else m)"

definition sg_group :: "perms \<Rightarrow> string \<Rightarrow> (string \<rightharpoonup> bool)" where
  "sg_group p g =
     fold sg_require features
       (fold (\<lambda>f m. m(ft_ID f \<mapsto> sg_cell p g (ft_ID f))) features Map.empty)"

definition normalize :: "perms \<Rightarrow> perms" where
  "normalize p = (\<lambda>g. if g \<in> set groupOrder then sg_group p g else Map.empty)"

definition groupPermissions :: "perms option \<Rightarrow> perms" where
  "groupPermissions stored = normalize (case stored of Some p \<Rightarrow> p | None \<Rightarrow> (\<lambda>_. Map.empty))"

definition allowedFeatures :: "perms option \<Rightarrow> User \<Rightarrow> string list" where
  "allowedFeatures stored u =
     (let m = groupPermissions stored (groupOf u)
      in map ft_ID (filter (\<lambda>f. m (ft_ID f) = Some True) features))"

definition featureAllowed :: "perms option \<Rightarrow> User \<Rightarrow> string \<Rightarrow> bool" where
  "featureAllowed stored u feat =
     (if feat = [] then True else groupPermissions stored (groupOf u) feat = Some True)"

section \<open>Routes\<close>

record apiRoute =
  rt_Method :: string
  rt_Path :: string
  rt_Group :: string
  rt_Public :: bool   \<comment> \<open>\<^verbatim>\<open>Auth == authPublic\<close>\<close>

definition groupFeature :: "string \<rightharpoonup> string" where
  "groupFeature = map_of
     [(''Setup & sign-in'', []), (''Preferences'', []), (''Notifications'', []),
      (''Users'', featManageUsers), (''API tokens'', featAPI), (''API metadata'', featAPI),
      (''Dashboard'', featDashboard), (''Kanban'', featKanban), (''Data Generator'', featDataGen),
      (''Query Runner'', featQueryRun), (''Database Explorer'', featExplorer), (''Benchmark'', featBenchmark),
      (''Sample Client Code'', featSampleCode), (''Packet Inspector'', featPacket),
      (''Operator Debugger'', featOpDebugger), (''Core Dump Analyzer'', featCoreDump),
      (''Stalk Summary'', featStalk), (''Log Summary'', featLogSummary), (''FTDC Summary'', featFTDC),
      (''Operator Summary'', featOpSummary)]"

definition routeFeature :: "apiRoute \<Rightarrow> string" where
  "routeFeature rt =
     (if rt_Public rt then []
      else if go_HasPrefix (rt_Path rt) ''/api/me/scratchboards'' then featScratch
      else if rt_Path rt = ''/api/me/profile'' \<or> rt_Path rt = ''/api/me/password'' then featProfile
      else if rt_Path rt = ''/api/system/settings'' \<and> rt_Method rt \<noteq> ''GET'' then featSettings
      else if rt_Path rt = ''/api/security/groups'' then featManageUsers
      else if rt_Group rt = ''Kubernetes frames'' \<and>
        (go_Contains (rt_Path rt) ''/states'' \<or> go_HasPrefix (rt_Path rt) ''/api/k8sstates'') then featK8sStates
      else case groupFeature (rt_Group rt) of Some f \<Rightarrow> f | None \<Rightarrow> featStacks)"

datatype gate = Pass | Forbidden string

definition featureDenied :: "User \<Rightarrow> string \<Rightarrow> string" where
  "featureDenied u feat =
     (let label = (case featureByID feat of Some f \<Rightarrow> ft_Label f | None \<Rightarrow> feat)
      in ''your security group ('' @ (case groupLabels (groupOf u) of Some l \<Rightarrow> l | None \<Rightarrow> [])
         @ '') does not have access to '' @ label)"

definition featureGate :: "perms option \<Rightarrow> User \<Rightarrow> apiRoute \<Rightarrow> bool \<Rightarrow> gate" where
  "featureGate stored u rt viaToken =
     (if rt_Public rt then Pass
      else if viaToken \<and> \<not> featureAllowed stored u featAPI then
        Forbidden (featureDenied u featAPI @ [CHR 0x20, CHR 0xE2, CHR 0x80, CHR 0x94]
          @ '' API tokens and dbcanvas-cli are not available to it'')
      else let f = routeFeature rt in
        if \<not> featureAllowed stored u f then Forbidden (featureDenied u f) else Pass)"

section \<open>Changing the configuration\<close>

datatype sg_error = BadBody | UnknownGroup string | UnknownFeature string | SaveFailed

type_synonym sg_request = "(string \<times> (string \<times> bool) list) list"

text \<open>The loop over one group's cells: refuse an unknown feature, set the others.\<close>

fun sg_set_cells :: "string \<Rightarrow> (string \<times> bool) list \<Rightarrow> perms \<Rightarrow> sg_error + perms" where
  "sg_set_cells g [] cur = Inr cur"
| "sg_set_cells g ((f, v) # cells) cur =
     (if featureByID f = None then Inl (UnknownFeature f)
      else sg_set_cells g cells (cur(g := (cur g)(f \<mapsto> v))))"

text \<open>Granting a tool grants what it needs, unless the request says otherwise about that.\<close>

fun sg_grant :: "string \<Rightarrow> (string \<times> bool) list \<Rightarrow> (string \<times> bool) list \<Rightarrow> perms \<Rightarrow> perms" where
  "sg_grant g m [] cur = cur"
| "sg_grant g m ((f, v) # cells) cur =
     (let req = (case featureByID f of Some ft \<Rightarrow> ft_Requires ft | None \<Rightarrow> [])
      in sg_grant g m cells
           (if v \<and> req \<noteq> [] \<and> req \<notin> fst ` set m then cur(g := (cur g)(req \<mapsto> True)) else cur))"

fun sg_apply :: "sg_request \<Rightarrow> perms \<Rightarrow> sg_error + perms" where
  "sg_apply [] cur = Inr cur"
| "sg_apply ((g, m) # rest) cur =
     (if groupLabels g = None then Inl (UnknownGroup g)
      else case sg_set_cells g m cur of
             Inl e \<Rightarrow> Inl e
           | Inr cur' \<Rightarrow> sg_apply rest (sg_grant g m m cur'))"

text \<open>
  The handler: the response (an error, or the new configuration) and the stored
  configuration afterwards. \<open>save\<close> says whether the settings row can be written.
\<close>

definition handleSetSecurityGroups ::
  "bool \<Rightarrow> perms option \<Rightarrow> sg_request option \<Rightarrow> (sg_error + perms) \<times> perms option" where
  "handleSetSecurityGroups save stored body =
     (case body of
        None \<Rightarrow> (Inl BadBody, stored)
      | Some req \<Rightarrow>
          (case sg_apply req (groupPermissions stored) of
             Inl e \<Rightarrow> (Inl e, stored)
           | Inr cur \<Rightarrow>
               let nxt = normalize cur in
               if save then (Inr (groupPermissions (Some nxt)), Some nxt) else (Inl SaveFailed, stored)))"

definition sg_Locked :: "string \<Rightarrow> string \<Rightarrow> bool" where
  "sg_Locked g f \<longleftrightarrow> g \<in> set groupOrder \<and> f \<in> ft_ID ` set features \<and> lockedFeature g f \<noteq> None"

section \<open>Facts about the catalogue\<close>

lemma features_distinct: "distinct (map ft_ID features)"
  by (simp add: features_def feat_defs)

text \<open>The only requirement in the catalogue is Database Stacks, which itself requires nothing.\<close>

lemma features_requires:
  "\<forall>f \<in> set features. (ft_Requires f = [] \<or> ft_Requires f = featStacks \<and> ft_ID f \<noteq> featStacks)"
  by (simp add: features_def feat_defs)

lemma featStacks_nonempty [simp]: "featStacks \<noteq> []"
  by (simp add: featStacks_def)

lemma features_ids:
  "featStacks \<in> ft_ID ` set features" "featManageUsers \<in> ft_ID ` set features" "featSettings \<in> ft_ID ` set features"
  by (simp_all add: features_def)

definition requiring :: "string set" where
  "requiring = ft_ID ` {f \<in> set features. ft_Requires f \<noteq> []}"

lemma requiring_code: "requiring = ft_ID ` set (filter (\<lambda>f. ft_Requires f \<noteq> []) features)"
  by (auto simp: requiring_def)

lemma featStacks_not_requiring: "featStacks \<notin> requiring"
  using features_requires by (auto simp: requiring_def)

lemma locked_not_requiring: "lockedFeature g f = Some v \<Longrightarrow> f \<notin> requiring"
  by (auto simp: lockedFeature_def requiring_def features_def feat_defs split: if_splits)

text \<open>The two loops of \<open>normalize\<close> in closed form.\<close>

lemma sg_fill:
  "fold (\<lambda>f m. m(ft_ID f \<mapsto> c (ft_ID f))) fs m0 i = (if i \<in> ft_ID ` set fs then Some (c i) else m0 i)"
  by (induction fs arbitrary: m0) auto

lemma sg_require_fold:
  assumes "\<forall>f \<in> set fs. ft_Requires f = [] \<or> ft_Requires f = featStacks \<and> ft_ID f \<noteq> featStacks"
  shows "fold sg_require fs m i =
    (if (\<exists>f \<in> set fs. ft_ID f = i \<and> ft_Requires f \<noteq> []) \<and> m i = Some True \<and> m featStacks \<noteq> Some True
     then Some False else m i)"
  using assms
proof (induction fs arbitrary: m)
  case (Cons f fs)
  have st: "sg_require f m featStacks = m featStacks"
    using Cons.prems by (auto simp: sg_require_def)
  show ?case
    using Cons.IH [of "sg_require f m"] Cons.prems st by (auto simp: sg_require_def)
qed simp

lemma sg_group_eq:
  "sg_group p g i =
     (if i \<notin> ft_ID ` set features then None
      else Some (sg_cell p g i \<and> (i \<in> requiring \<longrightarrow> sg_cell p g featStacks)))"
proof -
  have ex: "(\<exists>f \<in> set features. ft_ID f = i \<and> ft_Requires f \<noteq> []) \<longleftrightarrow> i \<in> requiring"
    by (auto simp: requiring_def)
  have rf: "i \<in> requiring \<Longrightarrow> i \<in> ft_ID ` set features" by (auto simp: requiring_def)
  show ?thesis
    unfolding sg_group_def sg_require_fold [OF features_requires] sg_fill ex
    using features_ids(1) rf by auto
qed

section \<open>The contract of a stored configuration\<close>

text \<open>
  A configuration that is normalized whenever it is read and before it is written: the
  normal forms are exactly the configurations with property \<open>ok\<close>, so whatever edits are
  made in between, what is stored is always \<open>ok\<close>.
\<close>

locale stored_config =
  fixes norm :: "'c \<Rightarrow> 'c" and ok :: "'c \<Rightarrow> bool"
  assumes norm_ok: "ok (norm c)"
    and ok_norm: "ok c \<Longrightarrow> norm c = c"
begin

lemma norm_idem: "norm (norm c) = norm c"
  by (rule ok_norm [OF norm_ok])

lemma ok_iff: "ok c \<longleftrightarrow> norm c = c"
  using norm_ok [of c] ok_norm [of c] by auto

lemma edits_ok: "es \<noteq> [] \<Longrightarrow> ok (fold (\<lambda>e c. norm (e c)) es c)"
  by (induction es rule: rev_induct) (simp_all add: norm_ok)

end

text \<open>
  What a normalized configuration is: a decision for every feature of every group and for
  nothing else, the locked cells as they must be, and no tool without what it requires.
\<close>

definition sg_ok :: "perms \<Rightarrow> bool" where
  "sg_ok p \<longleftrightarrow>
     (\<forall>g i. p g i \<noteq> None \<longleftrightarrow> g \<in> set groupOrder \<and> i \<in> ft_ID ` set features) \<and>
     (\<forall>g i v. g \<in> set groupOrder \<longrightarrow> lockedFeature g i = Some v \<longrightarrow> p g i = Some v) \<and>
     (\<forall>g i. i \<in> requiring \<longrightarrow> p g i = Some True \<longrightarrow> p g featStacks = Some True)"

lemma sg_okD:
  assumes "sg_ok p"
  shows sg_ok_total: "p g i \<noteq> None \<longleftrightarrow> g \<in> set groupOrder \<and> i \<in> ft_ID ` set features"
    and sg_ok_locked: "g \<in> set groupOrder \<Longrightarrow> lockedFeature g i = Some v \<Longrightarrow> p g i = Some v"
    and sg_ok_requires: "i \<in> requiring \<Longrightarrow> p g i = Some True \<Longrightarrow> p g featStacks = Some True"
  using assms unfolding sg_ok_def by simp_all

lemma locked_features: "lockedFeature g i = Some v \<Longrightarrow> i \<in> ft_ID ` set features"
  using features_ids by (auto simp: lockedFeature_def split: if_splits)

lemma normalize_ok: "sg_ok (normalize p)"
  unfolding sg_ok_def
proof (intro conjI allI impI)
  fix g i show "(normalize p g i \<noteq> None) = (g \<in> set groupOrder \<and> i \<in> ft_ID ` set features)"
    by (simp add: normalize_def sg_group_eq)
next
  fix g i v assume "g \<in> set groupOrder" and l: "lockedFeature g i = Some v"
  then show "normalize p g i = Some v"
    using locked_features [OF l] locked_not_requiring [OF l] by (simp add: normalize_def sg_group_eq sg_cell_def)
next
  fix g i assume "i \<in> requiring" and t: "normalize p g i = Some True"
  then have "g \<in> set groupOrder" "sg_cell p g featStacks"
    by (auto simp: normalize_def sg_group_eq split: if_splits)
  then show "normalize p g featStacks = Some True"
    using features_ids(1) featStacks_not_requiring by (simp add: normalize_def sg_group_eq)
qed

lemma ok_normalize: "sg_ok p \<Longrightarrow> normalize p = p"
proof (intro ext)
  fix g i
  assume ok: "sg_ok p"
  show "normalize p g i = p g i"
  proof (cases "g \<in> set groupOrder \<and> i \<in> ft_ID ` set features")
    case False
    with sg_ok_total [OF ok, of g i] have "p g i = None" by simp
    with False show ?thesis by (auto simp: normalize_def sg_group_eq)
  next
    case True
    have cell: "p g j = Some (sg_cell p g j)" if j: "j \<in> ft_ID ` set features" for j
    proof -
      obtain v where v: "p g j = Some v" using sg_ok_total [OF ok, of g j] True j by auto
      show ?thesis
      proof (cases "lockedFeature g j")
        case None
        with v show ?thesis by (simp add: sg_cell_def)
      next
        case (Some w)
        with True have "p g j = Some w" by (intro sg_ok_locked [OF ok]) simp_all
        with Some show ?thesis by (simp add: sg_cell_def)
      qed
    qed
    have "sg_cell p g featStacks" if "i \<in> requiring" "sg_cell p g i"
      using sg_ok_requires [OF ok that(1), of g] cell [of i] cell [of featStacks] True that(2) features_ids(1) by simp
    then show ?thesis using True cell [of i] by (auto simp: normalize_def sg_group_eq)
  qed
qed

interpretation sg: stored_config normalize sg_ok
  by unfold_locales (rule normalize_ok, rule ok_normalize)

section \<open>What a request does\<close>

lemma featureByID_Some: "featureByID i = Some f \<Longrightarrow> f \<in> set features \<and> ft_ID f = i"
  by (auto simp: featureByID_def find_Some_iff)

lemma featureByID_iff: "featureByID i \<noteq> None \<longleftrightarrow> i \<in> ft_ID ` set features"
  by (auto simp: featureByID_def find_None_iff)

lemma featureByID_requires:
  assumes "featureByID i = Some f"
  shows "ft_Requires f = (if i \<in> requiring then featStacks else [])"
proof -
  have f: "f \<in> set features" "ft_ID f = i" using featureByID_Some [OF assms] by auto
  have "f' = f" if "f' \<in> set features" "ft_ID f' = i" for f'
    using features_distinct inj_onD [of ft_ID "set features" f' f] that f by (simp add: distinct_map)
  then have "i \<in> requiring \<longleftrightarrow> ft_Requires f \<noteq> []" using f unfolding requiring_def by blast
  then show ?thesis using f(1) features_requires by auto
qed

lemma sg_set_cells_eq:
  "sg_set_cells g cells cur = Inr cur' \<Longrightarrow> distinct (map fst cells) \<Longrightarrow>
   cur' = cur(g := cur g ++ map_of cells) \<and> (\<forall>i \<in> fst ` set cells. featureByID i \<noteq> None)"
proof (induction cells arbitrary: cur)
  case (Cons c cells)
  obtain f v where c: "c = (f, v)" by (cases c)
  with Cons.prems have known: "featureByID f \<noteq> None"
    and r: "sg_set_cells g cells (cur(g := (cur g)(f \<mapsto> v))) = Inr cur'" by (auto split: if_splits)
  have "distinct (map fst cells)" using Cons.prems by simp
  from Cons.IH [OF r this] have "cur' = cur(g := (cur g)(f \<mapsto> v) ++ map_of cells)"
    and all: "\<forall>i \<in> fst ` set cells. featureByID i \<noteq> None" by (simp_all del: fun_upd_apply) (simp add: fun_eq_iff)
  moreover have "map_of cells f = None" using Cons.prems(2) c by (simp add: map_of_eq_None_iff)
  then have "(cur g)(f \<mapsto> v) ++ map_of cells = cur g ++ (map_of cells)(f \<mapsto> v)"
    by (simp add: fun_eq_iff map_add_def split: option.split)
  moreover have "map_of (c # cells) = (map_of cells)(f \<mapsto> v)" using c by simp
  ultimately have "cur' = cur(g := cur g ++ map_of (c # cells))" by metis
  moreover have "\<forall>i \<in> fst ` set (c # cells). featureByID i \<noteq> None" using c known all by simp
  ultimately show ?case by blast
qed simp

definition sg_grants :: "(string \<times> bool) list \<Rightarrow> (string \<times> bool) list \<Rightarrow> bool" where
  "sg_grants m cells \<longleftrightarrow> featStacks \<notin> fst ` set m \<and> (\<exists>f \<in> requiring. (f, True) \<in> set cells)"

lemma sg_grant_eq:
  "\<forall>i \<in> fst ` set cells. featureByID i \<noteq> None \<Longrightarrow>
   sg_grant g m cells cur = cur(g := (if sg_grants m cells then (cur g)(featStacks \<mapsto> True) else cur g))"
proof (induction cells arbitrary: cur)
  case (Cons c cells)
  obtain f v where c: "c = (f, v)" by (cases c)
  with Cons.prems obtain ft where ft: "featureByID f = Some ft" by auto
  have "sg_grants m (c # cells) \<longleftrightarrow> sg_grants m cells \<or> (v \<and> f \<in> requiring \<and> featStacks \<notin> fst ` set m)"
    by (auto simp: sg_grants_def c)
  then show ?case
    using Cons c ft featureByID_requires [OF ft] by (auto simp: fun_eq_iff Let_def)
qed (simp add: sg_grants_def)

definition sg_after :: "(string \<times> bool) list \<Rightarrow> (string \<rightharpoonup> bool) \<Rightarrow> (string \<rightharpoonup> bool)" where
  "sg_after m old = (if sg_grants m m then (old ++ map_of m)(featStacks \<mapsto> True) else old ++ map_of m)"

lemma sg_apply_eq:
  "sg_apply req cur = Inr cur' \<Longrightarrow> distinct (map fst req) \<Longrightarrow> \<forall>(g, m) \<in> set req. distinct (map fst m) \<Longrightarrow>
   (\<forall>g m. (g, m) \<in> set req \<longrightarrow> cur' g = sg_after m (cur g) \<and> groupLabels g \<noteq> None) \<and>
   (\<forall>g. g \<notin> fst ` set req \<longrightarrow> cur' g = cur g)"
proof (induction req arbitrary: cur)
  case (Cons r rest)
  obtain g m where r: "r = (g, m)" by (cases r)
  with Cons.prems obtain cur1 where lab: "groupLabels g \<noteq> None" and s: "sg_set_cells g m cur = Inr cur1"
    and ap: "sg_apply rest (sg_grant g m m cur1) = Inr cur'"
    by (auto split: if_splits sum.splits)
  have dm: "distinct (map fst m)" using Cons.prems r by auto
  note c1 = sg_set_cells_eq [OF s dm]
  have g1: "sg_grant g m m cur1 = cur(g := sg_after m (cur g))"
  proof -
    have "cur1 = cur(g := cur g ++ map_of m)" "\<forall>i \<in> fst ` set m. featureByID i \<noteq> None" using c1 by blast+
    then show ?thesis using sg_grant_eq [of m g m cur1] by (simp add: sg_after_def)
  qed
  have d: "distinct (map fst rest)" "\<forall>(g, m) \<in> set rest. distinct (map fst m)" "g \<notin> fst ` set rest"
    using Cons.prems r by auto
  from Cons.IH [OF ap d(1,2)] have
    i: "\<And>h n. (h, n) \<in> set rest \<Longrightarrow> cur' h = sg_after n (sg_grant g m m cur1 h) \<and> groupLabels h \<noteq> None" and
    f: "\<And>h. h \<notin> fst ` set rest \<Longrightarrow> cur' h = sg_grant g m m cur1 h" by blast+
  have "cur' h = sg_after n (cur h) \<and> groupLabels h \<noteq> None" if "(h, n) \<in> set (r # rest)" for h n
  proof (cases "(h, n) = (g, m)")
    case True
    then show ?thesis using f [of g] d(3) g1 lab by simp
  next
    case False
    then have in_rest: "(h, n) \<in> set rest" and "h \<noteq> g" using that r d(3) by force+
    then show ?thesis using i [OF in_rest] g1 by simp
  qed
  moreover have "cur' h = cur h" if "h \<notin> fst ` set (r # rest)" for h
    using that f [of h] g1 r by auto
  ultimately show ?case by blast
qed simp

text \<open>Which requests are refused, and with which error.\<close>

lemma sg_set_cells_result:
  "case sg_set_cells g cells cur of
     Inl e \<Rightarrow> \<exists>i \<in> fst ` set cells. featureByID i = None \<and> e = UnknownFeature i
   | Inr _ \<Rightarrow> \<forall>i \<in> fst ` set cells. featureByID i \<noteq> None"
proof (induction cells arbitrary: cur)
  case (Cons c cells)
  obtain f v where c: "c = (f, v)" by (cases c)
  show ?case
  proof (cases "featureByID f = None")
    case False
    then show ?thesis using Cons.IH [of "cur(g := (cur g)(f \<mapsto> v))"] c
      by (auto simp del: fun_upd_apply split: sum.splits)
  qed (simp add: c)
qed simp

lemma sg_apply_result:
  "case sg_apply req cur of
     Inl e \<Rightarrow> (\<exists>(g, m) \<in> set req. e = UnknownGroup g \<and> groupLabels g = None \<or>
                (\<exists>i \<in> fst ` set m. featureByID i = None \<and> e = UnknownFeature i))
   | Inr _ \<Rightarrow> (\<forall>(g, m) \<in> set req. groupLabels g \<noteq> None \<and> (\<forall>i \<in> fst ` set m. featureByID i \<noteq> None))"
proof (induction req cur rule: sg_apply.induct)
  case (2 g m rest cur)
  show ?case
  proof (cases "groupLabels g = None")
    case False
    show ?thesis
    proof (cases "sg_set_cells g m cur")
      case (Inl e)
      then show ?thesis using False sg_set_cells_result [of m g cur] by auto
    next
      case (Inr cur')
      then show ?thesis
        using False sg_set_cells_result [of m g cur] "2.IH" [OF False Inr] by (auto split: sum.splits)
    qed
  qed simp
qed simp

lemma groupLabels_order: "groupLabels g \<noteq> None \<longleftrightarrow> g \<in> set groupOrder"
  by (auto simp: groupLabels_def groupOrder_def)

text \<open>
  What a group wants of a feature after a request \<open>m\<close> about it: what the request says; where
  it says nothing, what was in force, but Database Stacks is also wanted when the request
  grants a tool that needs it.
\<close>

definition sg_wish :: "(string \<times> bool) list \<Rightarrow> (string \<rightharpoonup> bool) \<Rightarrow> string \<Rightarrow> bool" where
  "sg_wish m old f =
     (case map_of m f of
        Some v \<Rightarrow> v
      | None \<Rightarrow> old f = Some True \<or> f = featStacks \<and> (\<exists>t \<in> requiring. (t, True) \<in> set m))"

lemma sg_after_wish: "old f \<noteq> None \<Longrightarrow> sg_after m old f = Some (sg_wish m old f)"
proof (cases "map_of m f")
  case None
  assume "old f \<noteq> None"
  then obtain v where v: "old f = Some v" by auto
  have "f \<notin> fst ` set m" using None by (simp add: map_of_eq_None_iff)
  then show ?thesis using None v by (auto simp: sg_after_def sg_wish_def sg_grants_def map_add_def)
next
  case (Some v)
  then have "f \<in> fst ` set m" by (metis map_of_eq_None_iff option.distinct(1))
  then have "\<not> (f = featStacks \<and> sg_grants m m)" unfolding sg_grants_def by blast
  then show ?thesis using Some by (auto simp: sg_after_def sg_wish_def)
qed

lemma sg_after_cell:
  assumes "cur g = sg_after m (old g)" and "old g f \<noteq> None"
  shows "sg_cell cur g f = (case lockedFeature g f of Some v \<Rightarrow> v | None \<Rightarrow> sg_wish m (old g) f)"
  using assms sg_after_wish [of "old g" f m] by (simp add: sg_cell_def split: option.split)

lemma normalize_after:
  assumes g: "g \<in> set groupOrder" and f: "f \<in> ft_ID ` set features"
    and c: "cur g = sg_after m (old g)" and ok: "sg_ok old"
  shows "normalize cur g f = Some (case lockedFeature g f of
      Some v \<Rightarrow> v
    | None \<Rightarrow> sg_wish m (old g) f \<and> (f \<in> requiring \<longrightarrow> sg_wish m (old g) featStacks))"
proof -
  have "old g f \<noteq> None" "old g featStacks \<noteq> None" using sg_ok_total [OF ok] g f features_ids(1) by blast+
  moreover have "lockedFeature g featStacks = None" by (simp add: lockedFeature_def feat_defs)
  ultimately show ?thesis
    using g f locked_not_requiring [of g f] sg_after_cell [of cur g m old, OF c]
    by (auto simp: normalize_def sg_group_eq split: option.split)
qed

section \<open>Properties\<close>

lemma groupPermissions_ok: "sg_ok (groupPermissions stored)"
  unfolding groupPermissions_def by (rule sg.norm_ok)

lemma groupPermissions_norm: "normalize (groupPermissions stored) = groupPermissions stored"
  unfolding groupPermissions_def by (rule sg.norm_idem)

text \<open>
  C11. Whatever is stored, the configuration in force is well formed: it decides every
  feature of every group and nothing else, the fixed cells are as they must be, no group
  has a tool without Database Stacks; and normalizing it again changes nothing.
\<close>

theorem groupPermissions_well_formed:
  "sg_ok (groupPermissions stored) \<and> normalize (groupPermissions stored) = groupPermissions stored"
  by (intro conjI groupPermissions_ok groupPermissions_norm)

text \<open>
  Nobody can be locked out or let in by configuration: after any sequence of stored
  configurations an administrator's account still has Manage Users and Settings, and no
  other account ever has Manage Users. So an administrator's browser session always
  passes the gate of the security-groups route, and nobody else's request ever does.
\<close>

theorem security_groups_route_gate:
  assumes "\<not> rt_Public rt" and "rt_Path rt = ''/api/security/groups''"
  shows "featureGate stored u rt viaToken = Pass \<longleftrightarrow>
    groupOf u = GroupAdmin \<and> (viaToken \<longrightarrow> featureAllowed stored u featAPI)"
proof -
  have ok: "sg_ok (groupPermissions stored)" by (rule groupPermissions_ok)
  have g: "groupOf u \<in> set groupOrder" by (simp add: groupOf_def groupOrder_def)
  have f: "routeFeature rt = featManageUsers" using assms by (simp add: routeFeature_def go_HasPrefix_def)
  have "groupPermissions stored (groupOf u) featManageUsers = Some (groupOf u = GroupAdmin)"
    by (rule sg_ok_locked [OF ok g]) (simp add: lockedFeature_def)
  then have "featureAllowed stored u featManageUsers \<longleftrightarrow> groupOf u = GroupAdmin"
    by (simp add: featureAllowed_def featManageUsers_def)
  then show ?thesis using assms(1) f by (auto simp: featureGate_def Let_def)
qed

lemma security_groups_route_gate_witness:
  "featureGate None \<lparr>u_GuestAccount = False, u_Role = ''admin''\<rparr>
      \<lparr>rt_Method = ''PUT'', rt_Path = ''/api/security/groups'', rt_Group = ''Users'', rt_Public = False\<rparr> False = Pass
   \<longleftrightarrow> groupOf \<lparr>u_GuestAccount = False, u_Role = ''admin''\<rparr> = GroupAdmin \<and>
     (False \<longrightarrow> featureAllowed None \<lparr>u_GuestAccount = False, u_Role = ''admin''\<rparr> featAPI)"
  by (rule security_groups_route_gate) simp_all

text \<open>
  C13. The handler is all or nothing, and the configuration it leaves is known cell by cell.
  It answers with an error exactly when the request names an unknown group or feature (the
  error names one that is) or the row cannot be written, and then the stored configuration is
  untouched. Otherwise what is stored is well formed and is what the response shows; a group
  the request does not name keeps every cell; and in a group it names, every feature of the
  catalogue has its fixed value where the cell is locked, and elsewhere what the group wants
  of it: the value asked for, or where the request is silent the value it had, except that
  granting a tool also grants Database Stacks when the request does not mention it; a tool
  is taken away when Database Stacks is not wanted.
\<close>

theorem handleSetSecurityGroups_effect:
  assumes "distinct (map fst req)" and "\<forall>(g, m) \<in> set req. distinct (map fst m)"
  shows "case handleSetSecurityGroups save stored (Some req) of
      (Inl e, stored') \<Rightarrow> stored' = stored \<and>
        (case e of
           BadBody \<Rightarrow> False
         | UnknownGroup g \<Rightarrow> g \<in> fst ` set req \<and> g \<notin> set groupOrder
         | UnknownFeature f \<Rightarrow> f \<notin> ft_ID ` set features \<and> (\<exists>(g, m) \<in> set req. f \<in> fst ` set m)
         | SaveFailed \<Rightarrow> \<not> save)
    | (Inr shown, stored') \<Rightarrow>
        save \<and> (\<forall>(g, m) \<in> set req. g \<in> set groupOrder \<and> fst ` set m \<subseteq> ft_ID ` set features) \<and>
        stored' = Some shown \<and> sg_ok shown \<and>
        (\<forall>g. g \<notin> fst ` set req \<longrightarrow> shown g = groupPermissions stored g) \<and>
        (\<forall>(g, m) \<in> set req. \<forall>f \<in> ft_ID ` set features. shown g f =
           Some (case lockedFeature g f of
               Some v \<Rightarrow> v
             | None \<Rightarrow> sg_wish m (groupPermissions stored g) f \<and>
                 (f \<in> requiring \<longrightarrow> sg_wish m (groupPermissions stored g) featStacks)))"
proof (cases "sg_apply req (groupPermissions stored)")
  case (Inl e)
  then have h: "handleSetSecurityGroups save stored (Some req) = (Inl e, stored)"
    by (simp add: handleSetSecurityGroups_def)
  from sg_apply_result [of req "groupPermissions stored"] Inl obtain g m where gm: "(g, m) \<in> set req"
    and e: "e = UnknownGroup g \<and> groupLabels g = None \<or> (\<exists>i \<in> fst ` set m. featureByID i = None \<and> e = UnknownFeature i)"
    by auto
  have "g \<in> fst ` set req" using gm by force
  with e gm consider "e = UnknownGroup g" "g \<in> fst ` set req" "g \<notin> set groupOrder"
    | i where "i \<in> fst ` set m" "e = UnknownFeature i" "i \<notin> ft_ID ` set features"
    using groupLabels_order featureByID_iff by blast
  then show ?thesis
    unfolding h prod.case sum.case using gm by cases (simp_all del: image_iff, blast)
next
  case (Inr cur)
  note eff = sg_apply_eq [OF Inr assms]
  have known: "\<forall>(g, m) \<in> set req. g \<in> set groupOrder \<and> fst ` set m \<subseteq> ft_ID ` set features"
    using sg_apply_result [of req "groupPermissions stored"] groupLabels_order featureByID_iff
    unfolding Inr sum.case by (fastforce simp del: image_iff)
  have frame: "normalize cur g = groupPermissions stored g" if "g \<notin> fst ` set req" for g
  proof -
    have "cur g = groupPermissions stored g" using eff that by blast
    then have "normalize cur g = normalize (groupPermissions stored) g"
      by (simp add: normalize_def sg_group_def sg_cell_def)
    then show ?thesis by (simp add: groupPermissions_norm)
  qed
  have cell: "normalize cur g f = Some (case lockedFeature g f of
      Some v \<Rightarrow> v
    | None \<Rightarrow> sg_wish m (groupPermissions stored g) f \<and>
        (f \<in> requiring \<longrightarrow> sg_wish m (groupPermissions stored g) featStacks))"
    if "(g, m) \<in> set req" "f \<in> ft_ID ` set features" for g m f
    using that eff known by (intro normalize_after groupPermissions_ok) auto
  show ?thesis
  proof (cases save)
    case True
    then have h: "handleSetSecurityGroups save stored (Some req) = (Inr (normalize cur), Some (normalize cur))"
      using Inr sg.norm_idem [of cur] by (simp add: handleSetSecurityGroups_def Let_def groupPermissions_def)
    show ?thesis unfolding h prod.case sum.case
      using True frame cell known normalize_ok [of cur] by blast
  next
    case False
    then show ?thesis using Inr by (simp add: handleSetSecurityGroups_def Let_def)
  qed
qed

text \<open>Granting guests the Packet Inspector while refusing them the dashboard.\<close>

definition ex_request :: sg_request where
  "ex_request = [(GroupGuest, [(featPacket, True), (featDashboard, False)])]"

lemma handleSetSecurityGroups_effect_witness:
  "case handleSetSecurityGroups True None (Some ex_request) of
      (Inl e, stored') \<Rightarrow> False
    | (Inr shown, stored') \<Rightarrow>
        stored' = Some shown \<and> shown GroupUser = groupPermissions None GroupUser \<and>
        shown GroupGuest featPacket = Some True \<and> shown GroupGuest featDashboard = Some False \<and>
        shown GroupGuest featStacks = Some True \<and> shown GroupGuest featKanban = Some False"
proof -
  have d: "distinct (map fst ex_request)" "\<forall>(g, m) \<in> set ex_request. distinct (map fst m)"
    by (simp_all add: ex_request_def feat_defs)
  have ids: "\<forall>f \<in> {featPacket, featDashboard, featStacks, featKanban}. f \<in> ft_ID ` set features"
    by (simp add: features_def)
  have l: "\<forall>f \<in> {featPacket, featDashboard, featStacks, featKanban}. lockedFeature GroupGuest f = None"
    by (simp add: lockedFeature_def feat_defs)
  have r: "featPacket \<in> requiring" "featDashboard \<notin> requiring" "featKanban \<notin> requiring"
    by (simp_all add: requiring_code features_def feat_defs)
  have old: "groupPermissions None GroupGuest featKanban = Some False" by code_simp
  have w: "sg_wish (snd (ex_request ! 0)) h featPacket" "\<not> sg_wish (snd (ex_request ! 0)) h featDashboard"
    "sg_wish (snd (ex_request ! 0)) h featStacks" for h
    using r by (auto simp: sg_wish_def ex_request_def feat_defs)
  have wk: "\<not> sg_wish (snd (ex_request ! 0)) (groupPermissions None GroupGuest) featKanban"
    using old by (auto simp: sg_wish_def ex_request_def feat_defs)
  have m: "(GroupGuest, snd (ex_request ! 0)) \<in> set ex_request" by (simp add: ex_request_def)
  obtain res st where h: "handleSetSecurityGroups True None (Some ex_request) = (res, st)" by fastforce
  note t = handleSetSecurityGroups_effect [OF d, where save = True and stored = None, unfolded h prod.case]
  show ?thesis
  proof (cases res)
    case (Inl e)
    have "g \<in> fst ` set ex_request \<Longrightarrow> g \<in> set groupOrder" for g by (simp add: ex_request_def groupOrder_def)
    moreover have "\<forall>(g, m) \<in> set ex_request. fst ` set m \<subseteq> ft_ID ` set features" using ids by (simp add: ex_request_def)
    ultimately show ?thesis using t Inl by (cases e) (simp_all, blast+)
  next
    case (Inr shown)
    have u: "GroupUser \<notin> fst ` set ex_request" by (simp add: ex_request_def group_defs)
    have st: "st = Some shown" "shown GroupUser = groupPermissions None GroupUser" using t Inr u by simp_all
    have c: "shown GroupGuest f = Some (case lockedFeature GroupGuest f of Some v \<Rightarrow> v
        | None \<Rightarrow> sg_wish (snd (ex_request ! 0)) (groupPermissions None GroupGuest) f \<and>
            (f \<in> requiring \<longrightarrow> sg_wish (snd (ex_request ! 0)) (groupPermissions None GroupGuest) featStacks))"
      if "f \<in> ft_ID ` set features" for f using that t m unfolding Inr sum.case by blast
    have "shown GroupGuest featPacket = Some True \<and> shown GroupGuest featDashboard = Some False \<and>
        shown GroupGuest featStacks = Some True \<and> shown GroupGuest featKanban = Some False"
      using ids l r w wk featStacks_not_requiring by (simp add: c)
    with st show ?thesis unfolding h Inr prod.case sum.case by simp
  qed
qed

end
