(* ===== verification/Instance_Names.thy ===== *)
theory Instance_Names
  imports Go_Strings
begin

text \<open>
  The names one DBCanvas installation gives what it creates on a Docker daemon
  (\<^verbatim>\<open>src/app/instance.go\<close>, \<^verbatim>\<open>containerName\<close> and \<^verbatim>\<open>sanitizeName\<close> of \<^verbatim>\<open>src/app/intranet.go\<close>).
  Several installations share a daemon, and teardown, the dashboards and the port table
  recognise their own containers by name alone; so the names of one installation must never
  read as another's. \<^verbatim>\<open>instanceName\<close>, a global read from the environment at start-up, is the
  first argument of the definitions that use it.
\<close>

section \<open>Instance names\<close>

definition legacyInstance :: string where
  "legacyInstance = ''dbcanvas''"

datatype instance_problem =
    NotMatching
  | TagsLikeLegacy
  | TooLong
  | OnlyDigits string
  | StackScope string

definition name_char :: "char \<Rightarrow> bool" where
  "name_char c \<longleftrightarrow> (97 \<le> (of_char c :: nat) \<and> (of_char c :: nat) \<le> 122) \<or> go_digit c"

text \<open>The regular expression \<^verbatim>\<open>^[a-z][a-z0-9]*(-[a-z0-9]+)*$\<close>.\<close>

definition instanceRe :: "string \<Rightarrow> bool" where
  "instanceRe s =
     (let parts = go_Split s CHR ''-''
      in list_all (\<lambda>p. p \<noteq> [] \<and> list_all name_char p) parts \<and> \<not> go_digit (hd (hd parts)))"

text \<open>The loop over the dash-separated parts, in order; the first offender is reported.\<close>

fun validInstance_parts :: "string list \<Rightarrow> instance_problem option" where
  "validInstance_parts [] = None"
| "validInstance_parts (p # ps) =
     (if go_ParseInt p \<noteq> None then Some (OnlyDigits p)
      else if go_ParseInt (go_TrimPrefix p ''s'') \<noteq> None then Some (StackScope p)
      else validInstance_parts ps)"

definition validInstance :: "string \<Rightarrow> instance_problem option" where
  "validInstance s =
     (if \<not> instanceRe s then Some NotMatching
      else if s = legacyInstance @ ''-'' @ legacyInstance then Some TagsLikeLegacy
      else if length s > 40 then Some TooLong
      else validInstance_parts (go_Split s CHR ''-''))"

definition instanceName :: "string \<Rightarrow> string" where
  "instanceName env = (let v = go_TrimSpace env in if v \<noteq> [] then v else legacyInstance)"

definition instancePrefix :: "string \<Rightarrow> string" where
  "instancePrefix inst = inst @ ''-''"

definition instanceTag :: "string \<Rightarrow> string" where
  "instanceTag inst = go_TrimPrefix inst (legacyInstance @ ''-'')"

definition k3dLegacyNames :: "string \<Rightarrow> bool" where
  "k3dLegacyNames inst \<longleftrightarrow> inst = legacyInstance"

definition stackIDFromInstanceName :: "string \<Rightarrow> string \<Rightarrow> int option" where
  "stackIDFromInstanceName inst name =
     (case go_CutPrefix name (instancePrefix inst) of
        None \<Rightarrow> None
      | Some rest \<Rightarrow>
          (case go_Cut rest CHR ''-'' of
             (idtext, _, found) \<Rightarrow>
               if \<not> found \<or> idtext = [] then None
               else (case go_ParseInt idtext of
                       None \<Rightarrow> None
                     | Some n \<Rightarrow> if n \<le> 0 then None else Some n)))"

definition stackContainerPrefix :: "string \<Rightarrow> int \<Rightarrow> string" where
  "stackContainerPrefix inst stackID = instancePrefix inst @ go_Itoa stackID @ ''-''"

definition helperName :: "string \<Rightarrow> string \<Rightarrow> int \<Rightarrow> string" where
  "helperName inst kind n = instancePrefix inst @ kind @ ''-'' @ go_Itoa n"

section \<open>Container names\<close>

definition sanitize_rune :: "nat \<Rightarrow> char" where
  "sanitize_rune r =
     (if (97 \<le> r \<and> r \<le> 122) \<or> (65 \<le> r \<and> r \<le> 90) \<or> (48 \<le> r \<and> r \<le> 57) \<or> r = 45 \<or> r = 95 \<or> r = 46
      then char_of r else CHR ''-'')"

definition sanitizeName :: "string \<Rightarrow> string" where
  "sanitizeName s = map sanitize_rune (go_runes s)"

definition containerName :: "string \<Rightarrow> int \<Rightarrow> string \<Rightarrow> string" where
  "containerName inst stackID nodeID = stackContainerPrefix inst stackID @ sanitizeName nodeID"

section \<open>Lemmas\<close>

lemma go_digit_not_dash: "go_digit c \<Longrightarrow> c \<noteq> CHR ''-'' \<and> c \<noteq> CHR ''#''"
  by (auto simp: go_digit_def)

lemma go_Itoa_pos: "0 < i \<Longrightarrow> go_Itoa i = go_utoa (nat i)"
  by (simp add: go_Itoa_def)

lemma go_utoa_no_dash: "CHR ''-'' \<notin> set (go_utoa n)" "CHR ''#'' \<notin> set (go_utoa n)"
  using go_utoa_digits [of n] go_digit_not_dash by blast+

lemma validInstance_parts_None:
  "validInstance_parts ps = None \<longleftrightarrow>
     (\<forall>p \<in> set ps. go_ParseInt p = None \<and> go_ParseInt (go_TrimPrefix p ''s'') = None)"
  by (induction ps) auto

text \<open>The name's first part after the instance prefix is what is read as a stack id.\<close>

lemma stackID_part:
  "CHR ''-'' \<notin> set p \<Longrightarrow>
   stackIDFromInstanceName inst (inst @ ''-'' @ p @ ''-'' @ t) =
     (if p = [] then None else case go_ParseInt p of None \<Rightarrow> None | Some n \<Rightarrow> if n \<le> 0 then None else Some n)"
  by (simp add: stackIDFromInstanceName_def go_CutPrefix_def instancePrefix_def go_Cut_found split: option.split)

lemma stackID_own:
  "0 < n \<Longrightarrow> n < 2 ^ 63 \<Longrightarrow>
   stackIDFromInstanceName inst (stackContainerPrefix inst n @ t) = Some n"
  using stackID_part [of "go_utoa (nat n)" inst t] go_ParseInt_Itoa [of n]
  by (simp add: stackContainerPrefix_def instancePrefix_def go_Itoa_pos go_utoa_no_dash)

text \<open>
  When the prefix of one installation starts a name another one gave, one of the two
  instance names is the other one followed by a dash and more.
\<close>

lemma prefix_dash_cases:
  assumes "prefix (b @ ''-'') (a @ ''-'' @ i @ ''-'' @ t)" and "CHR ''-'' \<notin> set i"
  shows "b = a
    \<or> (\<exists>r. a = b @ ''-'' @ r)
    \<or> (\<exists>r. b = a @ ''-'' @ r \<and> prefix (r @ ''-'') (i @ ''-'' @ t))"
proof -
  from assms(1) obtain z where z: "a @ ''-'' @ i @ ''-'' @ t = b @ ''-'' @ z"
    by (auto simp: prefix_def)
  from append_eq_append_conv2 [THEN iffD1, OF z] obtain us where "(a = b @ us \<and> us @ ''-'' @ i @ ''-'' @ t = ''-'' @ z)
      \<or> (a @ us = b \<and> ''-'' @ i @ ''-'' @ t = us @ ''-'' @ z)"
    by blast
  then show ?thesis
  proof
    assume u: "a = b @ us \<and> us @ ''-'' @ i @ ''-'' @ t = ''-'' @ z"
    then show ?thesis by (cases us) auto
  next
    assume u: "a @ us = b \<and> ''-'' @ i @ ''-'' @ t = us @ ''-'' @ z"
    then show ?thesis by (cases us) (auto simp: prefix_def)
  qed
qed

text \<open>What the first part of a split is, and that a part followed by a dash is a part.\<close>

lemma go_Split_head:
  "r = hd (go_Split r c) \<or> (\<exists>t. r = hd (go_Split r c) @ c # t)"
proof (induction r)
  case (Cons x r)
  then show ?case by (cases "go_Split r c") (auto simp: neq_Nil_conv)
qed simp

lemma go_Split_prefix_part:
  assumes "prefix (r @ [c]) (i @ c # t)" and "c \<notin> set i"
  shows "i \<in> set (go_Split r c)"
proof -
  from assms(1) obtain z where "i @ c # t = r @ c # z" by (auto simp: prefix_def)
  from arg_cong [OF this, of "\<lambda>s. hd (go_Split s c)"]
  have "i = hd (go_Split r c)" using assms(2) by (simp add: go_Split_plain go_Split_append)
  then show ?thesis by simp
qed

section \<open>Properties\<close>

text \<open>
  C14. No two installations claim each other's containers: the name a valid installation
  gives a node of its stack reads, in that installation, as that stack's, and in no other
  valid installation as a stack's container at all. (The digits-only rule of
  \<^const>\<open>validInstance\<close> is what makes the second half true both ways round.)
\<close>

theorem stack_containers_exclusive:
  assumes a: "validInstance a = None" and b: "validInstance b = None"
    and n: "0 < n" "n < 2 ^ 63"
  shows "stackIDFromInstanceName b (containerName a n node) = (if b = a then Some n else None)"
proof (cases "b = a")
  case True
  then show ?thesis using n by (simp add: containerName_def stackID_own)
next
  case False
  have parts: "\<And>s p. validInstance s = None \<Longrightarrow> p \<in> set (go_Split s CHR ''-'') \<Longrightarrow> go_ParseInt p = None"
    by (simp add: validInstance_def validInstance_parts_None split: if_splits)
  let ?i = "go_utoa (nat n)"
  have name: "containerName a n node = a @ ''-'' @ ?i @ ''-'' @ sanitizeName node"
    using n by (simp add: containerName_def stackContainerPrefix_def instancePrefix_def go_Itoa_pos)
  have id: "go_ParseInt ?i = Some n" using n by (simp add: go_ParseInt_utoa)
  show ?thesis
  proof (cases "prefix (b @ ''-'') (containerName a n node)")
    case False
    then show ?thesis using \<open>b \<noteq> a\<close>
      by (simp add: stackIDFromInstanceName_def go_CutPrefix_def instancePrefix_def)
  next
    case True
    then consider (longer) r where "a = b @ ''-'' @ r"
      | (shorter) r where "b = a @ ''-'' @ r" "prefix (r @ ''-'') (?i @ ''-'' @ sanitizeName node)"
      using prefix_dash_cases [of b a ?i] \<open>b \<noteq> a\<close> go_utoa_no_dash(1) unfolding name by blast
    then show ?thesis
    proof cases
      case longer
      let ?p = "hd (go_Split r CHR ''-'')"
      have "?p \<in> set (go_Split a CHR ''-'')"
        unfolding longer using go_Split_append [of b "CHR ''-''" r] by simp
      with parts [OF a] have np: "go_ParseInt ?p = None" .
      have nd: "CHR ''-'' \<notin> set ?p" by (rule go_Split_no_sep [of _ r]) simp
      have "\<exists>t. r @ ''-'' @ ?i @ ''-'' @ sanitizeName node = ?p @ ''-'' @ t"
        using go_Split_head [of r "CHR ''-''"] by (metis append.assoc append_Cons append_Nil)
      then obtain t where "containerName a n node = b @ ''-'' @ ?p @ ''-'' @ t"
        unfolding name using longer by auto
      with stackID_part [OF nd, of b t] np show ?thesis using \<open>b \<noteq> a\<close> by simp
    next
      case shorter

      have "?i \<in> set (go_Split b CHR ''-'')"
      proof -
        have "?i \<in> set (go_Split r CHR ''-'')"
          by (rule go_Split_prefix_part [where t = "sanitizeName node"])
            (use shorter(2) in \<open>simp_all add: go_utoa_no_dash(1)\<close>)
        then show ?thesis unfolding shorter(1) using go_Split_append [of a "CHR ''-''" r] by simp
      qed
      with parts [OF b] id show ?thesis by fastforce
    qed
  qed
qed

lemma stack_containers_exclusive_witness:
  "stackIDFromInstanceName ''dbcanvas'' (containerName ''dbcanvas'' 12 ''pg 1'') = Some 12
   \<and> stackIDFromInstanceName ''dbcanvas'' (containerName ''dbcanvas-jane'' 12 ''pg 1'') = None"
proof -
  have v: "validInstance ''dbcanvas'' = None" "validInstance ''dbcanvas-jane'' = None"
    by code_simp+
  show ?thesis
    using stack_containers_exclusive [OF v(1) v(1), of 12 "''pg 1''"]
      stack_containers_exclusive [OF v(2) v(1), of 12 "''pg 1''"] by simp
qed

end
