(* ===== verification/Host_Ports.thy ===== *)
theory Host_Ports
  imports Instance_Names "HOL-Library.Char_ord" "HOL-Library.List_Lexorder"
begin

text \<open>
  Choosing the host ports DBCanvas publishes and keeping track of them
  (\<^verbatim>\<open>src/app/hostports.go\<close>): the \<^verbatim>\<open>host_ports\<close> table, the probe that runs on the Docker host,
  \<^verbatim>\<open>pickHostPorts\<close>, which settles the ports of one container, \<^verbatim>\<open>guardPublish\<close>, which applies it
  to a container about to be created, and the operations that release or rebuild
  reservations. The table is the list of its rows; \<^verbatim>\<open>port\<close> is its primary key. The one lock
  of the code makes each operation a single step on the table.

  What is outside the code is an argument: whether the host kernel lets a port be bound
  (\<open>bindable\<close>), the random numbers, the contents of \<^verbatim>\<open>/proc/sys/net/ipv4/ip_local_port_range\<close>, and
  the errors the database driver may return.
\<close>

section \<open>The table\<close>

type_synonym port_table = "(int \<times> string) list"

text \<open>\<^verbatim>\<open>INSERT OR REPLACE\<close>, \<^verbatim>\<open>INSERT OR IGNORE\<close> and \<^verbatim>\<open>DELETE ... WHERE\<close> on rows with \<^verbatim>\<open>port\<close> as primary key.\<close>

definition insert_or_replace :: "int \<Rightarrow> string \<Rightarrow> port_table \<Rightarrow> port_table" where
  "insert_or_replace p owner t = filter (\<lambda>r. fst r \<noteq> p) t @ [(p, owner)]"

definition insert_or_ignore :: "int \<Rightarrow> string \<Rightarrow> port_table \<Rightarrow> port_table" where
  "insert_or_ignore p owner t = (if map_of t p = None then t @ [(p, owner)] else t)"

definition delete_owners :: "(string \<Rightarrow> bool) \<Rightarrow> port_table \<Rightarrow> port_table" where
  "delete_owners P t = filter (\<lambda>r. \<not> P (snd r)) t"

text \<open>A transaction: either its error, and the table is as it was, or the new table.\<close>

definition SetHostPorts :: "string option \<Rightarrow> string \<Rightarrow> int list \<Rightarrow> port_table \<Rightarrow> string option \<times> port_table" where
  "SetHostPorts dberr owner ports t =
     (case dberr of
        Some e \<Rightarrow> (Some e, t)
      | None \<Rightarrow> (None, fold (\<lambda>p. insert_or_replace p owner) ports (delete_owners (\<lambda>o'. o' = owner) t)))"

definition HostPortOwners :: "string option \<Rightarrow> port_table \<Rightarrow> string + port_table" where
  "HostPortOwners dberr t = (case dberr of Some e \<Rightarrow> Inl e | None \<Rightarrow> Inr t)"

text \<open>
  The comparison \<^verbatim>\<open>substr(owner, 1, len(p)) = p\<close> for the ASCII string \<open>p\<close>, which is a test of
  prefixes whatever \<^verbatim>\<open>owner\<close> is.
\<close>

definition releaseNodePorts :: "string \<Rightarrow> int \<Rightarrow> string \<Rightarrow> port_table \<Rightarrow> port_table" where
  "releaseNodePorts inst stackID nodeID t =
     (let name = containerName inst stackID nodeID
      in delete_owners (\<lambda>o'. o' = name \<or> prefix (name @ ''#'') o') t)"

definition releaseStackPorts :: "string \<Rightarrow> int \<Rightarrow> port_table \<Rightarrow> port_table" where
  "releaseStackPorts inst stackID t =
     (let p = stackContainerPrefix inst stackID in delete_owners (\<lambda>o'. prefix p o') t)"

text \<open>
  \<open>pins\<close> is what Docker reports: for each container of the installation the host ports it is
  pinned to. Reservations beside a container (\<^verbatim>\<open>#\<close> in the owner) that Docker does not know
  are kept.
\<close>

definition reseedHostPorts :: "(string \<times> int list) list \<Rightarrow> port_table \<Rightarrow> port_table" where
  "reseedHostPorts pins owners =
     (let pinned = fold (\<lambda>name t. fold (\<lambda>p. insert_or_replace p name) (the (map_of pins name)) t)
                     (sort (map fst pins)) []
      in fold (\<lambda>(p, o') t. if map_of pins o' \<noteq> None \<or> \<not> go_Contains o' ''#'' then t
                           else insert_or_ignore p o' t) owners pinned)"

section \<open>The probe\<close>

record probeRequest =
  pr_Check :: "int list"
  pr_Count :: nat
  pr_Exclude :: "int list"

record probeResult =
  pr_Free :: "int list"
  pr_Picked :: "int list"

definition localPortRange :: "string option \<Rightarrow> int \<times> int" where
  "localPortRange file =
     (case file of
        None \<Rightarrow> (32768, 60999)
      | Some b \<Rightarrow>
          (case go_Fields b of
             [f0, f1] \<Rightarrow>
               (case (go_ParseInt f0, go_ParseInt f1) of
                  (Some lo, Some hi) \<Rightarrow> if lo > 1024 \<and> hi > lo then (lo, hi) else (32768, 60999)
                | _ \<Rightarrow> (32768, 60999))
           | _ \<Rightarrow> (32768, 60999)))"

text \<open>
  \<open>held\<close> is the list of ports the probe already listens on: the kernel refuses a second
  listener on the same address.
\<close>

definition probe_listen :: "(int \<Rightarrow> bool) \<Rightarrow> int list \<Rightarrow> int \<Rightarrow> bool" where
  "probe_listen bindable held p \<longleftrightarrow> bindable p \<and> p \<notin> set held"

fun probe_check :: "(int \<Rightarrow> bool) \<Rightarrow> int list \<Rightarrow> int list \<Rightarrow> int list" where
  "probe_check bindable [] held = held"
| "probe_check bindable (p # ps) held =
     probe_check bindable ps (if probe_listen bindable held p then held @ [p] else held)"

text \<open>
  The loop that draws ports: at most \<open>fuel\<close> more tries (the code stops at 2000), \<open>rnd\<close> the
  32-bit random numbers, \<open>skip\<close> the ports not to pick, \<open>held\<close> the open listeners.
\<close>

definition probe_draw :: "int \<Rightarrow> int \<Rightarrow> 32 word \<Rightarrow> int" where
  "probe_draw lo hi b = lo + uint (b mod of_int (hi - lo + 1))"

fun probe_pick ::
  "(int \<Rightarrow> bool) \<Rightarrow> int \<times> int \<Rightarrow> (nat \<Rightarrow> 32 word) \<Rightarrow> nat \<Rightarrow> nat \<Rightarrow> nat \<Rightarrow> int list \<Rightarrow> int list \<Rightarrow> int list \<Rightarrow> int list" where
  "probe_pick bindable (lo, hi) rnd count tries 0 skip held picked = picked"
| "probe_pick bindable (lo, hi) rnd count tries (Suc fuel) skip held picked =
     (if length picked \<ge> count then picked
      else let p = probe_draw lo hi (rnd tries) in
        if p \<in> set skip then probe_pick bindable (lo, hi) rnd count (tries + 1) fuel skip held picked
        else if probe_listen bindable held p
          then probe_pick bindable (lo, hi) rnd count (tries + 1) fuel (p # skip) (held @ [p]) (picked @ [p])
          else probe_pick bindable (lo, hi) rnd count (tries + 1) fuel (p # skip) held picked)"

definition probePorts ::
  "(int \<Rightarrow> bool) \<Rightarrow> string option \<Rightarrow> (nat \<Rightarrow> 32 word) \<Rightarrow> probeRequest \<Rightarrow> string + probeResult" where
  "probePorts bindable file rnd req =
     (let free = probe_check bindable (pr_Check req) [];
          picked = probe_pick bindable (localPortRange file) rnd (pr_Count req) 0 2000
                     (pr_Check req @ pr_Exclude req) free []
      in if length picked < pr_Count req
         then Inl (''found '' @ go_utoa (length picked) @ '' of '' @ go_utoa (pr_Count req) @ '' free ports'')
         else Inr \<lparr>pr_Free = free, pr_Picked = picked\<rparr>)"

section \<open>Choosing ports\<close>

record PortMap =
  pm_ContainerPort :: int
  pm_HostPort :: int
  pm_Auto :: bool

datatype port_error =
    PortTaken int string
  | DbError string
  | ProbeError string
  | NoFreePort

text \<open>\<^verbatim>\<open>describeOwner\<close>: a reservation's owner for a person.\<close>

definition describeOwner :: "string \<Rightarrow> string \<Rightarrow> string" where
  "describeOwner inst owner =
     (let (name, extra, _) = go_Cut owner CHR ''#'';
          rest = go_TrimPrefix name (instancePrefix inst);
          (i, node, ok) = go_Cut rest CHR ''-''
      in if ok \<and> rest \<noteq> name \<and> go_ParseInt i \<noteq> None
         then ''node '' @ node @ '' of stack '' @ i @ (if extra \<noteq> [] then '' ('' @ extra @ '')'' else [])
         else owner)"

text \<open>The first loop: what has to be checked on the host, and how many spares to ask for.\<close>

fun pick_demand :: "string \<Rightarrow> port_table \<Rightarrow> PortMap list \<Rightarrow> int list \<Rightarrow> nat \<Rightarrow> port_error + int list \<times> nat" where
  "pick_demand inst owners [] check need = Inr (check, need)"
| "pick_demand inst owners (m # ms) check need =
     (if pm_HostPort m \<le> 0 then pick_demand inst owners ms check (need + 1)
      else case map_of owners (pm_HostPort m) of
        Some by' \<Rightarrow>
          if \<not> pm_Auto m then Inl (PortTaken (pm_HostPort m) (describeOwner inst by'))
          else pick_demand inst owners ms check (need + 1)
      | None \<Rightarrow>
          pick_demand inst owners ms (check @ [pm_HostPort m]) (if pm_Auto m then need + 1 else need))"

text \<open>The second loop: settle each port; \<open>picked\<close> are the spares not used yet.\<close>

fun pick_settle :: "port_table \<Rightarrow> int list \<Rightarrow> PortMap list \<Rightarrow> int list \<Rightarrow> port_error + int list" where
  "pick_settle owners free [] picked = Inr []"
| "pick_settle owners free (m # ms) picked =
     (let hp = pm_HostPort m; held = (map_of owners hp \<noteq> None) in
      if hp > 0 \<and> \<not> held \<and> hp \<in> set free then
        (case pick_settle owners free ms picked of Inl e \<Rightarrow> Inl e | Inr out \<Rightarrow> Inr (hp # out))
      else if hp > 0 \<and> \<not> held \<and> \<not> pm_Auto m then
        Inl (PortTaken hp ''another program on the Docker host'')
      else case picked of
        [] \<Rightarrow> Inl NoFreePort
      | p # picked' \<Rightarrow>
          (case pick_settle owners free ms picked' of Inl e \<Rightarrow> Inl e | Inr out \<Rightarrow> Inr (p # out)))"

text \<open>The probe is not run when there is nothing to ask; its answer is then empty.\<close>

definition ask :: "(probeRequest \<Rightarrow> string + probeResult) \<Rightarrow> int list \<Rightarrow> nat \<Rightarrow> int list \<Rightarrow> string + probeResult" where
  "ask probe check need exclude =
     (if check \<noteq> [] \<or> need > 0 then probe \<lparr>pr_Check = check, pr_Count = need, pr_Exclude = exclude\<rparr>
      else Inr \<lparr>pr_Free = [], pr_Picked = []\<rparr>)"

definition pickHostPorts ::
  "(probeRequest \<Rightarrow> string + probeResult) \<Rightarrow> string \<Rightarrow> string option \<Rightarrow> string option \<Rightarrow> string \<Rightarrow> PortMap list
     \<Rightarrow> port_table \<Rightarrow> (port_error + int list) \<times> port_table" where
  "pickHostPorts probe inst rerr werr owner want t =
     (case HostPortOwners rerr t of
        Inl e \<Rightarrow> (Inl (DbError e), t)
      | Inr all \<Rightarrow>
          let owners = delete_owners (\<lambda>o'. o' = owner) all in
          (case pick_demand inst owners want [] 0 of
             Inl e \<Rightarrow> (Inl e, t)
           | Inr (check, need) \<Rightarrow>
               (case ask probe check need (map fst owners) of
                  Inl e \<Rightarrow> (Inl (ProbeError e), t)
                | Inr res \<Rightarrow>
                    (case pick_settle owners (pr_Free res) want (pr_Picked res) of
                       Inl e \<Rightarrow> (Inl e, t)
                     | Inr out \<Rightarrow>
                         (case SetHostPorts werr owner out t of
                            (Some e, t') \<Rightarrow> (Inl (DbError e), t')
                          | (None, t') \<Rightarrow> (Inr out, t'))))))"

text \<open>The fields of a \<^verbatim>\<open>ContainerSpec\<close> that publish ports.\<close>

record ContainerSpec =
  cs_Name :: string
  cs_PublishPort :: int
  cs_PublishPorts :: "int list"
  cs_PublishMap :: "PortMap list"

definition publish_maps :: "ContainerSpec \<Rightarrow> PortMap list" where
  "publish_maps spec =
     map (\<lambda>p. \<lparr>pm_ContainerPort = p, pm_HostPort = 0, pm_Auto = False\<rparr>)
       (filter (\<lambda>p. p > 0) (cs_PublishPort spec # cs_PublishPorts spec)) @ cs_PublishMap spec"

definition guardPublish ::
  "(probeRequest \<Rightarrow> string + probeResult) \<Rightarrow> string \<Rightarrow> string option \<Rightarrow> string option \<Rightarrow> ContainerSpec
     \<Rightarrow> port_table \<Rightarrow> (port_error + ContainerSpec) \<times> port_table" where
  "guardPublish probe inst rerr werr spec t =
     (let maps = publish_maps spec in
      if maps = [] then (Inr spec, t)
      else case pickHostPorts probe inst rerr werr (cs_Name spec) maps t of
        (Inl e, t') \<Rightarrow> (Inl e, t')
      | (Inr ports, t') \<Rightarrow>
          (Inr (spec\<lparr>cs_PublishPort := 0, cs_PublishPorts := [],
                     cs_PublishMap := map2 (\<lambda>m p. m\<lparr>pm_HostPort := p\<rparr>) maps ports\<rparr>), t'))"

section \<open>Lemmas on the table\<close>

definition table_ok :: "port_table \<Rightarrow> bool" where
  "table_ok t \<longleftrightarrow> distinct (map fst t)"

lemma map_of_filter_key: "map_of (filter (\<lambda>r. fst r \<noteq> p) t) q = (if q = p then None else map_of t q)"
  by (induction t) auto

lemma map_of_insert_or_replace [simp]:
  "map_of (insert_or_replace p owner t) q = (if q = p then Some owner else map_of t q)"
  by (auto simp: insert_or_replace_def map_add_def map_of_filter_key split: option.split)

lemma map_of_insert_or_ignore [simp]:
  "map_of (insert_or_ignore p owner t) q = (if q = p \<and> map_of t p = None then Some owner else map_of t q)"
  by (auto simp: insert_or_ignore_def map_add_def split: option.split)

lemma map_of_delete_owners:
  "table_ok t \<Longrightarrow> map_of (delete_owners P t) q =
     (case map_of t q of None \<Rightarrow> None | Some o' \<Rightarrow> if P o' then None else Some o')"
proof (induction t)
  case (Cons r t)
  obtain p ow where r: "r = (p, ow)" by (cases r)
  have "p \<notin> fst ` set t" using Cons.prems r by (simp add: table_ok_def)
  then have "map_of t p = None" by (simp add: map_of_eq_None_iff)
  moreover have "map_of (filter (\<lambda>r. \<not> P (snd r)) t) p = None"
    using \<open>p \<notin> fst ` set t\<close> by (auto simp: map_of_eq_None_iff)
  ultimately show ?case
    using Cons r by (auto simp: delete_owners_def table_ok_def split: option.splits)
qed (simp add: delete_owners_def)

lemma table_ok_insert_or_replace [simp]: "table_ok t \<Longrightarrow> table_ok (insert_or_replace p owner t)"
  by (auto simp: table_ok_def insert_or_replace_def distinct_map inj_on_def)

lemma table_ok_insert_or_ignore [simp]: "table_ok t \<Longrightarrow> table_ok (insert_or_ignore p owner t)"
  by (auto simp: table_ok_def insert_or_ignore_def map_of_eq_None_iff)

lemma table_ok_delete_owners [simp]: "table_ok t \<Longrightarrow> table_ok (delete_owners P t)"
  by (simp add: table_ok_def delete_owners_def distinct_map_filter)

lemma map_of_fold_replace:
  "map_of (fold (\<lambda>p. insert_or_replace p owner) ps t) q = (if q \<in> set ps then Some owner else map_of t q)"
  by (induction ps arbitrary: t) auto

lemma table_ok_fold_replace: "table_ok t \<Longrightarrow> table_ok (fold (\<lambda>p. insert_or_replace p owner) ps t)"
  by (induction ps arbitrary: t) auto

lemma table_ok_SetHostPorts: "table_ok t \<Longrightarrow> table_ok (snd (SetHostPorts e owner ps t))"
  by (simp add: SetHostPorts_def table_ok_fold_replace split: option.split)

lemma map_of_SetHostPorts:
  "table_ok t \<Longrightarrow> map_of (snd (SetHostPorts None owner ps t)) q =
     (if q \<in> set ps then Some owner else if map_of t q = Some owner then None else map_of t q)"
  by (simp add: SetHostPorts_def map_of_fold_replace map_of_delete_owners split: option.split)

section \<open>The contract of the probe\<close>

text \<open>
  What choosing ports relies on: the probe answers with as many ports as it was asked for,
  all different, all bindable, none of them one it was told to check or leave alone, and it
  reports exactly the bindable ones among those it checked.
\<close>

locale port_probe =
  fixes probe :: "probeRequest \<Rightarrow> string + probeResult"
    and bindable :: "int \<Rightarrow> bool"
  assumes probe_count: "probe req = Inr res \<Longrightarrow> length (pr_Picked res) = pr_Count req"
    and probe_distinct: "probe req = Inr res \<Longrightarrow> distinct (pr_Picked res)"
    and probe_picked: "probe req = Inr res \<Longrightarrow> p \<in> set (pr_Picked res) \<Longrightarrow>
      0 < p \<and> bindable p \<and> p \<notin> set (pr_Check req) \<and> p \<notin> set (pr_Exclude req)"
    and probe_free: "probe req = Inr res \<Longrightarrow> set (pr_Free res) = {p \<in> set (pr_Check req). bindable p}"

text \<open>The two loops of the code, characterised independently of the probe.\<close>

definition avail :: "port_table \<Rightarrow> PortMap \<Rightarrow> bool" where
  "avail owners m \<longleftrightarrow> pm_HostPort m > 0 \<and> map_of owners (pm_HostPort m) = None"

lemma pick_demand_avail:
  "avail owners m \<Longrightarrow> pick_demand inst owners (m # ms) check need =
     pick_demand inst owners ms (check @ [pm_HostPort m]) (if pm_Auto m then need + 1 else need)"
  by (auto simp: avail_def)

lemma pick_demand_spare:
  "\<not> avail owners m \<Longrightarrow> (pm_HostPort m > 0 \<longrightarrow> pm_Auto m) \<Longrightarrow>
   pick_demand inst owners (m # ms) check need = pick_demand inst owners ms check (need + 1)"
  by (auto simp: avail_def split: option.split)

lemma pick_settle_cons:
  "pick_settle owners free (m # ms) picked =
     (if avail owners m \<and> pm_HostPort m \<in> set free then
        (case pick_settle owners free ms picked of Inl e \<Rightarrow> Inl e | Inr out \<Rightarrow> Inr (pm_HostPort m # out))
      else if avail owners m \<and> \<not> pm_Auto m then
        Inl (PortTaken (pm_HostPort m) ''another program on the Docker host'')
      else case picked of
        [] \<Rightarrow> Inl NoFreePort
      | p # picked' \<Rightarrow>
          (case pick_settle owners free ms picked' of Inl e \<Rightarrow> Inl e | Inr out \<Rightarrow> Inr (p # out)))"
  by (simp add: avail_def Let_def)

declare pick_settle.simps(2) [simp del]

lemma pick_demand_Inr:
  "pick_demand inst owners ms check need = Inr (check', need') \<Longrightarrow>
     check' = check @ map pm_HostPort (filter (avail owners) ms)
     \<and> need' = need + length (filter (\<lambda>m. \<not> avail owners m \<or> pm_Auto m) ms)
     \<and> (\<forall>m \<in> set ms. pm_HostPort m > 0 \<and> \<not> avail owners m \<longrightarrow> pm_Auto m)"
proof (induction ms arbitrary: check need)
  case (Cons m ms)
  show ?case
  proof (cases "avail owners m")
    case True
    with Cons.prems have "pick_demand inst owners ms (check @ [pm_HostPort m]) (if pm_Auto m then need + 1 else need) = Inr (check', need')"
      by (simp only: pick_demand_avail)
    from Cons.IH [OF this] True show ?thesis by (simp split: if_splits)
  next
    case False
    with Cons.prems have "pm_HostPort m > 0 \<longrightarrow> pm_Auto m" by (auto simp: avail_def split: option.splits if_splits)
    note spare = pick_demand_spare [OF False this]
    from Cons.IH [OF Cons.prems [unfolded spare]] False \<open>pm_HostPort m > 0 \<longrightarrow> pm_Auto m\<close>
    show ?thesis by simp
  qed
qed simp

lemma pick_demand_Inl:
  "pick_demand inst owners ms check need = Inl e \<Longrightarrow>
     \<exists>m \<in> set ms. pm_HostPort m > 0 \<and> \<not> pm_Auto m \<and>
       (\<exists>by'. map_of owners (pm_HostPort m) = Some by' \<and> e = PortTaken (pm_HostPort m) (describeOwner inst by'))"
  by (induction ms arbitrary: check need) (auto split: if_splits option.splits)

text \<open>How the port settled for one wish relates to it.\<close>

definition settled :: "port_table \<Rightarrow> int list \<Rightarrow> int list \<Rightarrow> PortMap \<Rightarrow> int \<Rightarrow> bool" where
  "settled owners free picked m p \<longleftrightarrow>
     (if avail owners m \<and> pm_HostPort m \<in> set free then p = pm_HostPort m
      else p \<in> set picked \<and> (avail owners m \<longrightarrow> pm_Auto m))"

lemma settled_spare: "settled owners free qs m p \<Longrightarrow> settled owners free (q # qs) m p"
  by (auto simp: settled_def split: if_splits)

lemma pick_settle_Inr:
  "pick_settle owners free ms picked = Inr out \<Longrightarrow> list_all2 (settled owners free picked) ms out"
proof (induction ms arbitrary: picked out)
  case (Cons m ms)
  show ?case
  proof (cases "avail owners m \<and> pm_HostPort m \<in> set free")
    case True
    with Cons.prems obtain out' where o: "out = pm_HostPort m # out'" "pick_settle owners free ms picked = Inr out'"
      by (auto simp: pick_settle_cons split: sum.splits)
    have "settled owners free picked m (pm_HostPort m)" using True by (simp add: settled_def)
    with o Cons.IH [OF o(2)] show ?thesis by simp
  next
    case False
    with Cons.prems obtain q qs out' where q: "picked = q # qs" "out = q # out'"
      "pick_settle owners free ms qs = Inr out'" "avail owners m \<longrightarrow> pm_Auto m"
      by (auto simp: pick_settle_cons split: sum.splits if_splits list.splits)
    have "list_all2 (settled owners free picked) ms out'"
      unfolding q(1) using Cons.IH [OF q(3)] by (rule list_all2_mono) (rule settled_spare)
    moreover have "settled owners free picked m q" using q False by (auto simp: settled_def)
    ultimately show ?thesis using q by simp
  qed
qed simp

lemma pick_settle_distinct:
  assumes "pick_settle owners free ms picked = Inr out" "distinct picked"
    and "\<forall>m \<in> set ms. pm_HostPort m \<in> set free \<longrightarrow> pm_HostPort m \<notin> set picked"
    and "distinct (map pm_HostPort (filter (\<lambda>m. pm_HostPort m > 0) ms))"
  shows "distinct out \<and> set out \<subseteq> set picked \<union> pm_HostPort ` {m \<in> set ms. pm_HostPort m > 0 \<and> pm_HostPort m \<in> set free}"
  using assms
proof (induction ms arbitrary: picked out)
  case (Cons m ms)
  show ?case
  proof (cases "avail owners m \<and> pm_HostPort m \<in> set free")
    case True
    with Cons.prems(1) obtain out' where o: "out = pm_HostPort m # out'" "pick_settle owners free ms picked = Inr out'"
      by (auto simp: pick_settle_cons split: sum.splits)
    with Cons.IH [OF o(2) Cons.prems(2)] Cons.prems True show ?thesis
      by (fastforce simp: avail_def)
  next
    case False
    with Cons.prems(1) obtain q qs out' where q: "picked = q # qs" "out = q # out'"
      "pick_settle owners free ms qs = Inr out'"
      by (auto simp: pick_settle_cons split: sum.splits if_splits list.splits)
    have "distinct out' \<and> set out' \<subseteq> set qs \<union> pm_HostPort ` {m \<in> set ms. pm_HostPort m > 0 \<and> pm_HostPort m \<in> set free}"
      by (rule Cons.IH [OF q(3)]) (use Cons.prems q in \<open>auto split: if_splits\<close>)
    with q Cons.prems(2,3) show ?thesis by auto
  qed
qed simp

lemma pick_settle_Inl:
  "pick_settle owners free ms picked = Inl e \<Longrightarrow>
   length (filter (\<lambda>m. \<not> avail owners m \<or> pm_Auto m) ms) \<le> length picked \<Longrightarrow>
   \<exists>m \<in> set ms. avail owners m \<and> \<not> pm_Auto m \<and> pm_HostPort m \<notin> set free
     \<and> e = PortTaken (pm_HostPort m) ''another program on the Docker host''"
proof (induction ms arbitrary: picked)
  case (Cons m ms)
  show ?case
  proof (cases "avail owners m \<and> pm_HostPort m \<in> set free")
    case True
    with Cons.prems(1) have "pick_settle owners free ms picked = Inl e"
      by (auto simp: pick_settle_cons split: sum.splits)
    moreover have "length (filter (\<lambda>m. \<not> avail owners m \<or> pm_Auto m) ms) \<le> length picked"
      using Cons.prems(2) by (auto split: if_splits)
    ultimately show ?thesis using Cons.IH by fastforce
  next
    case False
    show ?thesis
    proof (cases "avail owners m \<and> \<not> pm_Auto m")
      case True
      with False Cons.prems(1) show ?thesis by (auto simp: pick_settle_cons)
    next
      case na: False
      with Cons.prems(2) obtain q qs where q: "picked = q # qs" by (cases picked) auto
      with na False Cons.prems(1) have "pick_settle owners free ms qs = Inl e"
        by (auto simp: pick_settle_cons split: sum.splits if_splits)
      moreover have "length (filter (\<lambda>m. \<not> avail owners m \<or> pm_Auto m) ms) \<le> length qs"
        using Cons.prems(2) na q by auto
      ultimately show ?thesis using Cons.IH by fastforce
    qed
  qed
qed simp


lemma pickHostPorts_Inr:
  assumes "pickHostPorts probe inst rerr werr owner want t = (Inr out, t')"
  obtains check need res where
    "pick_demand inst (delete_owners (\<lambda>o'. o' = owner) t) want [] 0 = Inr (check, need)"
    "ask probe check need (map fst (delete_owners (\<lambda>o'. o' = owner) t)) = Inr res"
    "pick_settle (delete_owners (\<lambda>o'. o' = owner) t) (pr_Free res) want (pr_Picked res) = Inr out"
    "t' = snd (SetHostPorts None owner out t)"
  using assms
  by (auto simp: pickHostPorts_def HostPortOwners_def SetHostPorts_def Let_def
      split: option.splits sum.splits)

lemma pickHostPorts_Inl:
  assumes "pickHostPorts probe inst rerr werr owner want t = (Inl e, t')"
  shows "t' = t \<and>
    ((\<exists>x. rerr = Some x \<and> e = DbError x) \<or> (\<exists>x. werr = Some x \<and> e = DbError x)
     \<or> pick_demand inst (delete_owners (\<lambda>o'. o' = owner) t) want [] 0 = Inl e
     \<or> (\<exists>check need. pick_demand inst (delete_owners (\<lambda>o'. o' = owner) t) want [] 0 = Inr (check, need) \<and>
         ((\<exists>x. ask probe check need (map fst (delete_owners (\<lambda>o'. o' = owner) t)) = Inl x \<and> e = ProbeError x)
          \<or> (\<exists>res. ask probe check need (map fst (delete_owners (\<lambda>o'. o' = owner) t)) = Inr res
               \<and> pick_settle (delete_owners (\<lambda>o'. o' = owner) t) (pr_Free res) want (pr_Picked res) = Inl e))))"
  using assms
  by (auto simp: pickHostPorts_def HostPortOwners_def SetHostPorts_def Let_def
      split: option.splits sum.splits)

text \<open>A port that another owner has not reserved.\<close>

definition obtainable :: "port_table \<Rightarrow> string \<Rightarrow> int \<Rightarrow> bool" where
  "obtainable t owner p \<longleftrightarrow> map_of t p = None \<or> map_of t p = Some owner"

lemma avail_own:
  "table_ok t \<Longrightarrow> avail (delete_owners (\<lambda>o'. o' = owner) t) m \<longleftrightarrow>
     pm_HostPort m > 0 \<and> obtainable t owner (pm_HostPort m)"
  by (auto simp: avail_def obtainable_def map_of_delete_owners split: option.splits)

lemma excluded_other:
  "table_ok t \<Longrightarrow> p \<notin> set (map fst (delete_owners (\<lambda>o'. o' = owner) t)) \<longleftrightarrow> obtainable t owner p"
  using map_of_eq_None_iff [of "delete_owners (\<lambda>o'. o' = owner) t" p]
  by (auto simp: obtainable_def map_of_delete_owners split: option.splits if_splits)

context port_probe
begin

lemma ask_laws:
  assumes "ask probe check need exclude = Inr res"
  shows "length (pr_Picked res) = need" "distinct (pr_Picked res)"
    "set (pr_Free res) = {p \<in> set check. bindable p}"
    "p \<in> set (pr_Picked res) \<Longrightarrow> 0 < p \<and> bindable p \<and> p \<notin> set check \<and> p \<notin> set exclude"
  using assms probe_count probe_distinct probe_free probe_picked
  by (fastforce simp: ask_def split: if_splits)+

lemma free_iff:
  assumes "pick_demand inst owners want [] 0 = Inr (check, need)"
    and "ask probe check need exclude = Inr res" and "m \<in> set want" and "avail owners m"
  shows "pm_HostPort m \<in> set (pr_Free res) \<longleftrightarrow> bindable (pm_HostPort m)"
  using pick_demand_Inr [OF assms(1)] ask_laws(3) [OF assms(2)] assms(3,4) by auto

text \<open>What a successful choice returns, port by port.\<close>

lemma pick_each:
  assumes ok: "table_ok t"
    and pick: "pickHostPorts probe inst rerr werr owner want t = (Inr out, t')"
  shows "list_all2 (\<lambda>m p. 0 < p \<and> bindable p \<and> obtainable t owner p \<and>
      (pm_HostPort m > 0 \<and> (\<not> pm_Auto m \<or> bindable (pm_HostPort m) \<and> obtainable t owner (pm_HostPort m))
         \<longrightarrow> p = pm_HostPort m)) want out"
proof -
  let ?own = "delete_owners (\<lambda>o'. o' = owner) t"
  from pick obtain check need res where p: "pick_demand inst ?own want [] 0 = Inr (check, need)"
    "ask probe check need (map fst ?own) = Inr res"
    "pick_settle ?own (pr_Free res) want (pr_Picked res) = Inr out"
    by (rule pickHostPorts_Inr)
  note dem = pick_demand_Inr [OF p(1)] and laws = ask_laws [OF p(2)]
  have one: "0 < q \<and> bindable q \<and> obtainable t owner q \<and>
      (pm_HostPort m > 0 \<and> (\<not> pm_Auto m \<or> bindable (pm_HostPort m) \<and> obtainable t owner (pm_HostPort m))
         \<longrightarrow> q = pm_HostPort m)"
    if m: "m \<in> set want" and s: "settled ?own (pr_Free res) (pr_Picked res) m q" for m q
  proof (cases "avail ?own m \<and> pm_HostPort m \<in> set (pr_Free res)")
    case True
    with s have "q = pm_HostPort m" by (simp add: settled_def)
    with True free_iff [OF p(1,2) m] avail_own [OF ok, of owner m] show ?thesis by auto
  next
    case False
    with s have q: "q \<in> set (pr_Picked res)" and au: "avail ?own m \<longrightarrow> pm_Auto m"
      by (auto simp: settled_def split: if_splits)
    have obt: "obtainable t owner q" using laws(4) [OF q] excluded_other [OF ok] by blast
    have "\<not> (pm_HostPort m > 0 \<and> (\<not> pm_Auto m \<or> bindable (pm_HostPort m) \<and> obtainable t owner (pm_HostPort m)))"
      using False au dem m avail_own [OF ok, of owner m] free_iff [OF p(1,2) m] by blast
    with obt laws(4) [OF q] show ?thesis by blast
  qed
  from pick_settle_Inr [OF p(3)] show ?thesis
    by (rule list.rel_mono_strong) (rule one)
qed

lemma pick_distinct:
  assumes pick: "pickHostPorts probe inst rerr werr owner want t = (Inr out, t')"
    and d: "distinct (map pm_HostPort (filter (\<lambda>m. pm_HostPort m > 0) want))"
  shows "distinct out"
proof -
  let ?own = "delete_owners (\<lambda>o'. o' = owner) t"
  from pick obtain check need res where p: "pick_demand inst ?own want [] 0 = Inr (check, need)"
    "ask probe check need (map fst ?own) = Inr res"
    "pick_settle ?own (pr_Free res) want (pr_Picked res) = Inr out"
    by (rule pickHostPorts_Inr)
  have "\<forall>m \<in> set want. pm_HostPort m \<in> set (pr_Free res) \<longrightarrow> pm_HostPort m \<notin> set (pr_Picked res)"
    using ask_laws(3,4) [OF p(2)] by blast
  with pick_settle_distinct [OF p(3) ask_laws(2) [OF p(2)] _ d] show ?thesis by blast
qed

text \<open>Why a choice can fail: the spares never run out, and nothing is reserved.\<close>

lemma pick_failure:
  assumes ok: "table_ok t"
    and pick: "pickHostPorts probe inst rerr werr owner want t = (Inl e, t')"
  shows "t' = t \<and>
    ((\<exists>x. e = DbError x \<and> (rerr = Some x \<or> werr = Some x)) \<or> (\<exists>x. e = ProbeError x)
     \<or> (\<exists>m \<in> set want. \<exists>who. e = PortTaken (pm_HostPort m) who \<and> pm_HostPort m > 0 \<and> \<not> pm_Auto m
          \<and> (\<not> obtainable t owner (pm_HostPort m) \<or> \<not> bindable (pm_HostPort m))))"
proof -
  let ?own = "delete_owners (\<lambda>o'. o' = owner) t"
  have settle: "\<exists>m \<in> set want. \<exists>who. e = PortTaken (pm_HostPort m) who \<and> pm_HostPort m > 0 \<and> \<not> pm_Auto m
          \<and> (\<not> obtainable t owner (pm_HostPort m) \<or> \<not> bindable (pm_HostPort m))"
    if p: "pick_demand inst ?own want [] 0 = Inr (check, need)" "ask probe check need (map fst ?own) = Inr res"
      "pick_settle ?own (pr_Free res) want (pr_Picked res) = Inl e" for check need res
  proof -
    have "length (filter (\<lambda>m. \<not> avail ?own m \<or> pm_Auto m) want) \<le> length (pr_Picked res)"
      using pick_demand_Inr [OF p(1)] ask_laws(1) [OF p(2)] by simp
    from pick_settle_Inl [OF p(3) this] obtain m where m: "m \<in> set want" "avail ?own m" "\<not> pm_Auto m"
      "pm_HostPort m \<notin> set (pr_Free res)" "e = PortTaken (pm_HostPort m) ''another program on the Docker host''"
      by blast
    with free_iff [OF p(1,2) m(1,2)] show ?thesis by (auto simp: avail_def)
  qed
  have demand: "\<exists>m \<in> set want. \<exists>who. e = PortTaken (pm_HostPort m) who \<and> pm_HostPort m > 0 \<and> \<not> pm_Auto m
          \<and> (\<not> obtainable t owner (pm_HostPort m) \<or> \<not> bindable (pm_HostPort m))"
    if "pick_demand inst ?own want [] 0 = Inl e"
  proof -
    from pick_demand_Inl [OF that] obtain m by' where m: "m \<in> set want" "pm_HostPort m > 0" "\<not> pm_Auto m"
      "map_of ?own (pm_HostPort m) = Some by'" "e = PortTaken (pm_HostPort m) (describeOwner inst by')"
      by blast
    then have "\<not> obtainable t owner (pm_HostPort m)"
      using avail_own [OF ok, of owner m] by (simp add: avail_def)
    with m show ?thesis by blast
  qed
  have t: "t' = t" using pickHostPorts_Inl [OF pick] by (rule conjunct1)
  from pickHostPorts_Inl [OF pick, THEN conjunct2] show ?thesis
  proof (elim disjE exE conjE)
    assume "pick_demand inst ?own want [] 0 = Inl e"
    from t demand [OF this] show ?thesis by (intro conjI disjI2)
  next
    fix check need res
    assume "pick_demand inst ?own want [] 0 = Inr (check, need)" "ask probe check need (map fst ?own) = Inr res"
      "pick_settle ?own (pr_Free res) want (pr_Picked res) = Inl e"
    from t settle [OF this] show ?thesis by (intro conjI disjI2)
  qed (use t in simp_all)
qed

end

section \<open>The probe keeps its contract\<close>

lemma localPortRange_ok: "1024 < fst (localPortRange rf) \<and> fst (localPortRange rf) < snd (localPortRange rf)"
  by (auto simp: localPortRange_def split: option.splits list.splits)

lemma probe_check_set:
  "set (probe_check bindable ps held) = set held \<union> {p \<in> set ps. bindable p}"
  by (induction ps arbitrary: held) (auto simp: probe_listen_def)

lemma probe_pick_inv:
  "set picked \<subseteq> set skip \<Longrightarrow> distinct picked \<Longrightarrow> length picked \<le> count \<Longrightarrow>
   distinct (probe_pick bindable r rnd count tries fuel skip held picked)
   \<and> length (probe_pick bindable r rnd count tries fuel skip held picked) \<le> count
   \<and> (\<forall>p \<in> set (probe_pick bindable r rnd count tries fuel skip held picked).
        p \<in> set picked \<or> bindable p \<and> p \<notin> set skip \<and> fst r \<le> p)"
proof (induction bindable r rnd count tries fuel skip held picked rule: probe_pick.induct)
  case (2 bindable lo hi rnd count tries fuel skip held picked)
  show ?case
  proof (cases "count \<le> length picked")
    case True
    with "2.prems" show ?thesis by simp
  next
    case False
    define p where "p = probe_draw lo hi (rnd tries)"
    have lo: "lo \<le> p" by (simp add: p_def probe_draw_def)
    note IH = "2.IH" [OF False p_def]
    show ?thesis
    proof (cases "p \<in> set skip")
      case True
      with IH(1) [OF True "2.prems"] False show ?thesis by (simp add: Let_def flip: p_def)
    next
      case skip: False
      show ?thesis
      proof (cases "probe_listen bindable held p")
        case True
        have "set (picked @ [p]) \<subseteq> set (p # skip)" "distinct (picked @ [p])" "length (picked @ [p]) \<le> count"
          using "2.prems" skip False by auto
        from IH(2) [OF skip True this] skip False True lo show ?thesis
          by (auto simp: Let_def probe_listen_def simp flip: p_def)
      next
        case nl: False
        have "set picked \<subseteq> set (p # skip)" using "2.prems" by auto
        from IH(3) [OF skip nl this "2.prems"(2,3)] skip False nl show ?thesis
          by (auto simp: Let_def simp flip: p_def)
      qed
    qed
  qed
qed simp

interpretation pp: port_probe "probePorts bindable rf rnd" bindable for bindable rf rnd
proof
  fix req res p
  assume r: "probePorts bindable rf rnd req = Inr res"
  define picked where "picked = probe_pick bindable (localPortRange rf) rnd (pr_Count req) 0 2000
                     (pr_Check req @ pr_Exclude req) (probe_check bindable (pr_Check req) []) []"
  from r have res: "pr_Picked res = picked" "pr_Free res = probe_check bindable (pr_Check req) []"
    "pr_Count req \<le> length picked"
    by (auto simp: probePorts_def Let_def simp flip: picked_def split: if_splits)
  have inv: "distinct picked \<and> length picked \<le> pr_Count req \<and>
      (\<forall>p \<in> set picked. bindable p \<and> p \<notin> set (pr_Check req @ pr_Exclude req) \<and> fst (localPortRange rf) \<le> p)"
    unfolding picked_def
    using probe_pick_inv [of "[]" "pr_Check req @ pr_Exclude req" "pr_Count req" bindable "localPortRange rf" rnd 0 2000]
    by simp
  show "length (pr_Picked res) = pr_Count req" "distinct (pr_Picked res)"
    using inv res by simp_all
  show "set (pr_Free res) = {p \<in> set (pr_Check req). bindable p}"
    using res by (simp add: probe_check_set)
  show "p \<in> set (pr_Picked res) \<Longrightarrow> 0 < p \<and> bindable p \<and> p \<notin> set (pr_Check req) \<and> p \<notin> set (pr_Exclude req)"
    using inv res localPortRange_ok [of rf] by force
qed

section \<open>Releasing and rebuilding reservations\<close>

lemma sanitize_rune_safe: "sanitize_rune r \<noteq> CHR ''#''"
  by (auto simp: sanitize_rune_def char_of_eq_iff take_bit_eq_mod)

lemma containerName_no_hash:
  assumes "CHR ''#'' \<notin> set inst"
  shows "CHR ''#'' \<notin> set (containerName inst n node)"
  using assms go_utoa_no_dash(2)
  by (auto simp: containerName_def stackContainerPrefix_def instancePrefix_def sanitizeName_def go_Itoa_def
      sanitize_rune_safe [symmetric])

lemma hash_prefix_eq:
  "CHR ''#'' \<notin> set a \<Longrightarrow> CHR ''#'' \<notin> set b \<Longrightarrow> prefix (a @ ''#'') (b @ ''#'' @ x) \<Longrightarrow> a = b"
proof -
  assume a: "CHR ''#'' \<notin> set a" and b: "CHR ''#'' \<notin> set b" and "prefix (a @ ''#'') (b @ ''#'' @ x)"
  then obtain z where "a @ ''#'' @ z = b @ ''#'' @ x" by (auto simp: prefix_def)
  then have "takeWhile (\<lambda>c. c \<noteq> CHR ''#'') (a @ ''#'' @ z) = takeWhile (\<lambda>c. c \<noteq> CHR ''#'') (b @ ''#'' @ x)"
    by simp
  moreover have "takeWhile (\<lambda>c. c \<noteq> CHR ''#'') (a @ ''#'' @ z) = a"
    using a by (subst takeWhile_append2) auto
  moreover have "takeWhile (\<lambda>c. c \<noteq> CHR ''#'') (b @ ''#'' @ x) = b"
    using b by (subst takeWhile_append2) auto
  ultimately show "a = b" by simp
qed

lemma reseed_pinned:
  assumes "\<forall>n \<in> set ns. \<exists>ps. map_of pins n = Some ps" "sorted ns"
  shows "table_ok t0 \<Longrightarrow>
    table_ok (fold (\<lambda>name t. fold (\<lambda>p. insert_or_replace p name) (the (map_of pins name)) t) ns t0)
    \<and> (map_of (fold (\<lambda>name t. fold (\<lambda>p. insert_or_replace p name) (the (map_of pins name)) t) ns t0) q =
       (case filter (\<lambda>n. q \<in> set (the (map_of pins n))) ns of [] \<Rightarrow> map_of t0 q
        | ms \<Rightarrow> Some (last ms)))"
  using assms
proof (induction ns arbitrary: t0)
  case (Cons n ns)
  let ?t1 = "fold (\<lambda>p. insert_or_replace p n) (the (map_of pins n)) t0"
  have t1: "table_ok ?t1" using Cons.prems(1) by (rule table_ok_fold_replace)
  show ?case
    using Cons.IH [OF t1] Cons.prems(2,3)
    by (auto simp: map_of_fold_replace split: list.splits)
qed simp

lemma reseed_kept:
  assumes "table_ok owners"
  shows "map_of (fold (\<lambda>(p, o') t. if P o' then t else insert_or_ignore p o' t) owners t0) q =
    (case map_of t0 q of Some x \<Rightarrow> Some x
     | None \<Rightarrow> (case map_of owners q of None \<Rightarrow> None | Some o' \<Rightarrow> if P o' then None else Some o'))"
  using assms
proof (induction owners arbitrary: t0)
  case Nil
  then show ?case by (simp split: option.split)
next
  case (Cons r owners)
  obtain p ow where r: "r = (p, ow)" by (cases r)
  have nin: "map_of owners p = None" and ok: "table_ok owners"
    using Cons.prems r by (auto simp: table_ok_def map_of_eq_None_iff)
  show ?case using nin r by (auto simp: Cons.IH [OF ok] split: option.splits)
qed

section \<open>Properties\<close>

text \<open>
  C15. A successful \<^const>\<open>pickHostPorts\<close>, with the probe of the code. Each wish gets a port the
  host can bind and no other container has reserved; a port a user fixed is never moved, and
  one DBCanvas chose earlier is kept whenever it can be had; different wishes get different
  ports; and afterwards the reservations of the owner are exactly the ports returned, those of
  everybody else being what they were.
\<close>

theorem pickHostPorts_correct:
  assumes "table_ok t"
    and "pickHostPorts (probePorts bindable rf rnd) inst rerr werr owner want t = (Inr out, t')"
  shows "list_all2 (\<lambda>m p. 0 < p \<and> bindable p \<and> obtainable t owner p \<and>
      (pm_HostPort m > 0 \<and> (\<not> pm_Auto m \<or> bindable (pm_HostPort m) \<and> obtainable t owner (pm_HostPort m))
         \<longrightarrow> p = pm_HostPort m)) want out
    \<and> (distinct (map pm_HostPort (filter (\<lambda>m. pm_HostPort m > 0) want)) \<longrightarrow> distinct out)
    \<and> table_ok t'
    \<and> (\<forall>q. map_of t' q = (if q \<in> set out then Some owner
                          else if map_of t q = Some owner then None else map_of t q))"
proof -
  have t': "t' = snd (SetHostPorts None owner out t)"
    using assms(2) by (rule pickHostPorts_Inr)
  then have "table_ok t'" using assms(1) by (simp add: table_ok_SetHostPorts)
  moreover have "\<forall>q. map_of t' q = (if q \<in> set out then Some owner
                          else if map_of t q = Some owner then None else map_of t q)"
    unfolding t' using assms(1) by (simp add: map_of_SetHostPorts)
  ultimately show ?thesis
    using pp.pick_each [OF assms] pp.pick_distinct [OF assms(2)] by blast
qed

text \<open>A host where everything but port 8443 can be bound, and a table with two containers.\<close>

definition ex_table :: port_table where
  "ex_table = [(40000, ''dbcanvas-1-pmm''), (40001, ''dbcanvas-2-ps'')]"

definition ex_want :: "PortMap list" where
  "ex_want = [\<lparr>pm_ContainerPort = 443, pm_HostPort = 40000, pm_Auto = True\<rparr>,
              \<lparr>pm_ContainerPort = 80, pm_HostPort = 40001, pm_Auto = True\<rparr>,
              \<lparr>pm_ContainerPort = 22, pm_HostPort = 2222, pm_Auto = False\<rparr>]"

definition ex_pick :: "(port_error + int list) \<times> port_table" where
  "ex_pick = pickHostPorts (probePorts (\<lambda>p. p \<noteq> 8443) None (\<lambda>k. of_nat (7232 + k)))
     ''dbcanvas'' None None ''dbcanvas-1-pmm'' ex_want ex_table"

lemma ex_pick_eval:
  "ex_pick = (Inr [40000, 40002, 2222],
     [(40001, ''dbcanvas-2-ps''), (40000, ''dbcanvas-1-pmm''), (40002, ''dbcanvas-1-pmm''), (2222, ''dbcanvas-1-pmm'')])"
  by code_simp

lemma ex_table_ok: "table_ok ex_table"
  by (simp add: ex_table_def table_ok_def)

lemma pickHostPorts_correct_witness:
  "distinct [40000, 40002, 2222 :: int] \<and> table_ok (snd ex_pick)
   \<and> obtainable ex_table ''dbcanvas-1-pmm'' 40002 \<and> \<not> obtainable ex_table ''dbcanvas-1-pmm'' 40001"
proof -
  have "distinct (map pm_HostPort (filter (\<lambda>m. pm_HostPort m > 0) ex_want))"
    by (simp add: ex_want_def)
  with pickHostPorts_correct [OF ex_table_ok, where bindable = "\<lambda>p. p \<noteq> 8443"
      and rf = None and rnd = "\<lambda>k. of_nat (7232 + k)" and inst = "''dbcanvas''" and rerr = None and werr = None
      and owner = "''dbcanvas-1-pmm''" and want = ex_want and out = "[40000, 40002, 2222]" and t' = "snd ex_pick",
      folded ex_pick_def]
  show ?thesis by (simp add: ex_pick_eval ex_want_def obtainable_def ex_table_def)
qed

text \<open>
  C16. Why \<^const>\<open>pickHostPorts\<close> can fail, and that a failure reserves nothing. Apart from the
  database and the probe, the only reason is a port a user fixed that another container has
  reserved or the host cannot bind. In particular the spares asked of the probe always
  suffice: the code's "no free host port found" is unreachable.
\<close>

theorem pickHostPorts_failure:
  assumes "table_ok t"
    and "pickHostPorts (probePorts bindable rf rnd) inst rerr werr owner want t = (Inl e, t')"
  shows "t' = t \<and> e \<noteq> NoFreePort \<and>
    ((\<exists>x. e = DbError x \<and> (rerr = Some x \<or> werr = Some x)) \<or> (\<exists>x. e = ProbeError x)
     \<or> (\<exists>m \<in> set want. \<exists>who. e = PortTaken (pm_HostPort m) who \<and> pm_HostPort m > 0 \<and> \<not> pm_Auto m
          \<and> (\<not> obtainable t owner (pm_HostPort m) \<or> \<not> bindable (pm_HostPort m))))"
  using pp.pick_failure [OF assms] by auto

definition ex_fail :: "(port_error + int list) \<times> port_table" where
  "ex_fail = pickHostPorts (probePorts (\<lambda>p. p \<noteq> 8443) None (\<lambda>k. of_nat (7232 + k)))
     ''dbcanvas'' None None ''dbcanvas-1-pmm''
     [\<lparr>pm_ContainerPort = 443, pm_HostPort = 40001, pm_Auto = False\<rparr>] ex_table"

lemma pickHostPorts_failure_witness:
  "ex_fail = (Inl (PortTaken 40001 ''node ps of stack 2''), ex_table)
   \<and> \<not> obtainable ex_table ''dbcanvas-1-pmm'' 40001"
proof -
  have "describeOwner ''dbcanvas'' ''dbcanvas-2-ps'' = ''node ps of stack 2''"
    by (simp add: describeOwner_def go_Cut_def go_TrimPrefix_def instancePrefix_def go_ParseInt_def
        go_ParseUint_def go_digit_def go_digit_val_def)
  then have f: "ex_fail = (Inl (PortTaken 40001 ''node ps of stack 2''), ex_table)"
    by (simp add: ex_fail_def ex_table_def pickHostPorts_def HostPortOwners_def delete_owners_def)
  from pickHostPorts_failure [OF ex_table_ok f [unfolded ex_fail_def]] f show ?thesis by simp
qed

text \<open>
  Deleting a node releases exactly its own ports: the reservations of its container and
  those recorded beside it under \<^verbatim>\<open>#\<close>, and nothing of any other node, not even one whose
  name begins like it.
\<close>

theorem releaseNodePorts_exact:
  assumes "table_ok t" and "CHR ''#'' \<notin> set inst"
  shows "(map_of t q = Some (containerName inst n node @ x) \<and> (x = [] \<or> go_HasPrefix x ''#'')
           \<longrightarrow> map_of (releaseNodePorts inst n node t) q = None)
    \<and> (containerName inst k other \<noteq> containerName inst n node
         \<and> map_of t q = Some (containerName inst k other @ x) \<and> (x = [] \<or> go_HasPrefix x ''#'')
           \<longrightarrow> map_of (releaseNodePorts inst n node t) q = map_of t q)"
proof -
  let ?c = "containerName inst n node" and ?d = "containerName inst k other"
  note nh = containerName_no_hash [OF assms(2)]
  have rel: "map_of (releaseNodePorts inst n node t) q =
      (case map_of t q of None \<Rightarrow> None | Some o' \<Rightarrow> if o' = ?c \<or> prefix (?c @ ''#'') o' then None else Some o')"
    using assms(1) by (simp add: releaseNodePorts_def Let_def map_of_delete_owners)
  have own: "?c @ x = ?c \<or> prefix (?c @ ''#'') (?c @ x)" if "x = [] \<or> go_HasPrefix x ''#''"
    using that by (auto simp: go_HasPrefix_def)
  have other: "\<not> (?d @ x = ?c \<or> prefix (?c @ ''#'') (?d @ x))"
    if ne: "?d \<noteq> ?c" and x: "x = [] \<or> go_HasPrefix x ''#''"
  proof (cases "x = []")
    case True
    then show ?thesis using ne nh [of k other] by (auto dest: set_mono_prefix)
  next
    case False
    with x obtain y where y: "x = ''#'' @ y" by (auto simp: go_HasPrefix_def prefix_def)
    have "CHR ''#'' \<in> set (?d @ x)" using y by simp
    then have "?d @ x \<noteq> ?c" using nh [of n node] by metis
    moreover have "\<not> prefix (?c @ ''#'') (?d @ x)"
      unfolding y using hash_prefix_eq [OF nh nh, of n node k other y] ne by metis
    ultimately show ?thesis by blast
  qed
  show ?thesis using rel own other by simp
qed

lemma releaseNodePorts_exact_witness:
  "map_of (releaseNodePorts ''dbcanvas'' 1 ''pmm'' [(1, ''dbcanvas-1-pmm''), (2, ''dbcanvas-1-pmm2''), (3, ''dbcanvas-1-pmm#everest'')]) 1 = None
   \<and> map_of (releaseNodePorts ''dbcanvas'' 1 ''pmm'' [(1, ''dbcanvas-1-pmm''), (2, ''dbcanvas-1-pmm2''), (3, ''dbcanvas-1-pmm#everest'')]) 2 = Some ''dbcanvas-1-pmm2''
   \<and> map_of (releaseNodePorts ''dbcanvas'' 1 ''pmm'' [(1, ''dbcanvas-1-pmm''), (2, ''dbcanvas-1-pmm2''), (3, ''dbcanvas-1-pmm#everest'')]) 3 = None"
proof -
  let ?t = "[(1, ''dbcanvas-1-pmm''), (2, ''dbcanvas-1-pmm2''), (3, ''dbcanvas-1-pmm#everest'')] :: port_table"
  have ok: "table_ok ?t" by (simp add: table_ok_def)
  have nm: "containerName ''dbcanvas'' 1 ''pmm'' = ''dbcanvas-1-pmm''" "containerName ''dbcanvas'' 1 ''pmm2'' = ''dbcanvas-1-pmm2''"
    by code_simp+
  have h: "CHR ''#'' \<notin> set ''dbcanvas''" by simp
  show ?thesis
    using releaseNodePorts_exact [OF ok h, of 1 1 "''pmm''" "[]" 1 "''pmm2''"]
      releaseNodePorts_exact [OF ok h, of 2 1 "''pmm''" "[]" 1 "''pmm2''"]
      releaseNodePorts_exact [OF ok h, of 3 1 "''pmm''" "''#everest''" 1 "''pmm2''"]
    by (simp add: nm go_HasPrefix_def)
qed

text \<open>
  What the table holds once it has been rebuilt at start-up: a port some container is
  pinned to belongs to such a container (the last by name, should there be several); of the
  old reservations only those recorded beside a container under \<^verbatim>\<open>#\<close>, of an owner Docker does
  not list and on a port no container is pinned to, survive; nothing else is left.
\<close>

theorem reseedHostPorts_table:
  assumes "table_ok owners"
  shows "map_of (reseedHostPorts pins owners) q =
    (case filter (\<lambda>n. q \<in> set (the (map_of pins n))) (sort (map fst pins)) of
       n # ns \<Rightarrow> Some (last (n # ns))
     | [] \<Rightarrow> (case map_of owners q of
               None \<Rightarrow> None
             | Some o' \<Rightarrow> if map_of pins o' = None \<and> go_Contains o' ''#'' then Some o' else None))"
proof -
  have "\<forall>n \<in> set (sort (map fst pins)). \<exists>ps. map_of pins n = Some ps"
    by (auto simp: weak_map_of_SomeI intro: weak_map_of_SomeI)
  from reseed_pinned [OF this sorted_sort, of "[]" q]
  show ?thesis
    unfolding reseedHostPorts_def Let_def reseed_kept [OF assms]
    by (auto simp: table_ok_def split: list.splits option.splits)
qed

lemma reseedHostPorts_table_witness:
  "map_of (reseedHostPorts [(''dbcanvas-1-pmm'', [40000, 40005])]
     [(40001, ''dbcanvas-1-old''), (40000, ''dbcanvas-9-x''), (40002, ''dbcanvas-3-k3d#everest'')]) 40002
     = Some ''dbcanvas-3-k3d#everest''
   \<and> map_of (reseedHostPorts [(''dbcanvas-1-pmm'', [40000, 40005])]
     [(40001, ''dbcanvas-1-old''), (40000, ''dbcanvas-9-x''), (40002, ''dbcanvas-3-k3d#everest'')]) 40000
     = Some ''dbcanvas-1-pmm''"
proof -
  have ok: "table_ok [(40001, ''dbcanvas-1-old''), (40000, ''dbcanvas-9-x''), (40002, ''dbcanvas-3-k3d#everest'')]"
    by (simp add: table_ok_def)
  have "go_Contains ''dbcanvas-3-k3d#everest'' ''#''" by code_simp
  then show ?thesis
    using reseedHostPorts_table [OF ok, of "[(''dbcanvas-1-pmm'', [40000, 40005])]" 40002]
      reseedHostPorts_table [OF ok, of "[(''dbcanvas-1-pmm'', [40000, 40005])]" 40000]
    by simp
qed

end
