(* ===== verification/Deploy_Run.thy ===== *)
theory Deploy_Run
  imports Go_Prelude "HOL-Library.Multiset"
begin

text \<open>
  A stack's provisioning run (\<^verbatim>\<open>src/app/deployrun.go\<close>): the registry of runs (the \<^verbatim>\<open>sync.Map\<close>
  \<^verbatim>\<open>deploys\<close>), each run's cancellable context and its WaitGroup, and the goroutines that use
  them: the deploy handler, the provisioners, the goroutine \<^verbatim>\<open>finishDeploy\<close> starts and the
  teardown that calls \<^verbatim>\<open>cancelDeploy\<close>. A run is a number, the state holds what the code shares
  between goroutines, and every access to it is one atomic step, so that the steps of the
  goroutines interleave as Go's scheduler may interleave them. A goroutine is the point it
  has reached in its function (\<open>pc\<close>).
\<close>

section \<open>State\<close>

datatype pc =
    Handler int nat            \<comment> \<open>between \<^verbatim>\<open>beginDeploy\<close> and \<^verbatim>\<open>abortDeploy\<close> or \<^verbatim>\<open>finishDeploy\<close>\<close>
  | Abort_delete int nat       \<comment> \<open>\<^verbatim>\<open>abortDeploy\<close>, after \<^verbatim>\<open>r.cancel()\<close>\<close>
  | Fin_wait int nat           \<comment> \<open>\<^verbatim>\<open>finishDeploy\<close>'s goroutine, at \<^verbatim>\<open>r.wg.Wait()\<close>\<close>
  | Fin_cancel int nat
  | Fin_delete int nat
  | Scope_load int             \<comment> \<open>\<^verbatim>\<open>deployScope\<close>, at \<^verbatim>\<open>a.deploys.Load\<close>\<close>
  | Scope_check nat            \<comment> \<open>at \<^verbatim>\<open>r.ctx.Err() != nil\<close>\<close>
  | Scope_add nat              \<comment> \<open>at \<^verbatim>\<open>r.wg.Add(1)\<close>\<close>
  | Prov nat                   \<comment> \<open>a provisioner that joined the run; it ends with \<^verbatim>\<open>wg.Done\<close>\<close>
  | Prov_unjoined              \<comment> \<open>one that got a background or an already cancelled context\<close>
  | Can_load int               \<comment> \<open>\<^verbatim>\<open>cancelDeploy\<close>, at \<^verbatim>\<open>a.deploys.Load\<close>\<close>
  | Can_cancel int nat
  | Can_wait int nat           \<comment> \<open>at the \<^verbatim>\<open>select\<close>\<close>
  | Can_delete int nat bool    \<comment> \<open>past it; whether the wait ended because the counter was zero\<close>

record drun_state =
  d_deploys :: "int \<rightharpoonup> nat"
  d_cancelled :: "nat \<Rightarrow> bool"
  d_wg :: "nat \<Rightarrow> nat"
  d_next :: nat
  d_threads :: "pc multiset"

definition drun_init :: drun_state where
  "drun_init = \<lparr>d_deploys = Map.empty, d_cancelled = (\<lambda>_. False), d_wg = (\<lambda>_. 0), d_next = 0, d_threads = {#}\<rparr>"

text \<open>A goroutine moves from one point to the next.\<close>

definition move :: "pc \<Rightarrow> pc multiset \<Rightarrow> drun_state \<Rightarrow> drun_state" where
  "move p q \<sigma> = \<sigma>\<lparr>d_threads := d_threads \<sigma> - {#p#} + q\<rparr>"

section \<open>The operations on the shared state\<close>

text \<open>\<^verbatim>\<open>beginDeploy\<close>: a new run, registered unless the stack has one; \<^verbatim>\<open>LoadOrStore\<close> is atomic.\<close>

definition beginDeploy :: "int \<Rightarrow> drun_state \<Rightarrow> nat option \<times> drun_state" where
  "beginDeploy s \<sigma> =
     (let r = d_next \<sigma>; \<sigma>' = \<sigma>\<lparr>d_next := r + 1\<rparr> in
      case d_deploys \<sigma> s of
        Some _ \<Rightarrow> (None, \<sigma>'\<lparr>d_cancelled := (d_cancelled \<sigma>)(r := True)\<rparr>)
      | None \<Rightarrow> (Some r, \<sigma>'\<lparr>d_deploys := (d_deploys \<sigma>)(s \<mapsto> r)\<rparr>))"

definition cancel_run :: "nat \<Rightarrow> drun_state \<Rightarrow> drun_state" where
  "cancel_run r \<sigma> = \<sigma>\<lparr>d_cancelled := (d_cancelled \<sigma>)(r := True)\<rparr>"

definition compareAndDelete :: "int \<Rightarrow> nat \<Rightarrow> drun_state \<Rightarrow> drun_state" where
  "compareAndDelete s r \<sigma> =
     (if d_deploys \<sigma> s = Some r then \<sigma>\<lparr>d_deploys := (d_deploys \<sigma>)(s := None)\<rparr> else \<sigma>)"

definition deployCancelled :: "int \<Rightarrow> drun_state \<Rightarrow> bool" where
  "deployCancelled s \<sigma> = (case d_deploys \<sigma> s of None \<Rightarrow> False | Some r \<Rightarrow> d_cancelled \<sigma> r)"

definition wg_add :: "nat \<Rightarrow> drun_state \<Rightarrow> drun_state" where
  "wg_add r \<sigma> = \<sigma>\<lparr>d_wg := (d_wg \<sigma>)(r := d_wg \<sigma> r + 1)\<rparr>"

definition wg_done :: "nat \<Rightarrow> drun_state \<Rightarrow> drun_state" where
  "wg_done r \<sigma> = \<sigma>\<lparr>d_wg := (d_wg \<sigma>)(r := d_wg \<sigma> r - 1)\<rparr>"

section \<open>The steps of the goroutines\<close>

text \<open>
  The four functions of the code, each broken at its accesses to shared state. Any caller may
  call \<^verbatim>\<open>deployScope\<close> at any time (a deploy handler, but also a cluster join), and any request may
  tear a stack down.
\<close>

inductive abortDeploy_step :: "drun_state \<Rightarrow> drun_state \<Rightarrow> bool" where
  abort_cancel: "Handler s r \<in># d_threads \<sigma> \<Longrightarrow>
     abortDeploy_step \<sigma> (move (Handler s r) {#Abort_delete s r#} (cancel_run r \<sigma>))"
| abort_delete: "Abort_delete s r \<in># d_threads \<sigma> \<Longrightarrow>
     abortDeploy_step \<sigma> (move (Abort_delete s r) {#} (compareAndDelete s r \<sigma>))"

inductive finishDeploy_step :: "drun_state \<Rightarrow> drun_state \<Rightarrow> bool" where
  finish_spawn: "Handler s r \<in># d_threads \<sigma> \<Longrightarrow>
     finishDeploy_step \<sigma> (move (Handler s r) {#Fin_wait s r#} \<sigma>)"
| finish_waited: "Fin_wait s r \<in># d_threads \<sigma> \<Longrightarrow> d_wg \<sigma> r = 0 \<Longrightarrow>
     finishDeploy_step \<sigma> (move (Fin_wait s r) {#Fin_cancel s r#} \<sigma>)"
| finish_cancel: "Fin_cancel s r \<in># d_threads \<sigma> \<Longrightarrow>
     finishDeploy_step \<sigma> (move (Fin_cancel s r) {#Fin_delete s r#} (cancel_run r \<sigma>))"
| finish_delete: "Fin_delete s r \<in># d_threads \<sigma> \<Longrightarrow>
     finishDeploy_step \<sigma> (move (Fin_delete s r) {#} (compareAndDelete s r \<sigma>))"

inductive deployScope_step :: "drun_state \<Rightarrow> drun_state \<Rightarrow> bool" where
  scope_call: "deployScope_step \<sigma> (\<sigma>\<lparr>d_threads := d_threads \<sigma> + {#Scope_load s#}\<rparr>)"
| scope_background: "Scope_load s \<in># d_threads \<sigma> \<Longrightarrow> d_deploys \<sigma> s = None \<Longrightarrow>
     deployScope_step \<sigma> (move (Scope_load s) {#Prov_unjoined#} \<sigma>)"
| scope_loaded: "Scope_load s \<in># d_threads \<sigma> \<Longrightarrow> d_deploys \<sigma> s = Some r \<Longrightarrow>
     deployScope_step \<sigma> (move (Scope_load s) {#Scope_check r#} \<sigma>)"
| scope_cancelled: "Scope_check r \<in># d_threads \<sigma> \<Longrightarrow> d_cancelled \<sigma> r \<Longrightarrow>
     deployScope_step \<sigma> (move (Scope_check r) {#Prov_unjoined#} \<sigma>)"
| scope_live: "Scope_check r \<in># d_threads \<sigma> \<Longrightarrow> \<not> d_cancelled \<sigma> r \<Longrightarrow>
     deployScope_step \<sigma> (move (Scope_check r) {#Scope_add r#} \<sigma>)"
| scope_added: "Scope_add r \<in># d_threads \<sigma> \<Longrightarrow>
     deployScope_step \<sigma> (move (Scope_add r) {#Prov r#} (wg_add r \<sigma>))"
| prov_done: "Prov r \<in># d_threads \<sigma> \<Longrightarrow>
     deployScope_step \<sigma> (move (Prov r) {#} (wg_done r \<sigma>))"
| unjoined_done: "Prov_unjoined \<in># d_threads \<sigma> \<Longrightarrow>
     deployScope_step \<sigma> (move Prov_unjoined {#} \<sigma>)"

inductive cancelDeploy_step :: "drun_state \<Rightarrow> drun_state \<Rightarrow> bool" where
  cancel_call: "cancelDeploy_step \<sigma> (\<sigma>\<lparr>d_threads := d_threads \<sigma> + {#Can_load s#}\<rparr>)"
| cancel_nothing: "Can_load s \<in># d_threads \<sigma> \<Longrightarrow> d_deploys \<sigma> s = None \<Longrightarrow>
     cancelDeploy_step \<sigma> (move (Can_load s) {#} \<sigma>)"
| cancel_loaded: "Can_load s \<in># d_threads \<sigma> \<Longrightarrow> d_deploys \<sigma> s = Some r \<Longrightarrow>
     cancelDeploy_step \<sigma> (move (Can_load s) {#Can_cancel s r#} \<sigma>)"
| cancel_cancel: "Can_cancel s r \<in># d_threads \<sigma> \<Longrightarrow>
     cancelDeploy_step \<sigma> (move (Can_cancel s r) {#Can_wait s r#} (cancel_run r \<sigma>))"
| cancel_waited: "Can_wait s r \<in># d_threads \<sigma> \<Longrightarrow> d_wg \<sigma> r = 0 \<Longrightarrow>
     cancelDeploy_step \<sigma> (move (Can_wait s r) {#Can_delete s r True#} \<sigma>)"
| cancel_timeout: "Can_wait s r \<in># d_threads \<sigma> \<Longrightarrow>
     cancelDeploy_step \<sigma> (move (Can_wait s r) {#Can_delete s r False#} \<sigma>)"
| cancel_delete: "Can_delete s r w \<in># d_threads \<sigma> \<Longrightarrow>
     cancelDeploy_step \<sigma> (move (Can_delete s r w) {#} (compareAndDelete s r \<sigma>))"

inductive dstep :: "drun_state \<Rightarrow> drun_state \<Rightarrow> bool" where
  begin_ok: "beginDeploy s \<sigma> = (Some r, \<sigma>') \<Longrightarrow> dstep \<sigma> (\<sigma>'\<lparr>d_threads := d_threads \<sigma>' + {#Handler s r#}\<rparr>)"
| begin_busy: "beginDeploy s \<sigma> = (None, \<sigma>') \<Longrightarrow> dstep \<sigma> \<sigma>'"
| abortDeploy: "abortDeploy_step \<sigma> \<sigma>' \<Longrightarrow> dstep \<sigma> \<sigma>'"
| finishDeploy: "finishDeploy_step \<sigma> \<sigma>' \<Longrightarrow> dstep \<sigma> \<sigma>'"
| deployScope: "deployScope_step \<sigma> \<sigma>' \<Longrightarrow> dstep \<sigma> \<sigma>'"
| cancelDeploy: "cancelDeploy_step \<sigma> \<sigma>' \<Longrightarrow> dstep \<sigma> \<sigma>'"

inductive dreach :: "drun_state \<Rightarrow> bool" where
  dreach_init: "dreach drun_init"
| dreach_step: "dreach \<sigma> \<Longrightarrow> dstep \<sigma> \<sigma>' \<Longrightarrow> dreach \<sigma>'"

inductive_cases abortDeploy_stepE: "abortDeploy_step \<sigma> \<sigma>'"
inductive_cases finishDeploy_stepE: "finishDeploy_step \<sigma> \<sigma>'"
inductive_cases deployScope_stepE: "deployScope_step \<sigma> \<sigma>'"
inductive_cases cancelDeploy_stepE: "cancelDeploy_step \<sigma> \<sigma>'"
inductive_cases dstepE: "dstep \<sigma> \<sigma>'"

lemmas dstep_elims = dstepE abortDeploy_stepE finishDeploy_stepE deployScope_stepE cancelDeploy_stepE

lemmas drun_defs = move_def cancel_run_def compareAndDelete_def wg_add_def wg_done_def

section \<open>Invariants\<close>

text \<open>
  \<open>run_of\<close> is the run a goroutine holds a pointer to. The invariant: the counter of a run is the
  number of provisioners that joined it, pointers only go to runs that exist, and a run is
  registered for at most one stack.
\<close>

fun run_of :: "pc \<Rightarrow> nat option" where
  "run_of (Handler s r) = Some r"
| "run_of (Abort_delete s r) = Some r"
| "run_of (Fin_wait s r) = Some r"
| "run_of (Fin_cancel s r) = Some r"
| "run_of (Fin_delete s r) = Some r"
| "run_of (Scope_load s) = None"
| "run_of (Scope_check r) = Some r"
| "run_of (Scope_add r) = Some r"
| "run_of (Prov r) = Some r"
| "run_of Prov_unjoined = None"
| "run_of (Can_load s) = None"
| "run_of (Can_cancel s r) = Some r"
| "run_of (Can_wait s r) = Some r"
| "run_of (Can_delete s r w) = Some r"

definition wg_exact :: "drun_state \<Rightarrow> bool" where
  "wg_exact \<sigma> \<longleftrightarrow> (\<forall>r. d_wg \<sigma> r = count (d_threads \<sigma>) (Prov r))"

definition runs_exist :: "drun_state \<Rightarrow> bool" where
  "runs_exist \<sigma> \<longleftrightarrow> (\<forall>p \<in># d_threads \<sigma>. \<forall>r. run_of p = Some r \<longrightarrow> r < d_next \<sigma>)
     \<and> (\<forall>s r. d_deploys \<sigma> s = Some r \<longrightarrow> r < d_next \<sigma>)"

definition registry_inj :: "drun_state \<Rightarrow> bool" where
  "registry_inj \<sigma> \<longleftrightarrow> (\<forall>s s' r. d_deploys \<sigma> s = Some r \<longrightarrow> d_deploys \<sigma> s' = Some r \<longrightarrow> s = s')"

lemma beginDeploy_cases:
  "beginDeploy s \<sigma> = (res, \<sigma>') \<longleftrightarrow>
     (if d_deploys \<sigma> s = None
      then res = Some (d_next \<sigma>) \<and> \<sigma>' = \<sigma>\<lparr>d_next := d_next \<sigma> + 1, d_deploys := (d_deploys \<sigma>)(s \<mapsto> d_next \<sigma>)\<rparr>
      else res = None \<and> \<sigma>' = \<sigma>\<lparr>d_next := d_next \<sigma> + 1, d_cancelled := (d_cancelled \<sigma>)(d_next \<sigma> := True)\<rparr>)"
  by (auto simp: beginDeploy_def Let_def split: option.splits)

lemma wg_exact_step: "dstep \<sigma> \<sigma>' \<Longrightarrow> wg_exact \<sigma> \<Longrightarrow> wg_exact \<sigma>'"
  by (elim dstep_elims) (auto simp: wg_exact_def drun_defs beginDeploy_cases split: if_splits)

lemma runs_exist_step: "dstep \<sigma> \<sigma>' \<Longrightarrow> runs_exist \<sigma> \<Longrightarrow> runs_exist \<sigma>'"
  by (elim dstep_elims)
    (auto simp: runs_exist_def drun_defs beginDeploy_cases less_Suc_eq split: if_splits dest!: in_diffD dest: bspec)

lemma registry_inj_step: "dstep \<sigma> \<sigma>' \<Longrightarrow> runs_exist \<sigma> \<Longrightarrow> registry_inj \<sigma> \<Longrightarrow> registry_inj \<sigma>'"
  by (elim dstep_elims)
    (auto simp: runs_exist_def registry_inj_def drun_defs beginDeploy_cases split: if_splits)

text \<open>A goroutine about to take a run out of the registry has cancelled it first.\<close>

fun deleting :: "pc \<Rightarrow> (int \<times> nat) option" where
  "deleting (Abort_delete s r) = Some (s, r)"
| "deleting (Fin_delete s r) = Some (s, r)"
| "deleting (Can_delete s r w) = Some (s, r)"
| "deleting (Can_wait s r) = Some (s, r)"
| "deleting _ = None"

definition deleters_cancelled :: "drun_state \<Rightarrow> bool" where
  "deleters_cancelled \<sigma> \<longleftrightarrow> (\<forall>p \<in># d_threads \<sigma>. \<forall>s r. deleting p = Some (s, r) \<longrightarrow> d_cancelled \<sigma> r)"

lemma deleters_cancelled_step: "dstep \<sigma> \<sigma>' \<Longrightarrow> deleters_cancelled \<sigma> \<Longrightarrow> deleters_cancelled \<sigma>'"
  by (elim dstep_elims)
    (fastforce simp: deleters_cancelled_def drun_defs beginDeploy_cases split: if_splits dest!: in_diffD)+

text \<open>
  The goroutine that carries a deploy out: the handler, then the goroutine of \<^verbatim>\<open>finishDeploy\<close>
  until it cancels the run. There is never more than one per run, and while the run is not
  cancelled the registry holds it.
\<close>

fun carrying :: "pc \<Rightarrow> (int \<times> nat) option" where
  "carrying (Handler s r) = Some (s, r)"
| "carrying (Fin_wait s r) = Some (s, r)"
| "carrying (Fin_cancel s r) = Some (s, r)"
| "carrying _ = None"

lemma carrying_run: "carrying p = Some (s, r) \<Longrightarrow> run_of p = Some r"
  by (cases p) auto

definition carried :: "pc \<Rightarrow> nat option" where
  "carried p = map_option snd (carrying p)"

lemma carrying_carried: "carrying p = Some (s, r) \<Longrightarrow> carried p = Some r"
  by (simp add: carried_def)

lemma carried_run: "carried p = Some r \<Longrightarrow> run_of p = Some r"
  using carrying_run by (auto simp: carried_def)

lemma carried_simps [simp]:
  "carried (Handler s r) = Some r" "carried (Fin_wait s r) = Some r" "carried (Fin_cancel s r) = Some r"
  "carried (Abort_delete s r) = None" "carried (Fin_delete s r) = None" "carried (Scope_load s) = None"
  "carried (Scope_check r) = None" "carried (Scope_add r) = None" "carried (Prov r) = None"
  "carried Prov_unjoined = None" "carried (Can_load s) = None" "carried (Can_cancel s r) = None"
  "carried (Can_wait s r) = None" "carried (Can_delete s r w) = None"
  by (simp_all add: carried_def)

definition single_carried :: "pc multiset \<Rightarrow> bool" where
  "single_carried T \<longleftrightarrow> (\<forall>r. size {#p \<in># T. carried p = Some r#} \<le> 1)"

definition carriers_single :: "drun_state \<Rightarrow> bool" where
  "carriers_single \<sigma> \<longleftrightarrow> single_carried (d_threads \<sigma>)"

definition carriers_registered :: "drun_state \<Rightarrow> bool" where
  "carriers_registered \<sigma> \<longleftrightarrow> (\<forall>p \<in># d_threads \<sigma>. \<forall>s r. carrying p = Some (s, r) \<longrightarrow> d_cancelled \<sigma> r \<or> d_deploys \<sigma> s = Some r)"

lemma single_carried_less: "single_carried T \<Longrightarrow> T' \<subseteq># T \<Longrightarrow> single_carried T'"
  unfolding single_carried_def by (meson multiset_filter_mono order_trans size_mset_mono)

lemma single_carried_minus: "single_carried T \<Longrightarrow> single_carried (T - U)"
  by (erule single_carried_less) (rule diff_subset_eq_self)

lemma single_carried_none: "carried q = None \<Longrightarrow> single_carried (add_mset q T) \<longleftrightarrow> single_carried T"
  by (simp add: single_carried_def)

lemma single_carried_swap:
  assumes "single_carried T" and "p \<in># T" and "carried q = carried p"
  shows "single_carried (add_mset q (T - {#p#}))"
proof -
  obtain U where "T = add_mset p U" using assms(2) multi_member_split by metis
  with assms(1,3) show ?thesis by (fastforce simp: single_carried_def split: if_splits)
qed

lemma single_carried_new:
  assumes "single_carried T" and "\<forall>p \<in># T. carried p \<noteq> carried q"
  shows "single_carried (add_mset q T)"
proof (cases "carried q")
  case (Some r)
  then have "{#p \<in># T. carried p = Some r#} = {#}" using assms(2) by simp
  then show ?thesis using assms(1) Some by (auto simp: single_carried_def)
qed (simp add: single_carried_none assms(1))

lemma new_run_uncarried: "runs_exist \<sigma> \<Longrightarrow> \<forall>p \<in># d_threads \<sigma>. carried p \<noteq> Some (d_next \<sigma>)"
  using carried_run unfolding runs_exist_def by fastforce

lemmas carriers_intros = single_carried_minus single_carried_swap single_carried_new

lemma carriers_single_step: "dstep \<sigma> \<sigma>' \<Longrightarrow> runs_exist \<sigma> \<Longrightarrow> carriers_single \<sigma> \<Longrightarrow> carriers_single \<sigma>'"
  unfolding carriers_single_def
  by (elim dstep_elims)
    (auto simp: drun_defs beginDeploy_cases single_carried_none new_run_uncarried split: if_splits intro: carriers_intros)

lemma carriers_registered_step:
  "dstep \<sigma> \<sigma>' \<Longrightarrow> deleters_cancelled \<sigma> \<Longrightarrow> carriers_registered \<sigma> \<Longrightarrow> carriers_registered \<sigma>'"
  by (elim dstep_elims)
    (fastforce simp: carriers_registered_def deleters_cancelled_def drun_defs beginDeploy_cases split: if_splits dest!: in_diffD)+

definition drun_inv :: "drun_state \<Rightarrow> bool" where
  "drun_inv \<sigma> \<longleftrightarrow> wg_exact \<sigma> \<and> runs_exist \<sigma> \<and> registry_inj \<sigma> \<and> deleters_cancelled \<sigma>
     \<and> carriers_single \<sigma> \<and> carriers_registered \<sigma>"

lemma dreach_inv: "dreach \<sigma> \<Longrightarrow> drun_inv \<sigma>"
proof (induction rule: dreach.induct)
  case dreach_init
  show ?case
    by (simp add: drun_inv_def wg_exact_def runs_exist_def registry_inj_def deleters_cancelled_def
        carriers_single_def single_carried_def carriers_registered_def drun_init_def)
next
  case (dreach_step \<sigma> \<sigma>')
  then show ?case
    by (simp add: drun_inv_def wg_exact_step runs_exist_step registry_inj_step deleters_cancelled_step
        carriers_single_step carriers_registered_step)
qed

text \<open>The deploys of a stack that are under way: carried out, and not cancelled.\<close>

definition live_deploys :: "drun_state \<Rightarrow> int \<Rightarrow> pc multiset" where
  "live_deploys \<sigma> s = filter_mset (\<lambda>p. \<exists>r. carrying p = Some (s, r) \<and> \<not> d_cancelled \<sigma> r) (d_threads \<sigma>)"

lemma live_deploys_single:
  assumes "dreach \<sigma>"
  shows "size (live_deploys \<sigma> s) \<le> 1"
proof -
  have inv: "carriers_registered \<sigma>" "single_carried (d_threads \<sigma>)"
    using dreach_inv [OF assms] by (auto simp: drun_inv_def carriers_single_def)
  have reg: "d_deploys \<sigma> s = Some r" if "p \<in># d_threads \<sigma>" "carrying p = Some (s, r)" "\<not> d_cancelled \<sigma> r" for p r
    using inv(1) that by (auto simp: carriers_registered_def)
  show ?thesis
  proof (cases "d_deploys \<sigma> s")
    case None
    then have "live_deploys \<sigma> s = {#}" using reg by (force simp: live_deploys_def)
    then show ?thesis by simp
  next
    case (Some r)
    have "live_deploys \<sigma> s \<subseteq># {#p \<in># d_threads \<sigma>. carried p = Some r#}"
      unfolding live_deploys_def
      by (rule filter_mset_mono_strong) (use reg Some in \<open>fastforce dest: carrying_carried\<close>)+
    moreover have "size {#p \<in># d_threads \<sigma>. carried p = Some r#} \<le> 1" using inv(2) by (simp add: single_carried_def)
    ultimately show ?thesis using size_mset_mono by fastforce
  qed
qed

text \<open>A wait that ends by the counter ends when no provisioner is in the run.\<close>

lemma waits_end_step:
  "dstep \<sigma> \<sigma>' \<Longrightarrow> wg_exact \<sigma> \<Longrightarrow>
   count (d_threads \<sigma>) (Fin_cancel s r) < count (d_threads \<sigma>') (Fin_cancel s r)
     \<or> count (d_threads \<sigma>) (Can_delete s r True) < count (d_threads \<sigma>') (Can_delete s r True) \<Longrightarrow>
   count (d_threads \<sigma>) (Prov r) = 0"
  by (elim dstep_elims) (auto simp: wg_exact_def drun_defs beginDeploy_cases split: if_splits)

section \<open>Provisioners of a cancelled run\<close>

text \<open>The provisioners that have joined a run or are past the check and about to.\<close>

definition engaged :: "drun_state \<Rightarrow> nat \<Rightarrow> nat" where
  "engaged \<sigma> r = count (d_threads \<sigma>) (Prov r) + count (d_threads \<sigma>) (Scope_add r)"

lemma cancelled_stays: "dstep \<sigma> \<sigma>' \<Longrightarrow> d_cancelled \<sigma> r \<Longrightarrow> d_cancelled \<sigma>' r"
  by (elim dstep_elims) (auto simp: drun_defs beginDeploy_cases split: if_splits)

lemma engaged_cancelled: "dstep \<sigma> \<sigma>' \<Longrightarrow> d_cancelled \<sigma> r \<Longrightarrow> engaged \<sigma>' r \<le> engaged \<sigma> r"
  by (elim dstep_elims)
    (auto simp: engaged_def drun_defs beginDeploy_cases split: if_splits simp flip: count_greater_zero_iff)

lemma registry_step:
  assumes "dstep \<sigma> \<sigma>'" and "d_deploys \<sigma>' s \<noteq> d_deploys \<sigma> s"
  shows "(d_deploys \<sigma> s = None \<and> d_deploys \<sigma>' s = Some (d_next \<sigma>))
    \<or> (\<exists>r p. d_deploys \<sigma> s = Some r \<and> d_deploys \<sigma>' s = None \<and> p \<in># d_threads \<sigma> \<and> deleting p = Some (s, r))"
  using assms
  by (elim dstep_elims) (auto simp: drun_defs beginDeploy_cases split: if_splits intro: exI)

section \<open>Properties\<close>

text \<open>
  The registry entry of a stack changes only in two ways: from no run to a run that did not
  exist before, or from a run to none, by a goroutine that holds that very run and after the
  run was cancelled.
\<close>

theorem deployRun_registry:
  assumes "dreach \<sigma>" and "dstep \<sigma> \<sigma>'" and "d_deploys \<sigma>' s \<noteq> d_deploys \<sigma> s"
  shows "(d_deploys \<sigma> s = None \<and> d_deploys \<sigma>' s = Some (d_next \<sigma>))
    \<or> (\<exists>r p. d_deploys \<sigma> s = Some r \<and> d_deploys \<sigma>' s = None \<and> d_cancelled \<sigma> r
        \<and> p \<in># d_threads \<sigma> \<and> deleting p = Some (s, r))"
proof -
  have "deleters_cancelled \<sigma>" using dreach_inv [OF assms(1)] by (simp add: drun_inv_def)
  then show ?thesis using registry_step [OF assms(2,3)] unfolding deleters_cancelled_def by blast
qed

text \<open>
  A cancelled run only winds down: once it is cancelled the number of provisioners that
  run in it or are about to join it never grows again, whatever the goroutines do; in
  particular once that number is zero no provisioner ever runs in it again.
\<close>

theorem cancelled_run_winds_down:
  assumes "dstep\<^sup>*\<^sup>* \<sigma> \<sigma>'" and "d_cancelled \<sigma> r"
  shows "d_cancelled \<sigma>' r \<and> engaged \<sigma>' r \<le> engaged \<sigma> r"
  using assms
proof (induction rule: rtranclp_induct)
  case (step \<sigma>' \<sigma>'')
  then show ?case using cancelled_stays engaged_cancelled by (meson order_trans)
qed simp

text \<open>
  C19. One deploy at a time per stack, however the goroutines interleave. In every reachable
  state the WaitGroup counter of a run is the number of provisioners that joined it and have
  not finished; at most one deploy of a stack is under way and not cancelled, and it is the
  run in the registry. And in every step from there: a deploy request that finds a run in
  flight never replaces it, and the leftover of an older run never removes a newer one (the
  entry of a stack goes from no run to a new one, or from a cancelled run to none by a
  goroutine that holds that run); a cancelled run stays cancelled and gains no provisioner
  beyond those already past the check of its context; and the wait of \<^verbatim>\<open>finishDeploy\<close>, like that
  of \<^verbatim>\<open>cancelDeploy\<close> when it does not time out, ends only when no provisioner is in the run.
\<close>

theorem deployRun_exclusive:
  assumes "dreach \<sigma>" and "dstep \<sigma> \<sigma>'"
  shows "d_wg \<sigma> r = count (d_threads \<sigma>) (Prov r)
    \<and> size (live_deploys \<sigma> s) \<le> 1
    \<and> (\<forall>p \<in># live_deploys \<sigma> s. \<exists>r. carrying p = Some (s, r) \<and> d_deploys \<sigma> s = Some r)
    \<and> (d_deploys \<sigma>' s = d_deploys \<sigma> s
       \<or> d_deploys \<sigma> s = None \<and> d_deploys \<sigma>' s = Some (d_next \<sigma>)
       \<or> (\<exists>r p. d_deploys \<sigma> s = Some r \<and> d_deploys \<sigma>' s = None \<and> d_cancelled \<sigma> r
           \<and> p \<in># d_threads \<sigma> \<and> deleting p = Some (s, r)))
    \<and> (d_cancelled \<sigma> r \<longrightarrow> d_cancelled \<sigma>' r \<and> engaged \<sigma>' r \<le> engaged \<sigma> r)
    \<and> (count (d_threads \<sigma>) (Fin_cancel s r) < count (d_threads \<sigma>') (Fin_cancel s r)
       \<or> count (d_threads \<sigma>) (Can_delete s r True) < count (d_threads \<sigma>') (Can_delete s r True)
       \<longrightarrow> count (d_threads \<sigma>) (Prov r) = 0)"
proof -
  have inv: "wg_exact \<sigma>" "carriers_registered \<sigma>"
    using dreach_inv [OF assms(1)] by (simp_all add: drun_inv_def)
  have "d_wg \<sigma> r = count (d_threads \<sigma>) (Prov r)" using inv(1) by (simp add: wg_exact_def)
  moreover have "\<forall>p \<in># live_deploys \<sigma> s. \<exists>r. carrying p = Some (s, r) \<and> d_deploys \<sigma> s = Some r"
    using inv(2) by (fastforce simp: live_deploys_def carriers_registered_def)
  ultimately show ?thesis
    using live_deploys_single [OF assms(1), of s] deployRun_registry [OF assms, of s]
      cancelled_stays [OF assms(2), of r] engaged_cancelled [OF assms(2), of r]
      waits_end_step [OF assms(2) inv(1), of s r] by blast
qed

section \<open>A run that the teardown misses\<close>

text \<open>
  The states of one execution: stack 1 is deployed, a provisioner passes the check in
  \<^verbatim>\<open>deployScope\<close>, the stack is torn down before it calls \<^verbatim>\<open>wg.Add\<close>, and the teardown finds the
  counter at zero.
\<close>

definition ex_state :: "(int \<rightharpoonup> nat) \<Rightarrow> bool \<Rightarrow> nat \<Rightarrow> pc multiset \<Rightarrow> drun_state" where
  "ex_state d c w T = \<lparr>d_deploys = d, d_cancelled = (\<lambda>_. False)(0 := c), d_wg = (\<lambda>_. 0)(0 := w), d_next = 1, d_threads = T\<rparr>"

lemma ex_begin_step: "dstep drun_init (ex_state [1 \<mapsto> 0] False 0 {#Handler 1 0#})"
proof -
  have "beginDeploy 1 drun_init = (Some 0, drun_init\<lparr>d_next := 1, d_deploys := [1 \<mapsto> 0]\<rparr>)"
    by (simp add: beginDeploy_def drun_init_def)
  from begin_ok [OF this] show ?thesis
    by (simp add: ex_state_def drun_init_def fun_upd_def)
qed

lemma ex_begin: "dreach (ex_state [1 \<mapsto> 0] False 0 {#Handler 1 0#})"
  by (rule dreach_step [OF dreach_init ex_begin_step])

lemma ex_scope: "dreach \<sigma> \<Longrightarrow> deployScope_step \<sigma> \<sigma>' \<Longrightarrow> dreach \<sigma>'"
  and ex_cancel: "dreach \<sigma> \<Longrightarrow> cancelDeploy_step \<sigma> \<sigma>' \<Longrightarrow> dreach \<sigma>'"
  by (blast intro: dreach_step dstep.intros)+

lemma ex_passed_check: "dreach (ex_state [1 \<mapsto> 0] False 0 {#Handler 1 0, Scope_add 0#})"
proof -
  have 1: "dreach (ex_state [1 \<mapsto> 0] False 0 {#Handler 1 0, Scope_load 1#})"
    using ex_scope [OF ex_begin scope_call [of _ 1]] by (simp add: ex_state_def add_mset_commute)
  have 2: "dreach (ex_state [1 \<mapsto> 0] False 0 {#Handler 1 0, Scope_check 0#})"
    using ex_scope [OF 1 scope_loaded [of 1 _ 0]] by (simp add: ex_state_def move_def add_mset_commute)
  show ?thesis
    using ex_scope [OF 2 scope_live [of 0]] by (simp add: ex_state_def move_def add_mset_commute)
qed

lemma ex_waited: "dreach (ex_state [1 \<mapsto> 0] True 0 {#Handler 1 0, Scope_add 0, Can_delete 1 0 True#})"
proof -
  have 1: "dreach (ex_state [1 \<mapsto> 0] False 0 {#Handler 1 0, Scope_add 0, Can_load 1#})"
    using ex_cancel [OF ex_passed_check cancel_call [of _ 1]] by (simp add: ex_state_def add_mset_commute)
  have 2: "dreach (ex_state [1 \<mapsto> 0] False 0 {#Handler 1 0, Scope_add 0, Can_cancel 1 0#})"
    using ex_cancel [OF 1 cancel_loaded [of 1 _ 0]] by (simp add: ex_state_def move_def add_mset_commute)
  have 3: "dreach (ex_state [1 \<mapsto> 0] True 0 {#Handler 1 0, Scope_add 0, Can_wait 1 0#})"
    using ex_cancel [OF 2 cancel_cancel [of 1 0]] by (simp add: ex_state_def move_def cancel_run_def add_mset_commute)
  show ?thesis
    using ex_cancel [OF 3 cancel_waited [of 1 0]] by (simp add: ex_state_def move_def add_mset_commute)
qed

lemma ex_late_join: "dreach (ex_state [1 \<mapsto> 0] True 1 {#Handler 1 0, Prov 0, Can_delete 1 0 True#})"
  using ex_scope [OF ex_waited scope_added [of 0]] by (simp add: ex_state_def move_def wg_add_def add_mset_commute)

text \<open>The teardown takes the cancelled run out of the registry while a provisioner still runs in it.\<close>

lemma deployRun_exclusive_witness:
  "let \<sigma> = ex_state [1 \<mapsto> 0] True 1 {#Handler 1 0, Prov 0, Can_delete 1 0 True#};
       \<sigma>' = ex_state Map.empty True 1 {#Handler 1 0, Prov 0#}
   in dstep \<sigma> \<sigma>' \<and> d_wg \<sigma> 0 = 1 \<and> d_wg \<sigma> 0 = count (d_threads \<sigma>) (Prov 0)
     \<and> size (live_deploys \<sigma> 1) \<le> 1 \<and> d_deploys \<sigma> 1 = Some 0 \<and> d_deploys \<sigma>' 1 = None
     \<and> (\<exists>r p. d_deploys \<sigma> 1 = Some r \<and> d_cancelled \<sigma> r \<and> p \<in># d_threads \<sigma> \<and> deleting p = Some (1, r))
     \<and> d_cancelled \<sigma>' 0 \<and> engaged \<sigma>' 0 \<le> engaged \<sigma> 0"
proof -
  let ?s = "ex_state [1 \<mapsto> 0] True 1 {#Handler 1 0, Prov 0, Can_delete 1 0 True#}"
  let ?t = "ex_state Map.empty True 1 {#Handler 1 0, Prov 0#}"
  have "dstep ?s (move (Can_delete 1 0 True) {#} (compareAndDelete 1 0 ?s))"
    by (intro dstep.cancelDeploy cancelDeploy_step.cancel_delete) (simp add: ex_state_def)
  moreover have "move (Can_delete 1 0 True) {#} (compareAndDelete 1 0 ?s) = ?t"
    by (simp add: ex_state_def move_def compareAndDelete_def fun_eq_iff)
  ultimately have st: "dstep ?s ?t" by simp
  have "d_deploys ?s 1 = Some 0" "d_deploys ?t 1 = None" "d_wg ?s 0 = 1" "d_cancelled ?s 0"
    by (simp_all add: ex_state_def)
  then show ?thesis
    using st deployRun_exclusive [OF ex_late_join st, of 0 1] unfolding Let_def by auto
qed

lemma deployRun_registry_witness:
  "d_deploys drun_init 1 = None
   \<and> d_deploys (ex_state [1 \<mapsto> 0] False 0 {#Handler 1 0#}) 1 = Some (d_next drun_init)"
  using deployRun_registry [OF dreach_init ex_begin_step, of 1]
  by (simp add: ex_state_def drun_init_def)

lemma cancelled_run_winds_down_witness:
  "engaged (ex_state [1 \<mapsto> 0] True 1 {#Handler 1 0, Prov 0, Can_delete 1 0 True#}) 0
     \<le> engaged (ex_state [1 \<mapsto> 0] True 0 {#Handler 1 0, Scope_add 0, Can_delete 1 0 True#}) 0"
proof -
  let ?s = "ex_state [1 \<mapsto> 0] True 0 {#Handler 1 0, Scope_add 0, Can_delete 1 0 True#}"
  have "dstep ?s (move (Scope_add 0) {#Prov 0#} (wg_add 0 ?s))"
    by (intro dstep.deployScope deployScope_step.scope_added) (simp add: ex_state_def)
  then have "dstep\<^sup>*\<^sup>* ?s (ex_state [1 \<mapsto> 0] True 1 {#Handler 1 0, Prov 0, Can_delete 1 0 True#})"
    by (intro r_into_rtranclp) (simp add: ex_state_def move_def wg_add_def add_mset_commute)
  from cancelled_run_winds_down [OF this, of 0] show ?thesis by (simp add: ex_state_def)
qed

text \<open>
  C22. The check in \<^verbatim>\<open>deployScope\<close> does not make the teardown's wait reliable: there is an
  execution in which \<^verbatim>\<open>cancelDeploy\<close> returns from its wait because the counter is zero (not by
  the timeout), and a provisioner then joins the cancelled run and is running while the caller
  goes on to remove the containers. The check of the context and the \<^verbatim>\<open>Add\<close> are two steps.
\<close>

theorem cancelDeploy_misses_late_join:
  "\<exists>\<sigma>. dreach \<sigma> \<and> Can_delete 1 0 True \<in># d_threads \<sigma> \<and> d_cancelled \<sigma> 0 \<and> Prov 0 \<in># d_threads \<sigma> \<and> d_wg \<sigma> 0 = 1"
proof -
  let ?\<sigma> = "ex_state [1 \<mapsto> 0] True 1 {#Handler 1 0, Prov 0, Can_delete 1 0 True#}"
  have "dreach ?\<sigma>" by (rule ex_late_join)
  then show ?thesis by (intro exI [of _ ?\<sigma>]) (simp add: ex_state_def)
qed

end
