(* ===== verification/Mysql_Wire.thy ===== *)
theory Mysql_Wire
  imports Go_Strings Frame_Reader "HOL-Library.Char_ord" "HOL-Library.List_Lexorder"
begin

text \<open>
  The wire format of MySQL's client/server protocol as the packet inspector reads it
  (\<^verbatim>\<open>src/app/pktmysql.go\<close>): the framing of packets out of a byte stream, length-encoded
  integers, OK and ERR packets, the names of commands and binlog events, the tests of
  plausibility, the catalogue of error codes, and the TLS records of a connection that went
  encrypted. The state machine that uses them is in the theory \<open>Mysql_Decode\<close>.
\<close>

section \<open>Framing\<close>

text \<open>\<^verbatim>\<open>int(h[0]) | int(h[1])<<8 | int(h[2])<<16\<close>, and 16- and 32-bit little-endian reads.\<close>

definition u24 :: "bytes \<Rightarrow> nat" where
  "u24 h = unat (h ! 0) OR push_bit 8 (unat (h ! 1)) OR push_bit 16 (unat (h ! 2))"

definition le_u16 :: "bytes \<Rightarrow> nat" where
  "le_u16 b = le_nat (take 2 b)"

text \<open>
  \<^verbatim>\<open>pktNextMySQL\<close>. The first pass walks the chunk headers: how many bytes and chunks the packet
  takes, and the sequence bytes of its first and last chunk.
\<close>

function mysql_walk :: "bytes \<Rightarrow> nat \<Rightarrow> nat \<Rightarrow> byte \<Rightarrow> (nat \<times> nat \<times> byte \<times> byte) option" where
  "mysql_walk buf consumed chunks first =
     (if length buf < consumed + 4 then None
      else let h = drop consumed buf; n = u24 h in
        if length buf < consumed + 4 + n then None
        else let first' = (if chunks = 0 then h ! 3 else first) in
          if n \<noteq> 0xffffff then Some (consumed + 4 + n, chunks + 1, first', h ! 3)
          else mysql_walk buf (consumed + 4 + n) (chunks + 1) first')"
  by pat_completeness auto
termination
  by (relation "measure (\<lambda>(buf, consumed, _). length buf - consumed)") auto

declare mysql_walk.simps [simp del]

text \<open>The second pass copies the payloads of the chunks together.\<close>

primrec mysql_gather :: "nat \<Rightarrow> bytes \<Rightarrow> nat \<Rightarrow> bytes" where
  "mysql_gather 0 buf off = []"
| "mysql_gather (Suc k) buf off =
     (let n = u24 (drop off buf) in slice (off + 4) (off + 4 + n) buf @ mysql_gather k buf (off + 4 + n))"

definition pktNextMySQL :: "bytes \<Rightarrow> ((bytes \<times> byte \<times> byte) \<times> nat) option" where
  "pktNextMySQL buf =
     (case mysql_walk buf 0 0 0 of
        None \<Rightarrow> None
      | Some (consumed, chunks, first, lst) \<Rightarrow>
          Some ((if chunks = 1 then slice 4 consumed buf else mysql_gather chunks buf 0, first, lst), consumed))"

section \<open>Integers and response packets\<close>

definition pktLenEncInt :: "bytes \<Rightarrow> (64 word \<times> nat) option" where
  "pktLenEncInt b =
     (if b = [] then None
      else let f = b ! 0 in
        if f < 0xfb then Some (of_nat (unat f), 1)
        else if f = 0xfc \<and> length b \<ge> 3 then Some (of_nat (le_u16 (drop 1 b)), 3)
        else if f = 0xfd \<and> length b \<ge> 4 then Some (of_nat (u24 (drop 1 b)), 4)
        else if f = 0xfe \<and> length b \<ge> 9 then Some (le_u64 (drop 1 b), 9)
        else None)"

text \<open>
  \<^verbatim>\<open>pktParseOK\<close>: affected rows, last insert id, warnings, info. The code slices \<^verbatim>\<open>msg[1:]\<close>, which
  its callers make safe by checking that the message is not empty.
\<close>

definition pktParseOK :: "bytes \<Rightarrow> int \<times> 64 word \<times> nat \<times> string" where
  "pktParseOK msg =
     (let b = drop 1 msg in
      case pktLenEncInt b of
        None \<Rightarrow> (0, 0, 0, [])
      | Some (n, w) \<Rightarrow>
          let b1 = drop w b;
              (insertID, b2) = (case pktLenEncInt b1 of
                 Some (i, w2) \<Rightarrow> (i, drop w2 b1)
               | None \<Rightarrow> (0, b1))
          in if length b2 \<ge> 4
             then (sint n, insertID, le_u16 (drop 2 b2), go_TrimSpace (str (drop 4 b2)))
             else (sint n, insertID, 0, []))"

definition pktParseERR :: "bytes \<Rightarrow> nat \<times> string \<times> string" where
  "pktParseERR msg =
     (if length msg < 3 then (0, [], [])
      else let code = le_u16 (drop 1 msg); b = drop 3 msg in
        if length b > 6 \<and> b ! 0 = 0x23
        then (code, str (slice 1 6 b), go_TrimSpace (str (drop 6 b)))
        else (code, [], go_TrimSpace (str b)))"

section \<open>Commands\<close>

definition comQuit :: byte where "comQuit = 0x01"
definition comInitDB :: byte where "comInitDB = 0x02"
definition comQuery :: byte where "comQuery = 0x03"
definition comFieldList :: byte where "comFieldList = 0x04"
definition comCreateDB :: byte where "comCreateDB = 0x05"
definition comDropDB :: byte where "comDropDB = 0x06"
definition comRefresh :: byte where "comRefresh = 0x07"
definition comStatistics :: byte where "comStatistics = 0x09"
definition comProcessInfo :: byte where "comProcessInfo = 0x0a"
definition comProcessKill :: byte where "comProcessKill = 0x0c"
definition comDebug :: byte where "comDebug = 0x0d"
definition comPing :: byte where "comPing = 0x0e"
definition comChangeUser :: byte where "comChangeUser = 0x11"
definition comBinlogDump :: byte where "comBinlogDump = 0x12"
definition comRegisterSlave :: byte where "comRegisterSlave = 0x15"
definition comStmtPrepare :: byte where "comStmtPrepare = 0x16"
definition comStmtExecute :: byte where "comStmtExecute = 0x17"
definition comStmtSendLong :: byte where "comStmtSendLong = 0x18"
definition comStmtClose :: byte where "comStmtClose = 0x19"
definition comStmtReset :: byte where "comStmtReset = 0x1a"
definition comSetOption :: byte where "comSetOption = 0x1b"
definition comStmtFetch :: byte where "comStmtFetch = 0x1c"
definition comResetConn :: byte where "comResetConn = 0x1f"
definition comBinlogDumpGTID :: byte where "comBinlogDumpGTID = 0x1e"

lemmas com_defs = comQuit_def comInitDB_def comQuery_def comFieldList_def comCreateDB_def comDropDB_def
  comRefresh_def comStatistics_def comProcessInfo_def comProcessKill_def comDebug_def comPing_def
  comChangeUser_def comBinlogDump_def comRegisterSlave_def comStmtPrepare_def comStmtExecute_def
  comStmtSendLong_def comStmtClose_def comStmtReset_def comSetOption_def comStmtFetch_def
  comResetConn_def comBinlogDumpGTID_def

text \<open>A \<^verbatim>\<open>switch\<close> over byte constants is a lookup; the default is what the code returns after it.\<close>

definition com_names :: "(byte \<times> string) list" where
  "com_names =
     [(comQuit, ''COM_QUIT''), (comInitDB, ''COM_INIT_DB''), (comQuery, ''COM_QUERY''),
      (comFieldList, ''COM_FIELD_LIST''), (comCreateDB, ''COM_CREATE_DB''), (comDropDB, ''COM_DROP_DB''),
      (comRefresh, ''COM_REFRESH''), (comStatistics, ''COM_STATISTICS''), (comProcessInfo, ''COM_PROCESS_INFO''),
      (comProcessKill, ''COM_PROCESS_KILL''), (comDebug, ''COM_DEBUG''), (comPing, ''COM_PING''),
      (comChangeUser, ''COM_CHANGE_USER''), (comBinlogDump, ''COM_BINLOG_DUMP''),
      (comBinlogDumpGTID, ''COM_BINLOG_DUMP_GTID''), (comRegisterSlave, ''COM_REGISTER_SLAVE''),
      (comStmtPrepare, ''COM_STMT_PREPARE''), (comStmtExecute, ''COM_STMT_EXECUTE''),
      (comStmtSendLong, ''COM_STMT_SEND_LONG_DATA''), (comStmtClose, ''COM_STMT_CLOSE''),
      (comStmtReset, ''COM_STMT_RESET''), (comSetOption, ''COM_SET_OPTION''), (comStmtFetch, ''COM_STMT_FETCH''),
      (comResetConn, ''COM_RESET_CONNECTION'')]"

definition pktComName :: "byte \<Rightarrow> string" where
  "pktComName b = (case map_of com_names b of Some s \<Rightarrow> s | None \<Rightarrow> ''COM_0x'' @ go_02x b)"

definition capSSL :: "32 word" where "capSSL = 0x00000800"
definition capCompress :: "32 word" where "capCompress = 0x00000020"
definition capZstd :: "32 word" where "capZstd = push_bit 26 1"

definition pktEOFMaxLen :: nat where "pktEOFMaxLen = 512"

definition binlog_names :: "(byte \<times> string) list" where
  "binlog_names =
     [(0x02, ''QUERY_EVENT''), (0x04, ''ROTATE_EVENT''), (0x0f, ''FORMAT_DESCRIPTION_EVENT''),
      (0x10, ''XID_EVENT''), (0x13, ''TABLE_MAP_EVENT''), (0x1e, ''WRITE_ROWS_EVENT''),
      (0x1f, ''UPDATE_ROWS_EVENT''), (0x20, ''DELETE_ROWS_EVENT''), (0x21, ''GTID_LOG_EVENT''),
      (0x22, ''ANONYMOUS_GTID_LOG_EVENT''), (0x23, ''PREVIOUS_GTIDS_LOG_EVENT''),
      (0x1b, ''HEARTBEAT_LOG_EVENT''), (0x27, ''TRANSACTION_PAYLOAD_EVENT'')]"

definition pktBinlogEventName :: "byte \<Rightarrow> string" where
  "pktBinlogEventName t = (case map_of binlog_names t of Some s \<Rightarrow> s | None \<Rightarrow> ''event type 0x'' @ go_02x t)"

definition pktBinlogEventInfo :: "bytes \<Rightarrow> string" where
  "pktBinlogEventInfo msg =
     (let b = drop 1 msg in
      if length b < 19 then ''Binlog event (truncated)''
      else ''Binlog event: '' @ pktBinlogEventName (b ! 4) @ '', '' @ go_utoa (le_u32 (drop 9 b))
        @ '' bytes, next pos '' @ go_utoa (le_u32 (drop 13 b)))"

section \<open>Plausibility\<close>

definition pktMostlyPrintable :: "bytes \<Rightarrow> bool" where
  "pktMostlyPrintable b =
     (if b = [] then True
      else let bad = length (filter (\<lambda>c. c < 0x09 \<or> (c > 0x0d \<and> c < 0x20) \<or> c = 0x7f) b)
        in bad * 10 < length b)"

definition pktPlausibleCommand :: "bytes \<Rightarrow> bool" where
  "pktPlausibleCommand msg =
     (if msg = [] then False
      else let c = msg ! 0 in
        if c \<in> {comQuery, comStmtPrepare, comInitDB, comCreateDB, comDropDB, comFieldList}
          then pktMostlyPrintable (drop 1 msg)
        else if c \<in> {comQuit, comPing, comStatistics, comProcessInfo, comResetConn, comDebug}
          then length msg = 1
        else if c \<in> {comStmtExecute, comStmtClose, comStmtReset, comStmtFetch, comStmtSendLong}
          then length msg \<ge> 5
        else c \<in> {comBinlogDump, comBinlogDumpGTID, comRegisterSlave, comChangeUser, comSetOption,
                  comRefresh, comProcessKill})"

definition pktPlausibleERR :: "bytes \<Rightarrow> bool" where
  "pktPlausibleERR msg =
     (if length msg < 10 \<or> msg ! 0 \<noteq> 0xff then False
      else let code = le_u16 (drop 1 msg) in
        if code < 1000 \<or> code > 4000 then False
        else if msg ! 3 \<noteq> 0x23 then False
        else pktMostlyPrintable (drop 9 msg))"

definition pktLooksBinlogEvent :: "bytes \<Rightarrow> bool" where
  "pktLooksBinlogEvent msg =
     (if length msg < 20 \<or> msg ! 0 \<noteq> 0x00 then False
      else let b = drop 1 msg in
        if le_u32 (drop 9 b) \<noteq> length b then False
        else \<not> go_HasPrefix (pktBinlogEventName (b ! 4)) ''event type'')"

section \<open>Text off the wire\<close>

definition printable_rune :: "nat \<Rightarrow> nat option" where
  "printable_rune r =
     (if r = 10 \<or> r = 13 \<or> r = 9 then Some 32
      else if r < 0x20 \<or> r = 0x7f then None
      else Some r)"

definition pktPrintable :: "string \<Rightarrow> string" where
  "pktPrintable s = go_TrimSpace (go_Map printable_rune s)"

definition clean_rune :: "nat \<Rightarrow> nat option" where
  "clean_rune r =
     (if r = 10 \<or> r = 13 \<or> r = 9 then Some 32
      else if r < 0x20 then None
      else Some r)"

text \<open>\<^verbatim>\<open>strings.ReplaceAll(s, "  ", " ")\<close>, and the loop that repeats it.\<close>

fun replace_double :: "string \<Rightarrow> string" where
  "replace_double (a # b # s) =
     (if a = CHR '' '' \<and> b = CHR '' '' then CHR '' '' # replace_double s else a # replace_double (b # s))"
| "replace_double s = s"

lemma length_replace_double: "length (replace_double s) \<le> length s"
  by (induction s rule: replace_double.induct) auto

lemma replace_double_shorter: "sublist ''  '' s \<Longrightarrow> length (replace_double s) < length s"
proof (induction s rule: replace_double.induct)
  case (1 a b s)
  show ?case
  proof (cases "a = CHR '' '' \<and> b = CHR '' ''")
    case True
    then show ?thesis using length_replace_double [of s] by simp
  next
    case False
    then have "sublist ''  '' (b # s)" using "1.prems" by (auto simp: sublist_Cons_right)
    with "1.IH"(2) [OF False] False show ?thesis by auto
  qed
qed (auto simp: sublist_Cons_right)

function pktSqueeze :: "string \<Rightarrow> string" where
  "pktSqueeze s = (if go_Contains s ''  '' then pktSqueeze (replace_double s) else s)"
  by pat_completeness auto
termination
  by (relation "measure length") (auto simp: go_Contains_def replace_double_shorter)

declare pktSqueeze.simps [simp del]

definition pktQueryTextMax :: nat where "pktQueryTextMax = 8192"

definition pktCleanSQL :: "string \<Rightarrow> string" where
  "pktCleanSQL s =
     (let t = go_TrimSpace (pktSqueeze (go_Map clean_rune s))
      in if length t > pktQueryTextMax then take pktQueryTextMax t @ '' '' @ ellipsis else t)"

definition pktEllipsis :: "string \<Rightarrow> nat \<Rightarrow> string" where
  "pktEllipsis s n = (if length s \<le> n then s else take n s @ ellipsis)"

definition pktBytes :: "nat \<Rightarrow> string" where
  "pktBytes n =
     (if n < 1024 then go_utoa n @ '' B''
      else if n < 1024 * 1024 then go_1f n 1024 @ '' KB''
      else go_1f n (1024 * 1024) @ '' MB'')"

text \<open>\<^verbatim>\<open>bytesIndexZero\<close>: the index of the first zero byte; the code returns -1 where this is \<open>None\<close>.\<close>

definition bytesIndexZero :: "bytes \<Rightarrow> nat option" where
  "bytesIndexZero b = (let i = length (takeWhile (\<lambda>c. c \<noteq> 0) b) in if i < length b then Some i else None)"

section \<open>Error codes\<close>

datatype pktErrClass = PktErrNet | PktErrAuth | PktErrLimit | PktErrLock | PktErrTopo | PktErrSQL

record pktErrInfo =
  ei_Sym :: string
  ei_Label :: string
  ei_Class :: pktErrClass

definition pktErrCatalog :: "(nat \<times> pktErrInfo) list" where
  "pktErrCatalog =
     [(1152, \<lparr>ei_Sym = ''ER_ABORTING_CONNECTION'', ei_Label = ''Aborted connection'', ei_Class = PktErrNet\<rparr>),
      (1153, \<lparr>ei_Sym = ''ER_NET_PACKET_TOO_LARGE'', ei_Label = ''Packet bigger than max_allowed_packet'', ei_Class = PktErrNet\<rparr>),
      (1154, \<lparr>ei_Sym = ''ER_NET_READ_ERROR_FROM_PIPE'', ei_Label = ''Read error from the connection pipe'', ei_Class = PktErrNet\<rparr>),
      (1155, \<lparr>ei_Sym = ''ER_NET_FCNTL_ERROR'', ei_Label = ''fcntl() error on the connection'', ei_Class = PktErrNet\<rparr>),
      (1156, \<lparr>ei_Sym = ''ER_NET_PACKETS_OUT_OF_ORDER'', ei_Label = ''Packets out of order'', ei_Class = PktErrNet\<rparr>),
      (1157, \<lparr>ei_Sym = ''ER_NET_UNCOMPRESS_ERROR'', ei_Label = ''Could not uncompress a packet'', ei_Class = PktErrNet\<rparr>),
      (1158, \<lparr>ei_Sym = ''ER_NET_READ_ERROR'', ei_Label = ''Error reading communication packets'', ei_Class = PktErrNet\<rparr>),
      (1159, \<lparr>ei_Sym = ''ER_NET_READ_INTERRUPTED'', ei_Label = ''Timeout reading communication packets'', ei_Class = PktErrNet\<rparr>),
      (1160, \<lparr>ei_Sym = ''ER_NET_ERROR_ON_WRITE'', ei_Label = ''Error writing communication packets'', ei_Class = PktErrNet\<rparr>),
      (1161, \<lparr>ei_Sym = ''ER_NET_WRITE_INTERRUPTED'', ei_Label = ''Timeout writing communication packets'', ei_Class = PktErrNet\<rparr>),
      (1184, \<lparr>ei_Sym = ''ER_NEW_ABORTING_CONNECTION'', ei_Label = ''Aborted connection'', ei_Class = PktErrNet\<rparr>),
      (1835, \<lparr>ei_Sym = ''ER_MALFORMED_PACKET'', ei_Label = ''Malformed communication packet'', ei_Class = PktErrNet\<rparr>),
      (1189, \<lparr>ei_Sym = ''ER_SOURCE_NET_READ'', ei_Label = ''Replication: net error reading from source'', ei_Class = PktErrTopo\<rparr>),
      (1190, \<lparr>ei_Sym = ''ER_SOURCE_NET_WRITE'', ei_Label = ''Replication: net error writing to source'', ei_Class = PktErrTopo\<rparr>),
      (1040, \<lparr>ei_Sym = ''ER_CON_COUNT_ERROR'', ei_Label = ''Too many connections'', ei_Class = PktErrLimit\<rparr>),
      (1042, \<lparr>ei_Sym = ''ER_BAD_HOST_ERROR'', ei_Label = ''Cannot resolve the client'' @ [CHR 0x27] @ ''s address'', ei_Class = PktErrNet\<rparr>),
      (1043, \<lparr>ei_Sym = ''ER_HANDSHAKE_ERROR'', ei_Label = ''Bad handshake'', ei_Class = PktErrAuth\<rparr>),
      (1045, \<lparr>ei_Sym = ''ER_ACCESS_DENIED_ERROR'', ei_Label = ''Authentication failed'', ei_Class = PktErrAuth\<rparr>),
      (1047, \<lparr>ei_Sym = ''ER_UNKNOWN_COM_ERROR'', ei_Label = ''Unknown command'', ei_Class = PktErrNet\<rparr>),
      (1053, \<lparr>ei_Sym = ''ER_SERVER_SHUTDOWN'', ei_Label = ''Server shutdown in progress'', ei_Class = PktErrNet\<rparr>),
      (1129, \<lparr>ei_Sym = ''ER_HOST_IS_BLOCKED'', ei_Label = ''Host blocked after too many connection errors'', ei_Class = PktErrAuth\<rparr>),
      (1130, \<lparr>ei_Sym = ''ER_HOST_NOT_PRIVILEGED'', ei_Label = ''Host not allowed to connect'', ei_Class = PktErrAuth\<rparr>),
      (1203, \<lparr>ei_Sym = ''ER_TOO_MANY_USER_CONNECTIONS'', ei_Label = ''User exceeded max_user_connections'', ei_Class = PktErrLimit\<rparr>),
      (1205, \<lparr>ei_Sym = ''ER_LOCK_WAIT_TIMEOUT'', ei_Label = ''Lock wait timeout'', ei_Class = PktErrLock\<rparr>),
      (1213, \<lparr>ei_Sym = ''ER_LOCK_DEADLOCK'', ei_Label = ''Deadlock detected'', ei_Class = PktErrLock\<rparr>),
      (1290, \<lparr>ei_Sym = ''ER_OPTION_PREVENTS_STATEMENT'', ei_Label = ''Read-only server rejected a write'', ei_Class = PktErrTopo\<rparr>),
      (1301, \<lparr>ei_Sym = ''ER_WARN_ALLOWED_PACKET_OVERFLOWED'', ei_Label = ''Result truncated at max_allowed_packet'', ei_Class = PktErrNet\<rparr>),
      (1317, \<lparr>ei_Sym = ''ER_QUERY_INTERRUPTED'', ei_Label = ''Query interrupted'', ei_Class = PktErrNet\<rparr>),
      (1836, \<lparr>ei_Sym = ''ER_READ_ONLY_MODE'', ei_Label = ''Read-only server rejected a write'', ei_Class = PktErrTopo\<rparr>)]"

text \<open>
  \<^verbatim>\<open>strings.ToUpper\<close> as far as a search for an ASCII word can see: the ASCII letters, and the
  two other characters whose upper case is an ASCII letter (dotless i and long s).
\<close>

definition upper_rune :: "nat \<Rightarrow> nat option" where
  "upper_rune r =
     Some (if 97 \<le> r \<and> r \<le> 122 then r - 32 else if r = 0x131 then 73 else if r = 0x17f then 83 else r)"

definition pktErrIssue :: "nat \<Rightarrow> string \<Rightarrow> string" where
  "pktErrIssue code txt =
     (if code = 1047 \<and> go_Contains (go_Map upper_rune txt) ''WSREP''
      then ''Node not ready for application use (1047 wsrep)''
      else case map_of pktErrCatalog code of
        Some e \<Rightarrow> ei_Label e @ '' ('' @ go_utoa code @ '' '' @ ei_Sym e @ '')''
      | None \<Rightarrow> ''MySQL error '' @ go_utoa code @ '': '' @ pktEllipsis txt 60)"

definition pktErrIsSevere :: "nat \<Rightarrow> bool" where
  "pktErrIsSevere code =
     (case map_of pktErrCatalog code of
        None \<Rightarrow> False
      | Some e \<Rightarrow> ei_Class e \<in> {PktErrNet, PktErrAuth, PktErrLimit, PktErrLock, PktErrTopo})"

text \<open>The labels without repetition, in byte order: the order of Go's map iteration is immaterial.\<close>

definition pktErrLabels :: "bool \<Rightarrow> string list" where
  "pktErrLabels severeOnly =
     sort (remdups (map (\<lambda>(c, e). ei_Label e)
       (filter (\<lambda>(c, e). \<not> severeOnly \<or> pktErrIsSevere c) pktErrCatalog)))"

section \<open>TLS records\<close>

definition pktLooksTLS :: "bytes \<Rightarrow> bool" where
  "pktLooksTLS b =
     (if length b < 3 then False
      else b ! 0 \<in> {0x14, 0x15, 0x16, 0x17} \<and> b ! 1 = 0x03 \<and> b ! 2 \<le> 0x04)"

definition tls_handshake_names :: "(byte \<times> string) list" where
  "tls_handshake_names =
     [(0x01, ''Handshake: ClientHello''), (0x02, ''Handshake: ServerHello''), (0x0b, ''Handshake: Certificate''),
      (0x0c, ''Handshake: ServerKeyExchange''), (0x0d, ''Handshake: CertificateRequest''),
      (0x0e, ''Handshake: ServerHelloDone''), (0x10, ''Handshake: ClientKeyExchange''), (0x14, ''Handshake: Finished'')]"

definition pktTLSRecordName :: "byte \<Rightarrow> bytes \<Rightarrow> bool \<Rightarrow> string" where
  "pktTLSRecordName typ body sealed =
     (if typ = 0x14 then ''ChangeCipherSpec''
      else if typ = 0x15 then ''Alert''
      else if typ = 0x16 then
        (if sealed then ''Handshake (encrypted)''
         else if body \<noteq> [] then
           (case map_of tls_handshake_names (body ! 0) of Some s \<Rightarrow> s | None \<Rightarrow> ''Handshake'')
         else ''Handshake'')
      else if typ = 0x17 then ''Application Data''
      else ''record type 0x'' @ go_02x typ)"

definition pktTLSVersionName :: "nat \<Rightarrow> string" where
  "pktTLSVersionName v =
     (if v = 0x0301 then ''TLS 1.0'' else if v = 0x0302 then ''TLS 1.1''
      else if v = 0x0303 then ''TLS 1.2'' else if v = 0x0304 then ''TLS 1.3''
      else ''TLS 0x'' @ go_04x v)"

function pktTLSInfo_parts :: "bytes \<Rightarrow> bool \<Rightarrow> string list" where
  "pktTLSInfo_parts b sealed =
     (if length b < 5 then []
      else let typ = b ! 0; ver = be_u16 (drop 1 b); n = be_u16 (drop 3 b) in
        if n \<le> 0 \<or> 5 + n > length b
        then [pktTLSRecordName typ [] sealed @ '' (partial, '' @ go_utoa (length b - 5) @ '' bytes)'']
        else (pktTLSVersionName ver @ '' '' @ pktTLSRecordName typ (slice 5 (5 + n) b) sealed
               @ '' ('' @ go_utoa n @ '' bytes)'') # pktTLSInfo_parts (drop (5 + n) b) sealed)"
  by pat_completeness auto
termination
  by (relation "measure (\<lambda>(b, _). length b)") auto

declare pktTLSInfo_parts.simps [simp del]

definition pktTLSInfo :: "bytes \<Rightarrow> bool \<Rightarrow> string" where
  "pktTLSInfo b sealed =
     (let parts = pktTLSInfo_parts b sealed in
      if parts = [] then ''TLS record (partial, '' @ go_utoa (length b) @ '' bytes)''
      else go_Join parts '' | '')"

function pktTLSSeals :: "bytes \<Rightarrow> bool" where
  "pktTLSSeals b =
     (if length b < 5 then False
      else let typ = b ! 0; n = be_u16 (drop 3 b) in
        if typ = 0x14 then True
        else if typ = 0x16 \<and> n > 0 \<and> 5 + n \<le> length b \<and> b ! 5 = 0x02 then True
        else if n \<le> 0 \<or> 5 + n > length b then False
        else pktTLSSeals (drop (5 + n) b))"
  by pat_completeness auto
termination
  by (relation "measure length") auto

declare pktTLSSeals.simps [simp del]

section \<open>Lemmas on the framing\<close>

lemma u24_le_nat: "3 \<le> length h \<Longrightarrow> u24 h = le_nat (take 3 h)"
proof -
  assume l: "3 \<le> length h"
  then obtain a b c t where h: "h = a # b # c # t"
    by (metis (no_types) Suc_le_length_iff numeral_3_eq_3)
  have a: "unat a < 2 ^ 8" and b: "unat b < 2 ^ 8" using byte_cases_lt [of a] byte_cases_lt [of b] by simp_all
  have "unat a OR push_bit 8 (unat b) = unat a + push_bit 8 (unat b)" by (rule or_push_bit_add [OF a])
  moreover have "unat a + push_bit 8 (unat b) < 2 ^ 16" using a b by (simp add: push_bit_eq_mult)
  ultimately have "u24 h = unat a + push_bit 8 (unat b) + push_bit 16 (unat c)"
    using or_push_bit_add [of "unat a + push_bit 8 (unat b)" 16 "unat c"]
    by (simp add: h u24_def flip: or.assoc)
  then show ?thesis by (simp add: h push_bit_eq_mult numeral_3_eq_3)
qed

lemma u24_append [simp]: "3 \<le> length h \<Longrightarrow> u24 (h @ t) = u24 h"
  by (simp add: u24_le_nat)

text \<open>What one packet is, chunk by chunk: the meaning of the two passes of \<^const>\<open>pktNextMySQL\<close>.\<close>

function mysql_read :: "bytes \<Rightarrow> ((bytes \<times> byte \<times> byte) \<times> nat) option" where
  "mysql_read buf =
     (if length buf < 4 then None
      else let n = u24 buf in
        if length buf < 4 + n then None
        else if n \<noteq> 0xffffff then Some ((slice 4 (4 + n) buf, buf ! 3, buf ! 3), 4 + n)
        else (case mysql_read (drop (4 + n) buf) of
                None \<Rightarrow> None
              | Some ((payload, f, l), k) \<Rightarrow> Some ((slice 4 (4 + n) buf @ payload, buf ! 3, l), 4 + n + k)))"
  by pat_completeness auto
termination
  by (relation "measure length") auto

declare mysql_read.simps [simp del]

text \<open>The three ways one chunk can go, in the walk and in the reading.\<close>

lemma mysql_short:
  "length buf < c + 4 \<or> length buf < c + 4 + u24 (drop c buf) \<Longrightarrow>
   mysql_walk buf c k f = None \<and> mysql_read (drop c buf) = None"
  by (auto simp: mysql_walk.simps [of buf c] mysql_read.simps [of "drop c buf"] Let_def)

lemma mysql_last:
  assumes "\<not> (length buf < c + 4 \<or> length buf < c + 4 + u24 (drop c buf))" "u24 (drop c buf) \<noteq> 0xffffff"
  shows "mysql_walk buf c k f = Some (c + 4 + u24 (drop c buf), k + 1, if k = 0 then drop c buf ! 3 else f, drop c buf ! 3)"
    "mysql_read (drop c buf) =
       Some ((slice 4 (4 + u24 (drop c buf)) (drop c buf), drop c buf ! 3, drop c buf ! 3), 4 + u24 (drop c buf))"
proof -
  have l: "\<not> length (drop c buf) < 4" "\<not> length (drop c buf) < 4 + u24 (drop c buf)" using assms(1) by auto
  show "mysql_read (drop c buf) =
       Some ((slice 4 (4 + u24 (drop c buf)) (drop c buf), drop c buf ! 3, drop c buf ! 3), 4 + u24 (drop c buf))"
    unfolding mysql_read.simps [of "drop c buf"] Let_def using l assms(2) by (simp only: if_False if_True simp_thms)
  show "mysql_walk buf c k f = Some (c + 4 + u24 (drop c buf), k + 1, if k = 0 then drop c buf ! 3 else f, drop c buf ! 3)"
    using assms by (simp add: mysql_walk.simps [of buf c] Let_def)
qed

lemma mysql_full:
  assumes "\<not> (length buf < c + 4 \<or> length buf < c + 4 + u24 (drop c buf))" "u24 (drop c buf) = 0xffffff"
  shows "mysql_walk buf c k f = mysql_walk buf (c + 4 + u24 (drop c buf)) (k + 1) (if k = 0 then drop c buf ! 3 else f)"
    "mysql_read (drop c buf) = (case mysql_read (drop (c + 4 + u24 (drop c buf)) buf) of
                None \<Rightarrow> None
              | Some ((p, f, l), m) \<Rightarrow>
                  Some ((slice 4 (4 + u24 (drop c buf)) (drop c buf) @ p, drop c buf ! 3, l), 4 + u24 (drop c buf) + m))"
proof -
  have l: "\<not> length (drop c buf) < 4" "\<not> length (drop c buf) < 4 + u24 (drop c buf)" using assms(1) by auto
  have d: "drop (4 + u24 (drop c buf)) (drop c buf) = drop (c + 4 + u24 (drop c buf)) buf" by (simp add: ac_simps)
  show "mysql_read (drop c buf) = (case mysql_read (drop (c + 4 + u24 (drop c buf)) buf) of
                None \<Rightarrow> None
              | Some ((p, f, l), m) \<Rightarrow>
                  Some ((slice 4 (4 + u24 (drop c buf)) (drop c buf) @ p, drop c buf ! 3, l), 4 + u24 (drop c buf) + m))"
    unfolding mysql_read.simps [of "drop c buf"] Let_def using l assms(2) by (simp only: if_False if_True simp_thms d [unfolded assms(2)])
  show "mysql_walk buf c k f = mysql_walk buf (c + 4 + u24 (drop c buf)) (k + 1) (if k = 0 then drop c buf ! 3 else f)"
    using assms by (simp add: mysql_walk.simps [of buf c] Let_def)
qed

lemma slice_drop: "slice (c + 4) (c + 4 + n) buf = slice 4 (4 + n) (drop c buf)"
  by (simp add: slice_def add.commute)

lemma mysql_walk_None: "mysql_walk buf c k f = None \<longleftrightarrow> mysql_read (drop c buf) = None"
proof (induction buf c k f rule: mysql_walk.induct)
  case (1 buf c k f)
  show ?case
  proof (cases "length buf < c + 4 \<or> length buf < c + 4 + u24 (drop c buf)")
    case True
    then show ?thesis using mysql_short by blast
  next
    case ok: False
    show ?thesis
    proof (cases "u24 (drop c buf) = 0xffffff")
      case True
      with "1.IH" [OF _ refl refl _ refl] ok show ?thesis
        by (simp add: mysql_full [OF ok True] split: option.split prod.split)
    qed (simp add: mysql_last [OF ok])
  qed
qed

lemma mysql_walk_Some:
  "mysql_walk buf c k f = Some (c', k', f', l) \<Longrightarrow>
   \<exists>g. mysql_read (drop c buf) = Some ((mysql_gather (k' - k) buf c, g, l), c' - c)
     \<and> c < c' \<and> c' \<le> length buf \<and> k < k' \<and> f' = (if k = 0 then g else f)"
proof (induction buf c k f arbitrary: c' k' f' l rule: mysql_walk.induct)
  case (1 buf c k f)
  have ok: "\<not> (length buf < c + 4 \<or> length buf < c + 4 + u24 (drop c buf))"
    using "1.prems" mysql_short [of buf c k f] by auto
  let ?n = "u24 (drop c buf)"
  show ?case
  proof (cases "?n = 0xffffff")
    case True
    from "1.IH" [OF _ refl refl _ refl _ "1.prems" [unfolded mysql_full(1) [OF ok True]]] ok True
    obtain g where g: "mysql_read (drop (c + 4 + ?n) buf) =
        Some ((mysql_gather (k' - (k + 1)) buf (c + 4 + ?n), g, l), c' - (c + 4 + ?n))"
      "c + 4 + ?n < c'" "c' \<le> length buf" "k + 1 < k'" "f' = (if k = 0 then drop c buf ! 3 else f)"
      by auto
    have "k' - k = Suc (k' - (k + 1))" using g(4) by simp
    with g show ?thesis by (simp add: mysql_full(2) [OF ok True] Let_def slice_drop [symmetric])
  next
    case False
    with "1.prems" ok show ?thesis by (auto simp: mysql_last [OF ok False] slice_drop [symmetric] Let_def)
  qed
qed

theorem pktNextMySQL_read: "pktNextMySQL buf = mysql_read buf"
proof (cases "mysql_walk buf 0 0 0")
  case None
  then show ?thesis using mysql_walk_None [of buf 0 0 0] by (simp add: pktNextMySQL_def)
next
  case (Some w)
  obtain c k f l where w: "w = (c, k, f, l)" by (cases w)
  from mysql_walk_Some [OF Some [unfolded w]] have r:
    "mysql_read buf = Some ((mysql_gather k buf 0, f, l), c)" "0 < k" by auto
  have "slice 4 c buf = mysql_gather k buf 0" if "k = 1"
  proof -
    have "\<not> (length buf < 0 + 4 \<or> length buf < 0 + 4 + u24 (drop 0 buf))" using mysql_short [of buf 0 0 0] Some by auto
    moreover have "u24 buf \<noteq> 0xffffff"
    proof
      assume full: "u24 buf = 0xffffff"
      with calculation have "mysql_walk buf 0 0 0 = mysql_walk buf (4 + u24 buf) 1 (buf ! 3)"
        using mysql_full(1) [of buf 0 0 0] by simp
      with mysql_walk_Some [of buf "4 + u24 buf" 1 "buf ! 3" c k f l] Some w that show False by simp
    qed
    ultimately have "c = 4 + u24 buf" using mysql_last(1) [of buf 0 0 0] Some w by simp
    then show ?thesis using that by (simp add: Let_def)
  qed
  then show ?thesis using Some w r by (simp add: pktNextMySQL_def)
qed

lemma mysql_read_laws:
  "mysql_read b = Some ((p, f, l), n) \<Longrightarrow> 0 < n \<and> n \<le> length b \<and> mysql_read (b @ c) = Some ((p, f, l), n)"
proof (induction b arbitrary: p f l n rule: mysql_read.induct)
  case (1 b)
  let ?n = "u24 b"
  have len: "\<not> length b < 4" "\<not> length b < 4 + ?n"
    using "1.prems" by (auto simp: mysql_read.simps [of b] Let_def split: if_splits)
  have app: "u24 (b @ c) = ?n" "(b @ c) ! 3 = b ! 3" "slice 4 (4 + ?n) (b @ c) = slice 4 (4 + ?n) b"
    "drop (4 + ?n) (b @ c) = drop (4 + ?n) b @ c" "\<not> length (b @ c) < 4" "\<not> length (b @ c) < 4 + ?n"
    using len by (simp_all add: nth_append)
  note e1 = mysql_read.simps [of b, unfolded Let_def if_not_P [OF len(1)] if_not_P [OF len(2)]]
  note e2 = mysql_read.simps [of "b @ c", unfolded Let_def app(1,2,3,4) if_not_P [OF app(5)] if_not_P [OF app(6)]]
  show ?case
  proof (cases "?n = 0xffffff")
    case True
    obtain p' f' k where r: "mysql_read (drop (4 + ?n) b) = Some ((p', f', l), k)"
      "p = slice 4 (4 + ?n) b @ p'" "f = b ! 3" "n = 4 + ?n + k"
      using "1.prems" unfolding e1 by (auto simp: True split: option.splits)
    from "1.IH" [OF len(1) refl len(2) _ r(1)] True have IH: "0 < k" "k \<le> length (drop (4 + ?n) b)"
      "mysql_read (drop (4 + ?n) b @ c) = Some ((p', f', l), k)" by auto
    have "mysql_read (b @ c) = Some ((p, f, l), n)"
      unfolding e2 IH(3) using True r by simp
    with IH len r(4) show ?thesis by simp
  next
    case False
    then show ?thesis using "1.prems" len unfolding e1 e2 by auto
  qed
qed

interpretation mysql: frame_reader pktNextMySQL
proof
  fix b :: bytes and m :: "bytes \<times> byte \<times> byte" and n
  obtain p f l where m: "m = (p, f, l)" by (cases m)
  assume "pktNextMySQL b = Some (m, n)"
  then have r: "mysql_read b = Some ((p, f, l), n)" by (simp add: pktNextMySQL_read m)
  show "0 < n" "n \<le> length b" using mysql_read_laws [OF r] by blast+
  fix c show "pktNextMySQL (b @ c) = Some (m, n)" using mysql_read_laws [OF r] by (simp add: pktNextMySQL_read m)
qed

text \<open>How a payload is sent: chunks of at most \<^verbatim>\<open>0xffffff\<close> bytes, the last one shorter, numbered upwards.\<close>

function mysql_frames :: "byte \<Rightarrow> bytes \<Rightarrow> bytes" where
  "mysql_frames seq p =
     (if length p < 0xffffff then le_enc 3 (length p) @ [seq] @ p
      else le_enc 3 0xffffff @ [seq] @ take 0xffffff p @ mysql_frames (seq + 1) (drop 0xffffff p))"
  by pat_completeness auto
termination
  by (relation "measure (\<lambda>(_, p). length p)") auto

declare mysql_frames.simps [simp del]

lemma le_enc_3: "le_enc 3 v = [of_nat (v mod 256), of_nat (v div 256 mod 256), of_nat (v div 256 div 256 mod 256)]"
  by (simp add: numeral_3_eq_3)

lemma u24_le_enc: "v < 2 ^ 24 \<Longrightarrow> u24 (le_enc 3 v @ t) = v"
  using le_nat_le_enc [of v 3] by (simp add: u24_le_nat)

lemma mysql_read_frames:
  "mysql_read (mysql_frames seq p @ rest) =
     Some ((p, seq, seq + of_nat (length p div 0xffffff)), length (mysql_frames seq p))"
proof (induction seq p rule: mysql_frames.induct)
  case (1 seq p)
  show ?case
  proof (cases "length p < 0xffffff")
    case True
    let ?b = "le_enc 3 (length p) @ [seq] @ p @ rest"
    have u: "u24 ?b = length p" using True by (intro u24_le_enc) simp
    have s: "slice 4 (4 + length p) ?b = p" by (simp add: slice_def)
    have n3: "?b ! 3 = seq" by (simp add: nth_append)
    have l: "\<not> length ?b < 4" "\<not> length ?b < 4 + length p" by simp_all
    have "mysql_read ?b = Some ((p, seq, seq), 4 + length p)"
      unfolding mysql_read.simps [of ?b] Let_def u if_not_P [OF l(1)] if_not_P [OF l(2)] s n3
      using True by simp
    then show ?thesis using True by (simp add: mysql_frames.simps [of seq p])
  next
    case False
    let ?q = "drop 0xffffff p"
    let ?b = "le_enc 3 0xffffff @ [seq] @ take 0xffffff p @ mysql_frames (seq + 1) ?q @ rest"
    have u: "u24 ?b = 0xffffff" by (rule u24_le_enc) simp
    have s: "slice 4 (4 + 0xffffff) ?b = take 0xffffff p" using False by (simp add: slice_def)
    have d: "drop (4 + 0xffffff) ?b = mysql_frames (seq + 1) ?q @ rest" using False by simp
    have n3: "?b ! 3 = seq" by (simp add: nth_append)
    have l: "\<not> length ?b < 4" "\<not> length ?b < 4 + 0xffffff" using False by simp_all
    have "length p div 0xffffff = Suc (length ?q div 0xffffff)"
      using False by (simp add: le_div_geq)
    then have w: "seq + 1 + of_nat (length ?q div 0xffffff) = seq + of_nat (length p div 0xffffff)"
      by (simp add: algebra_simps)
    have "mysql_read ?b = Some ((take 0xffffff p @ ?q, seq, seq + of_nat (length p div 0xffffff)),
        4 + 0xffffff + length (mysql_frames (seq + 1) ?q))"
      unfolding mysql_read.simps [of ?b] Let_def u if_not_P [OF l(1)] if_not_P [OF l(2)] s d n3
      using "1.IH" [OF False, unfolded w] by simp
    then show ?thesis using False by (simp add: mysql_frames.simps [of seq p])
  qed
qed

section \<open>Lemmas on integers and text\<close>

text \<open>The length-encoded integers a server writes.\<close>

definition lenenc :: "nat \<Rightarrow> bytes" where
  "lenenc v = (if v < 251 then [of_nat v] else if v < 2 ^ 16 then 0xfc # le_enc 2 v
     else if v < 2 ^ 24 then 0xfd # le_enc 3 v else 0xfe # le_enc 8 v)"

lemma pktLenEncInt_lenenc:
  assumes "v < 2 ^ 64"
  shows "pktLenEncInt (lenenc v @ t) = Some (of_nat v, length (lenenc v))"
proof -
  consider "v < 251" | "\<not> v < 251" "v < 2 ^ 16" | "\<not> v < 2 ^ 16" "v < 2 ^ 24" | "\<not> v < 2 ^ 24" by linarith
  then show ?thesis
  proof cases
    case 1
    then have "unat (of_nat v :: byte) = v" by (simp add: unat_of_nat take_bit_eq_mod)
    moreover have "(of_nat v :: byte) < 0xfb" using 1 calculation by (simp add: word_less_nat_alt)
    ultimately show ?thesis using 1 by (simp add: lenenc_def pktLenEncInt_def Let_def)
  next
    case 2
    then have "le_nat (le_enc 2 v) = v" by (intro le_nat_le_enc) simp
    with 2 show ?thesis by (simp add: lenenc_def pktLenEncInt_def Let_def le_u16_def)
  next
    case 3
    then have "u24 (le_enc 3 v) = v" using u24_le_enc [of v "[]"] by simp
    with 3 show ?thesis by (simp add: lenenc_def pktLenEncInt_def Let_def)
  next
    case 4
    have "le_nat (le_enc 8 v) = v" using assms by (intro le_nat_le_enc) simp
    with 4 show ?thesis by (simp add: lenenc_def pktLenEncInt_def Let_def le_u64_def)
  qed
qed

lemma pktLenEncInt_width: "pktLenEncInt b = Some (v, w) \<Longrightarrow> 0 < w \<and> w \<le> length b"
  by (cases b) (auto simp: pktLenEncInt_def Let_def split: if_splits)

lemma mysql_drain_frames:
  "drain pktNextMySQL (concat (map (\<lambda>(s, p). mysql_frames s p) ms)) =
     (map (\<lambda>(s, p). (p, s, s + of_nat (length p div 0xffffff))) ms, [])"
proof (induction ms)
  case Nil
  show ?case by (simp add: mysql.drain_None mysql.rd_Nil)
next
  case (Cons m ms)
  obtain s p where m: "m = (s, p)" by (cases m)
  show ?case
    using mysql.drain_Some [OF mysql_read_frames [of s p, folded pktNextMySQL_read]] Cons
    by (simp add: m)
qed

text \<open>Bytes of an encoded rune: control characters come only from control characters.\<close>

lemma go_EncodeRune_bytes:
  assumes "r < 1114112"
  shows "c \<in> set (go_EncodeRune r) \<Longrightarrow> (of_char c :: nat) = r \<or> 128 \<le> (of_char c :: nat)"
proof -
  have le: "128 + x mod 64 < 256" "192 + r div 64 < 256" if "r < 2048" for x :: nat
    using that by (simp_all add: less_mult_imp_div_less trans_less_add1)
  assume c: "c \<in> set (go_EncodeRune r)"
  have m: "x mod 64 < 64" for x :: nat by simp
  have d: "r div 262144 < 8" using assms by (simp add: less_mult_imp_div_less)
  have d2: "r div 4096 < 16" if "r < 65536" using that by (simp add: less_mult_imp_div_less)
  have d3: "r div 64 < 32" if "r < 2048" using that by (simp add: less_mult_imp_div_less)
  from c m [of r] m [of "r div 64"] m [of "r div 4096"] d d2 d3 show ?thesis
    by (auto simp: go_EncodeRune_def split: if_splits)
qed

lemma go_DecodeRune_bound: "\<forall>c \<in> set s. c < 256 \<Longrightarrow> fst (go_DecodeRune s) < 1114112"
proof -
  assume b: "\<forall>c \<in> set s. c < 256"
  show ?thesis
  proof (cases "length s > 3 \<and> 240 \<le> s ! 0 \<and> s ! 0 \<le> 244")
    case True
    have d: "s ! 1 - 128 < (if s ! 0 = 244 then 16 else 64)" if "s ! 1 \<le> go_rune2_hi (s ! 0)"
      using that True by (auto simp: go_rune2_hi_def split: if_splits)
    have "go_cont (s ! 2) \<Longrightarrow> s ! 2 - 128 < 64" "go_cont (s ! 3) \<Longrightarrow> s ! 3 - 128 < 64"
      by (auto simp: go_cont_def)
    with d True show ?thesis by (auto simp: go_DecodeRune_def Let_def split: if_splits)
  next
    case False
    have "go_cont (s ! 2) \<Longrightarrow> s ! 2 - 128 < 64" by (auto simp: go_cont_def)
    moreover have "s \<noteq> [] \<Longrightarrow> s ! 0 < 256" using b by simp
    moreover have "s ! 1 - 128 < 128" if "s ! 1 \<le> go_rune2_hi (s ! 0)"
      using that by (auto simp: go_rune2_hi_def split: if_splits)
    ultimately show ?thesis using False by (auto simp: go_DecodeRune_def Let_def)
  qed
qed

lemma go_rune_codes_bound: "\<forall>c \<in> set s. c < 256 \<Longrightarrow> r \<in> set (go_rune_codes s) \<Longrightarrow> r < 1114112"
proof (induction s rule: go_rune_codes.induct)
  case (1 s)
  show ?case
  proof (cases "s = []")
    case False
    have "\<forall>c \<in> set (drop (snd (go_DecodeRune s)) s). c < 256" using "1.prems"(1) by (meson in_set_dropD)
    with "1.IH" [OF False this] "1.prems" go_DecodeRune_bound [of s] False show ?thesis
      by (auto simp: go_rune_codes.simps [of s])
  qed (use "1.prems" in \<open>simp add: go_rune_codes.simps [of "[]"]\<close>)
qed

lemma go_Map_bytes:
  assumes "\<And>r r'. f r = Some r' \<Longrightarrow> r < 1114112 \<Longrightarrow> r' < 1114112 \<and> P r'" and "c \<in> set (go_Map f s)"
  shows "P (of_char c) \<or> 128 \<le> (of_char c :: nat)"
proof -
  from assms(2) obtain r r' where r: "r \<in> set (go_runes s)" "f r = Some r'" "c \<in> set (go_EncodeRune r')"
    by (auto simp: go_Map_def List.map_filter_def)
  have "r < 1114112" by (rule go_rune_codes_bound [of "map of_char s"]) (use r(1) in \<open>auto simp: go_runes_def\<close>)
  with assms(1) [OF r(2)] go_EncodeRune_bytes [of r' c] r(3) show ?thesis by auto
qed

lemma set_go_TrimSpace: "set (go_TrimSpace s) \<subseteq> set s"
proof -
  have l: "set (go_TrimLeft s) \<subseteq> set s" for s
  proof (induction s rule: go_TrimLeft.induct)
    case (1 s)
    then show ?case
      by (cases "s = []"; cases "find (\<lambda>p. prefix p s) go_spaces")
        (auto simp: go_TrimLeft.simps [of s] go_TrimLeft.simps [of "[]"] dest: in_set_dropD)
  qed
  have "set (go_TrimRight s) \<subseteq> set s" for s
  proof (induction s rule: go_TrimRight.induct)
    case (1 s)
    then show ?case
      by (cases "s = []"; cases "find (\<lambda>p. suffix p s) go_spaces")
        (auto simp: go_TrimRight.simps [of s] go_TrimRight.simps [of "[]"] dest: in_set_takeD)
  qed
  with l show ?thesis by (auto simp: go_TrimSpace_def)
qed

lemma set_replace_double: "set (replace_double s) \<subseteq> set s"
  by (induction s rule: replace_double.induct) auto

lemma set_pktSqueeze: "set (pktSqueeze s) \<subseteq> set s"
proof (induction s rule: pktSqueeze.induct)
  case (1 s)
  then show ?case using set_replace_double [of s] by (auto simp: pktSqueeze.simps [of s])
qed

section \<open>Properties\<close>

text \<open>
  C23. Reassembly of a MySQL stream is exact. Whatever payloads a side sends, of any length and
  with any first sequence numbers, and however TCP cuts the bytes into segments, draining the
  buffer after each segment yields exactly those payloads in order, each with the sequence
  byte of its first and of its last chunk, and nothing is left over.
\<close>

theorem mysql_stream_exact:
  assumes "concat segs = concat (map (\<lambda>(s, p). mysql_frames s p) ms)"
  shows "feed pktNextMySQL [] segs = (map (\<lambda>(s, p). (p, s, s + of_nat (length p div 0xffffff))) ms, [])"
  using assms by (simp add: mysql.feed_start mysql_drain_frames)

lemma mysql_stream_exact_witness:
  "feed pktNextMySQL [] [[1, 0], [0, 0, 0x0e, 2, 0, 0], [1, 0x03, 0x20]] = ([([0x0e], 0, 0), ([0x03, 0x20], 1, 1)], [])"
proof -
  have "concat [[1, 0], [0, 0, 0x0e, 2, 0, 0], [1, 0x03, 0x20]] =
      concat (map (\<lambda>(s, p). mysql_frames s p) [(0, [0x0e]), (1, [0x03, 0x20])])"
    by (simp add: mysql_frames.simps le_enc_3)
  from mysql_stream_exact [OF this] show ?thesis by simp
qed

text \<open>
  Reading an OK packet gives back what the server put into it: affected rows and insert
  id in MySQL's length-encoded form, the warning count and the trimmed message, whatever the
  status flags are.
\<close>

theorem pktParseOK_roundtrip:
  assumes "rows < 2 ^ 63" and "i < 2 ^ 64" and "warn < 2 ^ 16" and "length status = 2"
  shows "pktParseOK (0 # lenenc rows @ lenenc i @ status @ le_enc 2 warn @ bytes_of info)
    = (int rows, of_nat i, warn, go_TrimSpace info)"
proof -
  have a: "pktLenEncInt (lenenc rows @ t) = Some (of_nat rows, length (lenenc rows))" for t
    using assms(1) by (intro pktLenEncInt_lenenc) simp
  have b: "pktLenEncInt (lenenc i @ t) = Some (of_nat i, length (lenenc i))" for t
    using assms(2) by (rule pktLenEncInt_lenenc)
  have r: "sint (of_nat rows :: 64 word) = int rows"
    using assms(1) by (simp add: signed_of_nat signed_take_bit_int_eq_self)
  have w: "le_nat (le_enc 2 warn) = warn" using assms(3) by (intro le_nat_le_enc) simp
  show ?thesis
    using assms(4) w by (simp add: pktParseOK_def Let_def a b r le_u16_def)
qed

lemma pktParseOK_roundtrip_witness:
  "pktParseOK (0 # lenenc 300 @ lenenc 7 @ [2, 0] @ le_enc 2 1 @ bytes_of ''Records: 3'')
    = (300, 7, 1, ''Records: 3'')"
proof -
  have "go_TrimSpace ''Records: 3'' = ''Records: 3''" by code_simp
  with pktParseOK_roundtrip [of 300 7 1 "[2, 0]" "''Records: 3''"] show ?thesis by simp
qed

text \<open>
  Text off the wire is safe to show: what \<^const>\<open>pktPrintable\<close> returns contains no control
  byte and no DEL, whatever bytes went in; and a statement as \<^const>\<open>pktCleanSQL\<close> returns it is
  one line of bounded length with no control byte below 0x20.
\<close>

theorem wire_text_safe:
  "(c \<in> set (pktPrintable s) \<longrightarrow> 32 \<le> (of_char c :: nat) \<and> (of_char c :: nat) \<noteq> 127)
   \<and> (c \<in> set (pktCleanSQL s) \<longrightarrow> 32 \<le> (of_char c :: nat))
   \<and> length (pktCleanSQL s) \<le> pktQueryTextMax + 4"
proof (intro conjI impI)
  have p: "printable_rune r = Some r' \<Longrightarrow> r < 1114112 \<Longrightarrow> r' < 1114112 \<and> (32 \<le> r' \<and> r' \<noteq> 127)" for r r'
    by (auto simp: printable_rune_def split: if_splits)
  have q: "clean_rune r = Some r' \<Longrightarrow> r < 1114112 \<Longrightarrow> r' < 1114112 \<and> 32 \<le> r'" for r r'
    by (auto simp: clean_rune_def split: if_splits)
  {
    assume "c \<in> set (pktPrintable s)"
    then have "c \<in> set (go_Map printable_rune s)" using set_go_TrimSpace by (auto simp: pktPrintable_def)
    then have "(32 \<le> (of_char c :: nat) \<and> (of_char c :: nat) \<noteq> 127) \<or> 128 \<le> (of_char c :: nat)"
      by (rule go_Map_bytes [rotated]) (rule p)
    then show "32 \<le> (of_char c :: nat)" "(of_char c :: nat) \<noteq> 127" by auto
  }
  assume c: "c \<in> set (pktCleanSQL s)"
  show "32 \<le> (of_char c :: nat)"
  proof (cases "c \<in> set (go_Map clean_rune s)")
    case True
    then have "32 \<le> (of_char c :: nat) \<or> 128 \<le> (of_char c :: nat)"
      by (rule go_Map_bytes [rotated]) (rule q)
    then show ?thesis by auto
  next
    case False
    then have "c \<in> set ('' '' @ ellipsis)"
      using c set_go_TrimSpace [of "pktSqueeze (go_Map clean_rune s)"] set_pktSqueeze [of "go_Map clean_rune s"]
      by (auto simp: pktCleanSQL_def Let_def split: if_splits dest: in_set_takeD)
    then show ?thesis by (auto simp: ellipsis_def)
  qed
qed (simp add: pktCleanSQL_def Let_def ellipsis_def)

lemma wire_text_safe_witness:
  "pktPrintable [CHR 0x1b, CHR ''['', CHR ''x''] = ''[x'' \<and> length (pktCleanSQL ''SELECT  1'') \<le> pktQueryTextMax + 4"
proof -
  have "pktPrintable [CHR 0x1b, CHR ''['', CHR ''x''] = ''[x''" by code_simp
  with wire_text_safe [of "CHR ''x''" "''SELECT  1''"] show ?thesis by blast
qed

end
