(* ===== verification/Pkt_State.thy ===== *)
theory Pkt_State
  imports Go_Strings
begin

text \<open>
  The state the packet inspector keeps while it decodes a capture (\<^verbatim>\<open>src/app/pktdecode.go\<close>): one
  \<open>pktPacket\<close> per frame, one \<open>pktConn\<close> per TCP connection and one \<open>pktDirState\<close> per direction of
  it, with the state the PostgreSQL decoder (\<^verbatim>\<open>pktpg.go\<close>) and the cluster-bus decoder
  (\<^verbatim>\<open>pktvalkeybus.go\<close>), the Valkey decoder (\<^verbatim>\<open>pktvalkey.go\<close>), the MongoDB decoder (\<^verbatim>\<open>pktmongo.go\<close>) and the decoders of the cluster ports
  (\<^verbatim>\<open>pktpgha.go\<close>) hang off them. Times are nanoseconds, and the latency the code keeps in a
  \<^verbatim>\<open>float64\<close> of milliseconds is kept here in nanoseconds.

  The code allocates the protocols' own structures on first use (\<^verbatim>\<open>pgDir()\<close>, \<^verbatim>\<open>valkeyBusConn()\<close>) as
  zero values; here they are there from the start, with the same values. It passes \<^verbatim>\<open>dir\<close>, a pointer
  to \<^verbatim>\<open>c.c2s\<close> or \<^verbatim>\<open>c.s2c\<close>, beside \<^verbatim>\<open>c\<close>; here the connection holds both directions and \<open>dir_of\<close> and
  \<open>set_dir\<close> read and write the one a frame travels in. The fields of \<^verbatim>\<open>pktStream\<close> that change while a
  connection is decoded are fields of \<open>pktConn\<close>.
\<close>

record pktPacket =
  p_No :: nat
  p_TS :: int
  p_Stream :: int
  p_Dir :: string
  p_Src :: string
  p_Dst :: string
  p_Proto :: string
  p_Info :: string
  p_Issues :: "string list"
  p_FrameLen :: nat
  p_PayloadLen :: nat
  p_Flags :: string
  p_Seq :: "32 word"
  p_Ack :: "32 word"
  p_Window :: nat
  p_Query :: string
  p_Command :: string
  p_Status :: string
  p_Rows :: int
  p_ErrCode :: int
  p_ErrState :: string
  p_LagNS :: int
  p_off :: nat
  p_cap :: nat

record pktPGDir =
  pd_firstDone :: bool
  pd_aligned :: bool
  pd_desynced :: bool
  pd_cols :: nat
  pd_colNames :: "string list"
  pd_rows :: nat
  pd_resultBytes :: nat
  pd_heavyNoted :: bool
  pd_copyMode :: byte
  pd_copyBytes :: nat
  pd_lastParse :: string
  pd_parseRuns :: nat

record pktPGConn =
  pc_startupSeen :: bool
  pc_sslRequested :: bool
  pc_sslAnswered :: bool
  pc_gssRequested :: bool
  pc_gssAnswered :: bool
  pc_authMethod :: string
  pc_authDone :: bool
  pc_replication :: string
  pc_cancel :: bool
  pc_queries :: nat
  pc_cycleOpen :: bool
  pc_cycleTS :: int
  pc_cycleWhat :: string
  pc_txStatus :: byte
  pc_txSince :: int
  pc_idleNoted :: bool
  pc_sentLSN :: "64 word"
  pc_flushLSN :: "64 word"
  pc_applyLSN :: "64 word"
  pc_lagNoted :: bool
  pc_lastStandbyReply :: int
  pc_basebackup :: bool
  pc_baseBytes :: nat
  pc_baseNoted :: bool
  pc_adopted :: bool
  pc_relations :: "nat \<rightharpoonup> string"
  pc_statements :: "string \<rightharpoonup> string"
  pc_sawTerminate :: bool

record pktValkeyBusDir =
  bd_aligned :: bool
  bd_desynced :: bool

record pktValkeyBusConn =
  bc_sender :: string
  bc_msgs :: nat
  bc_failNoted :: bool
  bc_voteNoted :: bool
  bc_epochNoted :: bool
  bc_lastEpoch :: nat

record pktValkeyDir =
  vd_aligned :: bool
  vd_desynced :: bool
  vd_rdbRemaining :: nat
  vd_rdbTotal :: nat
  vd_rdbDiskless :: bool
  vd_rdbBytes :: nat
  vd_expectRDB :: bool
  vd_eofMark :: string
  vd_keepalives :: nat
  vd_kaNoted :: bool

record valkeyPending =
  pn_name :: string
  pn_arg :: string
  pn_ts :: int

record pktValkeyConn =
  vc_kind :: string
  vc_sawResp :: bool
  vc_pending :: "valkeyPending list"
  vc_commands :: nat
  vc_authUser :: string
  vc_respVer :: int
  vc_replID :: string
  vc_primaryOff :: int
  vc_replicaOff :: int
  vc_lagNoted :: bool
  vc_fullResync :: bool
  vc_partialSync :: bool
  vc_subChannels :: nat
  vc_maxPipeline :: nat
  vc_pipelineNote :: bool
  vc_dangerNoted :: "string \<Rightarrow> bool"

record pktPGHA =
  ha_lastPath :: string
  ha_http2 :: bool

record pktMongoDir =
  md_aligned :: bool
  md_desynced :: bool
  md_waiting :: nat

record mongoPending =
  mp_command :: string
  mp_ns :: string
  mp_ts :: int

record pktMongoConn =
  mc_pending :: "int \<rightharpoonup> mongoPending"
  mc_kind :: string
  mc_sawMsg :: bool
  mc_appName :: string
  mc_driver :: string
  mc_cursors :: "int \<rightharpoonup> string"
  mc_inTxn :: bool
  mc_txnNumber :: int
  mc_txnNoted :: bool
  mc_authUser :: string
  mc_authMech :: string
  mc_compressor :: string
  mc_opsSeen :: nat
  mc_heartbeats :: nat

record pktDirState =
  ds_buf :: bytes
  ds_nextSeq :: "32 word"
  ds_haveSeq :: bool
  ds_lastAck :: "32 word"
  ds_lastWin :: nat
  ds_dupAcks :: nat
  ds_greeted :: bool
  ds_synced :: bool
  ds_inResults :: bool
  ds_resultCol :: nat
  ds_resultRow :: nat
  ds_resultLen :: nat
  ds_pendingDefs :: nat
  ds_expectDefsEOF :: bool
  ds_binlog :: bool
  ds_appBytes :: nat
  ds_xferStarted :: bool
  ds_xferFormat :: string
  ds_pg :: pktPGDir
  ds_valkeybus :: pktValkeyBusDir
  ds_valkey :: pktValkeyDir
  ds_mongo :: pktMongoDir

record pktConn =
  c_idx :: nat
  c_client :: string
  c_server :: string
  c_c2s :: pktDirState
  c_s2c :: pktDirState
  c_synced :: bool
  c_tls :: bool
  c_sslRequested :: bool
  c_tlsSealed :: bool
  c_compressed :: bool
  c_authPhase :: bool
  c_role :: string
  c_xferAnnounced :: bool
  c_xferBig :: bool
  c_xferFormat :: string
  c_haveSeqByte :: bool
  c_nextSeqByte :: byte
  c_user :: string
  c_database :: string
  c_version :: string
  c_pendingCmd :: string
  c_pendingQuery :: string
  c_pendingTS :: int
  c_pendingOpen :: bool
  c_synTS :: int
  c_haveSyn :: bool
  c_synNo :: nat
  c_synAcked :: bool
  c_sawData :: bool
  c_Packets :: nat
  c_Bytes :: nat
  c_StartTS :: int
  c_EndTS :: int
  c_Queries :: nat
  c_Errors :: nat
  c_Reset :: bool
  c_pg :: pktPGConn
  c_valkeybus :: pktValkeyBusConn
  c_pgha :: pktPGHA
  c_valkey :: pktValkeyConn
  c_mongo :: pktMongoConn
  c_Role :: string
  c_RoleLabel :: string

definition dir_of :: "bool \<Rightarrow> pktConn \<Rightarrow> pktDirState" where
  "dir_of fromClient c = (if fromClient then c_c2s c else c_s2c c)"

definition set_dir :: "bool \<Rightarrow> pktDirState \<Rightarrow> pktConn \<Rightarrow> pktConn" where
  "set_dir fromClient d c = (if fromClient then c\<lparr>c_c2s := d\<rparr> else c\<lparr>c_s2c := d\<rparr>)"

lemma dir_of_set_dir [simp]: "dir_of f (set_dir f d c) = d"
  by (simp add: dir_of_def set_dir_def)

text \<open>\<^verbatim>\<open>time.Time{}\<close>, the first instant of the year 1, which a frame without a time carries.\<close>

definition zero_time :: int where
  "zero_time = - 62135596800 * 10 ^ 9"

definition new_packet :: pktPacket where
  "new_packet = \<lparr>p_No = 0, p_TS = 0, p_Stream = 0, p_Dir = [], p_Src = [], p_Dst = [], p_Proto = [], p_Info = [],
     p_Issues = [], p_FrameLen = 0, p_PayloadLen = 0, p_Flags = [], p_Seq = 0, p_Ack = 0, p_Window = 0, p_Query = [],
     p_Command = [], p_Status = [], p_Rows = 0, p_ErrCode = 0, p_ErrState = [], p_LagNS = 0, p_off = 0, p_cap = 0\<rparr>"

definition new_pgdir :: pktPGDir where
  "new_pgdir = \<lparr>pd_firstDone = False, pd_aligned = False, pd_desynced = False, pd_cols = 0, pd_colNames = [], pd_rows = 0,
     pd_resultBytes = 0, pd_heavyNoted = False, pd_copyMode = 0, pd_copyBytes = 0, pd_lastParse = [], pd_parseRuns = 0\<rparr>"

definition new_pgconn :: pktPGConn where
  "new_pgconn = \<lparr>pc_startupSeen = False, pc_sslRequested = False, pc_sslAnswered = False, pc_gssRequested = False,
     pc_gssAnswered = False, pc_authMethod = [], pc_authDone = False, pc_replication = [], pc_cancel = False, pc_queries = 0,
     pc_cycleOpen = False, pc_cycleTS = zero_time, pc_cycleWhat = [], pc_txStatus = 0, pc_txSince = zero_time, pc_idleNoted = False,
     pc_sentLSN = 0, pc_flushLSN = 0, pc_applyLSN = 0, pc_lagNoted = False, pc_lastStandbyReply = zero_time, pc_basebackup = False,
     pc_baseBytes = 0, pc_baseNoted = False, pc_adopted = False, pc_relations = Map.empty, pc_statements = Map.empty,
     pc_sawTerminate = False\<rparr>"

definition new_busconn :: pktValkeyBusConn where
  "new_busconn = \<lparr>bc_sender = [], bc_msgs = 0, bc_failNoted = False, bc_voteNoted = False, bc_epochNoted = False, bc_lastEpoch = 0\<rparr>"

definition new_valkeydir :: pktValkeyDir where
  "new_valkeydir = \<lparr>vd_aligned = False, vd_desynced = False, vd_rdbRemaining = 0, vd_rdbTotal = 0, vd_rdbDiskless = False,
     vd_rdbBytes = 0, vd_expectRDB = False, vd_eofMark = [], vd_keepalives = 0, vd_kaNoted = False\<rparr>"

definition new_valkeyconn :: pktValkeyConn where
  "new_valkeyconn = \<lparr>vc_kind = [], vc_sawResp = False, vc_pending = [], vc_commands = 0, vc_authUser = [], vc_respVer = 2,
     vc_replID = [], vc_primaryOff = 0, vc_replicaOff = 0, vc_lagNoted = False, vc_fullResync = False, vc_partialSync = False,
     vc_subChannels = 0, vc_maxPipeline = 0, vc_pipelineNote = False, vc_dangerNoted = (\<lambda>_. False)\<rparr>"

definition new_mongodir :: pktMongoDir where
  "new_mongodir = \<lparr>md_aligned = False, md_desynced = False, md_waiting = 0\<rparr>"

definition new_mongoconn :: pktMongoConn where
  "new_mongoconn = \<lparr>mc_pending = Map.empty, mc_kind = [], mc_sawMsg = False, mc_appName = [], mc_driver = [], mc_cursors = Map.empty,
     mc_inTxn = False, mc_txnNumber = 0, mc_txnNoted = False, mc_authUser = [], mc_authMech = [], mc_compressor = [],
     mc_opsSeen = 0, mc_heartbeats = 0\<rparr>"

definition new_dir :: pktDirState where
  "new_dir = \<lparr>ds_buf = [], ds_nextSeq = 0, ds_haveSeq = False, ds_lastAck = 0, ds_lastWin = 0, ds_dupAcks = 0,
     ds_greeted = False, ds_synced = False, ds_inResults = False, ds_resultCol = 0, ds_resultRow = 0,
     ds_resultLen = 0, ds_pendingDefs = 0, ds_expectDefsEOF = False, ds_binlog = False, ds_appBytes = 0,
     ds_xferStarted = False, ds_xferFormat = [], ds_pg = new_pgdir,
     ds_valkeybus = \<lparr>bd_aligned = False, bd_desynced = False\<rparr>, ds_valkey = new_valkeydir,
     ds_mongo = new_mongodir\<rparr>"

definition new_conn :: pktConn where
  "new_conn = \<lparr>c_idx = 0, c_client = [], c_server = [], c_c2s = new_dir, c_s2c = new_dir, c_synced = False, c_tls = False,
     c_sslRequested = False, c_tlsSealed = False, c_compressed = False, c_authPhase = False, c_role = [],
     c_xferAnnounced = False, c_xferBig = False, c_xferFormat = [], c_haveSeqByte = False, c_nextSeqByte = 0,
     c_user = [], c_database = [], c_version = [], c_pendingCmd = [], c_pendingQuery = [], c_pendingTS = 0,
     c_pendingOpen = False, c_synTS = 0, c_haveSyn = False, c_synNo = 0, c_synAcked = False, c_sawData = False,
     c_Packets = 0, c_Bytes = 0, c_StartTS = 0, c_EndTS = 0, c_Queries = 0, c_Errors = 0, c_Reset = False,
     c_pg = new_pgconn, c_valkeybus = new_busconn, c_pgha = \<lparr>ha_lastPath = [], ha_http2 = False\<rparr>, c_valkey = new_valkeyconn,
     c_mongo = new_mongoconn, c_Role = [], c_RoleLabel = []\<rparr>"

text \<open>
  \<^verbatim>\<open>t.Sub(u)\<close>, nanoseconds, held to the range of a \<^verbatim>\<open>time.Duration\<close>; \<^verbatim>\<open>t.Sub(u).Microseconds()\<close> divides by
  1000, towards zero.
\<close>

definition go_Sub :: "int \<Rightarrow> int \<Rightarrow> int" where
  "go_Sub t u = max (- (2 ^ 63)) (min (2 ^ 63 - 1) (t - u))"

definition micros :: "int \<Rightarrow> int \<Rightarrow> int" where
  "micros t u = (let d = go_Sub t u in if d \<ge> 0 then d div 1000 else - ((- d) div 1000))"

definition add_issue :: "string \<Rightarrow> pktPacket \<Rightarrow> pktPacket" where
  "add_issue s p = p\<lparr>p_Issues := p_Issues p @ [s]\<rparr>"

end
