(* ===== verification/Mysql_Decode.thy ===== *)
theory Mysql_Decode
  imports Mysql_Wire Pkt_State
begin

text \<open>
  The state machine that turns the MySQL packets of a connection into the lines of a capture
  (\<^verbatim>\<open>src/app/pktmysql.go\<close>): \<open>pktDecodeClient\<close> and \<open>pktDecodeServer\<close> take one packet, annotate the frame
  and return its line; \<open>pktAppDecode\<close> takes one TCP payload, drains the packets it completes
  through them and puts the frame's summary together. Each returns the frame and the connection
  updated.
\<close>

section \<open>Client to server\<close>

definition pktDecodeHandshakeResponse :: "pktPacket \<Rightarrow> pktConn \<Rightarrow> bytes \<Rightarrow> string \<times> pktPacket \<times> pktConn" where
  "pktDecodeHandshakeResponse p c msg =
     (if length msg < 4 then (''Handshake response (truncated)'', p, c)
      else let caps = of_nat (le_u32 msg) :: 32 word in
        if caps AND capSSL \<noteq> 0 \<and> length msg \<le> 36 then
          (''SSLRequest '' @ em_dash @ '' TLS starts, payload no longer readable'',
           p\<lparr>p_Status := ''Encrypted'', p_Query := ''-- SSLRequest: connection switches to TLS here''\<rparr>,
           c\<lparr>c_sslRequested := True\<rparr>)
        else if caps AND (capCompress OR capZstd) \<noteq> 0 then
          (''Login request with compression '' @ em_dash @ '' payload no longer readable'',
           (add_issue (''Compressed protocol negotiated '' @ em_dash
              @ '' payload not decoded (uncompress failures surface as 1157 / 2065 / 2066)'') p)
             \<lparr>p_Status := ''Compressed'',
              p_Query := ''-- CLIENT_COMPRESS negotiated: packets are zlib/zstd framed from here''\<rparr>,
           c\<lparr>c_compressed := True\<rparr>)
        else
          let c' = (if length msg > 32 then
                      (case bytesIndexZero (drop 32 msg) of
                         Some i \<Rightarrow> c\<lparr>c_user := str (take i (drop 32 msg))\<rparr>
                       | None \<Rightarrow> c)
                    else c)
          in if c_user c' \<noteq> [] then
               (''Login request: user '' @ c_user c', p\<lparr>p_Query := ''-- login as '' @ c_user c'\<rparr>, c')
             else (''Handshake response'', p, c'))"

text \<open>The \<^verbatim>\<open>switch cmd\<close> of the code, on a connection already updated for the new command.\<close>

definition client_command :: "pktPacket \<Rightarrow> pktConn \<Rightarrow> byte \<Rightarrow> bytes \<Rightarrow> string \<times> pktPacket \<times> pktConn" where
  "client_command p c cmd arg =
     (let name = pktComName cmd in
      if cmd = comQuery \<or> cmd = comStmtPrepare then
        let sql = pktCleanSQL (str arg) in
        ((if cmd = comStmtPrepare then ''Prepare'' else ''Query'') @ '': '' @ pktEllipsis sql 120,
         p\<lparr>p_Query := sql\<rparr>, c\<lparr>c_pendingQuery := sql, c_Queries := c_Queries c + 1\<rparr>)
      else if cmd = comInitDB then
        (''Init DB: '' @ str arg, p\<lparr>p_Query := ''USE '' @ str arg\<rparr>, c\<lparr>c_database := str arg\<rparr>)
      else if cmd = comStmtExecute then
        (if length arg \<ge> 4 then
           (''Execute stmt '' @ go_utoa (le_u32 arg),
            p\<lparr>p_Query := ''-- execute prepared statement '' @ go_utoa (le_u32 arg)\<rparr>, c)
         else (''Execute prepared statement'', p, c))
      else if cmd = comStmtClose \<or> cmd = comStmtReset \<or> cmd = comStmtFetch then
        (if length arg \<ge> 4 then
           (go_TrimPrefix name ''COM_STMT_'' @ '' stmt '' @ go_utoa (le_u32 arg), p, c)
         else (name, p, c))
      else if cmd = comBinlogDump \<or> cmd = comBinlogDumpGTID then
        let p' = p\<lparr>p_Query := ''-- replication: '' @ name\<rparr>; c' = c\<lparr>c_s2c := (c_s2c c)\<lparr>ds_binlog := True\<rparr>\<rparr> in
        (if cmd = comBinlogDump \<and> length arg \<ge> 10 then
           (''Binlog dump from pos '' @ go_utoa (le_u32 arg) @ '' (server_id '' @ go_utoa (le_u32 (drop 6 arg)) @ '')'', p', c')
         else (''Binlog dump (GTID auto-position)'', p', c'))
      else if cmd = comRegisterSlave then
        (if length arg \<ge> 4 then (''Register replica (server_id '' @ go_utoa (le_u32 arg) @ '')'', p, c)
         else (''Register replica'', p, c))
      else if cmd = comChangeUser then
        let c' = (case bytesIndexZero arg of
                    Some i \<Rightarrow> if i > 0 then c\<lparr>c_user := str (take i arg)\<rparr> else c
                  | None \<Rightarrow> c)
        in (''Change user: '' @ c_user c', p, c')
      else if cmd = comQuit then (''Quit'', p, c\<lparr>c_pendingOpen := False\<rparr>)
      else if cmd = comPing then (''Ping'', p, c)
      else if length arg > 0 then (name @ '' ('' @ go_utoa (length arg) @ '' bytes)'', p, c)
      else (name, p, c))"

text \<open>A complete command anchors the server's direction.\<close>

definition anchor_server :: "pktConn \<Rightarrow> pktConn" where
  "anchor_server c =
     (if \<not> ds_synced (c_s2c c) then
        c\<lparr>c_s2c := (c_s2c c)\<lparr>ds_synced := True, ds_buf := [], ds_inResults := False, ds_pendingDefs := 0,
            ds_resultRow := 0, ds_resultCol := 0, ds_resultLen := 0\<rparr>\<rparr>
      else c)"

definition pktDecodeClient :: "pktPacket \<Rightarrow> pktConn \<Rightarrow> bytes \<Rightarrow> int \<Rightarrow> string \<times> pktPacket \<times> pktConn" where
  "pktDecodeClient p c msg ts =
     (if msg = [] then ([], p, c)
      else if \<not> ds_greeted (c_c2s c) \<and> c_synced c then
        pktDecodeHandshakeResponse p (c\<lparr>c_c2s := (c_c2s c)\<lparr>ds_greeted := True\<rparr>\<rparr>) msg
      else if \<not> ds_synced (c_c2s c) \<and> \<not> pktPlausibleCommand msg then
        (''Client payload, '' @ go_utoa (length msg) @ '' bytes (capture joined mid-connection)'',
         p\<lparr>p_Status := ''Unsynchronised''\<rparr>, c)
      else
        let c1 = c\<lparr>c_c2s := (c_c2s c)\<lparr>ds_synced := True\<rparr>\<rparr>; cmd = msg ! 0; name = pktComName cmd in
        if go_HasPrefix name ''COM_0x'' \<and> \<not> pktPlausibleCommand msg then
          (''Unrecognised client payload, '' @ go_utoa (length msg) @ '' bytes (first byte 0x'' @ go_02x cmd @ '')'',
           p\<lparr>p_Status := ''Unrecognised''\<rparr>, c1)
        else
          client_command (p\<lparr>p_Command := name\<rparr>)
            (anchor_server (c1\<lparr>c_pendingCmd := name, c_pendingTS := ts, c_pendingOpen := True, c_pendingQuery := []\<rparr>))
            cmd (drop 1 msg))"

section \<open>Server to client\<close>

definition pktAnchorClient :: "pktConn \<Rightarrow> pktConn" where
  "pktAnchorClient c =
     (if \<not> ds_synced (c_c2s c) then c\<lparr>c_c2s := (c_c2s c)\<lparr>ds_synced := True, ds_buf := []\<rparr>\<rparr> else c)"

definition err_status :: "nat \<Rightarrow> string \<Rightarrow> string \<Rightarrow> string" where
  "err_status code state txt = ''Error '' @ go_utoa code @ '' ('' @ state @ ''): '' @ txt"

text \<open>What every branch for an ERR packet does to the frame and the connection.\<close>

definition note_error :: "nat \<Rightarrow> string \<Rightarrow> string \<Rightarrow> pktPacket \<Rightarrow> pktPacket" where
  "note_error code state txt p =
     add_issue (pktErrIssue code txt) (p\<lparr>p_ErrCode := int code, p_Status := err_status code state txt\<rparr>)"

definition pktDecodeGreeting :: "pktPacket \<Rightarrow> pktConn \<Rightarrow> bytes \<Rightarrow> string \<times> pktPacket \<times> pktConn" where
  "pktDecodeGreeting p c msg =
     (if length msg < 2 then (''Server greeting (truncated)'', p, c)
      else if msg ! 0 = 0xff then
        (case pktParseERR msg of (code, state, txt) \<Rightarrow>
          (''Connection refused by server: '' @ go_utoa code @ '' '' @ pktEllipsis txt 80,
           note_error code state txt p, c\<lparr>c_Errors := c_Errors c + 1\<rparr>))
      else let rest = drop 1 msg in
        case bytesIndexZero rest of
          None \<Rightarrow> (''Server payload, '' @ go_utoa (length msg) @ '' bytes (not a greeting)'', p, c)
        | Some i \<Rightarrow>
            if msg ! 0 \<noteq> 10 then
              (''Server payload, '' @ go_utoa (length msg) @ '' bytes (not a greeting)'', p, c)
            else
              let v = pktPrintable (str (take i rest)) in
              (''Server greeting: '' @ v @ '' (protocol '' @ go_utoa (unat (msg ! 0)) @ '')''
                 @ (if length rest > i + 5 then '', connection id '' @ go_utoa (le_u32 (drop (i + 1) rest)) else []),
               p\<lparr>p_Query := ''-- server greeting: MySQL '' @ v\<rparr>,
               c\<lparr>c_version := v, c_authPhase := True\<rparr>))"

text \<open>
  The packets of the authentication phase; \<open>None\<close> for one that is none of them, with which the
  code goes on below.
\<close>

definition decode_auth :: "pktPacket \<Rightarrow> pktConn \<Rightarrow> bytes \<Rightarrow> (string \<times> pktPacket \<times> pktConn) option" where
  "decode_auth p c msg =
     (if msg ! 0 = 0x00 then
        (case pktParseOK msg of (_, _, _, info) \<Rightarrow>
          let info' = pktPrintable info; c' = c\<lparr>c_authPhase := False\<rparr> in
          if info' \<noteq> [] then Some (''Login OK '' @ em_dash @ '' '' @ pktEllipsis info' 60, p, c')
          else Some (''Login OK'', p\<lparr>p_Status := ''Success''\<rparr>, c'))
      else if msg ! 0 = 0xff then
        (case pktParseERR msg of (code, state, txt0) \<Rightarrow>
          let txt = pktPrintable txt0;
              verb = (case map_of pktErrCatalog code of
                        Some e \<Rightarrow> if ei_Class e = PktErrNet then ''Connection dropped during handshake'' else ''Login refused''
                      | None \<Rightarrow> ''Login refused'')
          in Some (verb @ '': '' @ go_utoa code @ '' '' @ pktEllipsis txt 80,
                   note_error code state txt p, c\<lparr>c_authPhase := False, c_Errors := c_Errors c + 1\<rparr>))
      else if msg ! 0 = 0xfe then
        let name = (case bytesIndexZero (drop 1 msg) of
                      Some i \<Rightarrow> if i > 0 then pktPrintable (str (slice 1 (1 + i) msg)) else []
                    | None \<Rightarrow> [])
        in Some (''Auth switch request: '' @ name, p, c)
      else if msg ! 0 = 0x01 then
        Some (''Auth more data ('' @
          (if length msg \<ge> 2 \<and> msg ! 1 = 0x03 then ''fast auth succeeded''
           else if length msg \<ge> 2 \<and> msg ! 1 = 0x04 then ''full authentication required''
           else ''continuation'') @ '')'', p, c)
      else None)"

definition pktSlowResponseMS :: nat where "pktSlowResponseMS = 100"
definition pktBigResultBytes :: nat where "pktBigResultBytes = push_bit 20 1"

text \<open>The first packet back gives the frame the request's latency, query and command.\<close>

definition note_latency :: "int \<Rightarrow> pktPacket \<Rightarrow> pktConn \<Rightarrow> pktPacket \<times> pktConn" where
  "note_latency ts p c =
     (if c_pendingOpen c then
        let us = micros ts (c_pendingTS c);
            p1 = p\<lparr>p_LagNS := 1000 * us\<rparr>;
            p2 = (if us \<ge> 1000 * int pktSlowResponseMS
                  then add_issue (''High latency '' @ em_dash @ '' '' @ go_utoa (go_round_div (nat us) 1000)
                         @ '' ms to first response byte'') p1
                  else p1);
            p3 = (if c_pendingQuery c \<noteq> [] \<and> p_Query p2 = [] then p2\<lparr>p_Query := c_pendingQuery c\<rparr> else p2)
        in (p3\<lparr>p_Command := c_pendingCmd c\<rparr>, c\<lparr>c_pendingOpen := False\<rparr>)
      else (p, c))"

text \<open>The response proper, in a direction known to be synchronised: the final \<^verbatim>\<open>switch\<close> of the code.\<close>

definition server_response :: "pktPacket \<Rightarrow> pktConn \<Rightarrow> bytes \<Rightarrow> string \<times> pktPacket \<times> pktConn" where
  "server_response p c msg =
     (let dir = c_s2c c in
      if msg ! 0 = 0xff then
        (case pktParseERR msg of (code, state, txt0) \<Rightarrow>
          let txt = pktPrintable txt0 in
          (''Error '' @ go_utoa code @ '': '' @ pktEllipsis txt 100, note_error code state txt p,
           pktAnchorClient (c\<lparr>c_Errors := c_Errors c + 1,
             c_s2c := dir\<lparr>ds_inResults := False, ds_pendingDefs := 0\<rparr>\<rparr>)))
      else if msg ! 0 = 0x00 \<and> \<not> ds_inResults dir \<and> c_pendingCmd c = ''COM_STMT_PREPARE'' \<and> length msg \<ge> 12 then
        let cols = le_u16 (drop 5 msg); params = le_u16 (drop 7 msg) in
        (''Prepared OK: stmt '' @ go_utoa (le_u32 (drop 1 msg)) @ '', '' @ go_utoa cols @ '' column(s), ''
           @ go_utoa params @ '' parameter(s)'',
         p\<lparr>p_Status := ''Success''\<rparr>,
         pktAnchorClient (c\<lparr>c_pendingCmd := [], c_s2c := dir\<lparr>ds_pendingDefs := cols + params\<rparr>\<rparr>))
      else if msg ! 0 = 0x00 \<and> \<not> ds_inResults dir then
        (case pktParseOK msg of (rows, insertID, warn, info) \<Rightarrow>
          let info' = pktPrintable info in
          (''OK: '' @ go_Itoa rows @ '' row(s) affected''
             @ (if insertID > 0 then '', insert_id '' @ go_utoa (unat insertID) else [])
             @ (if warn > 0 then '', '' @ go_utoa warn @ '' warning(s)'' else [])
             @ (if info' \<noteq> [] then '' '' @ em_dash @ '' '' @ pktEllipsis info' 60 else []),
           p\<lparr>p_Status := ''Success'', p_Rows := rows\<rparr>, pktAnchorClient c))
      else if ds_expectDefsEOF dir \<and> ds_pendingDefs dir = 0 \<and> msg ! 0 = 0xfe \<and> length msg \<le> 5 \<and> ds_resultRow dir = 0 then
        ([], p, c\<lparr>c_s2c := dir\<lparr>ds_expectDefsEOF := False\<rparr>\<rparr>)
      else if msg ! 0 = 0xfe \<and> length msg \<le> pktEOFMaxLen then
        (if ds_inResults dir then
           (''Result set complete: '' @ go_utoa (ds_resultRow dir) @ '' row(s), '' @ go_utoa (ds_resultCol dir)
              @ '' column(s), '' @ pktBytes (ds_resultLen dir),
            (let p' = p\<lparr>p_Rows := int (ds_resultRow dir), p_Status := ''Success''\<rparr> in
             if ds_resultLen dir \<ge> pktBigResultBytes
             then add_issue (''Heavy result set '' @ em_dash @ '' '' @ pktBytes (ds_resultLen dir)) p' else p'),
            pktAnchorClient (c\<lparr>c_s2c := dir\<lparr>ds_expectDefsEOF := False, ds_pendingDefs := 0, ds_inResults := False,
              ds_resultRow := 0, ds_resultCol := 0, ds_resultLen := 0\<rparr>\<rparr>))
         else (''EOF'', p, c))
      else if msg ! 0 = 0xfb \<and> \<not> ds_inResults dir then (''LOCAL INFILE request'', p, c)
      else if ds_inResults dir then
        ([], p, c\<lparr>c_s2c := dir\<lparr>ds_resultRow := ds_resultRow dir + 1, ds_resultLen := ds_resultLen dir + length msg\<rparr>\<rparr>)
      else case pktLenEncInt msg of
        Some (n, _) \<Rightarrow>
          if n > 0 \<and> n < 4096 then
            (''Result set: '' @ go_utoa (unat n) @ '' column(s)'', p,
             c\<lparr>c_s2c := dir\<lparr>ds_inResults := True, ds_resultCol := unat n, ds_pendingDefs := unat n,
                ds_expectDefsEOF := True, ds_resultRow := 0, ds_resultLen := 0\<rparr>\<rparr>)
          else (''Response ('' @ go_utoa (length msg) @ '' bytes)'', p, c)
      | None \<Rightarrow> (''Response ('' @ go_utoa (length msg) @ '' bytes)'', p, c))"

definition decode_unsynced :: "pktPacket \<Rightarrow> pktConn \<Rightarrow> bytes \<Rightarrow> string \<times> pktPacket \<times> pktConn" where
  "decode_unsynced p c msg =
     (if pktPlausibleERR msg then
        (case pktParseERR msg of (code, state, txt) \<Rightarrow>
          (''Error '' @ go_utoa code @ '': '' @ pktEllipsis (pktPrintable txt) 100,
           note_error code state (pktPrintable txt) p, c\<lparr>c_Errors := c_Errors c + 1\<rparr>))
      else (''Server payload, '' @ go_utoa (length msg) @ '' bytes (capture joined mid-connection)'',
            (if p_Status p = [] then p\<lparr>p_Status := ''Unsynchronised''\<rparr> else p), c))"

text \<open>Everything after the authentication phase.\<close>

definition decode_response :: "pktPacket \<Rightarrow> pktConn \<Rightarrow> bytes \<Rightarrow> int \<Rightarrow> string \<times> pktPacket \<times> pktConn" where
  "decode_response p0 c0 msg ts =
     (case note_latency ts p0 c0 of (p, c) \<Rightarrow>
        let dir = c_s2c c in
        if msg ! 0 = 0x00 \<and> (ds_binlog dir \<or> pktLooksBinlogEvent msg) then
          (pktBinlogEventInfo msg, p, c\<lparr>c_s2c := dir\<lparr>ds_binlog := True\<rparr>\<rparr>)
        else if \<not> ds_synced dir then decode_unsynced p c msg
        else if ds_pendingDefs dir > 0 \<and> msg ! 0 \<noteq> 0xff then
          ([], p, c\<lparr>c_s2c := dir\<lparr>ds_pendingDefs := ds_pendingDefs dir - 1\<rparr>\<rparr>)
        else server_response p c msg)"

definition pktDecodeServer :: "pktPacket \<Rightarrow> pktConn \<Rightarrow> bytes \<Rightarrow> int \<Rightarrow> string \<times> pktPacket \<times> pktConn" where
  "pktDecodeServer p c msg ts =
     (if msg = [] then ([], p, c)
      else if \<not> ds_greeted (c_s2c c) \<and> c_synced c then
        pktDecodeGreeting p (c\<lparr>c_s2c := (c_s2c c)\<lparr>ds_greeted := True\<rparr>\<rparr>) msg
      else if c_authPhase c then
        (case decode_auth p c msg of Some r \<Rightarrow> r | None \<Rightarrow> decode_response p c msg ts)
      else decode_response p c msg ts)"

section \<open>What the decoders leave alone\<close>

text \<open>
  Decoding a packet never touches the buffer of the direction it came from, and never makes
  the connection encrypted. The first is why draining the buffer ends.
\<close>

definition conn_of :: "string \<times> pktPacket \<times> pktConn \<Rightarrow> pktConn" where
  "conn_of r = snd (snd r)"

definition info_of :: "string \<times> pktPacket \<times> pktConn \<Rightarrow> string" where
  "info_of r = fst r"

lemma conn_of_simps [simp]: "conn_of (s, p, c) = c" "info_of (s, p, c) = s"
  by (simp_all add: conn_of_def info_of_def)

lemma conn_of_if [simp]: "conn_of (if b then x else y) = (if b then conn_of x else conn_of y)"
  by simp

lemma anchor_simps [simp]:
  "ds_buf (c_c2s (anchor_server c)) = ds_buf (c_c2s c)" "c_tls (anchor_server c) = c_tls c"
  "ds_buf (c_s2c (pktAnchorClient c)) = ds_buf (c_s2c c)" "c_tls (pktAnchorClient c) = c_tls c"
  "c_s2c (pktAnchorClient c) = c_s2c c" "c_c2s (anchor_server c) = c_c2s c"
  by (simp_all add: anchor_server_def pktAnchorClient_def)

lemma handshake_keeps:
  "ds_buf (c_c2s (conn_of (pktDecodeHandshakeResponse p c msg))) = ds_buf (c_c2s c)"
  "c_tls (conn_of (pktDecodeHandshakeResponse p c msg)) = c_tls c"
  by (simp_all add: pktDecodeHandshakeResponse_def Let_def split: option.split)

lemma client_command_keeps:
  "ds_buf (c_c2s (conn_of (client_command p c cmd arg))) = ds_buf (c_c2s c)"
  "c_tls (conn_of (client_command p c cmd arg)) = c_tls c"
  by (simp_all add: client_command_def Let_def split: option.split)

lemma pktDecodeClient_keeps:
  "ds_buf (c_c2s (conn_of (pktDecodeClient p c msg ts))) = ds_buf (c_c2s c)"
  "c_tls (conn_of (pktDecodeClient p c msg ts)) = c_tls c"
  by (simp_all add: pktDecodeClient_def Let_def handshake_keeps client_command_keeps)

lemma greeting_keeps:
  "ds_buf (c_s2c (conn_of (pktDecodeGreeting p c msg))) = ds_buf (c_s2c c)"
  "c_tls (conn_of (pktDecodeGreeting p c msg)) = c_tls c"
  by (simp_all add: pktDecodeGreeting_def Let_def split: option.split prod.split)

lemma decode_auth_keeps:
  "decode_auth p c msg = Some r \<Longrightarrow> c_s2c (conn_of r) = c_s2c c \<and> c_tls (conn_of r) = c_tls c"
  by (auto simp: decode_auth_def Let_def split: if_splits prod.splits)

lemma server_response_keeps:
  "ds_buf (c_s2c (conn_of (server_response p c msg))) = ds_buf (c_s2c c)"
  "c_tls (conn_of (server_response p c msg)) = c_tls c"
  by (simp_all add: server_response_def Let_def split: option.split prod.split)

lemma note_latency_keeps:
  "note_latency ts p c = (p', c') \<Longrightarrow> c_s2c c' = c_s2c c \<and> c_tls c' = c_tls c"
  by (auto simp: note_latency_def Let_def split: if_splits)

lemma decode_response_keeps:
  "ds_buf (c_s2c (conn_of (decode_response p c msg ts))) = ds_buf (c_s2c c)"
  "c_tls (conn_of (decode_response p c msg ts)) = c_tls c"
  by (auto simp: decode_response_def decode_unsynced_def Let_def server_response_keeps
      dest: note_latency_keeps split: prod.split)

lemma pktDecodeServer_keeps:
  "ds_buf (c_s2c (conn_of (pktDecodeServer p c msg ts))) = ds_buf (c_s2c c)"
  "c_tls (conn_of (pktDecodeServer p c msg ts)) = c_tls c"
  by (auto simp: pktDecodeServer_def greeting_keeps decode_response_keeps dest: decode_auth_keeps split: option.split)

section \<open>One TCP payload\<close>

definition decode_one :: "bool \<Rightarrow> pktPacket \<Rightarrow> pktConn \<Rightarrow> bytes \<Rightarrow> int \<Rightarrow> string \<times> pktPacket \<times> pktConn" where
  "decode_one fromClient p c msg ts =
     (if fromClient then pktDecodeClient p c msg ts else pktDecodeServer p c msg ts)"

lemma decode_one_keeps:
  "ds_buf (dir_of fc (conn_of (decode_one fc p c msg ts))) = ds_buf (dir_of fc c)"
  "c_tls (conn_of (decode_one fc p c msg ts)) = c_tls c"
  by (simp_all add: decode_one_def dir_of_def pktDecodeClient_keeps pktDecodeServer_keeps)

text \<open>The connection's sequence byte: the note a break leaves, and what is expected next.\<close>

definition seq_note :: "bool \<Rightarrow> pktConn \<Rightarrow> byte \<Rightarrow> string \<Rightarrow> string" where
  "seq_note fromClient c seq old =
     (if c_synced c \<and> c_haveSeqByte c \<and> seq \<noteq> c_nextSeqByte c \<and> \<not> (fromClient \<and> seq = 0)
      then ''MySQL packet sequence expected '' @ go_utoa (unat (c_nextSeqByte c)) @ '', got '' @ go_utoa (unat seq)
        @ '' '' @ em_dash @ '' server reports 1156, client 2027''
      else old)"

definition note_seq :: "byte \<Rightarrow> pktConn \<Rightarrow> pktConn" where
  "note_seq lastSeq c = c\<lparr>c_haveSeqByte := True, c_nextSeqByte := lastSeq + 1\<rparr>"

lemma app_loop_progress:
  assumes "pktNextMySQL (ds_buf (dir_of fc c)) = Some ((msg, seq, lastSeq), n)"
  shows "length (ds_buf (dir_of fc (conn_of (decode_one fc p
     (note_seq lastSeq (set_dir fc ((dir_of fc c)\<lparr>ds_buf := drop n (ds_buf (dir_of fc c))\<rparr>) c)) msg ts))))
    < length (ds_buf (dir_of fc c))"
  using mysql.rd_pos [OF assms] mysql.rd_within [OF assms]
  unfolding decode_one_keeps by (auto simp: note_seq_def dir_of_def set_dir_def)

text \<open>The loop of \<^verbatim>\<open>pktAppDecode\<close>: frame, connection, lines so far, sequence note, packets seen.\<close>

function app_loop ::
  "bool \<Rightarrow> int \<Rightarrow> pktPacket \<Rightarrow> pktConn \<Rightarrow> string list \<Rightarrow> string \<Rightarrow> nat
     \<Rightarrow> pktPacket \<times> pktConn \<times> string list \<times> string \<times> nat" where
  "app_loop fromClient ts p c infos note msgs =
     (case pktNextMySQL (ds_buf (dir_of fromClient c)) of
        None \<Rightarrow> (p, c, infos, note, msgs)
      | Some ((msg, seq, lastSeq), n) \<Rightarrow>
          let d = dir_of fromClient c;
              c1 = set_dir fromClient (d\<lparr>ds_buf := drop n (ds_buf d)\<rparr>) c;
              note' = seq_note fromClient c1 seq note;
              r = decode_one fromClient p (note_seq lastSeq c1) msg ts;
              infos' = (if info_of r \<noteq> [] then infos @ [info_of r] else infos);
              p' = fst (snd r); c' = conn_of r
          in if c_tls c'
             then (p', set_dir fromClient ((dir_of fromClient c')\<lparr>ds_buf := []\<rparr>) c', infos', note', msgs + 1)
             else app_loop fromClient ts p' c' infos' note' (msgs + 1))"
  by pat_completeness auto
termination
  by (relation "measure (\<lambda>(fc, ts, p, c, _). length (ds_buf (dir_of fc c)))") (auto simp: app_loop_progress)

declare app_loop.simps [simp del]

text \<open>The summary of a frame whose payload went through the loop.\<close>

definition app_summary ::
  "bytes \<Rightarrow> bool \<Rightarrow> pktPacket \<times> pktConn \<times> string list \<times> string \<times> nat \<Rightarrow> pktPacket \<times> pktConn" where
  "app_summary payload fromClient r =
     (case r of (p, c, infos, note, msgs) \<Rightarrow>
        let d = dir_of fromClient c;
            p1 = (if msgs > 0 then p\<lparr>p_Proto := ''MySQL''\<rparr> else p);
            p2 = (if note \<noteq> [] \<and> p_ErrCode p1 = 0 then add_issue note p1 else p1)
        in (if infos \<noteq> [] then
              p2\<lparr>p_Info := (if length infos > 3
                 then go_Join (take 3 infos) '' | '' @ '' | +'' @ go_utoa (length infos - 3) @ '' more''
                 else go_Join infos '' | '')\<rparr>
            else if msgs > 0 then
              p2\<lparr>p_Info := (if ds_inResults d
                   then ''Result-set data (row '' @ go_utoa (ds_resultRow d) @ '' of '' @ go_utoa (ds_resultCol d) @ ''-column set)''
                   else ''MySQL data'')
                 @ '', '' @ go_utoa (length payload) @ '' bytes in '' @ go_utoa msgs @ '' packet(s)''\<rparr>
            else if ds_buf d \<noteq> [] then
              p2\<lparr>p_Proto := ''MySQL'', p_Info := ''[continuation] '' @ go_utoa (length payload) @ '' bytes, ''
                 @ go_utoa (length (ds_buf d)) @ '' buffered''\<rparr>
            else p2, c))"

definition pktAppDecode :: "pktPacket \<Rightarrow> pktConn \<Rightarrow> bool \<Rightarrow> bytes \<Rightarrow> int \<Rightarrow> pktPacket \<times> pktConn" where
  "pktAppDecode p c fromClient payload ts =
     (if c_tls c then
        let info = pktTLSInfo payload (c_tlsSealed c);
            p1 = p\<lparr>p_Proto := ''TLS'', p_Info := info, p_Status := ''Encrypted''\<rparr>
        in (if go_Contains info ''Alert''
            then add_issue (''TLS alert '' @ em_dash
              @ '' handshake or session rejected, client sees 2026 CR_SSL_CONNECTION_ERROR'') p1
            else p1,
            if \<not> c_tlsSealed c \<and> pktTLSSeals payload then c\<lparr>c_tlsSealed := True\<rparr> else c)
      else if c_compressed c then
        (p\<lparr>p_Proto := ''MySQL/compressed'', p_Status := ''Compressed'',
           p_Info := ''Compressed payload, '' @ go_utoa (length payload) @ '' bytes (not decoded)''\<rparr>, c)
      else if c_sslRequested c \<and> pktLooksTLS payload then
        (p\<lparr>p_Proto := ''TLS'', p_Info := pktTLSInfo payload False, p_Status := ''Encrypted''\<rparr>,
         c\<lparr>c_tls := True, c_tlsSealed := pktTLSSeals payload\<rparr>)
      else
        let d = dir_of fromClient c;
            c1 = set_dir fromClient (d\<lparr>ds_buf := ds_buf d @ payload\<rparr>) c
        in app_summary payload fromClient (app_loop fromClient ts p c1 [] [] 0))"

section \<open>Encryption\<close>

lemma set_dir_tls [simp]: "c_tls (set_dir fc d c) = c_tls c" "c_tls (note_seq l c) = c_tls c"
  by (simp_all add: set_dir_def note_seq_def)

lemma app_loop_tls: "c_tls (fst (snd (app_loop fc ts p c infos nt k))) = c_tls c"
proof (induction fc ts p c infos nt k rule: app_loop.induct)
  case (1 fc ts p c infos nt k)
  show ?case
  proof (cases "pktNextMySQL (ds_buf (dir_of fc c))")
    case None
    then show ?thesis by (simp add: app_loop.simps [of fc ts p c])
  next
    case (Some r)
    obtain msg seq l n where r: "r = ((msg, seq, l), n)" by (metis surj_pair)
    show ?thesis
      using "1.IH" [OF Some [unfolded r] refl refl refl refl refl refl refl refl refl refl] Some
      by (auto simp: app_loop.simps [of fc ts p c] r Let_def decode_one_keeps)
  qed
qed

lemma app_loop_buf:
  assumes "\<not> c_tls c"
  shows "pktNextMySQL (ds_buf (dir_of fc (fst (snd (app_loop fc ts p c infos nt k))))) = None"
  using assms
proof (induction fc ts p c infos nt k rule: app_loop.induct)
  case (1 fc ts p c infos nt k)
  show ?case
  proof (cases "pktNextMySQL (ds_buf (dir_of fc c))")
    case None
    then show ?thesis by (simp add: app_loop.simps [of fc ts p c])
  next
    case (Some r)
    obtain msg seq l n where r: "r = ((msg, seq, l), n)" by (metis surj_pair)
    show ?thesis
      using "1.IH" [OF Some [unfolded r] refl refl refl refl refl refl refl refl refl refl] "1.prems" Some
      by (auto simp: app_loop.simps [of fc ts p c] r Let_def decode_one_keeps)
  qed
qed

section \<open>Result sets\<close>

text \<open>A run of server packets in one direction: the lines, and where it leaves frame and connection.\<close>

fun server_run :: "int \<Rightarrow> pktPacket \<Rightarrow> pktConn \<Rightarrow> bytes list \<Rightarrow> string list \<times> pktPacket \<times> pktConn" where
  "server_run ts p c [] = ([], p, c)"
| "server_run ts p c (m # ms) =
     (case pktDecodeServer p c m ts of (info, p', c') \<Rightarrow>
        (case server_run ts p' c' ms of (infos, r) \<Rightarrow> (info # infos, r)))"

lemma server_run_append:
  "server_run ts p c (xs @ ys) =
     (case server_run ts p c xs of (i, p', c') \<Rightarrow> (case server_run ts p' c' ys of (j, r) \<Rightarrow> (i @ j, r)))"
  by (induction xs arbitrary: p c) (simp_all split: prod.split)

text \<open>A connection past its login whose server direction is in the state given.\<close>

definition serving :: "pktConn \<Rightarrow> bool \<Rightarrow> nat \<Rightarrow> nat \<Rightarrow> nat \<Rightarrow> nat \<Rightarrow> bool \<Rightarrow> bool" where
  "serving c inres col row len defs eof \<longleftrightarrow>
     (ds_greeted (c_s2c c) \<or> \<not> c_synced c) \<and> \<not> c_authPhase c \<and> ds_synced (c_s2c c) \<and> \<not> ds_binlog (c_s2c c)
     \<and> ds_inResults (c_s2c c) = inres \<and> ds_resultCol (c_s2c c) = col \<and> ds_resultRow (c_s2c c) = row
     \<and> ds_resultLen (c_s2c c) = len \<and> ds_pendingDefs (c_s2c c) = defs \<and> ds_expectDefsEOF (c_s2c c) = eof"

text \<open>A packet that cannot be taken for a binlog event, an error or the end of a result set.\<close>

definition row_packet :: "bytes \<Rightarrow> bool" where
  "row_packet m \<longleftrightarrow> m \<noteq> [] \<and> m ! 0 \<noteq> 0xff \<and> \<not> pktLooksBinlogEvent m \<and> \<not> (m ! 0 = 0xfe \<and> length m \<le> pktEOFMaxLen)"

definition def_packet :: "bytes \<Rightarrow> bool" where
  "def_packet m \<longleftrightarrow> m \<noteq> [] \<and> m ! 0 \<noteq> 0xff \<and> \<not> pktLooksBinlogEvent m"

lemma note_latency_serving:
  assumes "note_latency ts p c = (p', c')" "serving c a b d e f g"
  shows "serving c' a b d e f g"
proof -
  have "c' = c \<or> c' = c\<lparr>c_pendingOpen := False\<rparr>"
    using assms(1) by (auto simp: note_latency_def Let_def split: if_splits)
  with assms(2) show ?thesis by (auto simp: serving_def)
qed

lemma pktDecodeServer_serving:
  assumes "serving c a b d e f g" "m \<noteq> []"
  shows "pktDecodeServer p c m ts = decode_response p c m ts"
  using assms by (auto simp: pktDecodeServer_def serving_def)

text \<open>One packet in each state of a result set.\<close>

lemma serving_def_packet:
  assumes "serving c True col row len (Suc k) eof" "def_packet m"
  shows "\<exists>p' c'. pktDecodeServer p c m ts = ([], p', c') \<and> serving c' True col row len k eof"
proof -
  obtain p1 c1 where n: "note_latency ts p c = (p1, c1)" by (cases "note_latency ts p c")
  note s = note_latency_serving [OF n assms(1)]
  have "pktDecodeServer p c m ts =
      ([], p1, c1\<lparr>c_s2c := (c_s2c c1)\<lparr>ds_pendingDefs := k\<rparr>\<rparr>)"
    using s assms(2) pktDecodeServer_serving [OF assms(1), of m p ts]
    by (simp add: decode_response_def n Let_def serving_def def_packet_def)
  moreover have "serving (c1\<lparr>c_s2c := (c_s2c c1)\<lparr>ds_pendingDefs := k\<rparr>\<rparr>) True col row len k eof"
    using s by (simp add: serving_def)
  ultimately show ?thesis by blast
qed

lemma serving_row:
  assumes "serving c True col row len 0 eof" "row_packet m"
  shows "\<exists>p' c'. pktDecodeServer p c m ts = ([], p', c') \<and> serving c' True col (row + 1) (len + length m) 0 eof"
proof -
  obtain p1 c1 where n: "note_latency ts p c = (p1, c1)" by (cases "note_latency ts p c")
  note s = note_latency_serving [OF n assms(1)]
  let ?c = "c1\<lparr>c_s2c := (c_s2c c1)\<lparr>ds_resultRow := row + 1, ds_resultLen := len + length m\<rparr>\<rparr>"
  have small: "length m \<le> pktEOFMaxLen" if "length m \<le> 5" using that by (simp add: pktEOFMaxLen_def)
  have row: "m \<noteq> []" "m ! 0 \<noteq> 0xff" "\<not> pktLooksBinlogEvent m" "\<not> (m ! 0 = 0xfe \<and> length m \<le> pktEOFMaxLen)"
    "\<not> (m ! 0 = 0xfe \<and> length m \<le> 5)"
    using assms(2) small by (auto simp: row_packet_def)
  have "pktDecodeServer p c m ts = ([], p1, ?c)"
    unfolding pktDecodeServer_serving [OF assms(1) row(1)]
    using s row by (simp add: decode_response_def n Let_def serving_def server_response_def del: de_Morgan_conj) blast
  moreover have "serving ?c True col (row + 1) (len + length m) 0 eof"
    using s by (simp add: serving_def)
  ultimately show ?thesis by blast
qed

lemma serving_defs_eof:
  assumes "serving c True col 0 len 0 True" "length m \<le> 5" "m \<noteq> []" "m ! 0 = 0xfe"
  shows "\<exists>p' c'. pktDecodeServer p c m ts = ([], p', c') \<and> serving c' True col 0 len 0 False"
proof -
  obtain p1 c1 where n: "note_latency ts p c = (p1, c1)" by (cases "note_latency ts p c")
  note s = note_latency_serving [OF n assms(1)]
  let ?c = "c1\<lparr>c_s2c := (c_s2c c1)\<lparr>ds_expectDefsEOF := False\<rparr>\<rparr>"
  have "pktDecodeServer p c m ts = ([], p1, ?c)"
    using s assms(2-) pktDecodeServer_serving [OF assms(1,3), of p ts]
    by (simp add: decode_response_def n Let_def serving_def server_response_def)
  moreover have "serving ?c True col 0 len 0 False" using s by (simp add: serving_def)
  ultimately show ?thesis by blast
qed

definition result_line :: "nat \<Rightarrow> nat \<Rightarrow> nat \<Rightarrow> string" where
  "result_line rows cols len =
     ''Result set complete: '' @ go_utoa rows @ '' row(s), '' @ go_utoa cols @ '' column(s), '' @ pktBytes len"

lemma serving_end:
  assumes "serving c True col row len 0 eof" "m \<noteq> []" "m ! 0 = 0xfe" "length m \<le> pktEOFMaxLen"
    and "\<not> (eof \<and> row = 0 \<and> length m \<le> 5)"
  shows "\<exists>p' c'. pktDecodeServer p c m ts = (result_line row col len, p', c')
    \<and> serving c' False 0 0 0 0 False \<and> p_Rows p' = int row \<and> p_Status p' = ''Success''"
proof -
  obtain p1 c1 where n: "note_latency ts p c = (p1, c1)" by (cases "note_latency ts p c")
  note s = note_latency_serving [OF n assms(1)]
  let ?p = "let p' = p1\<lparr>p_Rows := int row, p_Status := ''Success''\<rparr> in
     if len \<ge> pktBigResultBytes then add_issue (''Heavy result set '' @ em_dash @ '' '' @ pktBytes len) p' else p'"
  let ?c = "pktAnchorClient (c1\<lparr>c_s2c := (c_s2c c1)\<lparr>ds_expectDefsEOF := False, ds_pendingDefs := 0, ds_inResults := False,
              ds_resultRow := 0, ds_resultCol := 0, ds_resultLen := 0\<rparr>\<rparr>)"
  have "pktDecodeServer p c m ts = (result_line row col len, ?p, ?c)"
    using s assms(2-) pktDecodeServer_serving [OF assms(1,2), of p ts]
    by (auto simp: decode_response_def n Let_def serving_def server_response_def result_line_def)
  moreover have "serving ?c False 0 0 0 0 False"
    using s by (auto simp: serving_def pktAnchorClient_def)
  moreover have "p_Rows ?p = int row \<and> p_Status ?p = ''Success''" by (simp add: Let_def add_issue_def)
  ultimately show ?thesis by blast
qed

lemma run_defs:
  "serving c True col row len (length ds) eof \<Longrightarrow> \<forall>m \<in> set ds. def_packet m \<Longrightarrow>
   \<exists>p' c'. server_run ts p c ds = (replicate (length ds) [], p', c') \<and> serving c' True col row len 0 eof"
proof (induction ds arbitrary: p c)
  case (Cons m ds)
  from Cons.prems serving_def_packet [of c col row len "length ds" eof m p ts]
  obtain p1 c1 where 1: "pktDecodeServer p c m ts = ([], p1, c1)" "serving c1 True col row len (length ds) eof"
    by auto
  from Cons.IH [OF 1(2), of p1] Cons.prems(2) 1(1) show ?case by auto
qed simp

lemma run_rows:
  "serving c True col row len 0 eof \<Longrightarrow> \<forall>m \<in> set rs. row_packet m \<Longrightarrow>
   \<exists>p' c'. server_run ts p c rs = (replicate (length rs) [], p', c')
     \<and> serving c' True col (row + length rs) (len + sum_list (map length rs)) 0 eof"
proof (induction rs arbitrary: p c row len)
  case (Cons m rs)
  from Cons.prems serving_row [of c col row len eof m p ts]
  obtain p1 c1 where 1: "pktDecodeServer p c m ts = ([], p1, c1)" "serving c1 True col (row + 1) (len + length m) 0 eof"
    by auto
  from Cons.IH [OF 1(2), of p1] Cons.prems(2) 1(1) show ?case by (auto simp: add.assoc)
qed simp

lemma lenenc_small_head:
  assumes "0 < n" "n < 4096"
  shows "lenenc n \<noteq> []" "lenenc n ! 0 \<notin> {0, 0xff, 0xfe, 0xfb}"
proof -
  show "lenenc n \<noteq> []" by (simp add: lenenc_def)
  have "(of_nat n :: byte) \<noteq> 0 \<and> (of_nat n :: byte) \<noteq> 0xff \<and> (of_nat n :: byte) \<noteq> 0xfe \<and> (of_nat n :: byte) \<noteq> 0xfb"
    if "n < 251"
  proof -
    have u: "unat (of_nat n :: byte) = n" using that by (simp add: unat_of_nat take_bit_eq_mod)
    show ?thesis
      by (insert u assms(1) that, intro conjI notI; drule arg_cong [where f = "unat :: byte \<Rightarrow> nat"]; simp)
  qed
  then show "lenenc n ! 0 \<notin> {0, 0xff, 0xfe, 0xfb}" using assms(2) by (simp add: lenenc_def)
qed

lemma serving_open:
  assumes "serving c False col row len 0 eof" "0 < n" "n < 4096"
  shows "\<exists>p' c'. pktDecodeServer p c (lenenc n) ts = (''Result set: '' @ go_utoa n @ '' column(s)'', p', c')
    \<and> serving c' True n 0 0 n True"
proof -
  obtain p1 c1 where nl: "note_latency ts p c = (p1, c1)" by (cases "note_latency ts p c")
  note s = note_latency_serving [OF nl assms(1)]
  note h = lenenc_small_head [OF assms(2,3)]
  have li: "pktLenEncInt (lenenc n) = Some (of_nat n, length (lenenc n))"
    using pktLenEncInt_lenenc [of n "[]"] assms(3) by simp
  have u: "unat (of_nat n :: 64 word) = n" using assms(3) by (simp add: unat_of_nat take_bit_eq_mod)
  have lt: "(0 :: 64 word) < of_nat n" "(of_nat n :: 64 word) < 4096"
    using u assms(2,3) by (simp_all add: word_less_nat_alt)
  let ?c = "c1\<lparr>c_s2c := (c_s2c c1)\<lparr>ds_inResults := True, ds_resultCol := n, ds_pendingDefs := n,
                ds_expectDefsEOF := True, ds_resultRow := 0, ds_resultLen := 0\<rparr>\<rparr>"
  have "pktDecodeServer p c (lenenc n) ts = (''Result set: '' @ go_utoa n @ '' column(s)'', p1, ?c)"
    using s h lt pktDecodeServer_serving [OF assms(1) h(1), of p ts]
    by (simp add: decode_response_def nl Let_def serving_def server_response_def li u)
  moreover have "serving ?c True n 0 0 n True" using s by (simp add: serving_def)
  ultimately show ?thesis by blast
qed

section \<open>Properties\<close>

text \<open>
  C26. A result set is counted exactly. On a connection past its login, with nothing pending:
  a column count \<open>n\<close>, \<open>n\<close> definition packets, the EOF that a classic server sends after them
  or none, any rows, and the terminator are reported as a result set of \<open>n\<close> columns that
  completes with exactly as many rows as there were row packets and their total size; the
  packets in between produce no line, and the connection is back where it started, ready for
  the next response. A row may be anything a server sends: also one that begins with the byte
  0xfe of an eight-byte length, which is told from the terminator by its size.
\<close>

theorem result_set_counted:
  assumes "serving c False col0 row0 len0 0 eof0" and "0 < n" "n < 4096"
    and "length ds = n" "\<forall>m \<in> set ds. def_packet m"
    and "eofs = [] \<or> (\<exists>e. eofs = [e] \<and> e \<noteq> [] \<and> e ! 0 = 0xfe \<and> length e \<le> 5)"
    and "\<forall>m \<in> set rows. row_packet m"
    and "t \<noteq> []" "t ! 0 = 0xfe" "length t \<le> pktEOFMaxLen" "eofs = [] \<and> rows = [] \<longrightarrow> length t > 5"
  shows "\<exists>p' c'. server_run ts p c ([lenenc n] @ ds @ eofs @ rows @ [t]) =
      ([''Result set: '' @ go_utoa n @ '' column(s)''] @ replicate (n + length eofs + length rows) []
         @ [result_line (length rows) n (sum_list (map length rows))], p', c')
    \<and> p_Rows p' = int (length rows) \<and> p_Status p' = ''Success'' \<and> serving c' False 0 0 0 0 False"
proof -
  obtain p1 c1 where 1: "pktDecodeServer p c (lenenc n) ts = (''Result set: '' @ go_utoa n @ '' column(s)'', p1, c1)"
    "serving c1 True n 0 0 n True" using serving_open [OF assms(1-3)] by blast
  obtain p2 c2 where 2: "server_run ts p1 c1 ds = (replicate n [], p2, c2)" "serving c2 True n 0 0 0 True"
    using run_defs [of c1 n 0 0 ds True ts p1] 1(2) assms(4,5) by auto
  obtain p3 c3 where 3: "server_run ts p2 c2 eofs = (replicate (length eofs) [], p3, c3)"
    "serving c3 True n 0 0 0 (eofs = [])"
  proof (cases "eofs = []")
    case True
    then show ?thesis using 2(2) by (intro that [of p2 c2]) simp_all
  next
    case False
    then obtain e where e: "eofs = [e]" "e \<noteq> []" "e ! 0 = 0xfe" "length e \<le> 5" using assms(6) by blast
    from serving_defs_eof [OF 2(2) e(4,2,3), of p2 ts] obtain p3 c3
      where "pktDecodeServer p2 c2 e ts = ([], p3, c3)" "serving c3 True n 0 0 0 False" by blast
    with e(1) show ?thesis by (intro that [of p3 c3]) simp_all
  qed
  obtain p4 c4 where 4: "server_run ts p3 c3 rows = (replicate (length rows) [], p4, c4)"
    "serving c4 True n (length rows) (sum_list (map length rows)) 0 (eofs = [])"
    using run_rows [OF 3(2) assms(7), of ts p3] by auto
  have "\<not> (eofs = [] \<and> length rows = 0 \<and> length t \<le> 5)" using assms(11) by auto
  from serving_end [OF 4(2) assms(8-10) this, of p4 ts] obtain p5 c5 where
    5: "pktDecodeServer p4 c4 t ts = (result_line (length rows) n (sum_list (map length rows)), p5, c5)"
    "serving c5 False 0 0 0 0 False" "p_Rows p5 = int (length rows)" "p_Status p5 = ''Success''" by blast
  show ?thesis
    by (intro exI [of _ p5] exI [of _ c5])
      (simp add: server_run_append 1 2 3 4 5 replicate_add [symmetric])
qed

lemma result_set_counted_witness:
  "\<exists>p' c'. server_run 0 new_packet (new_conn\<lparr>c_s2c := new_dir\<lparr>ds_synced := True\<rparr>\<rparr>)
      [[1], [3, 0x64], [0xfe, 0, 0, 2, 0], [1, 0x31], [0xfb], [0xfe, 0, 0, 2, 0]] =
      ([''Result set: 1 column(s)'', [], [], [], [], ''Result set complete: 2 row(s), 1 column(s), 3 B''], p', c')
    \<and> p_Rows p' = 2"
proof -
  let ?c = "new_conn\<lparr>c_s2c := new_dir\<lparr>ds_synced := True\<rparr>\<rparr>"
  have s: "serving ?c False 0 0 0 0 False" by (simp add: serving_def new_conn_def new_dir_def)
  have d: "\<forall>m \<in> set [[3, 0x64]]. def_packet m" "\<forall>m \<in> set [[1, 0x31], [0xfb]]. row_packet m"
    by (simp_all add: def_packet_def row_packet_def pktLooksBinlogEvent_def)
  have l: "lenenc 1 = [1]" "go_utoa 1 = ''1''" "go_utoa 2 = ''2''" "go_utoa 3 = ''3''" by code_simp+
  have ms: "[lenenc 1] @ [[3, 0x64]] @ [[0xfe, 0, 0, 2, 0]] @ [[1, 0x31], [0xfb]] @ [[0xfe, 0, 0, 2, 0]] =
      [[1], [3, 0x64], [0xfe, 0, 0, 2, 0], [1, 0x31], [0xfb], [0xfe, 0, 0, 2, 0]]"
    using l(1) by simp
  have infos: "[''Result set: '' @ go_utoa 1 @ '' column(s)'']
        @ replicate (1 + length [[0xfe, 0, 0, 2, 0 :: byte]] + length [[1, 0x31], [0xfb :: byte]]) []
        @ [result_line (length [[1, 0x31], [0xfb :: byte]]) 1 (sum_list (map length [[1, 0x31], [0xfb :: byte]]))] =
      [''Result set: 1 column(s)'', [], [], [], [], ''Result set complete: 2 row(s), 1 column(s), 3 B'']"
    using l(2-) by (simp add: result_line_def pktBytes_def eval_nat_numeral)
  have e: "[[0xfe, 0, 0, 2, 0]] = [] \<or>
      (\<exists>e. [[0xfe, 0, 0, 2, 0]] = [e] \<and> e \<noteq> [] \<and> e ! 0 = (0xfe :: byte) \<and> length e \<le> 5)" by simp
  have "\<exists>p' c'. server_run 0 new_packet ?c
      ([lenenc 1] @ [[3, 0x64]] @ [[0xfe, 0, 0, 2, 0]] @ [[1, 0x31], [0xfb]] @ [[0xfe, 0, 0, 2, 0]]) =
      ([''Result set: '' @ go_utoa 1 @ '' column(s)'']
        @ replicate (1 + length [[0xfe, 0, 0, 2, 0 :: byte]] + length [[1, 0x31], [0xfb :: byte]]) []
        @ [result_line (length [[1, 0x31], [0xfb :: byte]]) 1 (sum_list (map length [[1, 0x31], [0xfb :: byte]]))], p', c')
      \<and> p_Rows p' = int (length [[1, 0x31], [0xfb :: byte]]) \<and> p_Status p' = ''Success'' \<and> serving c' False 0 0 0 0 False"
    by (rule result_set_counted [OF s _ _ _ d(1) e d(2)]) (simp_all add: pktEOFMaxLen_def)
  then show ?thesis unfolding ms infos by auto
qed

section \<open>The switch to TLS\<close>

text \<open>The frames of a connection one after the other: the row made of each, and the connection after the last one.\<close>

fun app_run :: "pktConn \<Rightarrow> (pktPacket \<times> bool \<times> bytes \<times> int) list \<Rightarrow> pktPacket list \<times> pktConn" where
  "app_run c [] = ([], c)"
| "app_run c ((p, fc, b, ts) # fs) =
     (case pktAppDecode p c fc b ts of (p', c') \<Rightarrow>
        (case app_run c' fs of (ps, c'') \<Rightarrow> (p' # ps, c'')))"

lemma app_summary_conn: "snd (app_summary payload fc r) = fst (snd r)"
  by (simp add: app_summary_def Let_def split: prod.split)

text \<open>A client that has not answered the greeting yet, with nothing waiting to be completed.\<close>

definition before_login :: "pktConn \<Rightarrow> bool" where
  "before_login c \<longleftrightarrow> c_synced c \<and> \<not> ds_greeted (c_c2s c) \<and> \<not> c_tls c \<and> \<not> c_compressed c \<and> \<not> c_sslRequested c"

text \<open>An SSLRequest: the first 4 bytes hold the capabilities, with the SSL bit; at most 36 bytes.\<close>

definition ssl_request :: "bytes \<Rightarrow> bool" where
  "ssl_request msg \<longleftrightarrow> 4 \<le> length msg \<and> length msg \<le> 36 \<and> bit (le_u32 msg) 11"

lemma capSSL_bit: "(of_nat n :: 32 word) AND capSSL \<noteq> 0 \<longleftrightarrow> bit n 11"
proof -
  have "capSSL = push_bit 11 1" by (simp add: capSSL_def)
  then have "(of_nat n :: 32 word) AND capSSL \<noteq> 0 \<longleftrightarrow> bit (of_nat n :: 32 word) 11"
    by (metis and_exp_eq_0_iff_not_bit push_bit_of_1)
  then show ?thesis by (simp add: bit_simps)
qed

text \<open>The connection once the SSLRequest numbered \<open>seq\<close> was read.\<close>

definition after_ssl_request :: "byte \<Rightarrow> pktConn \<Rightarrow> pktConn" where
  "after_ssl_request seq c = c\<lparr>c_c2s := (c_c2s c)\<lparr>ds_greeted := True, ds_buf := []\<rparr>, c_sslRequested := True,
     c_haveSeqByte := True, c_nextSeqByte := seq + 1\<rparr>"

lemma frames_strict_prefix: "xs @ ys = mysql_frames seq msg \<Longrightarrow> ys \<noteq> [] \<Longrightarrow> pktNextMySQL xs = None"
proof (rule ccontr)
  assume a: "xs @ ys = mysql_frames seq msg" "ys \<noteq> []" "pktNextMySQL xs \<noteq> None"
  then obtain m n where m: "pktNextMySQL xs = Some (m, n)" by auto
  from mysql.rd_stable [OF this, of ys] have "n = length (xs @ ys)"
    using mysql_read_frames [of seq msg "[]"] a(1) by (simp add: pktNextMySQL_read)
  with mysql.rd_within [OF m] a(2) show False by simp
qed

lemma app_ssl_part:
  assumes "before_login c" and "pktNextMySQL (ds_buf (c_c2s c) @ b) = None"
  shows "snd (pktAppDecode p c True b ts) = c\<lparr>c_c2s := (c_c2s c)\<lparr>ds_buf := ds_buf (c_c2s c) @ b\<rparr>\<rparr>"
  using assms
  by (simp add: pktAppDecode_def before_login_def app_summary_conn dir_of_def set_dir_def Let_def app_loop.simps)

lemma app_ssl_request:
  assumes c: "before_login c" and m: "ssl_request msg" and b: "ds_buf (c_c2s c) @ b = mysql_frames seq msg @ rest"
    and r: "pktNextMySQL rest = None"
  shows "snd (pktAppDecode p c True b ts) =
      (after_ssl_request seq c)\<lparr>c_c2s := (c_c2s (after_ssl_request seq c))\<lparr>ds_buf := rest\<rparr>\<rparr>
    \<and> p_Query (fst (pktAppDecode p c True b ts)) = ''-- SSLRequest: connection switches to TLS here''
    \<and> p_Status (fst (pktAppDecode p c True b ts)) = ''Encrypted'' \<and> p_Proto (fst (pktAppDecode p c True b ts)) = ''MySQL''"
proof -
  let ?c1 = "c\<lparr>c_c2s := (c_c2s c)\<lparr>ds_buf := mysql_frames seq msg @ rest\<rparr>\<rparr>"
  let ?c2 = "c\<lparr>c_c2s := (c_c2s c)\<lparr>ds_buf := rest\<rparr>\<rparr>"
  let ?c3 = "(note_seq seq ?c2)\<lparr>c_c2s := (c_c2s c)\<lparr>ds_buf := rest, ds_greeted := True\<rparr>, c_sslRequested := True\<rparr>"
  let ?p = "p\<lparr>p_Status := ''Encrypted'', p_Query := ''-- SSLRequest: connection switches to TLS here''\<rparr>"
  have len: "length msg div 0xffffff = 0" "msg \<noteq> []" "\<not> length msg < 4" using m by (auto simp: ssl_request_def)
  have n: "pktNextMySQL (mysql_frames seq msg @ rest) = Some ((msg, seq, seq), length (mysql_frames seq msg))"
    using mysql_read_frames [of seq msg rest] len by (simp add: pktNextMySQL_read)
  have one: "decode_one True p (note_seq seq ?c2) msg ts = (''SSLRequest '' @ em_dash @ '' TLS starts, payload no longer readable'', ?p, ?c3)"
    using c m len by (simp add: decode_one_def pktDecodeClient_def note_seq_def before_login_def pktDecodeHandshakeResponse_def
        Let_def ssl_request_def capSSL_bit)
  have t: "\<not> c_tls ?c3" using c by (simp add: before_login_def note_seq_def)
  have l: "app_loop True ts p ?c1 [] [] 0 = (?p, ?c3, [''SSLRequest '' @ em_dash @ '' TLS starts, payload no longer readable''], seq_note True ?c2 seq [], 1)"
    using n one t r by (simp add: app_loop.simps [of True ts p ?c1] app_loop.simps [of True ts ?p ?c3] dir_of_def set_dir_def Let_def)
  have "pktAppDecode p c True b ts = app_summary b True (app_loop True ts p ?c1 [] [] 0)"
    using c b by (simp add: pktAppDecode_def before_login_def dir_of_def set_dir_def Let_def)
  then show ?thesis unfolding l
    by (simp add: app_summary_def Let_def add_issue_def after_ssl_request_def note_seq_def)
qed

text \<open>The SSLRequest in any number of segments of the client.\<close>

definition frame_bytes :: "pktPacket \<times> bool \<times> bytes \<times> int \<Rightarrow> bytes" where
  "frame_bytes f = fst (snd (snd f))"

definition from_client :: "pktPacket \<times> bool \<times> bytes \<times> int \<Rightarrow> bool" where
  "from_client f = fst (snd f)"

lemma frame_parts [simp]: "frame_bytes (p, fc, b, ts) = b" "from_client (p, fc, b, ts) = fc"
  by (simp_all add: frame_bytes_def from_client_def)

lemma app_run_ssl_request:
  assumes "before_login c" and "ssl_request msg" and "ds_buf (c_c2s c) @ concat (map frame_bytes req) = mysql_frames seq msg"
    and "\<forall>f \<in> set req. from_client f \<and> frame_bytes f \<noteq> []" and "req \<noteq> []"
  shows "\<exists>rows. app_run c req = (rows, after_ssl_request seq c)
    \<and> rows \<noteq> [] \<and> p_Query (last rows) = ''-- SSLRequest: connection switches to TLS here''
    \<and> p_Status (last rows) = ''Encrypted''"
  using assms
proof (induction req arbitrary: c)
  case (Cons s req)
  obtain p b ts where s: "s = (p, True, b, ts)" using Cons.prems(4) by (cases s) auto
  show ?case
  proof (cases "req = []")
    case True
    have b: "ds_buf (c_c2s c) @ b = mysql_frames seq msg @ []" using Cons.prems(3) True by (simp add: s)
    have "pktNextMySQL [] = None" by (simp add: pktNextMySQL_read mysql_read.simps)
    note r = app_ssl_request [OF Cons.prems(1,2) b this, of p ts]
    have "(after_ssl_request seq c)\<lparr>c_c2s := (c_c2s (after_ssl_request seq c))\<lparr>ds_buf := []\<rparr>\<rparr> = after_ssl_request seq c"
      by (simp add: after_ssl_request_def)
    then show ?thesis using r by (auto simp: s True split: prod.split)
  next
    case False
    then have ne: "concat (map frame_bytes req) \<noteq> []" using Cons.prems(4) by (cases req) auto
    let ?c = "c\<lparr>c_c2s := (c_c2s c)\<lparr>ds_buf := ds_buf (c_c2s c) @ b\<rparr>\<rparr>"
    have cat: "(ds_buf (c_c2s c) @ b) @ concat (map frame_bytes req) = mysql_frames seq msg"
      using Cons.prems(3) by (simp add: s)
    note part = app_ssl_part [OF Cons.prems(1) frames_strict_prefix [OF cat ne], of p ts]
    have c: "before_login ?c" "ds_buf (c_c2s ?c) @ concat (map frame_bytes req) = mysql_frames seq msg"
      "after_ssl_request seq ?c = after_ssl_request seq c"
      using Cons.prems(1) cat by (simp_all add: before_login_def after_ssl_request_def)
    from Cons.IH [OF c(1) Cons.prems(2) c(2) _ False] Cons.prems(4) c(3) obtain rows where
      "app_run ?c req = (rows, after_ssl_request seq c)" "rows \<noteq> []"
      "p_Query (last rows) = ''-- SSLRequest: connection switches to TLS here''" "p_Status (last rows) = ''Encrypted''"
      by auto
    moreover obtain p' where "pktAppDecode p c True b ts = (p', ?c)" using part by (metis prod.collapse)
    ultimately show ?thesis by (simp add: s)
  qed
qed simp

text \<open>What is left of a frame that was taken for ciphertext: everything a decoder could have set is as it was.\<close>

definition unread :: "pktPacket \<Rightarrow> pktPacket \<Rightarrow> bytes \<Rightarrow> bool \<Rightarrow> bool" where
  "unread p p' b sealed \<longleftrightarrow> p_Proto p' = ''TLS'' \<and> p_Status p' = ''Encrypted'' \<and> p_Info p' = pktTLSInfo b sealed
     \<and> p_Query p' = p_Query p \<and> p_Command p' = p_Command p \<and> p_Rows p' = p_Rows p \<and> p_ErrCode p' = p_ErrCode p
     \<and> p_ErrState p' = p_ErrState p \<and> p_LagNS p' = p_LagNS p"

lemma app_tls_frame:
  assumes "c_tls c"
  shows "unread p (fst (pktAppDecode p c fc b ts)) b (c_tlsSealed c)
    \<and> snd (pktAppDecode p c fc b ts) = c\<lparr>c_tlsSealed := c_tlsSealed c \<or> pktTLSSeals b\<rparr>"
  using assms by (auto simp: pktAppDecode_def unread_def Let_def add_issue_def)

lemma app_run_tls:
  assumes "c_tls c"
  shows "case app_run c fs of (rows, c') \<Rightarrow> length rows = length fs
    \<and> (\<forall>i < length fs. unread (fst (fs ! i)) (rows ! i) (frame_bytes (fs ! i))
          (c_tlsSealed c \<or> (\<exists>j < i. pktTLSSeals (frame_bytes (fs ! j)))))
    \<and> c' = c\<lparr>c_tlsSealed := c_tlsSealed c \<or> (\<exists>f \<in> set fs. pktTLSSeals (frame_bytes f))\<rparr>"
  using assms
proof (induction fs arbitrary: c)
  case (Cons f fs)
  obtain p fc b ts where f: "f = (p, fc, b, ts)" by (metis prod_cases4)
  obtain p' where d: "pktAppDecode p c fc b ts = (p', c\<lparr>c_tlsSealed := c_tlsSealed c \<or> pktTLSSeals b\<rparr>)"
    and u: "unread p p' b (c_tlsSealed c)"
    using app_tls_frame [OF Cons.prems, of p fc b ts] by (metis prod.collapse)
  let ?c = "c\<lparr>c_tlsSealed := c_tlsSealed c \<or> pktTLSSeals b\<rparr>"
  obtain rows c' where r: "app_run ?c fs = (rows, c')" by fastforce
  have "c_tls ?c" using Cons.prems by simp
  from Cons.IH [OF this] have ih: "length rows = length fs"
    "\<forall>i < length fs. unread (fst (fs ! i)) (rows ! i) (frame_bytes (fs ! i))
       (c_tlsSealed ?c \<or> (\<exists>j < i. pktTLSSeals (frame_bytes (fs ! j))))"
    "c' = c\<lparr>c_tlsSealed := c_tlsSealed ?c \<or> (\<exists>f \<in> set fs. pktTLSSeals (frame_bytes f))\<rparr>"
    unfolding r by simp_all
  have "unread (fst ((f # fs) ! i)) ((p' # rows) ! i) (frame_bytes ((f # fs) ! i))
      (c_tlsSealed c \<or> (\<exists>j < i. pktTLSSeals (frame_bytes ((f # fs) ! j))))" if "i < length (f # fs)" for i
    using ih(2) that u by (cases i) (auto simp: f Ex_less_Suc2)
  then show ?case using ih(1,3) by (simp add: f d r disj_assoc)
qed simp

text \<open>
  C27. The switch to TLS. A client that has not logged in yet sends its SSLRequest, cut into
  segments in any way, and the next frame of the connection, of either side, starts with a TLS
  record. Then the frame that completes the request says so, the request leaves nothing in the
  buffer, and of that frame and every later one nothing is read as MySQL: each is a TLS row
  whose query, command, rows, error and latency are as they were before the decoder, described by
  its records and by whether the handshake was sealed before it, and the connection changes in
  nothing but the two flags for TLS and for a sealed handshake.
\<close>

theorem tls_switch_reads_nothing:
  assumes "before_login c" and "ds_buf (c_c2s c) = []" and "ssl_request msg"
    and "concat (map frame_bytes req) = mysql_frames seq msg" and "\<forall>f \<in> set req. from_client f \<and> frame_bytes f \<noteq> []"
    and "fs \<noteq> []" and "pktLooksTLS (frame_bytes (hd fs))"
  shows "\<exists>rows c1 rows' c2. app_run c req = (rows, c1) \<and> app_run c1 fs = (rows', c2)
    \<and> rows \<noteq> [] \<and> p_Query (last rows) = ''-- SSLRequest: connection switches to TLS here'' \<and> p_Status (last rows) = ''Encrypted''
    \<and> ds_buf (c_c2s c1) = [] \<and> \<not> c_tls c1 \<and> c_tls c2
    \<and> length rows' = length fs
    \<and> (\<forall>i < length fs. unread (fst (fs ! i)) (rows' ! i) (frame_bytes (fs ! i)) (\<exists>j < i. pktTLSSeals (frame_bytes (fs ! j))))
    \<and> c2 = c1\<lparr>c_tls := True, c_tlsSealed := \<exists>f \<in> set fs. pktTLSSeals (frame_bytes f)\<rparr>"
proof -
  have "length (mysql_frames seq msg) \<noteq> 0" by (simp add: mysql_frames.simps [of seq msg])
  then have "req \<noteq> []" using assms(4) by auto
  from app_run_ssl_request [OF assms(1,3) _ assms(5) this] assms(2,4) obtain rows where
    r: "app_run c req = (rows, after_ssl_request seq c)" "rows \<noteq> []"
      "p_Query (last rows) = ''-- SSLRequest: connection switches to TLS here''" "p_Status (last rows) = ''Encrypted''" by auto
  let ?c = "after_ssl_request seq c"
  obtain p fc b ts gs where fs: "fs = (p, fc, b, ts) # gs" using assms(6) by (metis list.exhaust prod_cases4)
  have flags: "\<not> c_tls ?c" "\<not> c_compressed ?c" "c_sslRequested ?c" "ds_buf (c_c2s ?c) = []"
    using assms(1) by (simp_all add: before_login_def after_ssl_request_def)
  let ?d = "?c\<lparr>c_tls := True, c_tlsSealed := pktTLSSeals b\<rparr>"
  have "pktLooksTLS b" using assms(7) by (simp add: fs)
  then obtain p' where first: "pktAppDecode p ?c fc b ts = (p', ?d)" and u: "unread p p' b False"
    using flags by (simp add: pktAppDecode_def unread_def)
  obtain rows' c2 where r2: "app_run ?d gs = (rows', c2)" by fastforce
  have "c_tls ?d" by simp
  note t = app_run_tls [OF this, of gs, unfolded r2 prod.case]
  have "unread (fst (fs ! i)) ((p' # rows') ! i) (frame_bytes (fs ! i)) (\<exists>j < i. pktTLSSeals (frame_bytes (fs ! j)))"
    if "i < length fs" for i
    using t that u by (cases i) (auto simp: fs Ex_less_Suc2)
  moreover have "app_run ?c fs = (p' # rows', c2)" by (simp add: fs first r2)
  moreover have "c2 = ?c\<lparr>c_tls := True, c_tlsSealed := \<exists>f \<in> set fs. pktTLSSeals (frame_bytes f)\<rparr>" using t by (simp add: fs)
  moreover have "c_tls c2" "length (p' # rows') = length fs" using t by (simp_all add: fs)
  ultimately show ?thesis using r flags by blast
qed

definition ex_ssl :: bytes where
  "ex_ssl = [0, 8, 0, 0] @ replicate 28 0"

definition ex_hello :: bytes where
  "ex_hello = [0x16, 3, 1, 0, 2, 1, 0]"

lemma ex_ssl_frame: "mysql_frames 1 ex_ssl = [32, 0, 0, 1, 0] @ [8] @ replicate 30 0"
  by (simp add: mysql_frames.simps ex_ssl_def le_enc_3 flip: replicate_Suc)

lemma ex_ssl_request: "ssl_request ex_ssl"
  by (simp add: ssl_request_def ex_ssl_def le_u32_def bit_simps)

lemma tls_switch_reads_nothing_witness:
  "\<exists>rows c1 rows' c2.
     app_run (new_conn\<lparr>c_synced := True\<rparr>) [(new_packet, True, [32, 0, 0, 1, 0], 0), (new_packet, True, [8] @ replicate 30 0, 1)] = (rows, c1)
     \<and> app_run c1 [(new_packet, True, ex_hello, 2), (new_packet, False, [0x16, 3, 3, 0, 1, 2], 3)] = (rows', c2)
     \<and> p_Query (last rows) = ''-- SSLRequest: connection switches to TLS here''
     \<and> length rows' = 2 \<and> unread new_packet (rows' ! 1) [0x16, 3, 3, 0, 1, 2] (pktTLSSeals ex_hello)
     \<and> c_tls c2 \<and> c2 = c1\<lparr>c_tls := True, c_tlsSealed := True\<rparr>"
proof -
  let ?c = "new_conn\<lparr>c_synced := True\<rparr>"
  let ?req = "[(new_packet, True, [32, 0, 0, 1, 0], 0), (new_packet, True, [8] @ replicate 30 0, 1)]"
  let ?fs = "[(new_packet, True, ex_hello, 2), (new_packet, False, [0x16, 3, 3, 0, 1, 2], 3)]"
  have b: "before_login ?c" "ds_buf (c_c2s ?c) = []" by (simp_all add: before_login_def new_conn_def new_dir_def)
  have f: "concat (map frame_bytes ?req) = mysql_frames 1 ex_ssl" "\<forall>f \<in> set ?req. from_client f \<and> frame_bytes f \<noteq> []"
    by (simp_all add: ex_ssl_frame)
  have h: "?fs \<noteq> []" "pktLooksTLS (frame_bytes (hd ?fs))" by (simp_all add: pktLooksTLS_def ex_hello_def)
  have s: "pktTLSSeals [0x16, 3, 3, 0, 1, 2]" by (simp add: pktTLSSeals.simps be_u16_def be_nat_def)
  from tls_switch_reads_nothing [OF b ex_ssl_request f h] s show ?thesis
    by (fastforce simp: Ex_less_Suc2)
qed

text \<open>
  Not so when the ClientHello shares the segment of the SSLRequest, which the comments of
  \<^verbatim>\<open>pktAppDecode\<close> allow for: the connection is not taken for encrypted by that frame, and the
  hello stays in the buffer of the client's direction as the start of a MySQL packet.
\<close>

theorem tls_hello_shares_segment:
  assumes "before_login c" and "ds_buf (c_c2s c) = []" and "ssl_request msg" and "pktNextMySQL hello = None"
  shows "\<not> c_tls (snd (pktAppDecode p c True (mysql_frames seq msg @ hello) ts))
    \<and> ds_buf (c_c2s (snd (pktAppDecode p c True (mysql_frames seq msg @ hello) ts))) = hello"
  using app_ssl_request [OF assms(1,3) _ assms(4), of "mysql_frames seq msg @ hello" seq p ts] assms(1,2)
  by (simp add: before_login_def after_ssl_request_def)

lemma tls_hello_shares_segment_witness:
  "pktLooksTLS ex_hello
   \<and> ds_buf (c_c2s (snd (pktAppDecode new_packet (new_conn\<lparr>c_synced := True\<rparr>) True (mysql_frames 1 ex_ssl @ ex_hello) 0))) = ex_hello"
proof -
  have "pktNextMySQL ex_hello = None" by (simp add: pktNextMySQL_read ex_hello_def mysql_read.simps u24_def)
  from tls_hello_shares_segment [OF _ _ ex_ssl_request this, of "new_conn\<lparr>c_synced := True\<rparr>"] show ?thesis
    by (simp add: before_login_def new_conn_def new_dir_def pktLooksTLS_def ex_hello_def)
qed

text \<open>
  So a frame makes a connection encrypted only when TLS was asked for in an earlier frame and it
  starts with a TLS record: the drain loop's branch for a connection that turns to TLS inside
  the loop is never taken. A frame that is read is drained to the last complete packet.
\<close>

theorem pktAppDecode_encryption:
  "(c_tls (snd (pktAppDecode p c fc payload ts)) \<longleftrightarrow>
      c_tls c \<or> (\<not> c_compressed c \<and> c_sslRequested c \<and> pktLooksTLS payload))
   \<and> (\<not> c_tls c \<and> \<not> c_compressed c \<and> \<not> (c_sslRequested c \<and> pktLooksTLS payload) \<longrightarrow>
        pktNextMySQL (ds_buf (dir_of fc (snd (pktAppDecode p c fc payload ts)))) = None)"
  by (auto simp: pktAppDecode_def Let_def app_summary_conn app_loop_tls intro!: app_loop_buf)

text \<open>
  The one error message that is shown as it came: when a server refuses a connection
  before its greeting, the text of its ERR packet reaches the frame's line and its status
  without \<^const>\<open>pktPrintable\<close>, control bytes included, unlike the text of every other ERR
  packet. Here an escape sequence passes.
\<close>

theorem greeting_error_unfiltered:
  "\<exists>msg. CHR 0x1b \<in> set (info_of (pktDecodeServer new_packet (new_conn\<lparr>c_synced := True\<rparr>) msg 0))
     \<and> CHR 0x1b \<in> set (p_Status (fst (snd (pktDecodeServer new_packet (new_conn\<lparr>c_synced := True\<rparr>) msg 0))))"
proof -
  let ?msg = "[0xff, 0x10, 0x04, 0x1b, 0x5b, 0x41]"
  have t: "go_TrimSpace [CHR 0x1b, CHR ''['', CHR ''A''] = [CHR 0x1b, CHR ''['', CHR ''A'']" by code_simp
  have ch: "char_of (27 :: nat) = CHR 0x1b" "char_of (91 :: nat) = CHR ''[''" "char_of (65 :: nat) = CHR ''A''" by code_simp+
  have e: "pktParseERR ?msg = (1040, [], [CHR 0x1b, CHR ''['', CHR ''A''])"
    using t ch by (simp add: pktParseERR_def le_u16_def)
  show ?thesis
    by (intro exI [of _ ?msg])
      (simp add: pktDecodeServer_def new_conn_def new_dir_def pktDecodeGreeting_def e note_error_def
        add_issue_def err_status_def pktEllipsis_def)
qed

end
