(* ===== verification/Bson.thy ===== *)
theory Bson
  imports Mysql_Wire
begin

text \<open>
  The BSON reader of the packet inspector (\<^verbatim>\<open>src/app/pktbson.go\<close>): walking a document's elements
  in order on bytes that may be cut short or not be BSON at all, and the accessors the MongoDB
  decoder uses. Values are kept encoded, as the code keeps them. The one-line rendering of
  values is not modelled.
\<close>

section \<open>Element types\<close>

definition bsonDouble :: byte where "bsonDouble = 0x01"
definition bsonString :: byte where "bsonString = 0x02"
definition bsonDoc :: byte where "bsonDoc = 0x03"
definition bsonArray :: byte where "bsonArray = 0x04"
definition bsonBinary :: byte where "bsonBinary = 0x05"
definition bsonUndef :: byte where "bsonUndef = 0x06"
definition bsonObjectID :: byte where "bsonObjectID = 0x07"
definition bsonBool :: byte where "bsonBool = 0x08"
definition bsonDate :: byte where "bsonDate = 0x09"
definition bsonNull :: byte where "bsonNull = 0x0a"
definition bsonRegex :: byte where "bsonRegex = 0x0b"
definition bsonDBPtr :: byte where "bsonDBPtr = 0x0c"
definition bsonCode :: byte where "bsonCode = 0x0d"
definition bsonSymbol :: byte where "bsonSymbol = 0x0e"
definition bsonCodeWS :: byte where "bsonCodeWS = 0x0f"
definition bsonInt32 :: byte where "bsonInt32 = 0x10"
definition bsonTimestmp :: byte where "bsonTimestmp = 0x11"
definition bsonInt64 :: byte where "bsonInt64 = 0x12"
definition bsonDecimal :: byte where "bsonDecimal = 0x13"
definition bsonMinKey :: byte where "bsonMinKey = 0xff"
definition bsonMaxKey :: byte where "bsonMaxKey = 0x7f"

lemmas bson_type_defs = bsonDouble_def bsonString_def bsonDoc_def bsonArray_def bsonBinary_def bsonUndef_def
  bsonObjectID_def bsonBool_def bsonDate_def bsonNull_def bsonRegex_def bsonDBPtr_def bsonCode_def bsonSymbol_def
  bsonCodeWS_def bsonInt32_def bsonTimestmp_def bsonInt64_def bsonDecimal_def bsonMinKey_def bsonMaxKey_def

definition bsonMaxDoc :: int where
  "bsonMaxDoc = push_bit 20 64"

record bsonElem =
  be_Type :: byte
  be_Key :: string
  be_Raw :: bytes

section \<open>Reading\<close>

definition bsonDocOK :: "bytes \<Rightarrow> bool" where
  "bsonDocOK b =
     (if length b < 5 then False
      else let n = le_i32 b in n \<ge> 5 \<and> n \<le> bsonMaxDoc \<and> n \<le> int (length b) \<and> b ! (nat n - 1) = 0)"

fun bsonCString :: "bytes \<Rightarrow> (string \<times> bytes) option" where
  "bsonCString [] = None"
| "bsonCString (c # b) =
     (if c = 0 then Some ([], b)
      else case bsonCString b of None \<Rightarrow> None | Some (k, r) \<Rightarrow> Some (char_of (unat c) # k, r))"

definition bson_fixed :: "(byte \<times> nat) list" where
  "bson_fixed =
     [(bsonDouble, 8), (bsonObjectID, 12), (bsonBool, 1), (bsonDate, 8), (bsonNull, 0), (bsonUndef, 0),
      (bsonInt32, 4), (bsonTimestmp, 8), (bsonInt64, 8), (bsonDecimal, 16), (bsonMinKey, 0), (bsonMaxKey, 0)]"

definition bsonValueLen :: "byte \<Rightarrow> bytes \<Rightarrow> nat option" where
  "bsonValueLen t b =
     (case map_of bson_fixed t of
        Some n \<Rightarrow> if length b < n then None else Some n
      | None \<Rightarrow>
          if t = bsonString \<or> t = bsonCode \<or> t = bsonSymbol then
            (if length b < 4 then None
             else let n = le_i32 b in
               if n < 1 \<or> 4 + n > int (length b) then None else Some (4 + nat n))
          else if t = bsonDoc \<or> t = bsonArray \<or> t = bsonCodeWS then
            (if length b < 4 then None
             else let n = le_i32 b in
               if n < 5 \<or> n > int (length b) then None else Some (nat n))
          else if t = bsonBinary then
            (if length b < 5 then None
             else let n = le_i32 b in
               if n < 0 \<or> 5 + n > int (length b) then None else Some (5 + nat n))
          else if t = bsonRegex then
            (case bsonCString b of
               None \<Rightarrow> None
             | Some (_, rest) \<Rightarrow>
                 (case bsonCString rest of
                    None \<Rightarrow> None
                  | Some (_, rest2) \<Rightarrow> Some (length b - length rest2)))
          else if t = bsonDBPtr then
            (if length b < 4 then None
             else let n = le_i32 b in
               if n < 1 \<or> 4 + n + 12 > int (length b) then None else Some (4 + nat n + 12))
          else None)"

lemma bsonCString_shorter: "bsonCString b = Some (k, r) \<Longrightarrow> length r < length b"
  by (induction b arbitrary: k) (fastforce split: if_splits option.splits)+

function bsonElems_loop :: "bytes \<Rightarrow> nat \<Rightarrow> bool \<Rightarrow> nat \<Rightarrow> bsonElem list \<Rightarrow> bsonElem list \<times> bool" where
  "bsonElems_loop b n ok pos elems =
     (if pos \<ge> n then (elems, ok)
      else let t = b ! pos in
        if t = 0 then (elems, ok)
        else case bsonCString (slice (pos + 1) n b) of
          None \<Rightarrow> (elems, False)
        | Some (key, rest) \<Rightarrow>
            let pos' = n - length rest in
            case bsonValueLen t (slice pos' n b) of
              None \<Rightarrow> (elems, False)
            | Some sz \<Rightarrow>
                let elems' = elems @ [\<lparr>be_Type = t, be_Key = key, be_Raw = slice pos' (pos' + sz) b\<rparr>] in
                if length elems' \<ge> 256 then (elems', ok)
                else bsonElems_loop b n ok (pos' + sz) elems')"
  by pat_completeness auto
termination
proof (relation "measure (\<lambda>(b, n, ok, pos, elems). n - pos)", goal_cases)
  case (2 b n ok pos elems)
  have "length (slice (pos + 1) n b) \<le> n - (pos + 1)" by (simp add: slice_def)
  with 2 bsonCString_shorter show ?case by fastforce
qed simp

declare bsonElems_loop.simps [simp del]

definition bsonElems :: "bytes \<Rightarrow> bsonElem list \<times> bool" where
  "bsonElems b =
     (if length b < 5 then ([], False)
      else let n = le_i32 b in
        if n < 5 \<or> n > bsonMaxDoc then ([], False)
        else if n > int (length b) then bsonElems_loop b (length b) False 4 []
        else bsonElems_loop b (nat n) True 4 [])"

section \<open>Accessors\<close>

fun bsonGet :: "bsonElem list \<Rightarrow> string \<Rightarrow> bsonElem option" where
  "bsonGet [] key = None"
| "bsonGet (e # es) key = (if be_Key e = key then Some e else bsonGet es key)"

definition bsonStr :: "bsonElem \<Rightarrow> string" where
  "bsonStr e =
     (if be_Type e \<noteq> bsonString \<or> length (be_Raw e) < 5 then []
      else let n = le_i32 (be_Raw e) in
        if n < 1 \<or> 4 + n > int (length (be_Raw e)) then []
        else pktPrintable (str (slice 4 (4 + nat n - 1) (be_Raw e))))"

text \<open>\<open>trunc\<close> is the conversion \<^verbatim>\<open>int64(math.Float64frombits(v))\<close>, which Go leaves to the machine.\<close>

definition bsonInt :: "(64 word \<Rightarrow> int) \<Rightarrow> bsonElem \<Rightarrow> int option" where
  "bsonInt trunc e =
     (let raw = be_Raw e; t = be_Type e in
      if t = bsonInt32 then (if length raw < 4 then None else Some (le_i32 raw))
      else if t = bsonInt64 \<or> t = bsonTimestmp then (if length raw < 8 then None else Some (sint (le_u64 raw)))
      else if t = bsonDouble then (if length raw < 8 then None else Some (trunc (le_u64 raw)))
      else if t = bsonBool then (if length raw < 1 then None else Some (if raw ! 0 \<noteq> 0 then 1 else 0))
      else None)"

definition bsonSub :: "bsonElem \<Rightarrow> bsonElem list" where
  "bsonSub e = (if be_Type e \<noteq> bsonDoc \<and> be_Type e \<noteq> bsonArray then [] else fst (bsonElems (be_Raw e)))"

text \<open>
  A nil slice and an empty one differ in \<^verbatim>\<open>cur == nil\<close> only in when the lookup gives up: in
  both cases nothing is found.
\<close>

fun bsonPath :: "bsonElem list \<Rightarrow> string list \<Rightarrow> bsonElem option" where
  "bsonPath cur [] = None"
| "bsonPath cur [key] = bsonGet cur key"
| "bsonPath cur (key # k2 # ks) =
     (case bsonGet cur key of
        None \<Rightarrow> None
      | Some e \<Rightarrow> if bsonSub e = [] then None else bsonPath (bsonSub e) (k2 # ks))"

section \<open>Lemmas\<close>

text \<open>
  Reading a key or measuring a value depends only on the bytes it takes: more bytes behind them
  change nothing.
\<close>

lemma bsonCString_append: "bsonCString b = Some (k, r) \<Longrightarrow> bsonCString (b @ c) = Some (k, r @ c)"
  by (induction b arbitrary: k) (auto split: if_splits option.splits)

lemma bsonCString_enc: "0 \<notin> set k \<Longrightarrow> bsonCString (k @ 0 # r) = Some (str k, r)"
  by (induction k) auto

lemma bsonCString_None: "bsonCString b = None \<longleftrightarrow> 0 \<notin> set b"
  by (induction b) (auto split: option.split)

lemma bsonValueLen_within: "bsonValueLen t b = Some n \<Longrightarrow> n \<le> length b"
  by (auto simp: bsonValueLen_def Let_def split: if_splits option.splits)

lemma bsonValueLen_append: "bsonValueLen t b = Some n \<Longrightarrow> bsonValueLen t (b @ c) = Some n"
proof -
  assume h: "bsonValueLen t b = Some n"
  show ?thesis
  proof (cases "map_of bson_fixed t")
    case (Some m)
    with h show ?thesis by (auto simp: bsonValueLen_def split: if_splits)
  next
    case None
    show ?thesis
    proof (cases "t = bsonRegex")
      case True
      then have ne: "\<not> (t = bsonString \<or> t = bsonCode \<or> t = bsonSymbol)" "\<not> (t = bsonDoc \<or> t = bsonArray \<or> t = bsonCodeWS)"
        "t \<noteq> bsonBinary" by (simp_all add: bson_type_defs)
      from h None True ne obtain k r k2 r2 where r: "bsonCString b = Some (k, r)" "bsonCString r = Some (k2, r2)"
        "n = length b - length r2"
        by (auto simp: bsonValueLen_def split: option.splits)
      have "length r2 \<le> length b" using bsonCString_shorter [OF r(1)] bsonCString_shorter [OF r(2)] by simp
      with r None True ne show ?thesis
        by (simp add: bsonValueLen_def bsonCString_append [OF r(1)] bsonCString_append [OF r(2)])
    next
      case nr: False
      have four: "4 \<le> length b"
        using h None nr by (simp add: bsonValueLen_def Let_def split: if_splits)
      note le = le_i32_append [OF four, of c]
      consider "t = bsonString \<or> t = bsonCode \<or> t = bsonSymbol"
        | "\<not> (t = bsonString \<or> t = bsonCode \<or> t = bsonSymbol)" "t = bsonDoc \<or> t = bsonArray \<or> t = bsonCodeWS"
        | "\<not> (t = bsonString \<or> t = bsonCode \<or> t = bsonSymbol)" "\<not> (t = bsonDoc \<or> t = bsonArray \<or> t = bsonCodeWS)"
        by blast
      then show ?thesis
        by cases (use h None nr four in \<open>auto simp: bsonValueLen_def Let_def le split: if_splits\<close>)
    qed
  qed
qed

lemma bsonCString_suffix: "bsonCString b = Some (k, r) \<Longrightarrow> r = drop (length b - length r) b"
proof (induction b arbitrary: k)
  case (Cons c b)
  show ?case
  proof (cases "c = 0")
    case False
    with Cons.prems obtain k' where "bsonCString b = Some (k', r)" by (auto split: option.splits)
    with Cons.IH bsonCString_shorter [OF this] show ?thesis by (simp add: Suc_diff_le)
  qed (use Cons.prems in simp)
qed simp

text \<open>The walk over the bytes still to read, and that the code's walk by positions is the same.\<close>

function bson_list :: "bool \<Rightarrow> bytes \<Rightarrow> bsonElem list \<Rightarrow> bsonElem list \<times> bool" where
  "bson_list ok [] acc = (acc, ok)"
| "bson_list ok (t # d) acc =
     (if t = 0 then (acc, ok)
      else case bsonCString d of
        None \<Rightarrow> (acc, False)
      | Some (key, r) \<Rightarrow>
          (case bsonValueLen t r of
             None \<Rightarrow> (acc, False)
           | Some sz \<Rightarrow>
               let acc' = acc @ [\<lparr>be_Type = t, be_Key = key, be_Raw = take sz r\<rparr>] in
               if length acc' \<ge> 256 then (acc', ok) else bson_list ok (drop sz r) acc'))"
  by pat_completeness auto
termination
  by (relation "measure (\<lambda>(_, d, _). length d)") (auto dest: bsonCString_shorter)

declare bson_list.simps(2) [simp del]

lemma slice_Cons: "pos < n \<Longrightarrow> n \<le> length b \<Longrightarrow> slice pos n b = b ! pos # slice (pos + 1) n b"
  by (simp add: slice_def Cons_nth_drop_Suc [symmetric] Suc_diff_Suc [symmetric])

lemma slice_tail:
  assumes "n \<le> length b" "r = drop (length (slice p n b) - length r) (slice p n b)" "length r \<le> n - p"
  shows "slice (n - length r) n b = r" "slice (n - length r) (n - length r + sz) b = take sz r \<or> sz > length r"
    "slice (n - length r + sz) n b = drop sz r"
proof -
  have l: "length (slice p n b) = n - p" using assms(1) by simp
  have "drop (n - p - length r) (slice p n b) = slice (n - length r) n b"
  proof (cases "p \<le> n")
    case True
    then show ?thesis using assms(3) by (simp add: slice_def drop_take add.commute)
  qed (use assms(3) in \<open>simp add: slice_def\<close>)
  with assms(2) l show r: "slice (n - length r) n b = r" by simp
  show "slice (n - length r + sz) n b = drop sz r"
    by (subst (2) r [symmetric]) (simp add: slice_def drop_take add.commute)
  show "slice (n - length r) (n - length r + sz) b = take sz r \<or> sz > length r"
  proof (cases "sz > length r")
    case False
    then have "take sz (slice (n - length r) n b) = slice (n - length r) (n - length r + sz) b"
      using assms(3) by (simp add: slice_def min_def)
    then show ?thesis using r by simp
  qed simp
qed

lemma bsonElems_loop_list:
  "n \<le> length b \<Longrightarrow> bsonElems_loop b n ok pos acc = bson_list ok (slice pos n b) acc"
proof (induction b n ok pos acc rule: bsonElems_loop.induct)
  case (1 b n ok pos acc)
  show ?case
  proof (cases "pos \<ge> n \<or> b ! pos = 0")
    case True
    then show ?thesis
      using slice_Cons [of pos n b] "1.prems"
      by (cases "n \<le> pos") (simp_all add: bsonElems_loop.simps [of b n ok pos] slice_def bson_list.simps(2))
  next
    case False
    then have sl: "slice pos n b = b ! pos # slice (pos + 1) n b" using slice_Cons [of pos n b] "1.prems" by (meson not_le)
    show ?thesis
    proof (cases "bsonCString (slice (pos + 1) n b)")
      case None
      with False show ?thesis by (simp add: bsonElems_loop.simps [of b n ok pos] sl bson_list.simps(2))
    next
      case (Some kr)
      obtain key r where kr: "kr = (key, r)" by (cases kr)
      note cs = Some [unfolded kr]
      have lr: "length r \<le> n - (pos + 1)"
        using bsonCString_shorter [OF cs] "1.prems" by simp
      note st = slice_tail [OF "1.prems" bsonCString_suffix [OF cs] lr]
      show ?thesis
      proof (cases "bsonValueLen (b ! pos) r")
        case None
        with False cs st(1) show ?thesis by (simp add: bsonElems_loop.simps [of b n ok pos] sl bson_list.simps(2))
      next
        case (Some sz)
        have "\<not> sz > length r" using bsonValueLen_within [OF Some] by simp
        with st(2) [of sz] have sl2: "slice (n - length r) (n - length r + sz) b = take sz r" by blast
        have IH: "\<not> 256 \<le> length (acc @ [\<lparr>be_Type = b ! pos, be_Key = key, be_Raw = take sz r\<rparr>]) \<Longrightarrow>
            bsonElems_loop b n ok (n - length r + sz) (acc @ [\<lparr>be_Type = b ! pos, be_Key = key, be_Raw = take sz r\<rparr>]) =
            bson_list ok (drop sz r) (acc @ [\<lparr>be_Type = b ! pos, be_Key = key, be_Raw = take sz r\<rparr>])"
          using "1.IH" [OF _ refl _ cs refl refl, of sz] False Some "1.prems" by (simp add: st(1,3) sl2)
        show ?thesis
          unfolding bsonElems_loop.simps [of b n ok pos] sl bson_list.simps(2)
          using False cs Some IH by (simp add: st(1) sl2 Let_def)
      qed
    qed
  qed
qed

section \<open>Documents as they are written\<close>

text \<open>
  The format, written down from the BSON specification and not from the reader: the values, the
  type byte of each and the bytes it is written as. Numbers are little-endian, a string is its
  length with the closing zero byte, its bytes and the zero byte, a document its length, its
  elements and a zero byte. Object identifiers (12 bytes) are kept as bytes. Array indexes are
  keys, as they are on the wire.
\<close>

datatype bval =
    V_double "64 word" | V_string bytes | V_doc "(string \<times> bval) list" | V_array "(string \<times> bval) list"
  | V_binary byte bytes | V_undefined | V_objectid bytes | V_bool bool | V_date "64 word" | V_null
  | V_regex bytes bytes | V_dbpointer bytes bytes | V_code bytes | V_symbol bytes
  | V_code_ws bytes "(string \<times> bval) list" | V_int32 "32 word" | V_timestamp "64 word" | V_int64 "64 word"
  | V_decimal "128 word" | V_minkey | V_maxkey

fun val_type :: "bval \<Rightarrow> byte" where
  "val_type (V_double _) = 1"
| "val_type (V_string _) = 2"
| "val_type (V_doc _) = 3"
| "val_type (V_array _) = 4"
| "val_type (V_binary _ _) = 5"
| "val_type V_undefined = 6"
| "val_type (V_objectid _) = 7"
| "val_type (V_bool _) = 8"
| "val_type (V_date _) = 9"
| "val_type V_null = 10"
| "val_type (V_regex _ _) = 11"
| "val_type (V_dbpointer _ _) = 12"
| "val_type (V_code _) = 13"
| "val_type (V_symbol _) = 14"
| "val_type (V_code_ws _ _) = 15"
| "val_type (V_int32 _) = 16"
| "val_type (V_timestamp _) = 17"
| "val_type (V_int64 _) = 18"
| "val_type (V_decimal _) = 19"
| "val_type V_minkey = 255"
| "val_type V_maxkey = 127"

definition enc_string :: "bytes \<Rightarrow> bytes" where
  "enc_string s = le_enc 4 (length s + 1) @ s @ [0]"

definition framed :: "bytes \<Rightarrow> bytes" where
  "framed b = le_enc 4 (4 + length b) @ b"

fun enc_val :: "bval \<Rightarrow> bytes" where
  "enc_val (V_double w) = le_enc 8 (unat w)"
| "enc_val (V_string s) = enc_string s"
| "enc_val (V_doc fs) = framed (concat (map (\<lambda>f. val_type (snd f) # bytes_of (fst f) @ 0 # enc_val (snd f)) fs) @ [0])"
| "enc_val (V_array fs) = framed (concat (map (\<lambda>f. val_type (snd f) # bytes_of (fst f) @ 0 # enc_val (snd f)) fs) @ [0])"
| "enc_val (V_binary sub b) = le_enc 4 (length b) @ sub # b"
| "enc_val V_undefined = []"
| "enc_val (V_objectid b) = b"
| "enc_val (V_bool c) = [if c then 1 else 0]"
| "enc_val (V_date w) = le_enc 8 (unat w)"
| "enc_val V_null = []"
| "enc_val (V_regex pat opt) = pat @ 0 # opt @ [0]"
| "enc_val (V_dbpointer ns i) = enc_string ns @ i"
| "enc_val (V_code s) = enc_string s"
| "enc_val (V_symbol s) = enc_string s"
| "enc_val (V_code_ws s fs) =
     framed (enc_string s @ framed (concat (map (\<lambda>f. val_type (snd f) # bytes_of (fst f) @ 0 # enc_val (snd f)) fs) @ [0]))"
| "enc_val (V_int32 w) = le_enc 4 (unat w)"
| "enc_val (V_timestamp w) = le_enc 8 (unat w)"
| "enc_val (V_int64 w) = le_enc 8 (unat w)"
| "enc_val (V_decimal w) = le_enc 16 (unat w)"
| "enc_val V_minkey = []"
| "enc_val V_maxkey = []"

text \<open>What the format asks of the parts kept as bytes: a key or pattern holds no zero byte, an identifier has 12.\<close>

fun val_ok :: "bval \<Rightarrow> bool" where
  "val_ok (V_doc fs) = (\<forall>f \<in> set fs. 0 \<notin> set (bytes_of (fst f)) \<and> val_ok (snd f))"
| "val_ok (V_array fs) = (\<forall>f \<in> set fs. 0 \<notin> set (bytes_of (fst f)) \<and> val_ok (snd f))"
| "val_ok (V_code_ws s fs) = (\<forall>f \<in> set fs. 0 \<notin> set (bytes_of (fst f)) \<and> val_ok (snd f))"
| "val_ok (V_objectid b) = (length b = 12)"
| "val_ok (V_dbpointer ns i) = (length i = 12)"
| "val_ok (V_regex pat opt) = (0 \<notin> set pat \<and> 0 \<notin> set opt)"
| "val_ok _ = True"

definition doc_ok :: "(string \<times> bval) list \<Rightarrow> bool" where
  "doc_ok fs \<longleftrightarrow> val_ok (V_doc fs)"

definition enc_doc :: "(string \<times> bval) list \<Rightarrow> bytes" where
  "enc_doc fs = enc_val (V_doc fs)"

text \<open>The element the reader should return for a field.\<close>

definition field_elem :: "string \<times> bval \<Rightarrow> bsonElem" where
  "field_elem f = \<lparr>be_Type = val_type (snd f), be_Key = fst f, be_Raw = enc_val (snd f)\<rparr>"

section \<open>The reader measures every value as the format writes it\<close>

definition measured :: "bsonElem \<Rightarrow> bool" where
  "measured e \<longleftrightarrow> be_Type e \<noteq> 0 \<and> 0 \<notin> set (bytes_of (be_Key e)) \<and> bsonValueLen (be_Type e) (be_Raw e) = Some (length (be_Raw e))"

lemma val_type_nonzero: "val_type v \<noteq> 0"
  by (cases v) simp_all

lemma length_enc_string [simp]: "length (enc_string s) = 5 + length s"
  by (simp add: enc_string_def)

lemma enc_string_nonempty [simp]: "enc_string s \<noteq> []"
  by (simp add: enc_string_def)

lemma length_framed [simp]: "length (framed b) = 4 + length b"
  by (simp add: framed_def)

lemma le_i32_enc_string: "length s + 1 < 2 ^ 31 \<Longrightarrow> le_i32 (enc_string s @ r) = int (length s + 1)"
  using le_i32_le_enc [of "length s + 1" "s @ 0 # r"] by (simp add: enc_string_def)

lemma le_i32_framed: "4 + length b < 2 ^ 31 \<Longrightarrow> le_i32 (framed b @ r) = int (4 + length b)"
  using le_i32_le_enc [of "4 + length b" "b @ r"] by (simp add: framed_def)

lemma measure_fixed: "map_of bson_fixed t = Some (length b) \<Longrightarrow> bsonValueLen t b = Some (length b)"
  by (simp add: bsonValueLen_def)

lemma measure_string:
  "t \<in> {bsonString, bsonCode, bsonSymbol} \<Longrightarrow> length (enc_string s) < 2 ^ 31 \<Longrightarrow>
   bsonValueLen t (enc_string s) = Some (length (enc_string s))"
  using le_i32_enc_string [of s "[]"] by (auto simp: bsonValueLen_def bson_fixed_def bson_type_defs Let_def)

lemma measure_framed:
  "t \<in> {bsonDoc, bsonArray, bsonCodeWS} \<Longrightarrow> length (framed b) < 2 ^ 31 \<Longrightarrow> b \<noteq> [] \<Longrightarrow>
   bsonValueLen t (framed b) = Some (length (framed b))"
  using le_i32_framed [of b "[]"] by (cases b) (auto simp: bsonValueLen_def bson_fixed_def bson_type_defs Let_def)

lemma measure_binary:
  "length b + 5 < 2 ^ 31 \<Longrightarrow> bsonValueLen bsonBinary (le_enc 4 (length b) @ sub # b) = Some (5 + length b)"
  using le_i32_le_enc [of "length b" "sub # b"] by (simp add: bsonValueLen_def bson_fixed_def bson_type_defs Let_def)

lemma measure_regex:
  "0 \<notin> set pat \<Longrightarrow> 0 \<notin> set opt \<Longrightarrow>
   bsonValueLen bsonRegex (pat @ 0 # opt @ [0]) = Some (length (pat @ 0 # opt @ [0]))"
  using bsonCString_enc [of pat "opt @ [0]"] bsonCString_enc [of opt "[]"]
  by (simp add: bsonValueLen_def bson_fixed_def bson_type_defs)

lemma measure_dbpointer:
  "length (enc_string ns @ i) < 2 ^ 31 \<Longrightarrow> length i = 12 \<Longrightarrow>
   bsonValueLen bsonDBPtr (enc_string ns @ i) = Some (length (enc_string ns @ i))"
  using le_i32_enc_string [of ns i] by (simp add: bsonValueLen_def bson_fixed_def bson_type_defs Let_def)

lemma enc_val_measured:
  assumes "val_ok v" and "length (enc_val v) < 2 ^ 31"
  shows "bsonValueLen (val_type v) (enc_val v) = Some (length (enc_val v))"
proof (cases v)
  case (V_binary sub b)
  then show ?thesis using assms measure_binary [of b sub] by (simp add: bson_type_defs)
next
  case (V_regex pat opt)
  then show ?thesis using assms measure_regex [of pat opt] by (simp add: bson_type_defs)
next
  case (V_dbpointer ns i)
  then show ?thesis using assms measure_dbpointer [of ns i] by (simp add: bson_type_defs)
qed (use assms in \<open>simp_all add: measure_fixed measure_string measure_framed bson_fixed_def bson_type_defs\<close>)

definition enc_elem :: "bsonElem \<Rightarrow> bytes" where
  "enc_elem e = be_Type e # bytes_of (be_Key e) @ 0 # be_Raw e"

definition enc_body :: "bsonElem list \<Rightarrow> bytes" where
  "enc_body es = concat (map enc_elem es) @ [0]"

definition bson_doc :: "bsonElem list \<Rightarrow> bytes" where
  "bson_doc es = le_enc 4 (4 + length (enc_body es)) @ enc_body es"

lemma enc_body_simps [simp]: "enc_body [] = [0]" "enc_body (e # es) = enc_elem e @ enc_body es"
  by (simp_all add: enc_body_def)

lemma length_bson_doc: "length (bson_doc es) = 4 + length (enc_body es)"
  by (simp add: bson_doc_def)

lemma enc_body_pos: "Suc 0 \<le> length (enc_body es)" "last (enc_body es) = 0"
  by (simp_all add: enc_body_def)

lemma bson_list_elem:
  assumes "measured e"
  shows "bson_list ok (enc_elem e @ x) acc =
    (let acc' = acc @ [e] in if length acc' \<ge> 256 then (acc', ok) else bson_list ok x acc')"
proof -
  have c: "bsonCString (bytes_of (be_Key e) @ 0 # be_Raw e @ x) = Some (be_Key e, be_Raw e @ x)"
    using assms bsonCString_enc [of "bytes_of (be_Key e)" "be_Raw e @ x"] by (simp add: measured_def)
  have v: "bsonValueLen (be_Type e) (be_Raw e @ x) = Some (length (be_Raw e))"
    using assms by (intro bsonValueLen_append) (simp add: measured_def)
  have eq: "\<lparr>be_Type = be_Type e, be_Key = be_Key e, be_Raw = be_Raw e\<rparr> = e" by simp
  show ?thesis using assms c v by (simp add: enc_elem_def bson_list.simps(2) measured_def Let_def eq)
qed

lemma bson_list_body:
  "\<forall>e \<in> set es. measured e \<Longrightarrow> length acc < 256 \<Longrightarrow>
   bson_list ok (enc_body es @ x) acc = (acc @ take (256 - length acc) es, ok)"
proof (induction es arbitrary: acc)
  case Nil
  then show ?case by (simp add: bson_list.simps(2))
next
  case (Cons e es)
  show ?case
  proof (cases "length acc = 255")
    case True
    with Cons.prems show ?thesis by (simp add: bson_list_elem Let_def)
  next
    case False
    then have "length (acc @ [e]) < 256" "256 - length acc = Suc (256 - length (acc @ [e]))" using Cons.prems(2) by auto
    with Cons.IH [of "acc @ [e]"] Cons.prems False show ?thesis by (simp add: bson_list_elem Let_def)
  qed
qed

text \<open>A document cut inside an element: what was read before the cut is kept.\<close>

lemma bson_list_cut_elem:
  assumes "measured e" "k < length (enc_elem e)"
  shows "bson_list False (take k (enc_elem e)) acc = (acc, False)"
proof (cases k)
  case (Suc j)
  let ?key = "bytes_of (be_Key e)"
  have t: "take k (enc_elem e) = be_Type e # take j (?key @ 0 # be_Raw e)" by (simp add: Suc enc_elem_def)
  show ?thesis
  proof (cases "j \<le> length ?key")
    case True
    then have "take j (?key @ 0 # be_Raw e) = take j ?key" by simp
    moreover have "0 \<notin> set (take j ?key)" using assms(1) by (auto simp: measured_def dest: in_set_takeD)
    ultimately have "bsonCString (take j (?key @ 0 # be_Raw e)) = None" by (simp only: bsonCString_None simp_thms)
    then show ?thesis unfolding t by (simp add: bson_list.simps(2))
  next
    case False
    define i where "i = j - length ?key - 1"
    have i: "i < length (be_Raw e)" using False assms(2) Suc by (simp add: i_def enc_elem_def)
    have "take j (?key @ 0 # be_Raw e) = ?key @ 0 # take i (be_Raw e)"
      using False by (simp add: i_def take_Cons' take_append)
    then have c: "bsonCString (take j (?key @ 0 # be_Raw e)) = Some (be_Key e, take i (be_Raw e))"
      using assms(1) bsonCString_enc [of ?key "take i (be_Raw e)"] by (simp add: measured_def)
    have v: "bsonValueLen (be_Type e) (take i (be_Raw e)) = None"
    proof (cases "bsonValueLen (be_Type e) (take i (be_Raw e))")
      case (Some n)
      from bsonValueLen_append [OF Some, of "drop i (be_Raw e)"] assms(1)
      have "n = length (be_Raw e)" by (simp add: measured_def)
      with bsonValueLen_within [OF Some] i show ?thesis by simp
    qed
    show ?thesis unfolding t using c v by (simp add: bson_list.simps(2))
  qed
qed simp

lemma bson_list_cut:
  "\<forall>e \<in> set es. measured e \<Longrightarrow> k < length (enc_body es) \<Longrightarrow>
   \<exists>j. bson_list False (take k (enc_body es)) acc = (acc @ take j es, False)"
proof (induction es arbitrary: k acc)
  case Nil
  then show ?case by simp
next
  case (Cons e es)
  show ?case
  proof (cases "k < length (enc_elem e)")
    case True
    then show ?thesis using bson_list_cut_elem [of e k acc] Cons.prems by (intro exI [of _ 0]) simp
  next
    case False
    define k' where "k' = k - length (enc_elem e)"
    have t: "take k (enc_body (e # es)) = enc_elem e @ take k' (enc_body es)" using False by (simp add: k'_def)
    have e: "measured e" using Cons.prems by simp
    show ?thesis
    proof (cases "length (acc @ [e]) \<ge> 256")
      case True
      then show ?thesis unfolding t by (intro exI [of _ 1]) (simp add: bson_list_elem [OF e] Let_def)
    next
      case small: False
      have "k' < length (enc_body es)" using Cons.prems(2) False by (simp add: k'_def)
      with Cons.IH [of k' "acc @ [e]"] Cons.prems(1) obtain j where
        "bson_list False (take k' (enc_body es)) (acc @ [e]) = (acc @ [e] @ take j es, False)" by auto
      then show ?thesis unfolding t using small by (intro exI [of _ "Suc j"]) (simp add: bson_list_elem [OF e] Let_def)
    qed
  qed
qed

section \<open>Reading and cutting a sequence of elements\<close>

lemma bson_doc_reads:
  assumes "\<forall>e \<in> set es. measured e" and "int (length (bson_doc es)) \<le> bsonMaxDoc"
  shows "bsonElems (bson_doc es @ rest) = (take 256 es, True) \<and> bsonDocOK (bson_doc es @ rest)"
proof -
  let ?b = "bson_doc es @ rest" and ?n = "4 + length (enc_body es)"
  have small: "?n < 2 ^ 31" using assms(2) by (simp add: length_bson_doc bsonMaxDoc_def push_bit_eq_mult)
  have n: "le_i32 ?b = int ?n"
    using le_i32_le_enc [OF small, of "enc_body es @ rest"] by (simp add: bson_doc_def)
  have b: "5 \<le> int ?n" "int ?n \<le> bsonMaxDoc" "int ?n \<le> int (length ?b)"
    using assms(2) enc_body_pos(1) [of es] by (simp_all add: length_bson_doc)
  have sl: "slice 4 ?n ?b = enc_body es" by (simp add: bson_doc_def slice_def)
  have g: "\<not> length ?b < 5" "\<not> (int ?n < 5 \<or> bsonMaxDoc < int ?n)" "\<not> int (length ?b) < int ?n" using b by linarith+
  have "bsonElems ?b = bsonElems_loop ?b ?n True 4 []"
    unfolding bsonElems_def Let_def n if_not_P [OF g(1)] if_not_P [OF g(2)] if_not_P [OF g(3)] nat_int by (rule refl)
  also have "\<dots> = bson_list True (enc_body es @ []) []"
    using bsonElems_loop_list [of ?n ?b True 4 "[]"] sl by (simp add: length_bson_doc)
  also have "\<dots> = (take 256 es, True)"
    using bson_list_body [OF assms(1), of "[]" True "[]"] by simp
  finally have "bsonElems ?b = (take 256 es, True)" .
  moreover have "?b ! (nat (int ?n) - 1) = 0"
  proof -
    have "?b ! (nat (int ?n) - 1) = enc_body es ! (length (enc_body es) - 1)"
      unfolding nat_int using enc_body_pos(1) [of es] by (auto simp: bson_doc_def nth_append)
    also have "\<dots> = 0" using enc_body_pos(2) [of es] by (simp add: enc_body_def)
    finally show ?thesis .
  qed
  ultimately show ?thesis unfolding bsonDocOK_def Let_def n if_not_P [OF g(1)] using b by blast
qed

lemma bson_doc_cut:
  assumes "\<forall>e \<in> set es. measured e" and "int (length (bson_doc es)) \<le> bsonMaxDoc"
    and "5 \<le> k" "k < length (bson_doc es)"
  shows "\<exists>j. bsonElems (take k (bson_doc es)) = (take j es, False)"
proof -
  let ?b = "take k (bson_doc es)" and ?n = "4 + length (enc_body es)"
  have small: "?n < 2 ^ 31" using assms(2) by (simp add: length_bson_doc bsonMaxDoc_def push_bit_eq_mult)
  have k4: "?b = le_enc 4 ?n @ take (k - 4) (enc_body es)" using assms(3) by (simp add: bson_doc_def)
  have n: "le_i32 ?b = int ?n" unfolding k4 by (rule le_i32_le_enc [OF small])
  have l: "length ?b = k" using assms(4) by simp
  have kn: "k < ?n" using assms(4) by (simp add: length_bson_doc)
  have sl: "slice 4 k ?b = take (k - 4) (enc_body es)" by (simp add: k4 slice_def)
  have b: "5 \<le> int ?n" "int ?n \<le> bsonMaxDoc" using assms(2) enc_body_pos(1) [of es] by (simp_all add: length_bson_doc)
  have g: "\<not> k < 5" "\<not> (int ?n < 5 \<or> bsonMaxDoc < int ?n)" "int k < int ?n" using b assms(3) kn by linarith+
  have "bsonElems ?b = bsonElems_loop ?b k False 4 []"
    unfolding bsonElems_def Let_def n l if_not_P [OF g(1)] if_not_P [OF g(2)] if_P [OF g(3)] by (rule refl)
  also have "\<dots> = bson_list False (take (k - 4) (enc_body es)) []"
    using bsonElems_loop_list [of k ?b False 4 "[]"] by (simp only: l sl order_refl)
  finally show ?thesis
    using bson_list_cut [OF assms(1), of "k - 4" "[]"] kn assms(3) by auto
qed

lemma enc_val_doc: "enc_val (V_doc fs) = bson_doc (map field_elem fs)" "enc_val (V_array fs) = bson_doc (map field_elem fs)"
  by (simp_all add: bson_doc_def framed_def enc_body_def enc_elem_def field_elem_def comp_def)

lemma enc_doc_eq: "enc_doc fs = bson_doc (map field_elem fs)"
  by (simp add: enc_doc_def enc_val_doc del: enc_val.simps)

lemma enc_val_within: "f \<in> set fs \<Longrightarrow> length (enc_val (snd f)) < length (enc_doc fs)"
proof -
  assume "f \<in> set fs"
  then have "length (enc_elem (field_elem f)) \<le> length (enc_body (map field_elem fs))"
    by (induction fs) auto
  then show ?thesis by (simp add: enc_doc_eq length_bson_doc enc_elem_def field_elem_def)
qed

lemma doc_measured:
  assumes "doc_ok fs" and "int (length (enc_doc fs)) \<le> bsonMaxDoc"
  shows "\<forall>e \<in> set (map field_elem fs). measured e"
proof
  fix e assume "e \<in> set (map field_elem fs)"
  then obtain f where f: "f \<in> set fs" "e = field_elem f" by auto
  have "length (enc_val (snd f)) < 2 ^ 31"
    using enc_val_within [OF f(1)] assms(2) by (simp add: bsonMaxDoc_def push_bit_eq_mult)
  moreover have "val_ok (snd f)" "0 \<notin> set (bytes_of (fst f))" using assms(1) f(1) by (auto simp: doc_ok_def)
  ultimately show "measured e"
    using enc_val_measured [of "snd f"] by (simp add: measured_def f(2) field_elem_def val_type_nonzero)
qed

lemma bsonElems_doc:
  assumes "doc_ok fs" and "int (length (enc_doc fs)) \<le> bsonMaxDoc"
  shows "bsonElems (enc_doc fs @ rest) = (take 256 (map field_elem fs), True) \<and> bsonDocOK (enc_doc fs @ rest)"
  unfolding enc_doc_eq
  by (rule bson_doc_reads) (use doc_measured [OF assms] assms(2) in \<open>simp_all add: enc_doc_eq\<close>)

text \<open>What the accessors should give for a field holding \<open>v\<close>: the value itself.\<close>

definition accessed :: "(64 word \<Rightarrow> int) \<Rightarrow> bsonElem \<Rightarrow> bval \<Rightarrow> bool" where
  "accessed trunc e v =
     (case v of
        V_doc gs \<Rightarrow> bsonSub e = take 256 (map field_elem gs)
      | V_array gs \<Rightarrow> bsonSub e = take 256 (map field_elem gs)
      | V_string s \<Rightarrow> bsonStr e = pktPrintable (str s)
      | V_int32 w \<Rightarrow> bsonInt trunc e = Some (sint w)
      | V_int64 w \<Rightarrow> bsonInt trunc e = Some (sint w)
      | V_timestamp w \<Rightarrow> bsonInt trunc e = Some (sint w)
      | V_double w \<Rightarrow> bsonInt trunc e = Some (trunc w)
      | V_bool c \<Rightarrow> bsonInt trunc e = Some (if c then 1 else 0)
      | _ \<Rightarrow> bsonSub e = [] \<and> bsonStr e = [] \<and> bsonInt trunc e = None)"

lemma unat_lt_32: "unat (w :: 32 word) < 2 ^ 32"
proof -
  have "unat w < 2 ^ LENGTH(32)" by (rule unsigned_less)
  then show ?thesis by simp
qed

lemma unat_lt_64: "unat (w :: 64 word) < 2 ^ 64"
proof -
  have "unat w < 2 ^ LENGTH(64)" by (rule unsigned_less)
  then show ?thesis by simp
qed

lemma le_i32_word: "le_i32 (le_enc 4 (unat w)) = sint (w :: 32 word)"
  using le_u32_le_enc [of "unat w" "[]"] unat_lt_32 [of w] by (simp add: le_i32_def)

lemma le_u64_word: "le_u64 (le_enc 8 (unat w)) = (w :: 64 word)"
  using le_nat_le_enc [of "unat w" 8] unat_lt_64 [of w] by (simp add: le_u64_def)

lemma bsonSub_doc:
  assumes "val_ok v" "v = V_doc gs \<or> v = V_array gs" and "int (length (enc_val v)) \<le> bsonMaxDoc"
  shows "bsonSub (field_elem (k, v)) = take 256 (map field_elem gs)"
proof -
  have e: "enc_val v = enc_doc gs" using assms(2) by (auto simp: enc_doc_eq enc_val_doc simp del: enc_val.simps)
  have "doc_ok gs" using assms(1,2) by (elim disjE) (simp_all add: doc_ok_def)
  from bsonElems_doc [OF this, of "[]"] assms(2,3) e show ?thesis
    by (auto simp: bsonSub_def field_elem_def bson_type_defs simp del: enc_val.simps)
qed

lemma bsonStr_string:
  assumes "length (enc_string s) < 2 ^ 31"
  shows "bsonStr (field_elem (k, V_string s)) = pktPrintable (str s)"
proof -
  have "slice 4 (4 + length s) (enc_string s) = s" by (simp add: slice_def enc_string_def)
  then show ?thesis
    using le_i32_enc_string [of s "[]"] assms
    by (simp add: bsonStr_def field_elem_def bson_type_defs Let_def nat_add_distrib)
qed

lemma accessed_field:
  assumes "val_ok v" and "int (length (enc_val v)) \<le> bsonMaxDoc"
  shows "accessed trunc (field_elem (k, v)) v"
proof (cases v)
  case (V_doc gs)
  then show ?thesis using assms bsonSub_doc [of v gs k] by (simp add: accessed_def)
next
  case (V_array gs)
  then show ?thesis using assms bsonSub_doc [of v gs k] by (simp add: accessed_def)
next
  case (V_string s)
  then show ?thesis
    using assms(2) bsonStr_string [of s k] by (simp add: accessed_def bsonMaxDoc_def push_bit_eq_mult)
qed (simp_all add: accessed_def field_elem_def bsonInt_def bsonSub_def bsonStr_def bson_type_defs le_i32_word le_u64_word)

section \<open>Properties\<close>

text \<open>
  C29. Reading a BSON document as the format writes it (every type of value, documents nested
  to any depth) gives back its fields in order, each with its type, its key and exactly the
  bytes of its value, whatever follows the document in the buffer: the first 256 of them, which
  is where the reader stops. And the accessors give the values: \<open>bsonSub\<close> the fields of a nested
  document or array, \<open>bsonInt\<close> the number, \<open>bsonStr\<close> the text (made printable), and nothing for a
  value of another type. Documents of up to 64 MB are read, as the code limits them.
\<close>

theorem bsonElems_roundtrip:
  assumes "doc_ok fs" and "int (length (enc_doc fs)) \<le> bsonMaxDoc"
  shows "bsonElems (enc_doc fs @ rest) = (take 256 (map field_elem fs), True) \<and> bsonDocOK (enc_doc fs @ rest)
    \<and> (\<forall>(k, v) \<in> set fs. accessed trunc (field_elem (k, v)) v)"
proof -
  have "accessed trunc (field_elem (k, v)) v" if "(k, v) \<in> set fs" for k v
    using that assms enc_val_within [OF that] by (intro accessed_field) (auto simp: doc_ok_def)
  then show ?thesis using bsonElems_doc [OF assms, of rest] by blast
qed

definition ex_doc :: "(string \<times> bval) list" where
  "ex_doc = [(''find'', V_string [0x78]), (''q'', V_doc [(''n'', V_int64 (- 2)), (''r'', V_regex [0x61] [])]),
             (''b'', V_binary 0 [9, 0, 9])]"

lemma ex_doc_ok: "doc_ok ex_doc"
  by code_simp

lemma ex_doc_length: "length (enc_doc ex_doc) = 53"
  by (simp add: ex_doc_def enc_doc_def)

lemma bsonElems_roundtrip_witness:
  "bsonElems (enc_doc ex_doc @ [7, 7]) = (map field_elem ex_doc, True)
   \<and> bsonSub (field_elem (ex_doc ! 1)) = map field_elem [(''n'', V_int64 (- 2)), (''r'', V_regex [0x61] [])]"
  using bsonElems_roundtrip [OF ex_doc_ok, of "[7, 7]" "\<lambda>_. 0"]
  by (simp add: ex_doc_length bsonMaxDoc_def push_bit_eq_mult) (simp add: ex_doc_def accessed_def)

text \<open>
  A document cut short, as the last one of a capture often is, is read up to the cut: the
  elements returned are an initial part of the document's, and the reader says it was not
  complete. Wherever the cut falls it neither misreads an element nor invents one.
\<close>

theorem bsonElems_truncated:
  assumes "doc_ok fs" and "int (length (enc_doc fs)) \<le> bsonMaxDoc" and "5 \<le> k" "k < length (enc_doc fs)"
  shows "\<exists>j. bsonElems (take k (enc_doc fs)) = (take j (map field_elem fs), False)"
  using bson_doc_cut [OF doc_measured [OF assms(1,2)]] assms(2-4) by (simp add: enc_doc_eq)

lemma bsonElems_truncated_witness:
  "\<exists>j. bsonElems (take 20 (enc_doc ex_doc)) = (take j (map field_elem ex_doc), False)"
  using bsonElems_truncated [OF ex_doc_ok, of 20] by (simp add: ex_doc_length bsonMaxDoc_def push_bit_eq_mult)

end
