(* ===== verification/Pcap.thy ===== *)
theory Pcap
  imports Pkt_State Mysql_Wire
begin

text \<open>
  From a capture file to TCP segments (\<^verbatim>\<open>src/app/pktdecode.go\<close>): the readers for pcap (both byte
  orders, microsecond and nanosecond) and pcapng, the link headers, IPv4 and IPv6, the TCP
  header, and \<^verbatim>\<open>pktTCPHealth\<close>, which tracks the sequence numbers of a direction and annotates a
  frame with the transport problems it shows. Times are nanoseconds since the epoch.
\<close>

section \<open>The capture file\<close>

definition pktLinkNull :: nat where "pktLinkNull = 0"
definition pktLinkEther :: nat where "pktLinkEther = 1"
definition pktLinkRaw :: nat where "pktLinkRaw = 101"
definition pktLinkSLL :: nat where "pktLinkSLL = 113"
definition pktLinkSLL2 :: nat where "pktLinkSLL2 = 276"
definition pktLinkRawAlt :: nat where "pktLinkRawAlt = 12"
definition pktLinkLoopAlt :: nat where "pktLinkLoopAlt = 108"

record pktReader =
  r_buf :: bytes
  r_le :: bool
  r_nano :: bool
  r_linkType :: nat
  r_format :: string
  r_pos :: nat
  r_ng :: bool

text \<open>\<^verbatim>\<open>r.le.Uint32\<close> and \<^verbatim>\<open>r.le.Uint16\<close>: the byte order is a field of the reader.\<close>

definition ord32 :: "bool \<Rightarrow> bytes \<Rightarrow> nat" where
  "ord32 le b = (if le then le_u32 b else be_u32 b)"

definition ord16 :: "bool \<Rightarrow> bytes \<Rightarrow> nat" where
  "ord16 le b = (if le then le_u16 b else be_u16 b)"

definition go_08x :: "nat \<Rightarrow> string" where
  "go_08x v = go_04x (v div 65536) @ go_04x (v mod 65536)"

text \<open>The walk to the first Interface Description Block; the link type it names, if there is one.\<close>

function ng_linktype :: "bool \<Rightarrow> bytes \<Rightarrow> nat \<Rightarrow> nat option" where
  "ng_linktype le buf pos =
     (if pos + 12 \<le> length buf then
        let typ = ord32 le (drop pos buf); blen = ord32 le (drop (pos + 4) buf) in
        if blen < 12 \<or> pos + blen > length buf then None
        else if typ = 1 \<and> pos + 10 \<le> length buf then Some (ord16 le (drop (pos + 8) buf))
        else ng_linktype le buf (pos + blen)
      else None)"
  by pat_completeness auto
termination
  by (relation "measure (\<lambda>(le, buf, pos). length buf - pos)") auto

declare ng_linktype.simps [simp del]

definition pktOpenNG :: "bytes \<Rightarrow> string + pktReader" where
  "pktOpenNG buf =
     (if length buf < 12 then Inl ''pcapng file is truncated''
      else if le_u32 (drop 8 buf) \<noteq> 0x1a2b3c4d \<and> be_u32 (drop 8 buf) \<noteq> 0x1a2b3c4d
        then Inl ''pcapng byte-order magic is not recognisable''
      else let le = (le_u32 (drop 8 buf) = 0x1a2b3c4d);
               link = (case ng_linktype le buf 0 of Some l \<Rightarrow> l | None \<Rightarrow> pktLinkEther)
        in Inr \<lparr>r_buf = buf, r_le = le, r_nano = False, r_linkType = link, r_format = ''pcapng'', r_pos = 0, r_ng = True\<rparr>)"

definition pktOpen :: "bytes \<Rightarrow> string + pktReader" where
  "pktOpen buf =
     (let rd = (\<lambda>le nano fmt. Inr \<lparr>r_buf = buf, r_le = le, r_nano = nano, r_linkType = ord32 le (drop 20 buf),
                  r_format = fmt, r_pos = 24, r_ng = False\<rparr>) in
      if length buf < 24 then
        Inl (''capture is too short to be a pcap file ('' @ go_utoa (length buf) @ '' bytes)'')
      else if le_u32 buf = 0xa1b2c3d4 then rd True False ''pcap''
      else if be_u32 buf = 0xa1b2c3d4 then rd False False ''pcap''
      else if le_u32 buf = 0xa1b23c4d then rd True True ''pcap-ns''
      else if be_u32 buf = 0xa1b23c4d then rd False True ''pcap-ns''
      else if le_u32 buf = 0x0a0d0d0a then pktOpenNG buf
      else Inl (''not a capture file: unknown magic '' @ go_08x (le_u32 buf)))"

text \<open>A raw frame: its time, the bytes captured, the length on the wire, its offset in the buffer.\<close>

record pktFrame =
  fr_ts :: int
  fr_data :: bytes
  fr_orig :: nat
  fr_off :: nat

text \<open>
  The \<^verbatim>\<open>switch typ\<close> over one block at \<open>pos\<close> with the given body: an Enhanced or a Simple Packet Block
  is a frame; anything else, and a packet block too short for what it declares, is passed over.
\<close>

definition ng_block :: "bool \<Rightarrow> nat \<Rightarrow> nat \<Rightarrow> bytes \<Rightarrow> pktFrame option" where
  "ng_block le pos t body =
     (if t = 6 then
        (if length body < 20 then None
         else
           let usec = sint (push_bit 32 (of_nat (ord32 le (drop 4 body))) OR of_nat (ord32 le (drop 8 body)) :: 64 word);
               capLen = ord32 le (drop 12 body); orig = ord32 le (drop 16 body)
           in if 20 + capLen > length body then None
              else Some \<lparr>fr_ts = usec * 1000, fr_data = slice 20 (20 + capLen) body, fr_orig = orig, fr_off = pos + 8 + 20\<rparr>)
      else if t = 3 then
        (if length body < 4 then None
         else Some \<lparr>fr_ts = zero_time, fr_data = drop 4 body, fr_orig = ord32 le body, fr_off = pos + 12\<rparr>)
      else None)"

function nextNG :: "pktReader \<Rightarrow> (pktFrame \<times> pktReader) option" where
  "nextNG r =
     (if r_pos r + 12 \<le> length (r_buf r) then
        let t = ord32 (r_le r) (drop (r_pos r) (r_buf r)); blen = ord32 (r_le r) (drop (r_pos r + 4) (r_buf r)) in
        if blen < 12 \<or> r_pos r + blen > length (r_buf r) then None
        else
          let r' = r\<lparr>r_pos := r_pos r + blen\<rparr> in
          case ng_block (r_le r) (r_pos r) t (slice (r_pos r + 8) (r_pos r + blen - 4) (r_buf r)) of
            Some f \<Rightarrow> Some (f, r')
          | None \<Rightarrow> nextNG r'
      else None)"
  by pat_completeness auto
termination
  by (relation "measure (\<lambda>r. length (r_buf r) - r_pos r)") auto

declare nextNG.simps [simp del]

definition next_frame :: "pktReader \<Rightarrow> (pktFrame \<times> pktReader) option" where
  "next_frame r =
     (if r_ng r then nextNG r
      else if r_pos r + 16 > length (r_buf r) then None
      else
        let h = drop (r_pos r) (r_buf r);
            sec = ord32 (r_le r) h; frac = ord32 (r_le r) (drop 4 h);
            capLen = ord32 (r_le r) (drop 8 h); orig = ord32 (r_le r) (drop 12 h)
        in if r_pos r + 16 + capLen > length (r_buf r) then None
           else
             let nsec = (if r_nano r then frac else frac * 1000); off = r_pos r + 16
             in Some (\<lparr>fr_ts = int sec * 10 ^ 9 + int nsec, fr_data = slice off (off + capLen) (r_buf r),
                       fr_orig = orig, fr_off = off\<rparr>, r\<lparr>r_pos := off + capLen\<rparr>))"

section \<open>Link, network and transport headers\<close>

text \<open>802.1Q and 802.1ad tags: four bytes each, the type declared again behind them.\<close>

function strip_vlan :: "nat \<Rightarrow> nat \<Rightarrow> bytes \<Rightarrow> nat \<times> bytes" where
  "strip_vlan et off b =
     (if (et = 0x8100 \<or> et = 0x88a8) \<and> length b \<ge> off + 4
      then strip_vlan (be_u16 (drop (off + 2) b)) (off + 4) b
      else (et, drop off b))"
  by pat_completeness auto
termination
  by (relation "measure (\<lambda>(et, off, b). length b - off)") auto

declare strip_vlan.simps [simp del]

definition pktStripLink :: "nat \<Rightarrow> bytes \<Rightarrow> (nat \<times> bytes) option" where
  "pktStripLink linkType b =
     (if linkType = pktLinkEther then
        (if length b < 14 then None else Some (strip_vlan (be_u16 (drop 12 b)) 14 b))
      else if linkType = pktLinkSLL then
        (if length b < 16 then None else Some (be_u16 (drop 14 b), drop 16 b))
      else if linkType = pktLinkSLL2 then
        (if length b < 20 then None else Some (be_u16 b, drop 20 b))
      else if linkType = pktLinkNull \<or> linkType = pktLinkLoopAlt then
        (if length b < 4 then None
         else let af = (if linkType = pktLinkLoopAlt then be_u32 b else le_u32 b)
           in Some (if af = 24 \<or> af = 28 \<or> af = 30 then 0x86dd else 0x0800, drop 4 b))
      else if linkType = pktLinkRaw \<or> linkType = pktLinkRawAlt then
        (if b = [] then None
         else Some (if drop_bit 4 (b ! 0) = 6 then 0x86dd else 0x0800, b))
      else None)"

definition pktIPv4 :: "bytes \<Rightarrow> string" where
  "pktIPv4 b = go_utoa (unat (b ! 0)) @ ''.'' @ go_utoa (unat (b ! 1)) @ ''.'' @ go_utoa (unat (b ! 2)) @ ''.''
     @ go_utoa (unat (b ! 3))"

fun go_x :: "nat \<Rightarrow> string" where
  "go_x n = (if n < 16 then [hex_char n] else go_x (n div 16) @ [hex_char (n mod 16)])"

declare go_x.simps [simp del]

text \<open>The longest run of zero groups: where it starts and how long it is.\<close>

fun ipv6_zero_run :: "nat list \<Rightarrow> int \<Rightarrow> int \<times> nat \<Rightarrow> int \<times> nat \<Rightarrow> int \<times> nat" where
  "ipv6_zero_run [] i best cur = best"
| "ipv6_zero_run (g # gs) i best cur =
     (if g = 0 then
        let (curI, curN) = (if fst cur < 0 then (i, 0) else cur); curN' = curN + 1
        in ipv6_zero_run gs (i + 1) (if curN' > snd best then (curI, curN') else best) (curI, curN')
      else ipv6_zero_run gs (i + 1) best (-1, 0))"

text \<open>The writing loop; \<open>skip\<close> groups of the zero run are still to be passed over.\<close>

fun ipv6_write :: "nat list \<Rightarrow> int \<Rightarrow> int \<times> nat \<Rightarrow> nat \<Rightarrow> string \<Rightarrow> string" where
  "ipv6_write [] i best skip sb = sb"
| "ipv6_write (g # gs) i best skip sb =
     (if skip > 0 then ipv6_write gs (i + 1) best (skip - 1) sb
      else if snd best > 1 \<and> i = fst best then ipv6_write gs (i + 1) best (snd best - 1) (sb @ ''::'')
      else ipv6_write gs (i + 1) best 0
             ((if sb \<noteq> [] \<and> last sb \<noteq> CHR '':'' then sb @ '':'' else sb) @ go_x g))"

definition pktIPv6 :: "bytes \<Rightarrow> string" where
  "pktIPv6 b =
     (let gs = map (\<lambda>i. be_u16 (drop (2 * i) b)) [0..<8]
      in ipv6_write gs 0 (ipv6_zero_run gs 0 (-1, 0) (-1, 0)) 0 [])"

record pktL3 =
  l3_srcIP :: string
  l3_dstIP :: string
  l3_proto :: byte
  l3_payload :: bytes
  l3_frag :: bool

text \<open>\<open>None\<close> is the zero \<^verbatim>\<open>pktL3\<close>, whose \<^verbatim>\<open>ok\<close> is false.\<close>

definition pktParseIP :: "nat \<Rightarrow> bytes \<Rightarrow> pktL3 option" where
  "pktParseIP etherType b =
     (if etherType = 0x0800 then
        (if length b < 20 \<or> drop_bit 4 (b ! 0) \<noteq> 4 then None
         else
           let ihl = unat (b ! 0 AND 0x0f) * 4; total = be_u16 (drop 2 b) in
           if ihl < 20 \<or> length b < ihl then None
           else
             let end' = (if total > length b \<or> total < ihl then length b else total); fragOff = be_u16 (drop 6 b)
             in Some \<lparr>l3_srcIP = pktIPv4 (slice 12 16 b), l3_dstIP = pktIPv4 (slice 16 20 b), l3_proto = b ! 9,
                      l3_payload = slice ihl end' b,
                      l3_frag = (fragOff AND 0x1fff \<noteq> 0 \<or> fragOff AND 0x2000 \<noteq> 0)\<rparr>)
      else if etherType = 0x86dd then
        (if length b < 40 \<or> drop_bit 4 (b ! 0) \<noteq> 6 then None
         else
           let plen = be_u16 (drop 4 b); end' = (if 40 + plen > length b then length b else 40 + plen)
           in Some \<lparr>l3_srcIP = pktIPv6 (slice 8 24 b), l3_dstIP = pktIPv6 (slice 24 40 b), l3_proto = b ! 6,
                    l3_payload = slice 40 end' b, l3_frag = False\<rparr>)
      else None)"

definition tcpFIN :: byte where "tcpFIN = push_bit 0 1"
definition tcpSYN :: byte where "tcpSYN = push_bit 1 1"
definition tcpRST :: byte where "tcpRST = push_bit 2 1"
definition tcpPSH :: byte where "tcpPSH = push_bit 3 1"
definition tcpACK :: byte where "tcpACK = push_bit 4 1"
definition tcpURG :: byte where "tcpURG = push_bit 5 1"

record pktTCP =
  t_srcPort :: nat
  t_dstPort :: nat
  t_seq :: "32 word"
  t_ack :: "32 word"
  t_flags :: byte
  t_window :: nat
  t_payload :: bytes

definition pktParseTCP :: "bytes \<Rightarrow> pktTCP option" where
  "pktParseTCP b =
     (if length b < 20 then None
      else
        let off = unat (drop_bit 4 (b ! 12)) * 4 in
        if off < 20 then None
        else
          let off' = (if off > length b then length b else off)
          in Some \<lparr>t_srcPort = be_u16 b, t_dstPort = be_u16 (drop 2 b), t_seq = of_nat (be_u32 (drop 4 b)),
                   t_ack = of_nat (be_u32 (drop 8 b)), t_flags = b ! 13, t_window = be_u16 (drop 14 b),
                   t_payload = drop off' b\<rparr>)"

definition has_flag :: "byte \<Rightarrow> byte \<Rightarrow> bool" where
  "has_flag f bits \<longleftrightarrow> f AND bits \<noteq> 0"

definition pktFlagString :: "byte \<Rightarrow> string" where
  "pktFlagString f =
     go_Join (map snd (filter (\<lambda>(bits, name). has_flag f bits)
       [(tcpSYN, ''SYN''), (tcpACK, ''ACK''), (tcpPSH, ''PSH''), (tcpFIN, ''FIN''), (tcpRST, ''RST''), (tcpURG, ''URG'')])) '',''"

section \<open>TCP health\<close>

definition fromClientDir :: "pktPacket \<Rightarrow> bool" where
  "fromClientDir p \<longleftrightarrow> p_Dir p = ''c2s''"

definition hasIssue :: "pktPacket \<Rightarrow> string \<Rightarrow> bool" where
  "hasIssue p s = list_ex (\<lambda>i. go_HasPrefix i s) (p_Issues p)"

text \<open>How many sequence numbers a segment takes.\<close>

definition seq_len :: "pktTCP \<Rightarrow> 32 word" where
  "seq_len tcp = of_nat (length (t_payload tcp)) + (if has_flag (t_flags tcp) (tcpSYN OR tcpFIN) then 1 else 0)"

definition health_handshake :: "pktPacket \<Rightarrow> pktConn \<Rightarrow> pktTCP \<Rightarrow> int \<Rightarrow> pktPacket \<times> pktConn" where
  "health_handshake p c tcp ts =
     (let syn = has_flag (t_flags tcp) tcpSYN; ack = has_flag (t_flags tcp) tcpACK;
          (p1, c1) =
            (if syn \<and> \<not> ack then
               (p, (if \<not> c_haveSyn c then c\<lparr>c_synTS := ts, c_synNo := p_No p\<rparr> else c)
                    \<lparr>c_haveSyn := True, c_synced := True, c_c2s := (c_c2s c)\<lparr>ds_synced := True\<rparr>,
                     c_s2c := (c_s2c c)\<lparr>ds_synced := True\<rparr>\<rparr>)
             else if syn \<and> ack \<and> c_haveSyn c then
               (p\<lparr>p_LagNS := 1000 * micros ts (c_synTS c)\<rparr>, c\<lparr>c_synAcked := True\<rparr>)
             else (p, c))
      in (p1, if t_payload tcp \<noteq> [] then c1\<lparr>c_sawData := True\<rparr> else c1))"

definition health_sequence :: "pktPacket \<Rightarrow> pktDirState \<Rightarrow> pktTCP \<Rightarrow> pktPacket \<times> pktDirState" where
  "health_sequence p dir tcp =
     (let n = seq_len tcp;
          (p1, dir1) =
            (if ds_haveSeq dir then
               (if n > 0 \<and> t_seq tcp + n \<le> ds_nextSeq dir then (add_issue ''TCP retransmission'' p, dir)
                else if t_seq tcp > ds_nextSeq dir then
                  (add_issue (''TCP gap '' @ em_dash @ '' '' @ go_utoa (unat (t_seq tcp - ds_nextSeq dir)) @ '' bytes missing'') p,
                   dir\<lparr>ds_buf := []\<rparr>)
                else (p, dir))
             else (p, dir))
      in (p1, if \<not> ds_haveSeq dir1 \<or> t_seq tcp + n > ds_nextSeq dir1
              then dir1\<lparr>ds_nextSeq := t_seq tcp + n, ds_haveSeq := True\<rparr> else dir1))"

definition health_reset :: "pktPacket \<Rightarrow> pktConn \<Rightarrow> pktTCP \<Rightarrow> pktPacket \<times> pktConn" where
  "health_reset p c tcp =
     (if has_flag (t_flags tcp) tcpRST then
        (let p1 = add_issue ''TCP reset'' p in
         if c_haveSyn c \<and> \<not> c_synAcked c
         then add_issue (''Connection refused '' @ em_dash @ '' client sees 2003 CR_CONN_HOST_ERROR'') p1 else p1,
         c\<lparr>c_Reset := True\<rparr>)
      else (p, c))"

definition health_closed :: "pktPacket \<Rightarrow> pktConn \<Rightarrow> pktTCP \<Rightarrow> pktPacket" where
  "health_closed p c tcp =
     (if \<not> fromClientDir p \<and> has_flag (t_flags tcp) (tcpRST OR tcpFIN) \<and> c_pendingOpen c then
        add_issue (''Server closed the connection with '' @ c_pendingCmd c @ '' in flight '' @ em_dash @ '' client sees ''
          @ (if has_flag (t_flags tcp) tcpFIN \<and> \<not> has_flag (t_flags tcp) tcpRST
             then ''2006 CR_SERVER_GONE_ERROR'' else ''2013 CR_SERVER_LOST'')) p
      else p)"

definition health_acks :: "pktPacket \<Rightarrow> pktDirState \<Rightarrow> pktTCP \<Rightarrow> pktPacket \<times> pktDirState" where
  "health_acks p dir tcp =
     (let p1 = (if t_window tcp = 0 \<and> \<not> has_flag (t_flags tcp) (tcpRST OR tcpSYN)
                then add_issue (''TCP zero window '' @ em_dash @ '' receiver buffer full'') p else p) in
      if t_payload tcp = [] \<and> has_flag (t_flags tcp) tcpACK \<and> \<not> has_flag (t_flags tcp) (tcpSYN OR tcpFIN OR tcpRST) then
        let (p2, dir1) =
              (if ds_lastAck dir = t_ack tcp \<and> ds_lastWin dir = t_window tcp then
                 let k = ds_dupAcks dir + 1 in
                 (if k \<ge> 2 then add_issue (''TCP duplicate ACK (#'' @ go_utoa k @ '')'') p1 else p1, dir\<lparr>ds_dupAcks := k\<rparr>)
               else (p1, dir\<lparr>ds_dupAcks := 0\<rparr>))
        in (p2, dir1\<lparr>ds_lastAck := t_ack tcp, ds_lastWin := t_window tcp\<rparr>)
      else (p1, dir))"

definition pktTCPHealth :: "pktPacket \<Rightarrow> pktConn \<Rightarrow> bool \<Rightarrow> pktTCP \<Rightarrow> int \<Rightarrow> pktPacket \<times> pktConn" where
  "pktTCPHealth p c fromClient tcp ts =
     (let (p1, c1) = health_handshake p c tcp ts;
          (p2, d2) = health_sequence p1 (dir_of fromClient c1) tcp;
          (p3, c3) = health_reset p2 (set_dir fromClient d2 c1) tcp;
          p4 = health_closed p3 c3 tcp;
          (p5, d5) = health_acks p4 (dir_of fromClient c3) tcp
      in (p5, set_dir fromClient d5 c3))"

text \<open>
  What the decoder does with a frame's payload next: a frame marked as a retransmission is not
  handed to the protocol decoder.
\<close>

definition hands_on :: "pktPacket \<Rightarrow> pktTCP \<Rightarrow> bool" where
  "hands_on p tcp \<longleftrightarrow> t_payload tcp \<noteq> [] \<and> \<not> hasIssue p ''TCP retransmission''"

section \<open>Other names\<close>

definition pktNonIPName :: "nat \<Rightarrow> string" where
  "pktNonIPName et = (if et = 0x0806 then ''ARP'' else if et = 0x8035 then ''RARP'' else if et = 0x88cc then ''LLDP''
     else ''0x'' @ go_04x et)"

definition icmp_codes :: "(byte \<times> string) list" where
  "icmp_codes = [(0, ''net''), (1, ''host''), (2, ''protocol''), (3, ''port''), (4, ''fragmentation needed'')]"

definition pktICMPInfo :: "bytes \<Rightarrow> string" where
  "pktICMPInfo b =
     (if b = [] then ''ICMP''
      else if b ! 0 = 0 then ''echo reply''
      else if b ! 0 = 8 then ''echo request''
      else if b ! 0 = 3 then
        (if length b > 1 then (case map_of icmp_codes (b ! 1) of Some s \<Rightarrow> s | None \<Rightarrow> ''destination'') else ''destination'')
          @ '' unreachable''
      else if b ! 0 = 11 then ''time exceeded''
      else ''ICMP type '' @ go_utoa (unat (b ! 0)))"

fun pktDedupe_loop :: "string list \<Rightarrow> string list \<Rightarrow> string list" where
  "pktDedupe_loop [] seen = []"
| "pktDedupe_loop (s # ss) seen = (if s \<in> set seen then pktDedupe_loop ss seen else s # pktDedupe_loop ss (s # seen))"

definition pktDedupe :: "string list \<Rightarrow> string list" where
  "pktDedupe xs = (if length xs < 2 then xs else pktDedupe_loop xs [])"

text \<open>The greeting test: a NUL within the first 32 bytes of version text, after three characters at least.\<close>

function greeting_scan :: "bytes \<Rightarrow> nat \<Rightarrow> bool" where
  "greeting_scan b i =
     (if i < length b \<and> i < 5 + 32 then
        if b ! i = 0 then i \<ge> 8
        else if b ! i < 0x20 \<or> b ! i > 0x7e then False
        else greeting_scan b (i + 1)
      else False)"
  by pat_completeness auto
termination
  by (relation "measure (\<lambda>(b, i). length b - i)") auto

declare greeting_scan.simps [simp del]

definition mysqlLooksLikeGreeting :: "bytes \<Rightarrow> bool" where
  "mysqlLooksLikeGreeting b =
     (if length b < 12 \<or> b ! 3 \<noteq> 0 \<or> b ! 4 \<noteq> 10 then False else greeting_scan b 5)"

section \<open>Lemmas on the readers\<close>

text \<open>What every frame returned satisfies: it lies in the buffer where it says, and the reader moves on.\<close>

definition frame_ok :: "pktReader \<Rightarrow> pktFrame \<Rightarrow> pktReader \<Rightarrow> bool" where
  "frame_ok r f r' \<longleftrightarrow> r_buf r' = r_buf r \<and> r_ng r' = r_ng r \<and> r_pos r < r_pos r' \<and> r_pos r' \<le> length (r_buf r)
     \<and> r_pos r \<le> fr_off f \<and> fr_off f + length (fr_data f) \<le> r_pos r'
     \<and> fr_data f = slice (fr_off f) (fr_off f + length (fr_data f)) (r_buf r)"

lemma slice_slice: "i + j \<le> k \<Longrightarrow> slice a b (slice i k x) = slice (i + a) (min (i + b) k) x"
proof -
  assume "i + j \<le> k"
  have "take (b - a) (drop a (take (k - i) (drop i x))) = take (b - a) (take (k - i - a) (drop (i + a) x))"
    by (simp add: drop_take add.commute)
  then show ?thesis by (simp add: slice_def min_def)
qed

lemma frame_ok_body:
  assumes "12 \<le> blen" "r_pos r + blen \<le> length (r_buf r)" "a + cap \<le> blen - 12"
  shows "frame_ok r \<lparr>fr_ts = t, fr_data = slice a (a + cap) (slice (r_pos r + 8) (r_pos r + blen - 4) (r_buf r)),
      fr_orig = og, fr_off = r_pos r + 8 + a\<rparr> (r\<lparr>r_pos := r_pos r + blen\<rparr>)"
proof -
  let ?body = "slice (r_pos r + 8) (r_pos r + blen - 4) (r_buf r)"
  have m: "min (r_pos r + 8 + (a + cap)) (r_pos r + blen - 4) = r_pos r + 8 + a + cap" using assms by linarith
  have s: "slice a (a + cap) ?body = slice (r_pos r + 8 + a) (r_pos r + 8 + a + cap) (r_buf r)"
    using slice_slice [of "r_pos r + 8" 0 "r_pos r + blen - 4" a "a + cap" "r_buf r"] assms m by (simp add: add.assoc)
  have l: "length (slice (r_pos r + 8 + a) (r_pos r + 8 + a + cap) (r_buf r)) = cap" using assms by simp
  show ?thesis unfolding frame_ok_def s using l assms by simp
qed

lemma frame_ok_weaken: "frame_ok (r\<lparr>r_pos := p\<rparr>) f r' \<Longrightarrow> r_pos r < p \<Longrightarrow> frame_ok r f r'"
  by (auto simp: frame_ok_def)

lemma ng_block_cases:
  assumes "ng_block le pos t body = Some f"
  obtains (enhanced) tm cap og where "20 + cap \<le> length body"
      "f = \<lparr>fr_ts = tm, fr_data = slice 20 (20 + cap) body, fr_orig = og, fr_off = pos + 8 + 20\<rparr>"
    | (simple) tm og where "4 \<le> length body"
      "f = \<lparr>fr_ts = tm, fr_data = slice 4 (4 + (length body - 4)) body, fr_orig = og, fr_off = pos + 8 + 4\<rparr>"
proof (cases "t = 6")
  case True
  with assms show ?thesis
    by (intro enhanced [of "ord32 le (drop 12 body)"]) (auto simp: ng_block_def Let_def split: if_splits)
next
  case False
  have "drop 4 body = slice 4 (4 + (length body - 4)) body" by (simp add: slice_def)
  with False assms simple show ?thesis by (auto simp: ng_block_def split: if_splits)
qed

lemma nextNG_ok: "nextNG r = Some (f, r') \<Longrightarrow> frame_ok r f r'"
proof (induction r rule: nextNG.induct)
  case (1 r)
  define t where "t = ord32 (r_le r) (drop (r_pos r) (r_buf r))"
  define blen where "blen = ord32 (r_le r) (drop (r_pos r + 4) (r_buf r))"
  define body where "body = slice (r_pos r + 8) (r_pos r + blen - 4) (r_buf r)"
  have g: "r_pos r + 12 \<le> length (r_buf r)" "\<not> (blen < 12 \<or> r_pos r + blen > length (r_buf r))"
    using "1.prems" by (auto simp: nextNG.simps [of r] Let_def blen_def split: if_splits)
  have "r_pos r + blen - 4 \<le> length (r_buf r)" using g(2) by linarith
  then have lb: "length body = blen - 12" using g(2) by (simp add: body_def)
  have e: "nextNG r = (case ng_block (r_le r) (r_pos r) t body of
      Some f \<Rightarrow> Some (f, r\<lparr>r_pos := r_pos r + blen\<rparr>) | None \<Rightarrow> nextNG (r\<lparr>r_pos := r_pos r + blen\<rparr>))"
    unfolding nextNG.simps [of r] Let_def t_def [symmetric] blen_def [symmetric] body_def [symmetric]
    using g by simp
  show ?case
  proof (cases "ng_block (r_le r) (r_pos r) t body")
    case None
    then have n: "nextNG (r\<lparr>r_pos := r_pos r + blen\<rparr>) = Some (f, r')" using "1.prems" e by simp
    have "frame_ok (r\<lparr>r_pos := r_pos r + blen\<rparr>) f r'"
      by (rule "1.IH" [OF g(1) t_def blen_def g(2) refl None [unfolded body_def] n])
    moreover have "r_pos r < r_pos r + blen" using g(2) by linarith
    ultimately show ?thesis by (rule frame_ok_weaken)
  next
    case (Some f')
    then have f': "f' = f" and r': "r' = r\<lparr>r_pos := r_pos r + blen\<rparr>" using "1.prems" e by simp_all
    from Some [unfolded f'] show ?thesis
    proof (cases rule: ng_block_cases)
      case (enhanced tm cap og)
      show ?thesis unfolding enhanced(2) r' body_def
        by (rule frame_ok_body) (use g(2) enhanced(1) lb in auto)
    next
      case (simple tm og)
      show ?thesis unfolding simple(2) r' body_def
        by (rule frame_ok_body) (use g(2) simple(1) lb in \<open>auto simp: body_def\<close>)
    qed
  qed
qed

lemma next_frame_ok: "next_frame r = Some (f, r') \<Longrightarrow> frame_ok r f r'"
proof (cases "r_ng r")
  case True
  assume "next_frame r = Some (f, r')"
  with True show ?thesis by (simp add: next_frame_def nextNG_ok)
next
  case False
  assume "next_frame r = Some (f, r')"
  with False show ?thesis by (auto simp: next_frame_def Let_def frame_ok_def split: if_splits)
qed

text \<open>All the frames of a capture, as the decoder's loop takes them.\<close>

function all_frames :: "pktReader \<Rightarrow> pktFrame list" where
  "all_frames r = (case next_frame r of None \<Rightarrow> [] | Some (f, r') \<Rightarrow> f # all_frames r')"
  by pat_completeness auto
termination
proof (relation "measure (\<lambda>r. length (r_buf r) - r_pos r)", goal_cases)
  case (2 r fr f r')
  then have "frame_ok r f r'" by (intro next_frame_ok) simp
  then show ?case by (auto simp: frame_ok_def)
qed simp

declare all_frames.simps [simp del]

lemma all_frames_in_buffer:
  "f \<in> set (all_frames r) \<Longrightarrow>
     fr_off f + length (fr_data f) \<le> length (r_buf r)
     \<and> fr_data f = slice (fr_off f) (fr_off f + length (fr_data f)) (r_buf r)"
proof (induction r rule: all_frames.induct)
  case (1 r)
  have "next_frame r \<noteq> None" using "1.prems" by (cases "next_frame r") (simp_all add: all_frames.simps [of r])
  then obtain g r' where n: "next_frame r = Some (g, r')" by auto
  have m: "f = g \<or> f \<in> set (all_frames r')" using "1.prems" n by (simp add: all_frames.simps [of r])
  note ok = next_frame_ok [OF n]
  from m show ?case
  proof
    assume "f = g"
    with ok show ?case by (simp add: frame_ok_def)
  next
    assume "f \<in> set (all_frames r')"
    from "1.IH" [OF n refl this] ok show ?case by (simp add: frame_ok_def)
  qed
qed

lemma all_frames_sorted:
  "sorted_wrt (\<lambda>f g. fr_off f + length (fr_data f) \<le> fr_off g) (all_frames r) \<and> (\<forall>f \<in> set (all_frames r). r_pos r \<le> fr_off f)"
proof (induction r rule: all_frames.induct)
  case (1 r)
  show ?case
  proof (cases "next_frame r")
    case None
    then show ?thesis by (simp add: all_frames.simps [of r])
  next
    case (Some gr)
    obtain g r' where gr: "gr = (g, r')" by (cases gr)
    note ok = next_frame_ok [OF Some [unfolded gr]]
    have "sorted_wrt (\<lambda>f g. fr_off f + length (fr_data f) \<le> fr_off g) (all_frames r')"
      and lo: "\<forall>f \<in> set (all_frames r'). r_pos r' \<le> fr_off f"
      using "1.IH" [OF Some gr [symmetric]] by simp_all
    moreover have "r_pos r \<le> fr_off g" "fr_off g + length (fr_data g) \<le> r_pos r'" "r_pos r < r_pos r'"
      using ok by (auto simp: frame_ok_def)
    moreover have "all_frames r = g # all_frames r'" using Some gr by (simp add: all_frames.simps [of r])
    ultimately show ?thesis by (auto intro: order_trans less_imp_le)
  qed
qed

section \<open>Capture files as they are written\<close>

definition enc32 :: "bool \<Rightarrow> nat \<Rightarrow> bytes" where
  "enc32 le v = (if le then le_enc 4 v else rev (le_enc 4 v))"

text \<open>A record: seconds, fraction, length on the wire, bytes.\<close>

definition enc_rec :: "bool \<Rightarrow> nat \<times> nat \<times> nat \<times> bytes \<Rightarrow> bytes" where
  "enc_rec le rec = (case rec of (sec, frac, orig, data) \<Rightarrow>
     enc32 le sec @ enc32 le frac @ enc32 le (length data) @ enc32 le orig @ data)"

definition rec_ok :: "nat \<times> nat \<times> nat \<times> bytes \<Rightarrow> bool" where
  "rec_ok rec \<longleftrightarrow> (case rec of (sec, frac, orig, data) \<Rightarrow>
     sec < 2 ^ 32 \<and> frac < 2 ^ 32 \<and> orig < 2 ^ 32 \<and> length data < 2 ^ 32)"

definition rec_frame :: "bool \<Rightarrow> nat \<times> nat \<times> nat \<times> bytes \<Rightarrow> int \<times> bytes \<times> nat" where
  "rec_frame nano rec = (case rec of (sec, frac, orig, data) \<Rightarrow>
     (int sec * 10 ^ 9 + int (if nano then frac else frac * 1000), data, orig))"

definition pcap_file :: "bool \<Rightarrow> bool \<Rightarrow> bytes \<Rightarrow> nat \<Rightarrow> (nat \<times> nat \<times> nat \<times> bytes) list \<Rightarrow> bytes" where
  "pcap_file le nano hdr link recs =
     enc32 le (if nano then 0xa1b23c4d else 0xa1b2c3d4) @ hdr @ enc32 le link @ concat (map (enc_rec le) recs)"

lemma length_enc32 [simp]: "length (enc32 le v) = 4"
  by (simp add: enc32_def)

lemma ord32_enc32: "v < 2 ^ 32 \<Longrightarrow> ord32 le (enc32 le v @ t) = v"
  using le_nat_le_enc [of v 4] by (simp add: ord32_def enc32_def le_u32_def be_u32_def be_nat_def)

lemma length_enc_rec: "length (enc_rec le (sec, frac, orig, data)) = 16 + length data"
  by (simp add: enc_rec_def)

lemma next_frame_rec:
  assumes "\<not> r_ng r" "r_buf r = pre @ enc_rec (r_le r) rec @ post" "r_pos r = length pre" "rec_ok rec"
  shows "\<exists>f. next_frame r = Some (f, r\<lparr>r_pos := length (pre @ enc_rec (r_le r) rec)\<rparr>)
    \<and> (fr_ts f, fr_data f, fr_orig f) = rec_frame (r_nano r) rec"
proof -
  obtain sec frac orig data where rec: "rec = (sec, frac, orig, data)" by (cases rec)
  let ?e = "enc32 (r_le r)"
  have b: "sec < 2 ^ 32" "frac < 2 ^ 32" "orig < 2 ^ 32" "length data < 2 ^ 32" using assms(4) by (simp_all add: rec rec_ok_def)
  have h: "drop (r_pos r) (r_buf r) = ?e sec @ ?e frac @ ?e (length data) @ ?e orig @ data @ post"
    using assms(2,3) by (simp add: rec enc_rec_def)
  have h4: "drop 4 (drop (r_pos r) (r_buf r)) = ?e frac @ ?e (length data) @ ?e orig @ data @ post"
    and h8: "drop 8 (drop (r_pos r) (r_buf r)) = ?e (length data) @ ?e orig @ data @ post"
    and h12: "drop 12 (drop (r_pos r) (r_buf r)) = ?e orig @ data @ post"
    unfolding h by simp_all
  have n: "\<not> r_pos r + 16 > length (r_buf r)" "\<not> r_pos r + 16 + length data > length (r_buf r)"
    using assms(2,3) by (simp_all add: rec length_enc_rec)
  have s: "slice (r_pos r + 16) (r_pos r + 16 + length data) (r_buf r) = data"
    using assms(2,3) by (simp add: rec slice_def enc_rec_def)
  have h0: "ord32 (r_le r) (drop (r_pos r) (r_buf r)) = sec" unfolding h by (rule ord32_enc32 [OF b(1)])
  show ?thesis
    unfolding next_frame_def Let_def h0 h4 h8 h12 ord32_enc32 [OF b(2)] ord32_enc32 [OF b(3)] ord32_enc32 [OF b(4)]
    using assms(1,3) n s by (simp add: rec rec_frame_def length_enc_rec)
qed

lemma all_frames_recs:
  "\<not> r_ng r \<Longrightarrow> r_buf r = pre @ concat (map (enc_rec (r_le r)) recs) @ tail \<Longrightarrow> r_pos r = length pre \<Longrightarrow>
   \<forall>x \<in> set recs. rec_ok x \<Longrightarrow> length tail < 16 \<Longrightarrow>
   map (\<lambda>f. (fr_ts f, fr_data f, fr_orig f)) (all_frames r) = map (rec_frame (r_nano r)) recs"
proof (induction recs arbitrary: r pre)
  case Nil
  then show ?case by (simp add: all_frames.simps [of r] next_frame_def)
next
  case (Cons x recs)
  have buf: "r_buf r = pre @ enc_rec (r_le r) x @ concat (map (enc_rec (r_le r)) recs) @ tail" using Cons.prems(2) by simp
  from next_frame_rec [OF Cons.prems(1) buf Cons.prems(3)] Cons.prems(4)
  obtain f where f: "next_frame r = Some (f, r\<lparr>r_pos := length (pre @ enc_rec (r_le r) x)\<rparr>)"
    "(fr_ts f, fr_data f, fr_orig f) = rec_frame (r_nano r) x" by auto
  let ?r = "r\<lparr>r_pos := length (pre @ enc_rec (r_le r) x)\<rparr>"
  have "map (\<lambda>f. (fr_ts f, fr_data f, fr_orig f)) (all_frames ?r) = map (rec_frame (r_nano ?r)) recs"
    by (rule Cons.IH [of ?r "pre @ enc_rec (r_le r) x"]) (use Cons.prems buf in simp_all)
  with f show ?case by (simp add: all_frames.simps [of r])
qed

lemma le_enc_4: "le_enc 4 v = [of_nat (v mod 256), of_nat (v div 256 mod 256), of_nat (v div 65536 mod 256), of_nat (v div 16777216 mod 256)]"
proof -
  have four: "(4 :: nat) = Suc (Suc (Suc (Suc 0)))" by simp
  show ?thesis unfolding four by (simp add: div_mult2_eq [symmetric])
qed

lemma pcap_magic:
  "le_u32 (enc32 True 0xa1b2c3d4 @ t) = 0xa1b2c3d4" "le_u32 (enc32 True 0xa1b23c4d @ t) = 0xa1b23c4d"
  "be_u32 (enc32 False 0xa1b2c3d4 @ t) = 0xa1b2c3d4" "be_u32 (enc32 False 0xa1b23c4d @ t) = 0xa1b23c4d"
  "be_u32 (enc32 True 0xa1b23c4d @ t) = 0x4d3cb2a1" "le_u32 (enc32 False 0xa1b2c3d4 @ t) = 0xd4c3b2a1"
  "le_u32 (enc32 False 0xa1b23c4d @ t) = 0x4d3cb2a1"
  using ord32_enc32 [of "0xa1b2c3d4" True t] ord32_enc32 [of "0xa1b23c4d" True t]
    ord32_enc32 [of "0xa1b2c3d4" False t] ord32_enc32 [of "0xa1b23c4d" False t]
  by (simp_all add: ord32_def) (simp_all add: enc32_def le_u32_def be_u32_def be_nat_def le_enc_4)

lemma pktOpen_pcap:
  assumes "length hdr = 16" "link < 2 ^ 32"
  shows "\<exists>fmt. pktOpen (pcap_file le nano hdr link recs @ tail) =
    Inr \<lparr>r_buf = pcap_file le nano hdr link recs @ tail, r_le = le, r_nano = nano, r_linkType = link,
         r_format = fmt, r_pos = 24, r_ng = False\<rparr>"
proof -
  let ?b = "pcap_file le nano hdr link recs @ tail"
  have l: "\<not> length ?b < 24" using assms(1) by (simp add: pcap_file_def)
  have d: "drop 20 ?b = enc32 le link @ concat (map (enc_rec le) recs) @ tail" using assms(1) by (simp add: pcap_file_def)
  have k: "ord32 le (drop 20 ?b) = link" unfolding d by (rule ord32_enc32 [OF assms(2)])
  obtain t where t: "?b = enc32 le (if nano then 0xa1b23c4d else 0xa1b2c3d4) @ t" by (simp add: pcap_file_def)
  define b where "b = ?b"
  have m1: "le_u32 b = (if le then if nano then 0xa1b23c4d else 0xa1b2c3d4 else if nano then 0x4d3cb2a1 else 0xd4c3b2a1)"
    unfolding b_def t by (cases le; cases nano; simp add: pcap_magic)
  have m2: "le \<and> \<not> nano \<or> be_u32 b = (if le then 0x4d3cb2a1 else if nano then 0xa1b23c4d else 0xa1b2c3d4)"
    unfolding b_def t by (cases le; cases nano; simp add: pcap_magic)
  show ?thesis
    unfolding b_def [symmetric] using l k m1 m2 unfolding b_def [symmetric]
    by (cases le; cases nano) (simp_all add: pktOpen_def Let_def)
qed

lemma pcap_read:
  assumes "length hdr = 16" "link < 2 ^ 32" "\<forall>x \<in> set recs. rec_ok x" "length tail < 16"
  shows "\<exists>r. pktOpen (pcap_file le nano hdr link recs @ tail) = Inr r \<and> r_linkType r = link
    \<and> map (\<lambda>f. (fr_ts f, fr_data f, fr_orig f)) (all_frames r) = map (rec_frame nano) recs"
proof -
  let ?pre = "enc32 le (if nano then 0xa1b23c4d else 0xa1b2c3d4) @ hdr @ enc32 le link"
  obtain fmt where o: "pktOpen (pcap_file le nano hdr link recs @ tail) =
    Inr \<lparr>r_buf = pcap_file le nano hdr link recs @ tail, r_le = le, r_nano = nano, r_linkType = link,
         r_format = fmt, r_pos = 24, r_ng = False\<rparr>"
    using pktOpen_pcap [OF assms(1,2)] by blast
  let ?r = "\<lparr>r_buf = pcap_file le nano hdr link recs @ tail, r_le = le, r_nano = nano, r_linkType = link,
         r_format = fmt, r_pos = 24, r_ng = False\<rparr>"
  have "map (\<lambda>f. (fr_ts f, fr_data f, fr_orig f)) (all_frames ?r) = map (rec_frame (r_nano ?r)) recs"
    by (rule all_frames_recs [of ?r ?pre]) (use assms in \<open>simp_all add: pcap_file_def\<close>)
  with o show ?thesis by auto
qed

section \<open>Properties\<close>

text \<open>
  C31. Reading back a pcap file, in either byte order and with microsecond or nanosecond
  times, gives exactly the frames written into it, with their times, bytes and lengths on the
  wire, and the link type of its header; a last record whose header is incomplete is ignored.
\<close>

theorem pcap_roundtrip:
  assumes "length hdr = 16" "link < 2 ^ 32" "\<forall>x \<in> set recs. rec_ok x" "length tail < 16"
  shows "\<exists>r. pktOpen (pcap_file le nano hdr link recs @ tail) = Inr r \<and> r_linkType r = link
    \<and> map (\<lambda>f. (fr_ts f, fr_data f, fr_orig f)) (all_frames r) = map (rec_frame nano) recs"
  using assms by (rule pcap_read)

lemma pcap_roundtrip_witness:
  "\<exists>r. pktOpen (pcap_file False True (replicate 16 0) 1 [(5, 7, 60, [1, 2, 3])] @ [9]) = Inr r \<and> r_linkType r = 1
    \<and> map (\<lambda>f. (fr_ts f, fr_data f, fr_orig f)) (all_frames r) = [(5000000007, [1, 2, 3], 60)]"
  using pcap_roundtrip [of "replicate 16 0" 1 "[(5, 7, 60, [1, 2, 3])]" "[9]" False True]
  by (simp add: rec_ok_def rec_frame_def)

text \<open>
  Whatever bytes are opened as a capture, in any of the formats: every frame delivered is
  the part of the buffer its offset and length say, inside the buffer, and the frames follow
  each other without overlap. (The hex dump of a frame is cut out of the buffer by these.)
\<close>

theorem capture_frames_in_buffer:
  assumes "pktOpen buf = Inr r"
  shows "(\<forall>f \<in> set (all_frames r). fr_off f + length (fr_data f) \<le> length buf
      \<and> fr_data f = slice (fr_off f) (fr_off f + length (fr_data f)) buf)
    \<and> sorted_wrt (\<lambda>f g. fr_off f + length (fr_data f) \<le> fr_off g) (all_frames r)"
proof -
  have "r_buf r = buf" using assms by (auto simp: pktOpen_def pktOpenNG_def Let_def split: if_splits)
  then show ?thesis using all_frames_in_buffer [of _ r] all_frames_sorted [of r] by auto
qed

lemma capture_frames_in_buffer_witness:
  "\<exists>r. pktOpen (pcap_file True False (replicate 16 0) 1 [(5, 7, 60, [1, 2, 3])]) = Inr r
    \<and> sorted_wrt (\<lambda>f g. fr_off f + length (fr_data f) \<le> fr_off g) (all_frames r)"
proof -
  from pktOpen_pcap [of "replicate 16 0" 1 True False "[(5, 7, 60, [1, 2, 3])]" "[]"]
  obtain r where r: "pktOpen (pcap_file True False (replicate 16 0) 1 [(5, 7, 60, [1, 2, 3])]) = Inr r" by auto
  with capture_frames_in_buffer [OF r] show ?thesis by blast
qed

section \<open>Following the sequence numbers of a connection\<close>

text \<open>One segment, while its numbers do not wrap, in unbounded arithmetic.\<close>

lemma health_sequence_step:
  assumes "ds_haveSeq d" and "unat (t_seq tcp) + unat (seq_len tcp) < 2 ^ 32"
  shows "fst (health_sequence p d tcp) =
      (if 0 < unat (seq_len tcp) \<and> unat (t_seq tcp) + unat (seq_len tcp) \<le> unat (ds_nextSeq d)
       then add_issue ''TCP retransmission'' p
       else if unat (t_seq tcp) > unat (ds_nextSeq d)
       then add_issue (''TCP gap '' @ em_dash @ '' '' @ go_utoa (unat (t_seq tcp) - unat (ds_nextSeq d)) @ '' bytes missing'') p
       else p)
    \<and> snd (health_sequence p d tcp) = d\<lparr>
        ds_nextSeq := of_nat (max (unat (ds_nextSeq d)) (unat (t_seq tcp) + unat (seq_len tcp))),
        ds_buf := if unat (t_seq tcp) > unat (ds_nextSeq d) then [] else ds_buf d\<rparr>"
proof -
  let ?n = "seq_len tcp" and ?s = "t_seq tcp" and ?x = "ds_nextSeq d"
  have u: "unat (?s + ?n) = unat ?s + unat ?n" using assms(2) by (simp add: unat_plus_if')
  have le: "?s + ?n \<le> ?x \<longleftrightarrow> unat ?s + unat ?n \<le> unat ?x" by (simp add: word_le_nat_alt u)
  have lt: "?x < ?s \<longleftrightarrow> unat ?x < unat ?s" "?x < ?s + ?n \<longleftrightarrow> unat ?x < unat ?s + unat ?n" "0 < ?n \<longleftrightarrow> 0 < unat ?n"
    by (simp_all add: word_less_nat_alt u)
  have sub: "unat (?s - ?x) = unat ?s - unat ?x" if "unat ?x < unat ?s" using that by (simp add: unat_sub_if')
  have m: "of_nat (unat ?s + unat ?n) = ?s + ?n" by simp
  have d0: "d\<lparr>ds_haveSeq := True\<rparr> = d" "d\<lparr>ds_nextSeq := ?x\<rparr> = d" using assms(1) by simp_all
  have d1: "d = d\<lparr>ds_nextSeq := ?s\<rparr>" if "unat ?x = unat ?s"
  proof -
    have "?x = ?s" using that by (simp add: word_unat_eq_iff)
    with d0(2) show ?thesis by simp
  qed
  show ?thesis
    using assms(1) sub unfolding health_sequence_def Let_def
    by (auto simp: le lt max_def m d0 intro: d1)
qed

lemma health_sequence_first:
  "\<not> ds_haveSeq d \<Longrightarrow> health_sequence p d tcp = (p, d\<lparr>ds_nextSeq := t_seq tcp + seq_len tcp, ds_haveSeq := True\<rparr>)"
  by (simp add: health_sequence_def)

text \<open>The numbers a segment takes, and the bytes it carries.\<close>

definition seg_lo :: "pktTCP \<Rightarrow> nat" where "seg_lo tcp = unat (t_seq tcp)"
definition seg_hi :: "pktTCP \<Rightarrow> nat" where "seg_hi tcp = unat (t_seq tcp) + unat (seq_len tcp)"
definition seg_bytes :: "pktTCP \<Rightarrow> nat set" where "seg_bytes tcp = {seg_lo tcp..<seg_hi tcp}"

definition gap_issue :: "nat \<Rightarrow> string" where
  "gap_issue k = ''TCP gap '' @ em_dash @ '' '' @ go_utoa k @ '' bytes missing''"

text \<open>
  The life of a connection as far as the sequence numbers go: frames of either direction pass
  through \<open>pktTCPHealth\<close>, and between them the decoders change the connection in any way that
  leaves the sequence numbers of both directions alone. \<open>fs\<close> are the segments so far.
\<close>

definition seq_state :: "pktDirState \<Rightarrow> bool \<times> 32 word" where
  "seq_state d = (ds_haveSeq d, ds_nextSeq d)"

inductive health_run :: "(bool \<times> pktTCP) list \<Rightarrow> pktConn \<Rightarrow> bool" where
  run_new: "health_run [] new_conn"
| run_frame: "health_run fs c \<Longrightarrow> health_run (fs @ [(fc, tcp)]) (snd (pktTCPHealth p c fc tcp ts))"
| run_decoder: "health_run fs c \<Longrightarrow> seq_state (c_c2s c') = seq_state (c_c2s c) \<Longrightarrow>
     seq_state (c_s2c c') = seq_state (c_s2c c) \<Longrightarrow> health_run fs c'"

definition segs_of :: "bool \<Rightarrow> (bool \<times> pktTCP) list \<Rightarrow> pktTCP list" where
  "segs_of fc fs = map snd (filter (\<lambda>f. fst f = fc) fs)"

lemma segs_of_simps [simp]:
  "segs_of fc [] = []" "segs_of fc (fs @ [(d, t)]) = (if d = fc then segs_of fc fs @ [t] else segs_of fc fs)"
  by (simp_all add: segs_of_def)

lemma segs_of_set: "t \<in> set (segs_of fc fs) \<Longrightarrow> (fc, t) \<in> set fs"
  by (auto simp: segs_of_def)

text \<open>What the rest of \<open>pktTCPHealth\<close> leaves alone.\<close>

lemma handshake_dirs:
  "seq_state (dir_of d (snd (health_handshake p c tcp ts))) = seq_state (dir_of d c)"
  "ds_buf (dir_of d (snd (health_handshake p c tcp ts))) = ds_buf (dir_of d c)"
  "p_Issues (fst (health_handshake p c tcp ts)) = p_Issues p"
  by (simp_all add: health_handshake_def Let_def dir_of_def seq_state_def)

lemma reset_dirs: "dir_of d (snd (health_reset p c tcp)) = dir_of d c"
  by (simp add: health_reset_def dir_of_def)

lemma acks_dirs:
  "seq_state (snd (health_acks p d tcp)) = seq_state d" "ds_buf (snd (health_acks p d tcp)) = ds_buf d"
  by (simp_all add: health_acks_def Let_def seq_state_def)

lemma dir_of_set_dir_other: "d \<noteq> fc \<Longrightarrow> dir_of d (set_dir fc x c) = dir_of d c"
  by (cases d; cases fc) (simp_all add: dir_of_def set_dir_def)

definition seq_mark :: "string \<Rightarrow> bool" where
  "seq_mark i \<longleftrightarrow> i = ''TCP retransmission'' \<or> (\<exists>k. i = gap_issue k)"

lemma marks_kept:
  assumes "seq_mark i"
  shows "i \<in> set (p_Issues (fst (health_reset p c tcp))) \<longleftrightarrow> i \<in> set (p_Issues p)"
    and "i \<in> set (p_Issues (health_closed p c tcp)) \<longleftrightarrow> i \<in> set (p_Issues p)"
    and "i \<in> set (p_Issues (fst (health_acks p d tcp))) \<longleftrightarrow> i \<in> set (p_Issues p)"
  using assms
  by (auto simp: seq_mark_def gap_issue_def health_reset_def health_closed_def health_acks_def Let_def add_issue_def)

lemma pktTCPHealth_sequence:
  defines "h \<equiv> \<lambda>p c fc tcp ts. health_sequence (fst (health_handshake p c tcp ts)) (dir_of fc (snd (health_handshake p c tcp ts))) tcp"
  shows "seq_mark i \<Longrightarrow> i \<in> set (p_Issues (fst (pktTCPHealth p c fc tcp ts))) \<longleftrightarrow> i \<in> set (p_Issues (fst (h p c fc tcp ts)))"
    and "seq_state (dir_of fc (snd (pktTCPHealth p c fc tcp ts))) = seq_state (snd (h p c fc tcp ts))"
    and "ds_buf (dir_of fc (snd (pktTCPHealth p c fc tcp ts))) = ds_buf (snd (h p c fc tcp ts))"
    and "d \<noteq> fc \<Longrightarrow> seq_state (dir_of d (snd (pktTCPHealth p c fc tcp ts))) = seq_state (dir_of d c)"
  unfolding h_def pktTCPHealth_def Let_def
  by (simp_all add: case_prod_unfold marks_kept acks_dirs reset_dirs dir_of_set_dir_other handshake_dirs)

section \<open>What is expected next\<close>

definition no_wrap :: "pktTCP \<Rightarrow> bool" where
  "no_wrap tcp \<longleftrightarrow> seg_hi tcp < 2 ^ 32"

definition furthest :: "pktTCP list \<Rightarrow> nat" where
  "furthest S = Max (seg_hi ` set S)"

lemma furthest_snoc: "furthest (S @ [t]) = (if S = [] then seg_hi t else max (furthest S) (seg_hi t))"
  by (auto simp: furthest_def max.commute)

lemma furthest_lt: "S \<noteq> [] \<Longrightarrow> \<forall>t \<in> set S. no_wrap t \<Longrightarrow> furthest S < 2 ^ 32"
  by (simp add: furthest_def no_wrap_def)

lemma unat_of_nat_32: "n < 2 ^ 32 \<Longrightarrow> unat (of_nat n :: 32 word) = n"
  by (simp add: unat_of_nat take_bit_nat_eq_self)

lemma health_sequence_state:
  assumes "no_wrap tcp" and "seq_state d = (S \<noteq> [], if S = [] then x else of_nat (furthest S))"
    and "S \<noteq> [] \<Longrightarrow> furthest S < 2 ^ 32"
  shows "seq_state (snd (health_sequence p d tcp)) = (True, of_nat (furthest (S @ [tcp])))"
proof (cases "S = []")
  case True
  then show ?thesis using assms(2) by (simp add: health_sequence_first seq_state_def furthest_def seg_hi_def)
next
  case False
  then have "ds_haveSeq d" "unat (ds_nextSeq d) = furthest S"
    using assms(2,3) by (simp_all add: seq_state_def unat_of_nat_32)
  with health_sequence_step [of d tcp p] assms(1) False show ?thesis
    by (simp add: seq_state_def no_wrap_def seg_hi_def furthest_snoc)
qed

lemma health_run_state:
  "health_run fs c \<Longrightarrow> \<forall>(d, t) \<in> set fs. no_wrap t \<Longrightarrow>
   seq_state (dir_of fc c) = (segs_of fc fs \<noteq> [], if segs_of fc fs = [] then 0 else of_nat (furthest (segs_of fc fs)))"
proof (induction rule: health_run.induct)
  case run_new
  then show ?case by (simp add: seq_state_def dir_of_def new_conn_def new_dir_def)
next
  case (run_frame fs c d tcp p ts)
  have w: "\<forall>(d, t) \<in> set fs. no_wrap t" "no_wrap tcp" using run_frame.prems by auto
  note ih = run_frame.IH [OF w(1)]
  have far: "segs_of fc fs \<noteq> [] \<Longrightarrow> furthest (segs_of fc fs) < 2 ^ 32"
    using w(1) by (intro furthest_lt) (auto dest: segs_of_set)
  show ?case
  proof (cases "d = fc")
    case True
    have "seq_state (dir_of fc (snd (health_handshake p c tcp ts))) = seq_state (dir_of fc c)" by (rule handshake_dirs)
    from health_sequence_state [OF w(2) trans [OF this ih] far] True show ?thesis
      by (simp add: pktTCPHealth_sequence(2))
  next
    case False
    then show ?thesis using ih by (simp add: pktTCPHealth_sequence(4))
  qed
next
  case (run_decoder fs c c')
  have "seq_state (dir_of fc c') = seq_state (dir_of fc c)" using run_decoder.hyps by (simp add: dir_of_def)
  with run_decoder.IH [OF run_decoder.prems] show ?case by simp
qed

lemma gap_issue_inj: "gap_issue k = gap_issue m \<longleftrightarrow> k = m"
proof
  assume "gap_issue k = gap_issue m"
  then have "go_utoa k = go_utoa m" by (simp add: gap_issue_def)
  then show "k = m" using go_digits_val_utoa [of k] go_digits_val_utoa [of m] by (metis option.inject)
qed simp

lemma gap_not_retransmission: "gap_issue k \<noteq> ''TCP retransmission''" "''TCP retransmission'' \<noteq> gap_issue k"
  by (simp_all add: gap_issue_def)

lemma health_marks:
  assumes run: "health_run fs c" and w: "\<forall>(d, t) \<in> set fs. no_wrap t" "no_wrap tcp"
    and p: "p_Issues p = []" and S: "segs_of fc fs \<noteq> []"
  shows "''TCP retransmission'' \<in> set (p_Issues (fst (pktTCPHealth p c fc tcp ts))) \<longleftrightarrow>
      seg_lo tcp < seg_hi tcp \<and> seg_hi tcp \<le> furthest (segs_of fc fs)"
    and "gap_issue k \<in> set (p_Issues (fst (pktTCPHealth p c fc tcp ts))) \<longleftrightarrow>
      furthest (segs_of fc fs) < seg_lo tcp \<and> k = seg_lo tcp - furthest (segs_of fc fs)"
    and "ds_buf (dir_of fc (snd (pktTCPHealth p c fc tcp ts))) =
      (if furthest (segs_of fc fs) < seg_lo tcp then [] else ds_buf (dir_of fc c))"
proof -
  let ?h = "health_handshake p c tcp ts"
  have far: "furthest (segs_of fc fs) < 2 ^ 32"
    using w(1) S by (intro furthest_lt) (auto dest: segs_of_set)
  have "seq_state (dir_of fc (snd ?h)) = (True, of_nat (furthest (segs_of fc fs)))"
    using health_run_state [OF run w(1), of fc] S by (simp add: handshake_dirs)
  then have d: "ds_haveSeq (dir_of fc (snd ?h))" "unat (ds_nextSeq (dir_of fc (snd ?h))) = furthest (segs_of fc fs)"
    using far by (simp_all add: seq_state_def unat_of_nat_32)
  have n: "unat (t_seq tcp) + unat (seq_len tcp) < 2 ^ 32" using w(2) by (simp add: no_wrap_def seg_hi_def)
  note st = health_sequence_step [OF d(1) n, of "fst ?h", unfolded d(2), folded gap_issue_def]
  have m: "seq_mark ''TCP retransmission''" "seq_mark (gap_issue k)" by (auto simp: seq_mark_def)
  have i: "p_Issues (fst ?h) = []" by (simp add: handshake_dirs p)
  show "''TCP retransmission'' \<in> set (p_Issues (fst (pktTCPHealth p c fc tcp ts))) \<longleftrightarrow>
      seg_lo tcp < seg_hi tcp \<and> seg_hi tcp \<le> furthest (segs_of fc fs)"
    unfolding pktTCPHealth_sequence(1) [OF m(1)]
    using i by (simp add: st add_issue_def seg_lo_def seg_hi_def gap_not_retransmission)
  show "gap_issue k \<in> set (p_Issues (fst (pktTCPHealth p c fc tcp ts))) \<longleftrightarrow>
      furthest (segs_of fc fs) < seg_lo tcp \<and> k = seg_lo tcp - furthest (segs_of fc fs)"
    unfolding pktTCPHealth_sequence(1) [OF m(2)]
    using i by (auto simp: st add_issue_def seg_lo_def seg_hi_def gap_not_retransmission gap_issue_inj)
  show "ds_buf (dir_of fc (snd (pktTCPHealth p c fc tcp ts))) =
      (if furthest (segs_of fc fs) < seg_lo tcp then [] else ds_buf (dir_of fc c))"
    unfolding pktTCPHealth_sequence(3) by (simp add: st seg_lo_def handshake_dirs)
qed

text \<open>
  Segments without a hole: each starts at or before the end of what came before it, and none
  before the first. The bytes they carry are then all those up to the furthest end.
\<close>

definition no_hole :: "pktTCP list \<Rightarrow> bool" where
  "no_hole S \<longleftrightarrow> (\<forall>i. 0 < i \<and> i < length S \<longrightarrow> seg_lo (hd S) \<le> seg_lo (S ! i) \<and> seg_lo (S ! i) \<le> furthest (take i S))"

lemma no_hole_snoc:
  "S \<noteq> [] \<Longrightarrow> no_hole (S @ [t]) \<longleftrightarrow> no_hole S \<and> seg_lo (hd S) \<le> seg_lo t \<and> seg_lo t \<le> furthest S"
  by (auto simp: no_hole_def nth_append less_Suc_eq)

lemma seg_lo_le_hi: "seg_lo t \<le> seg_hi t"
  by (simp add: seg_lo_def seg_hi_def)

lemma hd_le_furthest: "S \<noteq> [] \<Longrightarrow> seg_lo (hd S) \<le> furthest S"
  unfolding furthest_def using seg_lo_le_hi [of "hd S"] by (meson Max_ge finite_imageI finite_set image_eqI hd_in_set order_trans)

lemma no_hole_bytes:
  "S \<noteq> [] \<Longrightarrow> no_hole S \<Longrightarrow> (\<Union>t \<in> set S. seg_bytes t) = {seg_lo (hd S)..<furthest S}"
proof (induction S rule: rev_induct)
  case (snoc t S)
  show ?case
  proof (cases "S = []")
    case False
    with snoc.prems have h: "no_hole S" "seg_lo (hd S) \<le> seg_lo t" "seg_lo t \<le> furthest S" by (simp_all add: no_hole_snoc)
    have "{seg_lo (hd S)..<furthest S} \<union> seg_bytes t = {seg_lo (hd S)..<max (furthest S) (seg_hi t)}"
      using h(2,3) hd_le_furthest [OF False] by (auto simp: seg_bytes_def)
    with snoc.IH [OF False h(1)] False show ?thesis by (simp add: furthest_snoc Un_commute)
  qed (simp add: furthest_snoc [of "[]", simplified] seg_bytes_def)
qed simp

section \<open>Properties of the sequence tracking\<close>

text \<open>
  C33. Retransmissions and gaps, over the life of a connection. While the sequence numbers of a
  direction do not wrap, a segment after the first of its direction is marked as a retransmission
  exactly when it takes at least one number and ends at or before the furthest end of the earlier
  segments of its direction, and as following a gap of \<open>k\<close> bytes exactly when it starts \<open>k\<close> beyond
  it; a gap empties the direction's buffer, and nothing else here does. If the earlier segments left
  no hole (and none, nor this one, starts before the first) these are the facts about bytes: a
  retransmission is a segment all of whose bytes were carried before, and \<open>k\<close> is the number of
  bytes ahead of the segment that were never carried. The decoders may do what they like
  to the connection in between, sequence numbers apart.
\<close>

theorem pktTCPHealth_sequence_tracking:
  assumes "health_run fs c" and "\<forall>(d, t) \<in> set fs. no_wrap t" and "no_wrap tcp"
    and "p_Issues p = []" and "segs_of fc fs \<noteq> []" and "pktTCPHealth p c fc tcp ts = (p', c')"
  shows "(''TCP retransmission'' \<in> set (p_Issues p') \<longleftrightarrow>
       seg_lo tcp < seg_hi tcp \<and> (\<exists>t \<in> set (segs_of fc fs). seg_hi tcp \<le> seg_hi t))
    \<and> (gap_issue k \<in> set (p_Issues p') \<longleftrightarrow>
       (\<forall>t \<in> set (segs_of fc fs). seg_hi t < seg_lo tcp) \<and> k = seg_lo tcp - Max (seg_hi ` set (segs_of fc fs)))
    \<and> ds_buf (dir_of fc c') = (if \<exists>j. gap_issue j \<in> set (p_Issues p') then [] else ds_buf (dir_of fc c))
    \<and> (no_hole (segs_of fc fs) \<and> seg_lo (hd (segs_of fc fs)) \<le> seg_lo tcp \<longrightarrow>
       (''TCP retransmission'' \<in> set (p_Issues p') \<longleftrightarrow>
          seg_bytes tcp \<noteq> {} \<and> seg_bytes tcp \<subseteq> (\<Union>t \<in> set (segs_of fc fs). seg_bytes t)) \<and>
       (gap_issue k \<in> set (p_Issues p') \<longleftrightarrow>
          0 < k \<and> k = card ({seg_lo (hd (segs_of fc fs))..<seg_lo tcp} - (\<Union>t \<in> set (segs_of fc fs). seg_bytes t))))"
proof -
  let ?S = "segs_of fc fs"
  note m = health_marks [OF assms(1-5), where ts = ts, unfolded assms(6) fst_conv snd_conv]
  have ge: "x \<le> furthest ?S \<longleftrightarrow> (\<exists>t \<in> set ?S. x \<le> seg_hi t)" for x
    using assms(5) by (simp add: furthest_def Max_ge_iff)
  have lt: "furthest ?S < x \<longleftrightarrow> (\<forall>t \<in> set ?S. seg_hi t < x)" for x
    using assms(5) by (simp add: furthest_def)
  have buf: "(\<exists>j. gap_issue j \<in> set (p_Issues p')) \<longleftrightarrow> furthest ?S < seg_lo tcp" using m(2) by blast
  have hole: "(''TCP retransmission'' \<in> set (p_Issues p') \<longleftrightarrow> seg_bytes tcp \<noteq> {} \<and> seg_bytes tcp \<subseteq> {seg_lo (hd ?S)..<furthest ?S}) \<and>
       (gap_issue k \<in> set (p_Issues p') \<longleftrightarrow> 0 < k \<and> k = card ({seg_lo (hd ?S)..<seg_lo tcp} - {seg_lo (hd ?S)..<furthest ?S}))"
    if "seg_lo (hd ?S) \<le> seg_lo tcp"
  proof -
    have "{seg_lo (hd ?S)..<seg_lo tcp} - {seg_lo (hd ?S)..<furthest ?S} = {furthest ?S..<seg_lo tcp}"
      using hd_le_furthest [OF assms(5)] by auto
    then have "card ({seg_lo (hd ?S)..<seg_lo tcp} - {seg_lo (hd ?S)..<furthest ?S}) = seg_lo tcp - furthest ?S" by simp
    then show ?thesis using that m(1,2) by (auto simp: seg_bytes_def)
  qed
  show ?thesis
    using m(1,2) m(3) hole no_hole_bytes [OF assms(5)] by (simp add: buf ge lt furthest_def [symmetric])
qed

definition ex_seg :: "32 word \<Rightarrow> bytes \<Rightarrow> pktTCP" where
  "ex_seg n b = \<lparr>t_srcPort = 3306, t_dstPort = 4000, t_seq = n, t_ack = 0, t_flags = 16, t_window = 5, t_payload = b\<rparr>"

lemma ex_seg_numbers:
  "unat n + length b < 2 ^ 32 \<Longrightarrow> seg_lo (ex_seg n b) = unat n \<and> seg_hi (ex_seg n b) = unat n + length b"
  by (simp add: seg_lo_def seg_hi_def ex_seg_def seq_len_def has_flag_def tcpSYN_def tcpFIN_def unat_of_nat_32)

lemma ex_health_run: "\<exists>c. health_run [(True, ex_seg 100 [1, 2, 3]), (False, ex_seg 7 [9]), (True, ex_seg 103 [4, 5])] c"
proof -
  note r = run_frame [OF run_frame [OF run_frame [OF run_new]]]
  show ?thesis
    using r [of True "ex_seg 100 [1, 2, 3]" False "ex_seg 7 [9]" True "ex_seg 103 [4, 5]"] by (simp, blast)
qed

text \<open>The last two bytes of the client come once more, then two bytes that leave a hole of ten.\<close>

lemma pktTCPHealth_sequence_tracking_witness:
  "\<exists>c. health_run [(True, ex_seg 100 [1, 2, 3]), (False, ex_seg 7 [9]), (True, ex_seg 103 [4, 5])] c
     \<and> ''TCP retransmission'' \<in> set (p_Issues (fst (pktTCPHealth new_packet c True (ex_seg 103 [4, 5]) 0)))
     \<and> gap_issue 10 \<in> set (p_Issues (fst (pktTCPHealth new_packet c True (ex_seg 115 [6, 7]) 0)))"
proof -
  let ?fs = "[(True, ex_seg 100 [1, 2, 3]), (False, ex_seg 7 [9]), (True, ex_seg 103 [4, 5])]"
  obtain c where c: "health_run ?fs c" using ex_health_run by blast
  have w: "\<forall>(d, t) \<in> set ?fs. no_wrap t" "no_wrap (ex_seg 103 [4, 5])" "no_wrap (ex_seg 115 [6, 7])"
    by (simp_all add: no_wrap_def ex_seg_numbers)
  have S: "segs_of True ?fs = [ex_seg 100 [1, 2, 3], ex_seg 103 [4, 5]]" by (simp add: segs_of_def)
  have p: "p_Issues new_packet = []" by (simp add: new_packet_def)
  have "''TCP retransmission'' \<in> set (p_Issues (fst (pktTCPHealth new_packet c True (ex_seg 103 [4, 5]) 0)))"
    using pktTCPHealth_sequence_tracking [OF c w(1,2) p _ surjective_pairing] S by (simp add: ex_seg_numbers)
  moreover have "gap_issue 10 \<in> set (p_Issues (fst (pktTCPHealth new_packet c True (ex_seg 115 [6, 7]) 0)))"
    using pktTCPHealth_sequence_tracking [OF c w(1,3) p _ surjective_pairing] S by (simp add: ex_seg_numbers)
  ultimately show ?thesis using c by blast
qed

text \<open>
  Once there is a hole the marks are no longer about bytes: the segment that fills it late, with
  bytes that were never seen, ends before the furthest end, is marked as a retransmission and is
  not handed to the protocol decoder. (The comment in the code says that every byte of such a
  segment has been seen before.)
\<close>

theorem late_segment_dropped:
  assumes "ds_haveSeq d" and "no_wrap tcp" and "t_payload tcp \<noteq> []"
    and "seg_lo tcp < seg_hi tcp" and "seg_hi tcp \<le> unat (ds_nextSeq d)"
  shows "health_sequence p d tcp = (add_issue ''TCP retransmission'' p, d) \<and> \<not> hands_on (fst (health_sequence p d tcp)) tcp"
proof -
  have "\<not> unat (ds_nextSeq d) < unat (t_seq tcp)" using assms(4,5) by (simp add: seg_lo_def seg_hi_def)
  then have "fst (health_sequence p d tcp) = add_issue ''TCP retransmission'' p" "snd (health_sequence p d tcp) = d"
    using health_sequence_step [of d tcp p] assms by (simp_all add: seg_lo_def seg_hi_def no_wrap_def max_def)
  moreover have "hasIssue (add_issue ''TCP retransmission'' p) ''TCP retransmission''"
    by (simp add: hasIssue_def add_issue_def go_HasPrefix_def)
  ultimately show ?thesis by (simp add: hands_on_def prod_eq_iff)
qed

text \<open>A hole of three bytes at 103, filled after the bytes from 106 were seen.\<close>

lemma late_segment_dropped_witness:
  "let d = new_dir\<lparr>ds_haveSeq := True, ds_nextSeq := 108\<rparr>
   in seg_bytes (ex_seg 103 [1, 2, 3]) \<inter> (seg_bytes (ex_seg 100 [0, 0, 0]) \<union> seg_bytes (ex_seg 106 [4, 5])) = {}
     \<and> snd (health_sequence new_packet (new_dir\<lparr>ds_haveSeq := True, ds_nextSeq := 103\<rparr>) (ex_seg 106 [4, 5])) = d
     \<and> health_sequence new_packet d (ex_seg 103 [1, 2, 3]) = (add_issue ''TCP retransmission'' new_packet, d)"
proof -
  have h: "health_sequence new_packet (new_dir\<lparr>ds_haveSeq := True, ds_nextSeq := 108\<rparr>) (ex_seg 103 [1, 2, 3])
      = (add_issue ''TCP retransmission'' new_packet, new_dir\<lparr>ds_haveSeq := True, ds_nextSeq := 108\<rparr>)"
    using late_segment_dropped [of "new_dir\<lparr>ds_haveSeq := True, ds_nextSeq := 108\<rparr>" "ex_seg 103 [1, 2, 3]" new_packet]
    by (simp add: no_wrap_def ex_seg_numbers) (simp add: ex_seg_def)
  have n: "seq_len (ex_seg 106 [4, 5]) = 2" "t_seq (ex_seg 106 [4, 5]) = 106"
    by (simp_all add: ex_seg_def seq_len_def has_flag_def tcpSYN_def tcpFIN_def)
  have d: "snd (health_sequence new_packet (new_dir\<lparr>ds_haveSeq := True, ds_nextSeq := 103\<rparr>) (ex_seg 106 [4, 5]))
      = new_dir\<lparr>ds_haveSeq := True, ds_nextSeq := 108\<rparr>"
    using health_sequence_step [of "new_dir\<lparr>ds_haveSeq := True, ds_nextSeq := 103\<rparr>" "ex_seg 106 [4, 5]" new_packet]
    by (simp add: n) (simp add: new_dir_def)
  show ?thesis unfolding Let_def using h d by (auto simp: seg_bytes_def ex_seg_numbers)
qed

text \<open>
  Where the sequence numbers do wrap, which happens every 4 GiB of a direction, the
  comparison goes wrong: the segment that crosses 2^32, arriving in order with new bytes, is
  marked as a retransmission, is not handed to the protocol decoder, and does not advance what
  is expected next, so the segments after it meet the same fate.
\<close>

theorem health_sequence_wraps:
  assumes "ds_haveSeq d" and "t_seq tcp = ds_nextSeq d" and "t_payload tcp \<noteq> []"
    and "2 ^ 32 \<le> unat (t_seq tcp) + unat (seq_len tcp)"
  shows "health_sequence p d tcp = (add_issue ''TCP retransmission'' p, d)
    \<and> \<not> hands_on (fst (health_sequence p d tcp)) tcp"
proof -
  let ?n = "seq_len tcp" and ?s = "t_seq tcp"
  have n: "unat ?n < 2 ^ 32" "unat ?s < 2 ^ 32" using unsigned_less [of ?n, where ?'a = nat] unsigned_less [of ?s, where ?'a = nat] by simp_all
  have u: "unat (?s + ?n) = unat ?s + unat ?n - 2 ^ 32" using assms(4) by (simp add: unat_plus_if')
  have "unat (?s + ?n) \<le> unat ?s" unfolding u using n(1) by linarith
  then have le: "?s + ?n \<le> ?s" by (simp add: word_le_nat_alt)
  have pos: "0 < ?n" using assms(4) n(2) by (cases "?n = 0") (auto simp: word_gt_0)
  have h: "health_sequence p d tcp = (add_issue ''TCP retransmission'' p, d)"
    using assms(1) le pos by (simp add: health_sequence_def Let_def assms(2) [symmetric] not_less)
  moreover have "hasIssue (add_issue ''TCP retransmission'' p) ''TCP retransmission''"
    by (simp add: hasIssue_def add_issue_def go_HasPrefix_def)
  ultimately show ?thesis by (simp add: hands_on_def)
qed

lemma health_sequence_wraps_witness:
  "health_sequence new_packet (new_dir\<lparr>ds_haveSeq := True, ds_nextSeq := 4294967290\<rparr>)
     \<lparr>t_srcPort = 3306, t_dstPort = 4000, t_seq = 4294967290, t_ack = 0, t_flags = 16, t_window = 5, t_payload = replicate 10 1\<rparr>
   = (add_issue ''TCP retransmission'' new_packet, new_dir\<lparr>ds_haveSeq := True, ds_nextSeq := 4294967290\<rparr>)"
proof -
  let ?t = "\<lparr>t_srcPort = 3306, t_dstPort = 4000, t_seq = 4294967290, t_ack = 0, t_flags = 16, t_window = 5, t_payload = replicate 10 1\<rparr>"
  have n: "seq_len ?t = 10" by (simp add: seq_len_def has_flag_def tcpSYN_def tcpFIN_def)
  show ?thesis
    using health_sequence_wraps [of "new_dir\<lparr>ds_haveSeq := True, ds_nextSeq := 4294967290\<rparr>" ?t new_packet]
    by (simp add: n)
qed

end
