(* ===== verification/Pkt_Net.thy ===== *)
theory Pkt_Net
  imports Pcap
begin

text \<open>
  ARP and DNS (\<^verbatim>\<open>src/app/pktnet.go\<close>): the two decoders, the state that links a request to its answer
  across frames, the reader of compressed domain names and the post-pass that marks what was never
  answered.

  Go walks a map in no fixed order. Where the result of a walk is a list, the walk is an argument:
  \<open>walk\<close> orders the addresses that claim one IP, \<open>ips\<close> and \<open>ids\<close> the keys of the two pending maps.
  The latency of a lookup is computed in \<^verbatim>\<open>float64\<close>; what the code reads off that number is the
  argument \<open>flt\<close>, of the times of the query and of the response.
\<close>

section \<open>State\<close>

record pktDNSQuery =
  q_frame :: nat
  q_ts :: int
  q_name :: string
  q_qtype :: string

record pktNetState =
  n_arpClaims :: "string \<Rightarrow> (string \<times> nat) list"
  n_arpPending :: "string \<rightharpoonup> nat list"
  n_arpConflict :: "string \<Rightarrow> bool"
  n_dnsPending :: "nat \<rightharpoonup> pktDNSQuery"

definition newPktNetState :: pktNetState where
  "newPktNetState = \<lparr>n_arpClaims = (\<lambda>_. []), n_arpPending = Map.empty, n_arpConflict = (\<lambda>_. False),
     n_dnsPending = Map.empty\<rparr>"

text \<open>The latency \<^verbatim>\<open>lat = (ts - q.ts) * 1000\<close>: \<^verbatim>\<open>lat > 0\<close>, the value, \<^verbatim>\<open>lat >= 100\<close> and its two renderings.\<close>

record dns_lat =
  l_pos :: bool
  l_ns :: int
  l_slow :: bool
  l_1f :: string
  l_0f :: string

section \<open>ARP\<close>

definition pktMAC :: "bytes \<Rightarrow> string" where
  "pktMAC b = go_Join (map go_02x b) '':''"

definition pktARPClaim :: "(string list \<Rightarrow> string list) \<Rightarrow> pktPacket \<Rightarrow> pktNetState \<Rightarrow> string \<Rightarrow> string \<Rightarrow> pktPacket \<times> pktNetState" where
  "pktARPClaim walk p st ip mac =
     (if ip = ''0.0.0.0'' \<or> mac = ''00:00:00:00:00:00'' then (p, st)
      else
        let cl = (if mac \<in> fst ` set (n_arpClaims st ip) then n_arpClaims st ip else n_arpClaims st ip @ [(mac, p_No p)]);
            st1 = st\<lparr>n_arpClaims := (n_arpClaims st)(ip := cl)\<rparr>
        in if length cl > 1 \<and> \<not> n_arpConflict st ip then
             (add_issue (''ARP conflict '' @ em_dash @ '' '' @ ip @ '' is claimed by '' @ go_Join (walk (map fst cl)) '' and ''
                @ '': connections to it can reach either host'') p,
              st1\<lparr>n_arpConflict := (n_arpConflict st)(ip := True)\<rparr>)
           else (p, st1))"

definition arp_pending :: "pktNetState \<Rightarrow> string \<Rightarrow> nat list" where
  "arp_pending st ip = (case n_arpPending st ip of Some fs \<Rightarrow> fs | None \<Rightarrow> [])"

text \<open>The \<^verbatim>\<open>switch op\<close>, with the addresses read.\<close>

definition arp_op :: "(string list \<Rightarrow> string list) \<Rightarrow> pktPacket \<Rightarrow> pktNetState \<Rightarrow> nat \<Rightarrow> string \<Rightarrow> string \<Rightarrow> string \<Rightarrow> pktPacket \<times> pktNetState" where
  "arp_op walk p st opc senderMAC senderIP targetIP =
     (if opc = 1 then
        (if senderIP = targetIP then
           pktARPClaim walk
             (add_issue (''Gratuitous ARP for '' @ senderIP @ '' '' @ em_dash
                @ '' an address was just claimed or moved (a failover, a virtual IP)'')
              (p\<lparr>p_Info := ''ARP gratuitous '' @ em_dash @ '' '' @ senderIP @ '' announces it is at '' @ senderMAC\<rparr>))
             st senderIP senderMAC
         else
           pktARPClaim walk
             (p\<lparr>p_Info := ''ARP who-has '' @ targetIP @ ''? tell '' @ senderIP @ '' ('' @ senderMAC @ '')''\<rparr>)
             (st\<lparr>n_arpPending := (n_arpPending st)(targetIP \<mapsto> arp_pending st targetIP @ [p_No p])\<rparr>) senderIP senderMAC)
      else if opc = 2 then
        pktARPClaim walk
          (p\<lparr>p_Info := ''ARP '' @ senderIP @ '' is-at '' @ senderMAC @ '' (to '' @ targetIP @ '')''\<rparr>)
          (st\<lparr>n_arpPending := (n_arpPending st)(senderIP := None)\<rparr>) senderIP senderMAC
      else (p\<lparr>p_Info := ''ARP opcode '' @ go_utoa opc @ '', '' @ senderIP @ '' '' @ right_arrow @ '' '' @ targetIP\<rparr>, st))"

definition pktARPDecode :: "(string list \<Rightarrow> string list) \<Rightarrow> pktPacket \<Rightarrow> bytes \<Rightarrow> pktNetState \<Rightarrow> pktPacket \<times> pktNetState" where
  "pktARPDecode walk p0 b st =
     (let p = p0\<lparr>p_Proto := ''ARP''\<rparr> in
      if length b < 8 then (p\<lparr>p_Info := ''ARP frame, '' @ go_utoa (length b) @ '' bytes (truncated)''\<rparr>, st)
      else
        let hlen = unat (b ! 4); plen = unat (b ! 5); opc = be_u16 (drop 6 b); need = 8 + 2 * hlen + 2 * plen in
        if hlen \<noteq> 6 \<or> plen \<noteq> 4 \<or> length b < need then
          (p\<lparr>p_Info := ''ARP frame, '' @ go_utoa (length b) @ '' bytes (hardware '' @ go_utoa hlen @ '' / protocol ''
              @ go_utoa plen @ '' address size)''\<rparr>, st)
        else
          arp_op walk p st opc (pktMAC (slice 8 (8 + hlen) b)) (pktIPv4 (slice (8 + hlen) (8 + hlen + plen) b))
            (pktIPv4 (slice (8 + 2 * hlen + plen) need b)))"

section \<open>Domain names\<close>

record dns_state =
  d_off :: nat
  d_end :: nat
  d_jumped :: bool
  d_hops :: nat
  d_parts :: "string list"

text \<open>One round of the loop: \<open>Inl\<close> a \<^verbatim>\<open>return\<close>, \<open>Inr\<close> the state the next round starts from.\<close>

definition dns_step :: "bytes \<Rightarrow> dns_state \<Rightarrow> (string \<times> nat) + dns_state" where
  "dns_step b s =
     (let n = unat (b ! d_off s); here = go_Join (d_parts s) ''.'' in
      if n = 0 then Inl (here, if d_jumped s then d_end s else d_off s + 1)
      else if b ! d_off s AND 0xc0 = 0xc0 then
        (if d_off s + 1 \<ge> length b then Inl (here, length b)
         else
           let ptr = be_u16 (drop (d_off s) b) AND 0x3fff;
               e = (if d_jumped s then d_end s else d_off s + 2)
           in if ptr \<ge> length b \<or> ptr = d_off s then Inl (here, e)
              else Inr (s\<lparr>d_off := ptr, d_end := e, d_jumped := True, d_hops := d_hops s + 1\<rparr>))
      else if d_off s + 1 + n > length b then Inl (here, length b)
      else
        let off' = d_off s + 1 + n
        in Inr (s\<lparr>d_off := off', d_end := if d_jumped s then d_end s else off',
              d_parts := d_parts s @ [str (slice (d_off s + 1) off' b)]\<rparr>))"

definition dns_measure :: "bytes \<Rightarrow> dns_state \<Rightarrow> nat" where
  "dns_measure b s = (32 - d_hops s) * (length b + 1) + (length b - d_off s)"

lemma dns_step_decreases:
  assumes "dns_step b s = Inr s'" "d_off s < length b" "d_hops s < 32"
  shows "dns_measure b s' < dns_measure b s"
proof -
  consider (jump) "d_hops s' = d_hops s + 1" "d_off s' < length b"
    | (label) "d_hops s' = d_hops s" "d_off s < d_off s'" "d_off s' \<le> length b"
    using assms(1) by (auto simp: dns_step_def Let_def split: if_splits)
  then show ?thesis
  proof cases
    case jump
    have "32 - d_hops s = Suc (32 - d_hops s')" using jump(1) assms(3) by simp
    then show ?thesis by (simp add: dns_measure_def)
  next
    case label
    then show ?thesis using assms(2) by (simp add: dns_measure_def)
  qed
qed

function dns_loop :: "bytes \<Rightarrow> dns_state \<Rightarrow> string \<times> nat" where
  "dns_loop b s =
     (if d_off s < length b \<and> d_hops s < 32 then
        case dns_step b s of Inl r \<Rightarrow> r | Inr s' \<Rightarrow> dns_loop b s'
      else (go_Join (d_parts s) ''.'', d_end s))"
  by pat_completeness auto
termination
  by (relation "measure (\<lambda>(b, s). dns_measure b s)") (auto intro: dns_step_decreases)

declare dns_loop.simps [simp del]

definition dns_start :: "nat \<Rightarrow> dns_state" where
  "dns_start off = \<lparr>d_off = off, d_end = off, d_jumped = False, d_hops = 0, d_parts = []\<rparr>"

definition pktDNSName :: "bytes \<Rightarrow> nat \<Rightarrow> string \<times> nat" where
  "pktDNSName b off = dns_loop b (dns_start off)"

section \<open>DNS messages\<close>


definition pktDNSType :: "nat \<Rightarrow> string" where
  "pktDNSType t = (case map_of [(1, ''A''), (2, ''NS''), (5, ''CNAME''), (6, ''SOA''), (12, ''PTR''), (15, ''MX''),
       (16, ''TXT''), (28, ''AAAA''), (33, ''SRV''), (65, ''HTTPS'')] t of
     Some s \<Rightarrow> s | None \<Rightarrow> ''TYPE'' @ go_utoa t)"

definition pktDNSRcode :: "nat \<Rightarrow> string" where
  "pktDNSRcode c = (case map_of [(0, ''NOERROR''), (1, ''FORMERR''), (2, ''SERVFAIL''), (3, ''NXDOMAIN''), (4, ''NOTIMP''),
       (5, ''REFUSED'')] c of
     Some s \<Rightarrow> s | None \<Rightarrow> ''RCODE'' @ go_utoa c)"

text \<open>What one record of the answer section is summarised as.\<close>

definition dns_record :: "bytes \<Rightarrow> nat \<Rightarrow> nat \<Rightarrow> nat \<Rightarrow> string" where
  "dns_record b t rd rdLen =
     (if t = 1 \<and> rdLen = 4 then pktIPv4 (slice rd (rd + 4) b)
      else if t = 28 \<and> rdLen = 16 then pktIPv6 (slice rd (rd + 16) b)
      else if t = 5 \<or> t = 12 then fst (pktDNSName b rd)
      else pktDNSType t)"

fun dns_answers :: "bytes \<Rightarrow> nat \<Rightarrow> nat \<Rightarrow> string list" where
  "dns_answers b off 0 = []"
| "dns_answers b off (Suc k) =
     (if off < length b then
        let off' = snd (pktDNSName b off) in
        if off' + 10 > length b then []
        else
          let t = be_u16 (drop off' b); rdLen = be_u16 (drop (off' + 8) b); rd = off' + 10 in
          if rd + rdLen > length b then []
          else dns_record b t rd rdLen # dns_answers b (rd + rdLen) k
      else [])"

definition pktDNSAnswers :: "bytes \<Rightarrow> nat \<Rightarrow> nat \<Rightarrow> string list" where
  "pktDNSAnswers b off count = (let out = dns_answers b off count in if out = [] then [''(no records)''] else out)"

text \<open>The \<^verbatim>\<open>switch\<close> on the response code and the number of answers.\<close>

definition dns_outcome :: "pktPacket \<Rightarrow> nat \<Rightarrow> nat \<Rightarrow> string \<Rightarrow> string \<Rightarrow> string list \<Rightarrow> pktPacket" where
  "dns_outcome p rcode anCount name qtype answers =
     (let rc = pktDNSRcode rcode in
      if rcode \<noteq> 0 then
        add_issue (''DNS '' @ rc @ '' for '' @ name @ '' '' @ em_dash
            @ '' the name did not resolve, which a client reports as 2005 CR_UNKNOWN_HOST'')
          (p\<lparr>p_Status := ''DNS '' @ rc, p_Info := ''DNS response '' @ rc @ '' for '' @ qtype @ '' '' @ name\<rparr>)
      else if anCount = 0 then
        let p1 = p\<lparr>p_Status := ''DNS no answer'', p_Info := ''DNS response NOERROR but no records for '' @ qtype @ '' '' @ name\<rparr>
        in if qtype = ''A'' \<or> qtype = ''SRV'' \<or> qtype = ''PTR'' then
             add_issue (''DNS returned no '' @ qtype @ '' record for '' @ name @ '' '' @ em_dash
               @ '' resolvable name, nothing to connect to'') p1
           else p1
      else p\<lparr>p_Status := ''Success'',
             p_Info := ''DNS response '' @ qtype @ '' '' @ name @ '' '' @ right_arrow @ '' '' @ go_Join answers '', ''\<rparr>)"

definition dns_latency :: "pktPacket \<Rightarrow> dns_lat option \<Rightarrow> pktPacket" where
  "dns_latency p lat =
     (case lat of
        None \<Rightarrow> p
      | Some l \<Rightarrow>
          if l_pos l then
            let p1 = p\<lparr>p_LagNS := l_ns l, p_Info := p_Info p @ '' ('' @ l_1f l @ '' ms)''\<rparr>
            in if l_slow l then
                 add_issue (''Slow DNS response '' @ em_dash @ '' '' @ l_0f l
                   @ '' ms, paid by every connection that resolves this name'') p1
               else p1
          else p)"

text \<open>The question section: name, type, and the offset behind it.\<close>

definition dns_question :: "bytes \<Rightarrow> nat \<Rightarrow> string \<times> string \<times> nat" where
  "dns_question b qdCount =
     (if qdCount > 0 then
        let (name, off) = pktDNSName b 12
        in if off + 4 \<le> length b then (name, pktDNSType (be_u16 (drop off b)), off + 4) else (name, [], off)
      else ([], [], 12))"

definition pktDNSDecode :: "(int \<Rightarrow> int \<Rightarrow> dns_lat) \<Rightarrow> pktPacket \<Rightarrow> bytes \<Rightarrow> int \<Rightarrow> pktNetState \<Rightarrow> pktPacket \<times> pktNetState" where
  "pktDNSDecode flt p0 b ts st =
     (let p = p0\<lparr>p_Proto := ''DNS''\<rparr> in
      if length b < 12 then (p\<lparr>p_Info := ''DNS message, '' @ go_utoa (length b) @ '' bytes (truncated)''\<rparr>, st)
      else
        let ident = be_u16 b; flags = be_u16 (drop 2 b); rcode = flags AND 0x000f;
            qdCount = be_u16 (drop 4 b); anCount = be_u16 (drop 6 b);
            (name, qtype, off) = dns_question b qdCount
        in if flags AND 0x8000 = 0 then
             (p\<lparr>p_Info := ''DNS query '' @ qtype @ '' '' @ name, p_Query := ''-- DNS: '' @ qtype @ '' '' @ name\<rparr>,
              st\<lparr>n_dnsPending := (n_dnsPending st)(ident \<mapsto> \<lparr>q_frame = p_No p, q_ts = ts, q_name = name, q_qtype = qtype\<rparr>)\<rparr>)
           else
             let asked = n_dnsPending st ident;
                 lat = map_option (\<lambda>q. flt (q_ts q) ts) asked;
                 (name', qtype') = (case asked of Some q \<Rightarrow> if name = [] then (q_name q, q_qtype q) else (name, qtype)
                                    | None \<Rightarrow> (name, qtype))
             in (dns_latency (dns_outcome p rcode anCount name' qtype' (pktDNSAnswers b off anCount)) lat,
                 st\<lparr>n_dnsPending := (n_dnsPending st)(ident := None)\<rparr>))"

section \<open>What was never answered\<close>

fun mark_frame :: "nat \<Rightarrow> string \<Rightarrow> pktPacket list \<Rightarrow> pktPacket list" where
  "mark_frame f issue [] = []"
| "mark_frame f issue (p # ps) =
     (if p_No p = f then p\<lparr>p_Issues := pktDedupe (p_Issues p @ [issue])\<rparr> # ps else p # mark_frame f issue ps)"

definition arp_unanswered :: "string \<Rightarrow> string" where
  "arp_unanswered ip = ''ARP unanswered '' @ em_dash @ '' nothing replied for '' @ ip
     @ '', so it is unreachable at layer 2 (a client sees this later as a connect timeout)''"

definition dns_unanswered :: "string \<Rightarrow> string" where
  "dns_unanswered name = ''DNS query unanswered '' @ em_dash @ '' no response for '' @ name
     @ '', so the connection was never attempted''"

definition pktNetFinish :: "string list \<Rightarrow> nat list \<Rightarrow> pktPacket list \<Rightarrow> pktNetState \<Rightarrow> pktPacket list" where
  "pktNetFinish ips ids ps st =
     (let ps1 = fold (\<lambda>ip. fold (\<lambda>f. mark_frame f (arp_unanswered ip)) (arp_pending st ip)) ips ps
      in fold (\<lambda>i. case n_dnsPending st i of Some q \<Rightarrow> mark_frame (q_frame q) (dns_unanswered (q_name q)) | None \<Rightarrow> id) ids ps1)"

section \<open>Names are read in bounded time\<close>

text \<open>The loop of \<^verbatim>\<open>pktDNSName\<close> run for at most \<open>k\<close> rounds; \<open>None\<close> when it is still going.\<close>

fun dns_run :: "nat \<Rightarrow> bytes \<Rightarrow> dns_state \<Rightarrow> (string \<times> nat) option" where
  "dns_run 0 b s = None"
| "dns_run (Suc k) b s =
     (if d_off s < length b \<and> d_hops s < 32 then
        case dns_step b s of Inl r \<Rightarrow> Some r | Inr s' \<Rightarrow> dns_run k b s'
      else Some (go_Join (d_parts s) ''.'', d_end s))"

lemma dns_run_loop: "dns_measure b s < k \<Longrightarrow> dns_run k b s = Some (dns_loop b s)"
proof (induction k arbitrary: s)
  case (Suc k)
  have "dns_run k b s' = Some (dns_loop b s')"
    if "dns_step b s = Inr s'" "d_off s < length b" "d_hops s < 32" for s'
    using Suc dns_step_decreases [OF that] by force
  then show ?case by (simp add: dns_loop.simps [of b s] split: sum.split)
qed simp

text \<open>The offset the name ends at: where it started or later, and within the message.\<close>

definition dns_inv :: "bytes \<Rightarrow> nat \<Rightarrow> dns_state \<Rightarrow> bool" where
  "dns_inv b off s \<longleftrightarrow> off \<le> d_end s \<and> d_end s \<le> max off (length b) \<and> (d_jumped s \<or> d_end s = d_off s)
     \<and> (d_jumped s \<longrightarrow> off < length b)"

lemma dns_inv_step:
  assumes "dns_inv b off s" "d_off s < length b"
  shows "dns_step b s = Inl r \<Longrightarrow> off \<le> snd r \<and> snd r \<le> max off (length b)"
    and "dns_step b s = Inr s' \<Longrightarrow> dns_inv b off s'"
  using assms by (auto simp: dns_step_def dns_inv_def Let_def split: if_splits)

lemma dns_loop_end: "dns_inv b off s \<Longrightarrow> off \<le> snd (dns_loop b s) \<and> snd (dns_loop b s) \<le> max off (length b)"
proof (induction b s rule: dns_loop.induct)
  case (1 b s)
  show ?case
  proof (cases "d_off s < length b \<and> d_hops s < 32")
    case True
    show ?thesis
    proof (cases "dns_step b s")
      case (Inl r)
      then show ?thesis using True dns_inv_step(1) [OF "1.prems"] by (simp add: dns_loop.simps [of b s])
    next
      case (Inr s')
      then show ?thesis using True "1.IH" [OF True Inr] dns_inv_step(2) [OF "1.prems"]
        by (simp add: dns_loop.simps [of b s])
    qed
  next
    case False
    then show ?thesis using "1.prems" by (auto simp: dns_loop.simps [of b s] dns_inv_def)
  qed
qed

text \<open>
  C35. Reading a domain name always ends, whatever the compression pointers of the message do
  (loops included): the loop of \<^verbatim>\<open>pktDNSName\<close> returns within 33 rounds per byte of the message, and the
  offset it hands back neither lies before the name's start nor beyond the end of the message.
\<close>

theorem pktDNSName_terminates:
  "dns_run (33 * (length b + 1)) b (dns_start off) = Some (pktDNSName b off)
     \<and> off \<le> snd (pktDNSName b off) \<and> snd (pktDNSName b off) \<le> max off (length b)"
proof -
  have "dns_measure b (dns_start off) < 33 * (length b + 1)"
    by (simp add: dns_measure_def dns_start_def)
  moreover have "dns_inv b off (dns_start off)"
    by (simp add: dns_inv_def dns_start_def)
  ultimately show ?thesis
    unfolding pktDNSName_def using dns_run_loop dns_loop_end by simp
qed

section \<open>Names mean what RFC 1035 says\<close>

text \<open>
  \<open>name_at b off ls e h\<close>: at \<open>off\<close> of message \<open>b\<close> stands the encoding of the labels \<open>ls\<close>, which occupies
  the bytes up to \<open>e\<close> and passes through \<open>h\<close> compression pointers.
\<close>

inductive name_at :: "bytes \<Rightarrow> nat \<Rightarrow> bytes list \<Rightarrow> nat \<Rightarrow> nat \<Rightarrow> bool" for b where
  name_root: "off < length b \<Longrightarrow> b ! off = 0 \<Longrightarrow> name_at b off [] (off + 1) 0"
| name_label: "off + 1 + length l \<le> length b \<Longrightarrow> l \<noteq> [] \<Longrightarrow> length l < 64 \<Longrightarrow> unat (b ! off) = length l
    \<Longrightarrow> l = slice (off + 1) (off + 1 + length l) b \<Longrightarrow> name_at b (off + 1 + length l) ls e h
    \<Longrightarrow> name_at b off (l # ls) e h"
| name_pointer: "off + 1 < length b \<Longrightarrow> unat (b ! off) = 192 + hi \<Longrightarrow> hi < 64 \<Longrightarrow> ptr = 256 * hi + unat (b ! (off + 1))
    \<Longrightarrow> ptr \<noteq> off \<Longrightarrow> name_at b ptr ls e h \<Longrightarrow> name_at b off ls (off + 2) (h + 1)"

lemma name_at_start: "name_at b off ls e h \<Longrightarrow> off < length b"
  by (induction rule: name_at.induct) auto

lemma not_pointer_byte: "unat (w :: byte) < 64 \<Longrightarrow> w AND 0xc0 \<noteq> 0xc0"
proof
  assume w: "unat w < 64" "w AND 0xc0 = 0xc0"
  have "w AND 0xc0 \<le> w" by (rule word_and_le2)
  then show False using w by (simp add: word_le_nat_alt)
qed

lemma pointer_byte:
  assumes "unat (w :: byte) = 192 + hi" "hi < 64"
  shows "w AND 0xc0 = 0xc0"
proof -
  have "192 + hi = (hi OR 192)"
    using or_push_bit_add [of hi 6 3] assms(2) by (simp add: push_bit_eq_mult)
  then have "unat (w AND 0xc0) = (hi OR 192) AND (192 :: nat)"
    using assms(1) by (simp add: unsigned_and_eq)
  also have "\<dots> = 192" by (rule bit_eqI) (auto simp: bit_or_iff bit_and_iff)
  finally show ?thesis by (simp add: word_unat_eq_iff)
qed

lemma be_u16_at: "i + 1 < length b \<Longrightarrow> be_u16 (drop i b) = 256 * unat (b ! i) + unat (b ! (i + 1))"
proof -
  assume i: "i + 1 < length b"
  then have "drop i b = b ! i # b ! (i + 1) # drop (i + 2) b"
    by (simp add: Cons_nth_drop_Suc)
  then show ?thesis by (simp add: be_u16_def be_nat_def numeral_2_eq_2)
qed

lemma pointer_target: "p < 16384 \<Longrightarrow> (49152 + p) AND 0x3fff = (p :: nat)"
proof -
  assume p: "p < 16384"
  have "(49152 + p) AND mask 14 = take_bit 14 (49152 + p)" by (simp add: take_bit_eq_mask)
  also have "\<dots> = (49152 + p) mod 16384" by (simp add: take_bit_eq_mod)
  also have "\<dots> = (p + 3 * 16384) mod 16384" by (simp add: add.commute)
  also have "\<dots> = p" using p by (simp only: mod_mult_self1 mod_less)
  finally show ?thesis by (simp add: mask_eq_exp_minus_1)
qed

lemma dns_loop_name_at:
  assumes "name_at b off ls e h" "d_off s = off" "d_hops s + h < 32"
  shows "dns_loop b s = (go_Join (d_parts s @ map str ls) ''.'', if d_jumped s then d_end s else e)"
  using assms
proof (induction arbitrary: s rule: name_at.induct)
  case (name_root off)
  then show ?case by (simp add: dns_loop.simps [of b s] dns_step_def)
next
  case (name_label off l ls e h)
  have w: "b ! d_off s AND 0xc0 \<noteq> 0xc0" using name_label by (intro not_pointer_byte) simp
  have "dns_loop b s = dns_loop b (s\<lparr>d_off := off + 1 + length l,
      d_end := if d_jumped s then d_end s else off + 1 + length l, d_parts := d_parts s @ [str l]\<rparr>)"
    using name_label w by (simp add: dns_loop.simps [of b s] dns_step_def Let_def)
  then show ?case using name_label.IH name_label.prems by simp
next
  case (name_pointer off hi ptr ls e h)
  have w: "b ! d_off s AND 0xc0 = 0xc0" using name_pointer by (intro pointer_byte) simp_all
  have "unat (b ! (off + 1)) < 256" by (rule byte_cases_lt)
  then have "ptr < 16384" "be_u16 (drop off b) = 49152 + ptr"
    using name_pointer be_u16_at [of off b] by simp_all
  then have "be_u16 (drop off b) AND 0x3fff = ptr" using pointer_target by simp
  then have "dns_loop b s = dns_loop b (s\<lparr>d_off := ptr, d_end := if d_jumped s then d_end s else off + 2,
      d_jumped := True, d_hops := d_hops s + 1\<rparr>)"
    using name_pointer w name_at_start [OF \<open>name_at b ptr ls e h\<close>]
    by (simp add: dns_loop.simps [of b s] dns_step_def Let_def)
  then show ?case using name_pointer.IH name_pointer.prems by simp
qed

text \<open>
  C36. A domain name encoded as RFC 1035 prescribes, with or without compression, is read as its
  labels joined by dots, and the offset handed back is the first byte behind the name where it stands
  (behind the first pointer when there is one), for names that take up to 31 pointers.
\<close>

theorem pktDNSName_correct:
  assumes "name_at b off ls e h" "h < 32"
  shows "pktDNSName b off = (go_Join (map str ls) ''.'', e)"
  unfolding pktDNSName_def using dns_loop_name_at [OF assms(1), of "dns_start off"] assms(2)
  by (simp add: dns_start_def)

text \<open>A message where \<^verbatim>\<open>a.bc\<close> stands at 0 and \<^verbatim>\<open>d\<close> with a pointer to \<^verbatim>\<open>bc\<close> at 6.\<close>

definition ex_names :: bytes where
  "ex_names = [1, 97, 2, 98, 99, 0, 1, 100, 0xc0, 2]"

lemma ex_names_at: "name_at ex_names 6 [[100], [98, 99]] 10 1"
proof -
  have root: "name_at ex_names 5 [] 6 0"
    using name_root [of 5 ex_names] by (simp add: ex_names_def)
  have bc: "name_at ex_names 2 [[98, 99]] 6 0"
    using name_label [of 2 "[98, 99]" ex_names] root by (simp add: ex_names_def slice_def)
  have "name_at ex_names 8 [[98, 99]] (8 + 2) (0 + 1)"
    by (rule name_pointer [where hi = 0, OF _ _ _ _ _ bc]) (simp_all add: ex_names_def)
  then have ptr: "name_at ex_names 8 [[98, 99]] 10 1" by simp
  show ?thesis
    using name_label [of 6 "[100]" ex_names] ptr by (simp add: ex_names_def slice_def)
qed

lemma pktDNSName_correct_witness:
  "name_at ex_names 6 [[100], [98, 99]] 10 1 \<and> pktDNSName ex_names 6 = (''d.bc'', 10)"
proof -
  have "str [100] = ''d''" "str [98, 99] = ''bc''" by (code_simp+)
  then show ?thesis using pktDNSName_correct [OF ex_names_at] ex_names_at by simp
qed

end
