(* ===== verification/Ftdc.thy ===== *)
theory Ftdc
  imports Go_Strings
begin

text \<open>
  MongoDB's diagnostic data (\<^verbatim>\<open>src/app/ftdc.go\<close>): a file is a sequence of BSON documents; a metric
  chunk holds one complete sample, the reference document, and the later samples as columns of
  deltas, run-length coded where they are zero. Modelled are the varint reader, the flattening of the
  reference document, the decoding of a chunk, the table of series that the samples are appended to,
  the walk over a file with its metadata, the removal of MongoDB 8.0's role groups and the accessors.

  Two packages are arguments, collected in \<open>ftdc_lib\<close>: the BSON driver (what a document's elements
  are, and the value a path leads to) and the zlib reader, with the machine's conversion of a
  \<^verbatim>\<open>float64\<close> to an integer and what the code reads off the metadata's numbers. A metric is an
  \<^verbatim>\<open>int64\<close>, a 64-bit word whose addition wraps. Times are kept as the milliseconds they are computed
  from; the code divides them by 1000.
\<close>

section \<open>The packages the decoder uses\<close>

text \<open>
  A BSON value as the code sees it. A document or array carries what \<^verbatim>\<open>Elements()\<close> returns for it,
  \<open>None\<close> when that is an error.
\<close>

datatype bval =
    BDoc "(string \<times> bval) list option"
  | BArray "(string \<times> bval) list option"
  | BBool bool
  | BInt32 int
  | BInt64 "64 word"
  | BDouble "64 word"
  | BDate "64 word"
  | BTimestamp nat nat
  | BString string
  | BBinary bytes
  | BOther

datatype zresult = ZNotZlib string | ZFail string | ZData bytes

datatype fnum = FInt int | FBits "64 word"

record ftdc_lib =
  lib_elements :: "bytes \<Rightarrow> (string \<times> bval) list option"
  lib_lookup :: "bytes \<Rightarrow> string list \<Rightarrow> bval option"
  lib_zread :: "bytes \<Rightarrow> nat \<Rightarrow> zresult"
  lib_trunc :: "64 word \<Rightarrow> 64 word"
  lib_fmt :: "fnum \<Rightarrow> string"
  lib_positive :: "fnum \<Rightarrow> bool"
  lib_equal :: "fnum \<Rightarrow> fnum \<Rightarrow> bool"

section \<open>The data\<close>

record ftdcSeries =
  s_Key :: string
  s_Values :: "64 word list"

record ftdcData =
  f_TS :: "int list"
  f_TSEnd :: "int list"
  f_Series :: "string \<rightharpoonup> ftdcSeries"
  f_Meta :: "string \<Rightarrow> string"
  f_Chunks :: nat
  f_Samples :: nat
  f_Skipped :: nat

definition ftdcMaxSamples :: nat where
  "ftdcMaxSamples = 200000"

definition new_ftdc :: ftdcData where
  "new_ftdc = \<lparr>f_TS = [], f_TSEnd = [], f_Series = Map.empty, f_Meta = (\<lambda>_. []), f_Chunks = 0, f_Samples = 0, f_Skipped = 0\<rparr>"

definition ftdcTimeKey :: string where "ftdcTimeKey = ''start''"
definition ftdcEndKey :: string where "ftdcEndKey = ''end''"

section \<open>Varints\<close>

text \<open>The loop of \<^verbatim>\<open>ftdcUvarint\<close> from byte \<open>i\<close>: the value and the bytes read, 0 when they ran out, -1 on overflow.\<close>

fun ftdcUvarint_loop :: "bytes \<Rightarrow> nat \<Rightarrow> 64 word \<Rightarrow> 64 word \<times> int" where
  "ftdcUvarint_loop [] i x = (0, 0)"
| "ftdcUvarint_loop (c # b) i x =
     (if c < 0x80 then
        if i > 9 \<or> (i = 9 \<and> c > 1) then (0, -1)
        else (x OR push_bit (7 * i) (ucast c), int i + 1)
      else ftdcUvarint_loop b (i + 1) (x OR push_bit (7 * i) (ucast (c AND 0x7f))))"

definition ftdcUvarint :: "bytes \<Rightarrow> 64 word \<times> int" where
  "ftdcUvarint b = ftdcUvarint_loop b 0 0"

section \<open>Flattening a reference document\<close>

definition is_nan_or_inf :: "64 word \<Rightarrow> bool" where
  "is_nan_or_inf w \<longleftrightarrow> drop_bit 52 w AND 0x7ff = 0x7ff"

definition join_key :: "string \<Rightarrow> string \<Rightarrow> string" where
  "join_key pre key = (if pre \<noteq> [] then pre @ ''.'' @ key else key)"

fun ftdc_value :: "ftdc_lib \<Rightarrow> string \<Rightarrow> bval \<Rightarrow> (string \<times> 64 word) list" where
  "ftdc_value L key (BDoc None) = []"
| "ftdc_value L key (BDoc (Some es)) = concat (map (\<lambda>(k, v). ftdc_value L (join_key key k) v) es)"
| "ftdc_value L key (BArray None) = []"
| "ftdc_value L key (BArray (Some es)) = concat (map (\<lambda>(k, v). ftdc_value L (join_key key k) v) es)"
| "ftdc_value L key (BBool b) = [(key, if b then 1 else 0)]"
| "ftdc_value L key (BInt32 i) = [(key, of_int i)]"
| "ftdc_value L key (BInt64 w) = [(key, w)]"
| "ftdc_value L key (BDouble w) = [(key, if is_nan_or_inf w then 0 else lib_trunc L w)]"
| "ftdc_value L key (BDate w) = [(key, w)]"
| "ftdc_value L key (BTimestamp t i) = [(key, of_nat t), (key @ ''.inc'', of_nat i)]"
| "ftdc_value L key (BString s) = []"
| "ftdc_value L key (BBinary b) = []"
| "ftdc_value L key BOther = []"

definition ftdcFlatten :: "ftdc_lib \<Rightarrow> bytes \<Rightarrow> (string \<times> 64 word) list" where
  "ftdcFlatten L doc = ftdc_value L [] (BDoc (lib_elements L doc))"

section \<open>The table of series\<close>

text \<open>The last value of a key in a sample, as the \<^verbatim>\<open>switch\<close> in the loop over the keys leaves it; 0 when absent.\<close>

definition sample_clock :: "string \<Rightarrow> (string \<times> 64 word) list \<Rightarrow> int" where
  "sample_clock key kvs = (case map_of (rev kvs) key of Some v \<Rightarrow> sint v | None \<Rightarrow> 0)"

text \<open>Appending one value to one series of a table that has \<open>n\<close> samples now.\<close>

definition series_add :: "nat \<Rightarrow> string \<times> 64 word \<Rightarrow> (string \<rightharpoonup> ftdcSeries) \<Rightarrow> (string \<rightharpoonup> ftdcSeries)" where
  "series_add n kv ser =
     (let (k, v) = kv;
          s = (case ser k of Some s \<Rightarrow> s | None \<Rightarrow> \<lparr>s_Key = k, s_Values = []\<rparr>);
          vs = s_Values s @ replicate (n - 1 - length (s_Values s)) 0
      in ser(k \<mapsto> s\<lparr>s_Values := vs @ [v]\<rparr>))"

definition appendSample :: "(string \<times> 64 word) list \<Rightarrow> ftdcData \<Rightarrow> ftdcData" where
  "appendSample kvs d =
     (if length (f_TS d) \<ge> ftdcMaxSamples then d
      else
        let ts = sample_clock ftdcTimeKey kvs; e = sample_clock ftdcEndKey kvs in
        if ts \<le> 0 then d
        else
          let n = length (f_TS d) + 1
          in d\<lparr>f_TS := f_TS d @ [ts], f_TSEnd := f_TSEnd d @ [if e < ts then ts else e],
               f_Samples := f_Samples d + 1, f_Series := fold (series_add n) kvs (f_Series d)\<rparr>)"

section \<open>Chunks\<close>

datatype ftdc_err =
    FNoData
  | FNotZlib string
  | FInflate string
  | FTooShort
  | FRefRange int
  | FNoMetrics
  | FHeaderTruncated
  | FCount nat nat
  | FStreamEnded nat nat
  | FRunTruncated nat

text \<open>
  The inner loop over the samples of metric \<open>m\<close>, from sample \<open>s\<close>: \<open>k\<close> deltas are left, \<open>rest\<close> is the
  unread stream, \<open>zeros\<close> what a run still owes. It returns the column, the stream and the zeros left.
\<close>

fun ftdc_column :: "nat \<Rightarrow> nat \<Rightarrow> nat \<Rightarrow> bytes \<Rightarrow> int \<Rightarrow> 64 word \<Rightarrow> ftdc_err + (64 word list \<times> bytes \<times> int)" where
  "ftdc_column m s 0 rest zeros cur = Inr ([], rest, zeros)"
| "ftdc_column m s (Suc k) rest zeros cur =
     (let next = (\<lambda>delta rest' zeros'.
        case ftdc_column m (s + 1) k rest' zeros' (cur + delta) of
          Inl e \<Rightarrow> Inl e
        | Inr (col, r) \<Rightarrow> Inr ((cur + delta) # col, r)) in
      if zeros > 0 then next 0 rest (zeros - 1)
      else
        let (v, n) = ftdcUvarint rest in
        if n \<le> 0 then Inl (FStreamEnded m s)
        else
          let rest1 = drop (nat n) rest in
          if v = 0 then
            let (run, n2) = ftdcUvarint rest1 in
            if n2 \<le> 0 then Inl (FRunTruncated m)
            else next 0 (drop (nat n2) rest1) (sint run)
          else next v rest1 zeros)"

fun ftdc_grid :: "nat \<Rightarrow> nat \<Rightarrow> 64 word list \<Rightarrow> bytes \<Rightarrow> int \<Rightarrow> ftdc_err + 64 word list list" where
  "ftdc_grid m nDeltas [] rest zeros = Inr []"
| "ftdc_grid m nDeltas (v # vs) rest zeros =
     (case ftdc_column m 0 nDeltas rest zeros v of
        Inl e \<Rightarrow> Inl e
      | Inr (col, rest', zeros') \<Rightarrow>
          (case ftdc_grid (m + 1) nDeltas vs rest' zeros' of Inl e \<Rightarrow> Inl e | Inr g \<Rightarrow> Inr (col # g)))"

text \<open>Row \<open>s\<close> of the grid, with the keys it belongs to.\<close>

definition grid_row :: "string list \<Rightarrow> 64 word list list \<Rightarrow> nat \<Rightarrow> (string \<times> 64 word) list" where
  "grid_row ks g s = zip ks (map (\<lambda>col. col ! s) g)"

text \<open>The chunk up to the point where it is accepted: the reference sample, the number of deltas, the stream.\<close>

definition chunk_open :: "ftdc_lib \<Rightarrow> bytes \<Rightarrow> ftdc_err + ((string \<times> 64 word) list \<times> nat \<times> bytes)" where
  "chunk_open L doc =
     (case lib_lookup L doc [''data''] of
        Some (BBinary data) \<Rightarrow>
          if length data < 4 then Inl FNoData
          else
            (case lib_zread L (drop 4 data) (le_u32 data + 1) of
               ZNotZlib e \<Rightarrow> Inl (FNotZlib e)
             | ZFail e \<Rightarrow> Inl (FInflate e)
             | ZData buf \<Rightarrow>
                 if length buf < 4 then Inl FTooShort
                 else
                   let refLen = le_i32 buf in
                   if refLen < 5 \<or> refLen > int (length buf) then Inl (FRefRange refLen)
                   else
                     let kvs = ftdcFlatten L (take (nat refLen) buf); rest = drop (nat refLen) buf in
                     if kvs = [] then Inl FNoMetrics
                     else if length rest < 8 then Inl FHeaderTruncated
                     else if le_u32 rest \<noteq> length kvs then Inl (FCount (le_u32 rest) (length kvs))
                     else Inr (kvs, le_u32 (drop 4 rest), drop 8 rest))
      | _ \<Rightarrow> Inl FNoData)"

definition readChunk :: "ftdc_lib \<Rightarrow> bytes \<Rightarrow> ftdcData \<Rightarrow> ftdcData \<times> ftdc_err option" where
  "readChunk L doc d =
     (case chunk_open L doc of
        Inl e \<Rightarrow> (d, Some e)
      | Inr (kvs, nDeltas, rest) \<Rightarrow>
          let d1 = appendSample kvs (d\<lparr>f_Chunks := f_Chunks d + 1\<rparr>) in
          if nDeltas = 0 then (d1, None)
          else
            (case ftdc_grid 0 nDeltas (map snd kvs) rest 0 of
               Inl e \<Rightarrow> (d1, Some e)
             | Inr g \<Rightarrow> (fold (\<lambda>s. appendSample (grid_row (map fst kvs) g s)) [0..<nDeltas] d1, None)))"

section \<open>Metadata\<close>

definition ftdcNumOf :: "bval \<Rightarrow> fnum option" where
  "ftdcNumOf v = (case v of BInt32 i \<Rightarrow> Some (FInt i) | BInt64 w \<Rightarrow> Some (FInt (sint w)) | BDouble w \<Rightarrow> Some (FBits w) | _ \<Rightarrow> None)"

definition meta_put :: "string \<Rightarrow> string \<Rightarrow> (string \<Rightarrow> string) \<Rightarrow> (string \<Rightarrow> string)" where
  "meta_put key val m = (if val \<noteq> [] \<and> m key = [] then m(key := val) else m)"

text \<open>The closures \<^verbatim>\<open>str\<close>, \<^verbatim>\<open>num\<close> and \<^verbatim>\<open>boolean\<close> as data: what to read, under which key, from which path.\<close>

datatype meta_field = MStr string "string list" | MNum string string "string list" | MBool string "string list"

definition meta_num :: "(string list \<Rightarrow> bval option) \<Rightarrow> string list \<Rightarrow> fnum option" where
  "meta_num at path = (case at path of Some v \<Rightarrow> ftdcNumOf v | None \<Rightarrow> None)"

fun meta_read :: "ftdc_lib \<Rightarrow> (string list \<Rightarrow> bval option) \<Rightarrow> meta_field \<Rightarrow> (string \<Rightarrow> string) \<Rightarrow> (string \<Rightarrow> string)" where
  "meta_read L at (MStr key path) m = (case at path of Some (BString s) \<Rightarrow> meta_put key s m | _ \<Rightarrow> m)"
| "meta_read L at (MNum key suf path) m = (case meta_num at path of Some f \<Rightarrow> meta_put key (lib_fmt L f @ suf) m | None \<Rightarrow> m)"
| "meta_read L at (MBool key path) m = (case at path of Some (BBool b) \<Rightarrow> meta_put key (if b then ''yes'' else ''no'') m | _ \<Rightarrow> m)"

definition meta_fields :: "meta_field list" where
  "meta_fields =
    [MStr ''version'' [''buildInfo'', ''version''],
     MStr ''psmdbVersion'' [''buildInfo'', ''psmdbVersion''],
     MStr ''gitVersion'' [''buildInfo'', ''gitVersion''],
     MStr ''allocator'' [''buildInfo'', ''allocator''],
     MStr ''openssl'' [''buildInfo'', ''openssl'', ''running''],
     MStr ''host'' [''hostInfo'', ''system'', ''hostname''],
     MStr ''os'' [''hostInfo'', ''os'', ''name''],
     MStr ''kernel'' [''hostInfo'', ''extra'', ''kernelVersion''],
     MStr ''cpu'' [''hostInfo'', ''extra'', ''cpuString''],
     MStr ''thp'' [''hostInfo'', ''extra'', ''thp_enabled''],
     MNum ''cores'' [] [''hostInfo'', ''system'', ''numCores''],
     MNum ''coresAvailable'' [] [''hostInfo'', ''system'', ''numCoresAvailableToProcess''],
     MNum ''memSizeMB'' '' MiB'' [''hostInfo'', ''system'', ''memSizeMB''],
     MNum ''memLimitMB'' '' MiB'' [''hostInfo'', ''system'', ''memLimitMB''],
     MBool ''numa'' [''hostInfo'', ''system'', ''numaEnabled''],
     MNum ''maxOpenFiles'' [] [''hostInfo'', ''extra'', ''maxOpenFiles''],
     MNum ''fileDescriptors'' [] [''ulimits'', ''fileDescriptors'', ''soft''],
     MStr ''replSet'' [''getCmdLineOpts'', ''parsed'', ''replication'', ''replSetName''],
     MStr ''process'' [''getCmdLineOpts'', ''parsed'', ''processManagement'', ''pidFilePath''],
     MStr ''dbPath'' [''getCmdLineOpts'', ''parsed'', ''storage'', ''dbPath''],
     MStr ''logPath'' [''getCmdLineOpts'', ''parsed'', ''systemLog'', ''path''],
     MStr ''authorization'' [''getCmdLineOpts'', ''parsed'', ''security'', ''authorization''],
     MStr ''keyFile'' [''getCmdLineOpts'', ''parsed'', ''security'', ''keyFile''],
     MStr ''clusterRole'' [''getCmdLineOpts'', ''parsed'', ''sharding'', ''clusterRole''],
     MNum ''port'' [] [''getCmdLineOpts'', ''parsed'', ''net'', ''port''],
     MNum ''cacheSizeGB'' '' GiB'' [''getCmdLineOpts'', ''parsed'', ''storage'', ''wiredTiger'', ''engineConfig'', ''cacheSizeGB''],
     MStr ''defaultReadConcern'' [''getDefaultRWConcern'', ''defaultReadConcern'', ''level''],
     MNum ''defaultWriteConcern'' [] [''getDefaultRWConcern'', ''defaultWriteConcern'', ''w'']]"

text \<open>One round of the loop over the two prefixes: every field, then the note on memory.\<close>

definition meta_round :: "ftdc_lib \<Rightarrow> (string list \<Rightarrow> bval option) \<Rightarrow> (string \<Rightarrow> string) \<Rightarrow> (string \<Rightarrow> string)" where
  "meta_round L at m =
     (let m1 = fold (meta_read L at) meta_fields m
      in case (meta_num at [''hostInfo'', ''system'', ''memSizeMB''], meta_num at [''hostInfo'', ''system'', ''memLimitMB'']) of
           (Some sz, Some lim) \<Rightarrow>
             if lib_positive L sz \<and> lib_positive L lim \<and> lib_equal L sz lim \<and> m1 ''cacheSizeGB'' = [] then
               meta_put ''memNote'' (''mongod sized its cache from '' @ lib_fmt L sz
                 @ '' MiB of visible memory; a smaller container or cgroup limit is invisible to it and to this file'') m1
             else m1
         | _ \<Rightarrow> m1)"

definition readMetadata :: "ftdc_lib \<Rightarrow> bytes \<Rightarrow> ftdcData \<Rightarrow> ftdcData" where
  "readMetadata L doc d =
     (case lib_lookup L doc [''doc''] of
        Some (BDoc _) \<Rightarrow>
          d\<lparr>f_Meta := fold (\<lambda>pre. meta_round L (\<lambda>path. lib_lookup L doc (''doc'' # pre @ path))) [[], [''common'']] (f_Meta d)\<rparr>
      | _ \<Rightarrow> d)"

section \<open>Files\<close>

text \<open>The \<^verbatim>\<open>type\<close> of a document: 0 when it has none, as \<^verbatim>\<open>Int32OK\<close> returns it.\<close>

definition doc_type :: "ftdc_lib \<Rightarrow> bytes \<Rightarrow> int" where
  "doc_type L doc = (case lib_lookup L doc [''type''] of Some (BInt32 i) \<Rightarrow> i | _ \<Rightarrow> 0)"

definition readDoc :: "ftdc_lib \<Rightarrow> bytes \<Rightarrow> ftdcData \<Rightarrow> ftdcData" where
  "readDoc L doc d =
     (if doc_type L doc = 0 then readMetadata L doc d
      else if doc_type L doc = 1 then
        (case readChunk L doc d of (d1, None) \<Rightarrow> d1 | (d1, Some e) \<Rightarrow> d1\<lparr>f_Skipped := f_Skipped d1 + 1\<rparr>)
      else d)"

function readFile :: "ftdc_lib \<Rightarrow> bytes \<Rightarrow> ftdcData \<Rightarrow> ftdcData" where
  "readFile L raw d =
     (if length raw \<ge> 4 then
        let n = le_i32 raw in
        if n < 5 \<or> n > int (length raw) then d
        else
          let d1 = readDoc L (take (nat n) raw) d in
          if length (f_TS d1) \<ge> ftdcMaxSamples then d1
          else readFile L (drop (nat n) raw) d1
      else d)"
  by pat_completeness auto
termination
  by (relation "measure (\<lambda>(L, raw, d). length raw)") auto

declare readFile.simps [simp del]

section \<open>Role groups\<close>

definition ftdcRoleGroups :: "string list" where
  "ftdcRoleGroups = [''common.'', ''router.'', ''shard.'']"

fun unwrap_role :: "string list \<Rightarrow> string \<Rightarrow> string option" where
  "unwrap_role [] key = None"
| "unwrap_role (g # gs) key = (case go_CutPrefix key g of Some r \<Rightarrow> Some r | None \<Rightarrow> unwrap_role gs key)"

definition ftdcUnwrapRole :: "string \<Rightarrow> string \<times> bool" where
  "ftdcUnwrapRole key = (case unwrap_role ftdcRoleGroups key of Some r \<Rightarrow> (r, True) | None \<Rightarrow> (key, False))"

text \<open>The second loop of \<^verbatim>\<open>unwrapRoles\<close>, over the wrapped keys in the order the map walk gave them.\<close>

definition unwrap_one :: "string \<Rightarrow> (string \<rightharpoonup> ftdcSeries) \<Rightarrow> (string \<rightharpoonup> ftdcSeries)" where
  "unwrap_one k ser =
     (let flat = fst (ftdcUnwrapRole k) in
      if ser flat \<noteq> None then ser(k := None)
      else case ser k of Some s \<Rightarrow> (ser(flat \<mapsto> s\<lparr>s_Key := flat\<rparr>))(k := None) | None \<Rightarrow> ser)"

definition unwrapRoles :: "string list \<Rightarrow> ftdcData \<Rightarrow> ftdcData" where
  "unwrapRoles wrapped d = d\<lparr>f_Series := fold unwrap_one wrapped (f_Series d)\<rparr>"

section \<open>Parsing a set of files\<close>

definition pad_left :: "nat \<Rightarrow> ftdcSeries \<Rightarrow> ftdcSeries" where
  "pad_left n s = s\<lparr>s_Values := replicate (n - length (s_Values s)) 0 @ s_Values s\<rparr>"

text \<open>
  \<open>walk\<close> is the order in which the runtime walks the keys of the series: any list of the wrapped
  keys, each once.
\<close>

definition ftdcParse :: "ftdc_lib \<Rightarrow> (ftdcData \<Rightarrow> string list) \<Rightarrow> bytes list \<Rightarrow> string + ftdcData" where
  "ftdcParse L walk files =
     (let d = fold (readFile L) files new_ftdc in
      if f_TS d = [] then Inl (''no metric samples found '' @ em_dash @ '' is this a diagnostic.data file?'')
      else
        let d1 = unwrapRoles (walk d) d
        in Inr (d1\<lparr>f_Series := (\<lambda>k. map_option (pad_left (length (f_TS d1))) (f_Series d1 k))\<rparr>))"

definition wrapped_keys :: "ftdcData \<Rightarrow> string list \<Rightarrow> bool" where
  "wrapped_keys d ks \<longleftrightarrow> distinct ks \<and> set ks = {k \<in> dom (f_Series d). snd (ftdcUnwrapRole k)}"

section \<open>Accessors\<close>

definition ftdc_at :: "ftdcData \<Rightarrow> string \<Rightarrow> int \<Rightarrow> (64 word) option" where
  "ftdc_at d key i =
     (case f_Series d key of
        None \<Rightarrow> None
      | Some s \<Rightarrow> if i < 0 \<or> i \<ge> int (length (s_Values s)) then None else Some (s_Values s ! nat i))"

definition ftdc_has :: "ftdcData \<Rightarrow> string \<Rightarrow> bool" where
  "ftdc_has d key = (case f_Series d key of None \<Rightarrow> False | Some s \<Rightarrow> list_ex (\<lambda>v. v \<noteq> 0) (s_Values s))"

definition ftdc_last :: "ftdcData \<Rightarrow> string \<Rightarrow> (64 word) option" where
  "ftdc_last d key =
     (case f_Series d key of
        None \<Rightarrow> None
      | Some s \<Rightarrow> if s_Values s = [] then None else Some (last (s_Values s)))"

definition ftdc_window :: "ftdcData \<Rightarrow> int \<times> int" where
  "ftdc_window d = (if f_TS d = [] then (0, 0) else (hd (f_TS d), last (f_TS d)))"

section \<open>Reading back what an encoder writes\<close>

text \<open>An encoder for unsigned LEB128.\<close>

fun enc_uvarint :: "nat \<Rightarrow> bytes" where
  "enc_uvarint n = (if n < 128 then [of_nat n] else of_nat (n mod 128 + 128) # enc_uvarint (n div 128))"

declare enc_uvarint.simps [simp del]

lemma or_shifted: "a < 2 ^ k \<Longrightarrow> of_nat a OR push_bit k (of_nat n) = (of_nat (a + 2 ^ k * n) :: 64 word)"
proof -
  assume "a < 2 ^ k"
  then have "a OR push_bit k n = a + 2 ^ k * n"
    using or_push_bit_add [of a k n] by (simp add: push_bit_eq_mult mult.commute)
  then have "of_nat (a + 2 ^ k * n) = (of_nat (a OR push_bit k n) :: 64 word)" by simp
  then show ?thesis by (simp only: of_nat_or_eq push_bit_of_nat)
qed

lemma ucast_byte: "n < 256 \<Longrightarrow> ucast (of_nat n :: byte) = (of_nat n :: 64 word)"
  by (simp add: unsigned_of_nat take_bit_eq_mod)

lemma byte_small: "n < 128 \<Longrightarrow> (of_nat n :: byte) < 0x80"
  by (simp add: word_less_nat_alt unat_of_nat take_bit_eq_mod)

lemma byte_cont:
  assumes "n < 128"
  shows "\<not> (of_nat (n + 128) :: byte) < 0x80" "(of_nat (n + 128) :: byte) AND 0x7f = of_nat n"
proof -
  have u: "unat (of_nat (n + 128) :: byte) = n + 128"
    using assms by (simp add: unat_of_nat take_bit_eq_mod del: of_nat_add)
  show "\<not> (of_nat (n + 128) :: byte) < 0x80"
    unfolding word_less_nat_alt u by simp
  have "unat ((of_nat (n + 128) :: byte) AND 127) = (n + 128) mod 128"
    by (simp only: unat_and_mask_byte u)
  also have "\<dots> = unat (of_nat n :: byte)"
    using assms by (simp add: unat_of_nat take_bit_eq_mod)
  finally show "(of_nat (n + 128) :: byte) AND 0x7f = of_nat n"
    by (simp add: word_unat_eq_iff)
qed

lemma ftdcUvarint_loop_enc:
  assumes "a < 2 ^ (7 * i)" "a + 2 ^ (7 * i) * n < 2 ^ 64" "0 < n \<or> i = 0"
  shows "ftdcUvarint_loop (enc_uvarint n @ r) i (of_nat a) =
           (of_nat (a + 2 ^ (7 * i) * n), int i + int (length (enc_uvarint n)))"
  using assms
proof (induction n arbitrary: i a rule: enc_uvarint.induct)
  case (1 n)
  show ?case
  proof (cases "n < 128")
    case True
    have "\<not> i > 9"
    proof
      assume "i > 9"
      then have "(2 :: nat) ^ 70 \<le> 2 ^ (7 * i)" by (intro power_increasing) auto
      moreover have "2 ^ (7 * i) * 1 \<le> 2 ^ (7 * i) * n" using \<open>i > 9\<close> "1.prems"(3) by (intro mult_le_mono) auto
      ultimately have "(2 :: nat) ^ 70 \<le> 2 ^ (7 * i) * n" by linarith
      then show False using "1.prems"(2) by simp
    qed
    moreover have "\<not> (i = 9 \<and> (of_nat n :: byte) > 1)"
      using "1.prems"(2) True by (auto simp: word_less_nat_alt unat_of_nat take_bit_eq_mod)
    ultimately show ?thesis
      using True "1.prems"(1) by (simp add: enc_uvarint.simps [of n] byte_small ucast_byte or_shifted)
  next
    case False
    let ?a = "a + 2 ^ (7 * i) * (n mod 128)"
    have m: "n mod 128 < 128" by simp
    have n: "n = n mod 128 + 128 * (n div 128)" by simp
    have p: "(2 :: nat) ^ (7 * (i + 1)) = 2 ^ (7 * i) * 128" by (simp add: power_add)
    have "2 ^ (7 * i) * n = 2 ^ (7 * i) * (n mod 128) + 2 ^ (7 * i) * (128 * (n div 128))"
      using n by (metis distrib_left)
    then have split: "a + 2 ^ (7 * i) * n = ?a + 2 ^ (7 * (i + 1)) * (n div 128)"
      unfolding p by (simp only: add.assoc mult.assoc)
    have "2 ^ (7 * i) * (n mod 128) \<le> 2 ^ (7 * i) * 127" using m by (intro mult_le_mono) auto
    then have "?a < 2 ^ (7 * i) * 128" using "1.prems"(1) by linarith
    then have a: "?a < 2 ^ (7 * (i + 1))" by (simp add: power_add)
    have "ftdcUvarint_loop (enc_uvarint n @ r) i (of_nat a) =
        ftdcUvarint_loop (enc_uvarint (n div 128) @ r) (i + 1) (of_nat ?a)"
      using False "1.prems"(1) byte_cont [OF m]
      by (simp add: enc_uvarint.simps [of n] ucast_byte or_shifted del: of_nat_add)
    also have "\<dots> = (of_nat (a + 2 ^ (7 * i) * n), int i + int (length (enc_uvarint n)))"
      using "1.IH" [OF False a] "1.prems"(2) False unfolding split
      by (simp add: enc_uvarint.simps [of n])
    finally show ?thesis .
  qed
qed

lemma ftdcUvarint_enc:
  "n < 2 ^ 64 \<Longrightarrow> ftdcUvarint (enc_uvarint n @ r) = (of_nat n, int (length (enc_uvarint n)))"
  using ftdcUvarint_loop_enc [of 0 0 n r] by (simp add: ftdcUvarint_def)

lemma enc_uvarint_0: "enc_uvarint 0 = [0]"
  by (simp add: enc_uvarint.simps [of 0])

lemma length_enc_uvarint: "0 < length (enc_uvarint n)"
  by (subst enc_uvarint.simps) simp

text \<open>
  The stream an encoder writes: nonzero deltas, and zeros in runs of any lengths it likes. A run may
  span columns.
\<close>

datatype delta_tok = Delta "64 word" | ZeroRun nat

fun tok_deltas :: "delta_tok \<Rightarrow> 64 word list" where
  "tok_deltas (Delta w) = [w]"
| "tok_deltas (ZeroRun k) = replicate (Suc k) 0"

fun tok_enc :: "delta_tok \<Rightarrow> bytes" where
  "tok_enc (Delta w) = enc_uvarint (unat w)"
| "tok_enc (ZeroRun k) = enc_uvarint 0 @ enc_uvarint k"

fun tok_ok :: "delta_tok \<Rightarrow> bool" where
  "tok_ok (Delta w) \<longleftrightarrow> w \<noteq> 0"
| "tok_ok (ZeroRun k) \<longleftrightarrow> k < 2 ^ 63"

definition enc_stream :: "delta_tok list \<Rightarrow> bytes" where
  "enc_stream ts = concat (map tok_enc ts)"

definition stream_deltas :: "delta_tok list \<Rightarrow> 64 word list" where
  "stream_deltas ts = concat (map tok_deltas ts)"

lemma stream_simps [simp]:
  "enc_stream [] = []" "enc_stream (t # ts) = tok_enc t @ enc_stream ts"
  "stream_deltas [] = []" "stream_deltas (t # ts) = tok_deltas t @ stream_deltas ts"
  by (simp_all add: enc_stream_def stream_deltas_def)

text \<open>The values of a metric: the running sums of its deltas.\<close>

fun sums :: "64 word \<Rightarrow> 64 word list \<Rightarrow> 64 word list" where
  "sums cur [] = []"
| "sums cur (x # xs) = (cur + x) # sums (cur + x) xs"

lemma sums_nth: "s < length xs \<Longrightarrow> sums cur xs ! s = cur + sum_list (take (Suc s) xs)"
proof (induction xs arbitrary: cur s)
  case (Cons x xs)
  then show ?case by (cases s) (simp_all add: add.assoc)
qed simp

lemma sint_run: "k < 2 ^ 63 \<Longrightarrow> sint (of_nat k :: 64 word) = int k"
  by (simp add: signed_of_nat signed_take_bit_int_eq_self)

lemma column_delta:
  assumes "ftdcUvarint (e @ r) = (v, int (length e))" "0 < length e" "v \<noteq> 0"
  shows "ftdc_column m s (Suc k) (e @ r) 0 cur =
           (case ftdc_column m (s + 1) k r 0 (cur + v) of Inl x \<Rightarrow> Inl x | Inr (col, y) \<Rightarrow> Inr ((cur + v) # col, y))"
  using assms by simp

lemma column_zeros:
  assumes "ftdcUvarint r0 = (run, int (length e))" "r0 = e @ r" "0 < length e"
  shows "ftdc_column m s (Suc k) (0 # r0) 0 cur =
           (case ftdc_column m (s + 1) k r (sint run) cur of Inl x \<Rightarrow> Inl x | Inr (col, y) \<Rightarrow> Inr (cur # col, y))"
proof -
  have "ftdcUvarint (0 # r0) = (0, 1)" by (simp add: ftdcUvarint_def)
  then show ?thesis using assms by (simp split: sum.split)
qed

lemma column_run:
  "ftdc_column m s (Suc k) rest (int (Suc z)) cur =
     (case ftdc_column m (s + 1) k rest (int z) cur of Inl x \<Rightarrow> Inl x | Inr (col, y) \<Rightarrow> Inr (cur # col, y))"
  by (simp split: sum.split)

declare ftdc_column.simps(2) [simp del]

lemma ftdc_column_enc:
  assumes "k \<le> length (replicate z 0 @ stream_deltas ts)" "\<forall>t \<in> set ts. tok_ok t"
  shows "\<exists>z' ts'. ftdc_column m s k (enc_stream ts @ r) (int z) cur =
             Inr (sums cur (take k (replicate z 0 @ stream_deltas ts)), enc_stream ts' @ r, int z')
           \<and> replicate z' 0 @ stream_deltas ts' = drop k (replicate z 0 @ stream_deltas ts) \<and> (\<forall>t \<in> set ts'. tok_ok t)"
  using assms
proof (induction k arbitrary: s z ts cur)
  case 0
  then show ?case by auto
next
  case (Suc k)
  show ?case
  proof (cases z)
    case (Suc z0)
    have "k \<le> length (replicate z0 0 @ stream_deltas ts)" using Suc.prems(1) Suc by simp
    from Suc.IH [OF this Suc.prems(2), of "s + 1" cur] obtain z' ts' where
      "ftdc_column m (s + 1) k (enc_stream ts @ r) (int z0) cur =
         Inr (sums cur (take k (replicate z0 0 @ stream_deltas ts)), enc_stream ts' @ r, int z')"
      "replicate z' 0 @ stream_deltas ts' = drop k (replicate z0 0 @ stream_deltas ts)" "\<forall>t \<in> set ts'. tok_ok t"
      by blast
    then show ?thesis unfolding Suc column_run by (intro exI [of _ z'] exI [of _ ts']) simp
  next
    case 0
    then obtain t us where ts: "ts = t # us" using Suc.prems(1) by (cases ts) auto
    have ok: "\<forall>t \<in> set us. tok_ok t" "tok_ok t" using Suc.prems(2) ts by auto
    show ?thesis
    proof (cases t)
      case (Delta w)
      have u: "ftdcUvarint (enc_uvarint (unat w) @ (enc_stream us @ r)) = (w, int (length (enc_uvarint (unat w))))"
        using ftdcUvarint_enc [of "unat w"] unsigned_less [of w, where ?'a = nat] by simp
      have w: "w \<noteq> 0" using ok(2) Delta by simp
      have "k \<le> length (replicate 0 0 @ stream_deltas us)" using Suc.prems(1) 0 ts Delta by simp
      from Suc.IH [OF this ok(1), of "s + 1" "cur + w"] obtain z' ts' where
        "ftdc_column m (s + 1) k (enc_stream us @ r) 0 (cur + w) =
           Inr (sums (cur + w) (take k (stream_deltas us)), enc_stream ts' @ r, int z')"
        "replicate z' 0 @ stream_deltas ts' = drop k (stream_deltas us)" "\<forall>t \<in> set ts'. tok_ok t"
        by auto
      then show ?thesis using column_delta [OF u length_enc_uvarint w, of m s k cur] 0 ts Delta
        by (intro exI [of _ z'] exI [of _ ts']) simp
    next
      case (ZeroRun j)
      then have j: "j < 2 ^ 63" using ok(2) by simp
      then have u: "ftdcUvarint (enc_uvarint j @ (enc_stream us @ r)) = (of_nat j, int (length (enc_uvarint j)))"
        by (intro ftdcUvarint_enc) simp
      have "k \<le> length (replicate j 0 @ stream_deltas us)" using Suc.prems(1) 0 ts ZeroRun by simp
      from Suc.IH [OF this ok(1), of "s + 1" cur] obtain z' ts' where
        "ftdc_column m (s + 1) k (enc_stream us @ r) (int j) cur =
           Inr (sums cur (take k (replicate j 0 @ stream_deltas us)), enc_stream ts' @ r, int z')"
        "replicate z' 0 @ stream_deltas ts' = drop k (replicate j 0 @ stream_deltas us)" "\<forall>t \<in> set ts'. tok_ok t"
        by blast
      then show ?thesis
        using column_zeros [OF u refl length_enc_uvarint, of m s k cur] 0 ts ZeroRun sint_run [OF j]
        by (intro exI [of _ z'] exI [of _ ts']) (simp add: enc_uvarint_0)
    qed
  qed
qed

lemma ftdc_grid_enc:
  assumes "length dss = length vs" "\<forall>ds \<in> set dss. length ds = nd" "replicate z 0 @ stream_deltas ts = concat dss"
    "\<forall>t \<in> set ts. tok_ok t"
  shows "ftdc_grid m nd vs (enc_stream ts @ r) (int z) = Inr (map2 sums vs dss)"
  using assms
proof (induction vs arbitrary: dss m z ts)
  case (Cons v vs)
  then obtain ds rest where dss: "dss = ds # rest" by (cases dss) auto
  have D: "replicate z 0 @ stream_deltas ts = ds @ concat rest" "length ds = nd" using Cons.prems dss by auto
  have "nd \<le> length (replicate z 0 @ stream_deltas ts)" unfolding D(1) using D(2) by simp
  from ftdc_column_enc [OF this Cons.prems(4), of m 0 r v] obtain z' ts' where
    c: "ftdc_column m 0 nd (enc_stream ts @ r) (int z) v = Inr (sums v ds, enc_stream ts' @ r, int z')"
    "replicate z' 0 @ stream_deltas ts' = concat rest" "\<forall>t \<in> set ts'. tok_ok t"
    unfolding D(1) using D(2) by auto
  have "ftdc_grid (m + 1) nd vs (enc_stream ts' @ r) (int z') = Inr (map2 sums vs rest)"
    using Cons.prems dss c by (intro Cons.IH) auto
  then show ?case using c(1) dss by simp
qed simp

text \<open>The sample \<open>s\<close> deltas after the reference: every metric advanced by its first \<open>s + 1\<close> deltas.\<close>

definition later_sample :: "(string \<times> 64 word) list \<Rightarrow> 64 word list list \<Rightarrow> nat \<Rightarrow> (string \<times> 64 word) list" where
  "later_sample kvs dss s = map2 (\<lambda>(k, v) ds. (k, v + sum_list (take (Suc s) ds))) kvs dss"

lemma grid_row_sums:
  assumes "length dss = length kvs" "\<forall>ds \<in> set dss. length ds = nd" "s < nd"
  shows "grid_row (map fst kvs) (map2 sums (map snd kvs) dss) s = later_sample kvs dss s"
  using assms
proof (induction kvs arbitrary: dss)
  case (Cons kv kvs)
  then obtain ds rest where dss: "dss = ds # rest" by (cases dss) auto
  have "sums (snd kv) ds ! s = snd kv + sum_list (take (Suc s) ds)"
    using Cons.prems dss by (intro sums_nth) auto
  moreover have "grid_row (map fst kvs) (map2 sums (map snd kvs) rest) s = later_sample kvs rest s"
    using Cons.prems dss by (intro Cons.IH) auto
  ultimately show ?case using dss by (simp add: grid_row_def later_sample_def split: prod.split)
qed (simp add: grid_row_def later_sample_def)

text \<open>The inflated contents of a chunk.\<close>

definition chunk_bytes :: "bytes \<Rightarrow> nat \<Rightarrow> nat \<Rightarrow> delta_tok list \<Rightarrow> bytes" where
  "chunk_bytes ref nm nd ts = ref @ le_enc 4 nm @ le_enc 4 nd @ enc_stream ts"

definition ref_document :: "ftdc_lib \<Rightarrow> bytes \<Rightarrow> (string \<times> 64 word) list \<Rightarrow> bool" where
  "ref_document L ref kvs \<longleftrightarrow> 5 \<le> length ref \<and> le_i32 ref = int (length ref) \<and> ftdcFlatten L ref = kvs \<and> kvs \<noteq> []
     \<and> length kvs < 2 ^ 32"

lemma chunk_open_enc:
  assumes "lib_lookup L doc [''data''] = Some (BBinary (le_enc 4 n @ z))" "n < 2 ^ 32"
    "lib_zread L z (n + 1) = ZData (chunk_bytes ref (length kvs) nd ts)" "ref_document L ref kvs" "nd < 2 ^ 32"
  shows "chunk_open L doc = Inr (kvs, nd, enc_stream ts)"
proof -
  have ref: "5 \<le> length ref" "le_i32 ref = int (length ref)" "ftdcFlatten L ref = kvs" "kvs \<noteq> []" "length kvs < 2 ^ 32"
    using assms(4) by (auto simp: ref_document_def)
  have i32: "le_i32 (chunk_bytes ref (length kvs) nd ts) = int (length ref)"
    using ref by (simp add: chunk_bytes_def)
  have m: "le_u32 (le_enc 4 (length kvs) @ le_enc 4 nd @ enc_stream ts) = length kvs"
    using ref(5) by (rule le_u32_le_enc)
  have d: "le_u32 (le_enc 4 nd @ enc_stream ts) = nd"
    using assms(5) by (rule le_u32_le_enc)
  have len: "le_u32 (le_enc 4 n @ z) = n" using assms(2) by (rule le_u32_le_enc)
  have "\<not> length (chunk_bytes ref (length kvs) nd ts) < 4" "int (length ref) \<le> int (length (chunk_bytes ref (length kvs) nd ts))"
    by (simp_all add: chunk_bytes_def)
  then show ?thesis
    unfolding chunk_open_def assms(1) using assms(3) ref m d
    by (simp add: len i32 Let_def) (simp add: chunk_bytes_def)
qed

text \<open>
  C37. A metric chunk is decoded exactly: when the driver reads the reference document as the
  metrics \<open>kvs\<close> and zlib inflates the chunk to what an encoder wrote for the deltas \<open>dss\<close> (one list
  per metric, run-length coded in any way, runs across columns included), the samples appended are
  the reference and then, for every delta position, each metric's wrapped running sum.
\<close>

theorem readChunk_roundtrip:
  assumes "lib_lookup L doc [''data''] = Some (BBinary (le_enc 4 n @ z))" "n < 2 ^ 32"
    "lib_zread L z (n + 1) = ZData (chunk_bytes ref (length kvs) nd ts)" "ref_document L ref kvs" "nd < 2 ^ 32"
    "length dss = length kvs" "\<forall>ds \<in> set dss. length ds = nd"
    "stream_deltas ts = concat dss" "\<forall>t \<in> set ts. tok_ok t"
  shows "readChunk L doc d =
    (fold appendSample (kvs # map (later_sample kvs dss) [0..<nd]) (d\<lparr>f_Chunks := f_Chunks d + 1\<rparr>), None)"
proof -
  have g: "ftdc_grid 0 nd (map snd kvs) (enc_stream ts) 0 = Inr (map2 sums (map snd kvs) dss)"
    using ftdc_grid_enc [of dss "map snd kvs" nd 0 ts 0 "[]"] assms(6-9) by simp
  have rows: "map (grid_row (map fst kvs) (map2 sums (map snd kvs) dss)) [0..<nd] = map (later_sample kvs dss) [0..<nd]"
    using grid_row_sums [OF assms(6,7)] by simp
  have "fold (\<lambda>s. appendSample (grid_row (map fst kvs) (map2 sums (map snd kvs) dss) s)) [0..<nd] e =
      fold appendSample (map (later_sample kvs dss) [0..<nd]) e" for e
    unfolding rows [symmetric] by (simp add: fold_map comp_def)
  then show ?thesis
    unfolding readChunk_def chunk_open_enc [OF assms(1-5)] using g by (simp add: Let_def)
qed

text \<open>A chunk with a clock and one gauge that stands still: the reference and two deltas.\<close>

definition ex_ref :: bytes where "ex_ref = le_enc 4 5 @ [0]"
definition ex_toks :: "delta_tok list" where "ex_toks = [Delta 1000, Delta 1000, ZeroRun 1]"
definition ex_kvs :: "(string \<times> 64 word) list" where "ex_kvs = [(''start'', 1000), (''x'', 5)]"

definition ex_lib :: ftdc_lib where
  "ex_lib = \<lparr>lib_elements = (\<lambda>_. Some [(''start'', BDate 1000), (''x'', BInt32 5)]),
     lib_lookup = (\<lambda>_ path. if path = [''data''] then Some (BBinary (le_enc 4 16 @ [120]))
       else if path = [''type''] then Some (BInt32 1) else None),
     lib_zread = (\<lambda>_ _. ZData (chunk_bytes ex_ref (length ex_kvs) 2 ex_toks)),
     lib_trunc = id, lib_fmt = (\<lambda>_. []), lib_positive = (\<lambda>_. False), lib_equal = (=)\<rparr>"

lemma ex_ref_document: "ref_document ex_lib ex_ref ex_kvs"
proof -
  have "le_i32 ex_ref = 5" unfolding ex_ref_def using le_i32_le_enc [of 5 "[0]"] by simp
  then show ?thesis
    by (simp add: ref_document_def ex_ref_def ftdcFlatten_def ex_lib_def ex_kvs_def join_key_def)
qed

lemma readChunk_roundtrip_witness:
  "ref_document ex_lib ex_ref ex_kvs \<and> readChunk ex_lib [] new_ftdc =
     (fold appendSample [ex_kvs, [(''start'', 2000), (''x'', 5)], [(''start'', 3000), (''x'', 5)]]
        (new_ftdc\<lparr>f_Chunks := 1\<rparr>), None)"
proof -
  have "readChunk ex_lib [] new_ftdc =
     (fold appendSample (ex_kvs # map (later_sample ex_kvs [[1000, 1000], [0, 0]]) [0..<2])
        (new_ftdc\<lparr>f_Chunks := f_Chunks new_ftdc + 1\<rparr>), None)"
    by (rule readChunk_roundtrip [where n = 16 and z = "[120]" and ts = ex_toks, OF _ _ _ ex_ref_document])
      (simp_all add: ex_lib_def ex_toks_def ex_kvs_def)
  moreover have "map (later_sample ex_kvs [[1000, 1000], [0, 0]]) [0..<2] =
      [[(''start'', 2000), (''x'', 5)], [(''start'', 3000), (''x'', 5)]]"
    by (simp add: later_sample_def ex_kvs_def upt_rec)
  ultimately show ?thesis using ex_ref_document by (simp add: new_ftdc_def)
qed

section \<open>The table and the samples it stands for\<close>

text \<open>
  The specification: a set of files is a sequence of samples, each a list of metrics with values. Those
  with a clock are kept, up to the limit, and \<open>metric k r\<close> is the value of \<open>k\<close> in sample \<open>r\<close>, 0 where the
  sample does not have it.
\<close>

type_synonym sample = "(string \<times> 64 word) list"

definition chunk_rows :: "ftdc_lib \<Rightarrow> bytes \<Rightarrow> sample list" where
  "chunk_rows L doc =
     (case chunk_open L doc of
        Inl e \<Rightarrow> []
      | Inr (kvs, nd, rest) \<Rightarrow>
          kvs # (case ftdc_grid 0 nd (map snd kvs) rest 0 of Inl e \<Rightarrow> [] | Inr g \<Rightarrow> map (grid_row (map fst kvs) g) [0..<nd]))"

definition doc_rows :: "ftdc_lib \<Rightarrow> bytes \<Rightarrow> sample list" where
  "doc_rows L doc = (if doc_type L doc = 1 then chunk_rows L doc else [])"

function file_rows :: "ftdc_lib \<Rightarrow> bytes \<Rightarrow> sample list" where
  "file_rows L raw =
     (if length raw \<ge> 4 \<and> le_i32 raw \<ge> 5 \<and> le_i32 raw \<le> int (length raw) then
        doc_rows L (take (nat (le_i32 raw)) raw) @ file_rows L (drop (nat (le_i32 raw)) raw)
      else [])"
  by pat_completeness auto
termination
  by (relation "measure (\<lambda>(L, raw). length raw)") auto

declare file_rows.simps [simp del]

definition has_clock :: "sample \<Rightarrow> bool" where
  "has_clock r \<longleftrightarrow> sample_clock ftdcTimeKey r > 0"

definition kept :: "sample list \<Rightarrow> sample list" where
  "kept rows = take ftdcMaxSamples (filter has_clock rows)"

definition metric :: "string \<Rightarrow> sample \<Rightarrow> 64 word" where
  "metric k r = (case map_of r k of Some v \<Rightarrow> v | None \<Rightarrow> 0)"

text \<open>The samples up to the last one that has \<open>k\<close>.\<close>

definition seen :: "string \<Rightarrow> sample list \<Rightarrow> sample list" where
  "seen k rows = rev (dropWhile (\<lambda>r. k \<notin> fst ` set r) (rev rows))"

definition represents :: "ftdcData \<Rightarrow> sample list \<Rightarrow> bool" where
  "represents d rows \<longleftrightarrow> f_TS d = map (sample_clock ftdcTimeKey) rows
     \<and> f_TSEnd d = map (\<lambda>r. max (sample_clock ftdcTimeKey r) (sample_clock ftdcEndKey r)) rows
     \<and> f_Samples d = length rows
     \<and> (\<forall>k. f_Series d k = (if seen k rows = [] then None else Some \<lparr>s_Key = k, s_Values = map (metric k) (seen k rows)\<rparr>))"

lemma seen_snoc: "seen k (rows @ [r]) = (if k \<in> fst ` set r then rows @ [r] else seen k rows)"
  by (simp add: seen_def)

lemma seen_split: "rows = seen k rows @ rev (takeWhile (\<lambda>r. k \<notin> fst ` set r) (rev rows))"
  unfolding seen_def by (metis rev_append rev_rev_ident takeWhile_dropWhile_id)

lemma length_seen: "length (seen k rows) \<le> length rows"
  by (subst (2) seen_split [of _ k]) simp

lemma metric_rows:
  "map (metric k) rows = map (metric k) (seen k rows) @ replicate (length rows - length (seen k rows)) 0"
proof -
  let ?t = "rev (takeWhile (\<lambda>r. k \<notin> fst ` set r) (rev rows))"
  have "metric k r = 0" if "r \<in> set ?t" for r
  proof -
    have "k \<notin> fst ` set r" using that by (auto dest: set_takeWhileD)
    then have "map_of r k = None" by (simp only: map_of_eq_None_iff not_False_eq_True)
    then show ?thesis by (simp add: metric_def)
  qed
  then have "map (metric k) ?t = map (\<lambda>_. 0) ?t" by (intro map_cong refl)
  then have "map (metric k) ?t = replicate (length ?t) 0" by (simp only: map_replicate_const)
  moreover have "length ?t = length rows - length (seen k rows)"
    using seen_split [of rows k] by (metis add_diff_cancel_left' length_append)
  ultimately show ?thesis by (subst (1) seen_split [of rows k]) simp
qed

text \<open>Appending a whole sample, for keys that are not repeated.\<close>

definition grown :: "nat \<Rightarrow> ftdcSeries option \<Rightarrow> string \<Rightarrow> 64 word \<Rightarrow> ftdcSeries" where
  "grown n so k v =
     (let s = (case so of Some s \<Rightarrow> s | None \<Rightarrow> \<lparr>s_Key = k, s_Values = []\<rparr>)
      in s\<lparr>s_Values := s_Values s @ replicate (n - 1 - length (s_Values s)) 0 @ [v]\<rparr>)"

lemma fold_series_add:
  assumes "distinct (map fst kvs)"
  shows "fold (series_add n) kvs ser k =
           (case map_of kvs k of None \<Rightarrow> ser k | Some v \<Rightarrow> Some (grown n (ser k) k v))"
  using assms
proof (induction kvs arbitrary: ser)
  case (Cons kv kvs)
  obtain a v where kv: "kv = (a, v)" by (cases kv)
  have step: "series_add n (a, v) ser = ser(a \<mapsto> grown n (ser a) a v)"
    by (simp add: series_add_def grown_def Let_def)
  have "map_of kvs a = None" using Cons.prems kv by (simp add: map_of_eq_None_iff)
  then show ?case using Cons kv step by (simp split: option.split)
qed simp

lemma represents_append:
  assumes "represents d rows" "distinct (map fst r)" "length rows < ftdcMaxSamples" "has_clock r"
  shows "represents (appendSample r d) (rows @ [r])"
proof -
  let ?n = "length rows + 1"
  have TS: "length (f_TS d) = length rows" using assms(1) by (simp add: represents_def)
  have app: "appendSample r d = d\<lparr>f_TS := f_TS d @ [sample_clock ftdcTimeKey r],
      f_TSEnd := f_TSEnd d @ [max (sample_clock ftdcTimeKey r) (sample_clock ftdcEndKey r)],
      f_Samples := f_Samples d + 1, f_Series := fold (series_add ?n) r (f_Series d)\<rparr>"
    using assms(3,4) TS by (simp add: appendSample_def has_clock_def Let_def max_def)
  have "fold (series_add ?n) r (f_Series d) k =
      (if seen k (rows @ [r]) = [] then None else Some \<lparr>s_Key = k, s_Values = map (metric k) (seen k (rows @ [r]))\<rparr>)" for k
  proof (cases "map_of r k")
    case None
    then have "k \<notin> fst ` set r" by (simp add: map_of_eq_None_iff)
    with None show ?thesis
      unfolding fold_series_add [OF assms(2)] using assms(1) by (simp add: seen_snoc represents_def)
  next
    case (Some v)
    then have k: "k \<in> fst ` set r" by (metis map_of_eq_None_iff option.distinct(1))
    have s: "f_Series d k = (if seen k rows = [] then None else Some \<lparr>s_Key = k, s_Values = map (metric k) (seen k rows)\<rparr>)"
      using assms(1) by (simp add: represents_def)
    have "grown ?n (f_Series d k) k v = \<lparr>s_Key = k, s_Values = map (metric k) rows @ [v]\<rparr>"
      unfolding grown_def s metric_rows [of k rows] by (simp add: Let_def)
    then show ?thesis
      unfolding fold_series_add [OF assms(2)] using Some k by (simp add: seen_snoc metric_def)
  qed
  then show ?thesis using assms(1) unfolding app represents_def by simp
qed

lemma kept_snoc:
  "kept (rows @ [r]) = (if length (kept rows) < ftdcMaxSamples \<and> has_clock r then kept rows @ [r] else kept rows)"
  by (auto simp: kept_def)

lemma kept_full: "\<not> length (kept rows) < ftdcMaxSamples \<Longrightarrow> kept (rows @ rs) = kept rows"
  by (auto simp: kept_def)

lemma represents_sample:
  assumes "represents d (kept rows)" "distinct (map fst r)"
  shows "represents (appendSample r d) (kept (rows @ [r]))"
proof (cases "length (kept rows) < ftdcMaxSamples \<and> has_clock r")
  case True
  then show ?thesis using represents_append assms by (simp add: kept_snoc)
next
  case False
  then have "appendSample r d = d"
    using assms(1) by (auto simp: appendSample_def has_clock_def represents_def Let_def)
  with False show ?thesis using assms(1) by (simp only: kept_snoc if_False)
qed

lemma represents_samples:
  assumes "represents d (kept rows)" "\<forall>r \<in> set rs. distinct (map fst r)"
  shows "represents (fold appendSample rs d) (kept (rows @ rs))"
  using assms
proof (induction rs arbitrary: d rows)
  case (Cons r rs)
  then show ?case using Cons.IH [of "appendSample r d" "rows @ [r]"] represents_sample by simp
qed simp

lemma represents_update:
  "represents (d\<lparr>f_Chunks := a\<rparr>) rows = represents d rows" "represents (d\<lparr>f_Skipped := b\<rparr>) rows = represents d rows"
  "represents (d\<lparr>f_Meta := m\<rparr>) rows = represents d rows"
  by (simp_all add: represents_def)

lemma represents_chunk:
  assumes "represents d (kept rows)" "\<forall>r \<in> set (chunk_rows L doc). distinct (map fst r)"
  shows "represents (fst (readChunk L doc d)) (kept (rows @ chunk_rows L doc))"
proof (cases "chunk_open L doc")
  case (Inl e)
  then show ?thesis using assms by (simp add: readChunk_def chunk_rows_def)
next
  case (Inr c)
  obtain kvs nd rest where c: "c = (kvs, nd, rest)" by (cases c)
  have "fst (readChunk L doc d) = fold appendSample (chunk_rows L doc) (d\<lparr>f_Chunks := f_Chunks d + 1\<rparr>)"
    using Inr c by (simp add: readChunk_def chunk_rows_def Let_def fold_map comp_def split: sum.split)
  then show ?thesis using represents_samples [OF _ assms(2)] assms(1) by (simp add: represents_update)
qed

lemma represents_doc:
  assumes "represents d (kept rows)" "\<forall>r \<in> set (doc_rows L doc). distinct (map fst r)"
  shows "represents (readDoc L doc d) (kept (rows @ doc_rows L doc))"
proof (cases "doc_type L doc = 1")
  case True
  then have "represents (fst (readChunk L doc d)) (kept (rows @ chunk_rows L doc))"
    using represents_chunk [OF assms(1)] assms(2) by (simp add: doc_rows_def)
  then show ?thesis using True by (auto simp: readDoc_def doc_rows_def represents_update split: prod.split option.split)
next
  case False
  then show ?thesis using assms(1)
    by (simp add: readDoc_def readMetadata_def doc_rows_def represents_update split: option.split bval.split)
qed

lemma represents_file:
  assumes "represents d (kept rows)" "\<forall>r \<in> set (file_rows L raw). distinct (map fst r)"
  shows "represents (readFile L raw d) (kept (rows @ file_rows L raw))"
  using assms
proof (induction L raw d arbitrary: rows rule: readFile.induct)
  case (1 L raw d)
  let ?n = "nat (le_i32 raw)" and ?doc = "take (nat (le_i32 raw)) raw"
  show ?case
  proof (cases "length raw \<ge> 4 \<and> le_i32 raw \<ge> 5 \<and> le_i32 raw \<le> int (length raw)")
    case True
    then have rows: "file_rows L raw = doc_rows L ?doc @ file_rows L (drop ?n raw)"
      by (simp add: file_rows.simps [of L raw])
    have d1: "represents (readDoc L ?doc d) (kept (rows @ doc_rows L ?doc))"
      using "1.prems" rows by (intro represents_doc) auto
    have TS: "length (f_TS (readDoc L ?doc d)) = length (kept (rows @ doc_rows L ?doc))"
      using d1 by (simp add: represents_def)
    show ?thesis
    proof (cases "length (f_TS (readDoc L ?doc d)) \<ge> ftdcMaxSamples")
      case full: True
      then have "kept ((rows @ doc_rows L ?doc) @ file_rows L (drop ?n raw)) = kept (rows @ doc_rows L ?doc)"
        unfolding TS by (intro kept_full) simp
      then show ?thesis using True full d1 rows by (simp add: readFile.simps [of L raw] Let_def)
    next
      case False
      have "represents (readFile L (drop ?n raw) (readDoc L ?doc d))
          (kept ((rows @ doc_rows L ?doc) @ file_rows L (drop ?n raw)))"
        using True False "1.prems"(2) rows d1 by (intro "1.IH") auto
      then show ?thesis using True False rows by (simp add: readFile.simps [of L raw] Let_def)
    qed
  next
    case False
    then have "length raw < 4 \<or> le_i32 raw < 5 \<or> le_i32 raw > int (length raw)" by linarith
    then have "readFile L raw d = d" by (subst readFile.simps, elim disjE) (simp_all add: Let_def)
    moreover have "file_rows L raw = []" using False by (subst file_rows.simps) (simp only: if_False)
    ultimately show ?thesis using "1.prems"(1) by simp
  qed
qed

lemma represents_new: "represents new_ftdc (kept [])"
  by (simp add: represents_def new_ftdc_def kept_def seen_def)

definition all_rows :: "ftdc_lib \<Rightarrow> bytes list \<Rightarrow> sample list" where
  "all_rows L files = concat (map (file_rows L) files)"

lemma represents_files:
  assumes "\<forall>r \<in> set (all_rows L files). distinct (map fst r)"
  shows "represents (fold (readFile L) files new_ftdc) (kept (all_rows L files))"
proof -
  have "represents (fold (readFile L) fs d) (kept (rows @ all_rows L fs))"
    if "represents d (kept rows)" "\<forall>r \<in> set (all_rows L fs). distinct (map fst r)" for fs d rows
    using that
  proof (induction fs arbitrary: d rows)
    case (Cons f fs)
    have "represents (fold (readFile L) fs (readFile L f d)) (kept ((rows @ file_rows L f) @ all_rows L fs))"
      using Cons.prems by (intro Cons.IH represents_file) (auto simp: all_rows_def)
    then show ?case by (simp add: all_rows_def)
  qed (simp add: all_rows_def)
  from this [OF represents_new assms] show ?thesis by simp
qed

lemma unwrap_nothing:
  assumes "\<forall>k \<in> dom (f_Series d). \<not> snd (ftdcUnwrapRole k)" "wrapped_keys d ks"
  shows "unwrapRoles ks d = d"
proof -
  have "k \<notin> set ks" for k
    using assms(1) assms(2) [unfolded wrapped_keys_def, THEN conjunct2] by auto
  then have "ks = []" by (cases ks) auto
  then show ?thesis by (simp add: unwrapRoles_def)
qed

lemma seen_nonempty: "seen k rows \<noteq> [] \<longleftrightarrow> (\<exists>r \<in> set rows. k \<in> fst ` set r)"
  unfolding seen_def by (simp add: dropWhile_eq_Nil_conv)

definition no_roles :: "sample list \<Rightarrow> bool" where
  "no_roles rows \<longleftrightarrow> (\<forall>r \<in> set rows. \<forall>k \<in> fst ` set r. \<not> snd (ftdcUnwrapRole k))"

lemma represents_no_roles:
  assumes "represents d (kept rows)" "no_roles rows"
  shows "\<forall>k \<in> dom (f_Series d). \<not> snd (ftdcUnwrapRole k)"
proof
  fix k assume "k \<in> dom (f_Series d)"
  then have "seen k (kept rows) \<noteq> []" using assms(1) by (auto simp: represents_def dom_def split: if_splits)
  then obtain r where "r \<in> set (kept rows)" "k \<in> fst ` set r" unfolding seen_nonempty by blast
  moreover have "set (kept rows) \<subseteq> set rows" unfolding kept_def
    by (meson filter_is_subset set_take_subset subset_trans)
  ultimately show "\<not> snd (ftdcUnwrapRole k)" using assms(2) unfolding no_roles_def by blast
qed

text \<open>
  C38. The decoded data is a refinement of the sequence of samples the files hold. With no sample
  repeating a key and no role groups (MongoDB before 8.0, or not sharded), \<^verbatim>\<open>ftdcParse\<close> succeeds
  exactly when a sample with a clock exists; its time column is the clocks of the samples kept, and a
  metric is found at index \<open>i\<close> with the value it had in sample \<open>i\<close> (0 where the sample lacked it) whenever
  it occurs in the last sample. A metric whose last occurrence is earlier is moved to the right by the
  number of samples after it.
\<close>

theorem ftdcParse_refines:
  assumes "\<forall>r \<in> set (all_rows L files). distinct (map fst r)" "no_roles (all_rows L files)"
    "wrapped_keys (fold (readFile L) files new_ftdc) (walk (fold (readFile L) files new_ftdc))"
    "S = kept (all_rows L files)"
  shows "if S = [] then \<exists>e. ftdcParse L walk files = Inl e
    else \<exists>d. ftdcParse L walk files = Inr d \<and> f_TS d = map (sample_clock ftdcTimeKey) S \<and> f_Samples d = length S
      \<and> (\<forall>k i. i < length S \<and> k \<in> fst ` set (last S) \<longrightarrow> ftdc_at d k (int i) = Some (metric k (S ! i)))
      \<and> (\<forall>k i. i < length S \<and> seen k S \<noteq> [] \<longrightarrow>
           (let shift = length S - length (seen k S)
            in ftdc_at d k (int i) = Some (if i < shift then 0 else metric k (S ! (i - shift)))))"
proof -
  let ?d = "fold (readFile L) files new_ftdc"
  have rep: "represents ?d S" using represents_files [OF assms(1)] assms(4) by simp
  have same: "unwrapRoles (walk ?d) ?d = ?d"
    using represents_no_roles [OF _ assms(2)] rep assms(3,4) by (intro unwrap_nothing) simp_all
  let ?e = "?d\<lparr>f_Series := (\<lambda>k. map_option (pad_left (length (f_TS ?d))) (f_Series ?d k))\<rparr>"
  show ?thesis
  proof (cases "S = []")
    case True
    then have "f_TS ?d = []" using rep by (simp add: represents_def)
    then show ?thesis using True by (simp add: ftdcParse_def Let_def)
  next
    case False
    then have parse: "ftdcParse L walk files = Inr ?e"
      using rep by (simp add: ftdcParse_def same Let_def represents_def)
    have shifted: "ftdc_at ?e k (int i) = Some (if i < length S - length (seen k S) then 0
        else metric k (S ! (i - (length S - length (seen k S)))))"
      if "i < length S" "seen k S \<noteq> []" for k i
    proof -
      have vals: "f_Series ?e k = Some \<lparr>s_Key = k,
          s_Values = replicate (length S - length (seen k S)) 0 @ map (metric k) (seen k S)\<rparr>"
        using rep that(2) by (simp add: represents_def pad_left_def)
      have "seen k S ! j = S ! j" if "j < length (seen k S)" for j
        by (subst (2) seen_split [of S k]) (simp add: nth_append that)
      then show ?thesis using that(1) length_seen [of k S] unfolding ftdc_at_def vals
        by (auto simp: nth_append)
    qed
    have "ftdc_at ?e k (int i) = Some (metric k (S ! i))" if "i < length S" "k \<in> fst ` set (last S)" for k i
    proof -
      have "S = butlast S @ [last S]" using False by simp
      then have "seen k S = S" using seen_snoc [of k "butlast S" "last S"] that(2) by simp
      then show ?thesis using shifted [of i k] that(1) False by simp
    qed
    then show ?thesis using False parse shifted rep by (auto simp: represents_def Let_def)
  qed
qed

text \<open>The file that holds only the chunk of the example above.\<close>

definition ex_rows :: "sample list" where
  "ex_rows = [ex_kvs, [(''start'', 2000), (''x'', 5)], [(''start'', 3000), (''x'', 5)]]"

lemma ex_all_rows: "all_rows ex_lib [ex_ref] = ex_rows"
proof -
  have n: "le_i32 ex_ref = 5" "length ex_ref = 5" unfolding ex_ref_def using le_i32_le_enc [of 5 "[0]"] by simp_all
  have c: "chunk_open ex_lib ex_ref = Inr (ex_kvs, 2, enc_stream ex_toks)"
    by (rule chunk_open_enc [where n = 16 and z = "[120]", OF _ _ _ ex_ref_document]) (simp_all add: ex_lib_def)
  have g: "ftdc_grid 0 2 (map snd ex_kvs) (enc_stream ex_toks) 0 = Inr [[2000, 3000], [5, 5]]"
    using ftdc_grid_enc [of "[[1000, 1000], [0, 0]]" "map snd ex_kvs" 2 0 ex_toks 0 "[]"] by (simp add: ex_toks_def ex_kvs_def)
  have "chunk_rows ex_lib ex_ref = ex_rows"
    by (simp add: chunk_rows_def c g grid_row_def ex_rows_def upt_rec) (simp add: ex_kvs_def)
  moreover have "doc_type ex_lib ex_ref = 1" by (simp add: doc_type_def ex_lib_def)
  ultimately show ?thesis
    using n by (simp add: all_rows_def file_rows.simps [of _ ex_ref] file_rows.simps [of _ "[]"] doc_rows_def)
qed

lemma ex_kept: "kept ex_rows = ex_rows"
  by (simp add: kept_def ex_rows_def ex_kvs_def has_clock_def sample_clock_def ftdcTimeKey_def ftdcMaxSamples_def)

lemma ex_rows_distinct: "\<forall>r \<in> set (all_rows ex_lib [ex_ref]). distinct (map fst r)"
  by (simp add: ex_all_rows ex_rows_def ex_kvs_def)

lemma ex_no_roles: "no_roles (all_rows ex_lib [ex_ref])"
  by (simp add: ex_all_rows no_roles_def ex_rows_def ex_kvs_def ftdcUnwrapRole_def ftdcRoleGroups_def go_CutPrefix_def)

lemma ftdcParse_refines_witness:
  "no_roles (all_rows ex_lib [ex_ref]) \<and> (\<exists>d. ftdcParse ex_lib (\<lambda>_. []) [ex_ref] = Inr d \<and> f_TS d = [1000, 2000, 3000]
     \<and> ftdc_at d ''x'' 1 = Some 5)"
proof -
  let ?d = "fold (readFile ex_lib) [ex_ref] new_ftdc"
  have "wrapped_keys ?d []"
    using represents_no_roles [OF represents_files [OF ex_rows_distinct] ex_no_roles] by (auto simp: wrapped_keys_def)
  from ftdcParse_refines [OF ex_rows_distinct ex_no_roles, of "\<lambda>_. []", OF this refl] obtain d where
    d: "ftdcParse ex_lib (\<lambda>_. []) [ex_ref] = Inr d" "f_TS d = map (sample_clock ftdcTimeKey) ex_rows"
    "\<forall>k i. i < length ex_rows \<and> k \<in> fst ` set (last ex_rows) \<longrightarrow> ftdc_at d k (int i) = Some (metric k (ex_rows ! i))"
    unfolding ex_all_rows ex_kept by (auto simp: ex_rows_def)
  have "f_TS d = [1000, 2000, 3000]"
    using d(2) by (simp add: ex_rows_def ex_kvs_def sample_clock_def ftdcTimeKey_def)
  moreover have "ftdc_at d ''x'' 1 = Some 5"
    using d(3) [rule_format, of 1 "''x''"] by (simp add: ex_rows_def metric_def)
  ultimately show ?thesis using d(1) ex_no_roles by blast
qed

lemma unwrap_one_ran:
  assumes "\<forall>k s. ser k = Some s \<longrightarrow> P (s_Values s)"
  shows "\<forall>k s. unwrap_one j ser k = Some s \<longrightarrow> P (s_Values s)"
  using assms by (auto simp: unwrap_one_def Let_def split: option.splits if_splits)

lemma unwrapRoles_ran:
  assumes "\<forall>k s. f_Series d k = Some s \<longrightarrow> P (s_Values s)"
  shows "\<forall>k s. f_Series (unwrapRoles ks d) k = Some s \<longrightarrow> P (s_Values s)"
proof -
  have "\<forall>k s. ser k = Some s \<longrightarrow> P (s_Values s) \<Longrightarrow> \<forall>k s. fold unwrap_one ks ser k = Some s \<longrightarrow> P (s_Values s)" for ser
  proof (induction ks arbitrary: ser)
    case (Cons j ks)
    show ?case unfolding fold.simps comp_def by (rule Cons.IH [OF unwrap_one_ran [OF Cons.prems]])
  qed simp
  then show ?thesis using assms by (simp add: unwrapRoles_def)
qed

text \<open>
  C39. Whatever the files hold and in whatever order the runtime walks the series, role groups
  included, every series of the result has exactly one value per timestamp when no sample repeats a
  key, so that a chart can index them together: an index within the time column is within every
  series.
\<close>

theorem ftdcParse_aligned:
  assumes "\<forall>r \<in> set (all_rows L files). distinct (map fst r)" "ftdcParse L walk files = Inr d" "f_Series d k = Some s"
  shows "length (s_Values s) = length (f_TS d) \<and> length (f_TSEnd d) = length (f_TS d) \<and> f_Samples d = length (f_TS d)"
proof -
  let ?d = "fold (readFile L) files new_ftdc"
  have rep: "represents ?d (kept (all_rows L files))" by (rule represents_files [OF assms(1)])
  then have "\<forall>k s. f_Series ?d k = Some s \<longrightarrow> length (s_Values s) \<le> length (f_TS ?d)"
    by (auto simp: represents_def length_seen split: if_splits)
  then have le: "\<forall>k s. f_Series (unwrapRoles (walk ?d) ?d) k = Some s \<longrightarrow> length (s_Values s) \<le> length (f_TS ?d)"
    by (rule unwrapRoles_ran)
  have ts: "f_TS (unwrapRoles ks e) = f_TS e" for ks e by (simp add: unwrapRoles_def)
  have d: "d = (unwrapRoles (walk ?d) ?d)\<lparr>f_Series := (\<lambda>k. map_option (pad_left (length (f_TS ?d))) (f_Series (unwrapRoles (walk ?d) ?d) k))\<rparr>"
    using assms(2) by (simp add: ftdcParse_def Let_def ts split: if_splits)
  have "map_option (pad_left (length (f_TS ?d))) (f_Series (unwrapRoles (walk ?d) ?d) k) = Some s"
    using assms(3) by (subst (asm) d) simp
  then obtain s0 where s0: "f_Series (unwrapRoles (walk ?d) ?d) k = Some s0" "s = pad_left (length (f_TS ?d)) s0"
    by (cases "f_Series (unwrapRoles (walk ?d) ?d) k") simp_all
  have "length (s_Values s) = length (f_TS ?d)" using le s0 by (auto simp: pad_left_def)
  moreover have "f_TS d = f_TS ?d" "f_TSEnd d = f_TSEnd ?d" "f_Samples d = f_Samples ?d"
    unfolding d by (simp_all add: unwrapRoles_def)
  ultimately show ?thesis using rep by (simp add: represents_def)
qed

lemma ftdcParse_aligned_witness:
  "\<exists>d s. ftdcParse ex_lib (\<lambda>_. []) [ex_ref] = Inr d \<and> f_Series d ''x'' = Some s \<and> length (s_Values s) = 3"
proof -
  let ?d = "fold (readFile ex_lib) [ex_ref] new_ftdc"
  have rep: "represents ?d ex_rows" using represents_files [OF ex_rows_distinct] by (simp add: ex_all_rows ex_kept)
  then have ts: "length (f_TS ?d) = 3" by (simp add: represents_def ex_rows_def)
  have "seen ''x'' ex_rows \<noteq> []" unfolding seen_nonempty by (auto simp: ex_rows_def)
  then obtain s where s: "f_Series ?d ''x'' = Some s" using rep by (simp add: represents_def)
  let ?e = "?d\<lparr>f_Series := (\<lambda>k. map_option (pad_left (length (f_TS ?d))) (f_Series ?d k))\<rparr>"
  have "f_TS ?d \<noteq> []" using ts by auto
  then have d: "ftdcParse ex_lib (\<lambda>_. []) [ex_ref] = Inr ?e" by (simp add: ftdcParse_def unwrapRoles_def Let_def)
  have x: "f_Series ?e ''x'' = Some (pad_left 3 s)" using ts s by simp
  have "length (s_Values (pad_left 3 s)) = length (f_TS ?e)" using ftdcParse_aligned [OF ex_rows_distinct d x] by blast
  then show ?thesis using d x ts by (intro exI [of _ ?e] exI [of _ "pad_left 3 s"]) simp
qed

end
