(* ===== verification/Rolling.thy ===== *)
theory Rolling
  imports Complex_Main "HOL-Library.Multiset" Go_Strings
begin

text \<open>
  The rolling restart of a cluster (\<^verbatim>\<open>src/app/rolling.go\<close>) and the probe of a replication group it and
  the switchover rest on (\<^verbatim>\<open>probeTopo\<close> of \<^verbatim>\<open>switchover.go\<close>): replicas first, each one back and healthy before
  the next goes, then the primary, after its role was handed to a restarted replica when that is asked for.

  What the world answers is the argument \<open>w\<close>: whether a member is deployed and its container restarts, the
  sequence of probes made of a restarted member (with whether the deadline had passed and whether the run's
  context ended by then), the result of the switchover, and the machine's rendering of a lag. A member is
  restarted once at most in a run, so the answers are given per member. A run is the list of the actions it
  takes and its outcome, \<open>Pending\<close> when the probes given do not end the wait it is in.
\<close>

section \<open>Probing a group\<close>

record liveRole =
  r_Role :: string
  r_Access :: string
  r_State :: string
  r_LagSec :: "rat option"
  r_Problems :: "string list"
  r_Down :: bool
  r_Err :: string

record swMember =
  m_ID :: string
  m_Label :: string

record swState =
  s_NodeID :: string
  s_Label :: string
  s_Role :: string
  s_Access :: string
  s_State :: string
  s_LagSec :: "rat option"
  s_Problems :: "string list"
  s_Down :: bool
  s_Err :: string
  s_Primary :: bool
  s_Eligible :: bool
  s_Why :: string

definition no_role :: liveRole where
  "no_role = \<lparr>r_Role = [], r_Access = [], r_State = [], r_LagSec = None, r_Problems = [], r_Down = False, r_Err = []\<rparr>"

definition probe_state :: "swMember \<Rightarrow> liveRole option \<Rightarrow> swState" where
  "probe_state m ro =
     (let r = (case ro of Some r \<Rightarrow> r | None \<Rightarrow> no_role)
      in \<lparr>s_NodeID = m_ID m, s_Label = m_Label m, s_Role = r_Role r, s_Access = r_Access r, s_State = r_State r,
          s_LagSec = r_LagSec r, s_Problems = r_Problems r, s_Down = r_Down r, s_Err = r_Err r,
          s_Primary = (r_Err r = [] \<and> (r_Role r = ''primary'' \<or> (r_Role r = ''standalone'' \<and> r_Access r = ''rw''))),
          s_Eligible = False, s_Why = []\<rparr>)"

text \<open>The loop that works out the primary: its index, -1 when none claims it, -2 when two do.\<close>

fun find_primary :: "swState list \<Rightarrow> int \<Rightarrow> int \<Rightarrow> int" where
  "find_primary [] i primary = primary"
| "find_primary (s # ss) i primary =
     find_primary ss (i + 1)
       (if s_Primary s then (if primary \<ge> 0 then -2 else if primary = -1 then i else primary) else primary)"

definition eligibility :: "string \<Rightarrow> swState \<Rightarrow> swState" where
  "eligibility kind s =
     (if s_Primary s then s\<lparr>s_Why := ''already the primary''\<rparr>
      else if s_Down s \<or> s_Err s \<noteq> [] then s\<lparr>s_Why := ''its database is not answering''\<rparr>
      else if s_Role s = ''arbiter'' then s\<lparr>s_Why := ''an arbiter holds no data''\<rparr>
      else if s_Problems s \<noteq> [] \<and> kind \<in> {''mysql'', ''mariadb'', ''repmgr'', ''pgstream'', ''patroni''} then
        s\<lparr>s_Why := ''its replication is not healthy: '' @ hd (s_Problems s)\<rparr>
      else s\<lparr>s_Eligible := True\<rparr>)"

definition probeTopo :: "(string \<Rightarrow> liveRole option) \<Rightarrow> string \<Rightarrow> swMember list \<Rightarrow> swState list \<times> int" where
  "probeTopo probe kind members =
     (let out = map (\<lambda>m. probe_state m (probe (m_ID m))) members
      in (map (eligibility kind) out, find_primary out 0 (-1)))"

fun topo_member :: "swMember list \<Rightarrow> string \<Rightarrow> swMember option" where
  "topo_member [] i = None"
| "topo_member (m # ms) i = (if m_ID m = i then Some m else topo_member ms i)"

section \<open>Waiting for a member\<close>

definition memberHealthy :: "string \<Rightarrow> liveRole option \<Rightarrow> bool" where
  "memberHealthy kind ro =
     (case ro of
        None \<Rightarrow> False
      | Some r \<Rightarrow>
          if r_Err r \<noteq> [] \<or> r_Down r \<or> r_Problems r \<noteq> [] then False
          else if (case r_LagSec r of Some l \<Rightarrow> l > 10 | None \<Rightarrow> False) then False
          else if kind = ''galera'' then r_State r = ''Synced''
          else if kind = ''mongo'' then r_Role r = ''primary'' \<or> r_Role r = ''secondary'' \<or> r_Role r = ''arbiter''
          else if kind = ''gr'' then r_Role r = ''primary'' \<or> r_Role r = ''secondary''
          else r_Role r = ''primary'' \<or> r_Role r = ''replica'')"

fun firstNonEmpty :: "string list \<Rightarrow> string" where
  "firstNonEmpty [] = []"
| "firstNonEmpty (v # vs) = (if v \<noteq> [] then v else firstNonEmpty vs)"

definition clipLine :: "string \<Rightarrow> nat \<Rightarrow> string" where
  "clipLine s n = (let t = go_Join (go_Fields s) '' '' in if length t \<le> n then t else take (n - 1) t @ ellipsis)"

datatype action =
    AMark string
  | ALog string
  | ARestart string
  | ASetRunning string
  | ARefreshPorts string
  | ARestoreResolver string
  | AReconcileDNS
  | AProbe string "liveRole option"
  | APlanned
  | ASwitch string

datatype outcome = Pending | Failed string | Done

record poll =
  pl_role :: "liveRole option"
  pl_late :: bool
  pl_ended :: bool

record world =
  w_probe :: "string \<Rightarrow> liveRole option"
  w_deployed :: "string \<Rightarrow> bool"
  w_restart :: "string \<Rightarrow> string option"
  w_polls :: "string \<Rightarrow> poll list"
  w_switch :: "string \<Rightarrow> string list \<times> string option"
  w_lag :: "rat \<Rightarrow> string"
  w_ctxErr :: string
  w_within :: string

text \<open>What the log says of a member that is not back yet.\<close>

definition wait_now :: "world \<Rightarrow> liveRole option \<Rightarrow> string" where
  "wait_now w ro =
     (case ro of
        None \<Rightarrow> ''starting''
      | Some r \<Rightarrow>
          (case r_LagSec r of
             Some l \<Rightarrow> if l > 10 then ''catching up, lag '' @ w_lag w l @ ''s''
               else firstNonEmpty [r_Err r, go_Join (r_Problems r) ''; '', r_State r, r_Role r]
           | None \<Rightarrow> firstNonEmpty [r_Err r, go_Join (r_Problems r) ''; '', r_State r, r_Role r]))"

fun waitMemberHealthy :: "world \<Rightarrow> string \<Rightarrow> swMember \<Rightarrow> poll list \<Rightarrow> string \<Rightarrow> action list \<times> outcome" where
  "waitMemberHealthy w kind m [] prev = ([], Pending)"
| "waitMemberHealthy w kind m (p # ps) prev =
     (if memberHealthy kind (pl_role p) then
        ([AProbe (m_ID m) (pl_role p),
          ALog (m_Label m @ '' is back: '' @ (case pl_role p of Some r \<Rightarrow> firstNonEmpty [r_State r, r_Role r] | None \<Rightarrow> []))], Done)
      else
        let now = wait_now w (pl_role p);
            acts = AProbe (m_ID m) (pl_role p) # (if now \<noteq> prev then [ALog (m_Label m @ '': '' @ clipLine now 160)] else [])
        in if pl_late p then
             (acts, Failed (m_Label m @ '' was not back within '' @ w_within w @ '' ('' @ clipLine now 160 @ '') '' @ em_dash
                @ '' the rest of the cluster was not restarted''))
           else if pl_ended p then (acts, Failed (w_ctxErr w))
           else (let (more, r) = waitMemberHealthy w kind m ps now in (acts @ more, r)))"

section \<open>The run\<close>

definition restartContainer :: "world \<Rightarrow> string \<Rightarrow> action list \<times> outcome" where
  "restartContainer w nid =
     (if \<not> w_deployed w nid then ([], Failed ''not deployed'')
      else case w_restart w nid of
             Some e \<Rightarrow> ([ARestart nid], Failed e)
           | None \<Rightarrow> ([ARestart nid, ASetRunning nid, ARefreshPorts nid, ARestoreResolver nid, AReconcileDNS], Done))"

text \<open>The closure \<^verbatim>\<open>restart\<close>.\<close>

definition roll_restart :: "world \<Rightarrow> string \<Rightarrow> swMember \<Rightarrow> action list \<times> outcome" where
  "roll_restart w kind m =
     (let pre = [AMark (m_ID m), ALog (''restarting '' @ m_Label m)] in
      case restartContainer w (m_ID m) of
        (acts, Failed e) \<Rightarrow> (pre @ acts, Failed (''restart '' @ m_Label m @ '': '' @ e))
      | (acts, _) \<Rightarrow>
          (case waitMemberHealthy w kind m (w_polls w (m_ID m)) [] of
             (wacts, Pending) \<Rightarrow> (pre @ acts @ [AMark (m_ID m)] @ wacts, Pending)
           | (wacts, r) \<Rightarrow> (pre @ acts @ [AMark (m_ID m)] @ wacts @ [AMark (m_ID m)], r)))"

fun roll_members :: "world \<Rightarrow> string \<Rightarrow> swMember list \<Rightarrow> action list \<times> outcome" where
  "roll_members w kind [] = ([], Done)"
| "roll_members w kind (m # ms) =
     (case roll_restart w kind m of
        (acts, Done) \<Rightarrow> (let (more, r) = roll_members w kind ms in (acts @ more, r))
      | (acts, r) \<Rightarrow> (acts, r))"

text \<open>The last leg: the primary, after the switchover or in place.\<close>

definition roll_primary :: "world \<Rightarrow> string \<Rightarrow> bool \<Rightarrow> swMember list \<Rightarrow> swMember \<Rightarrow> action list \<times> outcome" where
  "roll_primary w kind switchover replicas primary =
     (if switchover \<and> replicas \<noteq> [] then
        let cand = hd replicas; (steps, err) = w_switch w (m_ID cand);
            acts = [ALog (''handing the primary to '' @ m_Label cand @ '' before restarting '' @ m_Label primary),
                    APlanned, ASwitch (m_ID cand)] @ map (\<lambda>s. ALog (''  '' @ s)) steps
        in case err of
             Some e \<Rightarrow> (acts, Failed (''switchover to '' @ m_Label cand @ '': '' @ e))
           | None \<Rightarrow> (let (more, r) = roll_restart w kind primary in (acts @ more, r))
      else
        let (more, r) = roll_restart w kind primary
        in (ALog (''restarting the primary '' @ m_Label primary @ '' in place'') # more, r))"

definition state_role :: "swState \<Rightarrow> liveRole" where
  "state_role s = \<lparr>r_Role = s_Role s, r_Access = s_Access s, r_State = s_State s, r_LagSec = s_LagSec s,
     r_Problems = s_Problems s, r_Down = s_Down s, r_Err = s_Err s\<rparr>"

text \<open>\<^verbatim>\<open>m, _ := t.member(id)\<close>: the zero member when there is none.\<close>

definition member_or_zero :: "swMember list \<Rightarrow> string \<Rightarrow> swMember" where
  "member_or_zero members i = (case topo_member members i of Some m \<Rightarrow> m | None \<Rightarrow> \<lparr>m_ID = [], m_Label = []\<rparr>)"

definition unhealthy_error :: "swMember list \<Rightarrow> swState \<Rightarrow> string" where
  "unhealthy_error members s = m_Label (member_or_zero members (s_NodeID s)) @ '' is not healthy (''
     @ clipLine (firstNonEmpty [s_Err s, go_Join (s_Problems s) ''; '', s_State s, s_Role s, ''not healthy'']) 160
     @ '') '' @ em_dash @ '' fix it first; nothing was restarted''"

text \<open>The run with its primary known: the other members, then the primary.\<close>

definition roll_from :: "world \<Rightarrow> string \<Rightarrow> bool \<Rightarrow> swMember list \<Rightarrow> swMember \<Rightarrow> action list \<times> outcome" where
  "roll_from w kind switchover members primary =
     (let replicas = filter (\<lambda>m. m_ID m \<noteq> m_ID primary) members;
          start = ALog (m_Label primary @ '' is primary; restarting the '' @ go_utoa (length replicas)
            @ '' other member(s) first'')
      in case roll_members w kind replicas of
           (acts, Done) \<Rightarrow>
             (let (more, r) = roll_primary w kind switchover replicas primary in (start # acts @ more, r))
         | (acts, r) \<Rightarrow> (start # acts, r))"

definition runRolling :: "world \<Rightarrow> string \<Rightarrow> swMember list \<Rightarrow> bool \<Rightarrow> action list \<times> outcome" where
  "runRolling w kind members switchover =
     (let (states, pi) = probeTopo (w_probe w) kind members in
      case find (\<lambda>s. \<not> memberHealthy kind (Some (state_role s))) states of
        Some s \<Rightarrow> ([], Failed (unhealthy_error members s))
      | None \<Rightarrow>
          if kind = ''galera'' then roll_members w kind members
          else if pi < 0 then ([], Failed (''no member reports itself primary '' @ em_dash @ '' nothing was restarted''))
          else roll_from w kind switchover members (member_or_zero members (s_NodeID (states ! nat pi))))"

section \<open>What a run restarts, and when\<close>

fun restarts :: "action list \<Rightarrow> string list" where
  "restarts [] = []"
| "restarts (a # as) = (case a of ARestart x \<Rightarrow> x # restarts as | _ \<Rightarrow> restarts as)"

text \<open>
  \<open>rolls kind d acts\<close> follows the member that was restarted and has not been seen healthy since, starting
  from \<open>d\<close>; it is \<open>None\<close> when a member is restarted while another one is still out.
\<close>

fun rolls :: "string \<Rightarrow> string option \<Rightarrow> action list \<Rightarrow> string option option" where
  "rolls kind d [] = Some d"
| "rolls kind d (a # as) =
     (case a of
        ARestart x \<Rightarrow> if d = None then rolls kind (Some x) as else None
      | AProbe x r \<Rightarrow> rolls kind (if d = Some x \<and> memberHealthy kind r then None else d) as
      | _ \<Rightarrow> rolls kind d as)"

lemma restarts_append [simp]: "restarts (as @ bs) = restarts as @ restarts bs"
  by (induction as) (auto split: action.split)

lemma rolls_append [simp]:
  "rolls kind d (as @ bs) = (case rolls kind d as of None \<Rightarrow> None | Some e \<Rightarrow> rolls kind e bs)"
  by (induction as arbitrary: d) (auto split: action.split)

lemma restarts_log [simp]: "restarts (map (\<lambda>s. ALog (f s)) xs) = []" "rolls kind d (map (\<lambda>s. ALog (f s)) xs) = Some d"
  by (induction xs) auto

lemma wait_facts:
  assumes "waitMemberHealthy w kind m ps prev = (acts, r)"
  shows "restarts acts = []" "rolls kind (Some (m_ID m)) acts = Some (if r = Done then None else Some (m_ID m))"
  using assms
proof (induction w kind m ps prev arbitrary: acts rule: waitMemberHealthy.induct)
  case (2 w kind m p ps prev)
  {
    case 1
    with 2 show ?case by (auto simp: Let_def split: if_splits prod.splits)
  next
    case 2
    with "2.IH"(2) show ?case by (auto simp: Let_def split: if_splits prod.splits)
  }
qed auto

text \<open>One member: restarted once at most, and when the leg succeeds, restarted and seen healthy.\<close>

definition leg_ok :: "string \<Rightarrow> string list \<Rightarrow> action list \<times> outcome \<Rightarrow> bool" where
  "leg_ok kind order leg \<longleftrightarrow> prefix (restarts (fst leg)) order \<and> rolls kind None (fst leg) \<noteq> None
     \<and> (snd leg = Done \<longrightarrow> restarts (fst leg) = order \<and> rolls kind None (fst leg) = Some None)"

lemma roll_restart_ok: "leg_ok kind [m_ID m] (roll_restart w kind m)"
proof (cases "waitMemberHealthy w kind m (w_polls w (m_ID m)) []")
  case (Pair wacts r)
  note wf = wait_facts [OF Pair]
  show ?thesis
  proof (cases "\<not> w_deployed w (m_ID m) \<or> w_restart w (m_ID m) \<noteq> None")
    case True
    then show ?thesis
      by (auto simp: leg_ok_def roll_restart_def restartContainer_def Let_def split: option.split)
  next
    case False
    then have "roll_restart w kind m =
       ([AMark (m_ID m), ALog (''restarting '' @ m_Label m), ARestart (m_ID m), ASetRunning (m_ID m), ARefreshPorts (m_ID m),
         ARestoreResolver (m_ID m), AReconcileDNS, AMark (m_ID m)] @ wacts @ (if r = Pending then [] else [AMark (m_ID m)]), r)"
      using Pair by (simp add: roll_restart_def restartContainer_def Let_def split: outcome.split)
    then show ?thesis using wf by (simp add: leg_ok_def)
  qed
qed

lemma leg_ok_then:
  assumes "leg_ok kind o1 (a, Done)" "leg_ok kind o2 (b, r)"
  shows "leg_ok kind (o1 @ o2) (a @ b, r)"
  using assms by (auto simp: leg_ok_def)

lemma leg_ok_stop: "leg_ok kind o1 (a, r) \<Longrightarrow> r \<noteq> Done \<Longrightarrow> leg_ok kind (o1 @ o2) (a, r)"
  by (auto simp: leg_ok_def prefix_append)

lemma leg_ok_quiet:
  assumes "restarts pre = []" "\<And>d. rolls kind d pre = Some d" "leg_ok kind ord (a, r)"
  shows "leg_ok kind ord (pre @ a, r)"
  using assms by (simp add: leg_ok_def)

lemma roll_members_ok: "leg_ok kind (map m_ID ms) (roll_members w kind ms)"
proof (induction ms)
  case (Cons m ms)
  obtain a r where leg: "roll_restart w kind m = (a, r)" by fastforce
  obtain b s where rest: "roll_members w kind ms = (b, s)" by fastforce
  have m: "leg_ok kind [m_ID m] (a, r)" using roll_restart_ok [of kind m w] leg by simp
  show ?case
  proof (cases "r = Done")
    case True
    then show ?thesis using leg rest leg_ok_then [of kind "[m_ID m]" a _ b s] m Cons by simp
  next
    case False
    then show ?thesis using leg leg_ok_stop [OF m, of "map m_ID ms"] by (cases r) simp_all
  qed
qed (simp add: leg_ok_def)

lemma roll_primary_ok: "leg_ok kind [m_ID p] (roll_primary w kind switchover replicas p)"
proof -
  obtain a r where leg: "roll_restart w kind p = (a, r)" by fastforce
  then have p: "leg_ok kind [m_ID p] (a, r)" using roll_restart_ok [of kind p w] by simp
  obtain steps err where sw: "w_switch w (m_ID (hd replicas)) = (steps, err)" by fastforce
  have "leg_ok kind [m_ID p] (pre, Failed e)" if "restarts pre = []" "rolls kind None pre = Some None" for pre e
    using that by (simp add: leg_ok_def)
  then show ?thesis
    using leg_ok_quiet [OF _ _ p, of "[ALog x]" for x] leg sw p
    by (auto simp: roll_primary_def Let_def leg_ok_def split: option.split)
qed

section \<open>The primary\<close>

lemma find_primary_split: "find_primary ss i (-2) = -2"
  by (induction ss arbitrary: i) auto

lemma find_primary_found: "q \<ge> 0 \<Longrightarrow> find_primary ss i q = (if list_ex s_Primary ss then -2 else q)"
  by (induction ss arbitrary: i) (auto simp: find_primary_split)

lemma find_primary_index:
  assumes "find_primary ss i (-1) = k" "k \<ge> 0" "i \<ge> 0"
  shows "i \<le> k \<and> nat (k - i) < length ss \<and> (\<forall>j < length ss. s_Primary (ss ! j) \<longleftrightarrow> j = nat (k - i))"
  using assms
proof (induction ss arbitrary: i)
  case (Cons s ss)
  show ?case
  proof (cases "s_Primary s")
    case True
    then have "k = i" "\<not> list_ex s_Primary ss"
      using Cons.prems find_primary_found [of i ss "i + 1"] by (auto split: if_splits)
    then show ?thesis using True by (auto simp: nth_Cons' list_ex_length)
  next
    case False
    then have "i + 1 \<le> k \<and> nat (k - (i + 1)) < length ss \<and> (\<forall>j < length ss. s_Primary (ss ! j) \<longleftrightarrow> j = nat (k - (i + 1)))"
      using Cons.prems by (intro Cons.IH) auto
    then show ?thesis using False by (auto simp: nth_Cons split: nat.split)
  qed
qed auto

lemma find_primary_unique:
  assumes "p < length ss" "\<forall>j < length ss. s_Primary (ss ! j) \<longleftrightarrow> j = p"
  shows "find_primary ss i (-1) = (if i \<ge> 0 then i + int p else find_primary ss i (-1))"
  using assms
proof (induction ss arbitrary: i p)
  case (Cons s ss)
  show ?case
  proof (cases p)
    case 0
    then have "s_Primary s" "\<not> list_ex s_Primary ss" using Cons.prems by (auto simp: list_ex_length)
    then show ?thesis using 0 find_primary_found [of i ss] by simp
  next
    case (Suc q)
    have "\<not> s_Primary s" using Cons.prems(2) Suc by auto
    moreover have "\<forall>j < length ss. s_Primary (ss ! j) \<longleftrightarrow> j = q"
    proof (intro allI impI)
      fix j assume "j < length ss"
      then show "s_Primary (ss ! j) \<longleftrightarrow> j = q" using Cons.prems(2) [rule_format, of "Suc j"] Suc by simp
    qed
    ultimately show ?thesis using Cons.IH [of q "i + 1"] Cons.prems(1) Suc by auto
  qed
qed auto

lemma topo_member_nth: "distinct (map m_ID ms) \<Longrightarrow> i < length ms \<Longrightarrow> topo_member ms (m_ID (ms ! i)) = Some (ms ! i)"
proof (induction ms arbitrary: i)
  case (Cons m ms)
  then show ?case by (cases i) auto
qed simp

lemma state_fields [simp]:
  "s_NodeID (eligibility kind s) = s_NodeID s" "state_role (eligibility kind s) = state_role s"
  by (auto simp: eligibility_def state_role_def)

lemma state_role_probe [simp]: "state_role (probe_state m ro) = (case ro of Some r \<Rightarrow> r | None \<Rightarrow> no_role)"
  by (auto simp: state_role_def probe_state_def Let_def split: option.split)

lemma probe_NodeID [simp]: "s_NodeID (probe_state m ro) = m_ID m"
  by (simp add: probe_state_def Let_def)

text \<open>Who claims to be the primary, as the group is probed.\<close>

definition claims_primary :: "world \<Rightarrow> swMember \<Rightarrow> bool" where
  "claims_primary w m \<longleftrightarrow> s_Primary (probe_state m (w_probe w (m_ID m)))"

definition answers_healthy :: "world \<Rightarrow> string \<Rightarrow> swMember \<Rightarrow> bool" where
  "answers_healthy w kind m \<longleftrightarrow>
     memberHealthy kind (Some (case w_probe w (m_ID m) of Some r \<Rightarrow> r | None \<Rightarrow> no_role))"

lemma find_unhealthy:
  "find (\<lambda>s. \<not> memberHealthy kind (Some (state_role s))) (fst (probeTopo (w_probe w) kind ms)) = None
     \<longleftrightarrow> (\<forall>m \<in> set ms. answers_healthy w kind m)"
  by (auto simp: find_None_iff probeTopo_def Let_def answers_healthy_def)

text \<open>A run that gets past its checks is two legs: the replicas, then the primary.\<close>

lemma runRolling_primary:
  assumes "distinct (map m_ID ms)" "\<forall>m \<in> set ms. answers_healthy w kind m" "kind \<noteq> ''galera''"
    "snd (probeTopo (w_probe w) kind ms) \<ge> 0"
  obtains p where "p \<in> set ms" "\<forall>m \<in> set ms. claims_primary w m \<longleftrightarrow> m = p"
    "runRolling w kind ms switchover = roll_from w kind switchover ms p"
proof -
  let ?out = "map (\<lambda>m. probe_state m (w_probe w (m_ID m))) ms"
  obtain states pi where pt: "probeTopo (w_probe w) kind ms = (states, pi)" by fastforce
  then have st: "states = map (eligibility kind) ?out" and pi: "find_primary ?out 0 (-1) = pi" "pi \<ge> 0"
    using assms(4) by (auto simp: probeTopo_def Let_def)
  let ?i = "nat pi"
  have i: "?i < length ms" "\<forall>j < length ms. s_Primary (?out ! j) \<longleftrightarrow> j = ?i"
    using find_primary_index [OF pi] by auto
  have "claims_primary w m \<longleftrightarrow> m = ms ! ?i" if in_ms: "m \<in> set ms" for m
  proof -
    from in_ms obtain j where j: "j < length ms" "ms ! j = m" unfolding in_set_conv_nth by blast
    have "claims_primary w m \<longleftrightarrow> j = ?i" using i(2) j by (auto simp: claims_primary_def)
    also have "\<dots> \<longleftrightarrow> m = ms ! ?i"
      using j i(1) assms(1) by (auto simp: distinct_map inj_on_def nth_eq_iff_index_eq)
    finally show ?thesis .
  qed
  moreover have "s_NodeID (states ! ?i) = m_ID (ms ! ?i)" using st i(1) by simp
  then have p: "member_or_zero ms (s_NodeID (states ! ?i)) = ms ! ?i"
    using topo_member_nth [OF assms(1) i(1)] by (simp add: member_or_zero_def)
  have "find (\<lambda>s. \<not> memberHealthy kind (Some (state_role s))) states = None"
    using find_unhealthy [of kind w ms] assms(2) pt by simp
  then have "runRolling w kind ms switchover = roll_from w kind switchover ms (ms ! ?i)"
    using assms(3) pi(2) pt p by (simp add: runRolling_def)
  ultimately show ?thesis using that [of "ms ! ?i"] i(1) by simp
qed

lemma roll_from_ok: "leg_ok kind (map m_ID (filter (\<lambda>m. m_ID m \<noteq> m_ID p) ms) @ [m_ID p]) (roll_from w kind switchover ms p)"
proof -
  let ?rs = "filter (\<lambda>m. m_ID m \<noteq> m_ID p) ms"
  obtain a r where ms: "roll_members w kind ?rs = (a, r)" by fastforce
  obtain b s where pr: "roll_primary w kind switchover ?rs p = (b, s)" by fastforce
  have la: "leg_ok kind (map m_ID ?rs) (ALog x # a, r)" for x
    using roll_members_ok [of kind ?rs w] ms by (simp add: leg_ok_def)
  have lb: "leg_ok kind [m_ID p] (b, s)" using roll_primary_ok [of kind p w switchover ?rs] pr by simp
  show ?thesis
  proof (cases r)
    case Done
    then show ?thesis using leg_ok_then [OF la [unfolded Done] lb] ms pr by (simp add: roll_from_def Let_def)
  qed (use leg_ok_stop [OF la, of "[m_ID p]"] ms in \<open>simp_all add: roll_from_def Let_def\<close>)
qed

text \<open>The order a run keeps to: the members as listed, or the others first and the primary last.\<close>

lemma filter_primary_last:
  assumes "distinct (map m_ID ms)" "p \<in> set ms"
  shows "mset (map m_ID (filter (\<lambda>m. m_ID m \<noteq> m_ID p) ms) @ [m_ID p]) = mset (map m_ID ms)"
proof -
  have "filter (\<lambda>m. m_ID m = m_ID p) ms = [p]"
    using assms
  proof (induction ms)
    case (Cons m ms)
    then show ?case by (cases "m = p") (auto simp: filter_empty_conv image_iff)
  qed simp
  moreover have "mset ms = mset (filter (\<lambda>m. m_ID m = m_ID p) ms) + mset (filter (\<lambda>m. m_ID m \<noteq> m_ID p) ms)"
    unfolding mset_filter by (rule multiset_partition)
  ultimately have "mset ms = mset (filter (\<lambda>m. m_ID m \<noteq> m_ID p) ms @ [p])" by simp
  then have "image_mset m_ID (mset ms) = image_mset m_ID (mset (filter (\<lambda>m. m_ID m \<noteq> m_ID p) ms @ [p]))" by simp
  then show ?thesis by (simp only: mset_map [symmetric] map_append list.map)
qed

text \<open>
  C40. A rolling restart takes the members down one at a time and in order: on every outcome the
  restarts made are the beginning of one order of all the members, in which a primary comes last; no member
  is restarted while the one restarted before it has not been seen healthy since; nothing is restarted unless
  every member answered as healthy; and a run that reports success restarted every member exactly once and
  left none unseen.
\<close>

theorem rolling_one_at_a_time:
  assumes "distinct (map m_ID ms)" "runRolling w kind ms switchover = (acts, r)" "acts \<noteq> []"
  shows "\<exists>order. mset order = mset (map m_ID ms) \<and> prefix (restarts acts) order \<and> rolls kind None acts \<noteq> None
    \<and> (kind \<noteq> ''galera'' \<longrightarrow> (\<forall>m \<in> set ms. claims_primary w m \<longleftrightarrow> m_ID m = last order))
    \<and> (\<forall>m \<in> set ms. answers_healthy w kind m)
    \<and> (r = Done \<longrightarrow> restarts acts = order \<and> rolls kind None acts = Some None)"
proof -
  obtain states pi where pt: "probeTopo (w_probe w) kind ms = (states, pi)" by fastforce
  have healthy: "\<forall>m \<in> set ms. answers_healthy w kind m"
    using assms(2,3) find_unhealthy [of kind w ms] pt by (auto simp: runRolling_def split: option.splits)
  then have none: "find (\<lambda>s. \<not> memberHealthy kind (Some (state_role s))) states = None"
    using find_unhealthy [of kind w ms] pt by simp
  show ?thesis
  proof (cases "kind = ''galera''")
    case True
    then have "roll_members w kind ms = (acts, r)" using assms(2) none pt by (simp add: runRolling_def)
    then have "leg_ok kind (map m_ID ms) (acts, r)" using roll_members_ok [of kind ms w] by simp
    then show ?thesis using True healthy by (intro exI [of _ "map m_ID ms"]) (simp add: leg_ok_def)
  next
    case False
    then have "pi \<ge> 0" using assms(2,3) none pt by (auto simp: runRolling_def split: if_splits)
    then obtain p where p: "p \<in> set ms" "\<forall>m \<in> set ms. claims_primary w m \<longleftrightarrow> m = p"
      "runRolling w kind ms switchover = roll_from w kind switchover ms p"
      using runRolling_primary [OF assms(1) healthy False] pt by (metis snd_conv)
    let ?order = "map m_ID (filter (\<lambda>m. m_ID m \<noteq> m_ID p) ms) @ [m_ID p]"
    have "leg_ok kind ?order (acts, r)" using roll_from_ok [of kind p ms w switchover] p(3) assms(2) by simp
    moreover have "\<forall>m \<in> set ms. claims_primary w m \<longleftrightarrow> m_ID m = last ?order"
      using p assms(1) by (auto simp: distinct_map inj_on_def)
    ultimately show ?thesis using healthy filter_primary_last [OF assms(1) p(1)]
      by (intro exI [of _ ?order]) (simp add: leg_ok_def)
  qed
qed

section \<open>A run completes when its members come back\<close>

text \<open>The probes of a restarted member find it healthy before the deadline and before the context ends.\<close>

fun comes_back :: "string \<Rightarrow> poll list \<Rightarrow> bool" where
  "comes_back kind [] = False"
| "comes_back kind (p # ps) \<longleftrightarrow> memberHealthy kind (pl_role p) \<or> (\<not> pl_late p \<and> \<not> pl_ended p \<and> comes_back kind ps)"

lemma wait_done: "comes_back kind ps \<Longrightarrow> snd (waitMemberHealthy w kind m ps prev) = Done"
  by (induction w kind m ps prev rule: waitMemberHealthy.induct) (auto simp: Let_def split: prod.split)

definition restarts_well :: "world \<Rightarrow> string \<Rightarrow> swMember \<Rightarrow> bool" where
  "restarts_well w kind m \<longleftrightarrow> w_deployed w (m_ID m) \<and> w_restart w (m_ID m) = None \<and> comes_back kind (w_polls w (m_ID m))"

lemma roll_restart_done: "restarts_well w kind m \<Longrightarrow> snd (roll_restart w kind m) = Done"
  using wait_done [of kind "w_polls w (m_ID m)" w m "[]"]
  by (auto simp: restarts_well_def roll_restart_def restartContainer_def Let_def split: prod.split outcome.split)

lemma roll_members_done: "\<forall>m \<in> set ms. restarts_well w kind m \<Longrightarrow> snd (roll_members w kind ms) = Done"
proof (induction ms)
  case (Cons m ms)
  then have "snd (roll_restart w kind m) = Done" by (intro roll_restart_done) simp
  with Cons show ?case by (auto split: prod.split outcome.split)
qed simp

lemma roll_from_done:
  assumes "\<forall>m \<in> set ms. restarts_well w kind m" "p \<in> set ms" "switchover \<longrightarrow> (\<forall>m \<in> set ms. snd (w_switch w (m_ID m)) = None)"
  shows "snd (roll_from w kind switchover ms p) = Done"
proof -
  let ?rs = "filter (\<lambda>m. m_ID m \<noteq> m_ID p) ms"
  have rs: "snd (roll_members w kind ?rs) = Done" using assms(1) by (intro roll_members_done) auto
  have p: "snd (roll_restart w kind p) = Done" using assms(1,2) by (intro roll_restart_done) simp
  have sw: "snd (w_switch w (m_ID (hd ?rs))) = None" if "switchover \<and> ?rs \<noteq> []"
  proof -
    have "hd ?rs \<in> set ms" using that hd_in_set [of ?rs] by auto
    then show ?thesis using assms(3) that by blast
  qed
  have "snd (roll_primary w kind switchover ?rs p) = Done"
  proof (cases "switchover \<and> ?rs \<noteq> []")
    case True
    then obtain steps where "w_switch w (m_ID (hd ?rs)) = (steps, None)" using sw prod.collapse by metis
    then show ?thesis unfolding roll_primary_def if_P [OF True] using p by (auto simp: Let_def split: prod.split)
  next
    case False
    then show ?thesis unfolding roll_primary_def if_not_P [OF False] using p by (auto simp: Let_def split: prod.split)
  qed
  with rs show ?thesis by (auto simp: roll_from_def Let_def split: prod.split outcome.split)
qed

text \<open>
  C34. A rolling restart of a healthy cluster finishes: when every member answers as healthy, one member
  claims to be the primary (or the cluster is a Galera cluster), every member is deployed, restarts and is
  found healthy again in time, and the switchover succeeds where it is asked for, then the run ends in
  success and has restarted every member exactly once.
\<close>

theorem rolling_completes:
  assumes "distinct (map m_ID ms)" "\<forall>m \<in> set ms. answers_healthy w kind m"
    "kind = ''galera'' \<or> (\<exists>p \<in> set ms. \<forall>m \<in> set ms. claims_primary w m \<longleftrightarrow> m = p)"
    "\<forall>m \<in> set ms. restarts_well w kind m" "switchover \<longrightarrow> (\<forall>m \<in> set ms. snd (w_switch w (m_ID m)) = None)"
  shows "\<exists>acts. runRolling w kind ms switchover = (acts, Done) \<and> mset (restarts acts) = mset (map m_ID ms)"
proof -
  obtain states pi where pt: "probeTopo (w_probe w) kind ms = (states, pi)" by fastforce
  have none: "find (\<lambda>s. \<not> memberHealthy kind (Some (state_role s))) states = None"
    using find_unhealthy [of kind w ms] assms(2) pt by simp
  show ?thesis
  proof (cases "kind = ''galera''")
    case True
    obtain acts r where run: "roll_members w kind ms = (acts, r)" by fastforce
    then have "r = Done" using roll_members_done [OF assms(4)] by simp
    moreover have "leg_ok kind (map m_ID ms) (acts, r)" using roll_members_ok [of kind ms w] run by simp
    ultimately show ?thesis using True none pt run by (simp add: runRolling_def leg_ok_def)
  next
    case False
    let ?out = "map (\<lambda>m. probe_state m (w_probe w (m_ID m))) ms"
    from False assms(3) obtain p where p: "p \<in> set ms" "\<forall>m \<in> set ms. claims_primary w m \<longleftrightarrow> m = p" by blast
    then obtain i where i: "i < length ms" "ms ! i = p" unfolding in_set_conv_nth by blast
    have "s_Primary (?out ! j) \<longleftrightarrow> j = i" if "j < length ms" for j
    proof -
      have "s_Primary (?out ! j) \<longleftrightarrow> ms ! j = p" using p(2) that by (simp add: claims_primary_def)
      also have "\<dots> \<longleftrightarrow> j = i"
        using i that assms(1) by (auto simp: distinct_map nth_eq_iff_index_eq)
      finally show ?thesis .
    qed
    then have "snd (probeTopo (w_probe w) kind ms) \<ge> 0"
      using find_primary_unique [of i ?out 0] i(1) by (simp add: probeTopo_def Let_def)
    then obtain q where q: "q \<in> set ms" "runRolling w kind ms switchover = roll_from w kind switchover ms q"
      using runRolling_primary [OF assms(1,2) False] by metis
    obtain acts r where run: "roll_from w kind switchover ms q = (acts, r)" by fastforce
    then have "r = Done" using roll_from_done [OF assms(4) q(1) assms(5)] by simp
    then have "restarts acts = map m_ID (filter (\<lambda>m. m_ID m \<noteq> m_ID q) ms) @ [m_ID q]"
      using roll_from_ok [of kind q ms w switchover] run by (simp add: leg_ok_def)
    then show ?thesis using q run \<open>r = Done\<close> filter_primary_last [OF assms(1) q(1)] by simp
  qed
qed

section \<open>An example\<close>

text \<open>A primary and a replica that take one probe to come back, and a switchover that works.\<close>

definition ex_role :: "string \<Rightarrow> liveRole" where
  "ex_role s = no_role\<lparr>r_Role := s\<rparr>"

definition ex_members :: "swMember list" where
  "ex_members = [\<lparr>m_ID = ''a'', m_Label = ''A''\<rparr>, \<lparr>m_ID = ''b'', m_Label = ''B''\<rparr>]"

definition ex_world :: world where
  "ex_world = \<lparr>w_probe = (\<lambda>i. Some (ex_role (if i = ''a'' then ''primary'' else ''replica''))), w_deployed = (\<lambda>_. True),
     w_restart = (\<lambda>_. None),
     w_polls = (\<lambda>_. [\<lparr>pl_role = None, pl_late = False, pl_ended = False\<rparr>,
       \<lparr>pl_role = Some (ex_role ''replica''), pl_late = False, pl_ended = False\<rparr>]),
     w_switch = (\<lambda>_. ([''done''], None)), w_lag = (\<lambda>_. []), w_ctxErr = [], w_within = ''15m0s''\<rparr>"

lemma ex_healthy: "\<forall>m \<in> set ex_members. answers_healthy ex_world ''mysql'' m"
  by (simp add: ex_members_def answers_healthy_def ex_world_def ex_role_def no_role_def memberHealthy_def)

lemma ex_primary: "\<forall>m \<in> set ex_members. claims_primary ex_world m \<longleftrightarrow> m = hd ex_members"
  by (simp add: ex_members_def claims_primary_def ex_world_def ex_role_def no_role_def probe_state_def Let_def)

lemma ex_restarts: "\<forall>m \<in> set ex_members. restarts_well ex_world ''mysql'' m"
  by (simp add: ex_members_def restarts_well_def ex_world_def ex_role_def no_role_def memberHealthy_def)

lemma ex_members_distinct: "distinct (map m_ID ex_members)"
  by (simp add: ex_members_def)

lemma ex_run: "runRolling ex_world ''mysql'' ex_members True = roll_from ex_world ''mysql'' True ex_members (hd ex_members)"
proof -
  have "snd (probeTopo (w_probe ex_world) ''mysql'' ex_members) = 0"
    by (simp add: probeTopo_def ex_members_def ex_world_def ex_role_def no_role_def probe_state_def Let_def)
  then have ge: "snd (probeTopo (w_probe ex_world) ''mysql'' ex_members) \<ge> 0" by simp
  show ?thesis
  proof (rule runRolling_primary [OF ex_members_distinct ex_healthy _ ge, where switchover = True])
    fix p
    assume p: "\<forall>m \<in> set ex_members. claims_primary ex_world m \<longleftrightarrow> m = p"
      "runRolling ex_world ''mysql'' ex_members True = roll_from ex_world ''mysql'' True ex_members p"
    have "hd ex_members \<in> set ex_members" by (simp add: ex_members_def)
    then have "p = hd ex_members" using p(1) ex_primary by metis
    then show ?thesis using p(2) by simp
  qed simp
qed

lemma ex_run_started: "fst (runRolling ex_world ''mysql'' ex_members True) \<noteq> []"
  unfolding ex_run roll_from_def by (auto simp: Let_def split: prod.split outcome.split)

lemma rolling_one_at_a_time_witness:
  "fst (runRolling ex_world ''mysql'' ex_members True) \<noteq> []
   \<and> (\<exists>order. mset order = mset [''a'', ''b''] \<and> prefix (restarts (fst (runRolling ex_world ''mysql'' ex_members True))) order
        \<and> last order = ''a'')"
proof -
  obtain acts r where run: "runRolling ex_world ''mysql'' ex_members True = (acts, r)" by fastforce
  have "acts \<noteq> []" using ex_run_started run by simp
  from rolling_one_at_a_time [OF ex_members_distinct run this] obtain order where
    o: "mset order = mset (map m_ID ex_members)" "prefix (restarts acts) order"
    "\<forall>m \<in> set ex_members. claims_primary ex_world m \<longleftrightarrow> m_ID m = last order" by auto
  have "claims_primary ex_world (hd ex_members)" using ex_primary by (simp add: ex_members_def)
  moreover have "hd ex_members \<in> set ex_members" "m_ID (hd ex_members) = ''a''" by (simp_all add: ex_members_def)
  ultimately have "last order = ''a''" using o(3) by metis
  moreover have "mset order = mset [''a'', ''b'']" using o(1) by (simp add: ex_members_def)
  ultimately show ?thesis using o(2) run ex_run_started unfolding run fst_conv by blast
qed

lemma rolling_completes_witness:
  "\<exists>acts. runRolling ex_world ''mysql'' ex_members True = (acts, Done) \<and> mset (restarts acts) = mset [''a'', ''b'']"
proof -
  have "\<exists>acts. runRolling ex_world ''mysql'' ex_members True = (acts, Done) \<and> mset (restarts acts) = mset (map m_ID ex_members)"
    using ex_primary by (intro rolling_completes [OF ex_members_distinct ex_healthy _ ex_restarts])
      (auto simp: ex_world_def ex_members_def)
  then show ?thesis by (simp add: ex_members_def)
qed

end
