(* ===== verification/Pg_Wire.thy ===== *)
theory Pg_Wire
  imports Frame_Reader Pkt_State Mysql_Wire
begin

text \<open>
  The framing of PostgreSQL's protocol (\<^verbatim>\<open>src/app/pktpg.go\<close>): typed messages of a type byte and a length,
  the untyped messages at the start of a connection, and the search for an unmistakable message when a
  direction's alignment is not known. \<open>pktNextPG\<close> takes one message off a direction's buffer; what it
  changes of a direction is the buffer and the PostgreSQL state \<open>pd\<close>, and what it reads of the connection
  is whether its start was captured.
\<close>

section \<open>Constants\<close>

definition pgProtocol30 :: nat where "pgProtocol30 = 196608"
definition pgProtocol31 :: nat where "pgProtocol31 = 196609"
definition pgSSLRequest :: nat where "pgSSLRequest = 80877103"
definition pgCancelRequest :: nat where "pgCancelRequest = 80877102"
definition pgGSSENCRequest :: nat where "pgGSSENCRequest = 80877104"

definition pgMaxMsgLen :: nat where "pgMaxMsgLen = 64 * 2 ^ 20"

text \<open>A character literal of the source as a byte.\<close>

definition chr :: "char \<Rightarrow> byte" where
  "chr c = of_nat (of_char c)"

definition pgReplSubtypeLen :: "byte \<Rightarrow> nat \<Rightarrow> bool" where
  "pgReplSubtypeLen sub n =
     (if sub = chr CHR ''w'' then n \<ge> 30
      else if sub = chr CHR ''k'' then n = 22
      else if sub = chr CHR ''r'' then n = 38
      else if sub = chr CHR ''h'' then n = 29
      else False)"

definition pgKnownType :: "byte \<Rightarrow> bool \<Rightarrow> bool" where
  "pgKnownType t fromClient =
     (if fromClient then t \<in> set (bytes_of ''QPBEDCHSFfdcpX'') else t \<in> set (bytes_of ''RKSZTDCIEnNtsGHWAdcv1233''))"

section \<open>Finding a message in an unaligned direction\<close>

text \<open>\<^verbatim>\<open>int(binary.BigEndian.Uint32(buf[i+1:]))\<close>, the length of a message whose type byte is at \<open>i\<close>.\<close>

definition len_at :: "bytes \<Rightarrow> nat \<Rightarrow> nat" where
  "len_at buf i = be_u32 (drop (i + 1) buf)"

definition copy_at :: "bytes \<Rightarrow> nat \<Rightarrow> bool" where
  "copy_at buf i \<longleftrightarrow> buf ! i = chr CHR ''d'' \<and> len_at buf i \<ge> 6 \<and> len_at buf i \<le> 2 ^ 20
     \<and> i + 1 + len_at buf i \<le> length buf \<and> pgReplSubtypeLen (buf ! (i + 5)) (len_at buf i)"

definition ready_at :: "bytes \<Rightarrow> nat \<Rightarrow> bool" where
  "ready_at buf i \<longleftrightarrow> buf ! i = chr CHR ''Z'' \<and> len_at buf i = 5
     \<and> (buf ! (i + 5) = chr CHR ''I'' \<or> buf ! (i + 5) = chr CHR ''T'' \<or> buf ! (i + 5) = chr CHR ''E'')"

definition client_at :: "bytes \<Rightarrow> nat \<Rightarrow> bool" where
  "client_at buf i =
     (if buf ! i = chr CHR ''X'' then len_at buf i = 4
      else if buf ! i = chr CHR ''Q'' \<or> buf ! i = chr CHR ''P'' then
        len_at buf i \<ge> 6 \<and> len_at buf i \<le> 2 ^ 20 \<and> i + 1 + len_at buf i \<le> length buf
          \<and> buf ! (i + len_at buf i) = 0 \<and> pktMostlyPrintable (slice (i + 5) (i + len_at buf i) buf)
      else False)"

definition anchor_at :: "bool \<Rightarrow> bytes \<Rightarrow> nat \<Rightarrow> bool" where
  "anchor_at fromClient buf i \<longleftrightarrow> copy_at buf i \<or> (if fromClient then client_at buf i else ready_at buf i)"

text \<open>The buffer from the first anchor on; without one, the buffer or, when it is long, its tail.\<close>

definition pktPGAnchor :: "bytes \<Rightarrow> bool \<Rightarrow> bool \<times> bytes" where
  "pktPGAnchor buf fromClient =
     (case find (anchor_at fromClient buf) [0..<length buf - 5] of
        Some i \<Rightarrow> (True, drop i buf)
      | None \<Rightarrow> (False, if length buf > 2 ^ 20 then drop (length buf - 2 ^ 16) buf else buf))"

lemma length_pktPGAnchor: "length (snd (pktPGAnchor buf fc)) \<le> length buf"
  by (auto simp: pktPGAnchor_def split: option.split)

section \<open>Taking one message\<close>

type_synonym pg_result = "(byte \<times> bytes) option \<times> bytes \<times> pktPGDir"

text \<open>The head of the loop: a direction joined mid-stream is anchored first.\<close>

definition pg_align :: "bool \<Rightarrow> bool \<Rightarrow> bytes \<Rightarrow> pktPGDir \<Rightarrow> bool \<times> bytes \<times> pktPGDir" where
  "pg_align synced fromClient buf pd =
     (if \<not> synced \<and> \<not> pd_aligned pd then
        let (ok, b) = pktPGAnchor buf fromClient in (ok, b, if ok then pd\<lparr>pd_aligned := True\<rparr> else pd)
      else (True, buf, pd))"

lemma length_pg_align: "pg_align synced fc buf pd = (ok, b, pd1) \<Longrightarrow> length b \<le> length buf"
  using length_pktPGAnchor [of buf fc] by (auto simp: pg_align_def split: if_splits prod.splits)

text \<open>A length or a type that cannot be right: the direction is not aligned.\<close>

definition pg_misframed :: "bool \<Rightarrow> bytes \<Rightarrow> bool" where
  "pg_misframed fromClient buf \<longleftrightarrow> len_at buf 0 < 4 \<or> len_at buf 0 > pgMaxMsgLen \<or> \<not> pgKnownType (buf ! 0) fromClient"

text \<open>The loop behind the untyped start: \<open>None\<close> when no complete message is there.\<close>

function pg_loop :: "bool \<Rightarrow> bool \<Rightarrow> bytes \<Rightarrow> pktPGDir \<Rightarrow> pg_result" where
  "pg_loop synced fromClient buf pd =
     (case pg_align synced fromClient buf pd of
        (found, buf1, pd1) \<Rightarrow>
          if \<not> found \<or> length buf1 < 5 then (None, buf1, pd1)
          else if pg_misframed fromClient buf1 then
            let pd2 = pd1\<lparr>pd_aligned := False, pd_desynced := True\<rparr> in
            if \<not> synced then pg_loop synced fromClient (drop 1 buf1) pd2
            else
              (case pktPGAnchor (drop 1 buf1) fromClient of
                 (ok, b) \<Rightarrow>
                   if \<not> ok then (None, b, pd2) else pg_loop synced fromClient b (pd2\<lparr>pd_aligned := True\<rparr>))
          else if length buf1 < 1 + len_at buf1 0 then (None, buf1, pd1)
          else (Some (buf1 ! 0, slice 5 (1 + len_at buf1 0) buf1), drop (1 + len_at buf1 0) buf1, pd1))"
  by pat_completeness auto
termination
proof (relation "measure (\<lambda>(synced, fromClient, buf, pd). length buf)", goal_cases)
  case (2 synced fromClient buf pd found y buf1 pd1 pd2)
  then show ?case using length_pg_align [of synced fromClient buf pd found buf1 pd1] by auto
next
  case (3 synced fromClient buf pd found y buf1 pd1 pd2 ok b)
  have "b = snd (pktPGAnchor (drop 1 buf1) fromClient)" using 3 by (metis snd_conv)
  then have "length b \<le> length buf1 - 1" using length_pktPGAnchor [of "drop 1 buf1" fromClient] by simp
  then show ?case using 3 length_pg_align [of synced fromClient buf pd found buf1 pd1] by auto
qed simp

declare pg_loop.simps [simp del]

definition pktNextPG :: "bool \<Rightarrow> bool \<Rightarrow> bytes \<Rightarrow> pktPGDir \<Rightarrow> pg_result" where
  "pktNextPG synced fromClient buf pd =
     (if fromClient \<and> \<not> pd_firstDone pd \<and> synced then
        (if length buf < 8 then (None, buf, pd)
         else
           let n = be_u32 buf in
           if 8 \<le> n \<and> n \<le> 10000 then
             (if length buf < n then (None, buf, pd)
              else
                let code = be_u32 (drop 4 buf)
                in (Some (0, slice 4 n buf), drop n buf,
                    pd\<lparr>pd_firstDone := (code \<noteq> pgSSLRequest \<and> code \<noteq> pgGSSENCRequest), pd_aligned := True\<rparr>))
           else pg_loop synced fromClient buf (pd\<lparr>pd_firstDone := True\<rparr>))
      else pg_loop synced fromClient buf pd)"

section \<open>Draining a direction\<close>

text \<open>One typed message at the head of an aligned buffer, as a framing routine.\<close>

definition pg_read :: "bool \<Rightarrow> bytes \<Rightarrow> ((byte \<times> bytes) \<times> nat) option" where
  "pg_read fromClient buf =
     (if length buf < 5 \<or> pg_misframed fromClient buf \<or> length buf < 1 + len_at buf 0 then None
      else Some ((buf ! 0, slice 5 (1 + len_at buf 0) buf), 1 + len_at buf 0))"

lemma head_append:
  assumes "5 \<le> length b"
  shows "(b @ c) ! 0 = b ! 0" "len_at (b @ c) 0 = len_at b 0" "pg_misframed fc (b @ c) = pg_misframed fc b"
proof -
  show n: "(b @ c) ! 0 = b ! 0" using assms by (cases b) auto
  show l: "len_at (b @ c) 0 = len_at b 0" using assms by (simp add: len_at_def)
  show "pg_misframed fc (b @ c) = pg_misframed fc b" unfolding pg_misframed_def n l ..
qed

interpretation pgr: frame_reader "pg_read fc" for fc
proof
  fix b m n c
  assume a: "pg_read fc b = Some (m, n)"
  then have h: "n = 1 + len_at b 0" "5 \<le> length b" "1 + len_at b 0 \<le> length b"
    by (auto simp: pg_read_def split: if_splits)
  show "0 < n" "n \<le> length b" using h by simp_all
  show "pg_read fc (b @ c) = Some (m, n)"
    using a h(2,3) head_append [OF h(2)] slice_append_left [OF h(3)]
    by (auto simp: pg_read_def split: if_splits)
qed

text \<open>A direction past its untyped messages whose alignment is known.\<close>

definition pg_readable :: "bool \<Rightarrow> bool \<Rightarrow> pktPGDir \<Rightarrow> bool" where
  "pg_readable synced fromClient pd \<longleftrightarrow> (synced \<or> pd_aligned pd) \<and> (fromClient \<and> synced \<longrightarrow> pd_firstDone pd)"

lemma pg_align_known [simp]: "synced \<or> pd_aligned pd \<Longrightarrow> pg_align synced fc buf pd = (True, buf, pd)"
  by (auto simp: pg_align_def)

lemma pg_loop_read:
  assumes "synced \<or> pd_aligned pd" "pg_read fc buf = Some (m, n)"
  shows "pg_loop synced fc buf pd = (Some m, drop n buf, pd)"
  using assms by (subst pg_loop.simps) (auto simp: pg_read_def split: if_splits)

lemma pg_loop_short:
  assumes "synced \<or> pd_aligned pd" "length buf < 5 \<or> (\<not> pg_misframed fc buf \<and> length buf < 1 + len_at buf 0)"
  shows "pg_loop synced fc buf pd = (None, buf, pd)"
  using assms by (subst pg_loop.simps) auto

lemma pg_loop_shorter: "pg_loop synced fc buf pd = (Some m, buf', pd') \<Longrightarrow> length buf' < length buf"
proof (induction synced fc buf pd arbitrary: m buf' pd' rule: pg_loop.induct)
  case (1 synced fc buf pd)
  obtain found buf1 pd1 where head: "pg_align synced fc buf pd = (found, buf1, pd1)" by (metis prod_cases3)
  note le = length_pg_align [OF head]
  note run = "1.prems" [unfolded pg_loop.simps [of synced fc buf pd] head case_prod_conv Let_def]
  have ok: "\<not> (\<not> found \<or> length buf1 < 5)" using run by (auto split: if_splits)
  show ?case
  proof (cases "pg_misframed fc buf1")
    case False
    then show ?thesis using run ok le by (auto split: if_splits)
  next
    case True
    let ?pd = "pd1\<lparr>pd_aligned := False, pd_desynced := True\<rparr>"
    show ?thesis
    proof (cases synced)
      case False
      then have "pg_loop synced fc (drop 1 buf1) ?pd = (Some m, buf', pd')" using run ok True by simp
      from "1.IH"(1) [OF head [symmetric] refl ok True refl _ this] False le ok show ?thesis by simp
    next
      case synced: True
      obtain ok2 b where anc: "pktPGAnchor (drop 1 buf1) fc = (ok2, b)" by fastforce
      have b: "length b \<le> length (drop 1 buf1)" using length_pktPGAnchor [of "drop 1 buf1" fc] anc by simp
      have ok2: "ok2" "pg_loop synced fc b (?pd\<lparr>pd_aligned := True\<rparr>) = (Some m, buf', pd')"
        using run ok True synced anc by (auto split: if_splits)
      have "length buf' < length b"
        using "1.IH"(2) [OF head [symmetric] refl ok True refl _ anc [symmetric] _ ok2(2)] synced ok2(1) by simp
      then show ?thesis using b le by simp
    qed
  qed
qed

lemma pktNextPG_shorter: "pktNextPG synced fc buf pd = (Some m, buf', pd') \<Longrightarrow> length buf' < length buf"
  by (auto simp: pktNextPG_def Let_def dest: pg_loop_shorter split: if_splits)

text \<open>
  The loop of \<^verbatim>\<open>pktPGDecode\<close> as far as the framing goes: messages are taken off the buffer until there is
  none, and the segments of a direction arrive one after the other.
\<close>

function pg_drain :: "bool \<Rightarrow> bool \<Rightarrow> bytes \<Rightarrow> pktPGDir \<Rightarrow> (byte \<times> bytes) list \<times> bytes \<times> pktPGDir" where
  "pg_drain synced fc buf pd =
     (case pktNextPG synced fc buf pd of
        (None, buf', pd') \<Rightarrow> ([], buf', pd')
      | (Some m, buf', pd') \<Rightarrow> (case pg_drain synced fc buf' pd' of (ms, r) \<Rightarrow> (m # ms, r)))"
  by pat_completeness auto
termination
  by (relation "measure (\<lambda>(synced, fc, buf, pd). length buf)") (auto dest: pktNextPG_shorter [OF sym])

declare pg_drain.simps [simp del]

fun pg_feed :: "bool \<Rightarrow> bool \<Rightarrow> bytes \<Rightarrow> pktPGDir \<Rightarrow> bytes list \<Rightarrow> (byte \<times> bytes) list \<times> bytes \<times> pktPGDir" where
  "pg_feed synced fc buf pd [] = ([], buf, pd)"
| "pg_feed synced fc buf pd (s # segs) =
     (case pg_drain synced fc (buf @ s) pd of
        (ms, buf', pd') \<Rightarrow> (case pg_feed synced fc buf' pd' segs of (ms', r) \<Rightarrow> (ms @ ms', r)))"

section \<open>Streams\<close>

definition pg_enc :: "byte \<times> bytes \<Rightarrow> bytes" where
  "pg_enc m = fst m # rev (le_enc 4 (length (snd m) + 4)) @ snd m"

definition pg_encs :: "(byte \<times> bytes) list \<Rightarrow> bytes" where
  "pg_encs ms = concat (map pg_enc ms)"

definition pg_msg_ok :: "bool \<Rightarrow> byte \<times> bytes \<Rightarrow> bool" where
  "pg_msg_ok fc m \<longleftrightarrow> pgKnownType (fst m) fc \<and> length (snd m) + 4 \<le> pgMaxMsgLen"

lemma pg_encs_simps [simp]: "pg_encs [] = []" "pg_encs (m # ms) = pg_enc m @ pg_encs ms"
  by (simp_all add: pg_encs_def)

lemma length_pg_enc: "length (pg_enc m) = 5 + length (snd m)"
  by (simp add: pg_enc_def)

lemma pg_enc_head:
  assumes "pg_msg_ok fc m" "b = take k (pg_enc m @ c)" "5 \<le> k"
  shows "5 \<le> length b" "len_at b 0 = length (snd m) + 4" "b ! 0 = fst m" "\<not> pg_misframed fc b"
proof -
  let ?v = "length (snd m) + 4"
  have v: "?v < 256 ^ 4" using assms(1) by (simp add: pg_msg_ok_def pgMaxMsgLen_def)
  have b: "b = fst m # rev (le_enc 4 ?v) @ take (k - 5) (snd m @ c)"
    using assms(2,3) by (simp add: pg_enc_def take_Cons')
  show l: "5 \<le> length b" using b by simp
  show n: "len_at b 0 = ?v"
    unfolding len_at_def b using le_nat_le_enc [OF v] by (simp add: be_u32_def be_nat_def)
  show h: "b ! 0 = fst m" using b by simp
  show "\<not> pg_misframed fc b"
    unfolding pg_misframed_def n h using assms(1) by (simp add: pg_msg_ok_def)
qed

lemma pg_read_enc: "pg_msg_ok fc m \<Longrightarrow> pg_read fc (pg_enc m @ c) = Some (m, length (pg_enc m))"
proof -
  assume ok: "pg_msg_ok fc m"
  let ?b = "pg_enc m @ c"
  have h: "5 \<le> length ?b" "len_at ?b 0 = length (snd m) + 4" "?b ! 0 = fst m" "\<not> pg_misframed fc ?b"
    using pg_enc_head [OF ok, of ?b "length ?b" c] length_pg_enc [of m] by simp_all
  have "slice 5 (1 + len_at ?b 0) ?b = snd m"
    unfolding h(2) by (simp add: slice_def pg_enc_def)
  then show ?thesis using h by (cases m) (simp add: pg_read_def length_pg_enc)
qed

lemma drain_encs: "\<forall>m \<in> set ms. pg_msg_ok fc m \<Longrightarrow> drain (pg_read fc) (pg_encs ms) = (ms, [])"
proof (induction ms)
  case Nil
  then show ?case by (simp add: pgr.drain_None pgr.rd_Nil)
next
  case (Cons m ms)
  then show ?case using pgr.drain_Some [OF pg_read_enc [of fc m "pg_encs ms"]] by simp
qed

text \<open>The beginning of a well-formed stream: a message that is not there yet is only incomplete.\<close>

definition well_framed :: "bool \<Rightarrow> bytes \<Rightarrow> bool" where
  "well_framed fc buf \<longleftrightarrow> (\<exists>ms rest. (\<forall>m \<in> set ms. pg_msg_ok fc m) \<and> buf @ rest = pg_encs ms)"

lemma well_framed_prefix: "well_framed fc (b @ c) \<Longrightarrow> well_framed fc b"
  unfolding well_framed_def by (metis append.assoc)

lemma well_framed_cases:
  assumes "well_framed fc buf"
  shows "(\<exists>m c. buf = pg_enc m @ c \<and> pg_msg_ok fc m \<and> well_framed fc c)
    \<or> (length buf < 5 \<or> (\<not> pg_misframed fc buf \<and> length buf < 1 + len_at buf 0))"
proof -
  obtain ms rest where ms: "\<forall>m \<in> set ms. pg_msg_ok fc m" "buf @ rest = pg_encs ms"
    using assms unfolding well_framed_def by blast
  show ?thesis
  proof (cases ms)
    case Nil
    then show ?thesis using ms by simp
  next
    case (Cons m ns)
    then have ok: "pg_msg_ok fc m" using ms by simp
    have s: "buf @ rest = pg_enc m @ pg_encs ns" using ms Cons by simp
    show ?thesis
    proof (cases "length (pg_enc m) \<le> length buf")
      case True
      then obtain c where c: "buf = pg_enc m @ c" "c @ rest = pg_encs ns"
        using s by (metis append_eq_append_conv_if append_take_drop_id)
      then have "well_framed fc c" using ms Cons unfolding well_framed_def by auto
      then show ?thesis using c ok by blast
    next
      case False
      have b: "buf = take (length buf) (pg_enc m @ pg_encs ns)" using s by (metis append_eq_conv_conj)
      have "\<not> pg_misframed fc buf \<and> length buf < 1 + len_at buf 0" if "5 \<le> length buf"
        using pg_enc_head [OF ok b that] False length_pg_enc [of m] by simp
      then show ?thesis by linarith
    qed
  qed
qed

lemma pktNextPG_readable:
  "pg_readable synced fc pd \<Longrightarrow> pktNextPG synced fc buf pd = pg_loop synced fc buf pd"
  by (auto simp: pktNextPG_def pg_readable_def)

lemma pg_drain_well_framed:
  assumes "pg_readable synced fc pd" "well_framed fc buf"
  shows "pg_drain synced fc buf pd = (fst (drain (pg_read fc) buf), snd (drain (pg_read fc) buf), pd)
     \<and> (\<forall>c. well_framed fc (buf @ c) \<longrightarrow> well_framed fc (snd (drain (pg_read fc) buf) @ c))"
  using assms(2)
proof (induction "length buf" arbitrary: buf rule: less_induct)
  case less
  have al: "synced \<or> pd_aligned pd" using assms(1) by (simp add: pg_readable_def)
  from well_framed_cases [OF less.prems] show ?case
  proof
    assume "\<exists>m c. buf = pg_enc m @ c \<and> pg_msg_ok fc m \<and> well_framed fc c"
    then obtain m c where m: "buf = pg_enc m @ c" "pg_msg_ok fc m" "well_framed fc c" by blast
    note rd = pg_read_enc [OF m(2), of c, folded m(1)]
    have "length c < length buf" using m(1) length_pg_enc [of m] by simp
    note IH = less.hyps [OF this m(3)]
    have "pktNextPG synced fc buf pd = (Some m, c, pd)"
      using pktNextPG_readable [OF assms(1)] pg_loop_read [OF al rd] m(1) by simp
    moreover have "drain (pg_read fc) buf = (m # fst (drain (pg_read fc) c), snd (drain (pg_read fc) c))"
      using pgr.drain_Some [OF rd] m(1) by simp
    moreover have "well_framed fc (c @ d)" if w: "well_framed fc (buf @ d)" for d
    proof -
      obtain ms rest where ms: "\<forall>m \<in> set ms. pg_msg_ok fc m" "pg_enc m @ (c @ d @ rest) = pg_encs ms"
        using w m(1) unfolding well_framed_def by auto
      obtain m' ns where ns: "ms = m' # ns" using ms(2) length_pg_enc [of m] by (cases ms) auto
      have "Some (m, length (pg_enc m)) = Some (m', length (pg_enc m'))"
        using pg_read_enc [OF m(2), of "c @ d @ rest"] pg_read_enc [of fc m' "pg_encs ns"] ms ns by simp
      then have "c @ d @ rest = pg_encs ns" using ms(2) ns by simp
      then show ?thesis using ms(1) ns unfolding well_framed_def by auto
    qed
    ultimately show ?thesis using IH by (simp add: pg_drain.simps [of synced fc buf pd])
  next
    assume short: "length buf < 5 \<or> (\<not> pg_misframed fc buf \<and> length buf < 1 + len_at buf 0)"
    then have "pg_read fc buf = None" by (auto simp: pg_read_def)
    then have "drain (pg_read fc) buf = ([], buf)" by (rule pgr.drain_None)
    then show ?thesis
      using pktNextPG_readable [OF assms(1)] pg_loop_short [OF al short] by (simp add: pg_drain.simps [of synced fc buf pd])
  qed
qed

lemma pg_feed_well_framed:
  assumes "pg_readable synced fc pd" "well_framed fc (buf @ concat segs)"
  shows "pg_feed synced fc buf pd segs = (fst (feed (pg_read fc) buf segs), snd (feed (pg_read fc) buf segs), pd)"
  using assms(2)
proof (induction segs arbitrary: buf)
  case (Cons s segs)
  have w: "well_framed fc ((buf @ s) @ concat segs)" using Cons.prems by simp
  note d = pg_drain_well_framed [OF assms(1) well_framed_prefix [OF w]]
  show ?case using d Cons.IH [of "snd (drain (pg_read fc) (buf @ s))"] w
    by (simp add: split_beta Let_def)
qed simp

text \<open>
  However TCP cuts it into segments, a stream of PostgreSQL messages is framed exactly: for a direction
  whose alignment is known and whose untyped messages are over, taking messages off the buffer segment by
  segment yields the messages that were sent, in order and whole, leaves nothing behind, and the direction
  is never taken to be misframed.
\<close>

theorem pg_stream_exact:
  assumes "pg_readable synced fc pd" "\<forall>m \<in> set ms. pg_msg_ok fc m" "concat segs = pg_encs ms"
  shows "pg_feed synced fc [] pd segs = (ms, [], pd)"
proof -
  have "well_framed fc (concat segs)" unfolding well_framed_def using assms(2,3) by (metis append_Nil2)
  then show ?thesis
    using pg_feed_well_framed [OF assms(1), of "[]" segs] pgr.feed_start [of fc segs] drain_encs [OF assms(2)] assms(3)
    by simp
qed

lemma pg_stream_exact_witness:
  "pg_readable False False (new_pgdir\<lparr>pd_aligned := True\<rparr>)
   \<and> pg_feed False False [] (new_pgdir\<lparr>pd_aligned := True\<rparr>) [[90, 0, 0], [0, 5, 73]] = ([(90, [73])], [], new_pgdir\<lparr>pd_aligned := True\<rparr>)"
proof -
  have r: "pg_readable False False (new_pgdir\<lparr>pd_aligned := True\<rparr>)" by (simp add: pg_readable_def)
  have ok: "\<forall>m \<in> set [(90, [73])]. pg_msg_ok False m"
    by (simp add: pg_msg_ok_def pgMaxMsgLen_def pgKnownType_def)
  have e: "le_enc 4 5 = [5, 0, 0, 0]" by code_simp
  have "concat [[90, 0, 0], [0, 5, 73]] = pg_encs [(90 :: byte, [73])]"
    by (simp add: pg_enc_def e)
  from pg_stream_exact [OF r ok this] r show ?thesis by simp
qed

section \<open>Joining a connection in the middle\<close>

lemma find_first:
  assumes "k < n" "P k" "\<forall>i < k. \<not> P i"
  shows "find P [0..<n] = Some k"
  unfolding find_Some_iff using assms by (intro exI [of _ k]) simp

lemma ready_at_enc:
  assumes "st \<in> {chr CHR ''I'', chr CHR ''T'', chr CHR ''E''}" "buf = g @ pg_enc (chr CHR ''Z'', [st]) @ c"
  shows "ready_at buf (length g)" "length g < length buf - 5"
proof -
  have "le_enc 4 5 = [5, 0, 0, 0]" by code_simp
  then have e: "pg_enc (chr CHR ''Z'', [st]) = [chr CHR ''Z'', 0, 0, 0, 5, st]"
    by (simp add: pg_enc_def)
  have "buf ! length g = chr CHR ''Z''" "buf ! (length g + 5) = st"
    unfolding assms(2) e by (simp_all add: nth_append)
  moreover have "len_at buf (length g) = 5"
    unfolding len_at_def assms(2) e by (simp add: be_u32_def be_nat_def)
  ultimately show "ready_at buf (length g)" using assms(1) by (auto simp: ready_at_def)
  show "length g < length buf - 5" unfolding assms(2) e by simp
qed

lemma pg_drain_anchored:
  assumes "find (anchor_at fc buf) [0..<length buf - 5] = Some k" "\<not> pd_aligned pd"
  shows "pg_drain False fc buf pd = pg_drain False fc (drop k buf) (pd\<lparr>pd_aligned := True\<rparr>)"
proof -
  have "pg_align False fc buf pd = (True, drop k buf, pd\<lparr>pd_aligned := True\<rparr>)"
    using assms by (simp add: pg_align_def pktPGAnchor_def)
  then have "pg_loop False fc buf pd = pg_loop False fc (drop k buf) (pd\<lparr>pd_aligned := True\<rparr>)"
    by (simp add: pg_loop.simps [of False fc buf pd] pg_loop.simps [of False fc "drop k buf" "pd\<lparr>pd_aligned := True\<rparr>"])
  then have "pktNextPG False fc buf pd = pktNextPG False fc (drop k buf) (pd\<lparr>pd_aligned := True\<rparr>)"
    by (simp add: pktNextPG_def)
  then show ?thesis
    by (simp add: pg_drain.simps [of False fc buf pd] pg_drain.simps [of False fc "drop k buf" "pd\<lparr>pd_aligned := True\<rparr>"])
qed

text \<open>
  C10. A capture that joins a connection in the middle reads it from the first unmistakable message on.
  Whatever bytes \<open>g\<close> of an unfinished exchange a server direction starts with, as long as nothing in them
  looks like an anchor, everything from the ReadyForQuery behind them is framed exactly, nothing of \<open>g\<close> is
  reported as a message, and the direction counts as aligned from then on.
\<close>

theorem pg_joins_at_ready_for_query:
  assumes "st \<in> {chr CHR ''I'', chr CHR ''T'', chr CHR ''E''}" "\<forall>m \<in> set ms. pg_msg_ok False m" "\<not> pd_aligned pd"
    "buf = g @ pg_encs ((chr CHR ''Z'', [st]) # ms)" "\<forall>i < length g. \<not> anchor_at False buf i"
  shows "pg_drain False False buf pd = ((chr CHR ''Z'', [st]) # ms, [], pd\<lparr>pd_aligned := True\<rparr>)"
proof -
  let ?z = "(chr CHR ''Z'', [st])" and ?pd = "pd\<lparr>pd_aligned := True\<rparr>"
  have buf: "buf = g @ pg_enc ?z @ pg_encs ms" using assms(4) by simp
  have "find (anchor_at False buf) [0..<length buf - 5] = Some (length g)"
    using ready_at_enc [OF assms(1) buf] assms(5) by (intro find_first) (simp_all add: anchor_at_def)
  then have d: "pg_drain False False buf pd = pg_drain False False (pg_encs (?z # ms)) ?pd"
    using pg_drain_anchored [OF _ assms(3)] assms(4) by simp
  have "chr CHR ''Z'' \<in> set (bytes_of ''RKSZTDCIEnNtsGHWAdcv1233'')" by (simp add: chr_def)
  then have ok: "\<forall>m \<in> set (?z # ms). pg_msg_ok False m"
    using assms(2) by (simp add: pg_msg_ok_def pgMaxMsgLen_def pgKnownType_def)
  then have "well_framed False (pg_encs (?z # ms))" unfolding well_framed_def by (metis append_Nil2)
  moreover have "pg_readable False False ?pd" by (simp add: pg_readable_def)
  ultimately show ?thesis
    unfolding d using pg_drain_well_framed drain_encs [OF ok] by simp
qed

lemma pg_joins_at_ready_for_query_witness:
  "pg_drain False False ([1, 2] @ pg_encs [(chr CHR ''Z'', [chr CHR ''I'']), (chr CHR ''1'', [])]) new_pgdir
     = ([(chr CHR ''Z'', [chr CHR ''I'']), (chr CHR ''1'', [])], [], new_pgdir\<lparr>pd_aligned := True\<rparr>)"
proof -
  have c: "chr CHR ''d'' = 100" "chr CHR ''Z'' = 90" by code_simp+
  have "\<not> anchor_at False ([1, 2] @ t) i" if "i < length ([1, 2] :: bytes)" for t i
    using that c by (auto simp: anchor_at_def copy_at_def ready_at_def less_Suc_eq nth_Cons')
  moreover have "pg_msg_ok False (chr CHR ''1'', [])"
    by (simp add: pg_msg_ok_def pgMaxMsgLen_def pgKnownType_def chr_def)
  ultimately show ?thesis
    by (intro pg_joins_at_ready_for_query [where g = "[1, 2]"]) (auto simp: new_pgdir_def)
qed

end
