(* ===== verification/Pg_Error.thy ===== *)
theory Pg_Error
  imports Mysql_Wire
begin

text \<open>
  PostgreSQL's SQLSTATE codes (\<^verbatim>\<open>src/app/pktpgerr.go\<close>): the catalogue of states, the classes an unknown
  state falls back on, the line of the issues list for an error and for a notice, and the list of states
  offered as a filter. The two Go maps are association lists; no key occurs twice in them.
\<close>

record pgErrEntry =
  ee_name :: string
  ee_issue :: string
  ee_severe :: bool

definition pgErrCatalog :: "(string \<times> pgErrEntry) list" where
  "pgErrCatalog =
     [(''08000'', \<lparr>ee_name = ''connection_exception'', ee_issue = ''Connection exception '' @ em_dash @ '' the connection failed at the protocol level rather than in a statement'', ee_severe = True\<rparr>),
      (''08003'', \<lparr>ee_name = ''connection_does_not_exist'', ee_issue = ''The client used a connection the server had already closed'', ee_severe = True\<rparr>),
      (''08006'', \<lparr>ee_name = ''connection_failure'', ee_issue = ''Connection failure '' @ em_dash @ '' the server ended the connection; the client sees a lost connection, and the reason is on the server side of this capture'', ee_severe = True\<rparr>),
      (''08001'', \<lparr>ee_name = ''sqlclient_unable_to_establish_sqlconnection'', ee_issue = ''The client could not establish a connection at all'', ee_severe = True\<rparr>),
      (''08004'', \<lparr>ee_name = ''sqlserver_rejected_establishment_of_sqlconnection'', ee_issue = ''The server refused the connection '' @ em_dash @ '' pg_hba.conf did not match, or the database/role is not allowed to connect from here'', ee_severe = True\<rparr>),
      (''08007'', \<lparr>ee_name = ''transaction_resolution_unknown'', ee_issue = ''A transaction'' @ [CHR 0x27] @ ''s outcome is unknown '' @ em_dash @ '' the connection broke between COMMIT and its acknowledgement, so whether it committed cannot be told from the client'', ee_severe = True\<rparr>),
      (''08P01'', \<lparr>ee_name = ''protocol_violation'', ee_issue = ''Protocol violation '' @ em_dash @ '' the server could not make sense of the bytes the client sent; a broken driver, a proxy corrupting the stream, or something that is not PostgreSQL talking to the port'', ee_severe = True\<rparr>),
      (''28000'', \<lparr>ee_name = ''invalid_authorization_specification'', ee_issue = ''Authorisation failed '' @ em_dash @ '' no pg_hba.conf line matched this user, database and address, or the role may not log in'', ee_severe = True\<rparr>),
      (''28P01'', \<lparr>ee_name = ''invalid_password'', ee_issue = ''Password authentication failed '' @ em_dash @ '' a wrong password, or a role whose password was never set for the method pg_hba.conf demands'', ee_severe = True\<rparr>),
      (''3D000'', \<lparr>ee_name = ''invalid_catalog_name'', ee_issue = ''The database named at connect time does not exist '' @ em_dash @ '' a typo, a dropped database, or a connection string pointing at the wrong server'', ee_severe = True\<rparr>),
      (''3F000'', \<lparr>ee_name = ''invalid_schema_name'', ee_issue = [], ee_severe = False\<rparr>),
      (''53000'', \<lparr>ee_name = ''insufficient_resources'', ee_issue = ''The server is out of a resource it needs'', ee_severe = True\<rparr>),
      (''53100'', \<lparr>ee_name = ''disk_full'', ee_issue = ''Disk full '' @ em_dash @ '' PostgreSQL cannot write; on the WAL volume this stops every write in the cluster and is often an unconsumed replication slot'', ee_severe = True\<rparr>),
      (''53200'', \<lparr>ee_name = ''out_of_memory'', ee_issue = ''Out of memory '' @ em_dash @ '' the backend could not allocate; work_mem '' @ [CHR 0xC3, CHR 0x97] @ '' concurrency, or a query planning to sort far more than expected'', ee_severe = True\<rparr>),
      (''53300'', \<lparr>ee_name = ''too_many_connections'', ee_issue = ''Too many connections '' @ em_dash @ '' max_connections is full, so new clients are refused while existing ones are unaffected; a connection pool, not a bigger max_connections, is the fix'', ee_severe = True\<rparr>),
      (''53400'', \<lparr>ee_name = ''configuration_limit_exceeded'', ee_issue = ''A configuration limit was hit (prepared transactions, replication slots, locks per transaction)'', ee_severe = True\<rparr>),
      (''55000'', \<lparr>ee_name = ''object_not_in_prerequisite_state'', ee_issue = ''The object is not in a state that allows this '' @ em_dash @ '' a slot in use, a table being altered, a subscription already enabled'', ee_severe = True\<rparr>),
      (''55006'', \<lparr>ee_name = ''object_in_use'', ee_issue = ''The object is in use elsewhere '' @ em_dash @ '' the classic case is DROP DATABASE while a session is still connected to it'', ee_severe = True\<rparr>),
      (''55P02'', \<lparr>ee_name = ''cant_change_runtime_param'', ee_issue = [], ee_severe = False\<rparr>),
      (''55P03'', \<lparr>ee_name = ''lock_not_available'', ee_issue = ''Lock not available '' @ em_dash @ '' a NOWAIT or lock_timeout gave up rather than waiting; something else holds the lock, and on a busy table that something is often an idle-in-transaction session'', ee_severe = True\<rparr>),
      (''57000'', \<lparr>ee_name = ''operator_intervention'', ee_issue = ''The operator intervened '' @ em_dash @ '' the server or the backend was told to stop'', ee_severe = True\<rparr>),
      (''57014'', \<lparr>ee_name = ''query_canceled'', ee_issue = ''Query cancelled '' @ em_dash @ '' statement_timeout expired, a client sent a CancelRequest, or on a standby the query conflicted with recovery'', ee_severe = True\<rparr>),
      (''57P01'', \<lparr>ee_name = ''admin_shutdown'', ee_issue = ''Administrator shutdown '' @ em_dash @ '' the server, or this backend, was terminated deliberately (pg_terminate_backend, a restart, a Patroni failover); every connection sees its own version of this'', ee_severe = True\<rparr>),
      (''57P02'', \<lparr>ee_name = ''crash_shutdown'', ee_issue = ''Crash shutdown '' @ em_dash @ '' another backend crashed, so the server is dropping every connection and going through recovery; the crash itself is in the server log, not in this capture'', ee_severe = True\<rparr>),
      (''57P03'', \<lparr>ee_name = ''cannot_connect_now'', ee_issue = ''The server cannot accept connections yet '' @ em_dash @ '' it is still starting up, is in recovery, or is a standby that has not reached a consistent state; a client retry loop sees this until it clears'', ee_severe = True\<rparr>),
      (''57P04'', \<lparr>ee_name = ''database_dropped'', ee_issue = ''The database this session was using has been dropped'', ee_severe = True\<rparr>),
      (''57P05'', \<lparr>ee_name = ''idle_session_timeout'', ee_issue = ''The session was closed by idle_session_timeout '' @ em_dash @ '' the pool is holding connections open longer than the server will'', ee_severe = True\<rparr>),
      (''58000'', \<lparr>ee_name = ''system_error'', ee_issue = ''A system-level error outside PostgreSQL itself'', ee_severe = True\<rparr>),
      (''58030'', \<lparr>ee_name = ''io_error'', ee_issue = ''I/O error '' @ em_dash @ '' the storage under PostgreSQL failed a read or a write; this is a hardware or filesystem fault, not a query problem'', ee_severe = True\<rparr>),
      (''58P01'', \<lparr>ee_name = ''undefined_file'', ee_issue = ''A file PostgreSQL expected is missing '' @ em_dash @ '' a dropped relation still referenced, or a data directory modified underneath the server'', ee_severe = True\<rparr>),
      (''40000'', \<lparr>ee_name = ''transaction_rollback'', ee_issue = ''The transaction was rolled back by the server'', ee_severe = False\<rparr>),
      (''40001'', \<lparr>ee_name = ''serialization_failure'', ee_issue = ''Serialisation failure '' @ em_dash @ '' two transactions conflicted under REPEATABLE READ or SERIALIZABLE, and this one lost; the application is expected to retry it. On a standby the same code means a query conflicted with WAL replay'', ee_severe = True\<rparr>),
      (''40003'', \<lparr>ee_name = ''statement_completion_unknown'', ee_issue = [], ee_severe = False\<rparr>),
      (''40P01'', \<lparr>ee_name = ''deadlock_detected'', ee_issue = ''Deadlock detected '' @ em_dash @ '' two transactions each held what the other needed and the server broke the cycle by killing this one; deadlock_timeout (1 s by default) is how long it waited before looking'', ee_severe = True\<rparr>),
      (''25001'', \<lparr>ee_name = ''active_sql_transaction'', ee_issue = [], ee_severe = False\<rparr>),
      (''25006'', \<lparr>ee_name = ''read_only_sql_transaction'', ee_issue = ''A write was attempted on a read-only connection '' @ em_dash @ '' almost always traffic reaching a standby: a load balancer routing writes to a replica, a stale DNS record after a failover, or default_transaction_read_only left on'', ee_severe = True\<rparr>),
      (''25P01'', \<lparr>ee_name = ''no_active_sql_transaction'', ee_issue = [], ee_severe = False\<rparr>),
      (''25P02'', \<lparr>ee_name = ''in_failed_sql_transaction'', ee_issue = ''The transaction has already failed, so every statement until ROLLBACK is rejected '' @ em_dash @ '' the application is not checking errors before continuing to send'', ee_severe = True\<rparr>),
      (''25P03'', \<lparr>ee_name = ''idle_in_transaction_session_timeout'', ee_issue = ''The session was killed for sitting idle inside a transaction '' @ em_dash @ '' it was holding locks and blocking VACUUM, and the server gave up on it'', ee_severe = True\<rparr>),
      (''42601'', \<lparr>ee_name = ''syntax_error'', ee_issue = [], ee_severe = False\<rparr>),
      (''42501'', \<lparr>ee_name = ''insufficient_privilege'', ee_issue = ''Permission denied '' @ em_dash @ '' the role lacks the privilege; after a restore or a role change this is what an application failing everywhere looks like'', ee_severe = True\<rparr>),
      (''42P01'', \<lparr>ee_name = ''undefined_table'', ee_issue = [], ee_severe = False\<rparr>),
      (''42703'', \<lparr>ee_name = ''undefined_column'', ee_issue = [], ee_severe = False\<rparr>),
      (''42883'', \<lparr>ee_name = ''undefined_function'', ee_issue = [], ee_severe = False\<rparr>),
      (''42P07'', \<lparr>ee_name = ''duplicate_table'', ee_issue = [], ee_severe = False\<rparr>),
      (''42P05'', \<lparr>ee_name = ''duplicate_prepared_statement'', ee_issue = ''A prepared statement name was reused without being closed '' @ em_dash @ '' a driver-level statement-cache bug, and it fails every execution that follows'', ee_severe = True\<rparr>),
      (''42P02'', \<lparr>ee_name = ''undefined_parameter'', ee_issue = [], ee_severe = False\<rparr>),
      (''42804'', \<lparr>ee_name = ''datatype_mismatch'', ee_issue = [], ee_severe = False\<rparr>),
      (''42P18'', \<lparr>ee_name = ''indeterminate_datatype'', ee_issue = [], ee_severe = False\<rparr>),
      (''23502'', \<lparr>ee_name = ''not_null_violation'', ee_issue = [], ee_severe = False\<rparr>),
      (''23503'', \<lparr>ee_name = ''foreign_key_violation'', ee_issue = [], ee_severe = False\<rparr>),
      (''23505'', \<lparr>ee_name = ''unique_violation'', ee_issue = [], ee_severe = False\<rparr>),
      (''23514'', \<lparr>ee_name = ''check_violation'', ee_issue = [], ee_severe = False\<rparr>),
      (''23P01'', \<lparr>ee_name = ''exclusion_violation'', ee_issue = [], ee_severe = False\<rparr>),
      (''22001'', \<lparr>ee_name = ''string_data_right_truncation'', ee_issue = ''A value was too long for its column '' @ em_dash @ '' the analogue of a client sending more than the column can hold, and a common surprise after a schema change'', ee_severe = False\<rparr>),
      (''22003'', \<lparr>ee_name = ''numeric_value_out_of_range'', ee_issue = [], ee_severe = False\<rparr>),
      (''22012'', \<lparr>ee_name = ''division_by_zero'', ee_issue = [], ee_severe = False\<rparr>),
      (''22P02'', \<lparr>ee_name = ''invalid_text_representation'', ee_issue = [], ee_severe = False\<rparr>),
      (''22023'', \<lparr>ee_name = ''invalid_parameter_value'', ee_issue = [], ee_severe = False\<rparr>),
      (''22P05'', \<lparr>ee_name = ''untranslatable_character'', ee_issue = ''Character encoding mismatch '' @ em_dash @ '' the bytes cannot be represented in the client_encoding this connection asked for'', ee_severe = True\<rparr>),
      (''22021'', \<lparr>ee_name = ''character_not_in_repertoire'', ee_issue = ''Invalid byte sequence for the connection'' @ [CHR 0x27] @ ''s encoding '' @ em_dash @ '' the client is sending one encoding and declaring another'', ee_severe = True\<rparr>),
      (''0A000'', \<lparr>ee_name = ''feature_not_supported'', ee_issue = [], ee_severe = False\<rparr>),
      (''F0000'', \<lparr>ee_name = ''config_file_error'', ee_issue = ''PostgreSQL could not read its own configuration'', ee_severe = True\<rparr>),
      (''XX000'', \<lparr>ee_name = ''internal_error'', ee_issue = ''Internal error '' @ em_dash @ '' PostgreSQL hit a condition it does not have a code for; these belong in a bug report with the server log around them'', ee_severe = True\<rparr>),
      (''XX001'', \<lparr>ee_name = ''data_corrupted'', ee_issue = ''Data corruption reported by the server '' @ em_dash @ '' stop writing and look at the storage; this does not fix itself'', ee_severe = True\<rparr>),
      (''XX002'', \<lparr>ee_name = ''index_corrupted'', ee_issue = ''Index corruption reported by the server '' @ em_dash @ '' a REINDEX may clear it, but find out why first'', ee_severe = True\<rparr>),
      (''P0001'', \<lparr>ee_name = ''raise_exception'', ee_issue = [], ee_severe = False\<rparr>),
      (''P0002'', \<lparr>ee_name = ''no_data_found'', ee_issue = [], ee_severe = False\<rparr>),
      (''P0004'', \<lparr>ee_name = ''assert_failure'', ee_issue = [], ee_severe = False\<rparr>)]"

definition pgClassNames :: "(string \<times> string) list" where
  "pgClassNames =
     [(''00'', ''success''),
      (''01'', ''warning''),
      (''02'', ''no data''),
      (''03'', ''SQL statement not yet complete''),
      (''08'', ''connection exception''),
      (''09'', ''triggered action exception''),
      (''0A'', ''feature not supported''),
      (''0B'', ''invalid transaction initiation''),
      (''0F'', ''locator exception''),
      (''0L'', ''invalid grantor''),
      (''0P'', ''invalid role specification''),
      (''0Z'', ''diagnostics exception''),
      (''20'', ''case not found''),
      (''21'', ''cardinality violation''),
      (''22'', ''data exception''),
      (''23'', ''integrity constraint violation''),
      (''24'', ''invalid cursor state''),
      (''25'', ''invalid transaction state''),
      (''26'', ''invalid SQL statement name''),
      (''27'', ''triggered data change violation''),
      (''28'', ''invalid authorization specification''),
      (''2B'', ''dependent privilege descriptors still exist''),
      (''2D'', ''invalid transaction termination''),
      (''2F'', ''SQL routine exception''),
      (''34'', ''invalid cursor name''),
      (''38'', ''external routine exception''),
      (''39'', ''external routine invocation exception''),
      (''3B'', ''savepoint exception''),
      (''3D'', ''invalid catalog name''),
      (''3F'', ''invalid schema name''),
      (''40'', ''transaction rollback''),
      (''42'', ''syntax error or access rule violation''),
      (''44'', ''WITH CHECK OPTION violation''),
      (''53'', ''insufficient resources''),
      (''54'', ''program limit exceeded''),
      (''55'', ''object not in prerequisite state''),
      (''57'', ''operator intervention''),
      (''58'', ''system error''),
      (''72'', ''snapshot failure''),
      (''F0'', ''configuration file error''),
      (''HV'', ''foreign data wrapper error''),
      (''P0'', ''PL/pgSQL error''),
      (''XX'', ''internal error'')]"


text \<open>
  \<^verbatim>\<open>strings.ToLower\<close> as far as a search for an ASCII word can see: the ASCII letters, and the two other
  characters whose lower case is an ASCII letter (I with a dot and the Kelvin sign).
\<close>

definition lower_rune :: "nat \<Rightarrow> nat option" where
  "lower_rune r =
     Some (if 65 \<le> r \<and> r \<le> 90 then r + 32 else if r = 0x130 then 105 else if r = 0x212a then 107 else r)"

text \<open>
  \<^verbatim>\<open>strings.EqualFold\<close> with an upper-case word that has no \<open>K\<close> and no \<open>S\<close>, the two letters that fold to
  a character outside ASCII.
\<close>

definition go_EqualFold :: "string \<Rightarrow> string \<Rightarrow> bool" where
  "go_EqualFold s word \<longleftrightarrow> map go_upper_char s = word"

definition pg_class :: "string \<Rightarrow> string" where
  "pg_class state = go_Map upper_rune (take 2 state)"

definition pgStateName :: "string \<Rightarrow> string" where
  "pgStateName state =
     (case map_of pgErrCatalog state of
        Some e \<Rightarrow> ee_name e
      | None \<Rightarrow>
          if length state \<ge> 2 then
            (case map_of pgClassNames (pg_class state) of Some cls \<Rightarrow> cls | None \<Rightarrow> [])
          else [])"

text \<open>The states that are read together with the text; \<open>None\<close> where the code goes on below the \<^verbatim>\<open>switch\<close>.\<close>

definition pg_ambiguous :: "string \<Rightarrow> string \<Rightarrow> string \<Rightarrow> string \<Rightarrow> string option" where
  "pg_ambiguous state base low replication =
     (if state = ''57014'' then
        (if go_Contains low ''statement timeout'' then
           Some (''Statement cancelled by statement_timeout '' @ em_dash @ '' the server enforced a limit the application may not know about'')
         else if go_Contains low ''conflict with recovery'' then
           Some (''Query cancelled by conflict with recovery '' @ em_dash @ '' this is a standby, and WAL replay needed rows the query was still reading; max_standby_streaming_delay or hot_standby_feedback decides who wins'')
         else if go_Contains low ''user request'' then
           Some (''Query cancelled at the client'' @ [CHR 0x27] @ ''s request '' @ em_dash @ '' a CancelRequest arrived on a second connection, which is how a client-side timeout or an interrupted session looks on the wire'')
         else if go_Contains low ''lock timeout'' then
           Some (''Statement cancelled by lock_timeout '' @ em_dash @ '' it waited for a lock and gave up'')
         else None)
      else if state = ''40001'' then
        (if go_Contains low ''conflict with recovery'' then
           Some (''Serialisation failure caused by recovery conflict on a standby '' @ em_dash @ '' WAL replay removed rows the query still needed'')
         else None)
      else if state = ''53300'' then
        (if go_Contains low ''max_connections'' \<or> go_Contains low ''connection slots'' then
           Some (base @ ''. Reserved superuser slots are what let an administrator still get in when this happens'')
         else None)
      else if state = ''0A000'' then
        (if go_Contains low ''unsupported frontend protocol'' then
           Some (''The client asked for a protocol version this server does not speak '' @ em_dash @ '' everything from a port scanner to a client built against a much newer libpq; the connection is closed immediately'')
         else None)
      else if state = ''08P01'' then
        (if replication \<noteq> [] then
           Some (''Protocol violation on a replication connection '' @ em_dash @ '' the standby and primary disagree about the stream; a version mismatch or a corrupted slot'')
         else None)
      else if state = ''28000'' then
        (if go_Contains low ''no pg_hba.conf entry'' then
           Some (''No pg_hba.conf entry matched '' @ em_dash @ '' the user, database, source address and requested auth method combination is not allowed; this is a configuration answer, not a password answer'')
         else if go_Contains low ''not permitted to log in'' \<or> go_Contains low ''nologin'' then
           Some (''The role is not permitted to log in (NOLOGIN) '' @ em_dash @ '' it exists for grants, not for sessions'')
         else None)
      else if state = ''3D000'' then
        (if replication = ''logical'' then
           Some (''The database named on a logical replication connection does not exist on this server'')
         else None)
      else None)"

definition pgErrIssue :: "string \<Rightarrow> string \<Rightarrow> string \<Rightarrow> string" where
  "pgErrIssue state msg replication =
     (let base = (case map_of pgErrCatalog state of Some e \<Rightarrow> ee_issue e | None \<Rightarrow> []) in
      case pg_ambiguous state base (go_Map lower_rune msg) replication of
        Some s \<Rightarrow> s
      | None \<Rightarrow>
          if base \<noteq> [] then base
          else if length state \<ge> 2 \<and> pg_class state \<in> set [''08'', ''53'', ''57'', ''58'', ''XX'', ''F0''] then
            (case map_of pgClassNames (pg_class state) of
               Some cls \<Rightarrow> state @ '' ('' @ cls @ '') '' @ em_dash @ '' '' @ pktEllipsis (pktPrintable msg) 100
             | None \<Rightarrow> [])
          else [])"

text \<open>\<open>upper\<close> stands for \<^verbatim>\<open>strings.ToUpper\<close> on a severity, whose result is shown.\<close>

definition pgNoticeIssue :: "(string \<Rightarrow> string) \<Rightarrow> string \<Rightarrow> string \<Rightarrow> string" where
  "pgNoticeIssue upper severity msg =
     (let low = go_Map lower_rune msg in
      if go_Contains low ''terminating connection due to administrator command'' then
        ''The server is terminating this connection on an administrator'' @ [CHR 0x27] @ ''s instruction '' @ em_dash @ '' a restart, a pg_terminate_backend, or a Patroni-driven role change''
      else if go_Contains low ''shutting down'' \<or> go_Contains low ''shutdown'' then
        ''The server is shutting down '' @ em_dash @ '' every connection is about to end, and connection failures after this point are consequences rather than separate faults''
      else if go_Contains low ''conflict with recovery'' then
        ''Recovery conflict on a standby '' @ em_dash @ '' WAL replay is contending with queries that are still reading''
      else if go_Contains low ''checkpoints are occurring too frequently'' then
        ''Checkpoints are occurring too frequently '' @ em_dash @ '' max_wal_size is too small for the write rate, and the resulting I/O shows up as latency in this capture''
      else if go_EqualFold severity ''FATAL'' \<or> go_EqualFold severity ''PANIC'' then
        upper severity @ '' notice: '' @ pktEllipsis (pktPrintable msg) 120
      else [])"

definition pgSevereStates :: "string list" where
  "pgSevereStates = sort (map (\<lambda>(state, e). state @ '' '' @ ee_name e) (filter (\<lambda>(state, e). ee_severe e) pgErrCatalog))"

section \<open>What an error is called\<close>

lemma pgErrCatalog_distinct: "distinct (map fst pgErrCatalog)"
  by code_simp

lemma pgClassNames_distinct: "distinct (map fst pgClassNames)"
  by code_simp

text \<open>A state of the catalogue that counts as severe always gets a line in the issues, whatever the text says.\<close>

lemma severe_has_issue: "\<forall>(state, e) \<in> set pgErrCatalog. ee_severe e \<longrightarrow> ee_issue e \<noteq> []"
  by code_simp

lemma if_noteq: "x \<noteq> z \<Longrightarrow> y \<noteq> z \<Longrightarrow> (if b then x else y) \<noteq> z"
  by simp

lemma pg_ambiguous_nonempty: "pg_ambiguous state base low replication \<noteq> Some []"
  unfolding pg_ambiguous_def by (intro if_noteq) simp_all

lemma pgErrIssue_severe:
  assumes "map_of pgErrCatalog state = Some e" "ee_severe e"
  shows "pgErrIssue state msg replication \<noteq> []"
proof -
  have "(state, e) \<in> set pgErrCatalog" using assms(1) by (rule map_of_SomeD)
  with severe_has_issue assms(2) have "ee_issue e \<noteq> []" by blast
  then show ?thesis
    using assms(1) pg_ambiguous_nonempty [of state "ee_issue e" "go_Map lower_rune msg" replication]
    by (cases "pg_ambiguous state (ee_issue e) (go_Map lower_rune msg) replication") (auto simp: pgErrIssue_def)
qed

end
