(* ===== verification/Pg_Decode.thy ===== *)
theory Pg_Decode
  imports Pg_Wire Pg_Error Mysql_Decode
begin

text \<open>
  The PostgreSQL decoder (\<^verbatim>\<open>src/app/pktpg.go\<close>): what each client and server message does to a connection
  and to the line of the frame that completes it. The framing is in the theory \<open>Pg_Wire\<close>, the catalogue of
  errors in \<open>Pg_Error\<close>.

  Every message function returns the line, the frame and the connection. Four parts of Go's library whose
  results are only shown stand in the record \<open>pg_lib\<close>: \<^verbatim>\<open>strconv.Quote\<close>, \<^verbatim>\<open>strings.ToUpper\<close>, and the
  renderings of a duration (in nanoseconds) as a number of milliseconds or seconds computed in \<^verbatim>\<open>float64\<close>.
  Comparisons of durations with a limit are exact on the nanoseconds.
\<close>

record pg_lib =
  lib_Quote :: "string \<Rightarrow> string"
  lib_ToUpper :: "string \<Rightarrow> string"
  lib_ms0 :: "int \<Rightarrow> string"
  lib_ms1 :: "int \<Rightarrow> string"
  lib_s0 :: "int \<Rightarrow> string"

definition pgIdleInTxSeconds :: nat where "pgIdleInTxSeconds = 10"
definition pgLagBytes :: nat where "pgLagBytes = push_bit 24 1"
definition pgParseRepeat :: nat where "pgParseRepeat = 20"

section \<open>Strings and numbers in a message\<close>

definition indexByte :: "bytes \<Rightarrow> byte \<Rightarrow> nat option" where
  "indexByte b c = (let i = length (takeWhile (\<lambda>x. x \<noteq> c) b) in if i < length b then Some i else None)"

definition pgString :: "bytes \<Rightarrow> string" where
  "pgString b = (case indexByte b 0 of Some i \<Rightarrow> str (take i b) | None \<Rightarrow> str b)"

definition pgTakeString :: "bytes \<Rightarrow> string \<times> bytes" where
  "pgTakeString b = (case indexByte b 0 of Some i \<Rightarrow> (str (take i b), drop (i + 1) b) | None \<Rightarrow> (str b, []))"

lemma pgTakeString_rest: "length (snd (pgTakeString b)) \<le> length b - 1"
  by (cases b) (auto simp: pgTakeString_def split: option.split)

lemma pgTakeString_shorter: "b \<noteq> [] \<Longrightarrow> length (snd (pgTakeString b)) < length b"
  using pgTakeString_rest [of b] by (cases b) auto

function pgStringList :: "bytes \<Rightarrow> string list" where
  "pgStringList b =
     (if b = [] then []
      else let (s, rest) = pgTakeString b in if s = [] then [] else s # pgStringList rest)"
  by pat_completeness auto
termination
proof (relation "measure length", goal_cases)
  case (2 b x s rest)
  then show ?case using pgTakeString_shorter [of b] by (metis in_measure snd_conv)
qed simp

declare pgStringList.simps [simp del]

text \<open>The code makes two-element slices; the third of a pair is always there, so they are pairs here.\<close>

function pgStrings :: "bytes \<Rightarrow> (string \<times> string) list" where
  "pgStrings b =
     (if b = [] then []
      else
        let (k, rest) = pgTakeString b in
        if k = [] then []
        else let (v, rest2) = pgTakeString rest in (k, v) # pgStrings rest2)"
  by pat_completeness auto
termination
proof (relation "measure length", goal_cases)
  case (2 b x k rest x' v rest2)
  have "length rest < length b" using 2 pgTakeString_shorter [of b] by (metis snd_conv)
  moreover have "length rest2 \<le> length rest - 1" using 2 pgTakeString_rest [of rest] by (metis snd_conv)
  ultimately show ?case by simp
qed simp

declare pgStrings.simps [simp del]

function pgFields :: "bytes \<Rightarrow> (byte \<times> string) list" where
  "pgFields b =
     (if b = [] \<or> b ! 0 = 0 then []
      else let (s, rest) = pgTakeString (drop 1 b) in (b ! 0, s) # pgFields rest)"
  by pat_completeness auto
termination
proof (relation "measure length", goal_cases)
  case (2 b x s rest)
  have "length rest \<le> length (drop 1 b) - 1" using 2 pgTakeString_rest [of "drop 1 b"] by (metis snd_conv)
  then show ?case using 2 by (cases b) auto
qed simp

declare pgFields.simps [simp del]

text \<open>The names of at most \<open>n\<close> columns, eight of them kept.\<close>

fun row_names :: "nat \<Rightarrow> bytes \<Rightarrow> string list \<Rightarrow> string list" where
  "row_names 0 b names = names"
| "row_names (Suc n) b names =
     (if b = [] then names
      else
        let (name, rest) = pgTakeString b in
        if length rest < 18 then names
        else row_names n (drop 18 rest) (if length names < 8 then names @ [name] else names))"

definition pgRowDescription :: "bytes \<Rightarrow> nat \<times> string list" where
  "pgRowDescription b =
     (if length b < 2 then (0, [])
      else
        let n = be_u16 b; names = row_names n (drop 2 b) []
        in (n, if n > length names \<and> length names = 8 then names @ [ellipsis] else names))"

fun bind_params :: "nat \<Rightarrow> bytes \<Rightarrow> int \<Rightarrow> int" where
  "bind_params 0 b largest = largest"
| "bind_params (Suc n) b largest =
     (if length b < 4 then largest
      else
        let l = sint (of_nat (be_u32 b) :: 32 word) in
        if l < 0 then bind_params n (drop 4 b) largest
        else if int (length b - 4) < l then max largest l
        else bind_params n (drop (4 + nat l) b) (max largest l))"

definition pgBindParams :: "bytes \<Rightarrow> nat \<times> int" where
  "pgBindParams b =
     (if length b < 2 then (0, 0)
      else
        let nf = be_u16 b; b1 = drop 2 b in
        if length b1 < nf * 2 + 2 then (0, 0)
        else let b2 = drop (nf * 2) b1; n = be_u16 b2 in (n, bind_params n (drop 2 b2) 0))"

text \<open>\<^verbatim>\<open>strconv.Atoi\<close> on the last word of a tag.\<close>

definition pgTagRows :: "string \<Rightarrow> int" where
  "pgTagRows tag =
     (let parts = go_Fields tag in
      if parts = [] then 0 else case go_ParseInt (last parts) of Some n \<Rightarrow> n | None \<Rightarrow> 0)"

definition pgNameOr :: "pg_lib \<Rightarrow> string \<Rightarrow> string \<Rightarrow> string" where
  "pgNameOr lib s alt =
     (if s = [] then alt
      else lib_Quote lib (if length s > 22 then take 20 s @ ellipsis else s))"

definition pgOr :: "string \<Rightarrow> string \<Rightarrow> string" where
  "pgOr s alt = (if go_TrimSpace s = [] then alt else s)"

text \<open>\<^verbatim>\<open>string(rune(typ))\<close> in a \<^verbatim>\<open>%q\<close>.\<close>

definition quote_byte :: "pg_lib \<Rightarrow> byte \<Rightarrow> string" where
  "quote_byte lib t = lib_Quote lib (go_EncodeRune (unat t))"

text \<open>\<^verbatim>\<open>%X\<close>, upper-case hexadecimal without leading zeros.\<close>

definition upper_hex :: "nat \<Rightarrow> char" where
  "upper_hex d = char_of (if d < 10 then 48 + d else 55 + d)"

fun go_X :: "nat \<Rightarrow> string" where
  "go_X n = (if n < 16 then [upper_hex n] else go_X (n div 16) @ [upper_hex (n mod 16)])"

declare go_X.simps [simp del]

definition pgLSN :: "64 word \<Rightarrow> string" where
  "pgLSN v = go_X (unat (drop_bit 32 v)) @ ''/'' @ go_X (unat (v AND 0xffffffff))"

definition be_u64 :: "bytes \<Rightarrow> 64 word" where
  "be_u64 b = of_nat (be_nat (take 8 b))"

text \<open>
  \<^verbatim>\<open>pktBytes(int(v))\<close> for a 64-bit difference: a value above \<open>2 ^ 63\<close> becomes negative, and \<^verbatim>\<open>float64(n)\<close>
  keeps 53 bits of one above \<open>2 ^ 53\<close>.
\<close>

fun bit_len :: "nat \<Rightarrow> nat" where
  "bit_len n = (if n = 0 then 0 else Suc (bit_len (n div 2)))"

declare bit_len.simps [simp del]

definition go_float64 :: "nat \<Rightarrow> nat" where
  "go_float64 n = (let k = bit_len n - 53 in go_round_div n (2 ^ k) * 2 ^ k)"

definition bytes64 :: "64 word \<Rightarrow> string" where
  "bytes64 v = (let i = sint v in if i < 0 then go_Itoa i @ '' B'' else pktBytes (go_float64 (nat i)))"

section \<open>The state a message works on\<close>

type_synonym pg_out = "string \<times> pktPacket \<times> pktConn"

text \<open>The PostgreSQL state of the direction a message travels in.\<close>

definition pg_dir :: "bool \<Rightarrow> pktConn \<Rightarrow> pktPGDir" where
  "pg_dir fromClient c = ds_pg (dir_of fromClient c)"

definition set_pg_dir :: "bool \<Rightarrow> pktPGDir \<Rightarrow> pktConn \<Rightarrow> pktConn" where
  "set_pg_dir fromClient pd c = set_dir fromClient ((dir_of fromClient c)\<lparr>ds_pg := pd\<rparr>) c"

definition set_pg :: "pktPGConn \<Rightarrow> pktConn \<Rightarrow> pktConn" where
  "set_pg pc c = c\<lparr>c_pg := pc\<rparr>"

definition pgCycleStart :: "int \<Rightarrow> string \<Rightarrow> pktPGConn \<Rightarrow> pktPGConn" where
  "pgCycleStart ts what pc =
     (if \<not> pc_cycleOpen pc then pc\<lparr>pc_cycleOpen := True, pc_cycleTS := ts, pc_cycleWhat := what\<rparr> else pc)"

definition pgIdleCheck :: "pg_lib \<Rightarrow> int \<Rightarrow> pktPacket \<Rightarrow> pktPGConn \<Rightarrow> pktPacket \<times> pktPGConn" where
  "pgIdleCheck lib ts p pc =
     (if pc_txStatus pc \<noteq> chr CHR ''T'' \<or> pc_txSince pc = zero_time \<or> pc_idleNoted pc then (p, pc)
      else
        let idle = go_Sub ts (pc_txSince pc) in
        if idle \<ge> int pgIdleInTxSeconds * 10 ^ 9 then
          (add_issue (''Idle in transaction for '' @ lib_s0 lib idle @
             '' s before this message '' @ em_dash @ '' the snapshot and every lock it took were held for that whole time, and VACUUM could not clean up behind it'') p,
           pc\<lparr>pc_idleNoted := True\<rparr>)
        else (p, pc))"

section \<open>Replication\<close>

definition pgReplicationCommand :: "string \<Rightarrow> string" where
  "pgReplicationCommand sql =
     (let u = go_Map upper_rune (go_TrimSpace sql);
          kind = (if go_Contains u ''LOGICAL'' then ''logical'' else ''physical'') in
      if go_HasPrefix u ''IDENTIFY_SYSTEM'' then ''physical''
      else if go_HasPrefix u ''START_REPLICATION'' then kind
      else if go_HasPrefix u ''CREATE_REPLICATION_SLOT'' then kind
      else if go_HasPrefix u ''BASE_BACKUP'' then ''physical''
      else [])"

definition pgReplicationIssue :: "string \<Rightarrow> string \<Rightarrow> string" where
  "pgReplicationIssue sql kind =
     (let u = go_Map upper_rune (go_TrimSpace sql) in
      if go_HasPrefix u ''BASE_BACKUP'' then
        ''BASE_BACKUP started '' @ em_dash @ '' a new standby is cloning this server'' @ [CHR 0x27] @ ''s entire data directory over this connection, the PostgreSQL equivalent of a full state transfer''
      else if go_HasPrefix u ''START_REPLICATION'' then
        ''START_REPLICATION ('' @ kind @ '') '' @ em_dash @ '' WAL now streams continuously on this connection; its LSNs are what make lag measurable from a capture''
      else if go_HasPrefix u ''CREATE_REPLICATION_SLOT'' then
        ''CREATE_REPLICATION_SLOT '' @ em_dash @ '' a slot now holds WAL for this consumer; if the consumer stops and the slot is not dropped, the primary'' @ [CHR 0x27] @ ''s disk fills''
      else ''Replication command: '' @ pktEllipsis sql 90)"

definition pgAdoptReplication :: "pktPGConn \<Rightarrow> bytes \<Rightarrow> bool \<times> pktPGConn" where
  "pgAdoptReplication pc body =
     (if pc_replication pc \<noteq> [] then (True, pc)
      else if body = [] \<or> \<not> pgReplSubtypeLen (body ! 0) (length body + 4) then (False, pc)
      else (True, pc\<lparr>pc_replication := ''physical'', pc_adopted := True\<rparr>))"

text \<open>A message of the logical-decoding plugin; the empty line when it is not recognised.\<close>

definition pgLogicalMessage :: "pktPGConn \<Rightarrow> bytes \<Rightarrow> string \<times> pktPGConn" where
  "pgLogicalMessage pc b =
     (if b = [] then ([], pc)
      else if b ! 0 = chr CHR ''B'' then
        (if length b \<ge> 21 then
           ''BEGIN xid '' @ go_utoa (be_u32 (drop 17 b)) @ '' at '' @ pgLSN (be_u64 (drop 1 b))
         else ''BEGIN'', pc)
      else if b ! 0 = chr CHR ''C'' then
        (if length b \<ge> 26 then ''COMMIT at '' @ pgLSN (be_u64 (drop 9 b)) else ''COMMIT'', pc)
      else if b ! 0 = chr CHR ''R'' then
        (if length b \<ge> 6 then
           let (schema, rest) = pgTakeString (drop 5 b); (table, _) = pgTakeString rest; name = schema @ ''.'' @ table
           in (''relation '' @ name, pc\<lparr>pc_relations := (pc_relations pc)(be_u32 (drop 1 b) \<mapsto> name)\<rparr>)
         else (''relation'', pc))
      else if b ! 0 = chr CHR ''I'' \<or> b ! 0 = chr CHR ''U'' \<or> b ! 0 = chr CHR ''D'' then
        (let op = (if b ! 0 = chr CHR ''I'' then ''INSERT'' else if b ! 0 = chr CHR ''U'' then ''UPDATE'' else ''DELETE'');
             name = (if length b \<ge> 5 then case pc_relations pc (be_u32 (drop 1 b)) of Some n \<Rightarrow> n | None \<Rightarrow> [] else [])
         in (if name \<noteq> [] then op @ '' on '' @ name else op, pc))
      else if b ! 0 = chr CHR ''T'' then (''TRUNCATE'', pc)
      else if b ! 0 = chr CHR ''M'' then (''logical message'', pc)
      else if b ! 0 = chr CHR ''O'' then (''origin'', pc)
      else if b ! 0 = chr CHR ''S'' then (''stream start'', pc)
      else ([], pc))"

text \<open>The primary's half of a replication stream.\<close>

definition wal_data :: "pktPGConn \<Rightarrow> bytes \<Rightarrow> string \<times> pktPGConn" where
  "wal_data pc body =
     (let start = be_u64 (drop 1 body); upto = be_u64 (drop 9 body); wal = drop 25 body;
          pc1 = (if upto > pc_sentLSN pc then pc\<lparr>pc_sentLSN := upto\<rparr>
                 else if start > pc_sentLSN pc then pc\<lparr>pc_sentLSN := start\<rparr> else pc);
          (info, pc2) = (if pc_replication pc1 = ''logical'' \<or> pc_adopted pc1 then pgLogicalMessage pc1 wal else ([], pc1))
      in if info \<noteq> [] then
           (''XLogData at '' @ pgLSN start @ '': '' @ info,
            if pc_adopted pc2 \<and> pc_replication pc2 \<noteq> ''logical'' then pc2\<lparr>pc_replication := ''logical''\<rparr> else pc2)
         else (''XLogData: '' @ pktBytes (length wal) @ '' WAL at '' @ pgLSN start, pc2))"

definition pgWALMessage :: "pg_lib \<Rightarrow> int \<Rightarrow> pktPacket \<Rightarrow> pktPGConn \<Rightarrow> bytes \<Rightarrow> string \<times> pktPacket \<times> pktPGConn" where
  "pgWALMessage lib ts p pc body =
     (if body = [] then ([], p, pc)
      else if body ! 0 = chr CHR ''w'' then
        (if length body < 25 then (''XLogData (truncated)'', p, pc)
         else let (info, pc1) = wal_data pc body in (info, p, pc1))
      else if body ! 0 = chr CHR ''k'' then
        (if length body < 18 then (''Primary keepalive (truncated)'', p, pc)
         else
           let walEnd = be_u64 (drop 1 body);
               pc1 = (if walEnd > pc_sentLSN pc then pc\<lparr>pc_sentLSN := walEnd\<rparr> else pc);
               silent = go_Sub ts (pc_lastStandbyReply pc)
           in (''Primary keepalive: WAL end '' @ pgLSN walEnd @ (if body ! 17 \<noteq> 0 then '', reply requested'' else []),
               (if body ! 17 \<noteq> 0 \<and> pc_lastStandbyReply pc \<noteq> zero_time \<and> silent > 30 * 10 ^ 9 then
                  add_issue (''The primary is asking the standby to reply and has not heard from it for '' @ lib_s0 lib silent @
                    '' s '' @ em_dash @ '' wal_receiver_status_interval has passed with no answer, which is what precedes a dropped replication connection'') p
                else p),
               pc1))
      else (''Replication message '' @ quote_byte lib (body ! 0) @ '', '' @ go_utoa (length body) @ '' bytes'', p, pc))"

text \<open>The standby's half, which carries what it has written, flushed and applied.\<close>

definition standby_status :: "int \<Rightarrow> pktPacket \<Rightarrow> pktPGConn \<Rightarrow> bytes \<Rightarrow> string \<times> pktPacket \<times> pktPGConn" where
  "standby_status ts p pc body =
     (let write = be_u64 (drop 1 body); flush = be_u64 (drop 9 body); apl = be_u64 (drop 17 body);
          pc1 = pc\<lparr>pc_flushLSN := flush, pc_applyLSN := apl, pc_lastStandbyReply := ts\<rparr>;
          out = ''Standby status: write '' @ pgLSN write @ '', flush '' @ pgLSN flush @ '', apply '' @ pgLSN apl
      in if pc_sentLSN pc > flush then
           let behind = pc_sentLSN pc - flush; out1 = out @ '', '' @ bytes64 behind @ '' behind'' in
           if behind \<ge> of_nat pgLagBytes \<and> \<not> pc_lagNoted pc then
             (out1,
              add_issue (''Replication lag '' @ bytes64 behind @ '' '' @ em_dash @ '' the standby has flushed '' @ pgLSN flush @
                '' but the primary has sent up to '' @ pgLSN (pc_sentLSN pc) @
                ''; a synchronous standby this far behind stalls commits on the primary'') p,
              pc1\<lparr>pc_lagNoted := True\<rparr>)
           else (out1, p, pc1)
         else (out, p, pc1))"

definition pgStandbyMessage :: "pg_lib \<Rightarrow> int \<Rightarrow> pktPacket \<Rightarrow> pktPGConn \<Rightarrow> bytes \<Rightarrow> string \<times> pktPacket \<times> pktPGConn" where
  "pgStandbyMessage lib ts p pc body =
     (if body = [] then ([], p, pc)
      else if body ! 0 = chr CHR ''r'' then
        (if length body < 34 then (''Standby status update (truncated)'', p, pc)
         else standby_status ts p pc body)
      else if body ! 0 = chr CHR ''h'' then
        (if length body < 13 then (''Hot standby feedback (truncated)'', p, pc)
         else (''Hot standby feedback: xmin '' @ go_utoa (be_u32 (drop 9 body)), p, pc))
      else (''Standby message '' @ quote_byte lib (body ! 0) @ '', '' @ go_utoa (length body) @ '' bytes'', p, pc))"

section \<open>Client to server\<close>

definition pktPGStartup :: "pktPacket \<Rightarrow> pktConn \<Rightarrow> nat \<Rightarrow> bytes \<Rightarrow> pg_out" where
  "pktPGStartup p c code body =
     (let major = code div 2 ^ 16; minor = code mod 2 ^ 16;
          param = (\<lambda>k. case map_of (rev (pgStrings (drop 4 body))) k of Some v \<Rightarrow> v | None \<Rightarrow> []);
          user = param ''user'';
          database = (if param ''database'' = [] then user else param ''database'');
          pc = c_pg c;
          repl = (if param ''replication'' \<in> set [''true'', ''on'', ''yes'', ''1''] then ''physical''
                  else if param ''replication'' = ''database'' then ''logical'' else pc_replication pc);
          app = param ''application_name'';
          out = ''StartupMessage '' @ go_utoa major @ ''.'' @ go_utoa minor @ '': user='' @ user @ '' database='' @ database
            @ (if app \<noteq> [] then '' application_name='' @ app else [])
            @ (if repl \<noteq> [] then '' replication='' @ repl else []);
          p1 = p\<lparr>p_Command := ''StartupMessage''\<rparr>;
          p2 = (if repl \<noteq> [] then
                  add_issue (''Replication connection ('' @ repl @ '') '' @ em_dash @ '' this is a standby or a logical subscriber attaching, not application traffic'') p1
                else p1);
          c1 = set_pg (pc\<lparr>pc_startupSeen := True, pc_replication := repl\<rparr>) (c\<lparr>c_user := user, c_database := database\<rparr>)
      in if code = pgProtocol31 \<or> (major = 3 \<and> minor > 0) then (out @ '' (a newer minor protocol was requested)'', p2, c1)
         else if major \<noteq> 3 then
           (''StartupMessage with protocol '' @ go_utoa major @ ''.'' @ go_utoa minor @ '' '' @ em_dash @ '' not a version this server can speak'',
            add_issue (''Unrecognised protocol version '' @ go_utoa major @ ''.'' @ go_utoa minor @
              '' in a startup message '' @ em_dash @ '' a port scanner, a health check speaking the wrong protocol, or a client pointed at the wrong port; the server answers 0A000 and closes'') p2,
            c1)
         else (out, p2, c1))"

text \<open>The untyped first message.\<close>

definition pg_first :: "pktPacket \<Rightarrow> pktConn \<Rightarrow> bytes \<Rightarrow> pg_out" where
  "pg_first p c body =
     (if length body < 4 then (''Malformed first message'', p, c)
      else
        let code = be_u32 body in
        if code = pgSSLRequest then
          (''SSLRequest '' @ em_dash @ '' asking whether the server will speak TLS'', p\<lparr>p_Command := ''SSLRequest''\<rparr>,
           set_pg ((c_pg c)\<lparr>pc_sslRequested := True\<rparr>) c)
        else if code = pgGSSENCRequest then
          (''GSSENCRequest '' @ em_dash @ '' asking for GSSAPI encryption'', p\<lparr>p_Command := ''GSSENCRequest''\<rparr>,
           set_pg ((c_pg c)\<lparr>pc_gssRequested := True\<rparr>) c)
        else if code = pgCancelRequest then
          let pid = (if length body \<ge> 12 then be_u32 (drop 4 body) else 0) in
          (''CancelRequest for pid '' @ go_utoa pid,
           add_issue (''Query cancellation requested for backend pid '' @ go_utoa pid @
             '' '' @ em_dash @ '' a client timeout, a user interrupt, or statement_timeout on the client side; the running statement ends with 57014 query_canceled'')
             (p\<lparr>p_Command := ''CancelRequest''\<rparr>),
           set_pg ((c_pg c)\<lparr>pc_cancel := True\<rparr>) c)
        else pktPGStartup p c code body)"

definition pgPasswordInfo :: "pktPGConn \<Rightarrow> bytes \<Rightarrow> string" where
  "pgPasswordInfo pc body =
     (if go_HasPrefix (pc_authMethod pc) ''SCRAM'' then
        (if body \<noteq> [] \<and> chr CHR ''A'' \<le> body ! 0 \<and> body ! 0 \<le> chr CHR ''Z'' then
           ''SASLInitialResponse: '' @ fst (pgTakeString body)
         else ''SASLResponse, '' @ go_utoa (length body) @ '' bytes'')
      else if pc_authMethod pc = ''cleartext password'' then ''PasswordMessage (cleartext)''
      else if pc_authMethod pc = ''MD5 password'' then ''PasswordMessage (md5 hash)''
      else if go_HasPrefix (pc_authMethod pc) ''GSSAPI'' \<or> go_HasPrefix (pc_authMethod pc) ''SSPI'' then
        ''GSSResponse, '' @ go_utoa (length body) @ '' bytes''
      else ''PasswordMessage, '' @ go_utoa (length body) @ '' bytes'')"

text \<open>What a Query and an Execute count, and what every request does to the cycle.\<close>

definition pg_request :: "int \<Rightarrow> string \<Rightarrow> bool \<Rightarrow> pktConn \<Rightarrow> pktConn" where
  "pg_request ts what counted c =
     (if counted then
        set_pg (pgCycleStart ts what ((c_pg c)\<lparr>pc_queries := pc_queries (c_pg c) + 1\<rparr>)) (c\<lparr>c_Queries := c_Queries c + 1\<rparr>)
      else set_pg (pgCycleStart ts what (c_pg c)) c)"

definition pg_query :: "int \<Rightarrow> pktPacket \<Rightarrow> pktConn \<Rightarrow> bytes \<Rightarrow> pg_out" where
  "pg_query ts p c body =
     (let sql = pktCleanSQL (pgString body); c1 = pg_request ts ''query'' True c;
          p1 = p\<lparr>p_Command := ''Query'', p_Query := sql\<rparr>; r = pgReplicationCommand sql
      in (''Query: '' @ pktEllipsis sql 160,
          if r \<noteq> [] then add_issue (pgReplicationIssue sql r) p1 else p1,
          if r \<noteq> [] then set_pg ((c_pg c1)\<lparr>pc_replication := r\<rparr>) c1 else c1))"

text \<open>The unnamed statement, counted while its text stays the same.\<close>

definition pg_reparse :: "string \<Rightarrow> pktPGDir \<Rightarrow> pktPGDir" where
  "pg_reparse sql pd =
     (if pd_lastParse pd = sql then pd\<lparr>pd_parseRuns := pd_parseRuns pd + 1\<rparr>
      else pd\<lparr>pd_lastParse := sql, pd_parseRuns := 1\<rparr>)"

definition pg_parse :: "pg_lib \<Rightarrow> int \<Rightarrow> pktPacket \<Rightarrow> pktConn \<Rightarrow> bytes \<Rightarrow> pg_out" where
  "pg_parse lib ts p c body =
     (let (name, rest) = pgTakeString body; sql = pktCleanSQL (pgString rest);
          c1 = pg_request ts ''parse'' False c
      in if name \<noteq> [] then
           (''Parse '' @ lib_Quote lib name @ '': '' @ pktEllipsis sql 130,
            p\<lparr>p_Command := ''Parse'', p_Query := sql\<rparr>,
            set_pg ((c_pg c1)\<lparr>pc_statements := (pc_statements (c_pg c1))(name \<mapsto> sql)\<rparr>) c1)
         else
           let pd = pg_reparse sql (pg_dir True c1);
               p1 = (if pd_parseRuns pd = pgParseRepeat then
                       add_issue (''The same statement has been parsed '' @ go_utoa pgParseRepeat @
                         '' times as an unnamed prepared statement '' @ em_dash @ '' every execution is being re-planned; a named statement (or the driver'' @ [CHR 0x27] @ ''s prepared-statement cache) would plan it once'') p
                     else p)
           in (''Parse (unnamed): '' @ pktEllipsis sql 140, p1\<lparr>p_Command := ''Parse'', p_Query := sql\<rparr>, set_pg_dir True pd c1))"

definition pg_bind :: "pg_lib \<Rightarrow> int \<Rightarrow> pktPacket \<Rightarrow> pktConn \<Rightarrow> bytes \<Rightarrow> pg_out" where
  "pg_bind lib ts p c body =
     (let (portal, rest) = pgTakeString body; (stmt, rest2) = pgTakeString rest; (params, big) = pgBindParams rest2;
          c1 = pg_request ts ''bind'' False c; p1 = p\<lparr>p_Command := ''Bind''\<rparr>
      in (''Bind '' @ pgNameOr lib stmt ''unnamed statement'' @ '' '' @ right_arrow @ '' portal ''
            @ pgNameOr lib portal ''unnamed portal'' @ '', '' @ go_utoa params @ '' parameter(s)''
            @ (if big > 0 then '', largest '' @ pktBytes (nat big) else []),
          (case pc_statements (c_pg c1) stmt of
             Some sql \<Rightarrow> if stmt \<noteq> [] then p1\<lparr>p_Query := sql\<rparr> else p1
           | None \<Rightarrow> p1),
          c1))"

text \<open>Describe and Close name a statement or a portal.\<close>

definition pg_target :: "pg_lib \<Rightarrow> string \<Rightarrow> bytes \<Rightarrow> string" where
  "pg_target lib verb body =
     (if body \<noteq> [] then
        verb @ '' '' @ (if body ! 0 = chr CHR ''P'' then ''portal'' else ''statement'') @ '' ''
          @ pgNameOr lib (pgString (drop 1 body)) ''unnamed''
      else verb)"

definition pg_execute :: "pg_lib \<Rightarrow> int \<Rightarrow> pktPacket \<Rightarrow> pktConn \<Rightarrow> bytes \<Rightarrow> pg_out" where
  "pg_execute lib ts p c body =
     (let (portal, rest) = pgTakeString body; limit = (if length rest \<ge> 4 then be_u32 rest else 0)
      in (''Execute portal '' @ pgNameOr lib portal ''unnamed''
            @ (if limit > 0 then '', at most '' @ go_utoa limit @ '' row(s)'' else []),
          p\<lparr>p_Command := ''Execute''\<rparr>, pg_request ts ''execute'' True c))"

text \<open>COPY data in either direction: counted, and handed on when it belongs to a replication stream.\<close>

definition pg_copied :: "bool \<Rightarrow> pktConn \<Rightarrow> bytes \<Rightarrow> bool \<times> pktConn" where
  "pg_copied fromClient c body =
     (let pd = pg_dir fromClient c;
          c1 = set_pg_dir fromClient (pd\<lparr>pd_copyBytes := pd_copyBytes pd + length body\<rparr>) c;
          (ok, pc) = pgAdoptReplication (c_pg c1) body
      in (ok, set_pg pc c1))"

definition pg_copy_end :: "bool \<Rightarrow> pktConn \<Rightarrow> pktConn" where
  "pg_copy_end fromClient c =
     set_pg_dir fromClient ((pg_dir fromClient c)\<lparr>pd_copyBytes := 0, pd_copyMode := 0\<rparr>) c"

definition pg_terminate :: "pktPacket \<Rightarrow> pktConn \<Rightarrow> pg_out" where
  "pg_terminate p c =
     (let p1 = p\<lparr>p_Command := ''Terminate''\<rparr>; pc = c_pg c in
      (''Terminate'',
       if pc_queries pc = 0 \<and> pc_startupSeen pc \<and> pc_replication pc = [] then
         add_issue (''Connection opened and closed without running a statement '' @ em_dash @ '' a TCP/health check or a connection pool churning; each one still costs a backend fork and a full authentication round trip'') p1
       else p1,
       set_pg (pc\<lparr>pc_sawTerminate := True\<rparr>) c))"

definition pktPGClient :: "pg_lib \<Rightarrow> pktPacket \<Rightarrow> pktConn \<Rightarrow> byte \<Rightarrow> bytes \<Rightarrow> int \<Rightarrow> pg_out" where
  "pktPGClient lib p c typ body ts =
     (if typ = 0 then pg_first p c body
      else if typ = chr CHR ''Q'' then pg_query ts p c body
      else if typ = chr CHR ''P'' then pg_parse lib ts p c body
      else if typ = chr CHR ''B'' then pg_bind lib ts p c body
      else if typ = chr CHR ''D'' then (pg_target lib ''Describe'' body, p, c)
      else if typ = chr CHR ''E'' then pg_execute lib ts p c body
      else if typ = chr CHR ''C'' then (pg_target lib ''Close'' body, p, c)
      else if typ = chr CHR ''H'' then (''Flush'', p, c)
      else if typ = chr CHR ''S'' then (''Sync'', p, c)
      else if typ = chr CHR ''F'' then (''FunctionCall, '' @ go_utoa (length body) @ '' bytes'', p, c)
      else if typ = chr CHR ''p'' then (pgPasswordInfo (c_pg c) body, p, c)
      else if typ = chr CHR ''d'' then
        (case pg_copied True c body of
           (True, c1) \<Rightarrow> (case pgStandbyMessage lib ts p (c_pg c1) body of (info, p1, pc) \<Rightarrow> (info, p1, set_pg pc c1))
         | (False, c1) \<Rightarrow> ([], p, c1))
      else if typ = chr CHR ''c'' then
        (''CopyDone ('' @ pktBytes (pd_copyBytes (pg_dir True c)) @ '' sent)'', p, pg_copy_end True c)
      else if typ = chr CHR ''f'' then
        let reason = pktEllipsis (pgString body) 120 in
        (''CopyFail: '' @ reason, add_issue (''COPY aborted by the client: '' @ reason) p, c)
      else if typ = chr CHR ''X'' then pg_terminate p c
      else (''Client message '' @ quote_byte lib typ @ '', '' @ go_utoa (length body) @ '' bytes'', p, c))"

section \<open>Server to client\<close>

definition pgAuthInfo :: "pktPacket \<Rightarrow> pktConn \<Rightarrow> bytes \<Rightarrow> pg_out" where
  "pgAuthInfo p c body =
     (if length body < 4 then (''Authentication message'', p, c)
      else
        let k = be_u32 body; pc = c_pg c; method = (\<lambda>m. set_pg (pc\<lparr>pc_authMethod := m\<rparr>) c) in
        if k = 0 then
          (if pc_authMethod pc = [] then
             (''AuthenticationOk '' @ em_dash @ '' no password was asked for (trust/peer in pg_hba.conf)'', p,
              set_pg (pc\<lparr>pc_authDone := True, pc_authMethod := ''trust (no password)''\<rparr>) c)
           else (''AuthenticationOk'', p, set_pg (pc\<lparr>pc_authDone := True\<rparr>) c))
        else if k = 2 then (''Authentication Kerberos V5'', p, method ''Kerberos V5'')
        else if k = 3 then
          (''AuthenticationCleartextPassword'',
           if \<not> c_tls c then
             add_issue (''Cleartext password authentication on an unencrypted connection '' @ em_dash @ '' the password crosses the network in the clear and is in this capture; scram-sha-256 (or TLS) fixes it'') p
           else p,
           method ''cleartext password'')
        else if k = 5 then
          (''AuthenticationMD5Password (md5 is deprecated in favour of scram-sha-256)'', p, method ''MD5 password'')
        else if k = 6 then (''Authentication SCM credentials'', p, method ''SCM credentials'')
        else if k = 7 then (''Authentication GSSAPI'', p, method ''GSSAPI'')
        else if k = 8 then (''AuthenticationGSSContinue'', p, c)
        else if k = 9 then (''Authentication SSPI'', p, method ''SSPI'')
        else if k = 10 then
          let mechs = filter (\<lambda>s. s \<noteq> []) (pgStringList (drop 4 body)) in
          (''AuthenticationSASL: '' @ go_Join mechs '', '', p,
           method (if mechs \<noteq> [] then ''SCRAM ('' @ go_Join mechs '', '' @ '')'' else ''SCRAM''))
        else if k = 11 then (''AuthenticationSASLContinue'', p, c)
        else if k = 12 then (''AuthenticationSASLFinal'', p, c)
        else (''Authentication '' @ pc_authMethod pc, p, c))"

definition tx_name :: "pg_lib \<Rightarrow> byte \<Rightarrow> string" where
  "tx_name lib status =
     (if status = chr CHR ''I'' then ''idle''
      else if status = chr CHR ''T'' then ''in transaction''
      else if status = chr CHR ''E'' then ''in failed transaction''
      else ''status '' @ quote_byte lib status)"

text \<open>The latency of the cycle that ends: the frame and the text it adds.\<close>

definition cycle_lag :: "pg_lib \<Rightarrow> int \<Rightarrow> pktPacket \<Rightarrow> pktPGConn \<Rightarrow> pktPacket \<times> string" where
  "cycle_lag lib ts p pc =
     (if pc_cycleOpen pc \<and> pc_cycleTS pc \<noteq> zero_time then
        let lag = go_Sub ts (pc_cycleTS pc); p1 = p\<lparr>p_LagNS := lag\<rparr> in
        (if lag \<ge> int pktSlowResponseMS * 10 ^ 6 then
           add_issue (''Slow response '' @ em_dash @ '' '' @ lib_ms0 lib lag @ '' ms from the client'' @ [CHR 0x27] @ ''s '' @ pc_cycleWhat pc @ '' to ReadyForQuery'') p1
         else p1,
         '', '' @ lib_ms1 lib lag @ '' ms'')
      else (p, []))"

definition tx_done :: "byte \<Rightarrow> int \<Rightarrow> pktPGConn \<Rightarrow> pktPGConn" where
  "tx_done status ts pc =
     (let pc1 = pc\<lparr>pc_cycleOpen := False, pc_txStatus := status\<rparr> in
      if status = chr CHR ''T'' \<or> status = chr CHR ''E'' then pc1\<lparr>pc_txSince := ts\<rparr>
      else pc1\<lparr>pc_txSince := zero_time, pc_idleNoted := False\<rparr>)"

definition pgReadyForQuery :: "pg_lib \<Rightarrow> int \<Rightarrow> pktPacket \<Rightarrow> pktConn \<Rightarrow> byte \<Rightarrow> pg_out" where
  "pgReadyForQuery lib ts p c status =
     (let (p1, lagText) = cycle_lag lib ts p (c_pg c);
          pd = pg_dir False c
      in (''ReadyForQuery ('' @ tx_name lib status @ '')'' @ lagText
            @ (if status = chr CHR ''E'' then '' '' @ em_dash @ '' every statement until COMMIT or ROLLBACK will fail with 25P02'' else []),
          p1,
          set_pg_dir False (pd\<lparr>pd_rows := 0, pd_cols := 0, pd_resultBytes := 0\<rparr>) (set_pg (tx_done status ts (c_pg c)) c)))"

definition pgErrorResponse :: "pg_lib \<Rightarrow> pktPacket \<Rightarrow> pktConn \<Rightarrow> bytes \<Rightarrow> bool \<Rightarrow> pg_out" where
  "pgErrorResponse lib p c body isError =
     (let field = (\<lambda>t. case map_of (rev (pgFields body)) (chr t) of Some v \<Rightarrow> v | None \<Rightarrow> []);
          severity = (if field CHR ''V'' \<noteq> [] then field CHR ''V'' else field CHR ''S'');
          state = field CHR ''C''; msg = field CHR ''M''; detail = field CHR ''D''; hint = field CHR ''H''
      in if \<not> isError then
           (''Notice '' @ severity @ '': '' @ pktEllipsis (pktPrintable msg) 140,
            (let iss = pgNoticeIssue (lib_ToUpper lib) severity msg in if iss \<noteq> [] then add_issue iss p else p), c)
         else
           let name = pgStateName state; iss = pgErrIssue state msg (pc_replication (c_pg c));
               p1 = p\<lparr>p_ErrState := state,
                      p_Status := (if name \<noteq> [] then ''Error '' @ state @ '' ('' @ name @ ''): '' @ pktEllipsis (pktPrintable msg) 110
                                   else ''Error '' @ state @ '': '' @ pktEllipsis (pktPrintable msg) 120)\<rparr>;
               p2 = (if iss \<noteq> [] then add_issue iss p1 else p1);
               p3 = (if go_EqualFold severity ''FATAL'' \<or> go_EqualFold severity ''PANIC'' then
                       add_issue (lib_ToUpper lib severity @
                         '' '' @ em_dash @ '' the server closes the connection after this message; the client sees a lost connection rather than a query error'') p2
                     else p2)
           in (lib_ToUpper lib (pgOr severity ''ERROR'') @ '' '' @ state @ '': '' @ pktEllipsis (pktPrintable msg) 140
                 @ (if detail \<noteq> [] then '' | detail: '' @ pktEllipsis (pktPrintable detail) 90 else [])
                 @ (if hint \<noteq> [] then '' | hint: '' @ pktEllipsis (pktPrintable hint) 70 else []),
               p3, c\<lparr>c_Errors := c_Errors c + 1\<rparr>))"

definition pg_parameter :: "pktPacket \<Rightarrow> pktConn \<Rightarrow> bytes \<Rightarrow> pg_out" where
  "pg_parameter p c body =
     (let (name, rest) = pgTakeString body; val = pgString rest
      in (if name \<in> set [''server_version'', ''in_hot_standby'', ''is_superuser'', ''TimeZone'', ''client_encoding'']
          then ''ParameterStatus: '' @ name @ '' = '' @ val else [],
          p, if name = ''server_version'' then c\<lparr>c_version := val\<rparr> else c))"

text \<open>ReadyForQuery aligns the client's direction: its next byte begins a message.\<close>

definition pg_anchor_client :: "pktConn \<Rightarrow> pktConn" where
  "pg_anchor_client c =
     (if \<not> pd_aligned (pg_dir True c)
      then c\<lparr>c_c2s := (c_c2s c)\<lparr>ds_pg := (ds_pg (c_c2s c))\<lparr>pd_aligned := True\<rparr>, ds_buf := []\<rparr>\<rparr> else c)"

definition pg_row_description :: "pktConn \<Rightarrow> bytes \<Rightarrow> string \<times> pktConn" where
  "pg_row_description c body =
     (let (cols, names) = pgRowDescription body;
          c1 = set_pg_dir False ((pg_dir False c)\<lparr>pd_cols := cols, pd_colNames := names, pd_rows := 0, pd_resultBytes := 0,
                 pd_heavyNoted := False\<rparr>) c
      in (if names \<noteq> [] then
            ''Row description: '' @ go_utoa cols @ '' column(s) '' @ em_dash @ '' '' @ pktEllipsis (go_Join names '', '') 90
          else ''Row description: '' @ go_utoa cols @ '' column(s)'', c1))"

definition pg_data_row :: "pktPacket \<Rightarrow> pktConn \<Rightarrow> bytes \<Rightarrow> pg_out" where
  "pg_data_row p c body =
     (let pd = pg_dir False c; n = pd_resultBytes pd + length body;
          pd1 = pd\<lparr>pd_rows := pd_rows pd + 1, pd_resultBytes := n\<rparr>
      in if n \<ge> pktBigResultBytes \<and> \<not> pd_heavyNoted pd then
           ([], add_issue (''Heavy result set '' @ em_dash @ '' '' @ pktBytes n @
              '' of rows on one statement; the client waits for all of it and the server holds it in memory as it is written'') p,
            set_pg_dir False (pd1\<lparr>pd_heavyNoted := True\<rparr>) c)
         else ([], p, set_pg_dir False pd1 c))"

definition pg_complete :: "pktPacket \<Rightarrow> pktConn \<Rightarrow> bytes \<Rightarrow> pg_out" where
  "pg_complete p c body =
     (let tag = pgString body; pd = pg_dir False c
      in (if pd_rows pd > 0 then
            ''Result set complete: '' @ go_utoa (pd_rows pd) @ '' row(s)''
              @ (if pd_cols pd > 0 then '', '' @ go_utoa (pd_cols pd) @ '' column(s)'' else [])
              @ '', '' @ pktBytes (pd_resultBytes pd) @ '' '' @ em_dash @ '' '' @ tag
          else ''CommandComplete: '' @ tag,
          p\<lparr>p_Status := ''Success'', p_Rows := (if pd_rows pd > 0 then int (pd_rows pd) else pgTagRows tag)\<rparr>,
          set_pg_dir False (pd\<lparr>pd_rows := 0, pd_cols := 0, pd_resultBytes := 0, pd_colNames := []\<rparr>) c))"

definition pg_copy_begin :: "byte \<Rightarrow> pktConn \<Rightarrow> pktConn" where
  "pg_copy_begin mode c = set_pg_dir False ((pg_dir False c)\<lparr>pd_copyMode := mode, pd_copyBytes := 0\<rparr>) c"

text \<open>COPY data that is no replication stream: counted for a base backup.\<close>

definition pg_base_backup :: "pktPacket \<Rightarrow> pktConn \<Rightarrow> bytes \<Rightarrow> pg_out" where
  "pg_base_backup p c body =
     (let pc = c_pg c; n = pc_baseBytes pc + length body; pc1 = pc\<lparr>pc_baseBytes := n\<rparr> in
      if pc_basebackup pc then
        (if n \<ge> pktBigResultBytes \<and> \<not> pc_baseNoted pc then
           ([], add_issue (''Base backup is large '' @ em_dash @ '' '' @ pktBytes n @
              '' streamed so far; a new replica is cloning this server and the transfer competes with production traffic for disk and network'') p,
            set_pg (pc1\<lparr>pc_baseNoted := True\<rparr>) c)
         else ([], p, set_pg pc1 c))
      else ([], p, c))"

definition pktPGServer :: "pg_lib \<Rightarrow> pktPacket \<Rightarrow> pktConn \<Rightarrow> byte \<Rightarrow> bytes \<Rightarrow> int \<Rightarrow> pg_out" where
  "pktPGServer lib p c typ body ts =
     (if typ = chr CHR ''R'' then pgAuthInfo p c body
      else if typ = chr CHR ''K'' then
        (if length body \<ge> 8 then ''BackendKeyData: backend pid '' @ go_utoa (be_u32 body) else ''BackendKeyData'', p, c)
      else if typ = chr CHR ''S'' then pg_parameter p c body
      else if typ = chr CHR ''Z'' then
        (if body = [] then (''ReadyForQuery'', p, pg_anchor_client c)
         else pgReadyForQuery lib ts p (pg_anchor_client c) (body ! 0))
      else if typ = chr CHR ''T'' then (case pg_row_description c body of (info, c1) \<Rightarrow> (info, p, c1))
      else if typ = chr CHR ''D'' then pg_data_row p c body
      else if typ = chr CHR ''C'' then pg_complete p c body
      else if typ = chr CHR ''I'' then (''EmptyQueryResponse'', p, c)
      else if typ = chr CHR ''n'' then (''NoData'', p, c)
      else if typ = chr CHR ''t'' then
        (''ParameterDescription: '' @ go_utoa (if length body \<ge> 2 then be_u16 body else 0) @ '' parameter(s)'', p, c)
      else if typ = chr CHR ''1'' then (''ParseComplete'', p, c)
      else if typ = chr CHR ''2'' then (''BindComplete'', p, c)
      else if typ = chr CHR ''3'' then (''CloseComplete'', p, c)
      else if typ = chr CHR ''s'' then (''PortalSuspended'', p, c)
      else if typ = chr CHR ''E'' then pgErrorResponse lib p c body True
      else if typ = chr CHR ''N'' then pgErrorResponse lib p c body False
      else if typ = chr CHR ''A'' then
        (if length body \<ge> 4 then
           let (ch, rest) = pgTakeString (drop 4 body)
           in ''NotificationResponse on channel '' @ lib_Quote lib ch @ '': '' @ pktEllipsis (pgString rest) 80
         else ''NotificationResponse'', p, c)
      else if typ = chr CHR ''G'' then
        (''CopyInResponse '' @ em_dash @ '' the server is ready to receive a COPY stream'', p, pg_copy_begin (chr CHR ''i'') c)
      else if typ = chr CHR ''H'' then
        (if pc_basebackup (c_pg c) then ''CopyOutResponse '' @ em_dash @ '' base backup stream begins''
         else ''CopyOutResponse '' @ em_dash @ '' a COPY stream begins'', p, pg_copy_begin (chr CHR ''o'') c)
      else if typ = chr CHR ''W'' then
        (if pc_replication (c_pg c) \<noteq> [] then ''CopyBothResponse '' @ em_dash @ '' '' @ pc_replication (c_pg c) @ '' replication stream begins''
         else ''CopyBothResponse'', p, pg_copy_begin (chr CHR ''b'') c)
      else if typ = chr CHR ''d'' then
        (case pg_copied False c body of
           (True, c1) \<Rightarrow> (case pgWALMessage lib ts p (c_pg c1) body of (info, p1, pc) \<Rightarrow> (info, p1, set_pg pc c1))
         | (False, c1) \<Rightarrow> pg_base_backup p c1 body)
      else if typ = chr CHR ''c'' then
        (''CopyDone ('' @ pktBytes (pd_copyBytes (pg_dir False c)) @ '')'', p, pg_copy_end False c)
      else if typ = chr CHR ''v'' then
        (if length body \<ge> 4 then ''NegotiateProtocolVersion: the server speaks 3.'' @ go_utoa (be_u32 body mod 2 ^ 16)
         else ''NegotiateProtocolVersion'', p, c)
      else (''Server message '' @ quote_byte lib typ @ '', '' @ go_utoa (length body) @ '' bytes'', p, c))"

section \<open>What decoding a message leaves alone\<close>

text \<open>What the framing of a direction depends on beside its buffer.\<close>

definition pg_framing :: "pktPGDir \<Rightarrow> bool \<times> bool \<times> bool" where
  "pg_framing pd = (pd_firstDone pd, pd_aligned pd, pd_desynced pd)"

text \<open>What is asked about encryption and what was answered.\<close>

definition pg_asked :: "pktPGConn \<Rightarrow> bool \<times> bool \<times> bool \<times> bool" where
  "pg_asked pc = (pc_sslRequested pc, pc_sslAnswered pc, pc_gssRequested pc, pc_gssAnswered pc)"

text \<open>
  A message changes neither the buffer nor the framing of the direction it came in, nor whether the
  connection is encrypted or its start was seen; only the client asks for encryption; the position the
  primary has sent never goes back; and nothing marks a connection as a base backup.
\<close>

definition pg_keeps :: "bool \<Rightarrow> pktConn \<Rightarrow> pktConn \<Rightarrow> bool" where
  "pg_keeps fc c c' \<longleftrightarrow>
     ds_buf (dir_of fc c') = ds_buf (dir_of fc c) \<and> pg_framing (pg_dir fc c') = pg_framing (pg_dir fc c)
     \<and> c_tls c' = c_tls c \<and> c_synced c' = c_synced c \<and> c_sslRequested c' = c_sslRequested c
     \<and> (fc \<or> pg_asked (c_pg c') = pg_asked (c_pg c))
     \<and> pc_basebackup (c_pg c') = pc_basebackup (c_pg c) \<and> pc_sentLSN (c_pg c) \<le> pc_sentLSN (c_pg c')"

lemma pg_keeps_refl [simp]: "pg_keeps fc c c"
  by (simp add: pg_keeps_def)

lemma pg_keeps_trans [trans]: "pg_keeps fc c c1 \<Longrightarrow> pg_keeps fc c1 c2 \<Longrightarrow> pg_keeps fc c c2"
  by (auto simp: pg_keeps_def)

lemma pg_keeps_set_pg:
  assumes "pg_keeps fc c c'" "fc \<or> pg_asked pc = pg_asked (c_pg c')" "pc_basebackup pc = pc_basebackup (c_pg c')"
    "pc_sentLSN (c_pg c') \<le> pc_sentLSN pc"
  shows "pg_keeps fc c (set_pg pc c')"
  using assms by (auto simp: pg_keeps_def set_pg_def pg_dir_def dir_of_def)

lemma pg_keeps_set_pg_dir:
  "pg_keeps fc c c' \<Longrightarrow> pg_framing pd = pg_framing (pg_dir fc c') \<Longrightarrow> pg_keeps fc c (set_pg_dir fc pd c')"
  by (auto simp: pg_keeps_def set_pg_dir_def set_dir_def pg_dir_def dir_of_def)

lemma pg_keeps_fields:
  "pg_keeps fc c c' \<Longrightarrow> pg_keeps fc c (c'\<lparr>c_user := u, c_database := d\<rparr>)"
  "pg_keeps fc c c' \<Longrightarrow> pg_keeps fc c (c'\<lparr>c_Queries := n\<rparr>)"
  "pg_keeps fc c c' \<Longrightarrow> pg_keeps fc c (c'\<lparr>c_Errors := n\<rparr>)"
  "pg_keeps fc c c' \<Longrightarrow> pg_keeps fc c (c'\<lparr>c_version := u\<rparr>)"
  "pg_keeps False c c' \<Longrightarrow> pg_keeps False c (c'\<lparr>c_c2s := cd\<rparr>)"
  by (auto simp: pg_keeps_def pg_dir_def dir_of_def)

lemma set_pg_simps [simp]:
  "c_pg (set_pg pc c) = pc" "pg_dir fc (set_pg pc c) = pg_dir fc c" "c_pg (set_pg_dir fc pd c) = c_pg c"
  "pg_dir fc (set_pg_dir fc pd c) = pd"
  by (simp_all add: set_pg_def set_pg_dir_def set_dir_def pg_dir_def dir_of_def)

lemmas pg_keeps_intros = pg_keeps_refl pg_keeps_set_pg pg_keeps_set_pg_dir pg_keeps_fields

lemma pgCycleStart_simps [simp]:
  "pc_basebackup (pgCycleStart ts w pc) = pc_basebackup pc" "pc_sentLSN (pgCycleStart ts w pc) = pc_sentLSN pc"
  "pg_asked (pgCycleStart ts w pc) = pg_asked pc"
  by (simp_all add: pgCycleStart_def pg_asked_def)

lemma pg_asked_simps [simp]:
  "pg_asked (pc\<lparr>pc_queries := n\<rparr>) = pg_asked pc" "pg_asked (pc\<lparr>pc_authMethod := s\<rparr>) = pg_asked pc"
  "pg_asked (pc\<lparr>pc_authDone := b\<rparr>) = pg_asked pc" "pg_asked (pc\<lparr>pc_replication := s\<rparr>) = pg_asked pc"
  "pg_asked (pc\<lparr>pc_adopted := b\<rparr>) = pg_asked pc" "pg_asked (pc\<lparr>pc_sentLSN := v\<rparr>) = pg_asked pc"
  "pg_asked (pc\<lparr>pc_cycleOpen := b\<rparr>) = pg_asked pc" "pg_asked (pc\<lparr>pc_txStatus := y\<rparr>) = pg_asked pc"
  "pg_asked (pc\<lparr>pc_txSince := t\<rparr>) = pg_asked pc" "pg_asked (pc\<lparr>pc_idleNoted := b\<rparr>) = pg_asked pc"
  "pg_asked (pc\<lparr>pc_baseBytes := n\<rparr>) = pg_asked pc" "pg_asked (pc\<lparr>pc_baseNoted := b\<rparr>) = pg_asked pc"
  "pg_asked (pc\<lparr>pc_relations := rel\<rparr>) = pg_asked pc"
  by (simp_all add: pg_asked_def)

lemma pg_request_keeps: "pg_keeps fc c (pg_request ts w b c)"
  by (auto simp: pg_request_def intro!: pg_keeps_intros)

lemma pg_copied_keeps: "pg_copied fc c body = (ok, c') \<Longrightarrow> pg_keeps fc c c'"
  by (auto simp: pg_copied_def Let_def pgAdoptReplication_def pg_framing_def split: if_splits intro!: pg_keeps_intros)

lemma pg_copy_end_keeps: "pg_keeps fc c (pg_copy_end fc c)"
  by (auto simp: pg_copy_end_def pg_framing_def intro!: pg_keeps_intros)

lemma pgStandbyMessage_keeps:
  "pgStandbyMessage lib ts p pc body = (info, p', pc') \<Longrightarrow>
     pc_basebackup pc' = pc_basebackup pc \<and> pc_sentLSN pc' = pc_sentLSN pc"
  by (auto simp: pgStandbyMessage_def standby_status_def Let_def split: if_splits)

lemma pgLogicalMessage_keeps:
  "pgLogicalMessage pc b = (info, pc') \<Longrightarrow>
     pc_basebackup pc' = pc_basebackup pc \<and> pc_sentLSN pc' = pc_sentLSN pc \<and> pg_asked pc' = pg_asked pc"
  by (auto simp: pgLogicalMessage_def Let_def split: if_splits prod.splits)

lemma wal_data_keeps:
  "wal_data pc body = (info, pc') \<Longrightarrow>
     pc_basebackup pc' = pc_basebackup pc \<and> pc_sentLSN pc \<le> pc_sentLSN pc' \<and> pg_asked pc' = pg_asked pc"
  by (auto simp: wal_data_def Let_def split: if_splits prod.splits dest!: pgLogicalMessage_keeps)

lemma pgWALMessage_keeps:
  "pgWALMessage lib ts p pc body = (info, p', pc') \<Longrightarrow>
     pc_basebackup pc' = pc_basebackup pc \<and> pc_sentLSN pc \<le> pc_sentLSN pc' \<and> pg_asked pc' = pg_asked pc"
  by (auto simp: pgWALMessage_def Let_def split: if_splits prod.splits dest!: wal_data_keeps)

lemma pg_keeps_if: "pg_keeps fc c x \<Longrightarrow> pg_keeps fc c y \<Longrightarrow> pg_keeps fc c (if b then x else y)"
  by simp

lemma pktPGStartup_keeps: "pg_keeps True c (conn_of (pktPGStartup p c code body))"
  unfolding pktPGStartup_def Let_def conn_of_if conn_of_simps if_cancel
  by (intro pg_keeps_set_pg pg_keeps_fields pg_keeps_refl) simp_all

lemma pg_first_keeps: "pg_keeps True c (conn_of (pg_first p c body))"
  unfolding pg_first_def Let_def conn_of_if conn_of_simps
  by (intro pg_keeps_if pg_keeps_set_pg pg_keeps_refl pktPGStartup_keeps) simp_all

lemma pg_query_keeps: "pg_keeps True c (conn_of (pg_query ts p c body))"
  by (auto simp: pg_query_def Let_def intro!: pg_keeps_set_pg pg_request_keeps)

lemma pg_parse_keeps: "pg_keeps True c (conn_of (pg_parse lib ts p c body))"
  by (auto simp: pg_parse_def pg_reparse_def pg_framing_def Let_def split: prod.split
      intro!: pg_keeps_set_pg pg_keeps_set_pg_dir pg_request_keeps)

lemma pg_bind_keeps: "pg_keeps fc c (conn_of (pg_bind lib ts p c body))"
  by (auto simp: pg_bind_def Let_def pg_request_keeps split: prod.split)

lemma pg_execute_keeps: "pg_keeps fc c (conn_of (pg_execute lib ts p c body))"
  by (auto simp: pg_execute_def Let_def pg_request_keeps split: prod.split)

lemma pg_terminate_keeps: "pg_keeps True c (conn_of (pg_terminate p c))"
  by (auto simp: pg_terminate_def Let_def intro!: pg_keeps_intros)

lemma client_copy_keeps:
  "pg_keeps True c (conn_of (case pg_copied True c body of
     (True, c1) \<Rightarrow> (case pgStandbyMessage lib ts p (c_pg c1) body of (info, p1, pc) \<Rightarrow> (info, p1, set_pg pc c1))
   | (False, c1) \<Rightarrow> ([], p, c1)))"
proof (cases "pg_copied True c body")
  case (Pair ok c1)
  note k = pg_copied_keeps [OF this]
  obtain i p1 pc where s: "pgStandbyMessage lib ts p (c_pg c1) body = (i, p1, pc)" by (metis prod_cases3)
  show ?thesis using Pair k s pgStandbyMessage_keeps [OF s] by (cases ok) (auto intro!: pg_keeps_set_pg)
qed

lemma pktPGClient_keeps: "pg_keeps True c (conn_of (pktPGClient lib p c typ body ts))"
  unfolding pktPGClient_def Let_def conn_of_if conn_of_simps
  by (intro pg_keeps_if pg_keeps_refl pg_first_keeps pg_query_keeps pg_parse_keeps pg_bind_keeps pg_execute_keeps
      pg_terminate_keeps client_copy_keeps pg_copy_end_keeps)

lemma pgAuthInfo_keeps: "pg_keeps fc c (conn_of (pgAuthInfo p c body))"
  unfolding pgAuthInfo_def Let_def conn_of_if conn_of_simps
  by (intro pg_keeps_if pg_keeps_set_pg pg_keeps_refl) simp_all

lemma pg_anchor_client_keeps: "pg_keeps False c (pg_anchor_client c)"
  by (auto simp: pg_anchor_client_def intro!: pg_keeps_intros)

lemma pgReadyForQuery_keeps:
  "pg_keeps False c c' \<Longrightarrow> pg_keeps False c (conn_of (pgReadyForQuery lib ts p c' status))"
  by (auto simp: pgReadyForQuery_def Let_def tx_done_def pg_framing_def split: prod.split
      intro!: pg_keeps_set_pg pg_keeps_set_pg_dir)

lemma pgErrorResponse_keeps: "pg_keeps fc c (conn_of (pgErrorResponse lib p c body e))"
  unfolding pgErrorResponse_def Let_def conn_of_if conn_of_simps
  by (intro pg_keeps_if pg_keeps_refl pg_keeps_fields)

lemma server_copy_keeps:
  "pg_keeps False c (conn_of (case pg_copied False c body of
     (True, c1) \<Rightarrow> (case pgWALMessage lib ts p (c_pg c1) body of (info, p1, pc) \<Rightarrow> (info, p1, set_pg pc c1))
   | (False, c1) \<Rightarrow> pg_base_backup p c1 body))"
proof (cases "pg_copied False c body")
  case (Pair ok c1)
  note k = pg_copied_keeps [OF this]
  obtain i p1 pc where s: "pgWALMessage lib ts p (c_pg c1) body = (i, p1, pc)" by (metis prod_cases3)
  show ?thesis using Pair k s pgWALMessage_keeps [OF s]
    by (cases ok) (auto simp: pg_base_backup_def Let_def intro!: pg_keeps_set_pg)
qed

lemma pg_results_keep:
  "pg_keeps False c (conn_of (pg_parameter p c body))"
  "pg_keeps False c (conn_of (case pg_row_description c body of (info, c1) \<Rightarrow> (info, p, c1)))"
  "pg_keeps False c (conn_of (pg_data_row p c body))"
  "pg_keeps False c (conn_of (pg_complete p c body))"
  "pg_keeps False c (pg_copy_begin m c)"
  by (auto simp: pg_parameter_def pg_row_description_def pg_data_row_def pg_complete_def pg_copy_begin_def Let_def
      pg_framing_def split: prod.split intro!: pg_keeps_intros)

lemma pktPGServer_keeps: "pg_keeps False c (conn_of (pktPGServer lib p c typ body ts))"
  unfolding pktPGServer_def Let_def conn_of_if conn_of_simps
  by (intro pg_keeps_if pg_keeps_refl pgAuthInfo_keeps pg_anchor_client_keeps
      pgReadyForQuery_keeps [OF pg_anchor_client_keeps] pgErrorResponse_keeps server_copy_keeps pg_results_keep
      pg_copy_end_keeps)

section \<open>One frame\<close>

definition pg_one :: "pg_lib \<Rightarrow> bool \<Rightarrow> int \<Rightarrow> pktPacket \<Rightarrow> pktConn \<Rightarrow> byte \<times> bytes \<Rightarrow> pg_out" where
  "pg_one lib fromClient ts p c m =
     (if fromClient then
        let (p1, pc) = pgIdleCheck lib ts p (c_pg c) in pktPGClient lib p1 (set_pg pc c) (fst m) (snd m) ts
      else pktPGServer lib p c (fst m) (snd m) ts)"

lemma pgIdleCheck_keeps: "pgIdleCheck lib ts p (c_pg c) = (p1, pc) \<Longrightarrow> pg_keeps fc c (set_pg pc c)"
  by (auto simp: pgIdleCheck_def Let_def split: if_splits intro!: pg_keeps_intros)

lemma pg_one_keeps: "pg_keeps fc c (conn_of (pg_one lib fc ts p c m))"
proof (cases fc)
  case True
  obtain p1 pc where i: "pgIdleCheck lib ts p (c_pg c) = (p1, pc)" by fastforce
  from pg_keeps_trans [OF pgIdleCheck_keeps [OF i] pktPGClient_keeps] True i show ?thesis by (simp add: pg_one_def)
qed (simp add: pg_one_def pktPGServer_keeps)

text \<open>The direction after a message has been taken off it: its buffer and its framing.\<close>

definition set_taken :: "bool \<Rightarrow> bytes \<Rightarrow> pktPGDir \<Rightarrow> pktConn \<Rightarrow> pktConn" where
  "set_taken fromClient buf pd c = set_dir fromClient ((dir_of fromClient c)\<lparr>ds_buf := buf, ds_pg := pd\<rparr>) c"

lemma set_taken_simps [simp]:
  "ds_buf (dir_of fc (set_taken fc buf pd c)) = buf" "pg_dir fc (set_taken fc buf pd c) = pd"
  "c_pg (set_taken fc buf pd c) = c_pg c" "c_tls (set_taken fc buf pd c) = c_tls c"
  "c_synced (set_taken fc buf pd c) = c_synced c"
  by (simp_all add: set_taken_def set_dir_def dir_of_def pg_dir_def)

text \<open>The loop of \<^verbatim>\<open>pktPGDecode\<close>: frame, connection, lines so far, messages seen.\<close>

function pg_app_loop ::
  "pg_lib \<Rightarrow> bool \<Rightarrow> int \<Rightarrow> pktPacket \<Rightarrow> pktConn \<Rightarrow> string list \<Rightarrow> nat \<Rightarrow> pktPacket \<times> pktConn \<times> string list \<times> nat" where
  "pg_app_loop lib fromClient ts p c infos msgs =
     (case pktNextPG (c_synced c) fromClient (ds_buf (dir_of fromClient c)) (pg_dir fromClient c) of
        (None, buf, pd) \<Rightarrow> (p, set_taken fromClient buf pd c, infos, msgs)
      | (Some m, buf, pd) \<Rightarrow>
          let r = pg_one lib fromClient ts p (set_taken fromClient buf pd c) m;
              infos' = (if info_of r \<noteq> [] then infos @ [info_of r] else infos); p' = fst (snd r); c' = conn_of r
          in if c_tls c' then (p', set_dir fromClient ((dir_of fromClient c')\<lparr>ds_buf := []\<rparr>) c', infos', msgs + 1)
             else pg_app_loop lib fromClient ts p' c' infos' (msgs + 1))"
  by pat_completeness auto
termination
proof (relation "measure (\<lambda>(lib, fc, ts, p, c, _). length (ds_buf (dir_of fc c)))", goal_cases)
  case (2 lib fc ts p c infos msgs o r1 m buf pd r infos' p' c')
  then have 2: "(Some m, buf, pd) = pktNextPG (c_synced c) fc (ds_buf (dir_of fc c)) (pg_dir fc c)"
    "c' = conn_of (pg_one lib fc ts p (set_taken fc buf pd c) m)" by simp_all
  have "ds_buf (dir_of fc c') = buf" using 2 pg_one_keeps [of fc "set_taken fc buf pd c" lib ts p m] by (simp add: pg_keeps_def)
  moreover have "length buf < length (ds_buf (dir_of fc c))" using 2 pktNextPG_shorter by (metis prod.collapse)
  ultimately show ?case by simp
qed simp

declare pg_app_loop.simps [simp del]

definition pg_summary :: "bytes \<Rightarrow> bool \<Rightarrow> pktPacket \<times> pktConn \<times> string list \<times> nat \<Rightarrow> pktPacket \<times> pktConn" where
  "pg_summary payload fromClient r =
     (case r of (p, c, infos, msgs) \<Rightarrow>
        let d = dir_of fromClient c; pd = pg_dir fromClient c;
            p1 = (if msgs > 0 then p\<lparr>p_Proto := ''PostgreSQL''\<rparr> else p)
        in (if infos \<noteq> [] then
              p1\<lparr>p_Info := (if length infos > 3
                 then go_Join (take 3 infos) '' | '' @ '' | +'' @ go_utoa (length infos - 3) @ '' more''
                 else go_Join infos '' | '')\<rparr>
            else if msgs > 0 then
              p1\<lparr>p_Info := (if pd_rows pd > 0
                   then ''Row data (row '' @ go_utoa (pd_rows pd) @ '' of '' @ go_utoa (pd_cols pd) @ ''-column set)''
                   else if pd_copyMode pd \<noteq> 0 then ''COPY data'' else ''PostgreSQL data'')
                 @ '', '' @ go_utoa (length payload) @ '' bytes in '' @ go_utoa msgs @ '' message(s)''\<rparr>
            else if \<not> c_synced c \<and> \<not> pd_aligned pd then
              p1\<lparr>p_Proto := ''PostgreSQL'', p_Status := ''Unknown'',
                 p_Info := ''[capture joined mid-connection] '' @ go_utoa (length payload)
                   @ '' bytes, waiting for a message boundary (the next ReadyForQuery aligns the stream)''\<rparr>
            else if pd_desynced pd then
              p1\<lparr>p_Proto := ''PostgreSQL'', p_Info := ''[framing lost] '' @ go_utoa (length payload)
                   @ '' bytes, hunting for the next message boundary''\<rparr>
            else if ds_buf d \<noteq> [] then
              p1\<lparr>p_Proto := ''PostgreSQL'', p_Info := ''[continuation] '' @ go_utoa (length payload) @ '' bytes, ''
                 @ go_utoa (length (ds_buf d)) @ '' buffered''\<rparr>
            else p1, c))"

text \<open>
  The single bytes that answer a request for encryption, outside the framing: \<open>Inl\<close> when the frame is
  settled by one, \<open>Inr\<close> with what the code goes on with otherwise.
\<close>

definition pg_answers ::
  "pktPacket \<Rightarrow> pktConn \<Rightarrow> bool \<Rightarrow> bytes \<Rightarrow> (pktPacket \<times> pktConn) + (pktPacket \<times> pktConn)" where
  "pg_answers p c fromClient payload =
     (let pc = c_pg c in
      if pc_gssRequested pc \<and> \<not> pc_gssAnswered pc \<and> \<not> fromClient \<and> length payload = 1 then
        let c1 = set_pg (pc\<lparr>pc_gssAnswered := True\<rparr>) c in
        (if payload ! 0 = chr CHR ''G'' then
           Inl (p\<lparr>p_Proto := ''PostgreSQL'', p_Info := ''GSSAPI encryption accepted ('' @ [CHR 0x27] @ ''G'' @ [CHR 0x27] @ '')''\<rparr>, c1\<lparr>c_sslRequested := True\<rparr>)
         else
           Inl (p\<lparr>p_Proto := ''PostgreSQL'', p_Info := ''GSSAPI encryption refused ('' @ [CHR 0x27] @ ''N'' @ [CHR 0x27] @ '') '' @ em_dash @ '' the client falls back to TLS or to the clear''\<rparr>, c1))
      else if pc_sslRequested pc \<and> \<not> pc_sslAnswered pc \<and> \<not> fromClient \<and> payload \<noteq> [] then
        let c1 = set_pg (pc\<lparr>pc_sslAnswered := True\<rparr>) c in
        (if payload ! 0 = chr CHR ''S'' then
           Inl (p\<lparr>p_Proto := ''PostgreSQL'', p_Info := ''SSL accepted ('' @ [CHR 0x27] @ ''S'' @ [CHR 0x27] @ '') '' @ em_dash @ '' TLS handshake follows''\<rparr>,
                let c2 = c1\<lparr>c_sslRequested := True\<rparr> in
                if length payload > 1 \<and> pktLooksTLS (drop 1 payload)
                then c2\<lparr>c_tls := True, c_tlsSealed := pktTLSSeals (drop 1 payload)\<rparr> else c2)
         else if payload ! 0 = chr CHR ''N'' then
           Inl (add_issue (''SSL refused by the server '' @ em_dash @ '' a client with sslmode=require or verify-full aborts here; one with sslmode=prefer silently continues in the clear, and everything after this point is readable in this capture'')
                  (p\<lparr>p_Proto := ''PostgreSQL'', p_Info := ''SSL refused ('' @ [CHR 0x27] @ ''N'' @ [CHR 0x27] @ '') '' @ em_dash @ '' the server has ssl=off or no certificate''\<rparr>), c1)
         else if payload ! 0 = chr CHR ''E'' then
           Inr (p\<lparr>p_Proto := ''PostgreSQL'', p_Info := ''SSLRequest answered with an error message''\<rparr>, c1)
         else Inr (p, c))
      else Inr (p, c))"

definition pktPGDecode :: "pg_lib \<Rightarrow> pktPacket \<Rightarrow> pktConn \<Rightarrow> bool \<Rightarrow> bytes \<Rightarrow> int \<Rightarrow> pktPacket \<times> pktConn" where
  "pktPGDecode lib p c fromClient payload ts =
     (if c_tls c then
        let info = pktTLSInfo payload (c_tlsSealed c);
            p1 = p\<lparr>p_Proto := ''TLS'', p_Info := info, p_Status := ''Encrypted''\<rparr>
        in (if go_Contains info ''Alert'' then
              add_issue (''TLS alert '' @ em_dash @ '' handshake or session rejected; the client reports an SSL error and the connection ends'') p1
            else p1,
            if \<not> c_tlsSealed c \<and> pktTLSSeals payload then c\<lparr>c_tlsSealed := True\<rparr> else c)
      else
        case pg_answers p c fromClient payload of
          Inl r \<Rightarrow> r
        | Inr (p1, c1) \<Rightarrow>
            if c_sslRequested c1 \<and> pktLooksTLS payload then
              (p1\<lparr>p_Proto := ''TLS'', p_Status := ''Encrypted'', p_Info := pktTLSInfo payload False\<rparr>,
               c1\<lparr>c_tls := True, c_tlsSealed := pktTLSSeals payload\<rparr>)
            else
              let d = dir_of fromClient c1;
                  c2 = set_dir fromClient (d\<lparr>ds_buf := ds_buf d @ payload\<rparr>) c1
              in pg_summary payload fromClient (pg_app_loop lib fromClient ts p1 c2 [] 0))"

section \<open>What is never marked\<close>

lemma set_dir_pg: "c_pg (set_dir fc d c) = c_pg c"
  by (simp add: set_dir_def)

lemma pg_app_loop_keeps:
  "c_tls (fst (snd (pg_app_loop lib fc ts p c infos k))) = c_tls c
   \<and> pc_basebackup (c_pg (fst (snd (pg_app_loop lib fc ts p c infos k)))) = pc_basebackup (c_pg c)
   \<and> pc_sentLSN (c_pg c) \<le> pc_sentLSN (c_pg (fst (snd (pg_app_loop lib fc ts p c infos k))))"
proof (induction lib fc ts p c infos k rule: pg_app_loop.induct)
  case (1 lib fc ts p c infos k)
  obtain om buf pd where n: "pktNextPG (c_synced c) fc (ds_buf (dir_of fc c)) (pg_dir fc c) = (om, buf, pd)"
    by (metis prod_cases3)
  show ?case
  proof (cases om)
    case None
    then show ?thesis using n by (simp add: pg_app_loop.simps [of lib fc ts p c])
  next
    case (Some m)
    let ?r = "pg_one lib fc ts p (set_taken fc buf pd c) m"
    have k: "c_tls (conn_of ?r) = c_tls c" "pc_basebackup (c_pg (conn_of ?r)) = pc_basebackup (c_pg c)"
      "pc_sentLSN (c_pg c) \<le> pc_sentLSN (c_pg (conn_of ?r))"
      using pg_one_keeps [of fc "set_taken fc buf pd c" lib ts p m] by (simp_all add: pg_keeps_def)
    show ?thesis
    proof (cases "c_tls (conn_of ?r)")
      case True
      then show ?thesis
        using n Some k by (simp add: pg_app_loop.simps [of lib fc ts p c] Let_def set_dir_pg)
    next
      case False
      note IH = "1.IH" [OF n [symmetric, unfolded Some] refl refl refl refl refl refl False]
      have "pg_app_loop lib fc ts p c infos k = pg_app_loop lib fc ts (fst (snd ?r)) (conn_of ?r)
          (if info_of ?r \<noteq> [] then infos @ [info_of ?r] else infos) (k + 1)"
        using n Some False by (simp add: pg_app_loop.simps [of lib fc ts p c infos k] Let_def)
      then show ?thesis unfolding k(1) [symmetric] k(2) [symmetric]
        using IH k(3) order_trans [OF k(3)] by (simp only:)
    qed
  qed
qed

text \<open>
  Nothing the decoder does marks a connection as a base backup: \<^verbatim>\<open>pc.basebackup\<close> is read in two places and
  written in none. So the line that a base backup begins and the issue that one is large cannot appear on
  a connection that starts out unmarked, as every connection does.
\<close>

lemma pg_basebackup_never_set:
  "pc_basebackup (c_pg (snd (pktPGDecode lib p c fc payload ts))) = pc_basebackup (c_pg c)"
  unfolding pktPGDecode_def pg_answers_def
  by (auto simp: Let_def pg_summary_def case_prod_beta pg_app_loop_keeps set_dir_def split: if_splits sum.split)

end
