(* ===== verification/Pg_Stream.thy ===== *)
theory Pg_Stream
  imports Pg_Decode
begin

text \<open>
  The PostgreSQL decoder over a whole stream: what the messages of a direction do to the connection does
  not depend on how TCP cut them into segments. The framing lemmas of \<open>Pg_Wire\<close> are composed with the
  message functions of \<open>Pg_Decode\<close>.
\<close>

section \<open>Decoding does not depend on the segments\<close>

text \<open>
  What a message does to the connection depends neither on the frame that carried its last byte nor on what
  follows it in the buffer.
\<close>

definition with_buf :: "bool \<Rightarrow> bytes \<Rightarrow> pktConn \<Rightarrow> pktConn" where
  "with_buf fc b c = set_dir fc ((dir_of fc c)\<lparr>ds_buf := b\<rparr>) c"

lemma with_buf_simps [simp]:
  "c_pg (with_buf fc b c) = c_pg c" "pg_dir fc' (with_buf fc b c) = pg_dir fc' c"
  "c_tls (with_buf fc b c) = c_tls c" "c_synced (with_buf fc b c) = c_synced c"
  "c_sslRequested (with_buf fc b c) = c_sslRequested c" "c_Queries (with_buf fc b c) = c_Queries c"
  "c_Errors (with_buf fc b c) = c_Errors c" "ds_buf (dir_of fc (with_buf fc b c)) = b"
  "with_buf fc b (with_buf fc b' c) = with_buf fc b c" "set_taken fc b (pg_dir fc c) c = with_buf fc b c"
  by (auto simp: with_buf_def set_dir_def dir_of_def pg_dir_def set_taken_def)

lemma with_buf_commute:
  "set_pg pc (with_buf fc b c) = with_buf fc b (set_pg pc c)"
  "set_pg_dir fc' pd (with_buf fc b c) = with_buf fc b (set_pg_dir fc' pd c)"
  "(with_buf fc b c)\<lparr>c_Queries := n\<rparr> = with_buf fc b (c\<lparr>c_Queries := n\<rparr>)"
  "(with_buf fc b c)\<lparr>c_Errors := n\<rparr> = with_buf fc b (c\<lparr>c_Errors := n\<rparr>)"
  "(with_buf fc b c)\<lparr>c_version := s\<rparr> = with_buf fc b (c\<lparr>c_version := s\<rparr>)"
  "(with_buf fc b c)\<lparr>c_user := s, c_database := t\<rparr> = with_buf fc b (c\<lparr>c_user := s, c_database := t\<rparr>)"
  "pg_anchor_client (with_buf False b c) = with_buf False b (pg_anchor_client c)"
  "(if x then with_buf fc b c1 else with_buf fc b c2) = with_buf fc b (if x then c1 else c2)"
  by (auto simp: with_buf_def set_pg_def set_pg_dir_def set_dir_def dir_of_def pg_dir_def pg_anchor_client_def)

lemma pg_request_commute: "pg_request ts w k (with_buf fc b c) = with_buf fc b (pg_request ts w k c)"
  by (simp add: pg_request_def with_buf_commute)

lemma pg_copied_commute:
  "pg_copied fc' (with_buf fc b c) body = (fst (pg_copied fc' c body), with_buf fc b (snd (pg_copied fc' c body)))"
  by (simp add: pg_copied_def Let_def with_buf_commute split: prod.split)

lemma pg_copy_end_commute: "pg_copy_end fc' (with_buf fc b c) = with_buf fc b (pg_copy_end fc' c)"
  by (simp add: pg_copy_end_def with_buf_commute)

lemma pg_copy_begin_commute: "pg_copy_begin m (with_buf fc b c) = with_buf fc b (pg_copy_begin m c)"
  by (simp add: pg_copy_begin_def with_buf_commute)

lemma pg_first_commute: "conn_of (pg_first p (with_buf fc b c) body) = with_buf fc b (conn_of (pg_first q c body))"
  unfolding pg_first_def pktPGStartup_def Let_def conn_of_if conn_of_simps if_cancel with_buf_simps with_buf_commute ..

lemmas commute_rules = case_prod_beta Let_def conn_of_if conn_of_simps if_cancel with_buf_simps with_buf_commute pg_request_commute

lemma pg_query_commute: "conn_of (pg_query ts p (with_buf fc b c) body) = with_buf fc b (conn_of (pg_query ts q c body))"
  unfolding pg_query_def commute_rules ..

lemma pg_parse_commute: "conn_of (pg_parse lib ts p (with_buf fc b c) body) = with_buf fc b (conn_of (pg_parse lib ts q c body))"
  unfolding pg_parse_def commute_rules ..

lemma pg_bind_commute: "conn_of (pg_bind lib ts p (with_buf fc b c) body) = with_buf fc b (conn_of (pg_bind lib ts q c body))"
  unfolding pg_bind_def commute_rules ..

lemma pg_execute_commute:
  "conn_of (pg_execute lib ts p (with_buf fc b c) body) = with_buf fc b (conn_of (pg_execute lib ts q c body))"
  unfolding pg_execute_def commute_rules ..

lemma pg_terminate_commute: "conn_of (pg_terminate p (with_buf fc b c)) = with_buf fc b (conn_of (pg_terminate q c))"
  unfolding pg_terminate_def commute_rules ..

lemma pg_parameter_commute: "conn_of (pg_parameter p (with_buf fc b c) body) = with_buf fc b (conn_of (pg_parameter q c body))"
  unfolding pg_parameter_def commute_rules ..

lemma pg_data_row_commute: "conn_of (pg_data_row p (with_buf fc b c) body) = with_buf fc b (conn_of (pg_data_row q c body))"
  unfolding pg_data_row_def commute_rules ..

lemma pg_complete_commute: "conn_of (pg_complete p (with_buf fc b c) body) = with_buf fc b (conn_of (pg_complete q c body))"
  unfolding pg_complete_def commute_rules ..

lemma pg_base_backup_commute:
  "conn_of (pg_base_backup p (with_buf fc b c) body) = with_buf fc b (conn_of (pg_base_backup q c body))"
  unfolding pg_base_backup_def commute_rules ..

lemma pgReadyForQuery_commute:
  "conn_of (pgReadyForQuery lib ts p (with_buf fc b c) st) = with_buf fc b (conn_of (pgReadyForQuery lib ts q c st))"
  unfolding pgReadyForQuery_def commute_rules ..

lemma pg_row_description_commute:
  "conn_of (case pg_row_description (with_buf fc b c) body of (info, c1) \<Rightarrow> (info, p, c1))
   = with_buf fc b (conn_of (case pg_row_description c body of (info, c1) \<Rightarrow> (info, q, c1)))"
  unfolding pg_row_description_def commute_rules fst_conv snd_conv ..

lemma pgAuthInfo_commute: "conn_of (pgAuthInfo p (with_buf fc b c) body) = with_buf fc b (conn_of (pgAuthInfo q c body))"
  unfolding pgAuthInfo_def commute_rules ..

lemma pgErrorResponse_commute:
  "conn_of (pgErrorResponse lib p (with_buf fc b c) body e) = with_buf fc b (conn_of (pgErrorResponse lib q c body e))"
  unfolding pgErrorResponse_def commute_rules ..

text \<open>The frame does not matter to what a replication message does.\<close>

lemma standby_frame:
  "snd (snd (pgStandbyMessage lib ts p pc body)) = snd (snd (pgStandbyMessage lib ts q pc body))"
  unfolding pgStandbyMessage_def standby_status_def Let_def by (simp only: if_distrib [of snd] snd_conv)

lemma wal_frame:
  "snd (snd (pgWALMessage lib ts p pc body)) = snd (snd (pgWALMessage lib ts q pc body))"
  unfolding pgWALMessage_def Let_def case_prod_beta by (simp only: if_distrib [of snd] snd_conv)

lemma idle_frame: "snd (pgIdleCheck lib ts p pc) = snd (pgIdleCheck lib ts q pc)"
  unfolding pgIdleCheck_def Let_def by (simp only: if_distrib [of snd] snd_conv)

lemma client_copy_commute:
  "conn_of (case pg_copied True (with_buf fc b c) body of
     (True, c1) \<Rightarrow> (case pgStandbyMessage lib ts p (c_pg c1) body of (info, p1, pc) \<Rightarrow> (info, p1, set_pg pc c1))
   | (False, c1) \<Rightarrow> ([], p, c1))
   = with_buf fc b (conn_of (case pg_copied True c body of
     (True, c1) \<Rightarrow> (case pgStandbyMessage lib ts q (c_pg c1) body of (info, p1, pc) \<Rightarrow> (info, p1, set_pg pc c1))
   | (False, c1) \<Rightarrow> ([], q, c1)))"
proof -
  obtain ok c1 where r: "pg_copied True c body = (ok, c1)" by fastforce
  show ?thesis
    using standby_frame [of lib ts p "c_pg c1" body q]
    by (cases ok) (simp_all add: pg_copied_commute r case_prod_beta with_buf_commute)
qed

lemma server_copy_commute:
  "conn_of (case pg_copied False (with_buf fc b c) body of
     (True, c1) \<Rightarrow> (case pgWALMessage lib ts p (c_pg c1) body of (info, p1, pc) \<Rightarrow> (info, p1, set_pg pc c1))
   | (False, c1) \<Rightarrow> pg_base_backup p c1 body)
   = with_buf fc b (conn_of (case pg_copied False c body of
     (True, c1) \<Rightarrow> (case pgWALMessage lib ts q (c_pg c1) body of (info, p1, pc) \<Rightarrow> (info, p1, set_pg pc c1))
   | (False, c1) \<Rightarrow> pg_base_backup q c1 body))"
proof -
  obtain ok c1 where r: "pg_copied False c body = (ok, c1)" by fastforce
  show ?thesis
    using wal_frame [of lib ts p "c_pg c1" body q] pg_base_backup_commute [of p fc b c1 body q]
    by (cases ok) (simp_all add: pg_copied_commute r case_prod_beta with_buf_commute)
qed

lemma pktPGClient_commute:
  "conn_of (pktPGClient lib p (with_buf fc b c) typ body ts) = with_buf fc b (conn_of (pktPGClient lib q c typ body ts))"
  unfolding pktPGClient_def Let_def conn_of_if conn_of_simps pg_first_commute [of p fc b c body q]
    pg_query_commute [of ts p fc b c body q] pg_parse_commute [of lib ts p fc b c body q]
    pg_bind_commute [of lib ts p fc b c body q] pg_execute_commute [of lib ts p fc b c body q]
    pg_terminate_commute [of p fc b c q] client_copy_commute [where p = p and q = q] pg_copy_end_commute
    with_buf_commute ..

lemma pktPGServer_commute:
  "conn_of (pktPGServer lib p (with_buf False b c) typ body ts) = with_buf False b (conn_of (pktPGServer lib q c typ body ts))"
  unfolding pktPGServer_def Let_def conn_of_if conn_of_simps pgAuthInfo_commute [of p False b c body q]
    pg_parameter_commute [of p False b c body q] pg_row_description_commute [where p = p and q = q]
    with_buf_commute(7) pgReadyForQuery_commute [of lib ts p False b "pg_anchor_client c" "body ! 0" q]
    pg_data_row_commute [of p False b c body q] pg_complete_commute [of p False b c body q]
    pgErrorResponse_commute [of lib p False b c body _ q] server_copy_commute [where p = p and q = q]
    pg_copy_begin_commute pg_copy_end_commute with_buf_commute ..

lemma pg_one_commute:
  "conn_of (pg_one lib fc ts p (with_buf fc b c) m) = with_buf fc b (conn_of (pg_one lib fc ts q c m))"
proof (cases fc)
  case True
  then show ?thesis
    using idle_frame [of lib ts p "c_pg c" q]
    by (simp add: pg_one_def case_prod_beta with_buf_commute pktPGClient_commute [of _ _ _ _ _ _ _ _ "fst (pgIdleCheck lib ts q (c_pg c))"])
qed (simp add: pg_one_def pktPGServer_commute [of _ p _ _ _ _ _ q])

text \<open>What a sequence of messages does to a connection.\<close>

fun pg_messages :: "pg_lib \<Rightarrow> bool \<Rightarrow> int \<Rightarrow> pktConn \<Rightarrow> (byte \<times> bytes) list \<Rightarrow> pktConn" where
  "pg_messages lib fc ts c [] = c"
| "pg_messages lib fc ts c (m # ms) = pg_messages lib fc ts (conn_of (pg_one lib fc ts new_packet c m)) ms"

lemma pg_messages_append:
  "pg_messages lib fc ts c (ms @ ns) = pg_messages lib fc ts (pg_messages lib fc ts c ms) ns"
  by (induction ms arbitrary: c) auto

lemma pg_messages_commute:
  "pg_messages lib fc ts (with_buf fc b c) ms = with_buf fc b (pg_messages lib fc ts c ms)"
  by (induction ms arbitrary: c) (simp_all add: pg_one_commute [of _ _ _ _ _ _ _ new_packet])

lemma pg_messages_keeps: "pg_keeps fc c (pg_messages lib fc ts c ms)"
  by (induction ms arbitrary: c) (auto intro: pg_keeps_trans [OF pg_one_keeps])

text \<open>A connection whose direction can be read: aligned, in the clear, no answer about encryption outstanding.\<close>

definition pg_open :: "bool \<Rightarrow> pktConn \<Rightarrow> bool" where
  "pg_open fc c \<longleftrightarrow> pg_readable (c_synced c) fc (pg_dir fc c) \<and> \<not> c_tls c \<and> \<not> c_sslRequested c
     \<and> (\<not> fc \<longrightarrow> (pc_sslRequested (c_pg c) \<longrightarrow> pc_sslAnswered (c_pg c)) \<and> (pc_gssRequested (c_pg c) \<longrightarrow> pc_gssAnswered (c_pg c)))"

lemma pg_open_keeps:
  assumes "pg_keeps fc c c'" "pg_open fc c"
  shows "pg_open fc c'"
proof -
  have "pg_readable (c_synced c') fc (pg_dir fc c') = pg_readable (c_synced c) fc (pg_dir fc c)"
    using assms(1) by (cases fc) (simp_all add: pg_keeps_def pg_readable_def pg_framing_def)
  then show ?thesis using assms by (cases fc) (simp_all add: pg_open_def pg_keeps_def pg_asked_def)
qed

lemma pg_open_with_buf [simp]: "pg_open fc (with_buf fc b c) = pg_open fc c"
  by (simp add: pg_open_def)

text \<open>
  The loop over a buffer that holds whole messages and the beginning of another one: the connection it
  leaves is what the messages make of it, with the rest in the buffer.
\<close>

lemma pg_app_loop_messages:
  assumes "pg_open fc c" "well_framed fc (ds_buf (dir_of fc c))"
  shows "fst (snd (pg_app_loop lib fc ts p c infos k))
     = with_buf fc (snd (drain (pg_read fc) (ds_buf (dir_of fc c))))
         (pg_messages lib fc ts c (fst (drain (pg_read fc) (ds_buf (dir_of fc c)))))"
  using assms
proof (induction "length (ds_buf (dir_of fc c))" arbitrary: p c infos k rule: less_induct)
  case less
  let ?buf = "ds_buf (dir_of fc c)"
  have rd: "pg_readable (c_synced c) fc (pg_dir fc c)" and tls: "\<not> c_tls c" using less.prems(1) by (simp_all add: pg_open_def)
  have al: "c_synced c \<or> pd_aligned (pg_dir fc c)" using rd by (simp add: pg_readable_def)
  from well_framed_cases [OF less.prems(2)] show ?case
  proof
    assume "\<exists>m r. ?buf = pg_enc m @ r \<and> pg_msg_ok fc m \<and> well_framed fc r"
    then obtain m r where m: "?buf = pg_enc m @ r" "pg_msg_ok fc m" "well_framed fc r" by blast
    note rdm = pg_read_enc [OF m(2), of r, folded m(1)]
    have next_m: "pktNextPG (c_synced c) fc ?buf (pg_dir fc c) = (Some m, r, pg_dir fc c)"
      using pktNextPG_readable [OF rd] pg_loop_read [OF al rdm] m(1) by simp
    let ?c = "conn_of (pg_one lib fc ts p (with_buf fc r c) m)"
    let ?i = "if info_of (pg_one lib fc ts p (with_buf fc r c) m) = [] then infos
        else infos @ [info_of (pg_one lib fc ts p (with_buf fc r c) m)]"
    let ?p = "fst (snd (pg_one lib fc ts p (with_buf fc r c) m))"
    have keeps: "pg_keeps fc (with_buf fc r c) ?c" by (rule pg_one_keeps)
    then have open_c: "pg_open fc ?c" using pg_open_keeps less.prems(1) by (metis pg_open_with_buf)
    have buf_c: "ds_buf (dir_of fc ?c) = r" "\<not> c_tls ?c" using keeps tls by (simp_all add: pg_keeps_def)
    have c: "?c = with_buf fc r (conn_of (pg_one lib fc ts new_packet c m))" by (rule pg_one_commute)
    have "pg_app_loop lib fc ts p c infos k = pg_app_loop lib fc ts ?p ?c ?i (k + 1)"
      using buf_c(2) by (simp add: pg_app_loop.simps [of lib fc ts p c] next_m Let_def)
    moreover have "length (ds_buf (dir_of fc ?c)) < length ?buf"
      using m(1) length_pg_enc [of m] buf_c(1) by simp
    ultimately have "fst (snd (pg_app_loop lib fc ts p c infos k))
       = with_buf fc (snd (drain (pg_read fc) r)) (pg_messages lib fc ts ?c (fst (drain (pg_read fc) r)))"
      using less.hyps [OF _ open_c] m(3) buf_c(1) by simp
    moreover have "drain (pg_read fc) ?buf = (m # fst (drain (pg_read fc) r), snd (drain (pg_read fc) r))"
      using pgr.drain_Some [OF rdm] m(1) by simp
    ultimately show ?thesis by (simp add: c pg_messages_commute)
  next
    assume short: "length ?buf < 5 \<or> (\<not> pg_misframed fc ?buf \<and> length ?buf < 1 + len_at ?buf 0)"
    then have "pg_read fc ?buf = None" by (auto simp: pg_read_def)
    then have "drain (pg_read fc) ?buf = ([], ?buf)" by (rule pgr.drain_None)
    then show ?thesis
      using pktNextPG_readable [OF rd] pg_loop_short [OF al short]
      by (simp add: pg_app_loop.simps [of lib fc ts p c])
  qed
qed

lemma pg_summary_conn [simp]: "snd (pg_summary payload fc r) = fst (snd r)"
  by (simp add: pg_summary_def Let_def case_prod_beta)

lemma pg_answers_open: "pg_open fc c \<Longrightarrow> pg_answers p c fc payload = Inr (p, c)"
  by (auto simp: pg_answers_def pg_open_def Let_def)

lemma pktPGDecode_messages:
  assumes "pg_open fc c" "well_framed fc (ds_buf (dir_of fc c) @ payload)"
  shows "snd (pktPGDecode lib p c fc payload ts)
     = with_buf fc (snd (drain (pg_read fc) (ds_buf (dir_of fc c) @ payload)))
         (pg_messages lib fc ts c (fst (drain (pg_read fc) (ds_buf (dir_of fc c) @ payload))))"
proof -
  let ?c = "with_buf fc (ds_buf (dir_of fc c) @ payload) c"
  have "snd (pktPGDecode lib p c fc payload ts) = fst (snd (pg_app_loop lib fc ts p ?c [] 0))"
    using assms(1) pg_answers_open [OF assms(1)]
    by (simp add: pktPGDecode_def Let_def with_buf_def [symmetric] pg_open_def)
  also have "\<dots> = with_buf fc (snd (drain (pg_read fc) (ds_buf (dir_of fc c) @ payload)))
         (pg_messages lib fc ts ?c (fst (drain (pg_read fc) (ds_buf (dir_of fc c) @ payload))))"
    using pg_app_loop_messages [of fc ?c lib ts p "[]" 0] assms by simp
  finally show ?thesis by (simp add: pg_messages_commute)
qed

text \<open>The frames of one direction, one after the other, each with a segment of the stream.\<close>

fun pg_decode_all :: "pg_lib \<Rightarrow> bool \<Rightarrow> int \<Rightarrow> pktConn \<Rightarrow> (pktPacket \<times> bytes) list \<Rightarrow> pktConn" where
  "pg_decode_all lib fc ts c [] = c"
| "pg_decode_all lib fc ts c ((p, seg) # frames) = pg_decode_all lib fc ts (snd (pktPGDecode lib p c fc seg ts)) frames"

lemma pg_decode_all_feed:
  assumes "pg_open fc c" "well_framed fc (ds_buf (dir_of fc c) @ concat (map snd frames))"
  shows "pg_decode_all lib fc ts c frames
     = with_buf fc (snd (feed (pg_read fc) (ds_buf (dir_of fc c)) (map snd frames)))
         (pg_messages lib fc ts c (fst (feed (pg_read fc) (ds_buf (dir_of fc c)) (map snd frames))))"
  using assms
proof (induction frames arbitrary: c)
  case Nil
  then show ?case by (simp add: with_buf_def set_dir_def dir_of_def)
next
  case (Cons f frames)
  obtain p seg where f: "f = (p, seg)" by (cases f)
  let ?b = "ds_buf (dir_of fc c) @ seg"
  let ?d = "drain (pg_read fc) ?b"
  have w: "well_framed fc (?b @ concat (map snd frames))" using Cons.prems(2) f by simp
  have rd: "pg_readable (c_synced c) fc (pg_dir fc c)" using Cons.prems(1) by (simp add: pg_open_def)
  let ?c = "with_buf fc (snd ?d) (pg_messages lib fc ts c (fst ?d))"
  have step: "snd (pktPGDecode lib p c fc seg ts) = ?c"
    by (rule pktPGDecode_messages [OF Cons.prems(1) well_framed_prefix [OF w]])
  have "pg_open fc ?c" using pg_open_keeps [OF pg_messages_keeps Cons.prems(1)] by simp
  moreover have "well_framed fc (ds_buf (dir_of fc ?c) @ concat (map snd frames))"
    using pg_drain_well_framed [OF rd well_framed_prefix [OF w]] w by simp
  ultimately have "pg_decode_all lib fc ts ?c frames
     = with_buf fc (snd (feed (pg_read fc) (snd ?d) (map snd frames)))
         (pg_messages lib fc ts ?c (fst (feed (pg_read fc) (snd ?d) (map snd frames))))"
    using Cons.IH [of ?c] by simp
  then show ?case
    using step f by (simp add: case_prod_beta Let_def pg_messages_append pg_messages_commute)
qed

lemma pg_decode_all_messages:
  assumes "pg_open fc c" "ds_buf (dir_of fc c) = []" "\<forall>m \<in> set ms. pg_msg_ok fc m"
    "concat (map snd frames) = pg_encs ms"
  shows "pg_decode_all lib fc ts c frames = pg_messages lib fc ts c ms"
proof -
  have "well_framed fc (ds_buf (dir_of fc c) @ concat (map snd frames))"
    unfolding well_framed_def using assms(2,3,4) by (metis append_Nil append_Nil2)
  moreover have "feed (pg_read fc) [] (map snd frames) = (ms, [])"
    using pgr.feed_start [of fc "map snd frames"] drain_encs [OF assms(3)] assms(4) by simp
  ultimately have "pg_decode_all lib fc ts c frames = with_buf fc [] (pg_messages lib fc ts c ms)"
    using pg_decode_all_feed [OF assms(1), of frames lib ts] assms(2) by simp
  moreover have "ds_buf (dir_of fc (pg_messages lib fc ts c ms)) = []"
    using pg_messages_keeps [of fc c lib ts ms] assms(2) by (simp add: pg_keeps_def)
  then have "with_buf fc [] (pg_messages lib fc ts c ms) = pg_messages lib fc ts c ms"
    by (simp add: with_buf_def set_dir_def dir_of_def split: if_splits)
  ultimately show ?thesis by simp
qed

text \<open>
  C6. What a PostgreSQL stream does to a connection does not depend on how TCP cut it: for a direction that
  can be read, decoding the frames of any segmentation one after the other leaves the connection exactly as
  the messages of the stream do, taken one by one and whole. In particular no message is lost, repeated or
  split, and nothing stays in the buffer.
\<close>

theorem pg_decode_segmentation:
  assumes "pg_open fc c" "ds_buf (dir_of fc c) = []" "\<forall>m \<in> set ms. pg_msg_ok fc m"
    "concat (map snd frames) = pg_encs ms"
  shows "pg_decode_all lib fc ts c frames = pg_messages lib fc ts c ms"
  using assms by (rule pg_decode_all_messages)

definition plain_lib :: pg_lib where
  "plain_lib = \<lparr>lib_Quote = (\<lambda>s. s), lib_ToUpper = map go_upper_char, lib_ms0 = (\<lambda>d. go_Itoa (d div 10 ^ 6)),
     lib_ms1 = (\<lambda>d. go_Itoa (d div 10 ^ 6)), lib_s0 = (\<lambda>d. go_Itoa (d div 10 ^ 9))\<rparr>"

lemma pg_decode_segmentation_witness:
  "pg_decode_all plain_lib False 7 (new_conn\<lparr>c_synced := True\<rparr>) [(new_packet, [90, 0, 0]), (new_packet, [0, 5, 73])]
   = pg_messages plain_lib False 7 (new_conn\<lparr>c_synced := True\<rparr>) [(90, [73])]"
proof (rule pg_decode_segmentation)
  show "pg_open False (new_conn\<lparr>c_synced := True\<rparr>)"
    by (simp add: pg_open_def pg_readable_def new_conn_def new_pgconn_def)
  show "ds_buf (dir_of False (new_conn\<lparr>c_synced := True\<rparr>)) = []"
    by (simp add: dir_of_def new_conn_def new_dir_def)
  show "\<forall>m \<in> set [(90, [73])]. pg_msg_ok False m"
    by (simp add: pg_msg_ok_def pgMaxMsgLen_def pgKnownType_def)
  have "le_enc 4 5 = [5, 0, 0, 0]" by code_simp
  then show "concat (map snd [(new_packet, [90, 0, 0]), (new_packet, [0, 5, 73])]) = pg_encs [(90, [73])]"
    by (simp add: pg_enc_def)
qed

section \<open>Result sets\<close>

lemma unat_chr [simp]: "unat (chr c) = of_char c"
  using nat_of_char_less_256 [of c] by (simp add: chr_def unat_of_nat)

lemma chr_eq [simp]: "chr c = chr d \<longleftrightarrow> c = d"
  by (metis of_char_eq_iff unat_chr)

lemma pg_data_row_counts:
  "pd_rows (pg_dir False (conn_of (pg_data_row p c body))) = pd_rows (pg_dir False c) + 1"
  "pd_cols (pg_dir False (conn_of (pg_data_row p c body))) = pd_cols (pg_dir False c)"
  "pd_resultBytes (pg_dir False (conn_of (pg_data_row p c body))) = pd_resultBytes (pg_dir False c) + length body"
  by (simp_all add: pg_data_row_def Let_def)

lemma pg_one_row: "pg_one lib False ts p c (chr CHR ''D'', r) = pg_data_row p c r"
  by (simp add: pg_one_def pktPGServer_def)

lemma pg_rows_counted:
  fixes rows :: "bytes list" and lib :: pg_lib and ts :: int
  defines "run c \<equiv> pg_dir False (pg_messages lib False ts c (map (Pair (chr CHR ''D'')) rows))"
  shows "pd_rows (run c) = pd_rows (pg_dir False c) + length rows"
    "pd_cols (run c) = pd_cols (pg_dir False c)"
    "pd_resultBytes (run c) = pd_resultBytes (pg_dir False c) + length (concat rows)"
  unfolding run_def by (induction rows arbitrary: c) (simp_all add: pg_one_row pg_data_row_counts)

lemma pg_row_description_counts:
  fixes lib :: pg_lib and ts :: int and p :: pktPacket
  defines "d body c \<equiv> pg_dir False (conn_of (pg_one lib False ts p c (chr CHR ''T'', body)))"
  shows "pd_rows (d body c) = 0" "pd_resultBytes (d body c) = 0" "pd_cols (d body c) = fst (pgRowDescription body)"
  unfolding d_def by (simp_all add: pg_one_def pktPGServer_def pg_row_description_def Let_def case_prod_beta)

lemma pgString_terminated:
  assumes "0 \<notin> set b"
  shows "pgString (b @ 0 # r) = str b"
proof -
  have "takeWhile (\<lambda>x. x \<noteq> 0) (b @ 0 # r) = b" using assms by (subst takeWhile_append2) auto
  then show ?thesis by (simp add: pgString_def indexByte_def)
qed

text \<open>
  C28. A PostgreSQL result set is reported exactly, however it was cut into segments: after a
  RowDescription and any number of DataRows, decoded frame by frame, the line of the CommandComplete gives
  the number of rows, the number of columns the description declared and the size of the rows, the frame
  carries the row count, and the direction starts the next result from zero.
\<close>

theorem pg_result_set_counted:
  assumes "pg_open False c" "ds_buf (dir_of False c) = []"
    and "\<forall>m \<in> set ms. pg_msg_ok False m" "ms = (chr CHR ''T'', desc) # map (Pair (chr CHR ''D'')) rows"
    and "concat (map snd frames) = pg_encs ms" "rows \<noteq> []" "0 \<notin> set tag"
    and r: "r = pktPGServer lib p (pg_decode_all lib False ts c frames) (chr CHR ''C'') (tag @ [0]) ts"
    and cols: "cols = fst (pgRowDescription desc)"
  shows "info_of r = ''Result set complete: '' @ go_utoa (length rows) @ '' row(s)''
           @ (if cols > 0 then '', '' @ go_utoa cols @ '' column(s)'' else [])
           @ '', '' @ pktBytes (length (concat rows)) @ '' '' @ em_dash @ '' '' @ str tag
       \<and> p_Rows (fst (snd r)) = int (length rows) \<and> p_Status (fst (snd r)) = ''Success''
       \<and> pd_rows (pg_dir False (conn_of r)) = 0 \<and> pd_resultBytes (pg_dir False (conn_of r)) = 0"
proof -
  let ?c = "pg_decode_all lib False ts c frames"
  have c: "?c = pg_messages lib False ts c ms" by (rule pg_decode_all_messages [OF assms(1,2,3,5)])
  have "pd_rows (pg_dir False ?c) = length rows" "pd_cols (pg_dir False ?c) = cols"
    "pd_resultBytes (pg_dir False ?c) = length (concat rows)"
    unfolding c assms(4) cols by (simp_all add: pg_rows_counted pg_row_description_counts)
  moreover have "r = pg_complete p ?c (tag @ [0])" by (simp add: r pktPGServer_def)
  ultimately show ?thesis
    using assms(6) pgString_terminated [OF assms(7), of "[]"] by (simp add: pg_complete_def Let_def)
qed

lemma pg_result_set_counted_witness:
  "info_of (pktPGServer plain_lib new_packet
     (pg_decode_all plain_lib False 7 (new_conn\<lparr>c_synced := True\<rparr>)
        [(new_packet, [84, 0, 0, 0]), (new_packet, [6, 0, 1, 68, 0, 0, 0, 5]), (new_packet, [9])])
     (chr CHR ''C'') ([79, 75] @ [0]) 7)
   = ''Result set complete: 1 row(s), 1 column(s), 1 B '' @ em_dash @ '' OK''"
proof -
  have chrs: "chr CHR ''T'' = 84" "chr CHR ''D'' = 68" by code_simp+
  have enc: "le_enc 4 5 = [5, 0, 0, 0]" "le_enc 4 6 = [6, 0, 0, 0]" by code_simp+
  let ?ms = "(chr CHR ''T'', [0, 1]) # map (Pair (chr CHR ''D'')) [[9]]"
  let ?frames = "[(new_packet, [84, 0, 0, 0]), (new_packet, [6, 0, 1, 68, 0, 0, 0, 5]), (new_packet, [9 :: byte])]"
  have "pg_open False (new_conn\<lparr>c_synced := True\<rparr>)" "ds_buf (dir_of False (new_conn\<lparr>c_synced := True\<rparr>)) = []"
    by (simp_all add: pg_open_def pg_readable_def new_conn_def new_pgconn_def dir_of_def new_dir_def)
  moreover have "\<forall>m \<in> set ?ms. pg_msg_ok False m"
    by (simp add: chrs pg_msg_ok_def pgMaxMsgLen_def pgKnownType_def)
  moreover have "concat (map snd ?frames) = pg_encs ?ms" by (simp add: chrs enc pg_enc_def)
  moreover have "fst (pgRowDescription [0, 1]) = 1" "str [79, 75] = ''OK''" "pktBytes 1 = ''1 B''" "go_utoa 1 = ''1''" by code_simp+
  ultimately show ?thesis
    using pg_result_set_counted [of "new_conn\<lparr>c_synced := True\<rparr>" ?ms "[0, 1]" "[[9]]" ?frames "[79, 75]" _ plain_lib new_packet 7, OF _ _ _ refl _ _ _ refl refl]
    by simp
qed

text \<open>
  The reason of a CopyFail reaches the line and the issues as it came, control bytes included: no
  \<^const>\<open>pktPrintable\<close> stands in between.
\<close>

lemma pg_copyfail_unfiltered:
  assumes "0 \<notin> set b"
  shows "pktPGClient lib p c (chr CHR ''f'') (b @ [0]) ts =
     (''CopyFail: '' @ pktEllipsis (str b) 120, add_issue (''COPY aborted by the client: '' @ pktEllipsis (str b) 120) p, c)"
proof -
  have "chr CHR ''f'' \<noteq> 0" by code_simp
  then show ?thesis
    using pgString_terminated [OF assms, of "[]"] by (simp add: pktPGClient_def Let_def)
qed

end
