(* ===== verification/Pkt_Cluster.thy ===== *)
theory Pkt_Cluster
  imports Pkt_State Mysql_Decode Pg_Decode
begin

text \<open>
  The ports of a cluster that carry something else than the database's own protocol: Galera's group
  communication and state transfers (\<^verbatim>\<open>src/app/pktgalera.go\<close>), and Patroni's REST API and etcd around a
  PostgreSQL cluster (\<^verbatim>\<open>src/app/pktpgha.go\<close>). The decoders name what is definite on the wire and count the
  rest; the helpers that read HTTP/1.x and the frame layer of HTTP/2 are here too.
\<close>

section \<open>Ports and roles\<close>

definition galeraGCSPort :: nat where "galeraGCSPort = 4567"
definition galeraISTPort :: nat where "galeraISTPort = 4568"
definition galeraSSTPort :: nat where "galeraSSTPort = 4444"

definition pktRoleMySQL :: string where "pktRoleMySQL = ''mysql''"
definition pktRoleGaleraGCS :: string where "pktRoleGaleraGCS = ''galera-gcs''"
definition pktRoleGaleraIST :: string where "pktRoleGaleraIST = ''galera-ist''"
definition pktRoleGaleraSST :: string where "pktRoleGaleraSST = ''galera-sst''"

definition pktRolePostgres :: string where "pktRolePostgres = ''postgres''"
definition pktRolePatroniREST :: string where "pktRolePatroniREST = ''patroni-rest''"
definition pktRoleEtcdClient :: string where "pktRoleEtcdClient = ''etcd-client''"
definition pktRoleEtcdPeer :: string where "pktRoleEtcdPeer = ''etcd-peer''"

lemmas role_defs = pktRoleMySQL_def pktRoleGaleraGCS_def pktRoleGaleraIST_def pktRoleGaleraSST_def
  pktRolePostgres_def pktRolePatroniREST_def pktRoleEtcdClient_def pktRoleEtcdPeer_def

definition pgClientPort :: nat where "pgClientPort = 5432"
definition pgBouncerPort :: nat where "pgBouncerPort = 6432"
definition pgProxyRWPort :: nat where "pgProxyRWPort = 5000"
definition pgProxyROPort :: nat where "pgProxyROPort = 5001"
definition patroniRESTPort :: nat where "patroniRESTPort = 8008"
definition etcdClientPort :: nat where "etcdClientPort = 2379"
definition etcdPeerPort :: nat where "etcdPeerPort = 2380"

text \<open>
  A Go map literal with keys that are not constants: were two of them equal, the later entry would win, as
  in a chain of updates.
\<close>

definition pktGaleraPortRoles :: "nat \<Rightarrow> nat \<rightharpoonup> string" where
  "pktGaleraPortRoles mysqlPort =
     Map.empty(mysqlPort \<mapsto> pktRoleMySQL, galeraGCSPort \<mapsto> pktRoleGaleraGCS, galeraISTPort \<mapsto> pktRoleGaleraIST,
       galeraSSTPort \<mapsto> pktRoleGaleraSST)"

definition pktPGPortRoles :: "nat \<Rightarrow> nat \<rightharpoonup> string" where
  "pktPGPortRoles clientPort =
     Map.empty(clientPort \<mapsto> pktRolePostgres, pgBouncerPort \<mapsto> pktRolePostgres, pgProxyRWPort \<mapsto> pktRolePostgres,
       pgProxyROPort \<mapsto> pktRolePostgres, patroniRESTPort \<mapsto> pktRolePatroniREST, etcdClientPort \<mapsto> pktRoleEtcdClient,
       etcdPeerPort \<mapsto> pktRoleEtcdPeer)"

definition pktRoleLabel :: "string \<Rightarrow> string" where
  "pktRoleLabel role =
     (if role = pktRoleGaleraGCS then ''Galera/GCS''
      else if role = pktRoleGaleraIST then ''Galera/IST''
      else if role = pktRoleGaleraSST then ''Galera/SST''
      else ''MySQL'')"

definition pktRoleDescription :: "string \<Rightarrow> string" where
  "pktRoleDescription role =
     (if role = pktRoleGaleraGCS then ''group communication: heartbeats, quorum and write-set replication between all members''
      else if role = pktRoleGaleraIST then ''incremental state transfer: a rejoining member catching up from the donor'' @ [CHR 0x27] @ ''s writeset cache''
      else if role = pktRoleGaleraSST then ''state snapshot transfer: a full physical copy of the dataset from a donor''
      else ''MySQL client/server protocol'')"

definition pktPGIsPostgresRole :: "string \<Rightarrow> bool" where
  "pktPGIsPostgresRole role \<longleftrightarrow> role = pktRolePostgres"

definition pktPGRoleLabel :: "string \<Rightarrow> string" where
  "pktPGRoleLabel role =
     (if role = pktRolePatroniREST then ''Patroni/REST''
      else if role = pktRoleEtcdClient then ''etcd/client''
      else if role = pktRoleEtcdPeer then ''etcd/raft''
      else if role = pktRolePostgres then ''PostgreSQL''
      else [])"

definition pktPGRoleDescription :: "string \<Rightarrow> string" where
  "pktPGRoleDescription role =
     (if role = pktRolePatroniREST then ''Patroni'' @ [CHR 0x27] @ ''s REST API: HAProxy'' @ [CHR 0x27] @ ''s health checks, patronictl, and every member'' @ [CHR 0x27] @ ''s view of the cluster''
      else if role = pktRoleEtcdClient then ''etcd client API: where Patroni takes and renews the leader lock '' @ em_dash @ '' losing it demotes the member''
      else if role = pktRoleEtcdPeer then ''etcd peer traffic: raft heartbeats and log replication between the etcd members themselves''
      else if role = pktRolePostgres then ''PostgreSQL frontend/backend protocol '' @ em_dash @ '' client sessions and WAL streaming alike''
      else [])"

section \<open>Galera\<close>

definition pktSSTFormat :: "bytes \<Rightarrow> string" where
  "pktSSTFormat b =
     (if length b \<ge> 8 \<and> str (take 8 b) = ''XBSTCK01'' then ''xbstream / xtrabackup''
      else if length b \<ge> 8 \<and> go_HasPrefix (str b) ''@RSYNCD:'' then ''rsync''
      else if length b \<ge> 2 \<and> b ! 0 = 0x1f \<and> b ! 1 = 0x8b then ''gzip stream''
      else if length b \<ge> 4 \<and> take 4 b = [0x28, 0xb5, 0x2f, 0xfd] then ''zstd stream''
      else if length b \<ge> 3 \<and> str (take 3 b) = ''-- '' then ''mysqldump (SQL text)''
      else if pktMostlyPrintable (take (min (length b) 64) b) then ''text stream''
      else ''binary stream'')"

text \<open>The bytes of a direction are counted on every frame.\<close>

definition count_app :: "bool \<Rightarrow> bytes \<Rightarrow> pktConn \<Rightarrow> pktConn" where
  "count_app fromClient payload c =
     set_dir fromClient ((dir_of fromClient c)\<lparr>ds_appBytes := ds_appBytes (dir_of fromClient c) + length payload\<rparr>) c"

definition galera_ist :: "pktPacket \<Rightarrow> pktConn \<Rightarrow> bool \<Rightarrow> bytes \<Rightarrow> pktPacket \<times> pktConn" where
  "galera_ist p c fromClient payload =
     (let d = dir_of fromClient c in
      if \<not> c_xferAnnounced c then
        (add_issue (''Galera IST started '' @ em_dash @ '' a member is catching up incrementally (the cheap path)'')
           (p\<lparr>p_Info := ''IST stream begins, '' @ go_utoa (length payload) @ '' bytes''\<rparr>),
         set_dir fromClient (d\<lparr>ds_xferStarted := True\<rparr>) (c\<lparr>c_xferAnnounced := True\<rparr>))
      else
        (p\<lparr>p_Info := ''IST data, '' @ go_utoa (length payload) @ '' bytes ('' @ pktBytes (ds_appBytes d) @ '' so far)''\<rparr>, c))"

definition galera_sst :: "pktPacket \<Rightarrow> pktConn \<Rightarrow> bool \<Rightarrow> bytes \<Rightarrow> pktPacket \<times> pktConn" where
  "galera_sst p c fromClient payload =
     (let d = dir_of fromClient c in
      if \<not> c_xferAnnounced c then
        let format = pktSSTFormat payload in
        (add_issue (''Galera SST started ('' @ format @ '') '' @ em_dash @ '' the donor is streaming its full dataset'')
           (p\<lparr>p_Info := ''SST stream begins: '' @ format @ '', '' @ go_utoa (length payload) @ '' bytes''\<rparr>),
         set_dir fromClient (d\<lparr>ds_xferStarted := True, ds_xferFormat := format\<rparr>)
           (c\<lparr>c_xferAnnounced := True, c_xferFormat := format\<rparr>))
      else
        let format = (if ds_xferFormat d = [] then c_xferFormat c else ds_xferFormat d);
            p1 = p\<lparr>p_Info := ''SST data ('' @ format @ ''), '' @ go_utoa (length payload) @ '' bytes ('' @ pktBytes (ds_appBytes d)
              @ '' so far)''\<rparr>
        in if ds_appBytes d \<ge> pktBigResultBytes \<and> \<not> c_xferBig c then
             (add_issue (''Galera SST is large '' @ em_dash @ '' '' @ pktBytes (ds_appBytes d) @ '' transferred so far on this connection'') p1,
              c\<lparr>c_xferBig := True\<rparr>)
           else (p1, c))"

definition pktGaleraDecode :: "pktPacket \<Rightarrow> pktConn \<Rightarrow> bool \<Rightarrow> string \<Rightarrow> bytes \<Rightarrow> pktPacket \<times> pktConn" where
  "pktGaleraDecode p c fromClient role payload =
     (let p1 = p\<lparr>p_Proto := pktRoleLabel role\<rparr>; c1 = count_app fromClient payload c in
      if role = pktRoleGaleraGCS then
        (p1\<lparr>p_Info := ''Group communication, '' @ go_utoa (length payload) @ '' bytes''\<rparr>, c1)
      else if role = pktRoleGaleraIST then galera_ist p1 c1 fromClient payload
      else if role = pktRoleGaleraSST then galera_sst p1 c1 fromClient payload
      else (p1, c1))"

section \<open>HTTP\<close>

definition pktHTTPFirstLine :: "bytes \<Rightarrow> string" where
  "pktHTTPFirstLine b =
     (let at = (\<lambda>x. case indexByte b x of Some i \<Rightarrow> if i > 0 then Some i else None | None \<Rightarrow> None);
          cut = (case at 13 of Some i \<Rightarrow> Some i | None \<Rightarrow> at 10)
      in if length b < 5 \<or> length b > 2 ^ 20 then []
         else case cut of
           None \<Rightarrow> []
         | Some i \<Rightarrow>
             if \<not> pktMostlyPrintable (take i b) then []
             else if go_HasPrefix (str (take i b)) ''HTTP/'' \<or> go_Contains (str (take i b)) '' HTTP/1.'' then str (take i b)
             else [])"

definition pktHTTPRequest :: "string \<Rightarrow> string \<times> string" where
  "pktHTTPRequest line =
     (let f = go_Fields line in
      if length f < 3 \<or> \<not> go_HasPrefix (f ! 2) ''HTTP/'' then ([], [])
      else if f ! 0 \<in> set [''GET'', ''POST'', ''PUT'', ''PATCH'', ''DELETE'', ''HEAD'', ''OPTIONS''] then (f ! 0, f ! 1)
      else ([], []))"

text \<open>\<^verbatim>\<open>strings.SplitN(line, " ", 3)\<close> read as the second part and the third.\<close>

definition pktHTTPStatus :: "string \<Rightarrow> int \<times> string" where
  "pktHTTPStatus line =
     (if \<not> go_HasPrefix line ''HTTP/'' then (0, [])
      else
        let (_, r1, two) = go_Cut line CHR '' ''; (second, r2, three) = go_Cut r1 CHR '' '' in
        if \<not> two then (0, [])
        else
          case go_ParseInt second of
            None \<Rightarrow> (0, [])
          | Some code \<Rightarrow> if code < 100 \<or> code > 599 then (0, []) else (code, if three then pktPrintable r2 else []))"

definition pktHTTPBody :: "bytes \<Rightarrow> string" where
  "pktHTTPBody b =
     (case go_Index (str b) [CHR 13, CHR 10, CHR 13, CHR 10] of
        None \<Rightarrow> []
      | Some i \<Rightarrow>
          if i + 4 \<ge> length b then []
          else let body = take 4096 (drop (i + 4) b) in if pktMostlyPrintable body then str body else [])"

section \<open>Patroni\<close>

definition pktJSONScalar :: "string \<Rightarrow> string \<Rightarrow> string" where
  "pktJSONScalar s key =
     (case go_Index s ([CHR 0x22] @ key @ [CHR 0x22]) of
        None \<Rightarrow> []
      | Some i \<Rightarrow>
          let rest = go_TrimSpace (drop (i + length key + 2) s) in
          if \<not> go_HasPrefix rest '':'' then []
          else
            let rest1 = go_TrimSpace (drop 1 rest) in
            if go_HasPrefix rest1 [CHR 0x22] then
              (let val = takeWhile (\<lambda>x. x \<noteq> CHR 0x22) (drop 1 rest1)
               in if length val < length (drop 1 rest1) then pktPrintable val else [])
            else pktPrintable (go_TrimSpace (takeWhile (\<lambda>x. x \<notin> {CHR '','', CHR ''}'', CHR 10}) rest1)))"

definition pktPatroniJSONNote :: "string \<Rightarrow> string" where
  "pktPatroniJSONNote body =
     (let part = (\<lambda>key. let v = pktJSONScalar body key in if v \<noteq> [] then [key @ ''='' @ v] else []);
          parts = concat (map part [''role'', ''state'', ''timeline'', ''pending_restart'', ''paused''])
            @ (if go_Contains body ([CHR 0x22] @ ''scheduled_switchover'' @ [CHR 0x22]) then [''a switchover is scheduled''] else [])
      in go_Join parts '' '')"

text \<open>\<^verbatim>\<open>strings.SplitN(strings.TrimPrefix(path, "/"), "?", 2)[0]\<close> in lower case.\<close>

definition endpoint_base :: "string \<Rightarrow> string" where
  "endpoint_base path = go_Map lower_rune (takeWhile (\<lambda>x. x \<noteq> CHR ''?'') (go_TrimPrefix path ''/''))"

definition pktPatroniEndpoint :: "string \<Rightarrow> string \<Rightarrow> string" where
  "pktPatroniEndpoint verb path =
     (let base = endpoint_base path in
      if base \<in> set [''primary'', ''master'', ''leader'', ''read-write''] then
        [CHR 0x22] @ ''am I the leader?'' @ [CHR 0x22] @ '' '' @ em_dash @ '' 200 yes, 503 no; this is HAProxy'' @ [CHR 0x27] @ ''s write-port health check''
      else if base \<in> set [''replica'', ''read-only''] then [CHR 0x22] @ ''am I a healthy replica?'' @ [CHR 0x22] @ '' '' @ em_dash @ '' HAProxy'' @ [CHR 0x27] @ ''s read-port health check''
      else if base \<in> set [''sync'', ''quorum'', ''async''] then ''synchronous-standby state check''
      else if base \<in> set [''health'', ''liveness'', ''readiness''] then ''liveness/readiness probe''
      else if base = ''cluster'' then ''the whole cluster'' @ [CHR 0x27] @ ''s state as this member sees it (what patronictl list prints)''
      else if base = ''patroni'' \<or> base = [] then ''this member'' @ [CHR 0x27] @ ''s own state, timeline and role''
      else if base = ''config'' then
        (if verb = ''PATCH'' \<or> verb = ''PUT'' then ''changing the cluster-wide configuration held in the DCS''
         else ''the cluster-wide configuration held in the DCS'')
      else if base = ''switchover'' then ''a controlled role change '' @ em_dash @ '' the leader steps down to a named candidate''
      else if base = ''failover'' then ''a failover '' @ em_dash @ '' promoting a member without the current leader'' @ [CHR 0x27] @ ''s cooperation''
      else if base = ''restart'' \<or> base = ''reload'' then ''restarting or reloading PostgreSQL through Patroni''
      else if base = ''reinitialize'' then ''wiping this member'' @ [CHR 0x27] @ ''s data directory and re-cloning it from the leader''
      else ''Patroni REST endpoint'')"

definition pktPatroniStatusNote :: "string \<Rightarrow> int \<Rightarrow> string" where
  "pktPatroniStatusNote path code =
     (let base = endpoint_base path;
          leader = (base = ''primary'' \<or> base = ''master'' \<or> base = ''leader'');
          replica = (base = ''replica'' \<or> base = ''read-only'')
      in if code = 200 \<and> leader then '' '' @ em_dash @ '' this member IS the leader''
         else if code = 503 \<and> leader then '' '' @ em_dash @ '' this member is not the leader (normal for a replica)''
         else if code = 200 \<and> replica then '' '' @ em_dash @ '' a healthy replica''
         else if code = 503 \<and> replica then '' '' @ em_dash @ '' not a healthy replica right now (the leader answers this way too)''
         else if code = 202 then '' '' @ em_dash @ '' accepted; the action runs asynchronously''
         else if code = 412 then '' '' @ em_dash @ '' precondition failed: the cluster is not in a state that allows it''
         else if code = 503 then '' '' @ em_dash @ '' declining''
         else [])"

definition set_lastPath :: "string \<Rightarrow> pktConn \<Rightarrow> pktConn" where
  "set_lastPath path c = c\<lparr>c_pgha := (c_pgha c)\<lparr>ha_lastPath := path\<rparr>\<rparr>"

definition patroni_response :: "pktPacket \<Rightarrow> pktConn \<Rightarrow> string \<Rightarrow> bytes \<Rightarrow> pktPacket" where
  "patroni_response p c line payload =
     (let (code, reason) = pktHTTPStatus line in
      if code = 0 then p\<lparr>p_Info := pktEllipsis line 120\<rparr>
      else
        let body = pktHTTPBody payload; jnote = (if body \<noteq> [] then pktPatroniJSONNote body else []);
            p1 = p\<lparr>p_Status := go_Itoa code @ '' '' @ reason,
                   p_Info := ''HTTP '' @ go_Itoa code @ '' '' @ reason @ pktPatroniStatusNote (ha_lastPath (c_pgha c)) code
                     @ (if jnote \<noteq> [] then '' | '' @ jnote else [])\<rparr>
        in if code \<ge> 500 \<and> code \<noteq> 503 then
             add_issue (''Patroni REST returned '' @ go_Itoa code @ '' '' @ em_dash @ '' Patroni itself is failing, not just declining to be the leader; HAProxy will route away from this member and patronictl will not be able to drive it either'') p1
           else p1)"

definition pktPatroniDecode :: "pktPacket \<Rightarrow> pktConn \<Rightarrow> bool \<Rightarrow> bytes \<Rightarrow> pktPacket \<times> pktConn" where
  "pktPatroniDecode p c fromClient payload =
     (let p1 = p\<lparr>p_Proto := pktPGRoleLabel pktRolePatroniREST\<rparr>; c1 = count_app fromClient payload c;
          line = pktHTTPFirstLine payload
      in if line = [] then
           let jnote = pktPatroniJSONNote (str payload) in
           (p1\<lparr>p_Info := (if jnote \<noteq> [] then ''Patroni response body ('' @ go_utoa (length payload) @ '' bytes): '' @ jnote
                          else ''Patroni REST data, '' @ go_utoa (length payload) @ '' bytes'')\<rparr>, c1)
         else if fromClient then
           let (verb, path) = pktHTTPRequest line in
           if verb = [] then (p1\<lparr>p_Info := pktEllipsis line 120\<rparr>, c1)
           else (p1\<lparr>p_Command := verb @ '' '' @ path,
                    p_Info := verb @ '' '' @ path @ '' '' @ em_dash @ '' '' @ pktPatroniEndpoint verb path\<rparr>, set_lastPath path c1)
         else (patroni_response p1 c1 line payload, c1))"

section \<open>etcd\<close>

definition pktEtcdPath :: "string \<Rightarrow> string" where
  "pktEtcdPath path =
     (if path = [] then ''etcd''
      else if go_HasPrefix path ''/raft/stream'' then ''raft stream: a long-lived connection carrying log entries and heartbeats between etcd members''
      else if go_HasPrefix path ''/raft'' then ''raft message''
      else if go_HasPrefix path ''/v3/kv/txn'' then ''a transaction '' @ em_dash @ '' how Patroni takes the leader lock atomically''
      else if go_HasPrefix path ''/v3/kv/range'' then ''reading keys '' @ em_dash @ '' the cluster state Patroni acts on''
      else if go_HasPrefix path ''/v3/kv/put'' then ''writing a key '' @ em_dash @ '' a member updating its own state''
      else if go_HasPrefix path ''/v3/lease'' then ''a lease '' @ em_dash @ '' the TTL behind the leader lock; when it expires, the leader is gone''
      else if go_HasPrefix path ''/v3/watch'' then ''a watch '' @ em_dash @ '' waiting for another member'' @ [CHR 0x27] @ ''s change''
      else if go_HasPrefix path ''/v2/keys'' then ''etcd v2 key API''
      else if go_HasPrefix path ''/version'' \<or> go_HasPrefix path ''/health'' then ''etcd liveness check''
      else ''etcd API'')"

definition pktEtcdMethodNote :: "string \<Rightarrow> string" where
  "pktEtcdMethodNote m =
     (if go_Contains m ''Lease/LeaseKeepAlive'' then ''renewing the lease that holds the leader lock; when these stop, the lock expires and the cluster fails over''
      else if go_Contains m ''Lease/LeaseGrant'' then ''taking a new lease''
      else if go_Contains m ''KV/Txn'' then ''an atomic compare-and-set '' @ em_dash @ '' how the leader lock is contested''
      else if go_Contains m ''KV/Range'' then ''reading cluster state''
      else if go_Contains m ''KV/Put'' then ''writing member state''
      else if go_Contains m ''Watch/Watch'' then ''watching for changes made by other members''
      else if go_Contains m ''Maintenance/Status'' then ''an etcd health/status check''
      else [])"

definition method_char :: "char \<Rightarrow> bool" where
  "method_char x \<longleftrightarrow> x = CHR ''/'' \<or> x = CHR ''.'' \<or> (CHR ''A'' \<le> x \<and> x \<le> CHR ''Z'') \<or> (CHR ''a'' \<le> x \<and> x \<le> CHR ''z'')
     \<or> (CHR ''0'' \<le> x \<and> x \<le> CHR ''9'')"

definition pktGRPCMethod :: "bytes \<Rightarrow> string" where
  "pktGRPCMethod b =
     (case go_Index (str b) ''/etcdserverpb.'' of None \<Rightarrow> [] | Some i \<Rightarrow> takeWhile method_char (drop i (str b)))"

definition http2_names :: "(byte \<times> string) list" where
  "http2_names = [(0, ''DATA''), (1, ''HEADERS''), (2, ''PRIORITY''), (3, ''RST_STREAM''), (4, ''SETTINGS''), (5, ''PUSH_PROMISE''),
     (6, ''PING''), (7, ''GOAWAY''), (8, ''WINDOW_UPDATE''), (9, ''CONTINUATION'')]"

text \<open>The frames at the head of the payload, at most as many as the first argument says.\<close>

fun http2_loop :: "nat \<Rightarrow> bytes \<Rightarrow> string \<Rightarrow> string list \<times> string" where
  "http2_loop 0 b verb = ([], verb)"
| "http2_loop (Suc k) b verb =
     (if length b < 9 then ([], verb)
      else
        let l = be_nat (take 3 b); typ = b ! 3; stream = be_u32 (drop 5 b) mod 2 ^ 31 in
        case map_of http2_names typ of
          None \<Rightarrow> ([], verb)
        | Some name \<Rightarrow>
            if 9 + l > length b then ([], verb)
            else
              let m = pktGRPCMethod (slice 9 (9 + l) b);
                  verb1 = (if (typ = 1 \<or> typ = 9) \<and> m \<noteq> [] \<and> verb = [] then m else verb);
                  this = (if typ = 1 \<or> typ = 9 then name @ ''(stream '' @ go_utoa stream @ '')''
                          else if typ = 7 then ''GOAWAY '' @ em_dash @ '' the connection is being closed by the peer''
                          else if typ = 3 then ''RST_STREAM(stream '' @ go_utoa stream @ '')''
                          else name @ ''('' @ go_utoa l @ '' bytes)'');
                  (seen, verb2) = http2_loop k (drop (9 + l) b) verb1
              in (this # seen, verb2))"

definition pktHTTP2Frames :: "bytes \<Rightarrow> string \<times> string" where
  "pktHTTP2Frames b =
     (let (seen, verb) = http2_loop 8 b [] in if seen = [] then ([], []) else (''HTTP/2 '' @ go_Join seen '', '', verb))"

definition set_http2 :: "pktConn \<Rightarrow> pktConn" where
  "set_http2 c = c\<lparr>c_pgha := (c_pgha c)\<lparr>ha_http2 := True\<rparr>\<rparr>"

text \<open>The head of an HTTP/1.x message; \<open>None\<close> where the code goes on to the frames of HTTP/2.\<close>

definition etcd_http :: "pktPacket \<Rightarrow> pktConn \<Rightarrow> string \<Rightarrow> (pktPacket \<times> pktConn) option" where
  "etcd_http p c line =
     (let (verb, path) = pktHTTPRequest line; (code, reason) = pktHTTPStatus line in
      if verb \<noteq> [] then
        Some (p\<lparr>p_Command := verb @ '' '' @ path, p_Info := verb @ '' '' @ path @ '' '' @ em_dash @ '' '' @ pktEtcdPath path\<rparr>, set_lastPath path c)
      else if code \<noteq> 0 then
        let p1 = p\<lparr>p_Status := go_Itoa code @ '' '' @ reason,
                   p_Info := ''HTTP '' @ go_Itoa code @ '' '' @ reason @ '' ('' @ pktEtcdPath (ha_lastPath (c_pgha c)) @ '')''\<rparr>
        in Some (if code \<ge> 500 then
                   add_issue (''etcd answered '' @ go_Itoa code @ '' '' @ em_dash @ '' a member that cannot read or write the DCS gives up the Patroni leader lock and demotes itself, whatever PostgreSQL is doing'') p1
                 else p1, c)
      else None)"

definition etcd_frames :: "pktPacket \<Rightarrow> pktConn \<Rightarrow> bool \<Rightarrow> string \<Rightarrow> bytes \<Rightarrow> pktPacket \<times> pktConn" where
  "etcd_frames p c fromClient role payload =
     (let (info, verb) = (if ha_http2 (c_pgha c) \<or> length payload \<ge> 9 then pktHTTP2Frames payload else ([], [])) in
      if info \<noteq> [] then
        (if verb \<noteq> [] then
           p\<lparr>p_Command := verb,
             p_Info := info @ '' | gRPC method seen in headers: '' @ verb
               @ (if pktEtcdMethodNote verb \<noteq> [] then '' '' @ em_dash @ '' '' @ pktEtcdMethodNote verb else [])\<rparr>
         else p\<lparr>p_Info := info\<rparr>, set_http2 c)
      else
        (p\<lparr>p_Info := pktPGRoleLabel role @ '' data, '' @ go_utoa (length payload) @ '' bytes (''
           @ pktBytes (ds_appBytes (dir_of fromClient c)) @ '' so far)''\<rparr>, c))"

definition pktEtcdDecode :: "pktPacket \<Rightarrow> pktConn \<Rightarrow> bool \<Rightarrow> string \<Rightarrow> bytes \<Rightarrow> pktPacket \<times> pktConn" where
  "pktEtcdDecode p c fromClient role payload =
     (let p1 = p\<lparr>p_Proto := pktPGRoleLabel role\<rparr>; c1 = count_app fromClient payload c; line = pktHTTPFirstLine payload in
      if go_HasPrefix (str payload) ''PRI * HTTP/2.0'' then
        (p1\<lparr>p_Info := ''HTTP/2 connection preface '' @ em_dash @ '' gRPC (etcd v3 API) begins''\<rparr>, set_http2 c1)
      else
        case (if line \<noteq> [] \<and> \<not> ha_http2 (c_pgha c1) then etcd_http p1 c1 line else None) of
          Some r \<Rightarrow> r
        | None \<Rightarrow> etcd_frames p1 c1 fromClient role payload)"

section \<open>What the cluster decoders promise\<close>

text \<open>A state transfer is announced once per connection, whichever direction its first bytes travel in.\<close>

definition transfer_issue :: "string \<Rightarrow> bool" where
  "transfer_issue s \<longleftrightarrow> go_HasPrefix s ''Galera IST started'' \<or> go_HasPrefix s ''Galera SST started''"

lemma count_app_simps [simp]:
  "c_xferAnnounced (count_app fc b c) = c_xferAnnounced c" "c_xferBig (count_app fc b c) = c_xferBig c"
  "ds_appBytes (dir_of fc (count_app fc b c)) = ds_appBytes (dir_of fc c) + length b"
  by (simp_all add: count_app_def set_dir_def dir_of_def)

lemma go_HasPrefix_simps [simp]:
  "go_HasPrefix (x # s) (y # t) \<longleftrightarrow> y = x \<and> go_HasPrefix s t" "go_HasPrefix s []"
  by (auto simp: go_HasPrefix_def)

lemma galera_announced_once:
  assumes "pktGaleraDecode p c fc role payload = (p', c')"
    and "role = pktRoleGaleraIST \<or> role = pktRoleGaleraSST"
  shows "filter transfer_issue (p_Issues p') = filter transfer_issue (p_Issues p)
       @ (if c_xferAnnounced c then [] else [last (p_Issues p')])
     \<and> c_xferAnnounced c'"
  using assms
  by (auto simp: pktGaleraDecode_def galera_ist_def galera_sst_def Let_def add_issue_def transfer_issue_def role_defs
      set_dir_def split: if_splits)

text \<open>The frames of a connection, in both directions, each from a frame without issues.\<close>

fun galera_run :: "string \<Rightarrow> pktConn \<Rightarrow> (bool \<times> bytes) list \<Rightarrow> pktPacket list" where
  "galera_run role c [] = []"
| "galera_run role c ((fc, payload) # frames) =
     (case pktGaleraDecode new_packet c fc role payload of (p, c') \<Rightarrow> p # galera_run role c' frames)"

lemma galera_transfer_announced:
  assumes "role = pktRoleGaleraIST \<or> role = pktRoleGaleraSST"
  shows "length (filter transfer_issue (concat (map p_Issues (galera_run role c frames))))
     = (if frames = [] \<or> c_xferAnnounced c then 0 else 1)"
proof (induction frames arbitrary: c)
  case (Cons f frames)
  obtain fc payload where f: "f = (fc, payload)" by (cases f)
  obtain p' c' where d: "pktGaleraDecode new_packet c fc role payload = (p', c')" by fastforce
  note a = galera_announced_once [OF d assms]
  have "p_Issues new_packet = []" by (simp add: new_packet_def)
  then show ?case using a Cons.IH [of c'] by (simp add: f d)
qed simp

end
