(* ===== verification/Valkey_Bus.thy ===== *)
theory Valkey_Bus
  imports Frame_Reader Pkt_State Mysql_Wire Pg_Decode
begin

text \<open>
  The cluster bus of Valkey (\<^verbatim>\<open>src/app/pktvalkeybus.go\<close>): the framing of a direction by the signature and the
  length of each message, the search for a signature when framing is lost, and what a message header says.
\<close>

definition valkeyBusSig :: bytes where "valkeyBusSig = bytes_of ''RCmb''"
definition valkeyBusHdrLen :: nat where "valkeyBusHdrLen = 2256"
definition valkeyBusMinLen :: nat where "valkeyBusMinLen = 2256"
definition valkeyBusSlotsAt :: nat where "valkeyBusSlotsAt = 80"
definition valkeyBusSlotsSz :: nat where "valkeyBusSlotsSz = 2048"

definition busPing :: nat where "busPing = 0"
definition busPong :: nat where "busPong = 1"
definition busMeet :: nat where "busMeet = 2"
definition busFail :: nat where "busFail = 3"
definition busPublish :: nat where "busPublish = 4"
definition busFailoverAuthReq :: nat where "busFailoverAuthReq = 5"
definition busFailoverAuthAck :: nat where "busFailoverAuthAck = 6"
definition busUpdate :: nat where "busUpdate = 7"
definition busMFStart :: nat where "busMFStart = 8"
definition busModule :: nat where "busModule = 9"
definition busPublishShard :: nat where "busPublishShard = 10"

definition bus_type_names :: "(nat \<times> string) list" where
  "bus_type_names = [(busPing, ''PING''), (busPong, ''PONG''), (busMeet, ''MEET''), (busFail, ''FAIL''), (busPublish, ''PUBLISH''),
     (busFailoverAuthReq, ''FAILOVER_AUTH_REQUEST''), (busFailoverAuthAck, ''FAILOVER_AUTH_ACK''), (busUpdate, ''UPDATE''),
     (busMFStart, ''MFSTART''), (busModule, ''MODULE''), (busPublishShard, ''PUBLISHSHARD'')]"

definition valkeyBusTypeName :: "nat \<Rightarrow> string" where
  "valkeyBusTypeName t = (case map_of bus_type_names t of Some s \<Rightarrow> s | None \<Rightarrow> ''type '' @ go_utoa t)"

section \<open>A message\<close>

text \<open>The bits of a byte, counted as the code shifts them out.\<close>

function byte_bits :: "byte \<Rightarrow> nat" where
  "byte_bits b = (if b = 0 then 0 else unat (b AND 1) + byte_bits (drop_bit 1 b))"
  by pat_completeness auto
termination
proof (relation "measure unat", goal_cases)
  case (2 b)
  then have "unat b \<noteq> 0" by (simp add: unat_eq_zero)
  then show ?case by (simp add: unat_drop_bit_byte)
qed simp

declare byte_bits.simps [simp del]

definition valkeyBusSlotCount :: "bytes \<Rightarrow> nat" where
  "valkeyBusSlotCount msg =
     (if length msg < valkeyBusSlotsAt + valkeyBusSlotsSz then 0
      else sum_list (map byte_bits (slice valkeyBusSlotsAt (valkeyBusSlotsAt + valkeyBusSlotsSz) msg)))"

text \<open>\<^verbatim>\<open>strings.TrimRight(s, "\x00")\<close> and \<^verbatim>\<open>strings.Trim(s, "0")\<close>.\<close>

definition trim_nul :: "bytes \<Rightarrow> string" where
  "trim_nul b = str (rev (dropWhile (\<lambda>x. x = 0) (rev b)))"

definition only_zeros :: "string \<Rightarrow> bool" where
  "only_zeros s \<longleftrightarrow> rev (dropWhile (\<lambda>x. x = CHR ''0'') (rev (dropWhile (\<lambda>x. x = CHR ''0'') s))) = []"

text \<open>The message types that are events, and the marks that keep some of them from being repeated.\<close>

definition bus_event :: "pktPacket \<Rightarrow> pktValkeyBusConn \<Rightarrow> nat \<Rightarrow> string \<Rightarrow> bytes \<Rightarrow> pktPacket \<times> pktValkeyBusConn" where
  "bus_event p bc typ sender msg =
     (let currentEpoch = unat (be_u64 (drop 16 msg)); configEpoch = unat (be_u64 (drop 24 msg)) in
      if typ = busMeet then
        (add_issue (''MEET from '' @ pktEllipsis sender 12 @ '' '' @ em_dash @ '' a node is being introduced into the cluster. This is how a cluster is formed or grown, and it is not something that happens on its own'') p, bc)
      else if typ = busFail then
        (if bc_failNoted bc then (p, bc)
         else
           let failing = (if length msg \<ge> valkeyBusHdrLen + 40 then trim_nul (slice valkeyBusHdrLen (valkeyBusHdrLen + 40) msg) else []) in
           (add_issue (''FAIL message '' @ em_dash @ '' '' @ pktEllipsis sender 12 @ '' is telling the cluster that '' @ pktEllipsis failing 12 @
              '' is failed. A majority of primaries agreed it was unreachable, so its slots are now uncovered until a replica takes over. Clients hitting those slots get CLUSTERDOWN or a MOVED to a node that no longer serves them'') p,
            bc\<lparr>bc_failNoted := True\<rparr>))
      else if typ = busFailoverAuthReq then
        (if bc_voteNoted bc then (p, bc)
         else
           (add_issue (''FAILOVER_AUTH_REQUEST '' @ em_dash @ '' a replica is asking the primaries to vote for its promotion (epoch '' @ go_utoa currentEpoch @
              ''). This is a cluster election: the slots it wants are unserved until it wins, and clients see CLUSTERDOWN or MOVED for them'') p,
            bc\<lparr>bc_voteNoted := True\<rparr>))
      else if typ = busFailoverAuthAck then
        (add_issue (''FAILOVER_AUTH_ACK '' @ em_dash @ '' a primary has voted for a replica'' @ [CHR 0x27] @ ''s promotion. Once a majority acks, the slots move and every client'' @ [CHR 0x27] @ ''s cached slot map is stale'') p, bc)
      else if typ = busUpdate then
        (add_issue (''UPDATE '' @ em_dash @ '' a node is being told its configuration is out of date (config epoch '' @ go_utoa configEpoch @
           '' wins). This is how a node that was partitioned learns it no longer owns its slots'') p, bc)
      else if typ = busMFStart then
        (add_issue (''MFSTART '' @ em_dash @ '' a manual failover is starting: the primary pauses writes so its replica can catch up completely before taking over. Coordinated, but writes stop for the duration'') p, bc)
      else (p, bc))"

text \<open>The cluster's epoch, which is noted once when it rises.\<close>

definition bus_epoch :: "pktPacket \<Rightarrow> pktValkeyBusConn \<Rightarrow> nat \<Rightarrow> pktPacket \<times> pktValkeyBusConn" where
  "bus_epoch p bc currentEpoch =
     (let rose = (bc_lastEpoch bc \<noteq> 0 \<and> currentEpoch > bc_lastEpoch bc \<and> \<not> bc_epochNoted bc);
          p1 = (if rose then
                  add_issue (''Cluster epoch rose from '' @ go_utoa (bc_lastEpoch bc) @ '' to '' @ go_utoa currentEpoch @
                    '' '' @ em_dash @ '' the cluster'' @ [CHR 0x27] @ ''s configuration changed, which is what a failover or a resharding leaves behind'') p
                else p)
      in (p1, bc\<lparr>bc_epochNoted := (bc_epochNoted bc \<or> rose), bc_lastEpoch := max (bc_lastEpoch bc) currentEpoch\<rparr>))"

definition valkeyBusMessage :: "pktPacket \<Rightarrow> pktValkeyBusConn \<Rightarrow> bytes \<Rightarrow> string \<times> pktPacket \<times> pktValkeyBusConn" where
  "valkeyBusMessage p bc msg =
     (let typ = be_u16 (drop 12 msg); count = be_u16 (drop 14 msg); currentEpoch = unat (be_u64 (drop 16 msg));
          configEpoch = unat (be_u64 (drop 24 msg)); offset = unat (be_u64 (drop 32 msg));
          sender = trim_nul (slice 40 80 msg); name = valkeyBusTypeName typ;
          bc1 = (if bc_sender bc = [] then bc\<lparr>bc_sender := sender\<rparr> else bc);
          slots = valkeyBusSlotCount msg; primary = trim_nul (slice 2128 2168 msg);
          out = name @ '' from '' @ pktEllipsis sender 12
            @ (if slots > 0 then '', claims '' @ go_utoa slots @ '' slot(s)''
               else if primary \<noteq> [] \<and> \<not> only_zeros primary then '', replica of '' @ pktEllipsis primary 12
               else [])
            @ '', epoch '' @ go_utoa currentEpoch @ ''/'' @ go_utoa configEpoch @ '', offset '' @ go_utoa offset @ '', ''
            @ go_utoa count @ '' gossip section(s)'';
          (p1, bc2) = bus_event (p\<lparr>p_Command := ''bus '' @ name\<rparr>) bc1 typ sender msg;
          (p2, bc3) = bus_epoch p1 bc2 currentEpoch
      in (out, p2, bc3))"

section \<open>Framing\<close>

definition valkeyBusReanchor :: "bytes \<Rightarrow> bool \<times> bytes" where
  "valkeyBusReanchor buf =
     (case go_Index (str buf) (str valkeyBusSig) of
        Some i \<Rightarrow> if i > 0 then (True, drop i buf)
                  else (False, if length buf > 4 * 2 ^ 20 then drop (length buf - 2 ^ 16) buf else buf)
      | None \<Rightarrow> (False, if length buf > 4 * 2 ^ 20 then drop (length buf - 2 ^ 16) buf else buf))"


lemma length_valkeyBusReanchor: "valkeyBusReanchor buf = (True, b) \<Longrightarrow> buf \<noteq> [] \<Longrightarrow> length b < length buf"
  by (auto simp: valkeyBusReanchor_def split: option.splits if_splits)

text \<open>The length a header declares, which must be that of a message.\<close>

definition bus_len :: "bytes \<Rightarrow> nat" where
  "bus_len buf = be_u32 (drop 4 buf)"

definition bus_len_ok :: "nat \<Rightarrow> bool" where
  "bus_len_ok n \<longleftrightarrow> \<not> (n < valkeyBusMinLen \<or> n > 8 * 2 ^ 20)"

text \<open>The loop of \<^verbatim>\<open>pktValkeyBusDecode\<close>: the frame, the connection's and the direction's state, the buffer and the lines.\<close>

function bus_loop ::
  "pktPacket \<Rightarrow> pktValkeyBusConn \<Rightarrow> pktValkeyBusDir \<Rightarrow> bytes \<Rightarrow> string list
     \<Rightarrow> pktPacket \<times> pktValkeyBusConn \<times> pktValkeyBusDir \<times> bytes \<times> string list" where
  "bus_loop p bc bd buf infos =
     (if length buf < 8 then (p, bc, bd, buf, infos)
      else if take 4 buf \<noteq> valkeyBusSig then
        (case valkeyBusReanchor buf of
           (True, b) \<Rightarrow> bus_loop p bc bd b infos
         | (False, b) \<Rightarrow> (p, bc, bd\<lparr>bd_desynced := True, bd_aligned := False\<rparr>, b, infos))
      else if \<not> bus_len_ok (bus_len buf) then bus_loop p bc (bd\<lparr>bd_desynced := True\<rparr>) (drop 1 buf) infos
      else if length buf < bus_len buf then (p, bc, bd, buf, infos)
      else
        case valkeyBusMessage p (bc\<lparr>bc_msgs := bc_msgs bc + 1\<rparr>) (take (bus_len buf) buf) of
          (info, p1, bc1) \<Rightarrow>
            bus_loop p1 bc1 (bd\<lparr>bd_aligned := True\<rparr>) (drop (bus_len buf) buf) (infos @ [info]))"
  by pat_completeness auto
termination
proof (relation "measure (\<lambda>(p, bc, bd, buf, infos). length buf)", goal_cases)
  case (2 p bc bd buf infos ok b)
  then show ?case using length_valkeyBusReanchor [of buf b] by (cases buf) auto
qed (auto simp: bus_len_ok_def valkeyBusMinLen_def)

declare bus_loop.simps [simp del]

definition bus_summary :: "pktPacket \<Rightarrow> pktValkeyBusDir \<Rightarrow> bytes \<Rightarrow> bytes \<Rightarrow> string list \<Rightarrow> pktPacket" where
  "bus_summary p bd buf payload infos =
     (if infos \<noteq> [] then
        p\<lparr>p_Info := (if length infos > 2
            then go_Join (take 2 infos) '' | '' @ '' | +'' @ go_utoa (length infos - 2) @ '' more''
            else go_Join infos '' | '')\<rparr>
      else if bd_desynced bd \<and> \<not> bd_aligned bd then
        p\<lparr>p_Info := ''[framing lost] '' @ go_utoa (length payload) @ '' bytes, hunting for the next '' @ [CHR 0x22] @ ''RCmb'' @ [CHR 0x22] @ '' header''\<rparr>
      else if buf \<noteq> [] then
        p\<lparr>p_Info := ''[continuation] '' @ go_utoa (length payload) @ '' bytes, '' @ go_utoa (length buf)
            @ '' buffered of a cluster-bus message''\<rparr>
      else p\<lparr>p_Info := ''Cluster bus data, '' @ go_utoa (length payload) @ '' bytes''\<rparr>)"

definition pktValkeyBusDecode :: "pktPacket \<Rightarrow> pktConn \<Rightarrow> bool \<Rightarrow> bytes \<Rightarrow> pktPacket \<times> pktConn" where
  "pktValkeyBusDecode p c fromClient payload =
     (let d = dir_of fromClient c in
      case bus_loop (p\<lparr>p_Proto := ''Valkey/bus''\<rparr>) (c_valkeybus c) (ds_valkeybus d) (ds_buf d @ payload) [] of
        (p1, bc, bd, buf, infos) \<Rightarrow>
          (bus_summary p1 bd buf payload infos,
           set_dir fromClient (d\<lparr>ds_appBytes := ds_appBytes d + length payload, ds_buf := buf, ds_valkeybus := bd\<rparr>)
             (c\<lparr>c_valkeybus := bc\<rparr>)))"

section \<open>The slots a node claims\<close>

lemma unat_and_1: "unat (b AND 1 :: byte) = unat b mod 2"
  by (simp add: and_one_eq unat_mod)

lemma finite_bits: "finite {i. bit (n :: nat) i}"
proof (rule finite_subset)
  show "{i. bit n i} \<subseteq> {..n}"
  proof safe
    fix i assume "bit n i"
    then have "n div 2 ^ i \<noteq> 0" by (metis bit_iff_odd even_zero)
    then have "2 ^ i \<le> n" by (simp add: div_eq_0_iff)
    then show "i \<le> n" using less_exp [of i] by linarith
  qed
qed simp

lemma byte_bits_unat: "byte_bits b = card {i. bit (unat b) i}"
proof (induction b rule: byte_bits.induct)
  case (1 b)
  show ?case
  proof (cases "b = 0")
    case True
    then show ?thesis by (simp add: byte_bits.simps)
  next
    case False
    let ?n = "unat b"
    have "{i. bit ?n i} = {i. i = 0 \<and> odd ?n} \<union> Suc ` {i. bit (?n div 2) i}"
      by (auto simp: bit_0 bit_Suc image_iff intro: Suc_pred [symmetric] elim: not0_implies_Suc)
        (metis bit_0 bit_Suc not0_implies_Suc)+
    moreover have "finite {i. bit (?n div 2) i}" by (rule finite_bits)
    moreover have "{i. i = 0 \<and> odd ?n} = (if odd ?n then {0} else {})" by auto
    ultimately have "card {i. bit ?n i} = of_bool (odd ?n) + card {i. bit (?n div 2) i}"
      by (simp add: card_image)
    then show ?thesis
      using "1.IH" [OF False] False
      by (simp add: byte_bits.simps [of b] unat_and_1 unat_drop_bit_byte mod_2_eq_odd)
  qed
qed

definition slot_claimed :: "bytes \<Rightarrow> nat \<Rightarrow> bool" where
  "slot_claimed msg s \<longleftrightarrow> bit (unat (msg ! (valkeyBusSlotsAt + s div 8))) (s mod 8)"

lemma card_bits_list:
  "sum_list (map byte_bits bs) = card {s. s < 8 * length bs \<and> bit (unat (bs ! (s div 8))) (s mod 8)}"
proof (induction bs rule: rev_induct)
  case (snoc b bs)
  let ?k = "8 * length bs"
  let ?at = "\<lambda>cs s. bit (unat (cs ! (s div 8))) (s mod 8)"
  have b8: "i < 8" if "bit (unat b) i" for i
  proof (rule ccontr)
    assume "\<not> i < 8"
    then have "2 ^ 8 \<le> (2 :: nat) ^ i" by (intro power_increasing) auto
    then have "unat b div 2 ^ i = 0" using byte_cases_lt [of b] by simp
    then show False using that by (simp add: bit_iff_odd)
  qed
  have "{s. s < 8 * length (bs @ [b]) \<and> ?at (bs @ [b]) s} =
      {s. s < ?k \<and> ?at bs s} \<union> (\<lambda>i. ?k + i) ` {i. bit (unat b) i}" (is "?l = ?a \<union> ?b")
  proof (rule set_eqI)
    fix s
    show "s \<in> ?l \<longleftrightarrow> s \<in> ?a \<union> ?b"
    proof (cases "s < ?k")
      case True
      then have "s div 8 < length bs" by simp
      with True show ?thesis by (auto simp: nth_append)
    next
      case False
      then obtain i where i: "s = ?k + i" by (metis le_iff_add linorder_not_less)
      have "(?k + i) div 8 = length bs + i div 8" "(?k + i) mod 8 = i mod 8" by simp_all
      then show ?thesis using i b8 by (cases "i < 8") (auto simp: nth_append)
    qed
  qed
  moreover have "?a \<inter> ?b = {}" by auto
  moreover have "card ?b = byte_bits b" by (simp add: card_image byte_bits_unat)
  moreover have "finite ?a" "finite ?b" by (simp_all add: finite_bits)
  ultimately show ?case using snoc.IH by (simp add: card_Un_disjoint)
qed simp

text \<open>The number a message is reported to claim is the number of the 16384 hash slots whose bit is set.\<close>

lemma valkeyBusSlotCount_correct:
  assumes "valkeyBusMinLen \<le> length msg"
  shows "valkeyBusSlotCount msg = card {s. s < 16384 \<and> slot_claimed msg s}"
proof -
  let ?m = "slice valkeyBusSlotsAt (valkeyBusSlotsAt + valkeyBusSlotsSz) msg"
  have long: "valkeyBusSlotsAt + valkeyBusSlotsSz \<le> length msg" "length ?m = 2048"
    using assms by (simp_all add: valkeyBusMinLen_def valkeyBusSlotsAt_def valkeyBusSlotsSz_def)
  have "?m ! (s div 8) = msg ! (valkeyBusSlotsAt + s div 8)" if "s < 16384" for s
    using that long by (simp add: slice_def valkeyBusSlotsAt_def valkeyBusSlotsSz_def)
  then show ?thesis
    using long card_bits_list [of ?m]
    by (simp add: valkeyBusSlotCount_def slot_claimed_def valkeyBusSlotsSz_def cong: conj_cong)
qed

section \<open>Streams\<close>

text \<open>One message at the head of an aligned buffer, as a framing routine.\<close>

definition bus_read :: "bytes \<Rightarrow> (bytes \<times> nat) option" where
  "bus_read buf =
     (if length buf < 8 \<or> take 4 buf \<noteq> valkeyBusSig \<or> \<not> bus_len_ok (bus_len buf) \<or> length buf < bus_len buf then None
      else Some (take (bus_len buf) buf, bus_len buf))"

lemma bus_len_append: "8 \<le> length b \<Longrightarrow> bus_len (b @ c) = bus_len b"
  by (simp add: bus_len_def)

interpretation bus: frame_reader bus_read
proof
  fix b m n c
  assume a: "bus_read b = Some (m, n)"
  then have h: "n = bus_len b" "8 \<le> length b" "bus_len_ok n" "n \<le> length b"
    by (auto simp: bus_read_def split: if_splits)
  show "0 < n" using h(3) by (simp add: bus_len_ok_def valkeyBusMinLen_def)
  show "n \<le> length b" by (rule h(4))
  show "bus_read (b @ c) = Some (m, n)"
    using a h bus_len_append [OF h(2), of c] by (auto simp: bus_read_def split: if_splits)
qed

text \<open>A message as a node sends it: the signature, and the length it really has.\<close>

definition bus_msg_ok :: "bytes \<Rightarrow> bool" where
  "bus_msg_ok m \<longleftrightarrow> take 4 m = valkeyBusSig \<and> bus_len m = length m \<and> bus_len_ok (length m)"

lemma bus_msg_long: "bus_msg_ok m \<Longrightarrow> 2256 \<le> length m"
  by (simp add: bus_msg_ok_def bus_len_ok_def valkeyBusMinLen_def)

lemma bus_head:
  assumes "bus_msg_ok m"
  shows "take 4 (m @ r) = valkeyBusSig" "bus_len (m @ r) = length m" "bus_len_ok (length m)" "8 \<le> length (m @ r)"
  using assms bus_msg_long [OF assms] bus_len_append [of m r] by (simp_all add: bus_msg_ok_def)

text \<open>What the messages of a stream do to the frame and the connection, and the lines they give.\<close>

fun bus_messages :: "pktPacket \<Rightarrow> pktValkeyBusConn \<Rightarrow> bytes list \<Rightarrow> pktPacket \<times> pktValkeyBusConn \<times> string list" where
  "bus_messages p bc [] = (p, bc, [])"
| "bus_messages p bc (m # ms) =
     (case valkeyBusMessage p (bc\<lparr>bc_msgs := bc_msgs bc + 1\<rparr>) m of
        (info, p1, bc1) \<Rightarrow> (case bus_messages p1 bc1 ms of (p2, bc2, infos) \<Rightarrow> (p2, bc2, info # infos)))"

text \<open>
  A buffer that holds whole messages and the beginning of another: the loop decodes exactly those messages,
  in order, keeps the beginning for the next segment, and does not take the direction to be misframed.
\<close>

lemma bus_loop_exact:
  assumes "\<forall>m \<in> set ms. bus_msg_ok m" "prefix r m'" "bus_msg_ok m'" "length r < length m'"
  shows "bus_loop p bc bd (concat ms @ r) infos =
     (case bus_messages p bc ms of (p', bc', lines) \<Rightarrow>
        (p', bc', if ms = [] then bd else bd\<lparr>bd_aligned := True\<rparr>, r, infos @ lines))"
  using assms(1)
proof (induction ms arbitrary: p bc bd infos)
  case Nil
  show ?case
  proof (cases "length r < 8")
    case True
    then show ?thesis by (simp add: bus_loop.simps [of p bc bd r])
  next
    case False
    obtain t where t: "m' = r @ t" using assms(2) by (auto simp: prefix_def)
    have "take 4 r = valkeyBusSig" "bus_len r = length m'"
      using False bus_len_append [of r t] assms(3) by (simp_all add: t bus_msg_ok_def)
    then show ?thesis
      using False assms(3,4) by (simp add: bus_loop.simps [of p bc bd r] bus_msg_ok_def)
  qed
next
  case (Cons m ms)
  have m: "bus_msg_ok m" using Cons.prems by simp
  note h = bus_head(1,2,4) [OF m, of "concat ms @ r"] bus_head(3) [OF m]
  obtain info p1 bc1 where v: "valkeyBusMessage p (bc\<lparr>bc_msgs := bc_msgs bc + 1\<rparr>) m = (info, p1, bc1)"
    by (metis prod_cases3)
  have "bus_loop p bc bd (concat (m # ms) @ r) infos
      = bus_loop p1 bc1 (bd\<lparr>bd_aligned := True\<rparr>) (concat ms @ r) (infos @ [info])"
    using h v by (simp add: bus_loop.simps [of p bc bd "m @ concat ms @ r"])
  then show ?case
    using Cons v by (simp split: prod.split)
qed

end
