(* ===== verification/Valkey.thy ===== *)
theory Valkey
  imports Resp Pkt_State Pg_Decode
begin

text \<open>
  The Valkey decoder (\<^verbatim>\<open>src/app/pktvalkey.go\<close>, \<^verbatim>\<open>pktvalkeyerr.go\<close> and the rest of \<^verbatim>\<open>pktresp.go\<close>): commands and
  replies of the RESP protocol, the queue that pairs them, the replication link with its snapshot
  transfer, and the catalogue of error codes. The parser is in the theory \<open>Resp\<close>.

  Go panics where a slice expression goes out of range; the functions below return an \<open>option\<close> where the
  code can, and \<open>None\<close> is that panic. Three parts of Go's library stand in the record \<open>vk_lib\<close>:
  \<^verbatim>\<open>strconv.Quote\<close>, \<^verbatim>\<open>strings.ToLower\<close> of a configuration parameter (used as a key), and the rendering of a
  duration in milliseconds.
\<close>

record vk_lib =
  vl_Quote :: "string \<Rightarrow> string"
  vl_ToLower :: "string \<Rightarrow> string"
  vl_ms1 :: "int \<Rightarrow> string"

definition left_arrow :: string where "left_arrow = [CHR 0xE2, CHR 0x86, CHR 0x90]"

section \<open>Ports, roles and kinds\<close>

definition valkeyClientPort :: nat where "valkeyClientPort = 6379"
definition valkeyBusOffset :: nat where "valkeyBusOffset = 10000"
definition valkeySentinelPort :: nat where "valkeySentinelPort = 26379"

definition pktRoleValkey :: string where "pktRoleValkey = ''valkey''"
definition pktRoleValkeyBus :: string where "pktRoleValkeyBus = ''valkey-bus''"
definition pktRoleSentinel :: string where "pktRoleSentinel = ''valkey-sentinel''"

definition pktValkeyPortRoles :: "nat \<Rightarrow> nat \<rightharpoonup> string" where
  "pktValkeyPortRoles clientPort =
     Map.empty(clientPort \<mapsto> pktRoleValkey, clientPort + valkeyBusOffset \<mapsto> pktRoleValkeyBus,
       valkeySentinelPort \<mapsto> pktRoleSentinel)"

definition pktValkeyRoleLabel :: "string \<Rightarrow> string" where
  "pktValkeyRoleLabel role =
     (if role = pktRoleValkey then ''Valkey''
      else if role = pktRoleValkeyBus then ''Valkey/bus''
      else if role = pktRoleSentinel then ''Valkey/sentinel''
      else [])"

definition pktValkeyRoleDescription :: "string \<Rightarrow> string" where
  "pktValkeyRoleDescription role =
     (if role = pktRoleValkey then ''RESP: client commands and replication, which share this port''
      else if role = pktRoleValkeyBus then ''the cluster bus: binary gossip between nodes '' @ em_dash @ '' heartbeats, failure detection and failover votes''
      else if role = pktRoleSentinel then ''Sentinel: monitoring and failover coordination for a non-clustered primary/replica pair''
      else [])"

definition valkeyKindClient :: string where "valkeyKindClient = ''client''"
definition valkeyKindRepl :: string where "valkeyKindRepl = ''replication''"
definition valkeyKindSub :: string where "valkeyKindSub = ''subscribe''"
definition valkeyKindMonitor :: string where "valkeyKindMonitor = ''monitor''"

lemmas kind_defs = valkeyKindClient_def valkeyKindRepl_def valkeyKindSub_def valkeyKindMonitor_def

definition valkeyKindLabel :: "string \<Rightarrow> string" where
  "valkeyKindLabel kind =
     (if kind = valkeyKindRepl then ''Valkey/replication''
      else if kind = valkeyKindSub then ''Valkey/pubsub''
      else if kind = valkeyKindMonitor then ''Valkey/monitor''
      else ''Valkey'')"

definition valkeySlowMS :: nat where "valkeySlowMS = 50"
definition valkeyBigReplyBytes :: nat where "valkeyBigReplyBytes = push_bit 20 1"
definition valkeyLagBytes :: int where "valkeyLagBytes = push_bit 20 8"

section \<open>Error replies\<close>

record valkeyErrEntry =
  ve_issue :: string
  ve_severe :: bool

definition valkeyErrCatalog :: "(string \<times> valkeyErrEntry) list" where
  "valkeyErrCatalog =
     [(''MOVED'', \<lparr>ve_issue = ''MOVED '' @ em_dash @ '' the slot this key belongs to is served by another node. The client is expected to update its slot map and retry there; a steady stream of these means it is not caching the map at all, and every operation is costing two round trips'', ve_severe = True\<rparr>),
      (''ASK'', \<lparr>ve_issue = ''ASK '' @ em_dash @ '' the slot is mid-migration and this key is already on the target node. This is one-shot: the client must retry with ASKING and must NOT update its slot map, because the slot itself has not moved yet. Treating ASK like MOVED corrupts a client'' @ [CHR 0x27] @ ''s routing until the next full refresh'', ve_severe = True\<rparr>),
      (''TRYAGAIN'', \<lparr>ve_issue = ''TRYAGAIN '' @ em_dash @ '' a multi-key command spanned keys that are mid-migration, so it cannot be completed atomically right now. The client should retry after a short pause'', ve_severe = True\<rparr>),
      (''CROSSSLOT'', \<lparr>ve_issue = ''CROSSSLOT '' @ em_dash @ '' a multi-key command named keys in different hash slots. In cluster mode that is not executable at all; hash tags ({user:1}) are how keys are forced into one slot'', ve_severe = True\<rparr>),
      (''CLUSTERDOWN'', \<lparr>ve_issue = ''CLUSTERDOWN '' @ em_dash @ '' the cluster is not serving: slots are uncovered or too few primaries are reachable. Every key in an uncovered slot is unavailable, and cluster-require-full-coverage decides whether the rest still serve'', ve_severe = True\<rparr>),
      (''MASTERDOWN'', \<lparr>ve_issue = ''MASTERDOWN '' @ em_dash @ '' this replica has lost its primary and replica-serve-stale-data is off, so it refuses reads rather than serving data that may be behind'', ve_severe = True\<rparr>),
      (''LOADING'', \<lparr>ve_issue = ''LOADING '' @ em_dash @ '' the node is reading its dataset from disk (an RDB or AOF) and cannot serve anything yet. After a restart or a FULLRESYNC this is what clients see, and it lasts as long as the dataset takes to load'', ve_severe = True\<rparr>),
      (''MISCONF'', \<lparr>ve_issue = ''MISCONF '' @ em_dash @ '' writes are refused because a background save keeps failing (usually a full or read-only disk). Valkey stops accepting writes on purpose so a dataset it cannot persist does not keep growing; the fix is on the filesystem, not in the client'', ve_severe = True\<rparr>),
      (''READONLY'', \<lparr>ve_issue = ''READONLY '' @ em_dash @ '' a write reached a replica. Either the client'' @ [CHR 0x27] @ ''s topology is stale after a failover, or a read-only replica is behind a load balancer that is sending it writes'', ve_severe = True\<rparr>),
      (''OOM'', \<lparr>ve_issue = ''OOM '' @ em_dash @ '' used_memory is above maxmemory and the eviction policy cannot free anything (noeviction, or every key is protected). Writes are refused while reads still work, which is why an application sees this as half-broken'', ve_severe = True\<rparr>),
      (''NOREPLICAS'', \<lparr>ve_issue = ''NOREPLICAS '' @ em_dash @ '' a write was rejected because min-replicas-to-write is not satisfied: not enough replicas are connected and current, so the primary refuses writes it could not replicate'', ve_severe = True\<rparr>),
      (''NOWRITE'', \<lparr>ve_issue = ''Writes are refused by this node'', ve_severe = True\<rparr>),
      (''NOAUTH'', \<lparr>ve_issue = ''NOAUTH '' @ em_dash @ '' the connection has not authenticated and the server requires it (requirepass or an ACL user). The client'' @ [CHR 0x27] @ ''s password is missing or it reconnected without re-sending AUTH'', ve_severe = True\<rparr>),
      (''WRONGPASS'', \<lparr>ve_issue = ''WRONGPASS '' @ em_dash @ '' the username or password is wrong. After an ACL change this is what every client does at once'', ve_severe = True\<rparr>),
      (''NOPERM'', \<lparr>ve_issue = ''NOPERM '' @ em_dash @ '' the authenticated ACL user is not allowed this command, key pattern or channel. The connection works and the operation does not, which is why it looks like a bug in the application'', ve_severe = True\<rparr>),
      (''NOSCRIPT'', \<lparr>ve_issue = ''NOSCRIPT '' @ em_dash @ '' EVALSHA named a script the server does not have cached. Normal after a restart or SCRIPT FLUSH; the client is expected to fall back to EVAL with the body'', ve_severe = False\<rparr>),
      (''BUSY'', \<lparr>ve_issue = ''BUSY '' @ em_dash @ '' a Lua script or a function has been running too long and is still holding the server. Valkey executes one command at a time, so nothing else is being served; SCRIPT KILL ends it unless it has already written'', ve_severe = True\<rparr>),
      (''UNKILLABLE'', \<lparr>ve_issue = ''UNKILLABLE '' @ em_dash @ '' the running script has already written data, so it cannot be killed without breaking atomicity. Only SHUTDOWN NOSAVE ends this state'', ve_severe = True\<rparr>),
      (''EXECABORT'', \<lparr>ve_issue = ''EXECABORT '' @ em_dash @ '' the transaction was discarded because a command inside MULTI was rejected when it was queued. Nothing in it ran'', ve_severe = False\<rparr>),
      (''UNBLOCKED'', \<lparr>ve_issue = ''UNBLOCKED '' @ em_dash @ '' a blocking command was released by CLIENT UNBLOCK or because the key'' @ [CHR 0x27] @ ''s type changed underneath it'', ve_severe = False\<rparr>),
      (''NOGROUP'', \<lparr>ve_issue = ''NOGROUP '' @ em_dash @ '' the stream or consumer group named does not exist'', ve_severe = False\<rparr>),
      (''WRONGTYPE'', \<lparr>ve_issue = [], ve_severe = False\<rparr>),
      (''ERR'', \<lparr>ve_issue = [], ve_severe = False\<rparr>),
      (''NOTBUSY'', \<lparr>ve_issue = [], ve_severe = False\<rparr>),
      (''BUSYKEY'', \<lparr>ve_issue = [], ve_severe = False\<rparr>),
      (''NOTMASTER'', \<lparr>ve_issue = [], ve_severe = False\<rparr>)]"

definition code_char :: "char \<Rightarrow> bool" where
  "code_char c \<longleftrightarrow> (CHR ''A'' \<le> c \<and> c \<le> CHR ''Z'') \<or> (CHR ''0'' \<le> c \<and> c \<le> CHR ''9'') \<or> c = CHR ''_''"

definition valkeySplitError :: "string \<Rightarrow> string \<times> string" where
  "valkeySplitError s0 =
     (let s = go_TrimSpace s0; (code, rest, ok) = go_Cut s CHR '' '' in
      if \<not> ok then (code, [])
      else if \<not> list_all code_char code then (''ERR'', s)
      else (code, rest))"

definition valkeyErrIssue :: "string \<Rightarrow> string \<Rightarrow> string" where
  "valkeyErrIssue code full =
     (case map_of valkeyErrCatalog code of
        Some e \<Rightarrow>
          if ve_issue e \<noteq> [] then
            let f = go_Fields full in
            if (code = ''MOVED'' \<or> code = ''ASK'') \<and> length f \<ge> 3 then
              code @ '' '' @ right_arrow @ '' slot '' @ f ! 1 @ '' is on '' @ f ! 2 @ ''. '' @ ve_issue e
            else ve_issue e
          else []
      | None \<Rightarrow>
          let low = go_Map lower_rune full in
          if go_Contains low ''unknown command'' then
            ''Unknown command '' @ em_dash @ '' the server does not have this command. A client built for a newer Valkey (or for a module that is not loaded here) talking to this server''
          else if go_Contains low ''wrong number of arguments'' then []
          else if go_Contains low ''max number of clients'' then
            ''maxclients reached '' @ em_dash @ '' the server is refusing new connections. Existing ones are unaffected, which is why this looks like an intermittent outage from the outside''
          else if go_Contains low ''protocol error'' then
            ''Protocol error '' @ em_dash @ '' the server could not parse what the client sent and will close the connection. A broken client library, a proxy corrupting the stream, or something that is not RESP talking to the port''
          else if go_Contains low ''no such key'' then []
          else if code \<noteq> ''ERR'' \<and> code \<noteq> [] then ''-'' @ code @ '' '' @ em_dash @ '' '' @ pktEllipsis (pktPrintable full) 120
          else [])"

definition valkeySevereCodes :: "string list" where
  "valkeySevereCodes = sort (map fst (filter (\<lambda>(code, e). ve_severe e) valkeyErrCatalog))"

section \<open>Rendering a value\<close>

function respRender :: "vk_lib \<Rightarrow> respValue \<Rightarrow> nat \<Rightarrow> string" where
  "respRender lib v depth =
     (let t = rv_Type v in
      if t = respSimple then rv_Str v
      else if t = respError \<or> t = respBlobErr then ''-'' @ rv_Str v
      else if t = respInt then go_Itoa (rv_Int v)
      else if t = respNull then (if rv_Str v \<noteq> [] then rv_Str v else ''(nil)'')
      else if t = respBool then (if go_HasPrefix (rv_Str v) ''t'' then ''true'' else ''false'')
      else if t = respDouble \<or> t = respBigNum then rv_Str v
      else if t = respBulk \<or> t = respVerbatim then
        (let s = vl_Quote lib (pktEllipsis (pktPrintable (rv_Str v)) 60)
         in if rv_Truncated v then s @ ellipsis @ ''('' @ pktBytes (nat (rv_Int v)) @ '')'' else s)
      else if t = respArray \<or> t = respSet \<or> t = respPush \<or> t = respMap \<or> t = respAttr then
        (if depth = 0 then ''['' @ go_Itoa (rv_Int v) @ '' items]''
         else
           let parts = map (\<lambda>el. respRender lib el (depth - 1)) (rv_Items v)
                 @ (if rv_Int v > int (length (rv_Items v))
                    then [ellipsis @ ''+'' @ go_Itoa (rv_Int v - int (length (rv_Items v)))] else []);
               curly = (t = respMap \<or> t = respAttr)
           in (if curly then ''{'' else ''['') @ go_Join parts '' '' @ (if curly then ''}'' else '']''))
      else ''?'')"
  by pat_completeness auto
termination
  by (relation "measure (\<lambda>(lib, v, depth). depth)") auto

declare respRender.simps [simp del]

section \<open>Commands\<close>

text \<open>\<^verbatim>\<open>strings.EqualFold\<close> with an upper-case ASCII word: the long s and the Kelvin sign fold to a letter too.\<close>

definition fold_rune :: "nat \<Rightarrow> nat option" where
  "fold_rune r = Some (if 97 \<le> r \<and> r \<le> 122 then r - 32 else if r = 0x17f then 83 else if r = 0x212a then 75 else r)"

definition equal_fold :: "string \<Rightarrow> string \<Rightarrow> bool" where
  "equal_fold s word \<longleftrightarrow> go_Map fold_rune s = word"

definition valkeyIsChatter :: "string \<Rightarrow> bool" where
  "valkeyIsChatter name \<longleftrightarrow> name \<in> set [''PING'', ''HELLO'', ''AUTH'', ''REPLCONF'', ''COMMAND'', ''INFO'', ''CLIENT'', ''SELECT'', ''ECHO'']"

definition valkeyBlocking :: "string \<Rightarrow> bool" where
  "valkeyBlocking name \<longleftrightarrow> name \<in> set [''BLPOP'', ''BRPOP'', ''BLMOVE'', ''BRPOPLPUSH'', ''BLMPOP'', ''BZPOPMIN'', ''BZPOPMAX'', ''BZMPOP'',
     ''XREAD'', ''XREADGROUP'', ''WAIT'', ''SUBSCRIBE'', ''PSUBSCRIBE'', ''SSUBSCRIBE'', ''MONITOR'', ''PSYNC'', ''SYNC'', ''DEBUG'']"

definition valkeyKnownCommand :: "string \<Rightarrow> bool" where
  "valkeyKnownCommand name \<longleftrightarrow> name \<in> set [''PING'', ''ECHO'', ''INFO'', ''GET'', ''SET'', ''DEL'', ''EXISTS'', ''TTL'', ''TYPE'', ''KEYS'',
     ''SCAN'', ''DBSIZE'', ''SELECT'', ''AUTH'', ''HELLO'', ''QUIT'', ''COMMAND'', ''CONFIG'', ''CLUSTER'', ''CLIENT'', ''SUBSCRIBE'', ''PUBLISH'',
     ''MONITOR'', ''SHUTDOWN'', ''LOLWUT'', ''REPLCONF'', ''PSYNC'', ''SYNC'', ''FLUSHALL'', ''FLUSHDB'', ''TIME'', ''LASTSAVE'', ''ROLE'']"

definition respInlineCommand :: "bytes \<Rightarrow> (string \<times> nat) option" where
  "respInlineCommand b =
     (case respLine b of
        None \<Rightarrow> None
      | Some (line, n) \<Rightarrow>
          if line = [] \<or> length line > 128 then None
          else
            let fields = go_Fields line in
            if fields = [] then None
            else
              let name = go_Map upper_rune (fields ! 0) in
              if \<not> list_all (\<lambda>c. (CHR ''A'' \<le> c \<and> c \<le> CHR ''Z'') \<or> c = CHR ''.'' \<or> c = CHR ''_'') name then None
              else if \<not> valkeyKnownCommand name then None
              else Some (line, n))"

definition lastOr :: "string list \<Rightarrow> string \<Rightarrow> string" where
  "lastOr s def = (if s = [] then def else last s)"

fun set_options :: "string list \<Rightarrow> string list" where
  "set_options [] = []"
| "set_options (a # rest) =
     (let u = go_Map upper_rune a in
      (if u \<in> set [''EX'', ''PX'', ''EXAT'', ''PXAT''] then (if rest \<noteq> [] then [u @ '' '' @ hd rest] else [])
       else if u \<in> set [''KEEPTTL'', ''NX'', ''XX'', ''GET''] then [u]
       else []) @ set_options rest)"

definition valkeyOptions :: "string list \<Rightarrow> string" where
  "valkeyOptions args = (let parts = set_options args in if parts = [] then [] else '' ['' @ go_Join parts '' '' @ '']'')"

definition short :: "string \<Rightarrow> string" where
  "short s = pktEllipsis (pktPrintable s) 60"

text \<open>
  \<open>None\<close> is the panic of \<^verbatim>\<open>args[1:2]\<close> for a single argument: \<^verbatim>\<open>args\<close> was made with exactly the capacity it needs.
  In two cases of the \<^verbatim>\<open>switch\<close> too few arguments fall through to the general form below it.
\<close>

definition general_detail :: "string list \<Rightarrow> string" where
  "general_detail args = (if args = [] then [] else short (go_Join (take 4 args) '' ''))"

definition valkeyCommandDetail :: "string \<Rightarrow> string list \<Rightarrow> string option" where
  "valkeyCommandDetail name args =
     (let everything = short (go_Join args '' '') in
      if name \<in> set [''GET'', ''DEL'', ''EXISTS'', ''TTL'', ''TYPE'', ''INCR'', ''DECR'', ''PERSIST'', ''DUMP'', ''UNLINK''] then Some everything
      else if name \<in> set [''SET'', ''SETEX'', ''GETSET'', ''APPEND'', ''SETNX''] then
        (if length args \<ge> 2 then
           Some (short (args ! 0) @ '' '' @ left_arrow @ '' '' @ short (args ! 1) @ '' ('' @ go_utoa (length (args ! 1)) @ '' bytes)''
             @ valkeyOptions (drop 2 args))
         else Some (general_detail args))
      else if name \<in> set [''MGET'', ''MSET'', ''SUNION'', ''SINTER'', ''PFCOUNT'', ''WATCH''] then
        Some (go_utoa (length args) @ '' key(s): '' @ short (go_Join (take 3 args) '' ''))
      else if name \<in> set [''HSET'', ''HGET'', ''HDEL'', ''HMGET'', ''HINCRBY'', ''HGETALL''] then
        Some (if length args \<ge> 2 then short (args ! 0) @ '' field '' @ short (args ! 1) else everything)
      else if name \<in> set [''LPUSH'', ''RPUSH'', ''LPOP'', ''RPOP'', ''LRANGE'', ''LLEN'', ''LTRIM'', ''SADD'', ''SREM'', ''ZADD'', ''ZRANGE'', ''XADD'', ''XLEN''] then
        Some (short (go_Join (take 3 args) '' ''))
      else if name \<in> set [''BLPOP'', ''BRPOP'', ''BLMOVE'', ''BZPOPMIN'', ''BZPOPMAX''] then
        Some (short (go_Join (take (length args - 1) args) '' '') @ '' '' @ em_dash @ '' blocking, timeout '' @ lastOr args ''?'')
      else if name \<in> set [''SUBSCRIBE'', ''PSUBSCRIBE'', ''SSUBSCRIBE'', ''UNSUBSCRIBE''] then
        Some (go_utoa (length args) @ '' channel(s): '' @ everything)
      else if name \<in> set [''PUBLISH'', ''SPUBLISH''] then
        Some (if length args \<ge> 2 then ''channel '' @ short (args ! 0) @ '', '' @ go_utoa (length (args ! 1)) @ '' bytes'' else general_detail args)
      else if name = ''AUTH'' then
        Some (if length args \<ge> 2 then ''user '' @ short (args ! 0) @ '', password (not shown)'' else ''password (not shown)'')
      else if name = ''HELLO'' then
        Some (if length args \<ge> 1 then ''protocol '' @ short (args ! 0) else general_detail args)
      else if name \<in> set [''PSYNC'', ''SYNC'', ''REPLCONF''] then Some everything
      else if name \<in> set [''EVAL'', ''EVALSHA'', ''FCALL''] then
        (if args = [] then Some (general_detail args)
         else if length args < 2 then None
         else Some (''script '' @ short (args ! 0) @ '', '' @ lastOr [args ! 1] ''?'' @ '' key(s)''))
      else if name \<in> set [''SCAN'', ''HSCAN'', ''SSCAN'', ''ZSCAN''] then Some (''cursor '' @ everything)
      else if name = ''KEYS'' then Some (''pattern '' @ everything)
      else if name \<in> set [''CLUSTER'', ''CLIENT'', ''CONFIG'', ''COMMAND'', ''ACL'', ''MEMORY'', ''LATENCY'', ''OBJECT'', ''XINFO'', ''SLOWLOG''] then Some everything
      else if name \<in> set [''INFO'', ''PING'', ''MULTI'', ''EXEC'', ''DISCARD'', ''DBSIZE'', ''FLUSHALL'', ''FLUSHDB'', ''MONITOR''] then Some everything
      else Some (general_detail args))"

section \<open>The replication link\<close>

text \<open>\<^verbatim>\<open>strconv.ParseInt\<close> with its error ignored: 0 for text that is not a number, the end of the range for one too big.\<close>

fun digits_sat :: "string \<Rightarrow> nat \<Rightarrow> nat option" where
  "digits_sat [] acc = Some acc"
| "digits_sat (ch # t) acc =
     (if \<not> go_digit ch then None
      else let n1 = acc * 10 + go_digit_val ch in if n1 \<ge> 2 ^ 64 then Some (2 ^ 64 - 1) else digits_sat t n1)"

definition ParseInt_value :: "string \<Rightarrow> int" where
  "ParseInt_value s =
     (let (neg, ds) = (case s of
          [] \<Rightarrow> (False, [])
        | ch # t \<Rightarrow> if ch = CHR ''+'' then (False, t) else if ch = CHR ''-'' then (True, t) else (False, s))
      in if ds = [] then 0
         else case digits_sat ds 0 of
           None \<Rightarrow> 0
         | Some u \<Rightarrow> if neg then - (int (min u (2 ^ 63))) else int (min u (2 ^ 63 - 1)))"

definition valkeySyncReply :: "pktPacket \<Rightarrow> pktValkeyConn \<Rightarrow> pktValkeyDir \<Rightarrow> respValue \<Rightarrow>
    (string \<times> pktPacket \<times> pktValkeyConn \<times> pktValkeyDir) option" where
  "valkeySyncReply p vc vd v =
     (let s = rv_Str v in
      if go_HasPrefix s ''FULLRESYNC'' then
        let vc1 = vc\<lparr>vc_kind := valkeyKindRepl, vc_fullResync := True\<rparr>;
            f = go_Fields s;
            vc2 = (if length f \<ge> 3 then vc1\<lparr>vc_replID := f ! 1, vc_primaryOff := ParseInt_value (f ! 2)\<rparr> else vc1)
        in Some (''+FULLRESYNC replid '' @ pktEllipsis (vc_replID vc2) 16 @ '' offset '' @ go_Itoa (vc_primaryOff vc2) @ '' '' @ em_dash @ '' a full dataset transfer follows'',
             add_issue (''FULLRESYNC '' @ em_dash @ '' the primary is about to send its ENTIRE dataset as an RDB snapshot before any incremental stream. This is Valkey'' @ [CHR 0x27] @ ''s most expensive operation: it forks, serialises everything, and on a large dataset it is the difference between a replica catching up in seconds and in minutes. A partial resync (+CONTINUE) was not possible, usually because the replication backlog no longer holds the replica'' @ [CHR 0x27] @ ''s offset (repl-backlog-size)'') p,
             vc2, vd\<lparr>vd_expectRDB := True\<rparr>)
      else if go_HasPrefix s ''CONTINUE'' then
        Some (''+CONTINUE '' @ em_dash @ '' partial resync, no dataset transfer needed'',
          add_issue (''Partial resynchronisation (+CONTINUE) '' @ em_dash @ '' the replica reconnected and the primary still had its offset in the backlog, so only the missing stream is sent. This is the cheap path and the one you want after a brief disconnect'') p,
          vc\<lparr>vc_kind := valkeyKindRepl, vc_partialSync := True\<rparr>, vd)
      else None)"

text \<open>
  The header of a snapshot: not one (the code returns -1), still arriving (0), or read, with its text, the
  bytes it took and the direction's new state. The code calls this with a buffer that is not empty.
\<close>

datatype rdb_header = RDBNot | RDBWait | RDBDone string nat pktValkeyDir

definition valkeyRDBHeader :: "pktValkeyDir \<Rightarrow> bytes \<Rightarrow> rdb_header" where
  "valkeyRDBHeader vd buf =
     (if buf ! 0 \<noteq> respBulk then RDBNot
      else case respLine (drop 1 buf) of
        None \<Rightarrow> RDBWait
      | Some (line, n) \<Rightarrow>
          (case go_CutPrefix line ''EOF:'' of
             Some mark \<Rightarrow>
               RDBDone (''RDB transfer begins (diskless, EOF-delimited) '' @ em_dash @ '' the primary is streaming its dataset straight from the fork with no length known in advance'')
                 (1 + n) (vd\<lparr>vd_rdbDiskless := True, vd_eofMark := mark, vd_rdbBytes := 0\<rparr>)
           | None \<Rightarrow>
               (case go_ParseInt (go_TrimSpace line) of
                  None \<Rightarrow> RDBNot
                | Some l \<Rightarrow>
                    if l < 0 then RDBNot
                    else RDBDone (''RDB transfer begins, '' @ pktBytes (go_float64 (nat l)) @ '' to come'') (1 + n)
                      (vd\<lparr>vd_rdbRemaining := nat l, vd_rdbTotal := nat l, vd_rdbBytes := 0, vd_rdbDiskless := False\<rparr>))))"

definition bytes_Index :: "bytes \<Rightarrow> bytes \<Rightarrow> nat option" where
  "bytes_Index b mark = find (\<lambda>i. prefix mark (drop i b)) [0..<Suc (length b)]"

definition valkeyRDBConsume :: "pktValkeyDir \<Rightarrow> bytes \<Rightarrow> string \<times> pktValkeyDir \<times> bytes" where
  "valkeyRDBConsume vd buf =
     (if vd_rdbRemaining vd > 0 then
        let n = min (length buf) (vd_rdbRemaining vd);
            vd1 = vd\<lparr>vd_rdbBytes := vd_rdbBytes vd + n, vd_rdbRemaining := vd_rdbRemaining vd - n\<rparr>
        in if vd_rdbRemaining vd1 = 0 then
             (''RDB transfer complete, '' @ pktBytes (vd_rdbBytes vd1) @ '' '' @ em_dash @ '' the incremental command stream starts now'',
              vd1\<lparr>vd_rdbBytes := 0, vd_rdbTotal := 0\<rparr>, drop n buf)
           else (''RDB payload, '' @ pktBytes (vd_rdbBytes vd1) @ '' of '' @ pktBytes (go_float64 (vd_rdbTotal vd1)), vd1, drop n buf)
      else
        let mark = bytes_of (vd_eofMark vd) in
        case (if mark \<noteq> [] then bytes_Index buf mark else None) of
          Some i \<Rightarrow>
            (''RDB transfer complete (diskless), '' @ pktBytes (vd_rdbBytes vd + i) @ '' '' @ em_dash @ '' the delimiter arrived and the incremental command stream starts now'',
             vd\<lparr>vd_rdbDiskless := False, vd_eofMark := [], vd_rdbBytes := 0\<rparr>, drop (i + length mark) buf)
        | None \<Rightarrow>
            let keep = (if mark = [] \<or> length mark - 1 > length buf then 0 else length mark - 1);
                vd1 = vd\<lparr>vd_rdbBytes := vd_rdbBytes vd + (length buf - keep)\<rparr>
            in (''RDB payload (diskless), '' @ pktBytes (vd_rdbBytes vd1) @ '' so far'', vd1, drop (length buf - keep) buf))"

text \<open>The replication section of an \<^verbatim>\<open>INFO\<close> reply: the last line of each key counts.\<close>

record info_fields =
  if_role :: string
  if_off :: string
  if_primaryOff :: string
  if_backlog :: string

fun info_scan :: "string list \<Rightarrow> info_fields \<Rightarrow> info_fields" where
  "info_scan [] f = f"
| "info_scan (line # rest) f =
     (case go_Cut (go_TrimSpace line) CHR '':'' of
        (k, val, ok) \<Rightarrow>
          info_scan rest
            (if \<not> ok then f
             else if k = ''role'' then f\<lparr>if_role := val\<rparr>
             else if k = ''master_repl_offset'' then f\<lparr>if_primaryOff := val\<rparr>
             else if k \<in> set [''slave_repl_offset'', ''slave_read_repl_offset''] then f\<lparr>if_off := val\<rparr>
             else if k = ''repl_backlog_size'' then f\<lparr>if_backlog := val\<rparr>
             else f))"

definition valkeyInfoNote :: "string \<Rightarrow> string" where
  "valkeyInfoNote body =
     (let f = info_scan (go_Split body (CHR 0x0A)) \<lparr>if_role = [], if_off = [], if_primaryOff = [], if_backlog = []\<rparr>;
          part = (\<lambda>label s. if s \<noteq> [] then [label @ s] else []);
          parts = part ''role='' (if_role f) @ part ''primary offset '' (if_primaryOff f)
            @ part ''replica offset '' (if_off f) @ part ''backlog '' (if_backlog f)
      in if parts = [] then [] else ''INFO: '' @ go_Join parts '', '')"

section \<open>What a command makes of the connection\<close>

fun hello_auth :: "string list \<Rightarrow> pktPacket \<Rightarrow> pktConn \<Rightarrow> pktPacket \<times> pktConn" where
  "hello_auth [] p c = (p, c)"
| "hello_auth (a # rest) p c =
     (if equal_fold a ''AUTH'' \<and> length rest \<ge> 2 \<and> \<not> c_tls c then
        hello_auth rest (add_issue (''HELLO '' @ ellipsis @ '' AUTH on an unencrypted connection '' @ em_dash @ '' the password is a plain RESP bulk string in this capture'') p)
          (c\<lparr>c_user := rest ! 0\<rparr>)
      else hello_auth rest p c)"

definition replconf_ack :: "pktPacket \<Rightarrow> pktValkeyConn \<Rightarrow> string list \<Rightarrow> pktPacket \<times> pktValkeyConn" where
  "replconf_ack p vc args =
     (if length args \<ge> 2 \<and> equal_fold (args ! 0) ''ACK'' then
        case go_ParseInt (args ! 1) of
          None \<Rightarrow> (p, vc)
        | Some off \<Rightarrow>
            let vc1 = vc\<lparr>vc_replicaOff := off\<rparr>; behind = wrap64 (vc_primaryOff vc - off) in
            if vc_primaryOff vc > off \<and> behind \<ge> valkeyLagBytes \<and> \<not> vc_lagNoted vc then
              (add_issue (''Replication lag '' @ pktBytes (go_float64 (nat behind)) @ '' '' @ em_dash @ '' the replica has acknowledged offset '' @ go_Itoa off
                 @ '' while the primary is at '' @ go_Itoa (vc_primaryOff vc)
                 @ ''. Past repl-backlog-size, a disconnect here forces a FULLRESYNC instead of a partial one'') p,
               vc1\<lparr>vc_lagNoted := True\<rparr>)
            else (p, vc1)
      else (p, vc))"

definition classify_kind :: "pktConn \<Rightarrow> pktConn" where
  "classify_kind c =
     (let vc = c_valkey c; vc1 = (if vc_kind vc = [] then vc\<lparr>vc_kind := valkeyKindClient\<rparr> else vc)
      in c\<lparr>c_valkey := vc1, c_Role := vc_kind vc1, c_RoleLabel := valkeyKindLabel (vc_kind vc1)\<rparr>)"

definition classify_command :: "pktPacket \<Rightarrow> pktConn \<Rightarrow> string \<Rightarrow> string list \<Rightarrow> pktPacket \<times> pktConn" where
  "classify_command p c name args =
     (let vc = c_valkey c in
      if name = ''PSYNC'' \<or> name = ''SYNC'' then (p, c\<lparr>c_valkey := vc\<lparr>vc_kind := valkeyKindRepl\<rparr>\<rparr>)
      else if name = ''REPLCONF'' then
        let vc1 = (if vc_kind vc = [] \<or> vc_kind vc = valkeyKindClient then vc\<lparr>vc_kind := valkeyKindRepl\<rparr> else vc)
        in case replconf_ack p vc1 args of (p1, vc2) \<Rightarrow> (p1, c\<lparr>c_valkey := vc2\<rparr>)
      else if name \<in> set [''SUBSCRIBE'', ''PSUBSCRIBE'', ''SSUBSCRIBE''] then (p, c\<lparr>c_valkey := vc\<lparr>vc_kind := valkeyKindSub\<rparr>\<rparr>)
      else if name = ''MONITOR'' then
        (add_issue (''MONITOR '' @ em_dash @ '' this connection now receives every command the server executes, from every client. It is a debugging tool with a real cost: the server serialises each command a second time for it'') p,
         c\<lparr>c_valkey := vc\<lparr>vc_kind := valkeyKindMonitor\<rparr>\<rparr>)
      else if name = ''AUTH'' then
        let p1 = (if c_tls c then p
              else add_issue (''AUTH on an unencrypted connection '' @ em_dash @ '' Valkey sends the password as a plain RESP bulk string, so it is in this capture. Only a TLS port (tls-port) prevents that'') p);
            user = (if length args \<ge> 2 then args ! 0 else ''default'')
        in (p1, c\<lparr>c_valkey := vc\<lparr>vc_authUser := user\<rparr>, c_user := user\<rparr>)
      else if name = ''HELLO'' then
        let vc1 = (if args \<noteq> [] then (case go_ParseInt (args ! 0) of Some v \<Rightarrow> vc\<lparr>vc_respVer := v\<rparr> | None \<Rightarrow> vc) else vc)
        in hello_auth args p (c\<lparr>c_valkey := vc1\<rparr>)
      else if name = ''SELECT'' then (p, if args \<noteq> [] then c\<lparr>c_database := ''db'' @ args ! 0\<rparr> else c)
      else if name = ''FAILOVER'' then
        (add_issue (''FAILOVER '' @ em_dash @ '' a coordinated primary handover was requested. Writes are refused for the duration, and clients see -READONLY or a MOVED to the new primary'') p, c)
      else if name = ''CLUSTER'' \<and> args \<noteq> [] then
        let u = go_Map upper_rune (args ! 0) in
        if u = ''FAILOVER'' then
          (add_issue (''CLUSTER FAILOVER '' @ em_dash @ '' a replica is being promoted; the slots it serves move with it and clients holding a stale slot map get MOVED'') p, c)
        else if u \<in> set [''FORGET'', ''RESET'', ''SETSLOT'', ''DELSLOTS'', ''ADDSLOTS''] then
          (add_issue (''CLUSTER '' @ u @ '' '' @ em_dash @ '' the cluster'' @ [CHR 0x27] @ ''s own topology is being changed by hand'') p, c)
        else (p, c)
      else (p, c))"

definition valkeyClassify :: "pktPacket \<Rightarrow> pktConn \<Rightarrow> string \<Rightarrow> string list \<Rightarrow> pktPacket \<times> pktConn" where
  "valkeyClassify p c name args = (case classify_command p c name args of (p1, c1) \<Rightarrow> (p1, classify_kind c1))"

text \<open>The warning, and the connection with the warnings it has given.\<close>

definition danger_once :: "pktValkeyConn \<Rightarrow> string \<Rightarrow> string \<Rightarrow> string \<times> pktValkeyConn" where
  "danger_once vc key msg =
     (if vc_dangerNoted vc key then ([], vc) else (msg, vc\<lparr>vc_dangerNoted := (vc_dangerNoted vc)(key := True)\<rparr>))"

definition valkeyDangerous :: "vk_lib \<Rightarrow> string \<Rightarrow> string list \<Rightarrow> pktValkeyConn \<Rightarrow> string \<times> pktValkeyConn" where
  "valkeyDangerous lib name args vc =
     (let arg0 = (\<lambda>w. args \<noteq> [] \<and> equal_fold (args ! 0) w) in
      if name = ''KEYS'' then
        danger_once vc ''KEYS'' (''KEYS '' @ pktEllipsis (if args \<noteq> [] then args ! 0 else []) 20
          @ '' '' @ em_dash @ '' this walks the ENTIRE keyspace in one blocking operation. Valkey executes one command at a time, so on a large database every other client waits for it. SCAN does the same job in cursor-sized pieces'')
      else if name = ''FLUSHALL'' \<or> name = ''FLUSHDB'' then
        danger_once vc name (name @ '' '' @ em_dash @ '' every key in '' @ (if name = ''FLUSHALL'' then ''every database'' else ''this database'') @ '' is being deleted''
          @ (if list_ex (\<lambda>a. equal_fold a ''ASYNC'') args then '' (ASYNC: freed in the background)''
             else '' (synchronous by default: the whole server blocks until it finishes)''))
      else if name = ''DEBUG'' then
        (if arg0 ''SLEEP'' then
           danger_once vc ''DEBUG SLEEP'' (''DEBUG SLEEP '' @ em_dash @ '' the server is being deliberately blocked for a fixed time; every other client is stalled for the duration'')
         else if arg0 ''SEGFAULT'' then (''DEBUG SEGFAULT '' @ em_dash @ '' the server is being made to crash on purpose'', vc)
         else ([], vc))
      else if name = ''SHUTDOWN'' then
        (''SHUTDOWN '' @ em_dash @ '' the server is being stopped; every connection failure after this is a consequence'', vc)
      else if name = ''SAVE'' then
        danger_once vc ''SAVE'' (''SAVE '' @ em_dash @ '' a synchronous snapshot: the server is blocked for the whole write. BGSAVE forks instead'')
      else if name = ''SWAPDB'' then
        danger_once vc ''SWAPDB'' (''SWAPDB '' @ em_dash @ '' two databases are being exchanged under the clients using them'')
      else if name = ''SCRIPT'' then
        (if arg0 ''FLUSH'' then
           danger_once vc ''SCRIPT FLUSH'' (''SCRIPT FLUSH '' @ em_dash @ '' every cached Lua script is gone, so every EVALSHA that follows fails with NOSCRIPT until the client resends the body'')
         else ([], vc))
      else if name = ''CONFIG'' then
        (if length args \<ge> 2 \<and> arg0 ''SET'' then
           danger_once vc (''CONFIG SET '' @ vl_ToLower lib (args ! 1))
             (''CONFIG SET '' @ args ! 1 @ '' '' @ em_dash @ '' the server'' @ [CHR 0x27] @ ''s configuration is being changed at runtime, which persists only until restart unless CONFIG REWRITE follows'')
         else ([], vc))
      else ([], vc))"

section \<open>A command and a reply\<close>

text \<open>A command's name is ASCII (\<open>respIsCommand\<close>), so \<^verbatim>\<open>strings.ToUpper\<close> works on its bytes.\<close>

definition cmd_name :: "respValue \<Rightarrow> string" where
  "cmd_name v = map go_upper_char (rv_Str (rv_Items v ! 0))"

definition cmd_args :: "respValue \<Rightarrow> string list" where
  "cmd_args v = map rv_Str (drop 1 (rv_Items v))"

definition note_pipeline :: "pktPacket \<Rightarrow> pktValkeyConn \<Rightarrow> pktPacket \<times> pktValkeyConn" where
  "note_pipeline p vc =
     (let n = length (vc_pending vc); vc1 = (if n > vc_maxPipeline vc then vc\<lparr>vc_maxPipeline := n\<rparr> else vc) in
      if n \<ge> 32 \<and> \<not> vc_pipelineNote vc1 then
        (add_issue (''Pipelining '' @ go_utoa n @ '' commands deep '' @ em_dash @ '' the client is sending without waiting for replies, which is good for throughput; the replies are matched by order, so this is also the depth a decoder has to keep in step with'') p,
         vc1\<lparr>vc_pipelineNote := True\<rparr>)
      else (p, vc1))"

definition pktValkeyCommand :: "vk_lib \<Rightarrow> pktPacket \<Rightarrow> pktConn \<Rightarrow> respValue \<Rightarrow> int \<Rightarrow> (string \<times> pktPacket \<times> pktConn) option" where
  "pktValkeyCommand lib p c v ts =
     (if \<not> respIsCommand v then
        Some (if rv_Type v = respArray \<or> rv_Type v = respPush
              then respTypeName (rv_Type v) @ '' of '' @ go_Itoa (rv_Int v) @ '' (not a command)'' else [], p, c)
      else
        let vc = c_valkey c; name = cmd_name v; args = cmd_args v;
            key = (if args \<noteq> [] then args ! 0 else []);
            p1 = p\<lparr>p_Command := name, p_Query := (if key \<noteq> [] then name @ '' '' @ pktEllipsis (pktPrintable key) 80 else name)\<rparr>;
            vc1 = vc\<lparr>vc_commands := vc_commands vc + 1, vc_pending := vc_pending vc @ [\<lparr>pn_name = name, pn_arg = key, pn_ts = ts\<rparr>]\<rparr>
        in case note_pipeline p1 vc1 of
             (p2, vc2) \<Rightarrow>
               (case valkeyClassify p2 (c\<lparr>c_valkey := vc2, c_Queries := (if valkeyIsChatter name then c_Queries c else c_Queries c + 1)\<rparr>) name args of
                  (p3, c3) \<Rightarrow>
                    (case valkeyDangerous lib name args (c_valkey c3) of
                       (iss, vc4) \<Rightarrow>
                         map_option (\<lambda>detail. (if detail \<noteq> [] then name @ '' '' @ detail else name,
                             if iss \<noteq> [] then add_issue iss p3 else p3, c3\<lparr>c_valkey := vc4\<rparr>))
                           (valkeyCommandDetail name args))))"

definition valkeyPopPending :: "pktValkeyConn \<Rightarrow> valkeyPending option \<times> pktValkeyConn" where
  "valkeyPopPending vc =
     (case vc_pending vc of [] \<Rightarrow> (None, vc) | req # rest \<Rightarrow> (Some req, vc\<lparr>vc_pending := rest\<rparr>))"

definition valkeyLooksPubSub :: "respValue \<Rightarrow> bool" where
  "valkeyLooksPubSub v \<longleftrightarrow>
     (if rv_Type v \<noteq> respArray \<or> rv_Items v = [] \<or> rv_Type (rv_Items v ! 0) \<noteq> respBulk then False
      else go_Map lower_rune (rv_Str (rv_Items v ! 0)) \<in> set [''message'', ''pmessage'', ''smessage'', ''subscribe'', ''unsubscribe'', ''psubscribe'', ''punsubscribe'', ''ssubscribe''])"

definition valkeyPushInfo :: "vk_lib \<Rightarrow> pktPacket \<Rightarrow> pktValkeyConn \<Rightarrow> respValue \<Rightarrow> string \<times> pktPacket \<times> pktValkeyConn" where
  "valkeyPushInfo lib p vc v =
     (let items = rv_Items v; kind = (if items \<noteq> [] then go_Map lower_rune (rv_Str (items ! 0)) else []) in
      if kind = ''message'' \<or> kind = ''smessage'' then
        let ch = (if length items > 1 then rv_Str (items ! 1) else []);
            payload = (if length items > 2 then (if rv_Int (items ! 2) = 0 then int (length (rv_Str (items ! 2))) else rv_Int (items ! 2)) else 0)
        in (''push: message on '' @ vl_Quote lib (pktEllipsis ch 40) @ '', '' @ go_Itoa payload @ '' bytes'', p, vc)
      else if kind = ''pmessage'' then (''push: pattern message'', p, vc)
      else if kind \<in> set [''subscribe'', ''psubscribe'', ''ssubscribe''] then
        let vc1 = vc\<lparr>vc_subChannels := vc_subChannels vc + 1\<rparr>
        in (''push: subscribed ('' @ go_utoa (vc_subChannels vc1) @ '' channel(s) on this connection)'', p, vc1)
      else if kind = ''unsubscribe'' \<or> kind = ''punsubscribe'' then (''push: unsubscribed'', p, vc)
      else if kind = ''invalidate'' then
        (''push: invalidate'',
         add_issue (''Client-side cache invalidation pushed '' @ em_dash @ '' this connection has client tracking on (RESP3), and the server is telling it a cached key changed'') p, vc)
      else (''push: '' @ respRender lib v 1, p, vc))"

text \<open>The primary's half of a replication link after the sync: propagated writes, no replies.\<close>

definition propagated :: "respValue \<Rightarrow> string option" where
  "propagated v =
     (let name = cmd_name v in
      if name = ''PING'' then Some (''propagated: PING (the primary'' @ [CHR 0x27] @ ''s periodic keep-alive on the replication link)'')
      else if name = ''REPLCONF'' \<and> length (rv_Items v) > 1 \<and> equal_fold (rv_Str (rv_Items v ! 1)) ''GETACK'' then
        Some (''REPLCONF GETACK '' @ em_dash @ '' the primary is asking the replica to report its offset now'')
      else if length (rv_Items v) > 1 then
        map_option (\<lambda>d. ''propagated: '' @ name @ '' '' @ d) (valkeyCommandDetail name (cmd_args v))
      else Some (''propagated: '' @ name))"

definition error_reply :: "pktPacket \<Rightarrow> pktConn \<Rightarrow> respValue \<Rightarrow> valkeyPending option \<Rightarrow> string \<times> pktPacket \<times> pktConn" where
  "error_reply p c v req =
     (case valkeySplitError (rv_Str v) of
        (code, rest) \<Rightarrow>
          let p1 = p\<lparr>p_ErrState := code, p_Status := ''Error '' @ code @ '': '' @ pktEllipsis (pktPrintable rest) 110\<rparr>;
              iss = valkeyErrIssue code (rv_Str v);
              out = ''-'' @ code @ '' '' @ pktEllipsis (pktPrintable rest) 120
          in (case req of Some r \<Rightarrow> pn_name r @ '' '' @ right_arrow @ '' '' @ out | None \<Rightarrow> out,
              if iss \<noteq> [] then add_issue iss p1 else p1,
              c\<lparr>c_Errors := c_Errors c + 1\<rparr>))"

definition success_reply :: "vk_lib \<Rightarrow> pktPacket \<Rightarrow> respValue \<Rightarrow> valkeyPending option \<Rightarrow> int \<Rightarrow> string \<times> pktPacket" where
  "success_reply lib p v req lag =
     (let p1 = p\<lparr>p_Status := ''Success''\<rparr>;
          p2 = (if rv_Type v \<in> {respArray, respSet, respMap, respPush} then p1\<lparr>p_Rows := rv_Int v\<rparr> else p1);
          p3 = (if rv_Bytes v \<ge> valkeyBigReplyBytes then
                  add_issue (''Heavy reply '' @ em_dash @ '' '' @ pktBytes (rv_Bytes v) @ '' in one reply. Valkey is single-threaded for command execution, so the time spent serialising this blocked every other client on the server'') p2
                else p2);
          p4 = (case req of
                  Some r \<Rightarrow>
                    if lag \<ge> int valkeySlowMS * 10 ^ 6 \<and> \<not> valkeyBlocking (pn_name r) then
                      add_issue (''Slow reply '' @ em_dash @ '' '' @ vl_ms1 lib lag @ '' ms for '' @ pn_name r @ ''. Valkey executes commands one at a time, so this delayed every other client too (its own slowlog threshold is 10 ms)'') p3
                    else p3
                | None \<Rightarrow> p3);
          rendered = (case req of
                  Some r \<Rightarrow>
                    (if pn_name r = ''INFO'' \<and> valkeyInfoNote (rv_Str v) \<noteq> [] then valkeyInfoNote (rv_Str v) else respRender lib v 1)
                | None \<Rightarrow> respRender lib v 1)
      in ((case req of Some r \<Rightarrow> pn_name r @ '' '' @ right_arrow @ '' '' @ rendered | None \<Rightarrow> rendered)
            @ (if lag > 0 then '' ('' @ vl_ms1 lib lag @ '' ms)'' else []), p4))"

definition matched_reply :: "vk_lib \<Rightarrow> pktPacket \<Rightarrow> pktConn \<Rightarrow> respValue \<Rightarrow> int \<Rightarrow> string \<times> pktPacket \<times> pktConn" where
  "matched_reply lib p c v ts =
     (case valkeyPopPending (c_valkey c) of
        (req, vc1) \<Rightarrow>
          let timed = (case req of Some r \<Rightarrow> pn_ts r \<noteq> zero_time | None \<Rightarrow> False);
              lag = (case req of Some r \<Rightarrow> if timed then go_Sub ts (pn_ts r) else 0 | None \<Rightarrow> 0);
              p1 = (if timed then p\<lparr>p_LagNS := lag\<rparr> else p);
              c1 = c\<lparr>c_valkey := vc1\<rparr>
          in if rv_Type v = respError \<or> rv_Type v = respBlobErr then error_reply p1 c1 v req
             else (case success_reply lib p1 v req lag of (s, p2) \<Rightarrow> (s, p2, c1)))"

definition pktValkeyReply :: "vk_lib \<Rightarrow> pktPacket \<Rightarrow> pktConn \<Rightarrow> pktValkeyDir \<Rightarrow> respValue \<Rightarrow> int \<Rightarrow>
    (string \<times> pktPacket \<times> pktConn \<times> pktValkeyDir) option" where
  "pktValkeyReply lib p c vd v ts =
     (let vc = c_valkey c in
      if rv_Type v = respPush \<or> (rv_Type v = respArray \<and> valkeyLooksPubSub v) then
        (case valkeyPushInfo lib p vc v of (s, p1, vc1) \<Rightarrow> Some (s, p1, c\<lparr>c_valkey := vc1\<rparr>, vd))
      else case (if rv_Type v = respSimple then valkeySyncReply p vc vd v else None) of
        Some (s, p1, vc1, vd1) \<Rightarrow> Some (s, p1, c\<lparr>c_valkey := snd (valkeyPopPending vc1)\<rparr>, vd1)
      | None \<Rightarrow>
          if vc_kind vc = valkeyKindRepl \<and> (vc_fullResync vc \<or> vc_partialSync vc) \<and> respIsCommand v then
            map_option (\<lambda>s. (s, p, c\<lparr>c_valkey := vc\<lparr>vc_primaryOff := wrap64 (vc_primaryOff vc + int (rv_Bytes v))\<rparr>\<rparr>, vd)) (propagated v)
          else (case matched_reply lib p c v ts of (s, p1, c1) \<Rightarrow> Some (s, p1, c1, vd)))"

section \<open>One frame\<close>

definition anchor_type :: "byte \<Rightarrow> bool" where
  "anchor_type t \<longleftrightarrow> t \<in> {respArray, respBulk, respSimple, respError, respInt, respPush, respMap, respSet}"

definition anchors_at :: "bytes \<Rightarrow> nat \<Rightarrow> bool" where
  "anchors_at buf i \<longleftrightarrow> anchor_type (buf ! i) \<and>
     (case respParse (drop i buf) 0 of
        RespOK v n \<Rightarrow> rv_Type v \<in> {respArray, respPush, respMap, respSet, respBulk}
      | _ \<Rightarrow> False)"

text \<open>Whether a value was found, and the buffer.\<close>

definition valkeyReanchor :: "bytes \<Rightarrow> bool \<times> bytes" where
  "valkeyReanchor buf =
     (case find (anchors_at buf) [1..<length buf] of
        Some i \<Rightarrow> (True, drop i buf)
      | None \<Rightarrow> (False, if length buf > 1048576 then drop (length buf - 65536) buf else buf))"

type_synonym vk_state = "pktPacket \<times> pktConn \<times> pktValkeyDir \<times> bytes \<times> string list \<times> nat"

definition in_transfer :: "pktValkeyDir \<Rightarrow> bool" where
  "in_transfer vd \<longleftrightarrow> vd_rdbRemaining vd > 0 \<or> vd_rdbDiskless vd"

text \<open>The text of a consumed piece of a snapshot, when there are bytes to consume.\<close>

definition rdb_rest :: "pktPacket \<Rightarrow> pktConn \<Rightarrow> pktValkeyDir \<Rightarrow> bytes \<Rightarrow> string list \<Rightarrow> nat \<Rightarrow> vk_state" where
  "rdb_rest p c vd buf infos msgs =
     (if buf = [] then (p, c, vd, buf, infos, msgs)
      else case valkeyRDBConsume vd buf of
        (extra, vd1, buf1) \<Rightarrow> (p, c, vd1, buf1, if extra \<noteq> [] then infos @ [extra] else infos, msgs))"

definition is_newline :: "byte \<Rightarrow> bool" where
  "is_newline b \<longleftrightarrow> b = 0x0a \<or> b = 0x0d"

text \<open>The bare newlines at the head of the buffer, counted, and noted once on a replication link.\<close>

definition skip_keepalives :: "pktValkeyDir \<Rightarrow> bytes \<Rightarrow> pktValkeyDir \<times> bytes" where
  "skip_keepalives vd buf =
     (vd\<lparr>vd_keepalives := vd_keepalives vd + length (takeWhile is_newline buf)\<rparr>, dropWhile is_newline buf)"

definition note_keepalives :: "pktValkeyConn \<Rightarrow> pktValkeyDir \<Rightarrow> string list \<Rightarrow> pktValkeyDir \<times> string list" where
  "note_keepalives vc vd infos =
     (if vd_keepalives vd > 0 \<and> \<not> vd_kaNoted vd \<and> vc_kind vc = valkeyKindRepl then
        (vd\<lparr>vd_kaNoted := True\<rparr>,
         infos @ [go_utoa (vd_keepalives vd) @ '' keep-alive newline(s) '' @ em_dash @ '' the primary is forking and saving; these stop the replica timing out during the transfer''])
      else (vd, infos))"

definition valkey_value :: "vk_lib \<Rightarrow> bool \<Rightarrow> pktPacket \<Rightarrow> pktConn \<Rightarrow> pktValkeyDir \<Rightarrow> respValue \<Rightarrow> int \<Rightarrow>
    (string \<times> pktPacket \<times> pktConn \<times> pktValkeyDir) option" where
  "valkey_value lib fromClient p c vd v ts =
     (if fromClient then map_option (\<lambda>(s, p1, c1). (s, p1, c1, vd)) (pktValkeyCommand lib p c v ts)
      else pktValkeyReply lib p c vd v ts)"

lemma skip_keepalives_length: "(vd', buf') = skip_keepalives vd buf \<Longrightarrow> length buf' \<le> length buf"
  by (simp add: skip_keepalives_def length_dropWhile_le)

lemma valkeyReanchor_length: "(True, buf') = valkeyReanchor buf \<Longrightarrow> length buf' < length buf"
  by (auto simp: valkeyReanchor_def find_Some_iff split: option.splits)

lemma respParse_pos: "respParse b d = RespOK v n \<Longrightarrow> 0 < n \<and> n \<le> length b"
  using resp_good [of d] by (auto simp: resp_good_def)

function valkey_loop :: "vk_lib \<Rightarrow> bool \<Rightarrow> int \<Rightarrow> pktPacket \<Rightarrow> pktConn \<Rightarrow> pktValkeyDir \<Rightarrow> bytes \<Rightarrow> string list \<Rightarrow> nat \<Rightarrow> vk_state option" where
  "valkey_loop lib fromClient ts p c vd0 buf0 infos0 msgs =
     (case skip_keepalives vd0 buf0 of
        (vda, buf) \<Rightarrow>
          (case note_keepalives (c_valkey c) vda infos0 of
             (vdb, infos) \<Rightarrow>
               (case (if vd_expectRDB vdb \<and> buf \<noteq> [] then Some (valkeyRDBHeader vdb buf) else None) of
                  Some RDBWait \<Rightarrow> Some (p, c, vdb, buf, infos, msgs)
                | Some (RDBDone info consumed vdc) \<Rightarrow>
                    Some (rdb_rest p c (vdc\<lparr>vd_expectRDB := False\<rparr>) (drop consumed buf) (infos @ [info]) msgs)
                | hdr \<Rightarrow>
                    let vd = (if hdr = Some RDBNot then vdb\<lparr>vd_expectRDB := False\<rparr> else vdb) in
                    if buf = [] then Some (p, c, vd, buf, infos, msgs)
                    else case respParse buf 0 of
                      RespBad \<Rightarrow>
                        let vd1 = vd\<lparr>vd_aligned := False, vd_desynced := True\<rparr> in
                        (case valkeyReanchor buf of
                           (True, buf1) \<Rightarrow> valkey_loop lib fromClient ts p c vd1 buf1 infos msgs
                         | (False, buf1) \<Rightarrow> Some (p, c, vd1, buf1, infos, msgs))
                    | RespMore \<Rightarrow> Some (p, c, vd, buf, infos, msgs)
                    | RespOK v n \<Rightarrow>
                        (case valkey_value lib fromClient p
                           (c\<lparr>c_valkey := (c_valkey c)\<lparr>vc_sawResp := True\<rparr>\<rparr>) (vd\<lparr>vd_aligned := True\<rparr>) v ts of
                           None \<Rightarrow> None
                         | Some (info, p1, c1, vd1) \<Rightarrow>
                             let infos1 = (if info \<noteq> [] then infos @ [info] else infos) in
                             if in_transfer vd1 then Some (rdb_rest p1 c1 vd1 (drop n buf) infos1 (msgs + 1))
                             else valkey_loop lib fromClient ts p1 c1 vd1 (drop n buf) infos1 (msgs + 1)))))"
  by pat_completeness auto
termination
  by (relation "measure (\<lambda>(lib, fc, ts, p, c, vd, buf, infos, msgs). length buf)")
     (auto dest!: skip_keepalives_length valkeyReanchor_length respParse_pos)

declare valkey_loop.simps [simp del]

text \<open>A line that is no RESP value but a known command, when nothing else was read from the frame.\<close>

definition inline_command :: "bool \<Rightarrow> int \<Rightarrow> vk_state \<Rightarrow> vk_state" where
  "inline_command fromClient ts s =
     (case s of (p, c, vd, buf, infos, msgs) \<Rightarrow>
        if msgs = 0 \<and> fromClient \<and> buf \<noteq> [] then
          case respInlineCommand buf of
            None \<Rightarrow> s
          | Some (line, n) \<Rightarrow>
              let name = go_Map upper_rune (go_Fields line ! 0); vc = c_valkey c in
              (add_issue (''Inline command '' @ em_dash @ '' sent as bare text rather than a RESP array. Legal, and what a health check, a telnet session or a port probe sends; a real client library never does it'') (p\<lparr>p_Command := name\<rparr>),
               c\<lparr>c_valkey := vc\<lparr>vc_sawResp := True, vc_pending := vc_pending vc @ [\<lparr>pn_name = name, pn_arg = [], pn_ts = ts\<rparr>],
                   vc_commands := vc_commands vc + 1\<rparr>, c_Queries := c_Queries c + 1\<rparr>,
               vd, drop n buf, infos @ [name @ '' (inline, no RESP framing)''], msgs + 1)
        else s)"

definition valkey_summary :: "pktPacket \<Rightarrow> pktConn \<Rightarrow> pktValkeyDir \<Rightarrow> bytes \<Rightarrow> string list \<Rightarrow> nat \<Rightarrow> bytes \<Rightarrow> pktPacket" where
  "valkey_summary p c vd buf infos msgs payload =
     (let p1 = (if msgs > 0 then p\<lparr>p_Proto := valkeyKindLabel (vc_kind (c_valkey c))\<rparr> else p) in
      if infos \<noteq> [] then
        p1\<lparr>p_Info := (if length infos > 3 then go_Join (take 3 infos) '' | '' @ '' | +'' @ go_utoa (length infos - 3) @ '' more''
            else go_Join infos '' | '')\<rparr>
      else if msgs > 0 then p1\<lparr>p_Info := ''Valkey data, '' @ go_utoa msgs @ '' value(s) in '' @ go_utoa (length payload) @ '' bytes''\<rparr>
      else if vd_desynced vd \<and> \<not> vd_aligned vd then
        p1\<lparr>p_Proto := ''Valkey'', p_Info := ''[framing lost] '' @ go_utoa (length payload) @ '' bytes, hunting for the next RESP value''\<rparr>
      else if \<not> c_synced c \<and> \<not> vd_aligned vd then
        p1\<lparr>p_Proto := ''Valkey'', p_Status := ''Unknown'',
           p_Info := ''[capture joined mid-connection] '' @ go_utoa (length payload) @ '' bytes, waiting for a value boundary''\<rparr>
      else if buf \<noteq> [] then
        p1\<lparr>p_Proto := ''Valkey'', p_Info := ''[continuation] '' @ go_utoa (length payload) @ '' bytes, '' @ go_utoa (length buf) @ '' buffered''\<rparr>
      else p1)"

definition valkey_tls :: "pktPacket \<Rightarrow> pktConn \<Rightarrow> bytes \<Rightarrow> pktPacket \<times> pktConn" where
  "valkey_tls p c payload =
     (let info = pktTLSInfo payload (c_tlsSealed c);
          p1 = p\<lparr>p_Proto := ''TLS'', p_Info := info, p_Status := ''Encrypted''\<rparr>
      in (if go_Contains info ''Alert'' then
            add_issue (''TLS alert '' @ em_dash @ '' handshake or session rejected; the client reports an SSL error and the connection ends'') p1
          else p1,
          if \<not> c_tlsSealed c \<and> pktTLSSeals payload then c\<lparr>c_tlsSealed := True\<rparr> else c))"

definition put_dir :: "bool \<Rightarrow> pktValkeyDir \<Rightarrow> bytes \<Rightarrow> pktConn \<Rightarrow> pktConn" where
  "put_dir fromClient vd buf c = set_dir fromClient ((dir_of fromClient c)\<lparr>ds_valkey := vd, ds_buf := buf\<rparr>) c"

definition pktValkeyDecode :: "vk_lib \<Rightarrow> pktPacket \<Rightarrow> pktConn \<Rightarrow> bool \<Rightarrow> bytes \<Rightarrow> int \<Rightarrow> (pktPacket \<times> pktConn) option" where
  "pktValkeyDecode lib p c fromClient payload ts =
     (if c_tls c then Some (valkey_tls p c payload)
      else if \<not> vc_sawResp (c_valkey c) \<and> pktLooksTLS payload then
        Some (p\<lparr>p_Proto := ''TLS'', p_Status := ''Encrypted'', p_Info := pktTLSInfo payload False\<rparr>,
          c\<lparr>c_tls := True, c_tlsSealed := pktTLSSeals payload\<rparr>)
      else
        let d = dir_of fromClient c; vd = ds_valkey d; buf = ds_buf d @ payload;
            (infos, vd1, buf1) =
              (if in_transfer vd then
                 case valkeyRDBConsume vd buf of (info, vd1, buf1) \<Rightarrow> (if info \<noteq> [] then [info] else [], vd1, buf1)
               else ([], vd, buf))
        in if in_transfer vd1 then
             Some (p\<lparr>p_Proto := valkeyKindLabel (vc_kind (c_valkey c)), p_Info := go_Join infos '' | ''\<rparr>, put_dir fromClient vd1 buf1 c)
           else
             map_option (\<lambda>s. case inline_command fromClient ts s of
                 (p2, c2, vd2, buf2, infos2, msgs) \<Rightarrow>
                   (valkey_summary p2 c2 vd2 buf2 infos2 msgs payload, put_dir fromClient vd2 buf2 c2))
               (valkey_loop lib fromClient ts p c vd1 buf1 infos 0))"

end
