(* ===== verification/Valkey_Order.thy ===== *)
theory Valkey_Order
  imports Valkey
begin

text \<open>
  What the Valkey decoder does with a stream of frames (\<^verbatim>\<open>src/app/pktvalkey.go\<close>): when it panics, how replies are
  paired with commands, and where a snapshot streamed without a length ends.
\<close>

section \<open>When the decoder panics\<close>

lemma if_Some_None: "(if b then Some x else y) = None \<longleftrightarrow> \<not> b \<and> y = None"
  by simp

lemma valkeyCommandDetail_None:
  "valkeyCommandDetail name args = None \<longleftrightarrow> name \<in> set [''EVAL'', ''EVALSHA'', ''FCALL''] \<and> length args = 1"
  (is "?l \<longleftrightarrow> ?r")
proof
  assume ?l
  have two: "(if b then (if e then Some x else if l then None else Some y) else z) = None \<Longrightarrow> (b \<and> \<not> e \<and> l) \<or> z = None"
    for b e l and x y :: string and z by (auto split: if_splits)
  have one: "(if b then (if e then Some x else Some y) else z) = None \<Longrightarrow> z = None"
    and zero: "(if b then Some x else z) = None \<Longrightarrow> z = None" for b e and x y :: string and z
    by (auto split: if_splits)
  note d = \<open>?l\<close> [unfolded valkeyCommandDetail_def Let_def]
  note d = d [THEN zero, THEN one, THEN zero, THEN zero, THEN zero, THEN zero, THEN zero, THEN zero, THEN zero, THEN zero, THEN zero]
  from two [OF d] show ?r
  proof
    assume a: "name \<in> set [''EVAL'', ''EVALSHA'', ''FCALL''] \<and> args \<noteq> [] \<and> length args < 2"
    then have "length args = 1" by (cases args) auto
    with a show ?thesis by blast
  qed (simp split: if_splits)
next
  assume ?r
  then show ?l by (auto simp: valkeyCommandDetail_def)
qed

lemma pktValkeyCommand_None:
  "pktValkeyCommand lib p c v ts = None \<longleftrightarrow> respIsCommand v \<and> valkeyCommandDetail (cmd_name v) (cmd_args v) = None"
  unfolding pktValkeyCommand_def Let_def by (auto split: prod.splits)

section \<open>Commands and replies in order\<close>

lemma resp_enc_head: "resp_wf d v \<Longrightarrow> \<exists>t r. resp_enc v = t # r \<and> \<not> is_newline t"
  by (cases v) (auto simp: is_newline_def resp_types)

lemma skip_keepalives_none: "buf = [] \<or> \<not> is_newline (hd buf) \<Longrightarrow> skip_keepalives vd buf = (vd, buf)"
  by (cases buf) (auto simp: skip_keepalives_def)

lemma note_keepalives_none: "vd_keepalives vd = 0 \<Longrightarrow> note_keepalives vc vd infos = (vd, infos)"
  by (simp add: note_keepalives_def)

text \<open>A direction between two values, outside a snapshot.\<close>

definition at_value :: "pktValkeyDir \<Rightarrow> bool" where
  "at_value vd \<longleftrightarrow> vd_keepalives vd = 0 \<and> \<not> vd_expectRDB vd \<and> \<not> in_transfer vd"

lemma at_value_aligned [simp]: "at_value (vd\<lparr>vd_aligned := b\<rparr>) = at_value vd"
  by (simp add: at_value_def in_transfer_def)

abbreviation saw_resp :: "pktConn \<Rightarrow> pktConn" where
  "saw_resp c \<equiv> c\<lparr>c_valkey := (c_valkey c)\<lparr>vc_sawResp := True\<rparr>\<rparr>"

lemma valkey_loop_empty:
  "at_value vd \<Longrightarrow> valkey_loop lib fc ts p c vd [] infos msgs = Some (p, c, vd, [], infos, msgs)"
  by (simp add: valkey_loop.simps [of lib fc ts p c vd "[]"] skip_keepalives_none note_keepalives_none at_value_def)

lemma valkey_loop_value:
  assumes "resp_wf 0 v" "at_value vd"
  shows "valkey_loop lib fc ts p c vd (resp_enc v @ rest) infos msgs =
    (case valkey_value lib fc p (saw_resp c) (vd\<lparr>vd_aligned := True\<rparr>) (resp_view v) ts of
       None \<Rightarrow> None
     | Some (info, p1, c1, vd1) \<Rightarrow>
         let infos1 = (if info \<noteq> [] then infos @ [info] else infos) in
         if in_transfer vd1 then Some (rdb_rest p1 c1 vd1 rest infos1 (msgs + 1))
         else valkey_loop lib fc ts p1 c1 vd1 rest infos1 (msgs + 1))"
proof -
  obtain t r where e: "resp_enc v = t # r" "\<not> is_newline t" using resp_enc_head [OF assms(1)] by blast
  have "respParse (t # r @ rest) 0 = RespOK (resp_view v) (Suc (length r))"
    using respParse_enc [OF assms(1), of rest] e by simp
  then show ?thesis
    using assms(2) e
    by (simp add: valkey_loop.simps [of lib fc ts p c vd "t # r @ rest"] skip_keepalives_none note_keepalives_none at_value_def
        Let_def split: option.split)
qed

text \<open>What a command adds to the queue.\<close>

definition cmd_entry :: "int \<Rightarrow> respValue \<Rightarrow> valkeyPending" where
  "cmd_entry ts v = \<lparr>pn_name = cmd_name v, pn_arg = (case cmd_args v of [] \<Rightarrow> [] | a # _ \<Rightarrow> a), pn_ts = ts\<rparr>"

text \<open>The part of the connection only replies and the queue itself change.\<close>

definition vc_core :: "pktValkeyConn \<Rightarrow> valkeyPending list \<times> bool \<times> bool" where
  [simp]: "vc_core vc = (vc_pending vc, vc_fullResync vc, vc_partialSync vc)"

lemma note_pipeline_core: "note_pipeline p vc = (p', vc') \<Longrightarrow> vc_core vc' = vc_core vc"
  by (auto simp: note_pipeline_def Let_def split: if_splits)

lemma replconf_ack_core: "replconf_ack p vc args = (p', vc') \<Longrightarrow> vc_core vc' = vc_core vc"
  by (auto simp: replconf_ack_def Let_def split: if_splits option.splits)

lemma hello_auth_core: "vc_core (c_valkey (snd (hello_auth args p c))) = vc_core (c_valkey c)"
  by (induction args p c rule: hello_auth.induct) auto

lemma classify_command_core: "vc_core (c_valkey (snd (classify_command p c name args))) = vc_core (c_valkey c)"
proof -
  let ?P = "\<lambda>r :: pktPacket \<times> pktConn. vc_core (c_valkey (snd r)) = vc_core (c_valkey c)"
  show ?thesis
    unfolding classify_command_def Let_def
    by (intro if_pred [of _ ?P])
       (simp_all add: hello_auth_core [simplified] split: prod.split option.split, auto dest: replconf_ack_core)
qed

lemma valkeyClassify_core: "vc_core (c_valkey (snd (valkeyClassify p c name args))) = vc_core (c_valkey c)"
  using classify_command_core [of p c name args]
  by (auto simp: valkeyClassify_def classify_kind_def Let_def split: prod.splits)

lemma danger_once_core: "vc_core (snd (danger_once vc key msg)) = vc_core vc"
  by (simp add: danger_once_def)

lemma valkeyDangerous_core: "vc_core (snd (valkeyDangerous lib name args vc)) = vc_core vc"
proof -
  let ?P = "\<lambda>r :: string \<times> pktValkeyConn. vc_core (snd r) = vc_core vc"
  show ?thesis
    unfolding valkeyDangerous_def Let_def
    by (intro if_pred [of _ ?P]) (simp_all only: danger_once_core snd_conv)
qed

lemma pktValkeyCommand_core:
  assumes "pktValkeyCommand lib p c v ts = Some (s, p', c')" "respIsCommand v"
  shows "vc_core (c_valkey c') = (vc_pending (c_valkey c) @ [cmd_entry ts v], vc_fullResync (c_valkey c), vc_partialSync (c_valkey c))"
proof -
  let ?vc1 = "(c_valkey c)\<lparr>vc_commands := vc_commands (c_valkey c) + 1, vc_pending := vc_pending (c_valkey c) @ [cmd_entry ts v]\<rparr>"
  have key: "\<lparr>pn_name = cmd_name v, pn_arg = (if cmd_args v \<noteq> [] then cmd_args v ! 0 else []), pn_ts = ts\<rparr> = cmd_entry ts v"
    by (auto simp: cmd_entry_def split: list.split)
  obtain p2 vc2 p3 c3 iss vc4 q1 c1 where
      a: "note_pipeline q1 ?vc1 = (p2, vc2)" "valkeyClassify p2 c1 (cmd_name v) (cmd_args v) = (p3, c3)"
      "valkeyDangerous lib (cmd_name v) (cmd_args v) (c_valkey c3) = (iss, vc4)"
      "c_valkey c1 = vc2" "c' = c3\<lparr>c_valkey := vc4\<rparr>"
    using assms unfolding pktValkeyCommand_def Let_def key
    by (auto split: prod.splits)
  show ?thesis
    using note_pipeline_core [OF a(1)] valkeyClassify_core [of p2 c1 "cmd_name v" "cmd_args v"]
      valkeyDangerous_core [of lib "cmd_name v" "cmd_args v" "c_valkey c3"] a
    by simp
qed

text \<open>A command leaves the transport alone.\<close>

definition transport :: "pktConn \<Rightarrow> bool \<times> pktDirState \<times> pktDirState" where
  [simp]: "transport c = (c_tls c, c_c2s c, c_s2c c)"

lemma hello_auth_transport: "transport (snd (hello_auth args p c)) = transport c"
  by (induction args p c rule: hello_auth.induct) auto

lemma classify_command_transport: "transport (snd (classify_command p c name args)) = transport c"
proof -
  let ?P = "\<lambda>r :: pktPacket \<times> pktConn. transport (snd r) = transport c"
  show ?thesis
    unfolding classify_command_def Let_def
    by (intro if_pred [of _ ?P]) (simp_all add: hello_auth_transport [simplified] split: prod.split)
qed

lemma valkeyClassify_transport: "transport (snd (valkeyClassify p c name args)) = transport c"
  using classify_command_transport [of p c name args]
  by (auto simp: valkeyClassify_def classify_kind_def Let_def split: prod.splits)

lemma pktValkeyCommand_transport:
  assumes "pktValkeyCommand lib p c v ts = Some (s, p', c')"
  shows "transport c' = transport c"
proof (cases "respIsCommand v")
  case True
  obtain p2 p3 c3 vc4 c1 where
      "valkeyClassify p2 c1 (cmd_name v) (cmd_args v) = (p3, c3)" "transport c1 = transport c" "c' = c3\<lparr>c_valkey := vc4\<rparr>"
    using assms True unfolding pktValkeyCommand_def Let_def by (auto split: prod.splits)
  then show ?thesis using valkeyClassify_transport [of p2 c1 "cmd_name v" "cmd_args v"] by simp
qed (use assms in \<open>auto simp: pktValkeyCommand_def\<close>)

definition good_command :: "resp \<Rightarrow> bool" where
  "good_command v \<longleftrightarrow> resp_wf 0 v \<and> respIsCommand (resp_view v)
     \<and> valkeyCommandDetail (cmd_name (resp_view v)) (cmd_args (resp_view v)) \<noteq> None"

text \<open>The loop over a frame of commands queues every one of them, in order.\<close>

lemma valkey_loop_commands:
  assumes "\<forall>v \<in> set vs. good_command v" "at_value vd"
  shows "\<exists>p' c' infos'. valkey_loop lib True ts p c vd (concat (map resp_enc vs)) infos msgs =
      Some (p', c', if vs = [] then vd else vd\<lparr>vd_aligned := True\<rparr>, [], infos', msgs + length vs)
    \<and> vc_core (c_valkey c') = (vc_pending (c_valkey c) @ map (\<lambda>v. cmd_entry ts (resp_view v)) vs, vc_fullResync (c_valkey c), vc_partialSync (c_valkey c))
    \<and> transport c' = transport c"
  using assms
proof (induction vs arbitrary: p c vd infos msgs)
  case Nil
  then show ?case by (simp add: valkey_loop_empty)
next
  case (Cons v vs)
  have v: "resp_wf 0 v" "respIsCommand (resp_view v)" "pktValkeyCommand lib p (saw_resp c) (resp_view v) ts \<noteq> None"
    using Cons.prems(1) by (auto simp: good_command_def pktValkeyCommand_None)
  then obtain s p1 c1 where k: "pktValkeyCommand lib p (saw_resp c) (resp_view v) ts = Some (s, p1, c1)" by auto
  have tr: "transport c1 = transport c" using pktValkeyCommand_transport [OF k] by simp
  have core: "vc_core (c_valkey c1) = (vc_pending (c_valkey c) @ [cmd_entry ts (resp_view v)], vc_fullResync (c_valkey c), vc_partialSync (c_valkey c))"
    using pktValkeyCommand_core [OF k v(2)] by simp
  have nt: "\<not> in_transfer (vd\<lparr>vd_aligned := True\<rparr>)"
    using Cons.prems(2) by (simp add: at_value_def in_transfer_def)
  let ?infos = "if s \<noteq> [] then infos @ [s] else infos"
  have "valkey_loop lib True ts p c vd (concat (map resp_enc (v # vs))) infos msgs =
      valkey_loop lib True ts p1 c1 (vd\<lparr>vd_aligned := True\<rparr>) (concat (map resp_enc vs)) ?infos (msgs + 1)"
    using valkey_loop_value [OF v(1) Cons.prems(2), of lib True ts p c "concat (map resp_enc vs)" infos msgs] k nt
    by (simp add: valkey_value_def Let_def)
  moreover obtain p' c' infos' where "valkey_loop lib True ts p1 c1 (vd\<lparr>vd_aligned := True\<rparr>) (concat (map resp_enc vs)) ?infos (msgs + 1) =
      Some (p', c', vd\<lparr>vd_aligned := True\<rparr>, [], infos', msgs + length (v # vs))"
    "vc_core (c_valkey c') = (vc_pending (c_valkey c1) @ map (\<lambda>v. cmd_entry ts (resp_view v)) vs, vc_fullResync (c_valkey c1), vc_partialSync (c_valkey c1))"
    "transport c' = transport c1"
    using Cons.IH [of "vd\<lparr>vd_aligned := True\<rparr>" p1 c1 ?infos "msgs + 1"] Cons.prems by (auto split: if_splits)
  ultimately show ?case using core tr by simp
qed

text \<open>What the line of a reply says, given the command it answers.\<close>

definition reply_text :: "vk_lib \<Rightarrow> valkeyPending \<Rightarrow> respValue \<Rightarrow> string" where
  "reply_text lib r v =
     (if rv_Type v \<in> {respError, respBlobErr}
      then ''-'' @ fst (valkeySplitError (rv_Str v)) @ '' '' @ pktEllipsis (pktPrintable (snd (valkeySplitError (rv_Str v)))) 120
      else if pn_name r = ''INFO'' \<and> valkeyInfoNote (rv_Str v) \<noteq> [] then valkeyInfoNote (rv_Str v)
      else respRender lib v 1)"

definition reply_line :: "vk_lib \<Rightarrow> int \<Rightarrow> valkeyPending \<Rightarrow> respValue \<Rightarrow> string" where
  "reply_line lib ts r v =
     (let lag = (if pn_ts r \<noteq> zero_time then go_Sub ts (pn_ts r) else 0) in
      pn_name r @ '' '' @ right_arrow @ '' '' @ reply_text lib r v
        @ (if rv_Type v \<notin> {respError, respBlobErr} \<and> lag > 0 then '' ('' @ vl_ms1 lib lag @ '' ms)'' else []))"

lemma reply_line_nonempty [simp]: "reply_line lib ts r v \<noteq> []"
  by (simp add: reply_line_def Let_def)

definition plain_reply :: "respValue \<Rightarrow> bool" where
  "plain_reply v \<longleftrightarrow> rv_Type v \<noteq> respPush \<and> \<not> valkeyLooksPubSub v
     \<and> \<not> (rv_Type v = respSimple \<and> (go_HasPrefix (rv_Str v) ''FULLRESYNC'' \<or> go_HasPrefix (rv_Str v) ''CONTINUE''))"

lemma matched_reply_line:
  assumes "vc_pending (c_valkey c) = r # rest"
  obtains p' c' where "matched_reply lib p c v ts = (reply_line lib ts r v, p', c')"
    "c_valkey c' = (c_valkey c)\<lparr>vc_pending := rest\<rparr>"
proof -
  let ?lag = "if pn_ts r \<noteq> zero_time then go_Sub ts (pn_ts r) else 0"
  let ?c = "c\<lparr>c_valkey := (c_valkey c)\<lparr>vc_pending := rest\<rparr>\<rparr>"
  have pop: "valkeyPopPending (c_valkey c) = (Some r, (c_valkey c)\<lparr>vc_pending := rest\<rparr>)"
    using assms by (simp add: valkeyPopPending_def)
  define p1 where "p1 = (if pn_ts r \<noteq> zero_time then p\<lparr>p_LagNS := ?lag\<rparr> else p)"
  show ?thesis
  proof (cases "rv_Type v = respError \<or> rv_Type v = respBlobErr")
    case True
    have "matched_reply lib p c v ts = error_reply p1 ?c v (Some r)"
      using True by (simp add: matched_reply_def pop p1_def Let_def)
    moreover have "fst (error_reply p1 ?c v (Some r)) = reply_line lib ts r v"
      using True unfolding error_reply_def reply_line_def reply_text_def Let_def by (auto split: prod.split)
    moreover have "c_valkey (snd (snd (error_reply p1 ?c v (Some r)))) = (c_valkey c)\<lparr>vc_pending := rest\<rparr>"
      unfolding error_reply_def Let_def by (simp split: prod.split)
    ultimately show ?thesis using that by (metis prod.collapse)
  next
    case False
    have "matched_reply lib p c v ts = (case success_reply lib p1 v (Some r) ?lag of (s, p2) \<Rightarrow> (s, p2, ?c))"
      using False by (simp add: matched_reply_def pop p1_def Let_def)
    moreover have "fst (success_reply lib p1 v (Some r) ?lag) = reply_line lib ts r v"
      using False unfolding success_reply_def reply_line_def reply_text_def Let_def fst_conv option.case
      by (simp only: insert_iff empty_iff de_Morgan_disj simp_thms if_False if_True append_assoc)
    ultimately show ?thesis using that by (auto split: prod.splits)
  qed
qed

lemma pktValkeyReply_plain:
  assumes "plain_reply v" "vc_core (c_valkey c) = (r # rest, False, False)"
  obtains p' c' where "pktValkeyReply lib p c vd v ts = Some (reply_line lib ts r v, p', c', vd)"
    "vc_core (c_valkey c') = (rest, False, False)"
proof -
  have s: "(if rv_Type v = respSimple then valkeySyncReply p (c_valkey c) vd v else None) = None"
    using assms(1) by (auto simp: plain_reply_def valkeySyncReply_def Let_def)
  have "vc_pending (c_valkey c) = r # rest" using assms(2) by simp
  from matched_reply_line [OF this] obtain p' c'
    where "matched_reply lib p c v ts = (reply_line lib ts r v, p', c')"
      "c_valkey c' = (c_valkey c)\<lparr>vc_pending := rest\<rparr>" by metis
  moreover from this have "pktValkeyReply lib p c vd v ts = Some (reply_line lib ts r v, p', c', vd)"
    using assms by (simp add: pktValkeyReply_def Let_def s plain_reply_def)
  ultimately show ?thesis using that assms(2) by simp
qed

text \<open>The loop over a frame of replies answers the head of the queue, one by one.\<close>

lemma valkey_loop_replies:
  assumes "\<forall>v \<in> set rs. resp_wf 0 v \<and> plain_reply (resp_view v)" "at_value vd" "length qs = length rs"
    "vc_core (c_valkey c) = (qs @ later, False, False)"
  shows "\<exists>p' c'. valkey_loop lib False ts p c vd (concat (map resp_enc rs)) infos msgs =
      Some (p', c', if rs = [] then vd else vd\<lparr>vd_aligned := True\<rparr>, [],
        infos @ map (\<lambda>(q, v). reply_line lib ts q (resp_view v)) (zip qs rs), msgs + length rs)
    \<and> vc_core (c_valkey c') = (later, False, False)"
  using assms
proof (induction rs arbitrary: p c vd infos msgs qs)
  case Nil
  then show ?case by (simp add: valkey_loop_empty)
next
  case (Cons v rs)
  obtain q qs' where q: "qs = q # qs'" using Cons.prems(3) by (cases qs) auto
  have v: "resp_wf 0 v" "plain_reply (resp_view v)" using Cons.prems(1) by auto
  have "vc_core (c_valkey (saw_resp c)) = (q # qs' @ later, False, False)" using Cons.prems(4) q by simp
  from pktValkeyReply_plain [OF v(2) this] obtain p1 c1 where
    k: "pktValkeyReply lib p (saw_resp c) (vd\<lparr>vd_aligned := True\<rparr>) (resp_view v) ts =
        Some (reply_line lib ts q (resp_view v), p1, c1, vd\<lparr>vd_aligned := True\<rparr>)"
      "vc_core (c_valkey c1) = (qs' @ later, False, False)" by metis
  have nt: "\<not> in_transfer (vd\<lparr>vd_aligned := True\<rparr>)"
    using Cons.prems(2) by (simp add: at_value_def in_transfer_def)
  let ?infos = "infos @ [reply_line lib ts q (resp_view v)]"
  have "valkey_loop lib False ts p c vd (concat (map resp_enc (v # rs))) infos msgs =
      valkey_loop lib False ts p1 c1 (vd\<lparr>vd_aligned := True\<rparr>) (concat (map resp_enc rs)) ?infos (msgs + 1)"
    using valkey_loop_value [OF v(1) Cons.prems(2), of lib False ts p c "concat (map resp_enc rs)" infos msgs] k(1) nt
    by (simp add: valkey_value_def)
  moreover obtain p' c' where
    "valkey_loop lib False ts p1 c1 (vd\<lparr>vd_aligned := True\<rparr>) (concat (map resp_enc rs)) ?infos (msgs + 1) =
      Some (p', c', vd\<lparr>vd_aligned := True\<rparr>, [],
        ?infos @ map (\<lambda>(q, v). reply_line lib ts q (resp_view v)) (zip qs' rs), msgs + length (v # rs))"
    "vc_core (c_valkey c') = (later, False, False)"
    using Cons.IH [of "vd\<lparr>vd_aligned := True\<rparr>" qs' c1 p1 ?infos "msgs + 1"] Cons.prems(1,2,3) k(2) q
    by (auto split: if_splits)
  ultimately show ?case using q by simp
qed

lemma resp_enc_not_tls: "resp_wf d v \<Longrightarrow> \<not> pktLooksTLS (resp_enc v @ rest)"
  by (cases v) (auto simp: pktLooksTLS_def resp_types)

lemma not_in_transfer: "at_value vd \<Longrightarrow> \<not> in_transfer vd"
  by (simp add: at_value_def)

text \<open>The lines of a frame, as the summary joins them.\<close>

definition frame_info :: "string list \<Rightarrow> string" where
  "frame_info lines =
     (if length lines > 3 then go_Join (take 3 lines) '' | '' @ '' | +'' @ go_utoa (length lines - 3) @ '' more''
      else go_Join lines '' | '')"

lemma decode_commands_frame:
  assumes "\<not> c_tls c" "at_value (ds_valkey (c_c2s c))" "ds_buf (c_c2s c) = []" "cmds \<noteq> []" "\<forall>v \<in> set cmds. good_command v"
  shows "\<exists>p1 c1. pktValkeyDecode lib p c True (concat (map resp_enc cmds)) ts = Some (p1, c1)
    \<and> vc_core (c_valkey c1) = (vc_pending (c_valkey c) @ map (\<lambda>v. cmd_entry ts (resp_view v)) cmds,
        vc_fullResync (c_valkey c), vc_partialSync (c_valkey c))
    \<and> c_tls c1 = c_tls c \<and> c_s2c c1 = c_s2c c"
proof -
  let ?b = "concat (map resp_enc cmds)"
  obtain v vs where cs: "cmds = v # vs" using assms(4) by (cases cmds) auto
  then have tls: "\<not> pktLooksTLS ?b" using assms(5) resp_enc_not_tls [of 0 v] by (simp add: good_command_def)
  from valkey_loop_commands [OF assms(5,2), of lib ts p c "[]" 0] obtain p' c' infos' vd' where
    l: "valkey_loop lib True ts p c (ds_valkey (c_c2s c)) ?b [] 0 = Some (p', c', vd', [], infos', length cmds)"
    and core: "vc_core (c_valkey c') = (vc_pending (c_valkey c) @ map (\<lambda>v. cmd_entry ts (resp_view v)) cmds,
        vc_fullResync (c_valkey c), vc_partialSync (c_valkey c))"
    and tr: "transport c' = transport c"
    by (metis add_0)
  have "pktValkeyDecode lib p c True ?b ts = Some (valkey_summary p' c' vd' [] infos' (length cmds) ?b, put_dir True vd' [] c')"
    using assms(1,3,4) tls not_in_transfer [OF assms(2)] l
    by (simp add: pktValkeyDecode_def dir_of_def inline_command_def)
  then show ?thesis using core tr by (simp add: put_dir_def set_dir_def)
qed

lemma decode_replies_frame:
  assumes "\<not> c_tls c" "at_value (ds_valkey (c_s2c c))" "ds_buf (c_s2c c) = []" "rs \<noteq> []"
    "\<forall>v \<in> set rs. resp_wf 0 v \<and> plain_reply (resp_view v)" "length qs = length rs"
    "vc_core (c_valkey c) = (qs @ later, False, False)"
  shows "\<exists>p1 c1. pktValkeyDecode lib p c False (concat (map resp_enc rs)) ts = Some (p1, c1)
    \<and> p_Info p1 = frame_info (map (\<lambda>(q, v). reply_line lib ts q (resp_view v)) (zip qs rs))
    \<and> vc_core (c_valkey c1) = (later, False, False)"
proof -
  let ?b = "concat (map resp_enc rs)" and ?lines = "map (\<lambda>(q, v). reply_line lib ts q (resp_view v)) (zip qs rs)"
  obtain v vs where cs: "rs = v # vs" using assms(4) by (cases rs) auto
  then have tls: "\<not> pktLooksTLS ?b" using assms(5) resp_enc_not_tls [of 0 v] by simp
  from valkey_loop_replies [OF assms(5,2,6,7), of lib ts p "[]" 0] obtain p' c' vd' where
    l: "valkey_loop lib False ts p c (ds_valkey (c_s2c c)) ?b [] 0 = Some (p', c', vd', [], ?lines, length rs)"
    and core: "vc_core (c_valkey c') = (later, False, False)"
    by (metis add_0 append_Nil)
  have "pktValkeyDecode lib p c False ?b ts = Some (valkey_summary p' c' vd' [] ?lines (length rs) ?b, put_dir False vd' [] c')"
    using assms(1,3,4) tls not_in_transfer [OF assms(2)] l
    by (simp add: pktValkeyDecode_def dir_of_def inline_command_def)
  moreover have "zip qs rs \<noteq> []" using assms(6) cs by (cases qs) auto
  then have "p_Info (valkey_summary p' c' vd' [] ?lines (length rs) ?b) = frame_info ?lines"
    by (simp add: valkey_summary_def frame_info_def Let_def)
  ultimately show ?thesis using core by (simp add: put_dir_def set_dir_def)
qed

section \<open>A snapshot streamed without a length\<close>

lemma bytes_Index_Some:
  "bytes_Index b m = Some i \<longleftrightarrow> i \<le> length b \<and> prefix m (drop i b) \<and> (\<forall>j < i. \<not> prefix m (drop j b))"
proof
  assume "bytes_Index b m = Some i"
  then obtain n where "n < Suc (length b)" "prefix m (drop ([0..<Suc (length b)] ! n) b)" "i = [0..<Suc (length b)] ! n"
    "\<forall>j < n. \<not> prefix m (drop ([0..<Suc (length b)] ! j) b)"
    unfolding bytes_Index_def find_Some_iff by (auto simp del: upt_Suc)
  then show "i \<le> length b \<and> prefix m (drop i b) \<and> (\<forall>j < i. \<not> prefix m (drop j b))"
    by (auto simp del: upt_Suc)
next
  assume "i \<le> length b \<and> prefix m (drop i b) \<and> (\<forall>j < i. \<not> prefix m (drop j b))"
  then show "bytes_Index b m = Some i"
    unfolding bytes_Index_def find_Some_iff by (intro exI [of _ i]) (auto simp del: upt_Suc)
qed

lemma bytes_Index_None: "bytes_Index b m = None \<longleftrightarrow> (\<forall>i \<le> length b. \<not> prefix m (drop i b))"
  by (auto simp: bytes_Index_def find_None_iff less_Suc_eq_le simp del: upt_Suc)

lemma prefix_drop_append: "prefix m (drop i b) \<Longrightarrow> i \<le> length b \<Longrightarrow> prefix m (drop i (b @ r))"
  by (auto simp: prefix_def)

lemma prefix_drop_within: "prefix m (drop i (b @ r)) \<Longrightarrow> i + length m \<le> length b \<Longrightarrow> prefix m (drop i b)"
  using prefix_length_prefix [of m "drop i b @ drop (i - length b) r" "drop i b"] by simp

text \<open>A mark found in a prefix of the stream is the mark of the stream.\<close>

lemma bytes_Index_append:
  assumes "bytes_Index b m = Some i"
  shows "bytes_Index (b @ r) m = Some i"
proof -
  have i: "i \<le> length b" "prefix m (drop i b)" "\<forall>j < i. \<not> prefix m (drop j b)" using assms by (simp_all add: bytes_Index_Some)
  have "i + length m \<le> length b" using prefix_length_le [OF i(2)] i(1) by simp
  then have "\<not> prefix m (drop j (b @ r))" if "j < i" for j
    using prefix_drop_within [of m j b r] i(3) that by auto
  then show ?thesis using prefix_drop_append [OF i(2,1), of r] i(1) by (auto simp: bytes_Index_Some)
qed

text \<open>Bytes with no mark in them, but for the last ones that could begin one, do not matter.\<close>

lemma bytes_Index_tail:
  assumes "bytes_Index x m = None" "n \<le> length x" "n + length m \<le> Suc (length x)"
  shows "bytes_Index (drop n (x @ s)) m = map_option (\<lambda>i. i - n) (bytes_Index (x @ s) m)"
    and "bytes_Index (x @ s) m = Some i \<Longrightarrow> n \<le> i"
proof -
  have early: "\<not> prefix m (drop j (x @ s))" if "j < n" for j
    using prefix_drop_within [of m j x s] assms that by (auto simp: bytes_Index_None)
  then show le: "n \<le> i" if "bytes_Index (x @ s) m = Some i" for i
    using that by (auto simp: bytes_Index_Some not_less [symmetric])
  show "bytes_Index (drop n (x @ s)) m = map_option (\<lambda>i. i - n) (bytes_Index (x @ s) m)"
  proof (cases "bytes_Index (x @ s) m")
    case None
    have "\<not> prefix m (drop j (drop n (x @ s)))" if "j \<le> length (drop n (x @ s))" for j
      using None [unfolded bytes_Index_None, rule_format, of "j + n"] that assms(2) unfolding drop_drop by simp
    then show ?thesis by (simp only: None option.map bytes_Index_None) blast
  next
    case (Some i)
    then have "\<not> prefix m (drop j (drop n (x @ s)))" if "j < i - n" for j
      using Some [unfolded bytes_Index_Some] that unfolding drop_drop by (simp only: less_diff_conv) blast
    moreover have "i - n \<le> length (drop n (x @ s))" "prefix m (drop (i - n) (drop n (x @ s)))"
      using Some [unfolded bytes_Index_Some] le [OF Some] assms(2) unfolding drop_drop by (auto intro: diff_le_mono)
    ultimately show ?thesis by (simp only: Some option.map bytes_Index_Some) blast
  qed
qed

text \<open>The segments of a stream after the header, each consumed as the decoder does while the transfer lasts.\<close>

fun rdb_feed :: "pktValkeyDir \<Rightarrow> bytes \<Rightarrow> bytes list \<Rightarrow> string list \<times> pktValkeyDir \<times> bytes" where
  "rdb_feed vd buf [] = ([], vd, buf)"
| "rdb_feed vd buf (s # segs) =
     (if \<not> in_transfer vd then ([], vd, buf @ concat (s # segs))
      else case valkeyRDBConsume vd (buf @ s) of
        (info, vd1, buf1) \<Rightarrow> (case rdb_feed vd1 buf1 segs of (infos, r) \<Rightarrow> (info # infos, r)))"

definition rdb_done_text :: "nat \<Rightarrow> string" where
  "rdb_done_text n = ''RDB transfer complete (diskless), '' @ pktBytes n @ '' '' @ em_dash @ '' the delimiter arrived and the incremental command stream starts now''"

lemma rdb_feed_done: "\<not> in_transfer vd \<Longrightarrow> rdb_feed vd buf segs = ([], vd, buf @ concat segs)"
  by (cases segs) simp_all

lemma consume_found:
  assumes "vd_rdbRemaining vd = 0" "bytes_of (vd_eofMark vd) = m" "m \<noteq> []" "bytes_Index b m = Some i"
  shows "valkeyRDBConsume vd b =
    (rdb_done_text (vd_rdbBytes vd + i), vd\<lparr>vd_rdbDiskless := False, vd_eofMark := [], vd_rdbBytes := 0\<rparr>, drop (i + length m) b)"
  using assms by (simp add: valkeyRDBConsume_def rdb_done_text_def)

lemma consume_waits:
  assumes "vd_rdbRemaining vd = 0" "bytes_of (vd_eofMark vd) = m" "m \<noteq> []" "bytes_Index b m = None" "length m - 1 \<le> length b"
  obtains info where "valkeyRDBConsume vd b =
    (info, vd\<lparr>vd_rdbBytes := vd_rdbBytes vd + (length b - (length m - 1))\<rparr>, drop (length b - (length m - 1)) b)"
  using assms that by (simp add: valkeyRDBConsume_def Let_def)

lemma rdb_feed_mid:
  assumes "bytes_Index x m = None" "bytes_Index (x @ concat segs) m = Some i" "length m - 1 \<le> length x" "m \<noteq> []"
    "vd_rdbRemaining vd = 0" "vd_rdbDiskless vd" "bytes_of (vd_eofMark vd) = m" "vd_rdbBytes vd = length x - (length m - 1)"
  shows "\<exists>infos. rdb_feed vd (drop (length x - (length m - 1)) x) segs =
    (infos @ [rdb_done_text i], vd\<lparr>vd_rdbDiskless := False, vd_eofMark := [], vd_rdbBytes := 0\<rparr>, drop (i + length m) (x @ concat segs))"
  using assms
proof (induction segs arbitrary: x vd)
  case (Cons s segs)
  let ?n = "length x - (length m - 1)"
  let ?y = "drop ?n (x @ s)"
  have buf: "drop ?n x @ s = ?y" by simp
  have t: "bytes_Index ?y m = map_option (\<lambda>i. i - ?n) (bytes_Index (x @ s) m)" "\<And>i. bytes_Index (x @ s) m = Some i \<Longrightarrow> ?n \<le> i"
    using bytes_Index_tail [OF Cons.prems(1), of ?n s] Cons.prems(3,4) by simp_all
  have live: "in_transfer vd" using Cons.prems(6) by (simp add: in_transfer_def)
  show ?case
  proof (cases "bytes_Index (x @ s) m")
    case (Some j)
    have "j = i" using bytes_Index_append [OF Some, of "concat segs"] Cons.prems(2) by simp
    with Some have i: "bytes_Index (x @ s) m = Some i" "?n \<le> i" "i + length m \<le> length (x @ s)"
      using t(2) [of i] prefix_length_le [of m "drop i (x @ s)"] by (auto simp: bytes_Index_Some)
    have "valkeyRDBConsume vd ?y = (rdb_done_text i, vd\<lparr>vd_rdbDiskless := False, vd_eofMark := [], vd_rdbBytes := 0\<rparr>, drop (i + length m) (x @ s))"
      using consume_found [OF Cons.prems(5,7,4), of ?y "i - ?n"] t(1) i Cons.prems(8) unfolding drop_drop by simp
    moreover have "\<not> in_transfer (vd\<lparr>vd_rdbDiskless := False, vd_eofMark := [], vd_rdbBytes := 0\<rparr>)"
      using Cons.prems(5) by (simp add: in_transfer_def)
    moreover have "drop (i + length m) (x @ s) @ concat segs = drop (i + length m) (x @ concat (s # segs))"
      using i(3) by simp
    ultimately show ?thesis
      unfolding rdb_feed.simps buf using live by (simp add: rdb_feed_done del: append_assoc drop_append)
  next
    case None
    have none: "bytes_Index ?y m = None" and long: "length m - 1 \<le> length ?y"
      using t(1) None Cons.prems(3) by simp_all
    obtain info where c: "valkeyRDBConsume vd ?y =
        (info, vd\<lparr>vd_rdbBytes := vd_rdbBytes vd + (length ?y - (length m - 1))\<rparr>, drop (length ?y - (length m - 1)) ?y)"
      using consume_waits [OF Cons.prems(5,7,4) none long] by metis
    let ?vd = "vd\<lparr>vd_rdbBytes := length (x @ s) - (length m - 1)\<rparr>"
    have c': "valkeyRDBConsume vd ?y = (info, ?vd, drop (length (x @ s) - (length m - 1)) (x @ s))"
      unfolding c drop_drop using Cons.prems(3,8) by (simp add: add.commute)
    obtain infos where "rdb_feed ?vd (drop (length (x @ s) - (length m - 1)) (x @ s)) segs =
        (infos @ [rdb_done_text i], ?vd\<lparr>vd_rdbDiskless := False, vd_eofMark := [], vd_rdbBytes := 0\<rparr>, drop (i + length m) ((x @ s) @ concat segs))"
      using Cons.IH [of "x @ s" ?vd] None Cons.prems by auto
    then show ?thesis
      unfolding rdb_feed.simps buf using live c' by (simp del: drop_append)
  qed
qed simp

section \<open>The properties\<close>

lemma valkey_loop_panics:
  assumes "\<forall>v \<in> set cmds. resp_wf 0 v \<and> respIsCommand (resp_view v)" "at_value vd" "\<exists>v \<in> set cmds. \<not> good_command v"
  shows "valkey_loop lib True ts p c vd (concat (map resp_enc cmds)) infos msgs = None"
  using assms
proof (induction cmds arbitrary: p c vd infos msgs)
  case (Cons v vs)
  have v: "resp_wf 0 v" using Cons.prems(1) by simp
  note step = valkey_loop_value [OF v Cons.prems(2), of lib True ts p c "concat (map resp_enc vs)" infos msgs]
  show ?case
  proof (cases "pktValkeyCommand lib p (saw_resp c) (resp_view v) ts")
    case None
    then show ?thesis using step by (simp add: valkey_value_def)
  next
    case (Some r)
    then have "good_command v"
      using Cons.prems(1) pktValkeyCommand_None [of lib p "saw_resp c" "resp_view v" ts] by (auto simp: good_command_def)
    then have ex: "\<exists>v \<in> set vs. \<not> good_command v" using Cons.prems(3) by auto
    have nt: "\<not> in_transfer (vd\<lparr>vd_aligned := True\<rparr>)" "at_value (vd\<lparr>vd_aligned := True\<rparr>)"
      using Cons.prems(2) by (simp_all add: at_value_def in_transfer_def)
    show ?thesis
      using step Some nt Cons.IH [OF _ nt(2) ex] Cons.prems(1) by (cases r) (simp add: valkey_value_def Let_def)
  qed
qed simp

text \<open>
  C24. The decoder panics exactly on a script command (\<^verbatim>\<open>EVAL\<close>, \<^verbatim>\<open>EVALSHA\<close>, \<^verbatim>\<open>FCALL\<close>) with a single argument: a frame of
  commands on an unencrypted connection is decoded unless one of them is such a command, and then the slice
  \<^verbatim>\<open>args[1:2]\<close> is out of range. A client can send such a frame; the server answers it with an error, the
  decoder does not survive it.
\<close>

theorem valkey_script_panic:
  assumes "\<not> c_tls c" "at_value (ds_valkey (c_c2s c))" "ds_buf (c_c2s c) = []" "cmds \<noteq> []"
    "\<forall>v \<in> set cmds. resp_wf 0 v \<and> respIsCommand (resp_view v)"
  shows "pktValkeyDecode lib p c True (concat (map resp_enc cmds)) ts = None \<longleftrightarrow>
    (\<exists>v \<in> set cmds. cmd_name (resp_view v) \<in> set [''EVAL'', ''EVALSHA'', ''FCALL''] \<and> length (rv_Items (resp_view v)) = 2)"
proof -
  have bad: "\<not> good_command v \<longleftrightarrow>
      cmd_name (resp_view v) \<in> set [''EVAL'', ''EVALSHA'', ''FCALL''] \<and> length (rv_Items (resp_view v)) = 2" if "v \<in> set cmds" for v
    using assms(5) that by (auto simp: good_command_def valkeyCommandDetail_None cmd_args_def)
  show ?thesis
  proof (cases "\<exists>v \<in> set cmds. \<not> good_command v")
    case True
    obtain v vs where cs: "cmds = v # vs" using assms(4) by (cases cmds) auto
    then have tls: "\<not> pktLooksTLS (concat (map resp_enc cmds))" using assms(5) resp_enc_not_tls [of 0 v] by simp
    have "pktValkeyDecode lib p c True (concat (map resp_enc cmds)) ts = None"
      using valkey_loop_panics [OF assms(5,2) True, of lib ts p c "[]" 0] assms(1,3) tls not_in_transfer [OF assms(2)]
      by (simp add: pktValkeyDecode_def dir_of_def)
    with True bad show ?thesis by blast
  next
    case False
    then have "\<forall>v \<in> set cmds. good_command v" by blast
    from decode_commands_frame [OF assms(1-4) this, of lib p ts] False bad show ?thesis by auto
  qed
qed

definition demo_lib :: vk_lib where
  "demo_lib = \<lparr>vl_Quote = (\<lambda>s. [CHR 0x22] @ s @ [CHR 0x22]), vl_ToLower = (\<lambda>s. s), vl_ms1 = (\<lambda>d. go_Itoa (d div 1000000))\<rparr>"

definition command_of :: "string list \<Rightarrow> resp" where
  "command_of ws = RAgg respArray (map (\<lambda>w. RBulk respBulk (bytes_of w)) ws)"

lemma command_of_wf: "length ws \<le> 1048576 \<Longrightarrow> (\<forall>w \<in> set ws. length w \<le> 536870912) \<Longrightarrow> resp_wf 0 (command_of ws)"
  by (auto simp: command_of_def respMaxDepth_def respMaxBulk_def)

theorem valkey_script_panic_witness:
  "pktValkeyDecode demo_lib new_packet new_conn True (concat (map resp_enc [command_of [''GET'', ''k''], command_of [''EVAL'', ''return 1'']])) 0 = None"
proof -
  have "respIsCommand (resp_view (command_of [''GET'', ''k'']))" "respIsCommand (resp_view (command_of [''EVAL'', ''return 1'']))"
    by code_simp+
  then have wf: "\<forall>v \<in> set [command_of [''GET'', ''k''], command_of [''EVAL'', ''return 1'']]. resp_wf 0 v \<and> respIsCommand (resp_view v)"
    by (simp add: command_of_wf)
  have "\<exists>v \<in> set [command_of [''GET'', ''k''], command_of [''EVAL'', ''return 1'']].
      cmd_name (resp_view v) \<in> set [''EVAL'', ''EVALSHA'', ''FCALL''] \<and> length (rv_Items (resp_view v)) = 2"
    by code_simp
  then show ?thesis
    using valkey_script_panic [OF _ _ _ _ wf, of new_conn demo_lib new_packet 0]
    by (simp add: new_conn_def new_dir_def new_valkeydir_def at_value_def in_transfer_def)
qed

text \<open>
  C5. Replies are paired with commands by order alone. When a connection that is no replication link has no
  command outstanding, a frame of commands followed by a frame of as many ordinary replies shows every reply
  under the name of the command in the same place, with the time between the two frames, and leaves no
  command outstanding.
\<close>

theorem valkey_replies_in_order:
  assumes "\<not> c_tls c" "at_value (ds_valkey (c_c2s c))" "ds_buf (c_c2s c) = []" "at_value (ds_valkey (c_s2c c))" "ds_buf (c_s2c c) = []"
    "vc_pending (c_valkey c) = []" "\<not> vc_fullResync (c_valkey c)" "\<not> vc_partialSync (c_valkey c)"
    "cmds \<noteq> []" "\<forall>v \<in> set cmds. good_command v"
    "length replies = length cmds" "\<forall>v \<in> set replies. resp_wf 0 v \<and> plain_reply (resp_view v)"
  shows "\<exists>p1 c1 p2 c2. pktValkeyDecode lib p c True (concat (map resp_enc cmds)) ts = Some (p1, c1)
    \<and> map pn_name (vc_pending (c_valkey c1)) = map (\<lambda>v. cmd_name (resp_view v)) cmds
    \<and> pktValkeyDecode lib p' c1 False (concat (map resp_enc replies)) ts' = Some (p2, c2)
    \<and> p_Info p2 = frame_info (map (\<lambda>(q, r). reply_line lib ts' (cmd_entry ts (resp_view q)) (resp_view r)) (zip cmds replies))
    \<and> vc_pending (c_valkey c2) = []"
proof -
  let ?qs = "map (\<lambda>v. cmd_entry ts (resp_view v)) cmds"
  from decode_commands_frame [OF assms(1-3,9,10), of lib p ts] assms(6-8)
  obtain p1 c1 where c1: "pktValkeyDecode lib p c True (concat (map resp_enc cmds)) ts = Some (p1, c1)"
    "vc_core (c_valkey c1) = (?qs @ [], False, False)" "c_tls c1 = c_tls c" "c_s2c c1 = c_s2c c"
    by auto
  have "replies \<noteq> []" using assms(9,11) by auto
  with c1 assms(1,4,5,11,12) decode_replies_frame [of c1 replies ?qs "[]" lib p' ts']
  obtain p2 c2 where "pktValkeyDecode lib p' c1 False (concat (map resp_enc replies)) ts' = Some (p2, c2)"
    "p_Info p2 = frame_info (map (\<lambda>(q, v). reply_line lib ts' q (resp_view v)) (zip ?qs replies))"
    "vc_pending (c_valkey c2) = []" by auto
  moreover have "map (\<lambda>(q, v). reply_line lib ts' q (resp_view v)) (zip ?qs replies)
      = map (\<lambda>(q, r). reply_line lib ts' (cmd_entry ts (resp_view q)) (resp_view r)) (zip cmds replies)"
    by (simp add: zip_map1 comp_def split_beta)
  moreover have "map pn_name (vc_pending (c_valkey c1)) = map (\<lambda>v. cmd_name (resp_view v)) cmds"
    using c1(2) by (simp add: cmd_entry_def)
  ultimately show ?thesis using c1(1) by (metis (no_types, lifting))
qed

theorem valkey_replies_in_order_witness:
  "\<exists>p1 c1 p2 c2. pktValkeyDecode demo_lib new_packet new_conn True
        (concat (map resp_enc [command_of [''SET'', ''k'', ''v''], command_of [''GET'', ''k'']])) 0 = Some (p1, c1)
    \<and> pktValkeyDecode demo_lib new_packet c1 False (concat (map resp_enc [RLine respSimple ''OK'', RBulk respBulk (bytes_of ''v'')])) 1000000 = Some (p2, c2)
    \<and> p_Info p2 = ''SET '' @ right_arrow @ '' OK (1 ms) | GET '' @ right_arrow @ '' '' @ [CHR 0x22] @ ''v'' @ [CHR 0x22] @ '' (1 ms)''"
proof -
  let ?cmds = "[command_of [''SET'', ''k'', ''v''], command_of [''GET'', ''k'']]"
  let ?rs = "[RLine respSimple ''OK'', RBulk respBulk (bytes_of ''v'')]"
  have "respIsCommand (resp_view (command_of [''SET'', ''k'', ''v'']))" "respIsCommand (resp_view (command_of [''GET'', ''k'']))"
    "cmd_name (resp_view (command_of [''SET'', ''k'', ''v''])) = ''SET''" "cmd_name (resp_view (command_of [''GET'', ''k''])) = ''GET''"
    by code_simp+
  then have wf: "\<forall>v \<in> set ?cmds. good_command v"
    by (simp add: good_command_def command_of_wf valkeyCommandDetail_None)
  have "plain_reply (resp_view (RLine respSimple ''OK''))" "plain_reply (resp_view (RBulk respBulk (bytes_of ''v'')))"
    by code_simp+
  then have rs: "\<forall>v \<in> set ?rs. resp_wf 0 v \<and> plain_reply (resp_view v)"
    by (simp add: respMaxDepth_def respMaxBulk_def)
  have info: "frame_info (map (\<lambda>(q, r). reply_line demo_lib 1000000 (cmd_entry 0 (resp_view q)) (resp_view r)) (zip ?cmds ?rs)) =
      ''SET '' @ right_arrow @ '' OK (1 ms) | GET '' @ right_arrow @ '' '' @ [CHR 0x22] @ ''v'' @ [CHR 0x22] @ '' (1 ms)''"
    by code_simp
  show ?thesis
    using valkey_replies_in_order [OF _ _ _ _ _ _ _ _ _ wf _ rs, of new_conn demo_lib new_packet 0 new_packet 1000000]
    unfolding info
    by (simp add: new_conn_def new_dir_def new_valkeydir_def new_valkeyconn_def at_value_def in_transfer_def) blast
qed

text \<open>
  C25. A snapshot without a length ends at the first occurrence of its mark in the stream, and the bytes before it
  are counted, however TCP cut the stream; the first segment must hold as many bytes as the decoder keeps back.
\<close>

theorem rdb_transfer_ends:
  assumes "vd_rdbRemaining vd = 0" "vd_rdbDiskless vd" "vd_rdbBytes vd = 0" "bytes_of (vd_eofMark vd) = m" "m \<noteq> []"
    "length m - 1 \<le> length s" "bytes_Index (s @ concat segs) m = Some i"
  shows "\<exists>infos. rdb_feed vd [] (s # segs) =
    (infos @ [rdb_done_text i], vd\<lparr>vd_rdbDiskless := False, vd_eofMark := [], vd_rdbBytes := 0\<rparr>, drop (i + length m) (s @ concat segs))"
proof (cases "bytes_Index s m")
  case (Some j)
  have "j = i" using bytes_Index_append [OF Some, of "concat segs"] assms(7) by simp
  moreover have "i + length m \<le> length s"
    using Some \<open>j = i\<close> prefix_length_le [of m "drop i s"] by (auto simp: bytes_Index_Some)
  moreover have "\<not> in_transfer (vd\<lparr>vd_rdbDiskless := False, vd_eofMark := [], vd_rdbBytes := 0\<rparr>)" "in_transfer vd"
    using assms(1,2) by (simp_all add: in_transfer_def)
  ultimately show ?thesis
    using consume_found [OF assms(1,4,5) Some] assms(3) by (simp add: rdb_feed_done)
next
  case None
  obtain info where c: "valkeyRDBConsume vd s = (info, vd\<lparr>vd_rdbBytes := length s - (length m - 1)\<rparr>, drop (length s - (length m - 1)) s)"
    using consume_waits [OF assms(1,4,5) None assms(6)] assms(3) by (metis add_0)
  have "in_transfer vd" using assms(2) by (simp add: in_transfer_def)
  with c rdb_feed_mid [OF None assms(7,6,5), of "vd\<lparr>vd_rdbBytes := length s - (length m - 1)\<rparr>"] assms(1,2,4)
  show ?thesis by auto
qed

theorem rdb_transfer_ends_witness:
  "\<exists>infos. rdb_feed (new_valkeydir\<lparr>vd_rdbDiskless := True, vd_eofMark := ''0123''\<rparr>) []
      [bytes_of ''REDIS01'', bytes_of ''2'', bytes_of ''3*1''] =
    (infos @ [rdb_done_text 5], new_valkeydir, bytes_of ''*1'')"
proof -
  have i: "bytes_Index (bytes_of ''REDIS01'' @ concat [bytes_of ''2'', bytes_of ''3*1'']) (bytes_of ''0123'') = Some 5" by code_simp
  have d: "drop (5 + length (bytes_of ''0123'')) (bytes_of ''REDIS01'' @ concat [bytes_of ''2'', bytes_of ''3*1'']) = bytes_of ''*1''" by code_simp
  show ?thesis
    using rdb_transfer_ends [OF _ _ _ _ _ _ i, of "new_valkeydir\<lparr>vd_rdbDiskless := True, vd_eofMark := ''0123''\<rparr>"]
    unfolding d by (simp add: new_valkeydir_def)
qed

section \<open>Where the code and its comments part\<close>

text \<open>
  The tail is kept back for a delimiter that spans two frames, but only when the buffer is at least as long as
  that tail: of a shorter one everything is dropped, and a delimiter that began in it is never found.
\<close>

lemma rdb_short_segment_dropped:
  assumes "vd_rdbRemaining vd = 0" "bytes_of (vd_eofMark vd) = m" "length b < length m - 1"
  shows "snd (valkeyRDBConsume vd b) = (vd\<lparr>vd_rdbBytes := vd_rdbBytes vd + length b\<rparr>, [])"
proof -
  have "bytes_Index b m = None"
  proof (cases "bytes_Index b m")
    case (Some i)
    then have "prefix m (drop i b)" by (simp add: bytes_Index_Some)
    then show ?thesis using prefix_length_le [of m "drop i b"] assms(3) by simp
  qed simp
  then show ?thesis using assms by (simp add: valkeyRDBConsume_def Let_def)
qed

lemma rdb_mark_lost:
  "vd_rdbDiskless (fst (snd (rdb_feed (new_valkeydir\<lparr>vd_rdbDiskless := True, vd_eofMark := ''0123456789''\<rparr>) []
      [bytes_of ''RDB01234'', bytes_of ''56789*1''])))"
  by code_simp

text \<open>
  A confirmation of \<^verbatim>\<open>SUBSCRIBE\<close> is taken for an unprompted message and does not take the command off the queue, so
  the reply to the next command is shown under the name of the subscription.
\<close>

lemma confirmation_keeps_queue:
  assumes "rv_Type v = respArray" "valkeyLooksPubSub v"
  obtains s p' c' where "pktValkeyReply lib p c vd v ts = Some (s, p', c', vd)" "vc_core (c_valkey c') = vc_core (c_valkey c)"
proof -
  let ?P = "\<lambda>r :: string \<times> pktPacket \<times> pktValkeyConn. vc_core (snd (snd r)) = vc_core (c_valkey c)"
  have core: "?P (valkeyPushInfo lib p (c_valkey c) v)"
    unfolding valkeyPushInfo_def Let_def by (intro if_pred [of _ ?P]) simp_all
  obtain s p' vc' where r: "valkeyPushInfo lib p (c_valkey c) v = (s, p', vc')" by (metis prod_cases3)
  have "pktValkeyReply lib p c vd v ts = Some (s, p', c\<lparr>c_valkey := vc'\<rparr>, vd)"
    using assms by (simp add: pktValkeyReply_def r)
  then show ?thesis using that core r by simp
qed

lemma subscription_mislabels_next_reply:
  assumes "vc_core (c_valkey c) = ([], False, False)"
    "respIsCommand sub" "pktValkeyCommand lib p1 c sub t1 = Some (s1, q1, c1)"
    "rv_Type conf = respArray" "valkeyLooksPubSub conf" "pktValkeyReply lib p2 c1 vd conf t2 = Some (s2, q2, c2, vd2)"
    "respIsCommand cmd" "pktValkeyCommand lib p3 c2 cmd t3 = Some (s3, q3, c3)"
    "plain_reply r" "pktValkeyReply lib p4 c3 vd2 r t4 = Some (s4, q4, c4, vd4)"
  shows "s4 = reply_line lib t4 (cmd_entry t1 sub) r" and "vc_pending (c_valkey c4) = [cmd_entry t3 cmd]"
proof -
  have 1: "vc_core (c_valkey c1) = ([cmd_entry t1 sub], False, False)"
    using pktValkeyCommand_core [OF assms(3,2)] assms(1) by simp
  have 2: "vc_core (c_valkey c2) = vc_core (c_valkey c1)"
    using assms(6) by (rule_tac confirmation_keeps_queue [OF assms(4,5), of lib p2 c1 vd t2]) simp
  have 3: "vc_core (c_valkey c3) = ([cmd_entry t1 sub, cmd_entry t3 cmd], False, False)"
    using pktValkeyCommand_core [OF assms(8,7)] 1 2 by simp
  obtain p' c' where "pktValkeyReply lib p4 c3 vd2 r t4 = Some (reply_line lib t4 (cmd_entry t1 sub) r, p', c', vd2)"
    "vc_core (c_valkey c') = ([cmd_entry t3 cmd], False, False)"
    using pktValkeyReply_plain [OF assms(9) 3] by metis
  then show "s4 = reply_line lib t4 (cmd_entry t1 sub) r" "vc_pending (c_valkey c4) = [cmd_entry t3 cmd]"
    using assms(10) by simp_all
qed

text \<open>
  A replica's \<^verbatim>\<open>REPLCONF ACK\<close> is never answered, and what the primary sends on a synchronised link takes nothing
  off the queue: the acknowledgements pile up there, and the 32nd is reported as a pipelining client.
\<close>

lemma propagated_keeps_queue:
  assumes "vc_kind (c_valkey c) = valkeyKindRepl" "vc_fullResync (c_valkey c) \<or> vc_partialSync (c_valkey c)" "respIsCommand v"
    "\<not> valkeyLooksPubSub v" "pktValkeyReply lib p c vd v ts = Some (s, p', c', vd')"
  shows "vc_core (c_valkey c') = vc_core (c_valkey c)"
proof -
  have "rv_Type v = respArray" using assms(3) by (auto simp: respIsCommand_def split: if_splits)
  then show ?thesis using assms by (auto simp: pktValkeyReply_def Let_def resp_types)
qed

lemma ack_reported_as_pipelining:
  assumes "length (vc_pending vc) = 32" "\<not> vc_pipelineNote vc"
  shows "length (p_Issues (fst (note_pipeline p vc))) = length (p_Issues p) + 1"
  using assms unfolding note_pipeline_def Let_def by (auto simp: add_issue_def)

text \<open>A single word that is no code is returned as one, although the code's comment says it must not be.\<close>

lemma one_word_error_is_a_code: "valkeySplitError ''timeout'' = (''timeout'', [])"
  by code_simp

end
