(* ===== verification/Bson_Text.thy ===== *)
theory Bson_Text
  imports Bson
begin

text \<open>
  How the packet inspector shows a BSON value on one line (the rest of \<^verbatim>\<open>src/app/pktbson.go\<close>). The parts of
  Go's library that the MongoDB decoder needs and that are not modelled stand in the record \<open>mg_lib\<close>:
  \<^verbatim>\<open>strconv.Quote\<close>, the conversion of a \<^verbatim>\<open>float64\<close> to an \<^verbatim>\<open>int64\<close> and its rendering, \<^verbatim>\<open>zlib\<close>, and the rendering
  of a duration in milliseconds without and with a decimal.
\<close>

record mg_lib =
  ml_Quote :: "string \<Rightarrow> string"
  ml_trunc :: "64 word \<Rightarrow> int"
  ml_float6 :: "64 word \<Rightarrow> string"
  ml_inflate :: "bytes \<Rightarrow> nat \<Rightarrow> bytes option"
  ml_ms0 :: "int \<Rightarrow> string"
  ml_ms1 :: "int \<Rightarrow> string"

text \<open>\<^verbatim>\<open>time.UnixMilli(ms).UTC().Format("2006-01-02T15:04:05.000Z")\<close>, for an instant after 1970.\<close>

definition pad :: "nat \<Rightarrow> int \<Rightarrow> string" where
  "pad w i = (let s = go_Itoa i in replicate (w - length s) CHR ''0'' @ s)"

definition civil_date :: "int \<Rightarrow> int \<times> int \<times> int" where
  "civil_date days =
     (let z = days + 719468; era = z div 146097; doe = z mod 146097;
          yoe = (doe - doe div 1460 + doe div 36524 - doe div 146096) div 365;
          doy = doe - (365 * yoe + yoe div 4 - yoe div 100);
          mp = (5 * doy + 2) div 153;
          month = (if mp < 10 then mp + 3 else mp - 9)
      in (yoe + era * 400 + (if month \<le> 2 then 1 else 0), month, doy - (153 * mp + 2) div 5 + 1))"

definition date_text :: "int \<Rightarrow> string" where
  "date_text ms =
     (case civil_date (ms div 86400000) of
        (y, mo, d) \<Rightarrow>
          let t = ms mod 86400000 in
          pad 4 y @ ''-'' @ pad 2 mo @ ''-'' @ pad 2 d @ ''T'' @ pad 2 (t div 3600000) @ '':'' @ pad 2 (t div 60000 mod 60)
            @ '':'' @ pad 2 (t div 1000 mod 60) @ ''.'' @ pad 3 (t mod 1000) @ ''Z'')"

definition hex_bytes :: "bytes \<Rightarrow> string" where
  "hex_bytes b = concat (map go_02x b)"

definition bson_date :: "bytes \<Rightarrow> string" where
  "bson_date raw =
     (let u = le_u64 raw; ms = sint u in
      if ms < 0 \<or> ms > 4000000000000 then
        let secs = uint u div 2 ^ 32 in
        if secs > 1000000000 \<and> secs < 4000000000
        then ''Timestamp('' @ go_Itoa secs @ '', '' @ go_Itoa (uint u mod 2 ^ 32) @ '') [in a Date-typed field]''
        else ''Date(raw '' @ go_Itoa ms @ '')''
      else date_text ms)"

function bsonValue :: "mg_lib \<Rightarrow> bsonElem \<Rightarrow> nat \<Rightarrow> string" where
  "bsonValue lib e depth =
     (let t = be_Type e; raw = be_Raw e in
      if t = bsonString then ml_Quote lib (pktEllipsis (bsonStr e) 60)
      else if t = bsonInt32 \<or> t = bsonInt64 then
        (case bsonInt (ml_trunc lib) e of Some v \<Rightarrow> go_Itoa v | None \<Rightarrow> ''?'')
      else if t = bsonDouble then (if length raw \<ge> 8 then ml_float6 lib (le_u64 raw) else ''?'')
      else if t = bsonBool then (if raw \<noteq> [] \<and> raw ! 0 \<noteq> 0 then ''true'' else ''false'')
      else if t = bsonNull then ''null''
      else if t = bsonUndef then ''undefined''
      else if t = bsonMinKey then ''MinKey''
      else if t = bsonMaxKey then ''MaxKey''
      else if t = bsonObjectID then (if length raw \<ge> 12 then ''ObjectId('' @ hex_bytes (take 12 raw) @ '')'' else ''?'')
      else if t = bsonDate then (if length raw \<ge> 8 then bson_date raw else ''?'')
      else if t = bsonTimestmp then
        (if length raw \<ge> 8 then ''Timestamp('' @ go_utoa (le_u32 (drop 4 raw)) @ '', '' @ go_utoa (le_u32 raw) @ '')'' else ''?'')
      else if t = bsonBinary then
        (if length raw \<ge> 5 then ''BinData('' @ go_utoa (unat (raw ! 4)) @ '', '' @ go_Itoa (le_i32 raw) @ '' bytes)'' else ''?'')
      else if t = bsonRegex then
        (case bsonCString raw of
           Some (pat, rest) \<Rightarrow>
             ''/'' @ pktEllipsis (pktPrintable pat) 40 @ ''/''
               @ pktPrintable (case bsonCString rest of Some (opts, _) \<Rightarrow> opts | None \<Rightarrow> [])
         | None \<Rightarrow> ''?'')
      else if t = bsonCode \<or> t = bsonCodeWS then ''Code('' @ ellipsis @ '')''
      else if t = bsonDecimal then (if length raw \<ge> 16 then ''Decimal128(0x'' @ hex_bytes (take 16 raw) @ '')'' else ''?'')
      else if t = bsonDoc \<or> t = bsonArray then
        (let sub = bsonSub e in
         if depth = 0 then
           (if t = bsonArray then ''['' @ ellipsis @ go_utoa (length sub) @ '' items]''
            else ''{'' @ ellipsis @ go_utoa (length sub) @ '' fields}'')
         else
           let parts = map (\<lambda>s. (if t = bsonArray then [] else be_Key s @ '': '') @ bsonValue lib s (depth - 1)) (take 4 sub)
                 @ (if length sub > 4 then [ellipsis @ ''+'' @ go_utoa (length sub - 4)] else [])
           in if t = bsonArray then ''['' @ go_Join parts '', '' @ '']'' else ''{'' @ go_Join parts '', '' @ ''}'')
      else ''?'')"
  by pat_completeness auto
termination
  by (relation "measure (\<lambda>(lib, e, depth). depth)") auto

declare bsonValue.simps [simp del]

definition bson_skip :: "string list" where
  "bson_skip = [''$db'', ''$clusterTime'', ''$readPreference'', ''lsid'', ''$configTime'', ''$topologyTime'', ''$audit'', ''$client'',
     ''$configServerState'', ''operationTime'', ''signature'', ''clusterTime'', ''mayBypassWriteBlocking'']"

text \<open>Go adds a part and then tests the bound, so at least one part is shown.\<close>

definition bsonSummary :: "mg_lib \<Rightarrow> bsonElem list \<Rightarrow> nat \<Rightarrow> string" where
  "bsonSummary lib elems mx =
     go_Join (map (\<lambda>e. be_Key e @ '': '' @ bsonValue lib e 1)
       (take (max 1 mx) (filter (\<lambda>e. be_Key e \<notin> set bson_skip) elems))) '', ''"

lemma date_text_examples:
  "date_text 0 = ''1970-01-01T00:00:00.000Z''" "date_text 951827696789 = ''2000-02-29T12:34:56.789Z''"
  by code_simp+

end
