(* ===== verification/Mongo_Wire.thy ===== *)
theory Mongo_Wire
  imports Bson Frame_Reader Pkt_State
begin

text \<open>
  The framing of the MongoDB wire protocol (\<^verbatim>\<open>src/app/pktmongo.go\<close>): message headers, how the decoder takes a
  message off a direction's buffer, and how it finds a header on a connection it joined in the middle or
  lost the framing of.
\<close>

section \<open>Constants\<close>

definition mongoOpReply :: int where "mongoOpReply = 1"
definition mongoOpUpdate :: int where "mongoOpUpdate = 2001"
definition mongoOpInsert :: int where "mongoOpInsert = 2002"
definition mongoOpQuery :: int where "mongoOpQuery = 2004"
definition mongoOpGetMore :: int where "mongoOpGetMore = 2005"
definition mongoOpDelete :: int where "mongoOpDelete = 2006"
definition mongoOpKillCursors :: int where "mongoOpKillCursors = 2007"
definition mongoOpCompressed :: int where "mongoOpCompressed = 2012"
definition mongoOpMsg :: int where "mongoOpMsg = 2013"

lemmas mongo_op_defs = mongoOpReply_def mongoOpUpdate_def mongoOpInsert_def mongoOpQuery_def mongoOpGetMore_def
  mongoOpDelete_def mongoOpKillCursors_def mongoOpCompressed_def mongoOpMsg_def

definition mongoHeaderLen :: nat where "mongoHeaderLen = 16"
definition mongoMsgDocOff :: nat where "mongoMsgDocOff = mongoHeaderLen + 4 + 1"
definition mongoClientPort :: nat where "mongoClientPort = 27017"
definition pktRoleMongo :: string where "pktRoleMongo = ''mongodb''"

definition pktMongoPortRoles :: "nat \<Rightarrow> nat \<rightharpoonup> string" where
  "pktMongoPortRoles clientPort = Map.empty(clientPort \<mapsto> pktRoleMongo)"

definition mongoMaxMsg :: int where "mongoMaxMsg = push_bit 20 128"
definition mongoStallBytes :: int where "mongoStallBytes = push_bit 20 4"
definition mongoStallFrames :: nat where "mongoStallFrames = 24"
definition mongoMidStreamMax :: int where "mongoMidStreamMax = push_bit 20 1"

definition mongoKnownOp :: "int \<Rightarrow> bool" where
  "mongoKnownOp op \<longleftrightarrow> op \<in> {mongoOpReply, mongoOpUpdate, mongoOpInsert, mongoOpQuery, mongoOpGetMore,
     mongoOpDelete, mongoOpKillCursors, mongoOpCompressed, mongoOpMsg}"

definition mongo_op_names :: "(int \<times> string) list" where
  "mongo_op_names = [(mongoOpReply, ''OP_REPLY''), (mongoOpUpdate, ''OP_UPDATE''), (mongoOpInsert, ''OP_INSERT''),
     (mongoOpQuery, ''OP_QUERY''), (mongoOpGetMore, ''OP_GET_MORE''), (mongoOpDelete, ''OP_DELETE''),
     (mongoOpKillCursors, ''OP_KILL_CURSORS''), (mongoOpCompressed, ''OP_COMPRESSED''), (mongoOpMsg, ''OP_MSG'')]"

definition mongoOpName :: "int \<Rightarrow> string" where
  "mongoOpName op = (case map_of mongo_op_names op of Some s \<Rightarrow> s | None \<Rightarrow> ''opcode '' @ go_Itoa op)"

record mongoHeader =
  mh_Length :: int
  mh_RequestID :: int
  mh_ResponseTo :: int
  mh_OpCode :: int

definition mongo_header :: "bytes \<Rightarrow> mongoHeader" where
  "mongo_header buf = \<lparr>mh_Length = le_i32 buf, mh_RequestID = le_i32 (drop 4 buf), mh_ResponseTo = le_i32 (drop 8 buf),
     mh_OpCode = le_i32 (drop 12 buf)\<rparr>"

section \<open>Finding a header\<close>

definition anchor_doc_ok :: "bytes \<Rightarrow> nat \<Rightarrow> int \<Rightarrow> bool" where
  "anchor_doc_ok buf i n \<longleftrightarrow>
     (if i + mongoMsgDocOff + 4 \<le> length buf then
        let doc = drop (i + mongoMsgDocOff) buf in
        bsonDocOK doc \<and> \<not> le_i32 doc + int mongoMsgDocOff - int mongoHeaderLen > n - int mongoHeaderLen
      else True)"

definition anchor_reply_ok :: "bytes \<Rightarrow> nat \<Rightarrow> bool" where
  "anchor_reply_ok buf i \<longleftrightarrow>
     (if i + 36 \<le> length buf then
        let numReturned = le_i32 (drop (i + mongoHeaderLen + 16) buf) in
        \<not> (numReturned < 0 \<or> numReturned > push_bit 20 1) \<and> bsonDocOK (drop (i + mongoHeaderLen + 20) buf)
      else True)"

definition anchor_next_ok :: "bytes \<Rightarrow> nat \<Rightarrow> bool" where
  "anchor_next_ok buf at \<longleftrightarrow>
     (if at + mongoHeaderLen \<le> length buf then
        let nn = le_i32 (drop at buf); nop = le_i32 (drop (at + 12) buf) in
        \<not> (nn < int mongoHeaderLen \<or> nn > mongoMaxMsg \<or> \<not> mongoKnownOp nop)
      else True)"

definition mongo_anchor_at :: "int \<Rightarrow> bytes \<Rightarrow> nat \<Rightarrow> bool" where
  "mongo_anchor_at mx buf i \<longleftrightarrow>
     (let n = le_i32 (drop i buf); op = le_i32 (drop (i + 12) buf) in
      \<not> (n < int mongoHeaderLen \<or> n > mx) \<and> mongoKnownOp op
      \<and> (op = mongoOpMsg \<longrightarrow> anchor_doc_ok buf i n) \<and> (op = mongoOpReply \<longrightarrow> anchor_reply_ok buf i)
      \<and> anchor_next_ok buf (i + nat n))"

text \<open>Whether a header was found, and the buffer.\<close>

definition pktMongoAnchor :: "int \<Rightarrow> bytes \<Rightarrow> bool \<times> bytes" where
  "pktMongoAnchor mx buf =
     (case find (mongo_anchor_at mx buf) [0..<length buf + 1 - mongoHeaderLen] of
        Some i \<Rightarrow> (True, drop i buf)
      | None \<Rightarrow> (False, if length buf > 1048576 then drop (length buf - 65536) buf else buf))"

lemma pktMongoAnchor_length: "pktMongoAnchor mx buf = (ok, buf') \<Longrightarrow> length buf' \<le> length buf"
  by (auto simp: pktMongoAnchor_def split: option.splits if_splits)

section \<open>The next message\<close>

type_synonym mongo_next = "(mongoHeader \<times> bytes) option \<times> pktMongoDir \<times> bytes"

definition bad_header :: "mongoHeader \<Rightarrow> bool" where
  "bad_header h \<longleftrightarrow> mh_Length h < int mongoHeaderLen \<or> mh_Length h > mongoMaxMsg \<or> \<not> mongoKnownOp (mh_OpCode h)"

definition stalled :: "mongoHeader \<Rightarrow> nat \<Rightarrow> bytes \<Rightarrow> bool" where
  "stalled h waiting buf \<longleftrightarrow>
     (int (length buf) > mongoStallBytes \<and> mh_Length h > mongoStallBytes)
     \<or> (waiting > mongoStallFrames \<and> mh_Length h > int (length buf) * 2)"

definition mongo_align :: "bool \<Rightarrow> pktMongoDir \<Rightarrow> bytes \<Rightarrow> bool \<times> pktMongoDir \<times> bytes" where
  "mongo_align synced md buf =
     (if \<not> synced \<and> \<not> md_aligned md then
        (case pktMongoAnchor mongoMidStreamMax buf of
           (True, buf1) \<Rightarrow> (True, md\<lparr>md_aligned := True, md_waiting := 0\<rparr>, buf1)
         | (False, buf1) \<Rightarrow> (False, md, buf1))
      else (True, md, buf))"

lemma mongo_align_length: "mongo_align synced md buf = (ok, md', buf') \<Longrightarrow> length buf' \<le> length buf"
  by (auto simp: mongo_align_def split: if_splits prod.splits bool.splits dest: pktMongoAnchor_length)

lemma mongo_align_synced [simp]: "mongo_align True md buf = (True, md, buf)"
  by (simp add: mongo_align_def)

function mongo_loop :: "bool \<Rightarrow> pktMongoDir \<Rightarrow> bytes \<Rightarrow> mongo_next" where
  "mongo_loop synced md buf =
     (case mongo_align synced md buf of
        (False, md1, buf1) \<Rightarrow> (None, md1, buf1)
      | (True, md1, buf1) \<Rightarrow>
          if length buf1 < mongoHeaderLen then (None, md1, buf1)
          else
            let h = mongo_header buf1 in
            if bad_header h then
              (case pktMongoAnchor mongoMidStreamMax (drop 1 buf1) of
                 (False, buf2) \<Rightarrow> (None, md1\<lparr>md_aligned := False, md_desynced := True\<rparr>, buf2)
               | (True, buf2) \<Rightarrow> mongo_loop synced (md1\<lparr>md_aligned := True, md_desynced := True, md_waiting := 0\<rparr>) buf2)
            else if int (length buf1) < mh_Length h then
              (let w = md_waiting md1 + 1 in
               if stalled h w buf1 then
                 mongo_loop synced (md1\<lparr>md_aligned := False, md_desynced := True, md_waiting := 0\<rparr>) (drop 1 buf1)
               else (None, md1\<lparr>md_waiting := w\<rparr>, buf1))
            else (Some (h, slice mongoHeaderLen (nat (mh_Length h)) buf1), md1\<lparr>md_waiting := 0\<rparr>, drop (nat (mh_Length h)) buf1))"
  by pat_completeness auto
termination
  by (relation "measure (\<lambda>(synced, md, buf). length buf)")
     (auto simp: mongoHeaderLen_def dest!: pktMongoAnchor_length [OF sym] mongo_align_length [OF sym])

declare mongo_loop.simps [simp del]

definition pktNextMongo :: "bool \<Rightarrow> pktMongoDir \<Rightarrow> bytes \<Rightarrow> mongo_next" where
  "pktNextMongo synced md buf = mongo_loop synced (if synced then md\<lparr>md_aligned := True\<rparr> else md) buf"

section \<open>What one call does\<close>

lemma mongo_loop_shorter: "mongo_loop synced md buf = (Some x, md', buf') \<Longrightarrow> length buf' < length buf"
proof (induction synced md buf rule: mongo_loop.induct)
  case (1 synced md buf)
  obtain ok md1 buf1 where a: "mongo_align synced md buf = (ok, md1, buf1)" by (metis prod_cases3)
  have le: "length buf1 \<le> length buf" by (rule mongo_align_length [OF a])
  have ok: "ok" "\<not> length buf1 < mongoHeaderLen"
    using "1.prems" by (auto simp: mongo_loop.simps [of synced md buf] a split: bool.splits if_splits)
  let ?h = "mongo_header buf1"
  consider (bad) "bad_header ?h" | (wait) "\<not> bad_header ?h" "int (length buf1) < mh_Length ?h"
    | (full) "\<not> bad_header ?h" "\<not> int (length buf1) < mh_Length ?h" by blast
  then show ?case
  proof cases
    case bad
    obtain ok2 buf2 where b: "pktMongoAnchor mongoMidStreamMax (drop 1 buf1) = (ok2, buf2)" by fastforce
    have "ok2" using "1.prems" ok bad b by (auto simp: mongo_loop.simps [of synced md buf] a split: bool.splits)
    then have "length buf' < length buf2"
      using "1.IH"(1) [OF a [symmetric] _ refl ok(2) refl bad b [symmetric]] "1.prems" ok bad b
      by (simp add: mongo_loop.simps [of synced md buf] a)
    then show ?thesis using pktMongoAnchor_length [OF b] le by simp
  next
    case wait
    have st: "stalled ?h (md_waiting md1 + 1) buf1"
      using "1.prems" ok wait by (auto simp: mongo_loop.simps [of synced md buf] a Let_def split: if_splits)
    then have "length buf' < length (drop 1 buf1)"
      using "1.IH"(2) [OF a [symmetric] _ refl ok(2) refl wait refl st] "1.prems" ok wait
      by (simp add: mongo_loop.simps [of synced md buf] a Let_def)
    then show ?thesis using le by simp
  next
    case full
    have "0 < nat (mh_Length ?h)" using full(1) by (auto simp: bad_header_def mongoHeaderLen_def)
    moreover have "buf' = drop (nat (mh_Length ?h)) buf1"
      using "1.prems" ok full by (auto simp: mongo_loop.simps [of synced md buf] a Let_def)
    moreover have "buf1 \<noteq> []" using ok(2) by (auto simp: mongoHeaderLen_def)
    ultimately have "length buf' < length buf1" by (cases buf1) auto
    then show ?thesis using le by simp
  qed
qed

lemma pktNextMongo_shorter: "(Some x, md', buf') = pktNextMongo synced md buf \<Longrightarrow> length buf' < length buf"
  using mongo_loop_shorter by (metis pktNextMongo_def)

text \<open>The messages of a buffer, as the decoder's loop takes them off, and of a stream that arrives in segments.\<close>

function mongo_drain :: "bool \<Rightarrow> pktMongoDir \<Rightarrow> bytes \<Rightarrow> (mongoHeader \<times> bytes) list \<times> pktMongoDir \<times> bytes" where
  "mongo_drain synced md buf =
     (case pktNextMongo synced md buf of
        (None, r) \<Rightarrow> ([], r)
      | (Some x, md1, buf1) \<Rightarrow> (case mongo_drain synced md1 buf1 of (xs, r) \<Rightarrow> (x # xs, r)))"
  by pat_completeness auto
termination
  by (relation "measure (\<lambda>(synced, md, buf). length buf)") (auto dest: pktNextMongo_shorter)

declare mongo_drain.simps [simp del]

fun mongo_feed :: "bool \<Rightarrow> pktMongoDir \<Rightarrow> bytes \<Rightarrow> bytes list \<Rightarrow> (mongoHeader \<times> bytes) list \<times> pktMongoDir \<times> bytes" where
  "mongo_feed synced md buf [] = ([], md, buf)"
| "mongo_feed synced md buf (g # segs) =
     (case mongo_drain synced md (buf @ g) of
        (xs, md1, buf1) \<Rightarrow> (case mongo_feed synced md1 buf1 segs of (ys, r) \<Rightarrow> (xs @ ys, r)))"

section \<open>Streams on a connection seen from its start\<close>

definition mongo_msg_ok :: "bytes \<Rightarrow> bool" where
  "mongo_msg_ok m \<longleftrightarrow> mongoHeaderLen \<le> length m \<and> le_i32 m = int (length m) \<and> \<not> bad_header (mongo_header m)"

definition mongo_msg :: "bytes \<Rightarrow> mongoHeader \<times> bytes" where
  "mongo_msg m = (mongo_header m, drop mongoHeaderLen m)"

lemma mongo_header_append: "16 \<le> length m \<Longrightarrow> mongo_header (m @ r) = mongo_header m"
  by (simp add: mongo_header_def le_i32_append)

lemma mongo_loop_message:
  assumes "mongo_msg_ok m"
  shows "mongo_loop True md (m @ r) = (Some (mongo_msg m), md\<lparr>md_waiting := 0\<rparr>, r)"
proof -
  have l: "16 \<le> length m" using assms by (simp add: mongo_msg_ok_def mongoHeaderLen_def)
  have "mh_Length (mongo_header m) = int (length m)" using assms by (simp add: mongo_msg_ok_def mongo_header_def)
  with assms l show ?thesis
    by (simp add: mongo_loop.simps [of True md "m @ r"] mongo_header_append mongo_msg_ok_def mongo_msg_def mongoHeaderLen_def slice_def)
qed

text \<open>The beginning of a message: the decoder waits, unless it takes the header for a false one.\<close>

lemma mongo_loop_waits:
  assumes "mongo_msg_ok m" "strict_prefix r m" "16 \<le> length r" "\<not> stalled (mongo_header m) (md_waiting md + 1) r"
  shows "mongo_loop True md r = (None, md\<lparr>md_waiting := md_waiting md + 1\<rparr>, r)"
proof -
  obtain t where m: "m = r @ t" "t \<noteq> []" using assms(2) by (auto simp: strict_prefix_def prefix_def)
  have h: "mongo_header r = mongo_header m" using assms(3) m mongo_header_append [of r t] by simp
  have "mh_Length (mongo_header m) = int (length m)" using assms(1) by (simp add: mongo_msg_ok_def mongo_header_def)
  then have "int (length r) < mh_Length (mongo_header m)" using m by simp
  with assms h show ?thesis
    by (simp add: mongo_loop.simps [of True md r] mongo_msg_ok_def mongoHeaderLen_def Let_def)
qed

lemma mongo_loop_short: "length r < 16 \<Longrightarrow> mongo_loop True md r = (None, md, r)"
  by (simp add: mongo_loop.simps [of True md r] mongoHeaderLen_def)

abbreviation aligned :: "pktMongoDir \<Rightarrow> pktMongoDir" where
  "aligned md \<equiv> md\<lparr>md_aligned := True\<rparr>"

text \<open>Draining whole messages and the beginning of another.\<close>

definition waits_after :: "nat \<Rightarrow> bytes list \<Rightarrow> bytes \<Rightarrow> nat" where
  "waits_after w ms r = (if ms = [] then w else 0) + (if length r < 16 then 0 else 1)"

lemma mongo_drain_exact:
  assumes "\<forall>m \<in> set ms. mongo_msg_ok m"
    "r = [] \<or> (mongo_msg_ok m' \<and> strict_prefix r m' \<and> (16 \<le> length r \<longrightarrow> \<not> stalled (mongo_header m') (waits_after (md_waiting md) ms r) r))"
  shows "mongo_drain True md (concat ms @ r) =
    (map mongo_msg ms, md\<lparr>md_aligned := True, md_waiting := waits_after (md_waiting md) ms r\<rparr>, r)"
  using assms
proof (induction ms arbitrary: md)
  case Nil
  have "mongo_loop True (aligned md) r = (None, md\<lparr>md_aligned := True, md_waiting := waits_after (md_waiting md) [] r\<rparr>, r)"
  proof (cases "16 \<le> length r")
    case True
    with Nil have "mongo_msg_ok m'" "strict_prefix r m'" "\<not> stalled (mongo_header m') (md_waiting (aligned md) + 1) r"
      by (auto simp: waits_after_def)
    from mongo_loop_waits [OF this(1,2) True this(3)] True show ?thesis by (simp add: waits_after_def)
  qed (simp add: mongo_loop_short waits_after_def)
  then show ?case by (simp add: mongo_drain.simps [of True md r] pktNextMongo_def)
next
  case (Cons m ms)
  have w: "waits_after (md_waiting md) (m # ms) r = waits_after 0 ms r" by (simp add: waits_after_def)
  have "mongo_drain True (md\<lparr>md_aligned := True, md_waiting := 0\<rparr>) (concat ms @ r) =
      (map mongo_msg ms, md\<lparr>md_aligned := True, md_waiting := waits_after 0 ms r\<rparr>, r)"
    using Cons.IH [of "md\<lparr>md_aligned := True, md_waiting := 0\<rparr>"] Cons.prems w by simp
  moreover have "mongo_loop True (aligned md) (concat (m # ms) @ r) = (Some (mongo_msg m), md\<lparr>md_aligned := True, md_waiting := 0\<rparr>, concat ms @ r)"
    using mongo_loop_message [of m "aligned md" "concat ms @ r"] Cons.prems(1) by simp
  ultimately show ?case
    using w by (simp add: mongo_drain.simps [of True md "m @ concat ms @ r"] pktNextMongo_def)
qed

text \<open>A piece of a stream of messages is some whole messages and a proper beginning of the next.\<close>

lemma prefix_concat_split:
  assumes "prefix b (concat ms)"
  shows "\<exists>ms1 ms2 r. ms = ms1 @ ms2 \<and> b = concat ms1 @ r \<and> (r = [] \<or> (\<exists>m ms3. ms2 = m # ms3 \<and> strict_prefix r m))"
  using assms
proof (induction ms arbitrary: b)
  case (Cons m ms)
  show ?case
  proof (cases "prefix m b")
    case True
    then obtain b' where b: "b = m @ b'" by (auto simp: prefix_def)
    then have "prefix b' (concat ms)" using Cons.prems by simp
    from Cons.IH [OF this] obtain ms1 ms2 r where
      "ms = ms1 @ ms2" "b' = concat ms1 @ r" "r = [] \<or> (\<exists>m ms3. ms2 = m # ms3 \<and> strict_prefix r m)" by blast
    then show ?thesis using b by (intro exI [of _ "m # ms1"] exI [of _ ms2] exI [of _ r]) simp
  next
    case False
    have "prefix b m"
      using Cons.prems False prefix_same_cases [of b "concat (m # ms)" m] by (auto simp: prefix_def)
    then have "strict_prefix b m" using False by (auto simp: strict_prefix_def)
    then show ?thesis by (intro exI [of _ "[]"] exI [of _ "m # ms"] exI [of _ b]) auto
  qed
qed simp

definition fits :: "nat \<Rightarrow> bytes \<Rightarrow> bool" where
  "fits s m \<longleftrightarrow> mongo_msg_ok m \<and> length m \<le> 48 * s \<and> int (length m) \<le> mongoStallBytes"

lemma not_stalled:
  assumes "fits s m" "w * s \<le> length r + s"
  shows "\<not> stalled (mongo_header m) w r"
proof -
  have l: "mh_Length (mongo_header m) = int (length m)" using assms(1) by (simp add: fits_def mongo_msg_ok_def mongo_header_def)
  have "int (length m) \<le> int (length r) * 2" if "w > 24"
  proof -
    have "25 * s \<le> w * s" using that by (intro mult_right_mono) auto
    then have "24 * s \<le> length r" using assms(2) by linarith
    then show ?thesis using assms(1) by (simp add: fits_def)
  qed
  then show ?thesis using assms(1) l by (auto simp: stalled_def fits_def mongoStallFrames_def)
qed

lemma mongo_feed_mid:
  assumes "\<forall>m \<in> set ms. fits s m" "r @ concat segs = concat ms" "\<forall>g \<in> set (butlast segs). s \<le> length g"
    "r = [] \<or> (\<exists>m ms'. ms = m # ms' \<and> strict_prefix r m)" "md_waiting md * s \<le> length r + s"
  shows "\<exists>md'. mongo_feed True md r segs = (map mongo_msg ms, md', [])"
  using assms
proof (induction segs arbitrary: ms r md)
  case Nil
  show ?case
  proof (cases "r = []")
    case True
    have "ms = []"
    proof (cases ms)
      case (Cons m ms')
      with Nil.prems(1,2) True show ?thesis by (auto simp: fits_def mongo_msg_ok_def mongoHeaderLen_def)
    qed
    with True show ?thesis by simp
  next
    case False
    with Nil.prems obtain m ms' where "ms = m # ms'" "strict_prefix r m" by blast
    then show ?thesis using Nil.prems(2) prefix_length_less [of r m] by (auto dest: arg_cong [where f = length])
  qed
next
  case (Cons g segs)
  have "prefix (r @ g) (concat ms)" using Cons.prems(2) by (metis append.assoc concat.simps(2) prefixI)
  from prefix_concat_split [OF this] obtain ms1 ms2 r' where
    ms: "ms = ms1 @ ms2" and b: "r @ g = concat ms1 @ r'" and r': "r' = [] \<or> (\<exists>m ms3. ms2 = m # ms3 \<and> strict_prefix r' m)" by blast
  have rest: "r' @ concat segs = concat ms2"
    using Cons.prems(2) ms arg_cong [OF b, of "\<lambda>x. x @ concat segs"] by simp
  let ?w = "waits_after (md_waiting md) ms1 r'"
  have w: "?w * s \<le> length r' + s"
  proof (cases "ms1 = []")
    case True
    then have rg: "r' = r @ g" using b by simp
    show ?thesis
    proof (cases "16 \<le> length r'")
      case big: True
      have "segs \<noteq> []"
      proof
        assume "segs = []"
        then have eq: "r' = concat ms2" using rest by simp
        from r' big obtain m ms3 where m: "ms2 = m # ms3" "strict_prefix r' m" by fastforce
        show False using prefix_length_less [OF m(2)] eq m(1) by simp
      qed
      then have "s \<le> length g" using Cons.prems(3) by simp
      then show ?thesis using Cons.prems(5) True rg big by (simp add: waits_after_def)
    qed (use Cons.prems(5) True rg in \<open>simp add: waits_after_def\<close>)
  qed (simp add: waits_after_def)
  have live: "\<not> stalled (mongo_header m) ?w r'" if "ms2 = m # ms3" for m ms3
    using Cons.prems(1) ms that w by (intro not_stalled [of s]) auto
  have "mongo_drain True md (concat ms1 @ r') = (map mongo_msg ms1, md\<lparr>md_aligned := True, md_waiting := ?w\<rparr>, r')"
    using Cons.prems(1) ms r' live by (intro mongo_drain_exact [where m' = "hd ms2"]) (auto simp: fits_def)
  moreover obtain md' where "mongo_feed True (md\<lparr>md_aligned := True, md_waiting := ?w\<rparr>) r' segs = (map mongo_msg ms2, md', [])"
    using Cons.IH [of ms2 r' "md\<lparr>md_aligned := True, md_waiting := ?w\<rparr>"] Cons.prems(1,3) ms rest r' w
    by (cases segs) auto
  ultimately show ?case using ms b by simp
qed

text \<open>
  C2. A MongoDB stream seen from its start is framed exactly, however TCP cut it into segments: every message
  is taken off whole and in order, with its header, and nothing is left over, provided no message is longer
  than 48 times the shortest segment (the last one aside) or than 4 MiB. Beyond those bounds the decoder
  takes a message that is slow to arrive for a false header.
\<close>

theorem mongo_stream_exact:
  assumes "\<forall>m \<in> set ms. fits s m" "concat segs = concat ms" "\<forall>g \<in> set (butlast segs). s \<le> length g"
  shows "\<exists>md. mongo_feed True new_mongodir [] segs = (map mongo_msg ms, md, [])"
  using mongo_feed_mid [OF assms(1) _ assms(3), of "[]" new_mongodir] assms(2) by (simp add: new_mongodir_def)

text \<open>A ping of 37 bytes, and one of 41, in segments of 5 bytes.\<close>

definition demo_msg :: "nat \<Rightarrow> bytes" where
  "demo_msg k = le_enc 4 (16 + k) @ [7, 0, 0, 0] @ [0, 0, 0, 0] @ [0xdd, 7, 0, 0] @ replicate k 1"

lemma demo_msg_fits:
  assumes "k \<le> 200"
  shows "fits 5 (demo_msg k)"
proof -
  let ?t = "[7, 0, 0, 0] @ [0, 0, 0, 0] @ [0xdd, 7, 0, 0] @ replicate k 1 :: bytes"
  have l: "le_i32 (demo_msg k) = int (16 + k)"
    using le_i32_le_enc [of "16 + k" ?t] assms by (simp add: demo_msg_def)
  have o: "le_i32 ([0xdd, 7, 0, 0] :: bytes) = 2013" by code_simp
  have d: "drop 12 (demo_msg k) = [0xdd, 7, 0, 0] @ replicate k 1" by (simp add: demo_msg_def)
  have "le_i32 (drop 12 (demo_msg k)) = 2013" unfolding d using o by (simp add: le_i32_append del: append.simps)
  then have "mh_OpCode (mongo_header (demo_msg k)) = 2013" by (simp add: mongo_header_def)
  moreover have "mh_Length (mongo_header (demo_msg k)) = int (16 + k)" using l by (simp add: mongo_header_def)
  moreover have "length (demo_msg k) = 16 + k" by (simp add: demo_msg_def)
  ultimately show ?thesis
    using assms l by (simp add: fits_def mongo_msg_ok_def bad_header_def mongoHeaderLen_def mongoMaxMsg_def mongoStallBytes_def
        push_bit_eq_mult mongoKnownOp_def mongo_op_defs)
qed

theorem mongo_stream_exact_witness:
  "\<exists>md. mongo_feed True new_mongodir [] [take 5 (demo_msg 21 @ demo_msg 25), drop 5 (demo_msg 21 @ demo_msg 25)]
     = ([mongo_msg (demo_msg 21), mongo_msg (demo_msg 25)], md, [])"
proof -
  have ok: "fits 5 (demo_msg 21)" "fits 5 (demo_msg 25)" by (simp_all add: demo_msg_fits)
  let ?b = "demo_msg 21 @ demo_msg 25"
  have l: "length (take 5 ?b) = 5" by (simp add: demo_msg_def)
  have c: "concat [take 5 ?b, drop 5 ?b] = concat [demo_msg 21, demo_msg 25]"
    unfolding concat.simps append_Nil2 by (rule append_take_drop_id)
  have "\<exists>md. mongo_feed True new_mongodir [] [take 5 ?b, drop 5 ?b] = (map mongo_msg [demo_msg 21, demo_msg 25], md, [])"
    by (rule mongo_stream_exact [OF _ c, of 5]) (use ok l in \<open>simp_all del: take_append\<close>)
  then show ?thesis by (simp only: list.map)
qed

text \<open>
  The bound is needed: a message that has waited for 24 frames and is more than twice as long as what has
  arrived is given up, on a connection seen from its start too, and its bytes are searched for another header.
\<close>

lemma mongo_gives_up:
  assumes "mongo_msg_ok m" "strict_prefix r m" "16 \<le> length r" "24 \<le> md_waiting md" "2 * length r < length m"
  shows "mongo_loop True md r = mongo_loop True (md\<lparr>md_aligned := False, md_desynced := True, md_waiting := 0\<rparr>) (drop 1 r)"
proof -
  obtain t where m: "m = r @ t" "t \<noteq> []" using assms(2) by (auto simp: strict_prefix_def prefix_def)
  have h: "mongo_header r = mongo_header m" using assms(3) m mongo_header_append [of r t] by simp
  have l: "mh_Length (mongo_header m) = int (length m)" using assms(1) by (simp add: mongo_msg_ok_def mongo_header_def)
  have "stalled (mongo_header m) (md_waiting md + 1) r"
    using assms(4,5) l by (simp add: stalled_def mongoStallFrames_def)
  with assms h l show ?thesis
    by (simp add: mongo_loop.simps [of True md r] mongo_msg_ok_def mongoHeaderLen_def Let_def)
qed

end
