(* ===== verification/Mongo.thy ===== *)
theory Mongo
  imports Mongo_Wire Bson_Text Snappy Pg_Decode
begin

text \<open>
  The MongoDB decoder (\<^verbatim>\<open>src/app/pktmongo.go\<close>, \<^verbatim>\<open>pktmongorepl.go\<close>, \<^verbatim>\<open>pktmongoerr.go\<close>): commands and replies of the wire
  protocol, what a connection is for, and the catalogue of error codes. Framing is in \<open>Mongo_Wire\<close>, BSON in
  \<open>Bson\<close> and \<open>Bson_Text\<close>, the Snappy decompressor in \<open>Snappy\<close>.

  A compressed message may hold another compressed message; the code recurses without a bound, and the
  functions that model that recursion take a number of steps and return \<open>None\<close> when it is not enough.
\<close>

section \<open>Kinds of connections\<close>

definition mongoKindClient :: string where "mongoKindClient = ''client''"
definition mongoKindMonitor :: string where "mongoKindMonitor = ''monitor''"
definition mongoKindHeartbeat :: string where "mongoKindHeartbeat = ''heartbeat''"
definition mongoKindElection :: string where "mongoKindElection = ''election''"
definition mongoKindOplog :: string where "mongoKindOplog = ''oplog''"
definition mongoKindReplPos :: string where "mongoKindReplPos = ''replpos''"
definition mongoKindConfig :: string where "mongoKindConfig = ''config''"
definition mongoKindRouted :: string where "mongoKindRouted = ''routed''"
definition mongoKindInternal :: string where "mongoKindInternal = ''internal''"

lemmas mongo_kind_defs = mongoKindClient_def mongoKindMonitor_def mongoKindHeartbeat_def mongoKindElection_def mongoKindOplog_def
  mongoKindReplPos_def mongoKindConfig_def mongoKindRouted_def mongoKindInternal_def

definition mongoKindLabel :: "string \<Rightarrow> string" where
  "mongoKindLabel kind =
     (if kind = mongoKindHeartbeat then ''MongoDB/heartbeat''
      else if kind = mongoKindElection then ''MongoDB/election''
      else if kind = mongoKindOplog then ''MongoDB/oplog''
      else if kind = mongoKindReplPos then ''MongoDB/replpos''
      else if kind = mongoKindMonitor then ''MongoDB/monitor''
      else if kind = mongoKindConfig then ''MongoDB/config''
      else if kind = mongoKindRouted then ''MongoDB/routed''
      else if kind = mongoKindInternal then ''MongoDB/internal''
      else ''MongoDB'')"

definition mongoKindRank :: "string \<Rightarrow> nat" where
  "mongoKindRank kind =
     (if kind = [] then 0 else if kind = mongoKindMonitor then 1 else if kind = mongoKindClient then 2 else 3)"

definition mongoKindDescription :: "string \<Rightarrow> string" where
  "mongoKindDescription kind =
     (if kind = mongoKindHeartbeat then ''replica-set heartbeats: every member checks every other member every 2 seconds, forever''
      else if kind = mongoKindElection then ''an election: replSetRequestVotes and replSetStepUp are the seconds in which the primary changes''
      else if kind = mongoKindOplog then ''oplog tailing: a secondary reading local.oplog.rs from the primary '' @ em_dash @ '' this IS MongoDB replication''
      else if kind = mongoKindReplPos then ''replSetUpdatePosition: secondaries reporting how far they have applied, which is what write concern waits on''
      else if kind = mongoKindMonitor then ''monitoring: hello/isMaster, either a driver watching the topology or a member watching its peers''
      else if kind = mongoKindConfig then ''config database traffic: the sharded cluster'' @ [CHR 0x27] @ ''s routing table''
      else if kind = mongoKindRouted then ''mongos '' @ right_arrow @ '' shard: a routed command carrying the shard version that decides whether it is answered or refused''
      else if kind = mongoKindInternal then ''internal cluster traffic, authenticated as __system''
      else if kind = mongoKindClient then ''an application connection''
      else [])"

definition mongoNamespaceKind :: "string \<Rightarrow> string" where
  "mongoNamespaceKind ns =
     (if go_HasPrefix ns ''local.oplog.rs'' then ''the oplog '' @ em_dash @ '' the replication log every secondary tails''
      else if go_HasPrefix ns ''local.system.replset'' then ''the stored replica-set configuration''
      else if go_HasPrefix ns ''local.'' then ''a local (non-replicated) collection''
      else if ns = ''config.shards'' then ''the list of shards in the cluster''
      else if ns = ''config.chunks'' then ''the chunk map '' @ em_dash @ '' which shard owns which range''
      else if ns = ''config.collections'' then ''the sharded collections and their shard keys''
      else if ns = ''config.databases'' then ''the databases and their primary shards''
      else if ns = ''config.mongos'' then ''the routers the cluster knows about''
      else if ns = ''config.settings'' then ''cluster settings, including whether the balancer is enabled''
      else if ns = ''config.locks'' \<or> ns = ''config.lockpings'' then ''the distributed lock the balancer takes''
      else if ns = ''config.transactions'' then ''retryable-write and transaction bookkeeping''
      else if go_HasPrefix ns ''config.'' then ''the sharded cluster'' @ [CHR 0x27] @ ''s own metadata''
      else if go_HasPrefix ns ''admin.system.version'' then ''the cluster'' @ [CHR 0x27] @ ''s feature-compatibility and shard identity''
      else if suffix ''.system.profile'' ns then ''the profiler'' @ [CHR 0x27] @ ''s own collection''
      else [])"

definition mongoIsChatter :: "string \<Rightarrow> bool" where
  "mongoIsChatter cmd \<longleftrightarrow> cmd \<in> set [''hello'', ''isMaster'', ''ismaster'', ''ping'', ''replSetHeartbeat'', ''replSetUpdatePosition'',
     ''buildInfo'', ''getParameter'', ''whatsmyuri'', ''endSessions'', ''listDatabases'', ''connectionStatus'', ''getLog'', ''atlasVersion'', ''topology'']"

definition mongoAwaitable :: "string \<Rightarrow> bool" where
  "mongoAwaitable cmd \<longleftrightarrow> cmd \<in> set [''hello'', ''isMaster'', ''ismaster'', ''getMore'', ''replSetHeartbeat'', ''awaitData'', ''aggregate'']"

section \<open>Error codes\<close>

record mongoErrEntry =
  ge_name :: string
  ge_issue :: string
  ge_severe :: bool

definition mongoErrCatalog :: "(int \<times> mongoErrEntry) list" where
  "mongoErrCatalog =
     [(6, \<lparr>ge_name = ''HostUnreachable'', ge_issue = ''The member could not be reached at all '' @ em_dash @ '' this is one node'' @ [CHR 0x27] @ ''s view of another, so a capture on this node shows the attempt and nothing coming back'', ge_severe = True\<rparr>),
      (7, \<lparr>ge_name = ''HostNotFound'', ge_issue = ''The member'' @ [CHR 0x27] @ ''s hostname did not resolve. In a replica set the names come from the set'' @ [CHR 0x27] @ ''s own configuration, so this is a DNS or a reconfiguration problem, not a client one'', ge_severe = True\<rparr>),
      (89, \<lparr>ge_name = ''NetworkTimeout'', ge_issue = ''A network operation timed out '' @ em_dash @ '' the peer was reachable but did not answer in time; on a heartbeat this is what starts an election'', ge_severe = True\<rparr>),
      (9001, \<lparr>ge_name = ''SocketException'', ge_issue = ''The socket failed mid-operation. What the capture shows is the reset or the missing response that caused it'', ge_severe = True\<rparr>),
      (202, \<lparr>ge_name = ''NetworkInterfaceExceededTimeLimit'', ge_issue = ''An internal request between members exceeded its deadline'', ge_severe = True\<rparr>),
      (18, \<lparr>ge_name = ''AuthenticationFailed'', ge_issue = ''Authentication failed '' @ em_dash @ '' a wrong password, a user in the wrong database, or a member whose keyfile does not match the rest of the set (which fails as __system)'', ge_severe = True\<rparr>),
      (13, \<lparr>ge_name = ''Unauthorized'', ge_issue = ''The authenticated user lacks the privilege for this command. After a role change this is what an application failing everywhere looks like'', ge_severe = True\<rparr>),
      (11, \<lparr>ge_name = ''UserNotFound'', ge_issue = ''The user does not exist in the database it authenticated against '' @ em_dash @ '' usually admin versus the application database'', ge_severe = True\<rparr>),
      (10107, \<lparr>ge_name = ''NotWritablePrimary'', ge_issue = ''This member is not the primary, so the write was refused. Either an election is happening, or the driver is holding a stale view of the topology and sending writes to a member that has stepped down'', ge_severe = True\<rparr>),
      (11602, \<lparr>ge_name = ''InterruptedDueToReplStateChange'', ge_issue = ''The operation was killed by a replica-set state change '' @ em_dash @ '' this member stepped down (or up) while the command was running. Retryable writes handle this; a non-retryable write is lost'', ge_severe = True\<rparr>),
      (13435, \<lparr>ge_name = ''NotPrimaryNoSecondaryOk'', ge_issue = ''A read reached a secondary without a read preference that allows it. The driver'' @ [CHR 0x27] @ ''s read preference is primary and the connection is not to the primary'', ge_severe = True\<rparr>),
      (13436, \<lparr>ge_name = ''NotPrimaryOrSecondary'', ge_issue = ''The member is neither primary nor secondary '' @ em_dash @ '' it is starting up, recovering, or rolling back, and cannot serve anything'', ge_severe = True\<rparr>),
      (189, \<lparr>ge_name = ''PrimarySteppedDown'', ge_issue = ''The primary stepped down while this command was in flight; the write may or may not have been applied and will not be acknowledged'', ge_severe = True\<rparr>),
      (91, \<lparr>ge_name = ''ShutdownInProgress'', ge_issue = ''The member is shutting down. Everything after this on this connection is a consequence, not a separate fault'', ge_severe = True\<rparr>),
      (133, \<lparr>ge_name = ''FailedToSatisfyReadPreference'', ge_issue = ''No member matching the read preference could be found '' @ em_dash @ '' with readPreference secondary and no healthy secondary, or with a tag set nothing matches'', ge_severe = True\<rparr>),
      (262, \<lparr>ge_name = ''ExceededTimeLimit'', ge_issue = ''The operation exceeded maxTimeMS. This is a client-imposed deadline, so it says the client gave up rather than that the server failed'', ge_severe = True\<rparr>),
      (50, \<lparr>ge_name = ''MaxTimeMSExpired'', ge_issue = ''The server killed the operation because maxTimeMS expired. On a getMore against a tailable cursor this is normal; anywhere else it is a slow operation the client refused to wait for'', ge_severe = True\<rparr>),
      (64, \<lparr>ge_name = ''WriteConcernFailed'', ge_issue = ''The write was applied on this member but not acknowledged by enough members. It is not durable yet and can still be rolled back if this primary steps down'', ge_severe = True\<rparr>),
      (79, \<lparr>ge_name = ''UnknownReplWriteConcern'', ge_issue = ''The write concern names a mode this set'' @ [CHR 0x27] @ ''s configuration does not define (a tag set that no longer exists)'', ge_severe = True\<rparr>),
      (100, \<lparr>ge_name = ''UnsatisfiableWriteConcern'', ge_issue = ''The write concern can never be satisfied by this set '' @ em_dash @ '' w greater than the number of data-bearing members'', ge_severe = True\<rparr>),
      (112, \<lparr>ge_name = ''WriteConflict'', ge_issue = ''Two transactions wrote the same document and this one lost. The application is expected to retry it; a burst of these means the workload is contending on a hot document'', ge_severe = True\<rparr>),
      (24, \<lparr>ge_name = ''LockTimeout'', ge_issue = ''The operation waited for a lock and gave up'', ge_severe = True\<rparr>),
      (46, \<lparr>ge_name = ''LockBusy'', ge_issue = ''The lock is held elsewhere'', ge_severe = True\<rparr>),
      (251, \<lparr>ge_name = ''NoSuchTransaction'', ge_issue = ''The transaction this command names does not exist '' @ em_dash @ '' it was already committed, aborted, or timed out (transactionLifetimeLimitSeconds, 60 s by default)'', ge_severe = True\<rparr>),
      (225, \<lparr>ge_name = ''TransactionTooOld'', ge_issue = ''A newer transaction on the same session has superseded this one'', ge_severe = True\<rparr>),
      (263, \<lparr>ge_name = ''OperationNotSupportedInTransaction'', ge_issue = ''This command cannot run inside a multi-document transaction'', ge_severe = False\<rparr>),
      (292, \<lparr>ge_name = ''QueryExceededMemoryLimitNoDiskUseAllowed'', ge_issue = ''A sort or aggregation needed more memory than allowed and disk use was not permitted '' @ em_dash @ '' allowDiskUse, or an index that makes the sort unnecessary'', ge_severe = True\<rparr>),
      (16819, \<lparr>ge_name = ''Location16819'', ge_issue = ''A sort exceeded its memory limit'', ge_severe = True\<rparr>),
      (17144, \<lparr>ge_name = ''Location17144'', ge_issue = ''A pipeline stage exceeded its memory limit'', ge_severe = True\<rparr>),
      (13388, \<lparr>ge_name = ''StaleConfig'', ge_issue = ''The shard refused the command because the router'' @ [CHR 0x27] @ ''s routing table is out of date '' @ em_dash @ '' the chunk has moved. mongos refreshes and retries, so a few of these are normal after a migration; a stream of them means the balancer is moving data or a router is not refreshing'', ge_severe = True\<rparr>),
      (63, \<lparr>ge_name = ''StaleShardVersion'', ge_issue = ''The shard version the router sent does not match the shard'' @ [CHR 0x27] @ ''s own '' @ em_dash @ '' the same situation as StaleConfig, reported by an older server'', ge_severe = True\<rparr>),
      (118, \<lparr>ge_name = ''CannotSplit'', ge_issue = ''The chunk cannot be split, usually because the shard key has too little cardinality in that range'', ge_severe = True\<rparr>),
      (82, \<lparr>ge_name = ''NoProgressMade'', ge_issue = ''A chunk migration made no progress and was abandoned'', ge_severe = True\<rparr>),
      (96, \<lparr>ge_name = ''OperationFailed'', ge_issue = ''The operation failed for a reason the server described in the message rather than in the code'', ge_severe = True\<rparr>),
      (59, \<lparr>ge_name = ''CommandNotFound'', ge_issue = [], ge_severe = False\<rparr>),
      (72, \<lparr>ge_name = ''InvalidOptions'', ge_issue = [], ge_severe = False\<rparr>),
      (26, \<lparr>ge_name = ''NamespaceNotFound'', ge_issue = [], ge_severe = False\<rparr>),
      (48, \<lparr>ge_name = ''NamespaceExists'', ge_issue = ''The collection already exists'', ge_severe = False\<rparr>),
      (27, \<lparr>ge_name = ''IndexNotFound'', ge_issue = ''The index named does not exist'', ge_severe = False\<rparr>),
      (85, \<lparr>ge_name = ''IndexOptionsConflict'', ge_issue = ''An index with the same name exists with different options'', ge_severe = False\<rparr>),
      (86, \<lparr>ge_name = ''IndexKeySpecsConflict'', ge_issue = ''An index with the same key pattern exists with a different name'', ge_severe = False\<rparr>),
      (11000, \<lparr>ge_name = ''DuplicateKey'', ge_issue = ''A unique index rejected the document. This arrives inside writeErrors in an otherwise successful reply, which is why a tool watching only command status never sees it'', ge_severe = False\<rparr>),
      (2, \<lparr>ge_name = ''BadValue'', ge_issue = ''The command'' @ [CHR 0x27] @ ''s arguments were rejected by the server'', ge_severe = False\<rparr>),
      (9, \<lparr>ge_name = ''FailedToParse'', ge_issue = ''The command document could not be parsed '' @ em_dash @ '' usually a driver or a hand-written command, not a server problem'', ge_severe = False\<rparr>),
      (14, \<lparr>ge_name = ''TypeMismatch'', ge_issue = ''A field had the wrong BSON type'', ge_severe = False\<rparr>),
      (40, \<lparr>ge_name = ''ConflictingUpdateOperators'', ge_issue = ''The update document uses operators that cannot be combined'', ge_severe = False\<rparr>),
      (31254, \<lparr>ge_name = ''Location31254'', ge_issue = ''An aggregation stage was used where it is not allowed'', ge_severe = False\<rparr>),
      (4, \<lparr>ge_name = ''NoSuchKey'', ge_issue = [], ge_severe = False\<rparr>),
      (43, \<lparr>ge_name = ''CursorNotFound'', ge_issue = ''The cursor is gone '' @ em_dash @ '' it was killed, it timed out (10 minutes idle by default), or the server it lived on restarted. A long pause between getMore calls is the usual cause'', ge_severe = True\<rparr>),
      (237, \<lparr>ge_name = ''CursorKilled'', ge_issue = ''The cursor was killed while it was being read'', ge_severe = True\<rparr>),
      (211, \<lparr>ge_name = ''KeyNotFound'', ge_issue = ''The cluster time key could not be found '' @ em_dash @ '' usually a member that has not finished starting up'', ge_severe = True\<rparr>),
      (14031, \<lparr>ge_name = ''OutOfDiskSpace'', ge_issue = ''The member is out of disk'', ge_severe = True\<rparr>),
      (28663, \<lparr>ge_name = ''Location28663'', ge_issue = [], ge_severe = False\<rparr>),
      (1, \<lparr>ge_name = ''InternalError'', ge_issue = ''An internal server error '' @ em_dash @ '' the message and the server'' @ [CHR 0x27] @ ''s own log are where this has to be followed up'', ge_severe = True\<rparr>),
      (255, \<lparr>ge_name = ''UnrecoverableRollbackError'', ge_issue = ''A rollback failed unrecoverably; the member needs a resync'', ge_severe = True\<rparr>)]"

definition mongoCodeName :: "int \<Rightarrow> string" where
  "mongoCodeName code =
     (case map_of mongoErrCatalog code of
        Some e \<Rightarrow> ge_name e
      | None \<Rightarrow> if code = 0 then [] else ''code '' @ go_Itoa code)"

definition err_hints :: "string list" where
  "err_hints = [''Timeout'', ''Unreachable'', ''Shutdown'', ''StepDown'', ''NotPrimary'', ''Interrupted'', ''Exceeded'', ''Stale'', ''Network'', ''Socket'', ''WriteConcern'']"

definition code_line :: "string \<Rightarrow> int \<Rightarrow> string \<Rightarrow> string" where
  "code_line name code txt = name @ '' ('' @ go_Itoa code @ '') '' @ em_dash @ '' '' @ txt"

text \<open>The codes read together with the message and the kind of the connection; \<open>None\<close> goes on to the catalogue.\<close>

definition err_special :: "int \<Rightarrow> string \<Rightarrow> string \<Rightarrow> string \<Rightarrow> string \<Rightarrow> string option" where
  "err_special code name low base kind =
     (if code = 50 \<or> code = 262 then (if go_Contains low ''tailable'' \<or> kind = mongoKindOplog then Some [] else None)
      else if code = 10107 then
        (if go_Contains low ''not primary'' \<and> kind = mongoKindRouted
         then Some (''NotWritablePrimary (10107) on a routed command '' @ em_dash @ '' the mongos sent a write to a shard member that is no longer that shard'' @ [CHR 0x27] @ ''s primary; it refreshes and retries, and a burst of these means the shard just failed over'')
         else None)
      else if code = 13388 \<or> code = 63 then
        (if kind = mongoKindRouted
         then Some (code_line name code (base @ ''. This one arrived on a mongos'' @ right_arrow @ ''shard connection, which is where it is supposed to appear''))
         else None)
      else if code = 18 then
        (if go_Contains low ''__system'' \<or> kind = mongoKindInternal
         then Some (''AuthenticationFailed (18) as __system '' @ em_dash @ '' the members'' @ [CHR 0x27] @ '' keyFile or x.509 identities do not match, so the set cannot form. Nothing an application does will fix this'')
         else None)
      else if code = 11000 then
        (if kind = mongoKindConfig then Some (''DuplicateKey (11000) in the config database '' @ em_dash @ '' two routers or shards tried to write the same metadata'') else None)
      else None)"

definition mongoErrIssue :: "int \<Rightarrow> string \<Rightarrow> string \<Rightarrow> string \<Rightarrow> string" where
  "mongoErrIssue code name msg kind =
     (let e = map_of mongoErrCatalog code; base = (case e of Some x \<Rightarrow> ge_issue x | None \<Rightarrow> []) in
      case err_special code name (go_Map lower_rune msg) base kind of
        Some s \<Rightarrow> s
      | None \<Rightarrow>
          if base \<noteq> [] then code_line name code base
          else if e \<noteq> None then []
          else if list_ex (go_Contains name) err_hints then code_line name code (pktEllipsis (pktPrintable msg) 110)
          else [])"

definition mongoSevereCodes :: "string list" where
  "mongoSevereCodes = sort (map (\<lambda>(code, e). go_Itoa code @ '' '' @ ge_name e) (filter (\<lambda>(code, e). ge_severe e) mongoErrCatalog))"

section \<open>What a command makes of the connection\<close>

text \<open>\<^verbatim>\<open>mustGet\<close>: the zero element where there is none.\<close>

definition mustGet :: "bsonElem list \<Rightarrow> string \<Rightarrow> bsonElem" where
  "mustGet elems key = (case bsonGet elems key of Some e \<Rightarrow> e | None \<Rightarrow> \<lparr>be_Type = 0, be_Key = [], be_Raw = []\<rparr>)"

definition get_str :: "bsonElem list \<Rightarrow> string \<Rightarrow> string" where
  "get_str doc key = bsonStr (mustGet doc key)"

definition is_hello :: "string \<Rightarrow> bool" where
  "is_hello cmd \<longleftrightarrow> cmd \<in> set [''hello'', ''isMaster'', ''ismaster'']"

text \<open>The kind the command itself gives.\<close>

definition command_kind :: "string \<Rightarrow> string \<Rightarrow> bsonElem list \<Rightarrow> string \<Rightarrow> string" where
  "command_kind cmd ns doc known =
     (if cmd = ''replSetHeartbeat'' then mongoKindHeartbeat
      else if cmd \<in> set [''replSetRequestVotes'', ''replSetStepUp'', ''replSetFreeze'', ''replSetStepDown'', ''replSetAbortPrimaryCatchUp''] then mongoKindElection
      else if cmd = ''replSetUpdatePosition'' then mongoKindReplPos
      else if is_hello cmd then (if known = [] then mongoKindMonitor else [])
      else if cmd \<in> set [''find'', ''getMore'', ''aggregate'', ''count'', ''distinct'', ''listCollections'', ''listIndexes''] then
        (if go_HasPrefix ns ''local.oplog'' then mongoKindOplog
         else if go_HasPrefix ns ''config.'' \<or> ns = ''config'' then mongoKindConfig else [])
      else if cmd \<in> set [''saslStart'', ''saslContinue'', ''authenticate''] then
        (if get_str doc ''user'' = ''__system'' then mongoKindInternal else [])
      else [])"

text \<open>The rules for what is still open, in order.\<close>

definition refine_kind :: "string \<Rightarrow> string \<Rightarrow> bsonElem list \<Rightarrow> string \<Rightarrow> string \<Rightarrow> string" where
  "refine_kind cmd ns doc known k0 =
     (let k1 = (if k0 = [] \<or> k0 = mongoKindClient then
                  (if bsonGet doc ''shardVersion'' \<noteq> None \<or> bsonGet doc ''databaseVersion'' \<noteq> None then mongoKindRouted else k0)
                else k0);
          k2 = (if k1 = [] \<and> (go_HasPrefix ns ''config.'' \<or> go_HasPrefix ns ''admin.system.version'') then mongoKindConfig else k1);
          k3 = (if k2 = [] \<and> \<not> mongoIsChatter cmd then mongoKindClient else k2)
      in if k3 = [] \<and> known = [] then mongoKindMonitor else k3)"

definition choose_kind :: "string \<Rightarrow> string \<Rightarrow> bsonElem list \<Rightarrow> string \<Rightarrow> string" where
  "choose_kind cmd ns doc known =
     (let kind = refine_kind cmd ns doc known (command_kind cmd ns doc known) in
      if mongoKindRank kind \<ge> mongoKindRank known \<and> kind \<noteq> [] then kind else known)"

text \<open>The client metadata of a handshake.\<close>

definition hello_client :: "bsonElem list \<Rightarrow> pktConn \<Rightarrow> pktConn" where
  "hello_client doc c =
     (case bsonGet doc ''client'' of
        None \<Rightarrow> c
      | Some e \<Rightarrow>
          let sub = bsonSub e; mc = c_mongo c;
              mc1 = (case bsonGet sub ''driver'' of
                  Some d \<Rightarrow> mc\<lparr>mc_driver := go_TrimSpace (get_str (bsonSub d) ''name'' @ '' '' @ get_str (bsonSub d) ''version'')\<rparr>
                | None \<Rightarrow> mc);
              mc2 = (case bsonGet sub ''application'' of Some a \<Rightarrow> mc1\<lparr>mc_appName := get_str (bsonSub a) ''name''\<rparr> | None \<Rightarrow> mc1)
          in c\<lparr>c_mongo := mc2, c_user := (if mc_appName mc2 \<noteq> [] then mc_appName mc2 else c_user c)\<rparr>)"

definition command_issue :: "string \<Rightarrow> string" where
  "command_issue cmd =
     (if cmd = ''replSetRequestVotes'' then ''Election in progress '' @ em_dash @ '' replSetRequestVotes: a member is standing for primary. Every write is refused with NotWritablePrimary until one wins, which is what an application sees as a brief outage''
      else if cmd = ''replSetStepDown'' then ''replSetStepDown '' @ em_dash @ '' the primary is being told to stand down; connections to it will start failing with NotWritablePrimary (10107)''
      else if cmd = ''replSetStepUp'' then ''replSetStepUp '' @ em_dash @ '' a member is asking to be made primary immediately, which is how a planned failover starts''
      else if cmd \<in> set [''replSetInitiate'', ''replSetReconfig''] then ''Replica-set configuration change ('' @ cmd @ '') '' @ em_dash @ '' the set'' @ [CHR 0x27] @ ''s membership or settings are being rewritten''
      else if cmd \<in> set [''moveChunk'', ''_configsvrMoveChunk'', ''_shardsvrMoveRange'', ''moveRange''] then
        ''Chunk migration ('' @ cmd @ '') '' @ em_dash @ '' the balancer is moving data between shards; this competes with production traffic and briefly blocks writes on the range''
      else if cmd = ''abortTransaction'' then ''Transaction aborted by the client '' @ em_dash @ '' everything it wrote is discarded''
      else if cmd = ''shutdown'' then ''shutdown command '' @ em_dash @ '' this member is being stopped deliberately; every connection failure after this point is a consequence''
      else [])"

definition pktMongoClassify :: "pktPacket \<Rightarrow> pktConn \<Rightarrow> string \<Rightarrow> string \<Rightarrow> bsonElem list \<Rightarrow> pktPacket \<times> pktConn" where
  "pktMongoClassify p c cmd ns doc =
     (let mc = c_mongo c; kind = choose_kind cmd ns doc (mc_kind mc); mech = get_str doc ''mechanism'';
          mc1 = mc\<lparr>mc_heartbeats := (if cmd = ''replSetHeartbeat'' then mc_heartbeats mc + 1 else mc_heartbeats mc),
                   mc_authMech := (if cmd \<in> set [''saslStart'', ''saslContinue'', ''authenticate''] \<and> mech \<noteq> [] then mech else mc_authMech mc),
                   mc_kind := kind\<rparr>;
          c1 = c\<lparr>c_mongo := mc1, c_Role := kind, c_RoleLabel := mongoKindLabel kind\<rparr>;
          c2 = (if is_hello cmd then hello_client doc c1 else c1);
          u = get_str doc ''user''; db = get_str doc ''$db'';
          c3 = (if u \<noteq> [] \<and> mc_authUser (c_mongo c2) = [] then c2\<lparr>c_mongo := (c_mongo c2)\<lparr>mc_authUser := u\<rparr>, c_user := u\<rparr> else c2);
          c4 = (if db \<noteq> [] \<and> c_database c3 = [] then c3\<lparr>c_database := db\<rparr> else c3);
          iss = command_issue cmd
      in (if iss \<noteq> [] then add_issue iss p else p, c4))"

section \<open>A command\<close>

text \<open>\<^verbatim>\<open>bsonInt\<close> with its second result ignored.\<close>

definition int_of_elem :: "mg_lib \<Rightarrow> bsonElem \<Rightarrow> int" where
  "int_of_elem lib e = (case bsonInt (ml_trunc lib) e of Some v \<Rightarrow> v | None \<Rightarrow> 0)"

text \<open>A part of a detail that is shown for a field that is there and not zero.\<close>

definition nonzero_part :: "mg_lib \<Rightarrow> bsonElem list \<Rightarrow> string \<Rightarrow> (int \<Rightarrow> string) \<Rightarrow> string list" where
  "nonzero_part lib doc key render =
     (case bsonGet doc key of
        Some e \<Rightarrow> if int_of_elem lib e \<noteq> 0 then [render (int_of_elem lib e)] else []
      | None \<Rightarrow> [])"

definition find_detail :: "mg_lib \<Rightarrow> bsonElem list \<Rightarrow> string" where
  "find_detail lib doc =
     go_Join
       ((case bsonGet doc ''filter'' of
           Some e \<Rightarrow> if bsonSub e \<noteq> [] then [''filter '' @ bsonValue lib e 1] else [''no filter (full scan of the collection)'']
         | None \<Rightarrow> [])
        @ (case bsonGet doc ''sort'' of Some e \<Rightarrow> [''sort '' @ bsonValue lib e 1] | None \<Rightarrow> [])
        @ nonzero_part lib doc ''limit'' (\<lambda>v. ''limit '' @ go_Itoa v)
        @ nonzero_part lib doc ''batchSize'' (\<lambda>v. ''batch '' @ go_Itoa v)
        @ nonzero_part lib doc ''tailable'' (\<lambda>v. ''tailable'')) '', ''"

definition pipeline_detail :: "bsonElem \<Rightarrow> string" where
  "pipeline_detail e =
     (let stages = bsonSub e;
          names = concat (map (\<lambda>st. case bsonSub st of [] \<Rightarrow> [] | s # _ \<Rightarrow> [be_Key s]) (take 4 stages))
            @ (if length stages > 4 then [ellipsis @ ''+'' @ go_utoa (length stages - 4)] else [])
      in go_utoa (length stages) @ ''-stage pipeline: '' @ go_Join names ('' '' @ right_arrow @ '' ''))"

definition hello_detail :: "mg_lib \<Rightarrow> bsonElem list \<Rightarrow> string" where
  "hello_detail lib doc =
     go_Join
       ((case bsonGet doc ''client'' of
           None \<Rightarrow> []
         | Some e \<Rightarrow>
             let sub = bsonSub e in
             (case bsonGet sub ''driver'' of
                Some d \<Rightarrow> [''driver '' @ go_TrimSpace (get_str (bsonSub d) ''name'' @ '' '' @ get_str (bsonSub d) ''version'')]
              | None \<Rightarrow> [])
             @ (case bsonGet sub ''application'' of
                  Some a \<Rightarrow> let app = get_str (bsonSub a) ''name'' in if app \<noteq> [] then [''app '' @ app] else []
                | None \<Rightarrow> []))
        @ (if bsonGet doc ''topologyVersion'' \<noteq> None then [''streaming (awaitable)''] else [])
        @ nonzero_part lib doc ''maxAwaitTimeMS'' (\<lambda>v. ''maxAwaitTimeMS '' @ go_Itoa v)) '', ''"

definition counted :: "bsonElem list \<Rightarrow> string \<Rightarrow> nat \<Rightarrow> nat" where
  "counted doc key seqCount =
     (if seqCount = 0 then (case bsonGet doc key of Some e \<Rightarrow> length (bsonSub e) | None \<Rightarrow> 0) else seqCount)"

definition mongoCommandDetail :: "mg_lib \<Rightarrow> string \<Rightarrow> bsonElem list \<Rightarrow> string \<Rightarrow> nat \<Rightarrow> nat \<Rightarrow> string" where
  "mongoCommandDetail lib cmd doc seqName seqCount seqBytes =
     (let other = bsonSummary lib (drop 1 doc) 3;
          or_other = (\<lambda>key f. case bsonGet doc key of Some e \<Rightarrow> f e | None \<Rightarrow> other)
      in
      if cmd = ''find'' then find_detail lib doc
      else if cmd = ''insert'' then
        (if seqCount > 0 then
           go_utoa seqCount @ '' document(s) in a '' @ ml_Quote lib seqName @ '' sequence, '' @ pktBytes seqBytes
         else or_other ''documents'' (\<lambda>e. go_utoa (length (bsonSub e)) @ '' document(s)''))
      else if cmd = ''update'' then go_utoa (counted doc ''updates'' seqCount) @ '' update(s)''
      else if cmd = ''delete'' then go_utoa (counted doc ''deletes'' seqCount) @ '' delete(s)''
      else if cmd = ''aggregate'' then or_other ''pipeline'' pipeline_detail
      else if cmd = ''getMore'' then
        go_Join (nonzero_part lib doc ''getMore'' (\<lambda>v. ''cursor '' @ go_Itoa v)
          @ nonzero_part lib doc ''maxTimeMS'' (\<lambda>v. ''maxTimeMS '' @ go_Itoa v)) '', ''
      else if cmd = ''findAndModify'' then
        go_Join ((case bsonGet doc ''query'' of Some e \<Rightarrow> [''query '' @ bsonValue lib e 1] | None \<Rightarrow> [])
          @ (if bsonGet doc ''remove'' \<noteq> None then [''remove''] else [])
          @ (if bsonGet doc ''update'' \<noteq> None then [''update''] else [])) '', ''
      else if is_hello cmd then hello_detail lib doc
      else if cmd = ''saslStart'' \<or> cmd = ''saslContinue'' then get_str doc ''mechanism''
      else if cmd = ''createIndexes'' then or_other ''indexes'' (\<lambda>e. go_utoa (length (bsonSub e)) @ '' index(es)'')
      else other)"

text \<open>The namespace of a command: two commands name their collection in a field of their own.\<close>

definition command_ns :: "mg_lib \<Rightarrow> pktMongoConn \<Rightarrow> bsonElem list \<Rightarrow> string" where
  "command_ns lib mc doc =
     (let cmd = be_Key (doc ! 0); db = get_str doc ''$db''; coll = bsonStr (doc ! 0);
          ns = (if coll \<noteq> [] then db @ ''.'' @ coll else db)
      in
      if cmd = ''getMore'' then
        (let known = (case bsonGet doc ''getMore'' of
                        Some e \<Rightarrow> (case bsonInt (ml_trunc lib) e of
                            Some i \<Rightarrow> (case mc_cursors mc i of Some s \<Rightarrow> s | None \<Rightarrow> []) | None \<Rightarrow> [])
                      | None \<Rightarrow> []);
             s = get_str doc ''collection''
         in if s \<noteq> [] then db @ ''.'' @ s else if known \<noteq> [] then known else ns)
      else if cmd = ''killCursors'' then
        (let s = get_str doc ''killCursors'' in if s \<noteq> [] then db @ ''.'' @ s else ns)
      else ns)"

definition session_state :: "mg_lib \<Rightarrow> bsonElem list \<Rightarrow> pktMongoConn \<Rightarrow> pktMongoConn" where
  "session_state lib doc mc =
     (let mc1 = (case bsonGet doc ''txnNumber'' of
            Some e \<Rightarrow> (case bsonInt (ml_trunc lib) e of Some v \<Rightarrow> mc\<lparr>mc_txnNumber := v\<rparr> | None \<Rightarrow> mc)
          | None \<Rightarrow> mc)
      in case bsonGet doc ''startTransaction'' of
           Some e \<Rightarrow> if int_of_elem lib e \<noteq> 0 then mc1\<lparr>mc_inTxn := True, mc_txnNoted := False\<rparr> else mc1
         | None \<Rightarrow> mc1)"

definition shard_note :: "mg_lib \<Rightarrow> bsonElem list \<Rightarrow> string" where
  "shard_note lib doc =
     (case bsonGet doc ''shardVersion'' of
        None \<Rightarrow> []
      | Some e \<Rightarrow>
          (case bsonPath (bsonSub e) [''t''] of
             Some v \<Rightarrow> '' [shardVersion '' @ bsonValue lib v 0 @ '']''
           | None \<Rightarrow> '' [shardVersion present]''))"

definition pktMongoCommand :: "mg_lib \<Rightarrow> pktPacket \<Rightarrow> pktConn \<Rightarrow> mongoHeader \<Rightarrow> bsonElem list \<Rightarrow> string \<Rightarrow> nat \<Rightarrow> nat \<Rightarrow> int \<Rightarrow>
    string \<times> pktPacket \<times> pktConn" where
  "pktMongoCommand lib p c h doc seqName seqCount seqBytes ts =
     (let cmd = be_Key (doc ! 0); ns = command_ns lib (c_mongo c) doc;
          c1 = c\<lparr>c_Queries := (if mongoIsChatter cmd then c_Queries c else c_Queries c + 1),
                 c_mongo := (c_mongo c)\<lparr>mc_opsSeen := mc_opsSeen (c_mongo c) + 1\<rparr>\<rparr>
      in case pktMongoClassify p c1 cmd ns doc of
           (p1, c2) \<Rightarrow>
             let mc = session_state lib doc (c_mongo c2);
                 mc1 = mc\<lparr>mc_pending := (mc_pending mc)(mh_RequestID h \<mapsto> \<lparr>mp_command = cmd, mp_ns = ns, mp_ts = ts\<rparr>)\<rparr>;
                 detail = mongoCommandDetail lib cmd doc seqName seqCount seqBytes;
                 begins = (mc_inTxn mc1 \<and> \<not> mc_txnNoted mc1)
             in (cmd @ (if ns \<noteq> [] then '' '' @ ns else [])
                   @ (if detail \<noteq> [] then '' '' @ em_dash @ '' '' @ detail else []) @ shard_note lib doc
                   @ (if begins then '' [transaction '' @ go_Itoa (mc_txnNumber mc1) @ '' begins]'' else []),
                 p1\<lparr>p_Command := cmd, p_Query := ns\<rparr>,
                 c2\<lparr>c_mongo := (if begins then mc1\<lparr>mc_txnNoted := True\<rparr> else mc1)\<rparr>))"

section \<open>A reply\<close>

definition hello_primary :: "mg_lib \<Rightarrow> bsonElem \<Rightarrow> string" where
  "hello_primary lib e = (if int_of_elem lib e \<noteq> 0 then ''PRIMARY'' else ''not primary'')"

definition mongoHelloSummary :: "mg_lib \<Rightarrow> bsonElem list \<Rightarrow> string" where
  "mongoHelloSummary lib doc =
     go_Join
       ((case bsonGet doc ''isWritablePrimary'' of
           Some e \<Rightarrow> [hello_primary lib e]
         | None \<Rightarrow> (case bsonGet doc ''ismaster'' of Some e \<Rightarrow> [hello_primary lib e] | None \<Rightarrow> []))
        @ nonzero_part lib doc ''secondary'' (\<lambda>v. ''secondary'')
        @ (if get_str doc ''setName'' \<noteq> [] then [''set '' @ get_str doc ''setName''] else [])
        @ (if get_str doc ''primary'' \<noteq> [] then [''primary is '' @ get_str doc ''primary''] else [])
        @ (if get_str doc ''msg'' = ''isdbgrid'' then [''this is a mongos router''] else [])
        @ nonzero_part lib doc ''arbiterOnly'' (\<lambda>v. ''arbiter'')) '', ''"

definition take_request :: "int \<Rightarrow> int \<Rightarrow> pktPacket \<Rightarrow> pktConn \<Rightarrow> mongoPending option \<times> int \<times> pktPacket \<times> pktConn" where
  "take_request responseTo ts p c =
     (let mc = c_mongo c; req = mc_pending mc responseTo;
          lag = (case req of Some r \<Rightarrow> if mp_ts r \<noteq> zero_time then go_Sub ts (mp_ts r) else 0 | None \<Rightarrow> 0);
          timed = (case req of Some r \<Rightarrow> mp_ts r \<noteq> zero_time | None \<Rightarrow> False)
      in (req, lag, if timed then p\<lparr>p_LagNS := lag\<rparr> else p,
          c\<lparr>c_mongo := mc\<lparr>mc_pending := (mc_pending mc)(responseTo := None)\<rparr>\<rparr>))"

definition reqName :: "mongoPending option \<Rightarrow> string" where
  "reqName req = (case req of Some r \<Rightarrow> mp_command r | None \<Rightarrow> ''reply'')"

definition failed_reply :: "mg_lib \<Rightarrow> pktPacket \<Rightarrow> pktConn \<Rightarrow> bsonElem list \<Rightarrow> mongoPending option \<Rightarrow> string \<times> pktPacket \<times> pktConn" where
  "failed_reply lib p c doc req =
     (let errmsg = get_str doc ''errmsg''; code = int_of_elem lib (mustGet doc ''code'');
          hasCode = (bsonInt (ml_trunc lib) (mustGet doc ''code'') \<noteq> None);
          codeName = get_str doc ''codeName'';
          name = (if codeName = [] \<and> hasCode then mongoCodeName code else codeName);
          p1 = p\<lparr>p_ErrCode := code, p_Status := ''Error '' @ go_Itoa code @ '' ('' @ name @ ''): '' @ pktEllipsis errmsg 110\<rparr>;
          iss = mongoErrIssue code name errmsg (mc_kind (c_mongo c));
          out = ''error '' @ go_Itoa code @ '' '' @ name @ '': '' @ pktEllipsis errmsg 130
      in (case req of Some r \<Rightarrow> mp_command r @ '' '' @ right_arrow @ '' '' @ out | None \<Rightarrow> out,
          if iss \<noteq> [] then add_issue iss p1 else p1, c\<lparr>c_Errors := c_Errors c + 1\<rparr>))"

definition write_errors :: "mg_lib \<Rightarrow> pktPacket \<Rightarrow> pktConn \<Rightarrow> bsonElem list \<Rightarrow> mongoPending option \<Rightarrow> (string \<times> pktPacket \<times> pktConn) option" where
  "write_errors lib p c doc req =
     (case bsonGet doc ''writeErrors'' of
        None \<Rightarrow> None
      | Some e \<Rightarrow>
          (case bsonSub e of
             [] \<Rightarrow> None
           | e1 # errs \<Rightarrow>
               let wcode = int_of_elem lib (mustGet (bsonSub e1) ''code''); wmsg = get_str (bsonSub e1) ''errmsg'';
                   p1 = p\<lparr>p_ErrCode := wcode, p_Status := ''Write error '' @ go_Itoa wcode @ '': '' @ pktEllipsis wmsg 110\<rparr>;
                   iss = mongoErrIssue wcode (mongoCodeName wcode) wmsg (mc_kind (c_mongo c))
               in Some (reqName req @ '' '' @ right_arrow @ '' '' @ go_utoa (Suc (length errs)) @ '' write error(s), first '' @ go_Itoa wcode
                    @ '' '' @ mongoCodeName wcode @ '': '' @ pktEllipsis wmsg 90,
                    if iss \<noteq> [] then add_issue iss p1 else p1, c\<lparr>c_Errors := c_Errors c + 1\<rparr>)))"

definition concern_error :: "mg_lib \<Rightarrow> pktPacket \<Rightarrow> bsonElem list \<Rightarrow> mongoPending option \<Rightarrow> (string \<times> pktPacket) option" where
  "concern_error lib p doc req =
     (case bsonGet doc ''writeConcernError'' of
        None \<Rightarrow> None
      | Some e \<Rightarrow>
          let wcode = int_of_elem lib (mustGet (bsonSub e) ''code''); wmsg = get_str (bsonSub e) ''errmsg''
          in Some (reqName req @ '' '' @ right_arrow @ '' ok, but write concern failed: '' @ pktEllipsis wmsg 90,
               add_issue (''Write concern not satisfied ('' @ go_Itoa wcode @ '' '' @ mongoCodeName wcode @ ''): '' @ pktEllipsis wmsg 90
                 @ '' '' @ em_dash @ '' the write was applied on this member but not acknowledged by enough of the replica set, so it may still be rolled back if this primary steps down'') p))"

definition cursor_reply :: "mg_lib \<Rightarrow> pktPacket \<Rightarrow> pktMongoConn \<Rightarrow> bsonElem list \<Rightarrow> string list \<times> pktPacket \<times> pktMongoConn" where
  "cursor_reply lib p mc doc =
     (case bsonGet doc ''cursor'' of
        None \<Rightarrow> ([], p, mc)
      | Some e \<Rightarrow>
          let cur = bsonSub e; i = int_of_elem lib (mustGet cur ''id''); ns = get_str cur ''ns'';
              batchKey = (if bsonGet cur ''nextBatch'' \<noteq> None then ''nextBatch'' else ''firstBatch'');
              n = length (bsonSub (mustGet cur batchKey))
          in ([go_utoa n @ '' doc(s) in '' @ batchKey
                 @ (if i \<noteq> 0 then '', cursor '' @ go_Itoa i @ '' stays open'' else '', cursor exhausted'')],
              p\<lparr>p_Rows := int n\<rparr>,
              if i \<noteq> 0 \<and> ns \<noteq> [] then mc\<lparr>mc_cursors := (mc_cursors mc)(i \<mapsto> ns)\<rparr> else mc))"

definition count_keys :: "string list" where
  "count_keys = [''n'', ''nModified'', ''nUpserted'', ''nMatched'', ''nRemoved'', ''nInserted'']"

definition count_parts :: "mg_lib \<Rightarrow> bsonElem list \<Rightarrow> string list" where
  "count_parts lib doc =
     concat (map (\<lambda>k. case bsonGet doc k of
         Some e \<Rightarrow> (case bsonInt (ml_trunc lib) e of Some v \<Rightarrow> [k @ ''='' @ go_Itoa v] | None \<Rightarrow> [])
       | None \<Rightarrow> []) count_keys)"

definition count_rows :: "mg_lib \<Rightarrow> bsonElem list \<Rightarrow> pktPacket \<Rightarrow> pktPacket" where
  "count_rows lib doc p =
     (case bsonGet doc ''n'' of
        Some e \<Rightarrow> (case bsonInt (ml_trunc lib) e of Some v \<Rightarrow> p\<lparr>p_Rows := v\<rparr> | None \<Rightarrow> p)
      | None \<Rightarrow> p)"

definition mongoSlowMS :: int where "mongoSlowMS = 100"
definition mongoBigResultBytes :: nat where "mongoBigResultBytes = push_bit 20 1"

definition ok_reply :: "mg_lib \<Rightarrow> pktPacket \<Rightarrow> pktConn \<Rightarrow> bsonElem list \<Rightarrow> nat \<Rightarrow> mongoPending option \<Rightarrow> int \<Rightarrow> string \<times> pktPacket \<times> pktConn" where
  "ok_reply lib p c doc sz req lag =
     (case cursor_reply lib (p\<lparr>p_Status := ''Success''\<rparr>) (c_mongo c) doc of
        (cursor, p1, mc) \<Rightarrow>
          let hello = mongoHelloSummary lib doc;
              parts1 = cursor @ count_parts lib doc @ (if hello \<noteq> [] then [hello] else []);
              rest = bsonSummary lib doc 3;
              parts = (if parts1 = [] then (if rest \<noteq> [] then [rest] else []) else parts1);
              p2 = count_rows lib doc p1;
              p3 = (if sz \<ge> mongoBigResultBytes then
                      add_issue (''Heavy reply '' @ em_dash @ '' '' @ pktBytes sz @ '' in one message; the driver waits for all of it and the server holds it in memory while writing it'') p2
                    else p2);
              p4 = (case req of
                  Some r \<Rightarrow>
                    if lag \<ge> mongoSlowMS * 10 ^ 6 \<and> \<not> mongoAwaitable (mp_command r) then
                      add_issue (''Slow response '' @ em_dash @ '' '' @ ml_ms0 lib lag @ '' ms from the '' @ mp_command r @ '' request to its reply'') p3
                    else p3
                | None \<Rightarrow> p3)
          in (reqName req @ '' '' @ right_arrow @ '' '' @ go_Join parts '', '' @ (if lag > 0 then '' ('' @ ml_ms1 lib lag @ '' ms)'' else []),
              p4, c\<lparr>c_mongo := mc\<rparr>))"

definition pktMongoResponse :: "mg_lib \<Rightarrow> pktPacket \<Rightarrow> pktConn \<Rightarrow> mongoHeader \<Rightarrow> bsonElem list \<Rightarrow> nat \<Rightarrow> int \<Rightarrow> string \<times> pktPacket \<times> pktConn" where
  "pktMongoResponse lib p c h doc sz ts =
     (case take_request (mh_ResponseTo h) ts p c of
        (req, lag, p1, c1) \<Rightarrow>
          if bsonInt (ml_trunc lib) (mustGet doc ''ok'') = Some 0 \<or> get_str doc ''errmsg'' \<noteq> [] then failed_reply lib p1 c1 doc req
          else case write_errors lib p1 c1 doc req of
            Some r \<Rightarrow> r
          | None \<Rightarrow>
              (case concern_error lib p1 doc req of
                 Some (s, p2) \<Rightarrow> (s, p2, c1)
               | None \<Rightarrow> ok_reply lib p1 c1 doc sz req lag))"

section \<open>The messages\<close>

function count_docs :: "bytes \<Rightarrow> nat" where
  "count_docs docs =
     (if length docs < 4 then 0
      else let dn = le_i32 docs in
        if dn < 5 \<or> dn > int (length docs) then 0 else Suc (count_docs (drop (nat dn) docs)))"
  by pat_completeness auto
termination
  by (relation "measure length") auto

declare count_docs.simps [simp del]

record mongo_sections =
  ms_cmd :: "bsonElem list"
  ms_seqName :: string
  ms_seqCount :: nat
  ms_seqBytes :: nat

definition add_sequence :: "bytes \<Rightarrow> mongo_sections \<Rightarrow> mongo_sections" where
  "add_sequence seg s =
     (case bsonCString seg of
        Some (name, docs) \<Rightarrow> s\<lparr>ms_seqName := name, ms_seqBytes := length seg, ms_seqCount := ms_seqCount s + count_docs docs\<rparr>
      | None \<Rightarrow> s\<lparr>ms_seqName := [], ms_seqBytes := length seg\<rparr>)"

function msg_sections :: "bytes \<Rightarrow> mongo_sections \<Rightarrow> mongo_sections" where
  "msg_sections rest0 s =
     (case rest0 of
        [] \<Rightarrow> s
      | kind # rest \<Rightarrow>
          if kind = 0 then
            (if \<not> bsonDocOK rest then s\<lparr>ms_cmd := fst (bsonElems rest)\<rparr>
             else let n = nat (le_i32 rest) in msg_sections (drop n rest) (s\<lparr>ms_cmd := fst (bsonElems (take n rest))\<rparr>))
          else if kind = 1 then
            (if length rest < 5 then s
             else let n = le_i32 rest in
               if n < 5 \<or> n > int (length rest) then s
               else msg_sections (drop (nat n) rest) (add_sequence (slice 4 (nat n) rest) s))
          else s)"
  by pat_completeness auto
termination
  by (relation "measure (\<lambda>(rest, s). length rest)") auto

declare msg_sections.simps [simp del]

definition pktMongoMsg :: "mg_lib \<Rightarrow> pktPacket \<Rightarrow> pktConn \<Rightarrow> mongoHeader \<Rightarrow> bytes \<Rightarrow> int \<Rightarrow> string \<times> pktPacket \<times> pktConn" where
  "pktMongoMsg lib p c h body ts =
     (if length body < 4 then (''OP_MSG (truncated)'', p, c)
      else
        let rest0 = drop 4 body;
            rest = (if le_u32 body AND 1 \<noteq> 0 \<and> length rest0 \<ge> 4 then take (length rest0 - 4) rest0 else rest0);
            s = msg_sections rest \<lparr>ms_cmd = [], ms_seqName = [], ms_seqCount = 0, ms_seqBytes = 0\<rparr>
        in if ms_cmd s = [] then (''OP_MSG, '' @ go_utoa (length body) @ '' bytes (no readable command document)'', p, c)
           else if mh_ResponseTo h = 0 then pktMongoCommand lib p c h (ms_cmd s) (ms_seqName s) (ms_seqCount s) (ms_seqBytes s) ts
           else pktMongoResponse lib p c h (ms_cmd s) (length body) ts)"

definition pktMongoQuery :: "mg_lib \<Rightarrow> pktPacket \<Rightarrow> pktConn \<Rightarrow> mongoHeader \<Rightarrow> bytes \<Rightarrow> int \<Rightarrow> string \<times> pktPacket \<times> pktConn" where
  "pktMongoQuery lib p c h body ts =
     (if length body < 4 then (''OP_QUERY (truncated)'', p, c)
      else case bsonCString (drop 4 body) of
        None \<Rightarrow> (''OP_QUERY (truncated namespace)'', p, c)
      | Some (ns, rest) \<Rightarrow>
          if length rest < 8 then (''OP_QUERY (truncated namespace)'', p, c)
          else
            let doc = fst (bsonElems (drop 8 rest)); cmd = (case doc of [] \<Rightarrow> ns | e # _ \<Rightarrow> be_Key e); mc = c_mongo c;
                c1 = c\<lparr>c_mongo := mc\<lparr>mc_pending := (mc_pending mc)(mh_RequestID h \<mapsto> \<lparr>mp_command = cmd, mp_ns = ns, mp_ts = ts\<rparr>),
                         mc_opsSeen := mc_opsSeen mc + 1\<rparr>\<rparr>;
                detail = mongoCommandDetail lib cmd doc [] 0 0
            in case pktMongoClassify p c1 cmd ns doc of
                 (p1, c2) \<Rightarrow>
                   let p2 = p1\<lparr>p_Command := cmd, p_Query := ns\<rparr> in
                   (''OP_QUERY '' @ ns
                      @ (if doc = [] then []
                         else if detail \<noteq> [] then '' '' @ em_dash @ '' '' @ cmd @ '': '' @ detail
                         else '' '' @ em_dash @ '' '' @ cmd),
                    if \<not> suffix ''.$cmd'' ns then
                      add_issue (''OP_QUERY used for a query rather than a handshake '' @ em_dash @ '' the legacy read path, removed in MongoDB 5.1'') p2
                    else p2,
                    c2))"

definition reply_error :: "mg_lib \<Rightarrow> bsonElem list \<Rightarrow> string \<Rightarrow> pktPacket \<Rightarrow> pktConn \<Rightarrow> string \<times> pktPacket \<times> pktConn" where
  "reply_error lib doc out p c =
     (if bsonInt (ml_trunc lib) (mustGet doc ''ok'') = Some 0 then
        let code = int_of_elem lib (mustGet doc ''code''); errmsg = get_str doc ''errmsg'';
            p1 = p\<lparr>p_ErrCode := code, p_Status := ''Error '' @ go_Itoa code @ '': '' @ pktEllipsis errmsg 110\<rparr>;
            iss = mongoErrIssue code (mongoCodeName code) errmsg (mc_kind (c_mongo c))
        in (out @ '' '' @ em_dash @ '' error '' @ go_Itoa code @ '': '' @ pktEllipsis errmsg 100,
            if iss \<noteq> [] then add_issue iss p1 else p1, c\<lparr>c_Errors := c_Errors c + 1\<rparr>)
      else (out, p, c))"

definition pktMongoReply :: "mg_lib \<Rightarrow> pktPacket \<Rightarrow> pktConn \<Rightarrow> mongoHeader \<Rightarrow> bytes \<Rightarrow> int \<Rightarrow> string \<times> pktPacket \<times> pktConn" where
  "pktMongoReply lib p c h body ts =
     (if length body < 20 then (''OP_REPLY (truncated)'', p, c)
      else
        let cursorID = sint (le_u64 (drop 4 body)); n = le_i32 (drop 16 body); doc = fst (bsonElems (drop 20 body)) in
        case take_request (mh_ResponseTo h) ts p c of
          (req, lag, p1, c1) \<Rightarrow>
            let hello = mongoHelloSummary lib doc;
                out = (case req of Some r \<Rightarrow> mp_command r @ '' '' @ right_arrow @ '' '' | None \<Rightarrow> [])
                  @ ''OP_REPLY '' @ go_Itoa n @ '' doc(s)''
                  @ (if cursorID \<noteq> 0 then '', cursor '' @ go_Itoa cursorID else [])
                  @ (if hello \<noteq> [] then '' '' @ em_dash @ '' '' @ hello else [])
            in (case reply_error lib doc out (p1\<lparr>p_Rows := n\<rparr>) c1 of
                  (s, p2, c2) \<Rightarrow> (s @ (if lag > 0 then '' ('' @ ml_ms1 lib lag @ '' ms)'' else []), p2, c2)))"

section \<open>Compression\<close>

definition mongoCompressorName :: "byte \<Rightarrow> string" where
  "mongoCompressorName i =
     (if i = 0 then ''noop'' else if i = 1 then ''snappy'' else if i = 2 then ''zlib'' else if i = 3 then ''zstd''
      else ''compressor '' @ go_utoa (unat i))"

definition mongoInflate :: "mg_lib \<Rightarrow> bytes \<Rightarrow> int \<Rightarrow> bytes option" where
  "mongoInflate lib data sz = (if sz < 0 \<or> sz > mongoMaxMsg then None else ml_inflate lib data (nat sz))"

definition mongo_plain :: "mg_lib \<Rightarrow> byte \<Rightarrow> bytes \<Rightarrow> int \<Rightarrow> bytes option" where
  "mongo_plain lib cid data sz =
     (if cid = 0 then (if sz \<ge> 0 \<and> sz \<le> int (length data) then Some (take (nat sz) data) else None)
      else if cid = 1 then (case snappyDecode data sz of Inr out \<Rightarrow> Some out | Inl _ \<Rightarrow> None)
      else if cid = 2 then mongoInflate lib data sz
      else None)"

definition bytes_int :: "int \<Rightarrow> string" where
  "bytes_int n = (if n < 0 then go_Itoa n @ '' B'' else pktBytes (nat n))"

type_synonym message_fun = "pktPacket \<Rightarrow> pktConn \<Rightarrow> mongoHeader \<Rightarrow> bytes \<Rightarrow> int \<Rightarrow> (string \<times> pktPacket \<times> pktConn) option"

text \<open>\<open>message\<close> is the decoder of the message inside, which the code reaches by recursion.\<close>

definition pktMongoCompressed :: "message_fun \<Rightarrow> mg_lib \<Rightarrow> message_fun" where
  "pktMongoCompressed message lib p c h body ts =
     (if length body < 9 then Some (''OP_COMPRESSED (truncated)'', p, c)
      else
        let inner = le_i32 body; sz = le_i32 (drop 4 body); cid = body ! 8; data = drop 9 body; name = mongoCompressorName cid;
            c1 = c\<lparr>c_mongo := (c_mongo c)\<lparr>mc_compressor := name\<rparr>\<rparr>
        in case mongo_plain lib cid data sz of
             Some plain \<Rightarrow>
               map_option (\<lambda>(s, r). (''['' @ name @ ''] '' @ s, r))
                 (message p c1 (h\<lparr>mh_Length := int mongoHeaderLen + int (length plain), mh_OpCode := inner\<rparr>) plain ts)
           | None \<Rightarrow>
               Some (mongoOpName inner @ '' compressed with '' @ name @ '', '' @ pktBytes (length data) @ '' on the wire '' @ right_arrow @ '' ''
                   @ bytes_int sz @ '' uncompressed (not decoded)'',
                 p\<lparr>p_Status := ''Compressed''\<rparr>, c1))"

primrec pktMongoMessage :: "nat \<Rightarrow> mg_lib \<Rightarrow> message_fun" where
  "pktMongoMessage 0 lib = (\<lambda>p c h body ts. None)"
| "pktMongoMessage (Suc k) lib = (\<lambda>p c h body ts.
     let op = mh_OpCode h in
     if op = mongoOpCompressed then pktMongoCompressed (pktMongoMessage k lib) lib p c h body ts
     else if op = mongoOpMsg then Some (pktMongoMsg lib p c h body ts)
     else if op = mongoOpQuery then Some (pktMongoQuery lib p c h body ts)
     else if op = mongoOpReply then Some (pktMongoReply lib p c h body ts)
     else if op \<in> {mongoOpGetMore, mongoOpKillCursors, mongoOpInsert, mongoOpUpdate, mongoOpDelete} then
       Some (mongoOpName op @ '' (legacy), '' @ go_utoa (length body) @ '' bytes'',
         add_issue (mongoOpName op @ '' '' @ em_dash @ '' a legacy opcode removed in MongoDB 5.1; a driver still sending these will fail against any current server'')
           (p\<lparr>p_Command := mongoOpName op\<rparr>), c)
     else Some (mongoOpName op @ '', '' @ go_utoa (length body) @ '' bytes'', p, c))"

section \<open>One frame\<close>

type_synonym mg_state = "pktPacket \<times> pktConn \<times> pktMongoDir \<times> bytes \<times> string list \<times> nat"

function mongo_frame :: "nat \<Rightarrow> mg_lib \<Rightarrow> int \<Rightarrow> pktPacket \<Rightarrow> pktConn \<Rightarrow> pktMongoDir \<Rightarrow> bytes \<Rightarrow> string list \<Rightarrow> nat \<Rightarrow> mg_state option" where
  "mongo_frame k lib ts p c md buf infos msgs =
     (case pktNextMongo (c_synced c) md buf of
        (None, md1, buf1) \<Rightarrow> Some (p, c, md1, buf1, infos, msgs)
      | (Some (h, body), md1, buf1) \<Rightarrow>
          (case pktMongoMessage k lib p (c\<lparr>c_mongo := (c_mongo c)\<lparr>mc_sawMsg := True\<rparr>\<rparr>) h body ts of
             None \<Rightarrow> None
           | Some (info, p1, c1) \<Rightarrow>
               mongo_frame k lib ts p1 c1 md1 buf1 (if info \<noteq> [] then infos @ [info] else infos) (msgs + 1)))"
  by pat_completeness auto
termination
  by (relation "measure (\<lambda>(k, lib, ts, p, c, md, buf, infos, msgs). length buf)") (auto dest: pktNextMongo_shorter)

declare mongo_frame.simps [simp del]

definition mongo_summary :: "pktPacket \<Rightarrow> pktConn \<Rightarrow> pktMongoDir \<Rightarrow> bytes \<Rightarrow> string list \<Rightarrow> nat \<Rightarrow> bytes \<Rightarrow> pktPacket" where
  "mongo_summary p c md buf infos msgs payload =
     (let p1 = (if msgs > 0 then p\<lparr>p_Proto := mongoKindLabel (mc_kind (c_mongo c))\<rparr> else p) in
      if infos \<noteq> [] then
        p1\<lparr>p_Info := (if length infos > 3 then go_Join (take 3 infos) '' | '' @ '' | +'' @ go_utoa (length infos - 3) @ '' more''
            else go_Join infos '' | '')\<rparr>
      else if msgs > 0 then p1\<lparr>p_Info := ''MongoDB data, '' @ go_utoa (length payload) @ '' bytes in '' @ go_utoa msgs @ '' message(s)''\<rparr>
      else if \<not> md_aligned md \<and> \<not> c_synced c then
        p1\<lparr>p_Proto := ''MongoDB'', p_Status := ''Unknown'',
           p_Info := ''[capture joined mid-connection] '' @ go_utoa (length payload) @ '' bytes, waiting for a message boundary''\<rparr>
      else if md_desynced md then
        p1\<lparr>p_Proto := ''MongoDB'', p_Info := ''[framing lost] '' @ go_utoa (length payload) @ '' bytes, hunting for the next message header''\<rparr>
      else if buf \<noteq> [] then
        p1\<lparr>p_Proto := ''MongoDB'', p_Info := ''[continuation] '' @ go_utoa (length payload) @ '' bytes, '' @ go_utoa (length buf) @ '' buffered''\<rparr>
      else p1)"

definition mongo_tls :: "pktPacket \<Rightarrow> pktConn \<Rightarrow> bytes \<Rightarrow> pktPacket \<times> pktConn" where
  "mongo_tls p c payload =
     (let info = pktTLSInfo payload (c_tlsSealed c);
          p1 = p\<lparr>p_Proto := ''TLS'', p_Info := info, p_Status := ''Encrypted''\<rparr>
      in (if go_Contains info ''Alert'' then
            add_issue (''TLS alert '' @ em_dash @ '' handshake or session rejected; the driver reports an SSL error and the connection ends'') p1
          else p1,
          if \<not> c_tlsSealed c \<and> pktTLSSeals payload then c\<lparr>c_tlsSealed := True\<rparr> else c))"

definition pktMongoDecode :: "nat \<Rightarrow> mg_lib \<Rightarrow> pktPacket \<Rightarrow> pktConn \<Rightarrow> bool \<Rightarrow> bytes \<Rightarrow> int \<Rightarrow> (pktPacket \<times> pktConn) option" where
  "pktMongoDecode k lib p c fromClient payload ts =
     (if c_tls c then Some (mongo_tls p c payload)
      else if \<not> mc_sawMsg (c_mongo c) \<and> pktLooksTLS payload then
        Some (p\<lparr>p_Proto := ''TLS'', p_Status := ''Encrypted'', p_Info := pktTLSInfo payload False\<rparr>,
          c\<lparr>c_tls := True, c_tlsSealed := pktTLSSeals payload\<rparr>)
      else
        let d = dir_of fromClient c in
        map_option (\<lambda>(p1, c1, md, buf, infos, msgs).
            (mongo_summary p1 c1 md buf infos msgs payload,
             set_dir fromClient ((dir_of fromClient c1)\<lparr>ds_mongo := md, ds_buf := buf\<rparr>) c1))
          (mongo_frame k lib ts p c (ds_mongo d) (ds_buf d @ payload) [] 0))"

end
