(* ===== verification/Mongo_Order.thy ===== *)
theory Mongo_Order
  imports Mongo
begin

text \<open>
  What the MongoDB decoder does over a connection (\<^verbatim>\<open>src/app/pktmongo.go\<close>): replies are matched with requests by
  their id, and a compressed message that decompresses to itself is never decoded.
\<close>

section \<open>A message that holds itself\<close>

text \<open>
  The body of a compressed message whose Snappy data decompress to that very body, header fields included: the
  original op code is that of a compressed message again.
\<close>

definition mongo_quine :: bytes where
  "mongo_quine = [
     0xdc, 0x07, 0x00, 0x00, 0x58, 0x00, 0x00, 0x00, 0x01,
     0x58, 0x28, 0xdc, 0x07, 0x00, 0x00, 0x58, 0x00, 0x00, 0x00, 0x01, 0x58, 0x28, 0x5c,
     0xdc, 0x07, 0x00, 0x00, 0x58, 0x00, 0x00, 0x00, 0x01, 0x58, 0x28, 0x5c,
     0xdc, 0x07, 0x00, 0x00, 0x58, 0x00, 0x00, 0x00, 0x01, 0x58, 0x28, 0x5c,
     0x2a, 0x18, 0x00, 0x00, 0x5c, 0x04, 0x2a, 0x18, 0x00, 0x00, 0x68, 0x00, 0x5c, 0x04,
     0x2a, 0x18, 0x00, 0x00, 0x68, 0x00, 0x5c, 0x04, 0x2a, 0x18, 0x00, 0x00, 0x68, 0x00,
     0x5c, 0x04, 0x2a, 0x18, 0x00, 0x00, 0x68, 0x00, 0x5c, 0x04, 0x2a, 0x18, 0x00]"

lemma quine_length: "snappyLength (drop 9 mongo_quine) = Inr (88, 1)"
  by code_simp

lemma quine_loop: "snappyDecode_loop 88 (drop 1 (drop 9 mongo_quine)) [] = Inr mongo_quine"
  by code_simp

lemma quine_plain: "mongo_plain lib 1 (drop 9 mongo_quine) 88 = Some mongo_quine"
  using quine_loop by (simp add: mongo_plain_def snappyDecode_def quine_length)

lemma quine_fields: "le_i32 mongo_quine = 2012" "le_i32 (drop 4 mongo_quine) = 88" "mongo_quine ! 8 = 1" "length mongo_quine = 88"
  by code_simp+

lemma quine_message:
  "mh_OpCode h = 2012 \<Longrightarrow> pktMongoMessage k lib p c h mongo_quine ts = None"
proof (induction k arbitrary: c h)
  case (Suc k)
  then show ?case
    by (simp add: mongoOpCompressed_def pktMongoCompressed_def quine_fields quine_plain)
qed simp

definition quine_frame :: bytes where
  "quine_frame = [0x68, 0, 0, 0, 1, 0, 0, 0, 0, 0, 0, 0, 0xdc, 0x07, 0, 0] @ mongo_quine"

lemma quine_header:
  "mongo_header quine_frame = \<lparr>mh_Length = 104, mh_RequestID = 1, mh_ResponseTo = 0, mh_OpCode = 2012\<rparr>"
  by code_simp

lemma quine_next:
  "pktNextMongo True md quine_frame =
     (Some (\<lparr>mh_Length = 104, mh_RequestID = 1, mh_ResponseTo = 0, mh_OpCode = 2012\<rparr>, mongo_quine), md\<lparr>md_aligned := True, md_waiting := 0\<rparr>, [])"
proof -
  have l: "length quine_frame = 104" by (simp add: quine_frame_def quine_fields)
  then have ok: "mongo_msg_ok quine_frame"
    using quine_header by (simp add: mongo_msg_ok_def mongoHeaderLen_def bad_header_def mongoMaxMsg_def push_bit_eq_mult
        mongoKnownOp_def mongo_op_defs mongo_header_def)
  have "drop mongoHeaderLen quine_frame = mongo_quine" by (simp add: quine_frame_def mongoHeaderLen_def)
  then show ?thesis
    using mongo_loop_message [OF ok, of "md\<lparr>md_aligned := True\<rparr>" "[]"] by (simp add: pktNextMongo_def mongo_msg_def quine_header)
qed

text \<open>
  A message that is not compressed is decoded in one step; compression adds one step for each layer, and the
  decoder does not count them.
\<close>

lemma pktMongoMessage_plain: "mh_OpCode h \<noteq> mongoOpCompressed \<Longrightarrow> pktMongoMessage (Suc k) lib p c h body ts \<noteq> None"
  by (simp add: Let_def del: not_None_eq)

lemma pktMongoMessage_layer:
  assumes "mh_OpCode h = mongoOpCompressed"
    "\<And>plain. mongo_plain lib (body ! 8) (drop 9 body) (le_i32 (drop 4 body)) = Some plain \<Longrightarrow>
       \<forall>c. pktMongoMessage k lib p c (h\<lparr>mh_Length := int mongoHeaderLen + int (length plain), mh_OpCode := le_i32 body\<rparr>) plain ts \<noteq> None"
  shows "pktMongoMessage (Suc k) lib p c h body ts \<noteq> None"
  using assms by (auto simp: pktMongoCompressed_def Let_def simp del: not_None_eq split: option.split)

text \<open>
  C12. There is a frame of 104 bytes that the decoder never finishes: a compressed message whose content is, once
  decompressed, the same compressed message. However many layers are followed, another one is left; the
  code follows them by recursion without a limit, until its stack is exhausted.
\<close>

theorem mongo_compressed_never_returns:
  "pktMongoDecode layers lib p (new_conn\<lparr>c_synced := True\<rparr>) fromClient quine_frame ts = None"
proof -
  have "\<not> pktLooksTLS quine_frame" by (simp add: pktLooksTLS_def quine_frame_def)
  moreover have "mongo_frame layers lib ts p (new_conn\<lparr>c_synced := True\<rparr>) md quine_frame [] 0 = None" for md
    by (simp add: mongo_frame.simps [of layers lib ts p "new_conn\<lparr>c_synced := True\<rparr>"] quine_next quine_message)
  ultimately show ?thesis
    by (simp add: pktMongoDecode_def new_conn_def new_dir_def new_mongoconn_def dir_of_def)
qed

section \<open>Replies are matched by id\<close>

text \<open>What happens on a connection, message by message.\<close>

datatype mongo_event =
    Request mongoHeader "bsonElem list" string nat nat int
  | Response mongoHeader "bsonElem list" nat int

fun mongo_handle :: "mg_lib \<Rightarrow> pktPacket \<Rightarrow> mongo_event \<Rightarrow> pktConn \<Rightarrow> string \<times> pktPacket \<times> pktConn" where
  "mongo_handle lib p (Request h doc seqName seqCount seqBytes ts) c = pktMongoCommand lib p c h doc seqName seqCount seqBytes ts"
| "mongo_handle lib p (Response h doc sz ts) c = pktMongoResponse lib p c h doc sz ts"

fun mongo_run :: "mg_lib \<Rightarrow> pktPacket \<Rightarrow> mongo_event list \<Rightarrow> pktConn \<Rightarrow> pktConn" where
  "mongo_run lib p [] c = c"
| "mongo_run lib p (e # es) c = mongo_run lib p es (snd (snd (mongo_handle lib p e c)))"

text \<open>The specification: outstanding requests by id, with the command and the time of each.\<close>

fun spec_step :: "mongo_event \<Rightarrow> (int \<rightharpoonup> string \<times> int) \<Rightarrow> (int \<rightharpoonup> string \<times> int)" where
  "spec_step (Request h doc _ _ _ ts) m = m(mh_RequestID h \<mapsto> (be_Key (doc ! 0), ts))"
| "spec_step (Response h _ _ _) m = m(mh_ResponseTo h := None)"

definition outstanding :: "pktConn \<Rightarrow> (int \<rightharpoonup> string \<times> int)" where
  "outstanding c i = map_option (\<lambda>r. (mp_command r, mp_ts r)) (mc_pending (c_mongo c) i)"

lemma hello_client_pending [simp]: "mc_pending (c_mongo (hello_client doc c)) = mc_pending (c_mongo c)"
  by (simp add: hello_client_def Let_def split: option.split)

text \<open>The steps of a classification that leave a part of the state alone.\<close>

lemma classify_keeps:
  "c_mongo (if b then c\<lparr>c_database := d\<rparr> else c) = c_mongo c"
  "mc_pending (c_mongo (if b then c\<lparr>c_mongo := (c_mongo c)\<lparr>mc_authUser := u\<rparr>, c_user := u\<rparr> else c)) = mc_pending (c_mongo c)"
  "mc_kind (c_mongo (if b then c\<lparr>c_mongo := (c_mongo c)\<lparr>mc_authUser := u\<rparr>, c_user := u\<rparr> else c)) = mc_kind (c_mongo c)"
  "mc_pending (c_mongo (if b then hello_client doc c else c)) = mc_pending (c_mongo c)"
  "mc_kind (c_mongo (if b then hello_client doc c else c)) = mc_kind (c_mongo c)"
  by (simp_all add: hello_client_def Let_def split: option.split)

lemma classify_pending: "mc_pending (c_mongo (snd (pktMongoClassify p c cmd ns doc))) = mc_pending (c_mongo c)"
  unfolding pktMongoClassify_def Let_def snd_conv classify_keeps by simp

lemma classify_kind: "mc_kind (c_mongo (snd (pktMongoClassify p c cmd ns doc))) = choose_kind cmd ns doc (mc_kind (c_mongo c))"
  unfolding pktMongoClassify_def Let_def snd_conv classify_keeps by simp

lemma session_state_pending [simp]: "mc_pending (session_state lib doc mc) = mc_pending mc"
  by (simp add: session_state_def Let_def split: option.split)

lemma command_outstanding:
  "outstanding (snd (snd (pktMongoCommand lib p c h doc sn sc sb ts))) = (outstanding c)(mh_RequestID h \<mapsto> (be_Key (doc ! 0), ts))"
proof -
  let ?cmd = "be_Key (doc ! 0)" and ?ns = "command_ns lib (c_mongo c) doc"
  let ?c1 = "c\<lparr>c_Queries := (if mongoIsChatter ?cmd then c_Queries c else c_Queries c + 1),
                 c_mongo := (c_mongo c)\<lparr>mc_opsSeen := mc_opsSeen (c_mongo c) + 1\<rparr>\<rparr>"
  obtain p1 c2 where cl: "pktMongoClassify p ?c1 ?cmd ?ns doc = (p1, c2)" by (metis surj_pair)
  have "mc_pending (c_mongo c2) = mc_pending (c_mongo c)"
    using classify_pending [of p ?c1 ?cmd ?ns doc] unfolding cl by simp
  moreover have "mc_pending (c_mongo (snd (snd (pktMongoCommand lib p c h doc sn sc sb ts))))
      = (mc_pending (c_mongo c2))(mh_RequestID h \<mapsto> \<lparr>mp_command = ?cmd, mp_ns = ?ns, mp_ts = ts\<rparr>)"
    unfolding pktMongoCommand_def Let_def cl prod.case snd_conv by simp
  ultimately show ?thesis by (auto simp: outstanding_def fun_eq_iff)
qed

text \<open>What a reply leaves of the queue, the time it is given and how its line begins.\<close>

definition reply_ok :: "pktPacket \<Rightarrow> pktConn \<Rightarrow> mongoPending option \<Rightarrow> string \<times> pktPacket \<times> pktConn \<Rightarrow> bool" where
  "reply_ok p c req r \<longleftrightarrow> p_LagNS (fst (snd r)) = p_LagNS p \<and> mc_pending (c_mongo (snd (snd r))) = mc_pending (c_mongo c)
     \<and> (\<forall>q. req = Some q \<longrightarrow> prefix (mp_command q @ '' '' @ right_arrow @ '' '') (fst r))"

lemma prefix_append3: "prefix (a @ b @ x @ d) (a @ b @ x @ d @ r)"
  by (auto simp: prefix_def)

lemma failed_reply_ok: "reply_ok p c req (failed_reply lib p c doc req)"
  unfolding failed_reply_def reply_ok_def Let_def add_issue_def
  by (cases req) (simp_all add: prefix_append3)

lemma write_errors_ok: "write_errors lib p c doc req = Some r \<Longrightarrow> reply_ok p c req r"
  unfolding write_errors_def reply_ok_def Let_def add_issue_def
  by (auto simp: reqName_def prefix_append3 split: option.splits list.splits)

lemma concern_error_ok: "concern_error lib p doc req = Some (s, p') \<Longrightarrow> reply_ok p c req (s, p', c)"
  unfolding concern_error_def reply_ok_def Let_def add_issue_def
  by (auto simp: reqName_def prefix_append3 split: option.splits)

lemma cursor_reply_ok: "cursor_reply lib p mc doc = (parts, p', mc') \<Longrightarrow> p_LagNS p' = p_LagNS p \<and> mc_pending mc' = mc_pending mc"
  by (auto simp: cursor_reply_def Let_def split: option.splits if_splits)

lemma count_rows_lag [simp]: "p_LagNS (count_rows lib doc p) = p_LagNS p"
  by (simp add: count_rows_def split: option.split)

lemma ok_reply_ok: "reply_ok p c req (ok_reply lib p c doc sz req lag)"
proof -
  obtain parts p1 mc where cr: "cursor_reply lib (p\<lparr>p_Status := ''Success''\<rparr>) (c_mongo c) doc = (parts, p1, mc)"
    by (metis prod_cases3)
  note k = cursor_reply_ok [OF cr]
  show ?thesis
    using k unfolding ok_reply_def reply_ok_def Let_def add_issue_def cr
    by (cases req) (simp_all add: reqName_def prefix_append3)
qed

lemma pktMongoResponse_ok:
  assumes "take_request (mh_ResponseTo h) ts p c = (req, lag, p1, c1)"
  shows "reply_ok p1 c1 req (pktMongoResponse lib p c h doc sz ts)"
  using failed_reply_ok write_errors_ok concern_error_ok ok_reply_ok
  by (auto simp: pktMongoResponse_def assms split: option.split)

lemma response_outstanding:
  "outstanding (snd (snd (pktMongoResponse lib p c h doc sz ts))) = (outstanding c)(mh_ResponseTo h := None)"
proof -
  obtain req lag p1 c1 where t: "take_request (mh_ResponseTo h) ts p c = (req, lag, p1, c1)" by (metis prod_cases4)
  have "mc_pending (c_mongo c1) = (mc_pending (c_mongo c))(mh_ResponseTo h := None)"
    using t by (auto simp: take_request_def Let_def)
  then show ?thesis
    using pktMongoResponse_ok [OF t, of lib doc sz] by (auto simp: reply_ok_def outstanding_def fun_eq_iff)
qed

lemma mongo_run_outstanding: "outstanding (mongo_run lib p es c) = fold spec_step es (outstanding c)"
proof (induction es arbitrary: c)
  case (Cons e es)
  have "outstanding (snd (snd (mongo_handle lib p e c))) = spec_step e (outstanding c)"
    by (cases e) (simp_all add: command_outstanding response_outstanding)
  with Cons show ?case by simp
qed simp

text \<open>
  C4. Requests and replies may interleave in any order. After any sequence of them, a reply is shown under the command
  that the specification (outstanding requests by id) says it answers, with exactly the time since that request,
  and the connection goes on with that request no longer outstanding.
\<close>

theorem mongo_replies_matched_by_id:
  assumes "fold spec_step es (outstanding c) (mh_ResponseTo h) = Some (cmd, t)" "t \<noteq> zero_time"
  shows "\<exists>line p' c'. pktMongoResponse lib p (mongo_run lib p es c) h doc sz ts = (line, p', c')
    \<and> prefix (cmd @ '' '' @ right_arrow @ '' '') line \<and> p_LagNS p' = go_Sub ts t
    \<and> outstanding c' = (fold spec_step es (outstanding c))(mh_ResponseTo h := None)"
proof -
  let ?c = "mongo_run lib p es c"
  have "outstanding ?c (mh_ResponseTo h) = Some (cmd, t)" using assms(1) by (simp add: mongo_run_outstanding)
  then obtain r where r: "mc_pending (c_mongo ?c) (mh_ResponseTo h) = Some r" "mp_command r = cmd" "mp_ts r = t"
    by (auto simp: outstanding_def)
  obtain c1 where t: "take_request (mh_ResponseTo h) ts p ?c = (Some r, go_Sub ts t, p\<lparr>p_LagNS := go_Sub ts t\<rparr>, c1)"
    using r assms(2) by (simp add: take_request_def Let_def)
  obtain line p' c' where res: "pktMongoResponse lib p ?c h doc sz ts = (line, p', c')" by (metis prod_cases3)
  have "outstanding c' = (outstanding ?c)(mh_ResponseTo h := None)"
    using response_outstanding [of lib p ?c h doc sz ts] res by simp
  then show ?thesis
    using pktMongoResponse_ok [OF t, of lib doc sz] r(2) res by (simp add: reply_ok_def mongo_run_outstanding)
qed

definition demo_mg :: mg_lib where
  "demo_mg = \<lparr>ml_Quote = (\<lambda>s. s), ml_trunc = sint, ml_float6 = (\<lambda>w. []), ml_inflate = (\<lambda>b n. None), ml_ms0 = go_Itoa, ml_ms1 = go_Itoa\<rparr>"

definition demo_header :: "int \<Rightarrow> int \<Rightarrow> mongoHeader" where
  "demo_header i j = \<lparr>mh_Length = 100, mh_RequestID = i, mh_ResponseTo = j, mh_OpCode = mongoOpMsg\<rparr>"

definition demo_doc :: "string \<Rightarrow> bsonElem list" where
  "demo_doc cmd = [\<lparr>be_Type = bsonInt32, be_Key = cmd, be_Raw = [1, 0, 0, 0]\<rparr>]"

theorem mongo_replies_matched_by_id_witness:
  "\<exists>line p' c'. pktMongoResponse demo_mg new_packet
       (mongo_run demo_mg new_packet [Request (demo_header 7 0) (demo_doc ''find'') [] 0 0 10, Request (demo_header 8 0) (demo_doc ''count'') [] 0 0 20] new_conn)
       (demo_header 1 7) (demo_doc ''ok'') 50 90 = (line, p', c')
     \<and> prefix (''find'' @ '' '' @ right_arrow @ '' '') line \<and> p_LagNS p' = 80"
proof -
  let ?es = "[Request (demo_header 7 0) (demo_doc ''find'') [] 0 0 10, Request (demo_header 8 0) (demo_doc ''count'') [] 0 0 20]"
  have "fold spec_step ?es (outstanding new_conn) (mh_ResponseTo (demo_header 1 7)) = Some (''find'', 10)"
    by (simp add: demo_header_def demo_doc_def)
  moreover have "(10 :: int) \<noteq> zero_time" "go_Sub 90 10 = 80" by (simp_all add: zero_time_def go_Sub_def)
  ultimately show ?thesis
    using mongo_replies_matched_by_id [of ?es new_conn "demo_header 1 7" "''find''" 10 demo_mg new_packet "demo_doc ''ok''" 50 90] by auto
qed

section \<open>Kinds of connections\<close>

text \<open>A connection never loses a more telling kind to a less telling one.\<close>

lemma mongo_kind_monotone:
  "mongoKindRank (mc_kind (c_mongo c)) \<le> mongoKindRank (mc_kind (c_mongo (snd (pktMongoClassify p c cmd ns doc))))"
  unfolding classify_kind by (simp add: choose_kind_def Let_def)

end
