(* ===== verification/Pkt_Frames.thy ===== *)
theory Pkt_Frames
  imports Mysql_Decode Pg_Decode Pkt_Cluster Valkey_Bus Valkey Mongo
begin

text \<open>
  What every protocol decoder leaves alone: the identity of the frame it annotates (its number, time, place
  in the capture file, endpoints, TCP header) and that of the connection it advances (index, endpoints,
  role, counters of frames and bytes, what is known of the handshake). The driver relies on it: it finds a
  connection again by its position, and a row of the inspector by the number of its frame.
\<close>

definition frame_of :: "pktPacket \<Rightarrow> nat \<times> int \<times> int \<times> string \<times> string \<times> string \<times> nat \<times> nat \<times> nat \<times> nat" where
  "frame_of p = (p_No p, p_TS p, p_Stream p, p_Dir p, p_Src p, p_Dst p, p_FrameLen p, p_PayloadLen p, p_off p, p_cap p)"

definition ends_of :: "pktConn \<Rightarrow> nat \<times> string \<times> string \<times> string \<times> nat \<times> nat \<times> int \<times> int \<times> bool \<times> nat \<times> bool \<times> bool \<times> bool" where
  "ends_of c = (c_idx c, c_client c, c_server c, c_role c, c_Packets c, c_Bytes c, c_StartTS c, c_EndTS c, c_haveSyn c,
     c_synNo c, c_synAcked c, c_sawData c, c_Reset c)"

text \<open>The rewrite rules by which the proofs below go through the decoders.\<close>

named_theorems keep

lemma frame_of_updates [keep]:
  "frame_of (p\<lparr>p_Proto := x1\<rparr>) = frame_of p" "frame_of (p\<lparr>p_Info := x1\<rparr>) = frame_of p"
  "frame_of (p\<lparr>p_Issues := x2\<rparr>) = frame_of p" "frame_of (p\<lparr>p_Query := x1\<rparr>) = frame_of p"
  "frame_of (p\<lparr>p_Command := x1\<rparr>) = frame_of p" "frame_of (p\<lparr>p_Status := x1\<rparr>) = frame_of p"
  "frame_of (p\<lparr>p_Rows := x3\<rparr>) = frame_of p" "frame_of (p\<lparr>p_ErrCode := x3\<rparr>) = frame_of p"
  "frame_of (p\<lparr>p_ErrState := x1\<rparr>) = frame_of p" "frame_of (p\<lparr>p_LagNS := x3\<rparr>) = frame_of p"
  "frame_of (add_issue x1 p) = frame_of p"
  by (simp_all add: frame_of_def add_issue_def)

lemma ends_of_updates [keep]:
  "ends_of (c\<lparr>c_c2s := d\<rparr>) = ends_of c" "ends_of (c\<lparr>c_s2c := d\<rparr>) = ends_of c" "ends_of (set_dir fc d c) = ends_of c"
  "ends_of (c\<lparr>c_synced := b\<rparr>) = ends_of c" "ends_of (c\<lparr>c_tls := b\<rparr>) = ends_of c"
  "ends_of (c\<lparr>c_sslRequested := b\<rparr>) = ends_of c" "ends_of (c\<lparr>c_tlsSealed := b\<rparr>) = ends_of c"
  "ends_of (c\<lparr>c_compressed := b\<rparr>) = ends_of c" "ends_of (c\<lparr>c_authPhase := b\<rparr>) = ends_of c"
  "ends_of (c\<lparr>c_xferAnnounced := b\<rparr>) = ends_of c" "ends_of (c\<lparr>c_xferBig := b\<rparr>) = ends_of c"
  "ends_of (c\<lparr>c_xferFormat := s\<rparr>) = ends_of c" "ends_of (c\<lparr>c_haveSeqByte := b\<rparr>) = ends_of c"
  "ends_of (c\<lparr>c_nextSeqByte := y\<rparr>) = ends_of c" "ends_of (c\<lparr>c_user := s\<rparr>) = ends_of c"
  "ends_of (c\<lparr>c_database := s\<rparr>) = ends_of c" "ends_of (c\<lparr>c_version := s\<rparr>) = ends_of c"
  "ends_of (c\<lparr>c_pendingCmd := s\<rparr>) = ends_of c" "ends_of (c\<lparr>c_pendingQuery := s\<rparr>) = ends_of c"
  "ends_of (c\<lparr>c_pendingTS := i\<rparr>) = ends_of c" "ends_of (c\<lparr>c_pendingOpen := b\<rparr>) = ends_of c"
  "ends_of (c\<lparr>c_Queries := k\<rparr>) = ends_of c" "ends_of (c\<lparr>c_Errors := k\<rparr>) = ends_of c"
  "ends_of (c\<lparr>c_pg := e1\<rparr>) = ends_of c" "ends_of (c\<lparr>c_valkeybus := e2\<rparr>) = ends_of c"
  "ends_of (c\<lparr>c_pgha := e3\<rparr>) = ends_of c" "ends_of (c\<lparr>c_valkey := e4\<rparr>) = ends_of c"
  "ends_of (c\<lparr>c_mongo := e5\<rparr>) = ends_of c" "ends_of (c\<lparr>c_Role := s\<rparr>) = ends_of c"
  "ends_of (c\<lparr>c_RoleLabel := s\<rparr>) = ends_of c"
  by (simp_all add: ends_of_def set_dir_def)

lemma case_prod_keep [keep]: "(case x of (a, b) \<Rightarrow> f a b) = f (fst x) (snd x)"
  by (simp add: split_def)

lemma if_keep [keep]:
  "fst (if b then x else y) = (if b then fst x else fst y)" "snd (if b then x else y) = (if b then snd x else snd y)"
  "frame_of (if b then p1 else p2) = (if b then frame_of p1 else frame_of p2)"
  "ends_of (if b then c1 else c2) = (if b then ends_of c1 else ends_of c2)"
  by simp_all

lemma option_keep [keep]:
  "fst (case m of None \<Rightarrow> x | Some a \<Rightarrow> f a) = (case m of None \<Rightarrow> fst x | Some a \<Rightarrow> fst (f a))"
  "snd (case m of None \<Rightarrow> x | Some a \<Rightarrow> f a) = (case m of None \<Rightarrow> snd x | Some a \<Rightarrow> snd (f a))"
  "frame_of (case m of None \<Rightarrow> p | Some a \<Rightarrow> g a) = (case m of None \<Rightarrow> frame_of p | Some a \<Rightarrow> frame_of (g a))"
  "ends_of (case m of None \<Rightarrow> c | Some a \<Rightarrow> h a) = (case m of None \<Rightarrow> ends_of c | Some a \<Rightarrow> ends_of (h a))"
  "(case m of None \<Rightarrow> k | Some a \<Rightarrow> k) = k"
  by (simp_all split: option.split)

lemma list_keep [keep]:
  "fst (case m of [] \<Rightarrow> x | a # as \<Rightarrow> f a as) = (case m of [] \<Rightarrow> fst x | a # as \<Rightarrow> fst (f a as))"
  "snd (case m of [] \<Rightarrow> x | a # as \<Rightarrow> f a as) = (case m of [] \<Rightarrow> snd x | a # as \<Rightarrow> snd (f a as))"
  "frame_of (case m of [] \<Rightarrow> p | a # as \<Rightarrow> g a as) = (case m of [] \<Rightarrow> frame_of p | a # as \<Rightarrow> frame_of (g a as))"
  "ends_of (case m of [] \<Rightarrow> c | a # as \<Rightarrow> h a as) = (case m of [] \<Rightarrow> ends_of c | a # as \<Rightarrow> ends_of (h a as))"
  "(case m of [] \<Rightarrow> k | a # as \<Rightarrow> k) = k"
  by (simp_all split: list.split)

lemma sum_keep [keep]:
  "fst (case m of Inl a \<Rightarrow> f a | Inr b \<Rightarrow> g b) = (case m of Inl a \<Rightarrow> fst (f a) | Inr b \<Rightarrow> fst (g b))"
  "snd (case m of Inl a \<Rightarrow> f a | Inr b \<Rightarrow> g b) = (case m of Inl a \<Rightarrow> snd (f a) | Inr b \<Rightarrow> snd (g b))"
  "(case m of Inl a \<Rightarrow> k | Inr b \<Rightarrow> k) = k"
  by (simp_all split: sum.split)

text \<open>A decoder that may not return: whatever it returns is kept.\<close>

definition opt_keeps :: "pktPacket \<Rightarrow> pktConn \<Rightarrow> (string \<times> pktPacket \<times> pktConn) option \<Rightarrow> bool" where
  "opt_keeps p c m \<longleftrightarrow> (\<forall>s p' c'. m = Some (s, p', c') \<longrightarrow> frame_of p' = frame_of p \<and> ends_of c' = ends_of c)"

lemma opt_keeps_simps [keep]:
  "opt_keeps p c None = True"
  "opt_keeps p c (Some r) = (frame_of (fst (snd r)) = frame_of p \<and> ends_of (snd (snd r)) = ends_of c)"
  "opt_keeps p c (if b then m1 else m2) = (if b then opt_keeps p c m1 else opt_keeps p c m2)"
  "opt_keeps p c (case mo of None \<Rightarrow> m1 | Some a \<Rightarrow> f a) = (case mo of None \<Rightarrow> opt_keeps p c m1 | Some a \<Rightarrow> opt_keeps p c (f a))"
  "opt_keeps p c (case xs of [] \<Rightarrow> m1 | a # as \<Rightarrow> g a as) = (case xs of [] \<Rightarrow> opt_keeps p c m1 | a # as \<Rightarrow> opt_keeps p c (g a as))"
  by (auto simp: opt_keeps_def prod_eq_iff split: option.split list.split)

lemma bool_keep [keep]: "(case b of True \<Rightarrow> x | False \<Rightarrow> y) = (if b then x else y)"
  by simp

declare Let_def [keep] fst_conv [keep] snd_conv [keep] if_cancel [keep] simp_thms [keep]

section \<open>MySQL\<close>

lemma handshake_frame [keep]:
  "frame_of (fst (snd (pktDecodeHandshakeResponse p c msg))) = frame_of p"
  "ends_of (snd (snd (pktDecodeHandshakeResponse p c msg))) = ends_of c"
  by (simp_all only: pktDecodeHandshakeResponse_def keep)

lemma client_command_frame [keep]:
  "frame_of (fst (snd (client_command p c cmd arg))) = frame_of p"
  "ends_of (snd (snd (client_command p c cmd arg))) = ends_of c"
  by (simp_all only: client_command_def keep)

lemma anchor_frame [keep]: "ends_of (anchor_server c) = ends_of c" "ends_of (pktAnchorClient c) = ends_of c"
  by (simp_all only: anchor_server_def pktAnchorClient_def keep)

lemma pktDecodeClient_frame [keep]:
  "frame_of (fst (snd (pktDecodeClient p c msg ts))) = frame_of p"
  "ends_of (snd (snd (pktDecodeClient p c msg ts))) = ends_of c"
  by (simp_all only: pktDecodeClient_def keep)

lemma note_error_frame [keep]: "frame_of (note_error code state txt p) = frame_of p"
  by (simp only: note_error_def keep)

lemma greeting_frame [keep]:
  "frame_of (fst (snd (pktDecodeGreeting p c msg))) = frame_of p"
  "ends_of (snd (snd (pktDecodeGreeting p c msg))) = ends_of c"
  by (simp_all only: pktDecodeGreeting_def keep)

lemma decode_auth_frame [keep]: "opt_keeps p c (decode_auth p c msg)"
  by (simp only: decode_auth_def keep)

lemma note_latency_frame [keep]:
  "frame_of (fst (note_latency ts p c)) = frame_of p" "ends_of (snd (note_latency ts p c)) = ends_of c"
  by (simp_all only: note_latency_def keep)

lemma server_response_frame [keep]:
  "frame_of (fst (snd (server_response p c msg))) = frame_of p"
  "ends_of (snd (snd (server_response p c msg))) = ends_of c"
  by (simp_all only: server_response_def keep)

lemma decode_response_frame [keep]:
  "frame_of (fst (snd (decode_response p c msg ts))) = frame_of p"
  "ends_of (snd (snd (decode_response p c msg ts))) = ends_of c"
  by (simp_all only: decode_response_def decode_unsynced_def keep)

lemma opt_keeps_case:
  "opt_keeps p c m \<Longrightarrow> frame_of (fst (snd r)) = frame_of p \<Longrightarrow> ends_of (snd (snd r)) = ends_of c \<Longrightarrow>
     frame_of (fst (snd (case m of Some x \<Rightarrow> x | None \<Rightarrow> r))) = frame_of p
     \<and> ends_of (snd (snd (case m of Some x \<Rightarrow> x | None \<Rightarrow> r))) = ends_of c"
  by (cases m) (auto simp: opt_keeps_def)

lemma pktDecodeServer_frame:
  "frame_of (fst (snd (pktDecodeServer p c msg ts))) = frame_of p
   \<and> ends_of (snd (snd (pktDecodeServer p c msg ts))) = ends_of c"
  unfolding pktDecodeServer_def
  by (intro if_pred [of _ "\<lambda>r. frame_of (fst (snd r)) = frame_of p \<and> ends_of (snd (snd r)) = ends_of c"] opt_keeps_case)
     (simp_all only: keep)

lemma decode_one_frame:
  "frame_of (fst (snd (decode_one fc p c msg ts))) = frame_of p \<and> ends_of (conn_of (decode_one fc p c msg ts)) = ends_of c"
  by (simp add: decode_one_def conn_of_def pktDecodeClient_frame pktDecodeServer_frame)

lemma app_loop_frame:
  "frame_of (fst (app_loop fc ts p c infos s k)) = frame_of p \<and> ends_of (fst (snd (app_loop fc ts p c infos s k))) = ends_of c"
proof (induction fc ts p c infos s k rule: app_loop.induct)
  case (1 fc ts p c infos s k)
  show ?case
  proof (cases "pktNextMySQL (ds_buf (dir_of fc c))")
    case None
    then show ?thesis by (simp add: app_loop.simps [of fc ts p c])
  next
    case (Some m)
    then show ?thesis using 1
      by (cases m; cases "fst m")
         (auto simp: app_loop.simps [of fc ts p c] Let_def decode_one_frame ends_of_updates note_seq_def)
  qed
qed

lemma app_summary_frame [keep]:
  "frame_of (fst (app_summary b fc r)) = frame_of (fst r)" "ends_of (snd (app_summary b fc r)) = ends_of (fst (snd r))"
  by (simp_all only: app_summary_def keep)

theorem pktAppDecode_frame [keep]:
  "frame_of (fst (pktAppDecode p c fc b ts)) = frame_of p" "ends_of (snd (pktAppDecode p c fc b ts)) = ends_of c"
  by (simp_all only: pktAppDecode_def keep app_loop_frame)

section \<open>PostgreSQL\<close>

lemma pg_set_ends [keep]:
  "ends_of (set_pg pc c) = ends_of c" "ends_of (set_pg_dir fc pd c) = ends_of c" "ends_of (set_taken fc b pd c) = ends_of c"
  by (simp_all add: set_pg_def set_pg_dir_def set_taken_def ends_of_updates)

lemma pg_conn_ends [keep]:
  "ends_of (pg_request ts w b c) = ends_of c" "ends_of (snd (pg_copied fc c body)) = ends_of c"
  "ends_of (pg_copy_end fc c) = ends_of c" "ends_of (pg_anchor_client c) = ends_of c"
  "ends_of (snd (pg_row_description c body)) = ends_of c" "ends_of (pg_copy_begin y c) = ends_of c"
  by (simp_all only: pg_request_def pg_copied_def pg_copy_end_def pg_anchor_client_def pg_row_description_def
      pg_copy_begin_def keep)

lemma pgIdleCheck_frame [keep]: "frame_of (fst (pgIdleCheck lib ts p pc)) = frame_of p"
  by (simp only: pgIdleCheck_def keep)

lemma pgWALMessage_frame [keep]: "frame_of (fst (snd (pgWALMessage lib ts p pc body))) = frame_of p"
  by (simp only: pgWALMessage_def keep)

lemma standby_message_frame [keep]: "frame_of (fst (snd (pgStandbyMessage lib ts p pc body))) = frame_of p"
  by (simp only: pgStandbyMessage_def standby_status_def keep)

lemma pktPGStartup_frame [keep]:
  "frame_of (fst (snd (pktPGStartup p c code body))) = frame_of p" "ends_of (snd (snd (pktPGStartup p c code body))) = ends_of c"
  by (simp_all only: pktPGStartup_def keep)

lemma pg_first_frame [keep]:
  "frame_of (fst (snd (pg_first p c body))) = frame_of p" "ends_of (snd (snd (pg_first p c body))) = ends_of c"
  by (simp_all only: pg_first_def keep)

lemma pg_query_frame [keep]:
  "frame_of (fst (snd (pg_query ts p c body))) = frame_of p" "ends_of (snd (snd (pg_query ts p c body))) = ends_of c"
  by (simp_all only: pg_query_def keep)

lemma pg_parse_frame [keep]:
  "frame_of (fst (snd (pg_parse lib ts p c body))) = frame_of p" "ends_of (snd (snd (pg_parse lib ts p c body))) = ends_of c"
  by (simp_all only: pg_parse_def keep)

lemma pg_bind_frame [keep]:
  "frame_of (fst (snd (pg_bind lib ts p c body))) = frame_of p" "ends_of (snd (snd (pg_bind lib ts p c body))) = ends_of c"
  by (simp_all only: pg_bind_def keep)

lemma pg_execute_frame [keep]:
  "frame_of (fst (snd (pg_execute lib ts p c body))) = frame_of p" "ends_of (snd (snd (pg_execute lib ts p c body))) = ends_of c"
  by (simp_all only: pg_execute_def keep)

lemma pg_terminate_frame [keep]:
  "frame_of (fst (snd (pg_terminate p c))) = frame_of p" "ends_of (snd (snd (pg_terminate p c))) = ends_of c"
  by (simp_all only: pg_terminate_def keep)

lemma pktPGClient_frame [keep]:
  "frame_of (fst (snd (pktPGClient lib p c typ body ts))) = frame_of p"
  "ends_of (snd (snd (pktPGClient lib p c typ body ts))) = ends_of c"
  by (simp_all only: pktPGClient_def keep)

lemma pgAuthInfo_frame [keep]:
  "frame_of (fst (snd (pgAuthInfo p c body))) = frame_of p" "ends_of (snd (snd (pgAuthInfo p c body))) = ends_of c"
  by (simp_all only: pgAuthInfo_def keep)

lemma pgReadyForQuery_frame [keep]:
  "frame_of (fst (snd (pgReadyForQuery lib ts p c y))) = frame_of p" "ends_of (snd (snd (pgReadyForQuery lib ts p c y))) = ends_of c"
  by (simp_all only: pgReadyForQuery_def cycle_lag_def keep)

lemma pgErrorResponse_frame [keep]:
  "frame_of (fst (snd (pgErrorResponse lib p c body e))) = frame_of p" "ends_of (snd (snd (pgErrorResponse lib p c body e))) = ends_of c"
  by (simp_all only: pgErrorResponse_def keep)

lemma pg_small_frame [keep]:
  "frame_of (fst (snd (pg_parameter p c body))) = frame_of p" "ends_of (snd (snd (pg_parameter p c body))) = ends_of c"
  "frame_of (fst (snd (pg_data_row p c body))) = frame_of p" "ends_of (snd (snd (pg_data_row p c body))) = ends_of c"
  "frame_of (fst (snd (pg_complete p c body))) = frame_of p" "ends_of (snd (snd (pg_complete p c body))) = ends_of c"
  "frame_of (fst (snd (pg_base_backup p c body))) = frame_of p" "ends_of (snd (snd (pg_base_backup p c body))) = ends_of c"
  by (simp_all only: pg_parameter_def pg_data_row_def pg_complete_def pg_base_backup_def keep)

lemma pktPGServer_frame [keep]:
  "frame_of (fst (snd (pktPGServer lib p c typ body ts))) = frame_of p"
  "ends_of (snd (snd (pktPGServer lib p c typ body ts))) = ends_of c"
  by (simp_all only: pktPGServer_def keep)

lemma pg_one_frame:
  "frame_of (fst (snd (pg_one lib fc ts p c m))) = frame_of p \<and> ends_of (conn_of (pg_one lib fc ts p c m)) = ends_of c"
  unfolding conn_of_def by (simp only: pg_one_def keep)

lemma pg_app_loop_frame:
  "frame_of (fst (pg_app_loop lib fc ts p c infos k)) = frame_of p
   \<and> ends_of (fst (snd (pg_app_loop lib fc ts p c infos k))) = ends_of c"
proof (induction lib fc ts p c infos k rule: pg_app_loop.induct)
  case (1 lib fc ts p c infos k)
  obtain om buf pd where n: "pktNextPG (c_synced c) fc (ds_buf (dir_of fc c)) (pg_dir fc c) = (om, buf, pd)"
    by (metis prod_cases3)
  then show ?case using 1
    by (cases om) (auto simp: pg_app_loop.simps [of lib fc ts p c] Let_def pg_one_frame ends_of_updates pg_set_ends)
qed

lemma pg_summary_frame [keep]:
  "frame_of (fst (pg_summary b fc r)) = frame_of (fst r)" "ends_of (snd (pg_summary b fc r)) = ends_of (fst (snd r))"
  by (simp_all only: pg_summary_def keep)

lemma pg_answers_frame:
  "pg_answers p c fc b = Inl r \<Longrightarrow> frame_of (fst r) = frame_of p \<and> ends_of (snd r) = ends_of c"
  "pg_answers p c fc b = Inr r \<Longrightarrow> frame_of (fst r) = frame_of p \<and> ends_of (snd r) = ends_of c"
  by (auto simp: pg_answers_def Let_def frame_of_updates ends_of_updates pg_set_ends split: if_splits)

theorem pktPGDecode_frame [keep]:
  "frame_of (fst (pktPGDecode lib p c fc b ts)) = frame_of p" "ends_of (snd (pktPGDecode lib p c fc b ts)) = ends_of c"
  by (cases "pg_answers p c fc b";
      simp only: pktPGDecode_def keep sum.case pg_app_loop_frame pg_answers_frame)+

section \<open>Cluster ports\<close>

lemma cluster_ends [keep]:
  "ends_of (count_app fc b c) = ends_of c" "ends_of (set_lastPath s c) = ends_of c" "ends_of (set_http2 c) = ends_of c"
  by (simp_all only: count_app_def set_lastPath_def set_http2_def keep)

theorem pktGaleraDecode_frame [keep]:
  "frame_of (fst (pktGaleraDecode p c fc role b)) = frame_of p" "ends_of (snd (pktGaleraDecode p c fc role b)) = ends_of c"
  by (simp_all only: pktGaleraDecode_def galera_ist_def galera_sst_def keep)

lemma patroni_response_frame [keep]: "frame_of (patroni_response p c line b) = frame_of p"
  by (simp only: patroni_response_def keep)

theorem pktPatroniDecode_frame [keep]:
  "frame_of (fst (pktPatroniDecode p c fc b)) = frame_of p" "ends_of (snd (pktPatroniDecode p c fc b)) = ends_of c"
  by (simp_all only: pktPatroniDecode_def keep)

lemma etcd_http_frame:
  "etcd_http p c line = Some r \<Longrightarrow> frame_of (fst r) = frame_of p \<and> ends_of (snd r) = ends_of c"
  by (auto simp: etcd_http_def Let_def frame_of_updates cluster_ends split: if_splits prod.splits)

lemma etcd_frames_frame [keep]:
  "frame_of (fst (etcd_frames p c fc role b)) = frame_of p" "ends_of (snd (etcd_frames p c fc role b)) = ends_of c"
  by (simp_all only: etcd_frames_def keep)

theorem pktEtcdDecode_frame [keep]:
  "frame_of (fst (pktEtcdDecode p c fc role b)) = frame_of p" "ends_of (snd (pktEtcdDecode p c fc role b)) = ends_of c"
  by (auto simp: pktEtcdDecode_def Let_def keep dest!: etcd_http_frame split: if_splits option.split)

section \<open>The cluster bus\<close>

lemma bus_event_frame [keep]:
  "frame_of (fst (bus_event p bc t s b)) = frame_of p" "frame_of (fst (bus_epoch p bc e)) = frame_of p"
  by (simp_all only: bus_event_def bus_epoch_def keep)

lemma valkeyBusMessage_frame [keep]: "frame_of (fst (snd (valkeyBusMessage p bc m))) = frame_of p"
  by (simp only: valkeyBusMessage_def keep)

lemma bus_loop_frame [keep]: "frame_of (fst (bus_loop p bc bd buf infos)) = frame_of p"
proof (induction p bc bd buf infos rule: bus_loop.induct)
  case (1 p bc bd buf infos)
  let ?m = "valkeyBusMessage p (bc\<lparr>bc_msgs := bc_msgs bc + 1\<rparr>) (take (bus_len buf) buf)"
  have "frame_of (fst (snd ?m)) = frame_of p" by (rule valkeyBusMessage_frame)
  then show ?case using 1
    by (auto simp: bus_loop.simps [of p bc bd buf] split: prod.split bool.split)
qed

lemma bus_summary_frame [keep]: "frame_of (bus_summary p bd buf b infos) = frame_of p"
  by (simp only: bus_summary_def keep)

theorem pktValkeyBusDecode_frame [keep]:
  "frame_of (fst (pktValkeyBusDecode p c fc b)) = frame_of p" "ends_of (snd (pktValkeyBusDecode p c fc b)) = ends_of c"
  by (simp_all only: pktValkeyBusDecode_def keep)

section \<open>Valkey\<close>

lemma sync_reply_frame:
  "valkeySyncReply p vc vd v = Some r \<Longrightarrow> frame_of (fst (snd r)) = frame_of p"
  unfolding valkeySyncReply_def Let_def
  by (auto simp only: frame_of_updates fst_conv snd_conv option.inject option.distinct split: if_splits)

lemma hello_auth_frame [keep]:
  "frame_of (fst (hello_auth args p c)) = frame_of p" "ends_of (snd (hello_auth args p c)) = ends_of c"
  by (induction args arbitrary: p c) (simp_all only: hello_auth.simps keep)

lemma replconf_ack_frame [keep]: "frame_of (fst (replconf_ack p vc args)) = frame_of p"
  by (simp only: replconf_ack_def keep)

lemma classify_command_frame [keep]:
  "frame_of (fst (classify_command p c name args)) = frame_of p" "ends_of (snd (classify_command p c name args)) = ends_of c"
  by (simp_all only: classify_command_def keep)

lemma valkeyClassify_frame [keep]:
  "frame_of (fst (valkeyClassify p c name args)) = frame_of p" "ends_of (snd (valkeyClassify p c name args)) = ends_of c"
  by (simp_all only: valkeyClassify_def classify_kind_def keep)

lemma note_pipeline_frame [keep]: "frame_of (fst (note_pipeline p vc)) = frame_of p"
  by (simp only: note_pipeline_def keep)

lemma opt_keeps_map [keep]:
  "opt_keeps p c (map_option f m) = (case m of None \<Rightarrow> True | Some a \<Rightarrow>
     frame_of (fst (snd (f a))) = frame_of p \<and> ends_of (snd (snd (f a))) = ends_of c)"
  by (cases m) (simp_all add: opt_keeps_simps)

lemma pktValkeyCommand_frame: "opt_keeps p c (pktValkeyCommand lib p c v ts)"
  by (simp only: pktValkeyCommand_def keep)

lemma push_info_frame [keep]: "frame_of (fst (snd (valkeyPushInfo lib p vc v))) = frame_of p"
  by (simp only: valkeyPushInfo_def keep)

lemma matched_reply_frame [keep]:
  "frame_of (fst (snd (matched_reply lib p c v ts))) = frame_of p" "ends_of (snd (snd (matched_reply lib p c v ts))) = ends_of c"
  by (simp_all only: matched_reply_def error_reply_def success_reply_def keep)

lemma pktValkeyReply_frame:
  assumes "pktValkeyReply lib p c vd v ts = Some (s, p', c', vd')"
  shows "frame_of p' = frame_of p \<and> ends_of c' = ends_of c"
proof (cases "rv_Type v = respPush \<or> (rv_Type v = respArray \<and> valkeyLooksPubSub v)")
  case True
  then show ?thesis using assms push_info_frame [of lib p "c_valkey c" v]
    by (auto simp: pktValkeyReply_def ends_of_updates split: prod.splits)
next
  case False
  then show ?thesis using assms matched_reply_frame [of lib p c v ts]
    by (auto simp: pktValkeyReply_def Let_def ends_of_updates split: prod.splits option.splits if_splits dest!: sync_reply_frame)
qed

lemma valkey_value_frame:
  "valkey_value lib fc p c vd v ts = Some (s, p', c', vd') \<Longrightarrow> frame_of p' = frame_of p \<and> ends_of c' = ends_of c"
  using pktValkeyCommand_frame [of p c lib v ts] pktValkeyReply_frame
  by (auto simp: valkey_value_def opt_keeps_def split: if_splits)

definition vk_keeps :: "pktPacket \<Rightarrow> pktConn \<Rightarrow> vk_state option \<Rightarrow> bool" where
  "vk_keeps p c m \<longleftrightarrow> (\<forall>p' c' r. m = Some (p', c', r) \<longrightarrow> frame_of p' = frame_of p \<and> ends_of c' = ends_of c)"

lemma vk_keeps_rest: "vk_keeps p c (Some (rdb_rest p c vd buf infos k))"
  by (auto simp: vk_keeps_def rdb_rest_def split: if_splits prod.splits)

lemma vk_keeps_same: "vk_keeps p c (Some (p, c, r))" "vk_keeps p c None"
  by (simp_all add: vk_keeps_def)

lemma vk_keeps_trans:
  "vk_keeps p1 c1 m \<Longrightarrow> frame_of p1 = frame_of p \<and> ends_of c1 = ends_of c \<Longrightarrow> vk_keeps p c m"
  by (auto simp: vk_keeps_def)

lemma valkey_loop_frame: "vk_keeps p c (valkey_loop lib fc ts p c vd0 buf0 infos0 k)"
proof (induction "length buf0" arbitrary: p c vd0 buf0 infos0 k rule: less_induct)
  case less
  obtain vda buf where a: "skip_keepalives vd0 buf0 = (vda, buf)" by fastforce
  obtain vdb infos where b: "note_keepalives (c_valkey c) vda infos0 = (vdb, infos)" by fastforce
  have len: "length buf \<le> length buf0" using skip_keepalives_length [OF a [symmetric]] .
  let ?seen = "c\<lparr>c_valkey := (c_valkey c)\<lparr>vc_sawResp := True\<rparr>\<rparr>"
  have val: "vk_keeps p c (case valkey_value lib fc p ?seen vd v ts of
        None \<Rightarrow> None
      | Some (info, p1, c1, vd1) \<Rightarrow>
          let infos1 = (if info \<noteq> [] then infos @ [info] else infos) in
          if in_transfer vd1 then Some (rdb_rest p1 c1 vd1 (drop n buf) infos1 (k + 1))
          else valkey_loop lib fc ts p1 c1 vd1 (drop n buf) infos1 (k + 1))"
    if n: "0 < n" "n \<le> length buf" for vd v n
  proof (cases "valkey_value lib fc p ?seen vd v ts")
    case None
    then show ?thesis by (simp add: vk_keeps_same)
  next
    case (Some r)
    obtain info p1 c1 vd1 where r: "r = (info, p1, c1, vd1)" by (cases r)
    have "frame_of p1 = frame_of p \<and> ends_of c1 = ends_of c"
      using valkey_value_frame [of lib fc p ?seen vd v ts info p1 c1 vd1] Some r by (simp add: ends_of_updates)
    moreover have "vk_keeps p1 c1 (valkey_loop lib fc ts p1 c1 vd1 (drop n buf) i (k + 1))" for i
      using n len by (intro less) auto
    ultimately have "vk_keeps p c (valkey_loop lib fc ts p1 c1 vd1 (drop n buf) i (k + 1))"
      "vk_keeps p c (Some (rdb_rest p1 c1 vd1 (drop n buf) i (k + 1)))" for i
      by (blast intro: vk_keeps_trans vk_keeps_rest)+
    then show ?thesis using Some r by (simp add: Let_def)
  qed
  have rest: "vk_keeps p c (if buf = [] then Some (p, c, vd, buf, infos, k)
      else case respParse buf 0 of
        RespBad \<Rightarrow>
          (case valkeyReanchor buf of
             (True, buf1) \<Rightarrow> valkey_loop lib fc ts p c (vd\<lparr>vd_aligned := False, vd_desynced := True\<rparr>) buf1 infos k
           | (False, buf1) \<Rightarrow> Some (p, c, vd\<lparr>vd_aligned := False, vd_desynced := True\<rparr>, buf1, infos, k))
      | RespMore \<Rightarrow> Some (p, c, vd, buf, infos, k)
      | RespOK v n \<Rightarrow>
          (case valkey_value lib fc p ?seen (vd\<lparr>vd_aligned := True\<rparr>) v ts of
             None \<Rightarrow> None
           | Some (info, p1, c1, vd1) \<Rightarrow>
               let infos1 = (if info \<noteq> [] then infos @ [info] else infos) in
               if in_transfer vd1 then Some (rdb_rest p1 c1 vd1 (drop n buf) infos1 (k + 1))
               else valkey_loop lib fc ts p1 c1 vd1 (drop n buf) infos1 (k + 1)))" for vd
  proof (cases "respParse buf 0")
    case RespBad
    obtain ok buf1 where x: "valkeyReanchor buf = (ok, buf1)" by fastforce
    then have "ok \<Longrightarrow> length buf1 < length buf0" using valkeyReanchor_length [of buf1 buf] len by simp
    then show ?thesis using RespBad x less by (cases ok) (simp_all add: vk_keeps_same)
  next
    case (RespOK v n)
    then show ?thesis using respParse_pos [OF RespOK] by (simp only: resp_result.case) (intro if_pred [of _ "vk_keeps p c"] vk_keeps_same val; simp)
  qed (simp add: vk_keeps_same)
  show ?case
  proof (cases "vd_expectRDB vdb \<and> buf \<noteq> []")
    case True
    then show ?thesis
      unfolding valkey_loop.simps [of lib fc ts p c vd0 buf0] a b prod.case Let_def
      using rest [of "vdb\<lparr>vd_expectRDB := False\<rparr>", unfolded Let_def]
      by (cases "valkeyRDBHeader vdb buf") (simp_all add: vk_keeps_same vk_keeps_rest)
  next
    case False
    then show ?thesis
      unfolding valkey_loop.simps [of lib fc ts p c vd0 buf0] a b prod.case Let_def
      using rest [of vdb, unfolded Let_def] by (simp only: if_False option.case option.distinct)
  qed
qed

lemma inline_command_frame:
  "frame_of (fst (inline_command fc ts s)) = frame_of (fst s)" "ends_of (fst (snd (inline_command fc ts s))) = ends_of (fst (snd s))"
  by (simp_all only: inline_command_def keep)

lemma valkey_summary_frame [keep]: "frame_of (valkey_summary p c vd buf infos k b) = frame_of p"
  by (simp only: valkey_summary_def keep)

lemma valkey_tls_frame [keep]:
  "frame_of (fst (valkey_tls p c b)) = frame_of p" "ends_of (snd (valkey_tls p c b)) = ends_of c"
  by (simp_all only: valkey_tls_def keep)

lemma put_dir_ends [keep]: "ends_of (put_dir fc vd b c) = ends_of c"
  by (simp only: put_dir_def keep)

definition dec_keeps :: "pktPacket \<Rightarrow> pktConn \<Rightarrow> (pktPacket \<times> pktConn) option \<Rightarrow> bool" where
  "dec_keeps p c m \<longleftrightarrow> (\<forall>p' c'. m = Some (p', c') \<longrightarrow> frame_of p' = frame_of p \<and> ends_of c' = ends_of c)"

lemma dec_keeps_Some:
  "dec_keeps p c (Some r) \<longleftrightarrow> frame_of (fst r) = frame_of p \<and> ends_of (snd r) = ends_of c"
  by (cases r) (simp add: dec_keeps_def)

lemma dec_keeps_tuple: "(\<And>x y z. dec_keeps p c (f x y z)) \<Longrightarrow> dec_keeps p c (case r of (x, y, z) \<Rightarrow> f x y z)"
  by (cases r) simp

lemma valkey_finish_frame:
  "dec_keeps p c (map_option (\<lambda>s. case inline_command fc ts s of (p2, c2, vd2, buf2, infos2, k) \<Rightarrow>
      (valkey_summary p2 c2 vd2 buf2 infos2 k b, put_dir fc vd2 buf2 c2)) (valkey_loop lib fc ts p c vd buf infos 0))"
proof (cases "valkey_loop lib fc ts p c vd buf infos 0")
  case (Some s)
  have "frame_of (fst s) = frame_of p" "ends_of (fst (snd s)) = ends_of c"
    using valkey_loop_frame [of p c lib fc ts vd buf infos 0] Some by (cases s, simp add: vk_keeps_def)+
  then show ?thesis using Some inline_command_frame [of fc ts s]
    by (simp add: dec_keeps_Some split_def valkey_summary_frame put_dir_ends)
qed (simp add: dec_keeps_def)

theorem pktValkeyDecode_frame: "dec_keeps p c (pktValkeyDecode lib p c fc b ts)"
proof -
  have t: "dec_keeps p c (Some (valkey_tls p c b))" by (simp add: dec_keeps_Some valkey_tls_frame)
  show ?thesis unfolding pktValkeyDecode_def Let_def
    by (intro if_pred [of _ "dec_keeps p c"] dec_keeps_tuple valkey_finish_frame t; simp only: dec_keeps_Some keep)
qed

section \<open>MongoDB\<close>

lemma hello_client_ends [keep]: "ends_of (hello_client doc c) = ends_of c"
  by (simp only: hello_client_def keep)

lemma pktMongoClassify_frame [keep]:
  "frame_of (fst (pktMongoClassify p c cmd ns doc)) = frame_of p" "ends_of (snd (pktMongoClassify p c cmd ns doc)) = ends_of c"
  by (simp_all only: pktMongoClassify_def keep)

lemma pktMongoCommand_frame [keep]:
  "frame_of (fst (snd (pktMongoCommand lib p c h doc sn k1 k2 ts))) = frame_of p"
  "ends_of (snd (snd (pktMongoCommand lib p c h doc sn k1 k2 ts))) = ends_of c"
  by (simp_all only: pktMongoCommand_def keep)

lemma take_request_frame [keep]:
  "frame_of (fst (snd (snd (take_request i ts p c)))) = frame_of p" "ends_of (snd (snd (snd (take_request i ts p c)))) = ends_of c"
  by (simp_all only: take_request_def keep)

lemma failed_reply_frame [keep]:
  "frame_of (fst (snd (failed_reply lib p c doc req))) = frame_of p" "ends_of (snd (snd (failed_reply lib p c doc req))) = ends_of c"
  by (simp_all only: failed_reply_def keep)

lemma write_errors_frame [keep]: "opt_keeps p c (write_errors lib p c doc req)"
  by (simp only: write_errors_def keep)

lemma concern_error_frame: "concern_error lib p doc req = Some (s, p') \<Longrightarrow> frame_of p' = frame_of p"
  by (auto simp: concern_error_def Let_def frame_of_updates split: option.splits)

lemma ok_reply_frame [keep]:
  "frame_of (fst (snd (ok_reply lib p c doc sz req lag))) = frame_of p"
  "ends_of (snd (snd (ok_reply lib p c doc sz req lag))) = ends_of c"
  by (simp_all only: ok_reply_def cursor_reply_def count_rows_def keep)

lemma pktMongoResponse_frame [keep]:
  "frame_of (fst (snd (pktMongoResponse lib p c h doc sz ts))) = frame_of p"
  "ends_of (snd (snd (pktMongoResponse lib p c h doc sz ts))) = ends_of c"
proof -
  obtain req lag p1 c1 where t: "take_request (mh_ResponseTo h) ts p c = (req, lag, p1, c1)" by (metis prod_cases4)
  have k: "frame_of p1 = frame_of p" "ends_of c1 = ends_of c" using take_request_frame [of "mh_ResponseTo h" ts p c] t by simp_all
  have "frame_of (fst (snd (pktMongoResponse lib p c h doc sz ts))) = frame_of p1
      \<and> ends_of (snd (snd (pktMongoResponse lib p c h doc sz ts))) = ends_of c1"
    using failed_reply_frame [of lib p1 c1 doc req] write_errors_frame [of p1 c1 lib doc req] ok_reply_frame [of lib p1 c1 doc sz req lag]
    unfolding pktMongoResponse_def t prod.case opt_keeps_def
    by (auto split: option.split dest: concern_error_frame)
  then show "frame_of (fst (snd (pktMongoResponse lib p c h doc sz ts))) = frame_of p"
    "ends_of (snd (snd (pktMongoResponse lib p c h doc sz ts))) = ends_of c" using k by simp_all
qed

lemma pktMongoMsg_frame [keep]:
  "frame_of (fst (snd (pktMongoMsg lib p c h body ts))) = frame_of p" "ends_of (snd (snd (pktMongoMsg lib p c h body ts))) = ends_of c"
  by (simp_all only: pktMongoMsg_def keep)

lemma pktMongoQuery_frame [keep]:
  "frame_of (fst (snd (pktMongoQuery lib p c h body ts))) = frame_of p" "ends_of (snd (snd (pktMongoQuery lib p c h body ts))) = ends_of c"
  by (simp_all only: pktMongoQuery_def keep)

lemma pktMongoReply_frame [keep]:
  "frame_of (fst (snd (pktMongoReply lib p c h body ts))) = frame_of p" "ends_of (snd (snd (pktMongoReply lib p c h body ts))) = ends_of c"
  by (simp_all only: pktMongoReply_def reply_error_def keep)

lemma pktMongoMessage_frame: "opt_keeps p c (pktMongoMessage k lib p c h body ts)"
proof (induction k arbitrary: p c h body)
  case 0
  show ?case by (simp add: opt_keeps_def)
next
  case (Suc k)
  let ?c1 = "\<lambda>n. c\<lparr>c_mongo := (c_mongo c)\<lparr>mc_compressor := n\<rparr>\<rparr>"
  have "opt_keeps p c (map_option (\<lambda>(s, r). (f s, r)) (pktMongoMessage k lib p (?c1 n) h1 b1 ts))" for f n h1 b1
    using Suc [of p "?c1 n" h1 b1] by (auto simp: opt_keeps_def ends_of_updates)
  then have comp: "opt_keeps p c (pktMongoCompressed (pktMongoMessage k lib) lib p c h body ts)"
    unfolding pktMongoCompressed_def Let_def
    by (intro if_pred [of _ "opt_keeps p c"]) (auto simp: opt_keeps_simps frame_of_updates ends_of_updates split: option.split)
  show ?case
    unfolding pktMongoMessage.simps Let_def
    by (intro if_pred [of _ "opt_keeps p c"]) (simp_all only: comp keep)
qed

lemma mongo_frame_frame:
  "mongo_frame k lib ts p c md buf infos n = Some (p', c', r) \<Longrightarrow> frame_of p' = frame_of p \<and> ends_of c' = ends_of c"
proof (induction "length buf" arbitrary: p c md buf infos n rule: less_induct)
  case less
  obtain m md1 buf1 where n: "pktNextMongo (c_synced c) md buf = (m, md1, buf1)" by (metis prod_cases3)
  let ?c = "c\<lparr>c_mongo := (c_mongo c)\<lparr>mc_sawMsg := True\<rparr>\<rparr>"
  show ?case
  proof (cases m)
    case None
    then show ?thesis using less.prems n by (simp add: mongo_frame.simps [of k lib ts p c md buf])
  next
    case (Some hb)
    obtain h body where hb: "hb = (h, body)" by fastforce
    obtain info p1 c1 where m: "pktMongoMessage k lib p ?c h body ts = Some (info, p1, c1)"
      and rec: "mongo_frame k lib ts p1 c1 md1 buf1 (if info \<noteq> [] then infos @ [info] else infos) (n + 1) = Some (p', c', r)"
      using less.prems n Some hb by (auto simp: mongo_frame.simps [of k lib ts p c md buf] split: option.splits)
    have "length buf1 < length buf" using pktNextMongo_shorter [of hb md1 buf1 "c_synced c" md buf] n Some by simp
    then have "frame_of p' = frame_of p1 \<and> ends_of c' = ends_of c1" using less.hyps rec by blast
    moreover have "frame_of p1 = frame_of p \<and> ends_of c1 = ends_of c"
      using pktMongoMessage_frame [of p ?c k lib h body ts] m by (simp add: opt_keeps_def ends_of_updates)
    ultimately show ?thesis by simp
  qed
qed

lemma mongo_summary_frame [keep]: "frame_of (mongo_summary p c md buf infos k b) = frame_of p"
  by (simp only: mongo_summary_def keep)

lemma mongo_tls_frame [keep]:
  "frame_of (fst (mongo_tls p c b)) = frame_of p" "ends_of (snd (mongo_tls p c b)) = ends_of c"
  by (simp_all only: mongo_tls_def keep)

lemma mongo_finish_frame:
  "dec_keeps p c (map_option (\<lambda>(p1, c1, md, buf, infos, msgs). (mongo_summary p1 c1 md buf infos msgs b,
      set_dir fc ((dir_of fc c1)\<lparr>ds_mongo := md, ds_buf := buf\<rparr>) c1)) (mongo_frame k lib ts p c md0 buf0 [] 0))"
  by (auto simp: dec_keeps_def mongo_summary_frame ends_of_updates dest: mongo_frame_frame)

theorem pktMongoDecode_frame: "dec_keeps p c (pktMongoDecode k lib p c fc b ts)"
proof -
  have t: "dec_keeps p c (Some (mongo_tls p c b))" by (simp add: dec_keeps_Some mongo_tls_frame)
  show ?thesis unfolding pktMongoDecode_def Let_def
    by (intro if_pred [of _ "dec_keeps p c"] mongo_finish_frame t; simp only: dec_keeps_Some keep)
qed

section \<open>The interface\<close>

text \<open>What the driver asks of a protocol decoder.\<close>

locale app_decoder =
  fixes decode :: "pktPacket \<Rightarrow> pktConn \<Rightarrow> bool \<Rightarrow> bytes \<Rightarrow> int \<Rightarrow> (pktPacket \<times> pktConn) option"
  assumes decode_keeps: "dec_keeps p c (decode p c fc b ts)"
begin

lemma decode_frame_of: "decode p c fc b ts = Some (p', c') \<Longrightarrow> frame_of p' = frame_of p"
  using decode_keeps [of p c fc b ts] by (simp add: dec_keeps_def)

lemma decode_ends_of: "decode p c fc b ts = Some (p', c') \<Longrightarrow> ends_of c' = ends_of c"
  using decode_keeps [of p c fc b ts] by (simp add: dec_keeps_def)

end

interpretation mysql_app: app_decoder "\<lambda>p c fc b ts. Some (pktAppDecode p c fc b ts)"
  by unfold_locales (simp add: dec_keeps_Some pktAppDecode_frame)

interpretation pg_app: app_decoder "\<lambda>p c fc b ts. Some (pktPGDecode lib p c fc b ts)" for lib
  by unfold_locales (simp add: dec_keeps_Some pktPGDecode_frame)

interpretation mongo_app: app_decoder "pktMongoDecode k lib" for k lib
  by unfold_locales (rule pktMongoDecode_frame)

interpretation valkey_app: app_decoder "pktValkeyDecode lib" for lib
  by unfold_locales (rule pktValkeyDecode_frame)

interpretation bus_app: app_decoder "\<lambda>p c fc b ts. Some (pktValkeyBusDecode p c fc b)"
  by unfold_locales (simp add: dec_keeps_Some pktValkeyBusDecode_frame)

interpretation patroni_app: app_decoder "\<lambda>p c fc b ts. Some (pktPatroniDecode p c fc b)"
  by unfold_locales (simp add: dec_keeps_Some pktPatroniDecode_frame)

interpretation etcd_app: app_decoder "\<lambda>p c fc b ts. Some (pktEtcdDecode p c fc role b)" for role
  by unfold_locales (simp add: dec_keeps_Some pktEtcdDecode_frame)

interpretation galera_app: app_decoder "\<lambda>p c fc b ts. Some (pktGaleraDecode p c fc role b)" for role
  by unfold_locales (simp add: dec_keeps_Some pktGaleraDecode_frame)

end
