(* ===== verification/Pkt_Driver.thy ===== *)
theory Pkt_Driver
  imports Pkt_Net Pkt_Frames
begin

text \<open>
  The driver of the packet inspector (\<^verbatim>\<open>src/app/pktdecode.go\<close>): \<^verbatim>\<open>pktDecode\<close> reads a capture frame by
  frame, decides for every TCP segment which end is the server and what it speaks, keeps a table of
  connections and hands the payload to the decoder of the connection's protocol; \<^verbatim>\<open>pktSniffEngine\<close> guesses
  the database engine of a capture nobody has described.

  The connections the code reaches through pointers are the list \<open>s_order\<close>, in the order of their first
  frames, and the table maps a key to a position in it. A result \<open>None\<close> stands for a run that ends in a Go
  panic, or that a decoder of MongoDB messages does not end within the number of nested messages allowed by
  \<open>dl_layers\<close>. The renderings and map walks the single decoders take as arguments are collected in
  \<open>drv_lib\<close>.
\<close>

section \<open>Arguments and results\<close>

record drv_lib =
  dl_pg :: pg_lib
  dl_vk :: vk_lib
  dl_mg :: mg_lib
  dl_layers :: nat
  dl_walk :: "string list \<Rightarrow> string list"
  dl_dns :: "int \<Rightarrow> int \<Rightarrow> dns_lat"
  dl_ips :: "pktNetState \<Rightarrow> string list"
  dl_ids :: "pktNetState \<Rightarrow> nat list"

record pktDecodeOpts =
  o_ServerPort :: nat
  o_PortRoles :: "(nat \<times> string) list"
  o_Engine :: string
  o_MaxPackets :: int

definition pktEngineMySQL :: string where "pktEngineMySQL = ''mysql''"
definition pktEnginePostgres :: string where "pktEnginePostgres = ''postgres''"
definition pktEngineMongoDB :: string where "pktEngineMongoDB = ''mongodb''"
definition pktEngineValkey :: string where "pktEngineValkey = ''valkey''"

lemmas engine_defs = pktEngineMySQL_def pktEnginePostgres_def pktEngineMongoDB_def pktEngineValkey_def

definition pktMaxPackets :: int where "pktMaxPackets = 400000"

record pktStream =
  st_Index :: nat
  st_Client :: string
  st_Server :: string
  st_Packets :: nat
  st_Bytes :: nat
  st_StartTS :: int
  st_EndTS :: int
  st_Queries :: nat
  st_Errors :: nat
  st_Role :: string
  st_RoleLabel :: string
  st_TLS :: bool
  st_User :: string
  st_Database :: string
  st_Version :: string
  st_Reset :: bool

record pktDecoded =
  d_Packets :: "pktPacket list"
  d_Streams :: "pktStream list"
  d_LinkType :: nat
  d_Format :: string
  d_Dropped :: nat
  d_Truncat :: nat
  d_Engine :: string

section \<open>Guessing the engine\<close>

definition valkeyLooksLikeBus :: "bytes \<Rightarrow> bool" where
  "valkeyLooksLikeBus b =
     (if length b < 8 \<or> take 4 b \<noteq> valkeyBusSig then False
      else let n = be_u32 (drop 4 b) in n \<ge> valkeyBusMinLen \<and> n \<le> push_bit 20 8)"

definition valkeyLooksLikeRESP :: "bytes \<Rightarrow> bool" where
  "valkeyLooksLikeRESP b =
     (if length b < 12 \<or> b ! 0 \<noteq> respArray then False
      else case respParse b 0 of RespOK v n \<Rightarrow> respIsCommand v | RespMore \<Rightarrow> False | RespBad \<Rightarrow> False)"

text \<open>
  The structure behind an opcode. Reading four bytes at 20 and the byte at 24 of a compressed message is an
  index out of range in a segment of 21 to 24 bytes, which the length test in front lets through: \<open>None\<close>.
\<close>

definition mongo_body :: "int \<Rightarrow> bytes \<Rightarrow> bool option" where
  "mongo_body opc b =
     (if opc = mongoOpMsg then Some (length b > mongoMsgDocOff \<and> bsonDocOK (drop mongoMsgDocOff b))
      else if opc = mongoOpCompressed then
        (if length b < mongoHeaderLen + 8 then None
         else
           let inner = le_i32 (drop mongoHeaderLen b); n = le_i32 (drop (mongoHeaderLen + 4) b) in
           if mongoKnownOp inner \<and> inner \<noteq> mongoOpCompressed \<and> n > 0 \<and> n \<le> mongoMaxMsg
           then (if length b < mongoHeaderLen + 9 then None else Some (b ! (mongoHeaderLen + 8) \<le> 3))
           else Some False)
      else if opc = mongoOpReply then
        (if length b < mongoHeaderLen + 20 + 5 then Some False
         else let numReturned = le_i32 (drop (mongoHeaderLen + 16) b) in
           Some (numReturned \<ge> 0 \<and> numReturned \<le> push_bit 20 1 \<and> bsonDocOK (drop (mongoHeaderLen + 20) b)))
      else if opc = mongoOpQuery then
        (case bsonCString (drop (mongoHeaderLen + 4) b) of
           None \<Rightarrow> Some False
         | Some (ns, rest) \<Rightarrow>
             if ns = [] \<or> \<not> pktMostlyPrintable (bytes_of ns) \<or> length rest < 8 + 5 then Some False
             else Some (bsonDocOK (drop 8 rest)))
      else Some False)"

definition mongo_head_ok :: "bytes \<Rightarrow> bool" where
  "mongo_head_ok b \<longleftrightarrow> \<not> (le_i32 b < int mongoHeaderLen \<or> le_i32 b > mongoMaxMsg \<or> \<not> mongoKnownOp (le_i32 (drop 12 b)))"

definition mongoLooksLikeHeader :: "bytes \<Rightarrow> bool option" where
  "mongoLooksLikeHeader b =
     (if length b < mongoHeaderLen + 5 then Some False
      else
        let n = le_i32 b in
        if \<not> mongo_head_ok b then Some False
        else if nat n < length b \<and> nat n + mongoHeaderLen \<le> length b \<and> \<not> mongo_head_ok (drop (nat n) b) then Some False
        else mongo_body (le_i32 (drop 12 b)) b)"

definition pktEngineForPort :: "nat \<Rightarrow> string" where
  "pktEngineForPort port =
     (if port \<in> {pgClientPort, pgBouncerPort, pgProxyRWPort, pgProxyROPort} then pktEnginePostgres
      else if port = mongoClientPort then pktEngineMongoDB
      else if port \<in> {valkeyClientPort, valkeyClientPort + valkeyBusOffset, valkeySentinelPort} then pktEngineValkey
      else pktEngineMySQL)"

text \<open>The counters of one kind of evidence, for each engine.\<close>

record engine_hits =
  h_pg :: nat
  h_my :: nat
  h_mg :: nat
  h_vk :: nat

definition no_hits :: engine_hits where
  "no_hits = \<lparr>h_pg = 0, h_my = 0, h_mg = 0, h_vk = 0\<rparr>"

definition port_hit :: "nat \<Rightarrow> engine_hits \<Rightarrow> engine_hits" where
  "port_hit port h =
     (if port \<in> {patroniRESTPort, etcdClientPort, etcdPeerPort, pgClientPort, pgBouncerPort} then h\<lparr>h_pg := h_pg h + 1\<rparr>
      else if port \<in> {galeraGCSPort, galeraISTPort, galeraSSTPort, 3306} then h\<lparr>h_my := h_my h + 1\<rparr>
      else if port = mongoClientPort then h\<lparr>h_mg := h_mg h + 1\<rparr>
      else if port \<in> {valkeyClientPort, valkeyClientPort + valkeyBusOffset, valkeySentinelPort} then h\<lparr>h_vk := h_vk h + 1\<rparr>
      else h)"

definition pg_opening :: "bytes \<Rightarrow> nat" where
  "pg_opening b =
     (if length b \<ge> 8 \<and> be_u32 (drop 4 b) \<in> {pgSSLRequest, pgCancelRequest, pgGSSENCRequest, pgProtocol30, pgProtocol31}
         \<and> be_u32 b \<ge> 8 \<and> be_u32 b \<le> 10000 then 2 else 0)"

definition pg_ready :: "bytes \<Rightarrow> nat" where
  "pg_ready b =
     (if length b \<ge> 6 \<and> b ! 0 = chr CHR ''Z'' \<and> be_u32 (drop 1 b) = 5
         \<and> (b ! 5 = chr CHR ''I'' \<or> b ! 5 = chr CHR ''T'' \<or> b ! 5 = chr CHR ''E'') then 1 else 0)"

definition pg_streaming :: "bytes \<Rightarrow> nat" where
  "pg_streaming b =
     (if length b \<ge> 6 \<and> b ! 0 = chr CHR ''d'' then
        let n = be_u32 (drop 1 b) in (if pgReplSubtypeLen (b ! 5) n \<and> n + 1 \<le> length b + 4 then 2 else 0)
      else 0)"

definition payload_hits :: "bytes \<Rightarrow> engine_hits \<Rightarrow> engine_hits option" where
  "payload_hits b h =
     (case mongoLooksLikeHeader b of
        None \<Rightarrow> None
      | Some mg \<Rightarrow>
          Some \<lparr>h_pg = h_pg h + pg_opening b + pg_ready b + pg_streaming b,
                h_my = h_my h + (if mysqlLooksLikeGreeting b then 2 else 0),
                h_mg = h_mg h + (if mg then 2 else 0),
                h_vk = h_vk h + (if valkeyLooksLikeBus b \<or> valkeyLooksLikeRESP b then 2 else 0)\<rparr>)"

text \<open>The TCP segment of a frame, where every layer below it can be read.\<close>

definition frame_segment :: "nat \<Rightarrow> bytes \<Rightarrow> pktTCP option" where
  "frame_segment linkType data =
     (case pktStripLink linkType data of
        None \<Rightarrow> None
      | Some (et, l2) \<Rightarrow>
          (case pktParseIP et l2 of
             None \<Rightarrow> None
           | Some l3 \<Rightarrow> if l3_proto l3 \<noteq> 6 then None else pktParseTCP (l3_payload l3)))"

fun sniff_loop :: "nat \<Rightarrow> pktReader \<Rightarrow> engine_hits \<Rightarrow> engine_hits \<Rightarrow> (engine_hits \<times> engine_hits) option" where
  "sniff_loop 0 r h ph = Some (h, ph)"
| "sniff_loop (Suc i) r h ph =
     (case next_frame r of
        None \<Rightarrow> Some (h, ph)
      | Some (f, r') \<Rightarrow>
          (case frame_segment (r_linkType r) (fr_data f) of
             None \<Rightarrow> sniff_loop i r' h ph
           | Some tcp \<Rightarrow>
               let ph' = port_hit (t_dstPort tcp) (port_hit (t_srcPort tcp) ph) in
               if length (t_payload tcp) < 5 then sniff_loop i r' h ph'
               else
                 case payload_hits (t_payload tcp) h of
                   None \<Rightarrow> None
                 | Some h' \<Rightarrow>
                     if h_pg h' \<ge> 4 \<or> h_my h' \<ge> 4 \<or> h_mg h' \<ge> 4 \<or> h_vk h' \<ge> 4 then Some (h', ph')
                     else sniff_loop i r' h' ph'))"

fun best_of :: "(nat \<times> string) list \<Rightarrow> nat \<Rightarrow> string \<Rightarrow> string" where
  "best_of [] best engine = engine"
| "best_of ((hits, cand) # cs) best engine =
     (if hits > best then best_of cs hits cand else best_of cs best engine)"

definition best_engine :: "engine_hits \<Rightarrow> string" where
  "best_engine h =
     best_of [(h_mg h, pktEngineMongoDB), (h_pg h, pktEnginePostgres), (h_vk h, pktEngineValkey), (h_my h, pktEngineMySQL)] 0 []"

definition pktSniffEngine :: "bytes \<Rightarrow> nat \<Rightarrow> string option" where
  "pktSniffEngine buf serverPort =
     (case pktOpen buf of
        Inl e \<Rightarrow> Some (pktEngineForPort serverPort)
      | Inr r \<Rightarrow>
          (case sniff_loop 4000 r no_hits no_hits of
             None \<Rightarrow> None
           | Some (h, ph) \<Rightarrow>
               Some (if best_engine h \<noteq> [] then best_engine h
                     else if best_engine ph \<noteq> [] then best_engine ph
                     else pktEngineForPort serverPort)))"

section \<open>One frame\<close>

definition pktRoleAnyLabel :: "string \<Rightarrow> string" where
  "pktRoleAnyLabel role =
     (if role = pktRoleMongo then ''MongoDB''
      else if pktValkeyRoleLabel role \<noteq> [] then pktValkeyRoleLabel role
      else if pktPGRoleLabel role \<noteq> [] then pktPGRoleLabel role
      else pktRoleLabel role)"

definition pktRoleIsGalera :: "string \<Rightarrow> bool" where
  "pktRoleIsGalera role \<longleftrightarrow> role \<in> {pktRoleGaleraGCS, pktRoleGaleraIST, pktRoleGaleraSST}"

text \<open>
  \<^verbatim>\<open>ts.UnixNano()\<close> keeps 64 bits. The code divides it by 1e9 into a \<^verbatim>\<open>float64\<close> of seconds; the model keeps
  nanoseconds.
\<close>

definition pktTS :: "int \<Rightarrow> int" where
  "pktTS ts = (if ts = zero_time then 0 else sint (of_int ts :: 64 word))"

definition pktTCPInfo :: "pktPacket \<Rightarrow> pktTCP \<Rightarrow> string" where
  "pktTCPInfo p tcp =
     (if p_Flags p = [] then ''TCP '' @ go_utoa (t_srcPort tcp) @ '' '' @ right_arrow @ '' '' @ go_utoa (t_dstPort tcp)
      else ''['' @ p_Flags p @ ''] seq='' @ go_utoa (unat (t_seq tcp)) @ '' ack='' @ go_utoa (unat (t_ack tcp)) @ '' win=''
        @ go_utoa (t_window tcp) @ (if t_payload tcp \<noteq> [] then '' len='' @ go_utoa (length (t_payload tcp)) else []))"

text \<open>Strings are compared byte by byte.\<close>

fun go_less :: "string \<Rightarrow> string \<Rightarrow> bool" where
  "go_less _ [] = False"
| "go_less [] (y # ys) = True"
| "go_less (x # xs) (y # ys) =
     (if of_char x < (of_char y :: nat) then True else if of_char y < (of_char x :: nat) then False else go_less xs ys)"

text \<open>What a run of the decoder carries from frame to frame.\<close>

record pktRun =
  s_Packets :: "pktPacket list"
  s_Dropped :: nat
  s_Truncat :: nat
  s_conns :: "string \<rightharpoonup> nat"
  s_samePortClient :: "string \<rightharpoonup> string"
  s_order :: "pktConn list"
  s_net :: pktNetState
  s_no :: nat

definition new_run :: pktRun where
  "new_run = \<lparr>s_Packets = [], s_Dropped = 0, s_Truncat = 0, s_conns = Map.empty, s_samePortClient = Map.empty, s_order = [],
     s_net = newPktNetState, s_no = 0\<rparr>"

definition emit :: "pktPacket \<Rightarrow> pktRun \<Rightarrow> pktRun" where
  "emit p s = s\<lparr>s_Packets := s_Packets s @ [p]\<rparr>"

definition dedupe_issues :: "pktPacket \<Rightarrow> pktPacket" where
  "dedupe_issues p = p\<lparr>p_Issues := pktDedupe (p_Issues p)\<rparr>"

definition ip_port :: "string \<Rightarrow> nat \<Rightarrow> string" where
  "ip_port ip port = ip @ '':'' @ go_utoa port"

subsection \<open>Datagrams\<close>

fun galera_udp :: "(nat \<times> string) list \<Rightarrow> nat list \<Rightarrow> nat \<Rightarrow> pktPacket \<Rightarrow> pktPacket" where
  "galera_udp roles [] n p = p"
| "galera_udp roles (port # ports) n p =
     (case map_of roles port of
        Some r \<Rightarrow>
          if pktRoleIsGalera r then
            p\<lparr>p_Proto := pktRoleLabel r @ ''/UDP'', p_Info := pktRoleLabel r @ '' over UDP, '' @ go_utoa (n - 8) @ '' bytes''\<rparr>
          else galera_udp roles ports n p
      | None \<Rightarrow> galera_udp roles ports n p)"

definition udp_frame :: "drv_lib \<Rightarrow> pktDecodeOpts \<Rightarrow> pktPacket \<Rightarrow> pktL3 \<Rightarrow> pktRun \<Rightarrow> pktRun" where
  "udp_frame lib opts p l3 s =
     (let pl = l3_payload l3;
          p0 = p\<lparr>p_Proto := ''UDP'', p_Info := ''UDP '' @ l3_srcIP l3 @ '' '' @ right_arrow @ '' '' @ l3_dstIP l3 @ '', ''
                   @ go_utoa (length pl) @ '' bytes''\<rparr>
      in if length pl < 8 then emit p0 s
         else
           let sp = be_u16 pl; dp = be_u16 (drop 2 pl);
               p1 = p0\<lparr>p_Src := ip_port (l3_srcIP l3) sp, p_Dst := ip_port (l3_dstIP l3) dp\<rparr>
           in if sp = 53 \<or> dp = 53 then
                (case pktDNSDecode (dl_dns lib) p1 (drop 8 pl) (p_TS p1) (s_net s) of
                   (p2, net) \<Rightarrow> emit (dedupe_issues p2) (s\<lparr>s_net := net\<rparr>))
              else emit (if o_PortRoles opts \<noteq> [] then galera_udp (o_PortRoles opts) [dp, sp] (length pl) p1 else p1) s)"

subsection \<open>Segments\<close>

text \<open>Which protocol a segment belongs to, and whether the ports say that the client sent it.\<close>

definition port_role :: "(nat \<rightharpoonup> string) \<Rightarrow> string \<Rightarrow> nat \<Rightarrow> nat \<Rightarrow> nat \<Rightarrow> string \<times> bool" where
  "port_role roles defaultRole serverPort src dst =
     (case roles dst of
        Some r \<Rightarrow> (r, True)
      | None \<Rightarrow>
          (case roles src of
             Some r \<Rightarrow> (r, False)
           | None \<Rightarrow> (defaultRole, dst = serverPort \<or> (src \<noteq> serverPort \<and> dst < src))))"

definition pair_key :: "string \<Rightarrow> string \<Rightarrow> string" where
  "pair_key src dst = (if go_less dst src then dst @ ''|'' @ src else src @ ''|'' @ dst)"

text \<open>Between two equal ports the sender of the SYN is the client.\<close>

definition same_port_note :: "string \<Rightarrow> string \<Rightarrow> pktTCP \<Rightarrow> (string \<rightharpoonup> string) \<Rightarrow> (string \<rightharpoonup> string)" where
  "same_port_note src dst tcp known =
     (if t_srcPort tcp = t_dstPort tcp \<and> has_flag (t_flags tcp) tcpSYN \<and> \<not> has_flag (t_flags tcp) tcpACK
      then known(pair_key src dst \<mapsto> src) else known)"

definition same_port_dir :: "string \<Rightarrow> string \<Rightarrow> pktTCP \<Rightarrow> (string \<rightharpoonup> string) \<Rightarrow> bool \<Rightarrow> bool" where
  "same_port_dir src dst tcp known fromClient =
     (if t_srcPort tcp = t_dstPort tcp then
        (case known (pair_key src dst) of Some cli \<Rightarrow> src = cli | None \<Rightarrow> fromClient)
      else fromClient)"

definition conn_key :: "bool \<Rightarrow> string \<Rightarrow> string \<Rightarrow> string" where
  "conn_key fromClient src dst = (if fromClient then src @ ''|'' @ dst else dst @ ''|'' @ src)"

definition open_conn :: "string \<Rightarrow> bool \<Rightarrow> pktPacket \<Rightarrow> pktRun \<Rightarrow> nat \<times> pktRun" where
  "open_conn role fromClient p s =
     (let key = conn_key fromClient (p_Src p) (p_Dst p) in
      case s_conns s key of
        Some i \<Rightarrow> (i, s)
      | None \<Rightarrow>
          let i = length (s_order s);
              (ck, sk) = (if fromClient then (p_Src p, p_Dst p) else (p_Dst p, p_Src p));
              c = new_conn\<lparr>c_idx := i, c_client := ck, c_server := sk, c_role := role, c_StartTS := p_TS p, c_Role := role,
                    c_RoleLabel := pktRoleAnyLabel role\<rparr>
          in (i, s\<lparr>s_conns := (s_conns s)(key \<mapsto> i), s_order := s_order s @ [c]\<rparr>))"

text \<open>
  Only the decoders of MongoDB and Valkey have panics that are modelled. In the others an index or a slice out of
  range is not represented (their lists are total functions), so that they return a result says nothing about
  panics of the code.
\<close>

definition app_decode :: "drv_lib \<Rightarrow> pktPacket \<Rightarrow> pktConn \<Rightarrow> bool \<Rightarrow> bytes \<Rightarrow> int \<Rightarrow> (pktPacket \<times> pktConn) option" where
  "app_decode lib p c fromClient payload ts =
     (let role = c_role c in
      if role = pktRoleMySQL then Some (pktAppDecode p c fromClient payload ts)
      else if role = pktRolePostgres then Some (pktPGDecode (dl_pg lib) p c fromClient payload ts)
      else if role = pktRoleMongo then pktMongoDecode (dl_layers lib) (dl_mg lib) p c fromClient payload ts
      else if role = pktRoleValkey \<or> role = pktRoleSentinel then pktValkeyDecode (dl_vk lib) p c fromClient payload ts
      else if role = pktRoleValkeyBus then Some (pktValkeyBusDecode p c fromClient payload)
      else if role = pktRolePatroniREST then Some (pktPatroniDecode p c fromClient payload)
      else if role = pktRoleEtcdClient \<or> role = pktRoleEtcdPeer then Some (pktEtcdDecode p c fromClient role payload)
      else Some (pktGaleraDecode p c fromClient role payload))"

definition conn_decode :: "drv_lib \<Rightarrow> pktPacket \<Rightarrow> pktConn \<Rightarrow> bool \<Rightarrow> pktTCP \<Rightarrow> int \<Rightarrow> (pktPacket \<times> pktConn) option" where
  "conn_decode lib p c fromClient tcp ts =
     (case pktTCPHealth p c fromClient tcp ts of
        (p1, c1) \<Rightarrow> if hands_on p1 tcp then app_decode lib p1 c1 fromClient (t_payload tcp) ts else Some (p1, c1))"

definition seg_packet :: "pktPacket \<Rightarrow> pktL3 \<Rightarrow> pktTCP \<Rightarrow> pktPacket" where
  "seg_packet p l3 tcp =
     p\<lparr>p_Proto := ''TCP'', p_Src := ip_port (l3_srcIP l3) (t_srcPort tcp), p_Dst := ip_port (l3_dstIP l3) (t_dstPort tcp),
       p_Flags := pktFlagString (t_flags tcp), p_Seq := t_seq tcp, p_Ack := t_ack tcp, p_Window := t_window tcp,
       p_PayloadLen := length (t_payload tcp)\<rparr>"

definition seg_done :: "pktTCP \<Rightarrow> pktPacket \<Rightarrow> pktPacket" where
  "seg_done tcp p = dedupe_issues (if p_Info p = [] then p\<lparr>p_Info := pktTCPInfo p tcp\<rparr> else p)"

definition tcp_frame ::
  "drv_lib \<Rightarrow> (nat \<rightharpoonup> string) \<Rightarrow> string \<Rightarrow> nat \<Rightarrow> pktPacket \<Rightarrow> pktL3 \<Rightarrow> pktTCP \<Rightarrow> int \<Rightarrow> pktRun \<Rightarrow> pktRun option" where
  "tcp_frame lib roles defaultRole serverPort p0 l3 tcp ts s =
     (let p = seg_packet p0 l3 tcp;
          (role, byPort) = port_role roles defaultRole serverPort (t_srcPort tcp) (t_dstPort tcp);
          known = same_port_note (p_Src p) (p_Dst p) tcp (s_samePortClient s);
          fromClient = same_port_dir (p_Src p) (p_Dst p) tcp known byPort;
          (i, s1) = open_conn role fromClient p (s\<lparr>s_samePortClient := known\<rparr>);
          c = s_order s1 ! i;
          c1 = c\<lparr>c_Packets := c_Packets c + 1, c_Bytes := c_Bytes c + p_FrameLen p, c_EndTS := p_TS p\<rparr>;
          p1 = p\<lparr>p_Stream := int (c_idx c), p_Dir := (if fromClient then ''c2s'' else ''s2c'')\<rparr>
      in case conn_decode lib p1 c1 fromClient tcp ts of
           None \<Rightarrow> None
         | Some (p2, c2) \<Rightarrow> Some (emit (seg_done tcp p2) (s1\<lparr>s_order := (s_order s1)[i := c2]\<rparr>)))"

subsection \<open>Frames\<close>

definition frame_packet :: "nat \<Rightarrow> pktFrame \<Rightarrow> pktPacket" where
  "frame_packet no f =
     new_packet\<lparr>p_No := no, p_TS := pktTS (fr_ts f), p_FrameLen := fr_orig f, p_Proto := ''IP'', p_Stream := -1,
       p_off := fr_off f, p_cap := length (fr_data f)\<rparr>"

definition icmp_packet :: "pktPacket \<Rightarrow> bytes \<Rightarrow> pktPacket" where
  "icmp_packet p b =
     (let p1 = p\<lparr>p_Proto := ''ICMP'', p_Info := pktICMPInfo b\<rparr>
      in if go_Contains (p_Info p1) ''unreachable'' then add_issue (''ICMP '' @ p_Info p1) p1 else p1)"

definition ip_frame ::
  "drv_lib \<Rightarrow> pktDecodeOpts \<Rightarrow> (nat \<rightharpoonup> string) \<Rightarrow> string \<Rightarrow> pktPacket \<Rightarrow> pktL3 \<Rightarrow> int \<Rightarrow> pktRun \<Rightarrow> pktRun option" where
  "ip_frame lib opts roles defaultRole p0 l3 ts s =
     (let p = p0\<lparr>p_Src := l3_srcIP l3, p_Dst := l3_dstIP l3\<rparr> in
      if l3_proto l3 = 6 then
        (case pktParseTCP (l3_payload l3) of
           None \<Rightarrow> Some (emit (p\<lparr>p_Proto := ''TCP'', p_Info := ''truncated TCP header''\<rparr>) s)
         | Some tcp \<Rightarrow> tcp_frame lib roles defaultRole (o_ServerPort opts) p l3 tcp ts s)
      else if l3_proto l3 = 17 then Some (udp_frame lib opts p l3 s)
      else if l3_proto l3 = 1 then Some (emit (icmp_packet p (l3_payload l3)) s)
      else Some (emit (p\<lparr>p_Info := ''IP protocol '' @ go_utoa (unat (l3_proto l3)) @ '', '' @ go_utoa (length (l3_payload l3))
                   @ '' bytes''\<rparr>) s))"

definition link_frame ::
  "drv_lib \<Rightarrow> pktDecodeOpts \<Rightarrow> (nat \<rightharpoonup> string) \<Rightarrow> string \<Rightarrow> nat \<Rightarrow> pktPacket \<Rightarrow> pktFrame \<Rightarrow> pktRun \<Rightarrow> pktRun option" where
  "link_frame lib opts roles defaultRole linkType p f s =
     (case pktStripLink linkType (fr_data f) of
        None \<Rightarrow> Some (emit (p\<lparr>p_Proto := ''?'', p_Info := ''unparsable link frame ('' @ go_utoa (length (fr_data f)) @ '' bytes)''\<rparr>) s)
      | Some (et, l2) \<Rightarrow>
          if et = 0x0806 then
            (case pktARPDecode (dl_walk lib) p l2 (s_net s) of
               (p1, net) \<Rightarrow> Some (emit (dedupe_issues p1) (s\<lparr>s_net := net\<rparr>)))
          else
            (case pktParseIP et l2 of
               None \<Rightarrow> Some (emit (p\<lparr>p_Proto := pktNonIPName et,
                         p_Info := pktNonIPName et @ '' frame, '' @ go_utoa (fr_orig f) @ '' bytes''\<rparr>) s)
             | Some l3 \<Rightarrow> ip_frame lib opts roles defaultRole p l3 (fr_ts f) s))"

definition decode_frame ::
  "drv_lib \<Rightarrow> pktDecodeOpts \<Rightarrow> nat \<Rightarrow> (nat \<rightharpoonup> string) \<Rightarrow> string \<Rightarrow> nat \<Rightarrow> pktFrame \<Rightarrow> pktRun \<Rightarrow> pktRun option" where
  "decode_frame lib opts maxPackets roles defaultRole linkType f s =
     (let s1 = s\<lparr>s_no := s_no s + 1\<rparr> in
      if length (s_Packets s1) \<ge> maxPackets then Some (s1\<lparr>s_Dropped := s_Dropped s1 + 1\<rparr>)
      else
        link_frame lib opts roles defaultRole linkType (frame_packet (s_no s1) f) f
          (if fr_orig f > length (fr_data f) then s1\<lparr>s_Truncat := s_Truncat s1 + 1\<rparr> else s1))"

fun decode_frames ::
  "drv_lib \<Rightarrow> pktDecodeOpts \<Rightarrow> nat \<Rightarrow> (nat \<rightharpoonup> string) \<Rightarrow> string \<Rightarrow> nat \<Rightarrow> pktFrame list \<Rightarrow> pktRun \<Rightarrow> pktRun option" where
  "decode_frames lib opts maxPackets roles defaultRole linkType [] s = Some s"
| "decode_frames lib opts maxPackets roles defaultRole linkType (f # fs) s =
     (case decode_frame lib opts maxPackets roles defaultRole linkType f s of
        None \<Rightarrow> None
      | Some s' \<Rightarrow> decode_frames lib opts maxPackets roles defaultRole linkType fs s')"

section \<open>The whole capture\<close>

definition unanswered_syn :: string where
  "unanswered_syn = ''Connection attempt unanswered '' @ em_dash @ '' client waits its connect timeout, then 2003 CR_CONN_HOST_ERROR''"

definition silent_conn :: string where
  "silent_conn = ''Connection opened and closed without sending anything '' @ em_dash @ '' a TCP-level health check (HAProxy'' @ [CHR 0x27] @ ''s tcp-check, a Kubernetes probe) or a port scan; the server logs it as '' @ [CHR 0x22] @ ''incomplete startup packet'' @ [CHR 0x22] @ '' and it still costs a backend fork''"

definition mark_unanswered :: "pktConn \<Rightarrow> pktPacket list \<Rightarrow> pktPacket list" where
  "mark_unanswered c ps =
     (if c_haveSyn c \<and> \<not> c_synAcked c \<and> c_synNo c > 0 then mark_frame (c_synNo c) unanswered_syn ps else ps)"

definition mark_silent :: "pktConn \<Rightarrow> pktPacket list \<Rightarrow> pktPacket list" where
  "mark_silent c ps =
     (if c_role c \<notin> {pktRolePostgres, pktRoleMongo, pktRoleValkey} then ps
      else if \<not> c_haveSyn c \<or> \<not> c_synAcked c \<or> c_sawData c \<or> c_synNo c = 0 then ps
      else mark_frame (c_synNo c) silent_conn ps)"

definition conn_stream :: "pktConn \<Rightarrow> pktStream" where
  "conn_stream c =
     \<lparr>st_Index = c_idx c, st_Client = c_client c, st_Server = c_server c, st_Packets = c_Packets c, st_Bytes = c_Bytes c,
      st_StartTS = c_StartTS c, st_EndTS = c_EndTS c, st_Queries = c_Queries c, st_Errors = c_Errors c, st_Role = c_Role c,
      st_RoleLabel = c_RoleLabel c, st_TLS = c_tls c, st_User = c_user c, st_Database = c_database c,
      st_Version = c_version c, st_Reset = c_Reset c\<rparr>"

definition finish_run :: "drv_lib \<Rightarrow> pktReader \<Rightarrow> string \<Rightarrow> pktRun \<Rightarrow> pktDecoded" where
  "finish_run lib r engine s =
     (let ps = pktNetFinish (dl_ips lib (s_net s)) (dl_ids lib (s_net s)) (s_Packets s) (s_net s)
      in \<lparr>d_Packets = fold mark_silent (s_order s) (fold mark_unanswered (s_order s) ps),
          d_Streams = sort_key st_Index (map conn_stream (s_order s)), d_LinkType = r_linkType r, d_Format = r_format r,
          d_Dropped = s_Dropped s, d_Truncat = s_Truncat s, d_Engine = engine\<rparr>)"

definition engine_roles :: "string \<Rightarrow> nat \<Rightarrow> nat \<rightharpoonup> string" where
  "engine_roles engine port =
     (if engine = pktEnginePostgres then pktPGPortRoles port
      else if engine = pktEngineMongoDB then pktMongoPortRoles port
      else if engine = pktEngineValkey then pktValkeyPortRoles port
      else pktGaleraPortRoles port)"

definition default_role :: "string \<Rightarrow> string" where
  "default_role engine =
     (if engine = pktEnginePostgres then pktRolePostgres
      else if engine = pktEngineMongoDB then pktRoleMongo
      else if engine = pktEngineValkey then pktRoleValkey
      else pktRoleMySQL)"

definition max_packets :: "pktDecodeOpts \<Rightarrow> nat" where
  "max_packets opts = nat (if o_MaxPackets opts \<le> 0 \<or> o_MaxPackets opts > pktMaxPackets then pktMaxPackets else o_MaxPackets opts)"

definition run_engine :: "drv_lib \<Rightarrow> pktDecodeOpts \<Rightarrow> pktReader \<Rightarrow> string \<Rightarrow> pktDecoded option" where
  "run_engine lib opts r engine =
     (let roles = (if o_PortRoles opts = [] then engine_roles engine (o_ServerPort opts) else map_of (o_PortRoles opts)) in
      map_option (finish_run lib r engine)
        (decode_frames lib opts (max_packets opts) roles (default_role engine) (r_linkType r) (all_frames r) new_run))"

definition pktDecode :: "drv_lib \<Rightarrow> bytes \<Rightarrow> pktDecodeOpts \<Rightarrow> (string + pktDecoded) option" where
  "pktDecode lib buf opts =
     (case pktOpen buf of
        Inl e \<Rightarrow> Some (Inl e)
      | Inr r \<Rightarrow>
          (case (if o_Engine opts = [] then pktSniffEngine buf (o_ServerPort opts) else Some (o_Engine opts)) of
             None \<Rightarrow> None
           | Some engine \<Rightarrow> map_option Inr (run_engine lib opts r engine)))"

section \<open>The decoders behind the driver\<close>

interpretation driver_app: app_decoder "app_decode lib" for lib
proof
  fix p c fc b ts
  show "dec_keeps p c (app_decode lib p c fc b ts)"
    unfolding app_decode_def Let_def
    by (intro if_pred [of _ "dec_keeps p c"] mysql_app.decode_keeps pg_app.decode_keeps mongo_app.decode_keeps
        valkey_app.decode_keeps bus_app.decode_keeps patroni_app.decode_keeps etcd_app.decode_keeps galera_app.decode_keeps)
qed

text \<open>A connection's place in the table.\<close>

definition conn_id :: "pktConn \<Rightarrow> nat \<times> string \<times> string \<times> nat \<times> nat \<times> string" where
  "conn_id c = (c_idx c, c_client c, c_server c, c_Packets c, c_Bytes c, c_role c)"

lemma conn_id_updates [keep]:
  "conn_id (c\<lparr>c_synTS := i\<rparr>) = conn_id c" "conn_id (c\<lparr>c_synNo := k\<rparr>) = conn_id c" "conn_id (c\<lparr>c_haveSyn := b\<rparr>) = conn_id c"
  "conn_id (c\<lparr>c_synced := b\<rparr>) = conn_id c" "conn_id (c\<lparr>c_c2s := d\<rparr>) = conn_id c" "conn_id (c\<lparr>c_s2c := d\<rparr>) = conn_id c"
  "conn_id (c\<lparr>c_synAcked := b\<rparr>) = conn_id c" "conn_id (c\<lparr>c_sawData := b\<rparr>) = conn_id c" "conn_id (c\<lparr>c_Reset := b\<rparr>) = conn_id c"
  "conn_id (set_dir fc d c) = conn_id c" "conn_id (if b then c1 else c2) = (if b then conn_id c1 else conn_id c2)"
  by (simp_all add: conn_id_def set_dir_def)

lemma health_parts [keep]:
  "frame_of (fst (health_handshake p c tcp ts)) = frame_of p" "conn_id (snd (health_handshake p c tcp ts)) = conn_id c"
  "frame_of (fst (health_sequence p dir tcp)) = frame_of p"
  "frame_of (fst (health_reset p c tcp)) = frame_of p" "conn_id (snd (health_reset p c tcp)) = conn_id c"
  "frame_of (health_closed p c tcp) = frame_of p" "frame_of (fst (health_acks p dir tcp)) = frame_of p"
  by (simp_all only: health_handshake_def health_sequence_def health_reset_def health_closed_def health_acks_def keep)

lemma health_keeps:
  "frame_of (fst (pktTCPHealth p c fc tcp ts)) = frame_of p" "conn_id (snd (pktTCPHealth p c fc tcp ts)) = conn_id c"
  by (simp_all only: pktTCPHealth_def keep)

lemma conn_decode_keeps:
  assumes "conn_decode lib p c fc tcp ts = Some (p', c')"
  shows "frame_of p' = frame_of p \<and> conn_id c' = conn_id c"
proof -
  obtain p1 c1 where h: "pktTCPHealth p c fc tcp ts = (p1, c1)" by fastforce
  then show ?thesis
    using assms health_keeps [of p c fc tcp ts] driver_app.decode_frame_of [of lib p1 c1 fc "t_payload tcp" ts p' c']
      driver_app.decode_ends_of [of lib p1 c1 fc "t_payload tcp" ts p' c']
    by (auto simp: conn_decode_def ends_of_def conn_id_def split: if_splits)
qed

section \<open>Every frame has its row\<close>

text \<open>The part of a row that says which frame of the capture it stands for.\<close>

definition row_of :: "pktPacket \<Rightarrow> nat \<times> int \<times> nat \<times> nat \<times> nat" where
  "row_of p = (p_No p, p_TS p, p_FrameLen p, p_off p, p_cap p)"

definition frame_row :: "nat \<Rightarrow> pktFrame \<Rightarrow> nat \<times> int \<times> nat \<times> nat \<times> nat" where
  "frame_row no f = (no, pktTS (fr_ts f), fr_orig f, fr_off f, length (fr_data f))"

lemma row_of_updates:
  "row_of (p\<lparr>p_Proto := x1\<rparr>) = row_of p" "row_of (p\<lparr>p_Info := x1\<rparr>) = row_of p" "row_of (p\<lparr>p_Issues := x2\<rparr>) = row_of p"
  "row_of (p\<lparr>p_Src := x1\<rparr>) = row_of p" "row_of (p\<lparr>p_Dst := x1\<rparr>) = row_of p" "row_of (dedupe_issues p) = row_of p"
  "row_of (add_issue x1 p) = row_of p"
  by (simp_all add: row_of_def dedupe_issues_def add_issue_def)

lemma stream_updates:
  "p_Stream (p\<lparr>p_Proto := x1\<rparr>) = p_Stream p" "p_Stream (p\<lparr>p_Info := x1\<rparr>) = p_Stream p"
  "p_Stream (p\<lparr>p_Src := x1\<rparr>) = p_Stream p" "p_Stream (p\<lparr>p_Dst := x1\<rparr>) = p_Stream p"
  "p_Stream (dedupe_issues p) = p_Stream p" "p_Stream (add_issue x1 p) = p_Stream p"
  by (simp_all add: dedupe_issues_def add_issue_def)

lemma frame_of_eq: "frame_of p = frame_of q \<Longrightarrow> row_of p = row_of q \<and> p_Stream p = p_Stream q
  \<and> p_Dir p = p_Dir q \<and> p_Src p = p_Src q \<and> p_Dst p = p_Dst q \<and> p_FrameLen p = p_FrameLen q"
  by (simp add: frame_of_def row_of_def)

lemma arp_frame: "frame_of (fst (pktARPDecode w p b st)) = frame_of p"
  by (simp only: pktARPDecode_def arp_op_def pktARPClaim_def keep)

lemma dns_frame: "frame_of (fst (pktDNSDecode flt p b ts st)) = frame_of p"
  by (simp only: pktDNSDecode_def dns_latency_def dns_outcome_def keep)

lemma pktDedupe_loop_distinct: "distinct (pktDedupe_loop xs seen) \<and> set (pktDedupe_loop xs seen) \<inter> set seen = {}"
  by (induction xs seen rule: pktDedupe_loop.induct) auto

lemma pktDedupe_distinct: "distinct (pktDedupe xs)"
  using pktDedupe_loop_distinct [of xs "[]"] by (cases xs rule: remdups_adj.cases) (auto simp: pktDedupe_def)

lemma dedupe_issues_distinct: "distinct (p_Issues (dedupe_issues p))" "distinct (p_Issues (seg_done tcp p))"
  by (simp_all add: dedupe_issues_def pktDedupe_distinct seg_done_def)

end
