(* ===== verification/Pkt_Streams.thy ===== *)
theory Pkt_Streams
  imports Pkt_Driver
begin

text \<open>
  What a decoded capture promises (\<^verbatim>\<open>pktDecode\<close> of \<^verbatim>\<open>src/app/pktdecode.go\<close>): every frame within the limit has
  its row, in order, and every row of a TCP segment names the connection it belongs to, whose endpoints
  and counters are those of its rows.
\<close>

section \<open>Keys\<close>

text \<open>An address has no bar in it, so a key determines both endpoints.\<close>

definition bar_free :: "string \<Rightarrow> bool" where
  "bar_free s \<longleftrightarrow> CHR ''|'' \<notin> set s"

lemma digit_no_bar: "d < 10 \<Longrightarrow> digit_char d \<noteq> CHR ''|''"
  by (auto simp: digit_char_def dest!: arg_cong [of _ _ "of_char :: char \<Rightarrow> nat"])

lemma hex_no_bar: "d < 16 \<Longrightarrow> hex_char d \<noteq> CHR ''|'' "
  by (auto simp: hex_char_def dest!: arg_cong [of _ _ "of_char :: char \<Rightarrow> nat"] split: if_splits)

lemma bar_free_simps [simp]:
  "bar_free [] = True" "bar_free (c # s) \<longleftrightarrow> c \<noteq> CHR ''|'' \<and> bar_free s" "bar_free (s @ t) \<longleftrightarrow> bar_free s \<and> bar_free t"
  by (auto simp: bar_free_def)

lemma bar_free_utoa [simp]: "bar_free (go_utoa n)"
proof (induction n rule: go_utoa.induct)
  case (1 n)
  then show ?case unfolding go_utoa.simps [of n] by (simp add: digit_no_bar)
qed

lemma bar_free_x [simp]: "bar_free (go_x n)"
proof (induction n rule: go_x.induct)
  case (1 n)
  then show ?case unfolding go_x.simps [of n] by (simp add: hex_no_bar)
qed

lemma bar_free_ipv6_write: "bar_free sb \<Longrightarrow> bar_free (ipv6_write gs i best k sb)"
  by (induction gs i best k sb rule: ipv6_write.induct) auto

lemma bar_free_addr: "bar_free (pktIPv4 b)" "bar_free (pktIPv6 b)"
  by (simp_all add: pktIPv4_def pktIPv6_def Let_def bar_free_ipv6_write)

lemma bar_free_ip: "pktParseIP et b = Some l3 \<Longrightarrow> bar_free (l3_srcIP l3) \<and> bar_free (l3_dstIP l3)"
  by (auto simp: pktParseIP_def Let_def bar_free_addr split: if_splits)

lemma bar_free_ip_port: "bar_free ip \<Longrightarrow> bar_free (ip_port ip port)"
  by (simp add: ip_port_def)

lemma bar_split: "a @ CHR ''|'' # b = c @ CHR ''|'' # d \<Longrightarrow> bar_free a \<Longrightarrow> bar_free c \<Longrightarrow> a = c \<and> b = d"
proof (induction a arbitrary: c)
  case Nil
  then show ?case by (cases c) (auto simp: bar_free_def)
next
  case (Cons x a)
  then show ?case by (cases c) (auto simp: bar_free_def)
qed

lemma conn_key_inj:
  "conn_key True a b = conn_key True c d \<Longrightarrow> bar_free a \<Longrightarrow> bar_free c \<Longrightarrow> a = c \<and> b = d"
  by (auto simp: conn_key_def dest: bar_split)

section \<open>The table of connections\<close>

definition ends_match :: "pktConn \<Rightarrow> pktPacket \<Rightarrow> bool" where
  "ends_match c p \<longleftrightarrow> (p_Dir p = ''c2s'' \<and> p_Src p = c_client c \<and> p_Dst p = c_server c)
     \<or> (p_Dir p = ''s2c'' \<and> p_Src p = c_server c \<and> p_Dst p = c_client c)"

definition seg_ok :: "pktConn list \<Rightarrow> pktPacket \<Rightarrow> bool" where
  "seg_ok cs p \<longleftrightarrow> p_Stream p = -1 \<or> (\<exists>i < length cs. p_Stream p = int i \<and> ends_match (cs ! i) p)"

definition conns_ok :: "(string \<rightharpoonup> nat) \<Rightarrow> pktConn list \<Rightarrow> bool" where
  "conns_ok conns cs \<longleftrightarrow>
     (\<forall>key i. conns key = Some i \<longleftrightarrow> i < length cs \<and> key = conn_key True (c_client (cs ! i)) (c_server (cs ! i)))
     \<and> (\<forall>i < length cs. c_idx (cs ! i) = i \<and> bar_free (c_client (cs ! i)) \<and> bar_free (c_server (cs ! i)))"

definition of_stream :: "nat \<Rightarrow> pktPacket list \<Rightarrow> pktPacket list" where
  "of_stream i ps = filter (\<lambda>p. p_Stream p = int i) ps"

definition counts_ok :: "pktConn list \<Rightarrow> pktPacket list \<Rightarrow> bool" where
  "counts_ok cs ps \<longleftrightarrow> (\<forall>i < length cs. c_Packets (cs ! i) = length (of_stream i ps)
     \<and> c_Bytes (cs ! i) = sum_list (map p_FrameLen (of_stream i ps)))"

definition run_ok :: "pktRun \<Rightarrow> bool" where
  "run_ok s \<longleftrightarrow> conns_ok (s_conns s) (s_order s) \<and> list_all (seg_ok (s_order s)) (s_Packets s)
     \<and> counts_ok (s_order s) (s_Packets s) \<and> list_all (\<lambda>p. distinct (p_Issues p)) (s_Packets s)"

lemma run_ok_new: "run_ok new_run"
  by (simp add: run_ok_def new_run_def conns_ok_def counts_ok_def)

lemma run_ok_fields [simp]:
  "run_ok (s\<lparr>s_Dropped := k\<rparr>) = run_ok s" "run_ok (s\<lparr>s_Truncat := k\<rparr>) = run_ok s" "run_ok (s\<lparr>s_no := k\<rparr>) = run_ok s"
  "run_ok (s\<lparr>s_net := net\<rparr>) = run_ok s" "run_ok (s\<lparr>s_samePortClient := m\<rparr>) = run_ok s"
  by (simp_all add: run_ok_def)

lemma run_ok_emit:
  "run_ok s \<Longrightarrow> p_Stream p = -1 \<Longrightarrow> distinct (p_Issues p) \<Longrightarrow> run_ok (emit p s)"
  by (simp add: run_ok_def emit_def seg_ok_def counts_ok_def of_stream_def)

lemma conn_key_False: "conn_key False a b = conn_key True b a"
  by (simp add: conn_key_def)

text \<open>The endpoints of a segment in the order client, server.\<close>

definition seg_ends :: "bool \<Rightarrow> pktPacket \<Rightarrow> string \<times> string" where
  "seg_ends fc p = (if fc then (p_Src p, p_Dst p) else (p_Dst p, p_Src p))"

lemma conn_key_ends: "conn_key fc (p_Src p) (p_Dst p) = conn_key True (fst (seg_ends fc p)) (snd (seg_ends fc p))"
  by (simp add: conn_key_def seg_ends_def)

lemma open_conn_new:
  assumes "s_conns s (conn_key fc (p_Src p) (p_Dst p)) = None"
  shows "\<exists>c. open_conn role fc p s = (length (s_order s), s\<lparr>s_conns := (s_conns s)(conn_key fc (p_Src p) (p_Dst p) \<mapsto> length (s_order s)),
      s_order := s_order s @ [c]\<rparr>)
    \<and> c_idx c = length (s_order s) \<and> (c_client c, c_server c) = seg_ends fc p \<and> c_Packets c = 0 \<and> c_Bytes c = 0"
  using assms by (auto simp: open_conn_def seg_ends_def new_conn_def Let_def)

lemma of_stream_fresh:
  "list_all (seg_ok cs) ps \<Longrightarrow> length cs \<le> i \<Longrightarrow> of_stream i ps = []"
  by (auto simp: of_stream_def filter_empty_conv list_all_iff seg_ok_def)

lemma open_conn_ok:
  assumes s: "run_ok s" and b: "bar_free (p_Src p)" "bar_free (p_Dst p)" and o: "open_conn role fc p s = (i, s1)"
  shows "run_ok s1 \<and> i < length (s_order s1) \<and> s_Packets s1 = s_Packets s \<and> s_no s1 = s_no s \<and> s_Dropped s1 = s_Dropped s
    \<and> (c_client (s_order s1 ! i), c_server (s_order s1 ! i)) = seg_ends fc p"
proof (cases "s_conns s (conn_key fc (p_Src p) (p_Dst p))")
  case (Some j)
  have t: "conns_ok (s_conns s) (s_order s)" using s by (simp add: run_ok_def)
  have "j < length (s_order s)" "conn_key True (fst (seg_ends fc p)) (snd (seg_ends fc p))
      = conn_key True (c_client (s_order s ! j)) (c_server (s_order s ! j))"
    using t Some unfolding conns_ok_def conn_key_ends [symmetric] by auto
  moreover have "bar_free (fst (seg_ends fc p))" using b by (simp add: seg_ends_def)
  ultimately show ?thesis using o Some s t conn_key_inj [of "fst (seg_ends fc p)" "snd (seg_ends fc p)"]
    by (auto simp: open_conn_def conns_ok_def Let_def prod_eq_iff)
next
  case None
  let ?n = "length (s_order s)" and ?key = "conn_key fc (p_Src p) (p_Dst p)"
  obtain c where c: "s1 = s\<lparr>s_conns := (s_conns s)(?key \<mapsto> ?n), s_order := s_order s @ [c]\<rparr>" "i = ?n"
    "c_idx c = ?n" "(c_client c, c_server c) = seg_ends fc p" "c_Packets c = 0" "c_Bytes c = 0"
    using open_conn_new [OF None, of role] o by auto
  have k: "?key = conn_key True (c_client c) (c_server c)" using c(4) by (metis conn_key_ends fst_conv snd_conv)
  have bc: "bar_free (c_client c)" "bar_free (c_server c)" using c(4) b by (auto simp: seg_ends_def split: if_splits)
  have t: "conns_ok (s_conns s) (s_order s)" and q: "list_all (seg_ok (s_order s)) (s_Packets s)"
    and n: "counts_ok (s_order s) (s_Packets s)" using s by (simp_all add: run_ok_def)
  have fresh: "conn_key True (c_client c) (c_server c) \<noteq> conn_key True (c_client (s_order s ! j)) (c_server (s_order s ! j))"
    if "j < ?n" for j
    using t None k that unfolding conns_ok_def by (metis option.distinct(1))
  have "conns_ok (s_conns s1) (s_order s1)"
    using t k bc fresh c(1,3) unfolding conns_ok_def
    by (auto simp: nth_append less_Suc_eq)
  moreover have "list_all (seg_ok (s_order s1)) (s_Packets s1)"
    using q c(1) by (fastforce simp: list_all_iff seg_ok_def nth_append)
  moreover have "counts_ok (s_order s1) (s_Packets s1)"
    using n c(1,5,6) of_stream_fresh [OF q, of ?n] by (auto simp: counts_ok_def nth_append less_Suc_eq)
  ultimately show ?thesis using s c by (simp add: run_ok_def nth_append)
qed

section \<open>One frame, one row\<close>

definition stepped :: "nat \<times> int \<times> nat \<times> nat \<times> nat \<Rightarrow> pktRun \<Rightarrow> pktRun \<Rightarrow> bool" where
  "stepped row s s' \<longleftrightarrow> run_ok s' \<and> s_no s' = s_no s \<and> s_Dropped s' = s_Dropped s \<and> s_Truncat s' = s_Truncat s
     \<and> (\<exists>p. s_Packets s' = s_Packets s @ [p] \<and> row_of p = row)"

lemma stepped_emit:
  "run_ok s \<Longrightarrow> p_Stream p = -1 \<Longrightarrow> distinct (p_Issues p) \<Longrightarrow> row_of p = row \<Longrightarrow> stepped row s (emit p (s\<lparr>s_net := net\<rparr>))"
  "run_ok s \<Longrightarrow> p_Stream p = -1 \<Longrightarrow> distinct (p_Issues p) \<Longrightarrow> row_of p = row \<Longrightarrow> stepped row s (emit p s)"
  using run_ok_emit [of s p] run_ok_emit [of "s\<lparr>s_net := net\<rparr>" p] by (auto simp: stepped_def emit_def)

definition bare :: "nat \<times> int \<times> nat \<times> nat \<times> nat \<Rightarrow> pktPacket \<Rightarrow> bool" where
  "bare row p \<longleftrightarrow> p_Stream p = -1 \<and> p_Issues p = [] \<and> row_of p = row"

lemma bare_updates [simp]:
  "bare row (p\<lparr>p_Proto := x1\<rparr>) = bare row p" "bare row (p\<lparr>p_Info := x1\<rparr>) = bare row p"
  "bare row (p\<lparr>p_Src := x1\<rparr>) = bare row p" "bare row (p\<lparr>p_Dst := x1\<rparr>) = bare row p"
  by (simp_all add: bare_def row_of_updates)

lemma bare_emit: "bare row p \<Longrightarrow> run_ok s \<Longrightarrow> stepped row s (emit p s)"
  by (simp add: bare_def stepped_emit)

lemma bare_decoded:
  "bare row p \<Longrightarrow> run_ok s \<Longrightarrow> frame_of p' = frame_of p \<Longrightarrow> stepped row s (emit (dedupe_issues p') (s\<lparr>s_net := net\<rparr>))"
  using frame_of_eq [of p' p] by (auto simp: bare_def row_of_updates stream_updates dedupe_issues_distinct intro!: stepped_emit)

lemma galera_udp_bare: "bare row p \<Longrightarrow> bare row (galera_udp roles ports n p)"
  by (induction roles ports n p rule: galera_udp.induct) (simp_all split: option.split)

lemma udp_frame_step:
  assumes "bare row p" "run_ok s"
  shows "stepped row s (udp_frame lib opts p l3 s)"
proof -
  have dns: "stepped row s (case pktDNSDecode flt q b ts net of (p2, net') \<Rightarrow> emit (dedupe_issues p2) (s\<lparr>s_net := net'\<rparr>))"
    if "bare row q" for flt q b ts net
    using bare_decoded [OF that assms(2) dns_frame] by (simp add: split_def)
  show ?thesis unfolding udp_frame_def Let_def
    by (intro if_pred [of _ "stepped row s"] dns bare_emit if_pred [of _ "bare row"] galera_udp_bare; simp add: assms)
qed

lemma icmp_step: "bare row p \<Longrightarrow> run_ok s \<Longrightarrow> stepped row s (emit (icmp_packet p b) s)"
  by (rule stepped_emit) (auto simp: icmp_packet_def Let_def bare_def add_issue_def row_of_updates row_of_def)

lemma of_stream_snoc: "of_stream i (ps @ [p]) = of_stream i ps @ (if p_Stream p = int i then [p] else [])"
  by (simp add: of_stream_def)

lemma run_ok_segment:
  assumes s: "run_ok s" and i: "i < length (s_order s)"
    and c: "conn_id c' = (c_idx c, c_client c, c_server c, c_Packets c + 1, c_Bytes c + p_FrameLen p, c_role c)" "c = s_order s ! i"
    and p: "p_Stream p = int i" "ends_match c p" "distinct (p_Issues p)"
  shows "run_ok (emit p (s\<lparr>s_order := (s_order s)[i := c']\<rparr>))"
proof -
  let ?cs = "(s_order s)[i := c']"
  have e: "c_client (?cs ! j) = c_client (s_order s ! j)" "c_server (?cs ! j) = c_server (s_order s ! j)"
    "c_idx (?cs ! j) = c_idx (s_order s ! j)" for j
    using c i by (cases "j = i", auto simp: conn_id_def)+
  have "conns_ok (s_conns s) ?cs" using s unfolding run_ok_def conns_ok_def e length_list_update by blast
  moreover have "ends_match (?cs ! j) = ends_match (s_order s ! j)" for j
    by (simp add: fun_eq_iff ends_match_def e)
  then have "seg_ok ?cs = seg_ok (s_order s)" by (simp add: fun_eq_iff seg_ok_def)
  then have "list_all (seg_ok ?cs) (s_Packets s @ [p])"
    using s p(1,2) i c(2) by (auto simp: run_ok_def seg_ok_def)
  moreover have "counts_ok ?cs (s_Packets s @ [p])"
    using s c i p(1) by (auto simp: run_ok_def counts_ok_def of_stream_snoc nth_list_update conn_id_def)
  ultimately show ?thesis using s p(3) by (simp add: run_ok_def emit_def)
qed

lemma seg_packet_simps [simp]:
  "row_of (seg_packet p l3 tcp) = row_of p" "p_FrameLen (seg_packet p l3 tcp) = p_FrameLen p"
  "p_Src (seg_packet p l3 tcp) = ip_port (l3_srcIP l3) (t_srcPort tcp)"
  "p_Dst (seg_packet p l3 tcp) = ip_port (l3_dstIP l3) (t_dstPort tcp)"
  by (simp_all add: seg_packet_def row_of_def)

lemma seg_done_frame: "frame_of (seg_done tcp p) = frame_of p"
  by (simp add: seg_done_def dedupe_issues_def frame_of_updates)

lemma tcp_frame_step:
  assumes p0: "bare row p0" and s: "run_ok s" and b: "bar_free (l3_srcIP l3)" "bar_free (l3_dstIP l3)"
    and t: "tcp_frame lib roles dr sport p0 l3 tcp ts s = Some s'"
  shows "stepped row s s'"
proof -
  let ?p = "seg_packet p0 l3 tcp"
  define known where "known = same_port_note (p_Src ?p) (p_Dst ?p) tcp (s_samePortClient s)"
  define role fc where "role = fst (port_role roles dr sport (t_srcPort tcp) (t_dstPort tcp))"
    and "fc = same_port_dir (p_Src ?p) (p_Dst ?p) tcp known (snd (port_role roles dr sport (t_srcPort tcp) (t_dstPort tcp)))"
  obtain i s1 where o: "open_conn role fc ?p (s\<lparr>s_samePortClient := known\<rparr>) = (i, s1)" by fastforce
  define c where "c = s_order s1 ! i"
  define p1 where "p1 = ?p\<lparr>p_Stream := int (c_idx c), p_Dir := (if fc then ''c2s'' else ''s2c'')\<rparr>"
  obtain p2 c2 where d: "conn_decode lib p1 (c\<lparr>c_Packets := c_Packets c + 1, c_Bytes := c_Bytes c + p_FrameLen ?p, c_EndTS := p_TS ?p\<rparr>)
      fc tcp ts = Some (p2, c2)" and s': "s' = emit (seg_done tcp p2) (s1\<lparr>s_order := (s_order s1)[i := c2]\<rparr>)"
    using t o unfolding tcp_frame_def Let_def split_def role_def fc_def known_def c_def p1_def
    by (auto split: option.splits)
  have s1: "run_ok s1" "i < length (s_order s1)" "s_Packets s1 = s_Packets s" "s_no s1 = s_no s" "s_Dropped s1 = s_Dropped s"
    "(c_client c, c_server c) = seg_ends fc ?p"
    using open_conn_ok [OF _ _ _ o] s b by (simp_all add: bar_free_ip_port c_def)
  have tr: "s_Truncat s1 = s_Truncat s" using o by (auto simp: open_conn_def Let_def split_def split: option.splits)
  have idx: "c_idx c = i" using s1(1,2) by (simp add: run_ok_def conns_ok_def c_def)
  note k = conn_decode_keeps [OF d]
  have f: "frame_of (seg_done tcp p2) = frame_of p1" using k by (simp add: seg_done_frame)
  note q = frame_of_eq [OF f]
  have "run_ok s'"
    unfolding s'
  proof (rule run_ok_segment [OF s1(1,2) _ c_def])
    show "conn_id c2 = (c_idx c, c_client c, c_server c, c_Packets c + 1, c_Bytes c + p_FrameLen (seg_done tcp p2), c_role c)"
      using k q by (simp add: conn_id_def p1_def)
    show "p_Stream (seg_done tcp p2) = int i" using q idx by (simp add: p1_def)
    show "ends_match c (seg_done tcp p2)"
      using q s1(6) unfolding ends_match_def p1_def seg_ends_def by (cases fc) simp_all
  qed (rule dedupe_issues_distinct)
  moreover have "row_of (seg_done tcp p2) = row" using q p0 by (simp add: p1_def row_of_def bare_def) (simp add: seg_packet_def)
  ultimately show ?thesis using s1(3-5) tr by (simp add: stepped_def s' emit_def)
qed

lemma ip_frame_step:
  assumes "bare row p" "run_ok s" "pktParseIP et l2 = Some l3" "ip_frame lib opts roles dr p l3 ts s = Some s'"
  shows "stepped row s s'"
proof -
  let ?p = "p\<lparr>p_Src := l3_srcIP l3, p_Dst := l3_dstIP l3\<rparr>"
  have tcp: "tcp_frame lib roles dr sp ?p l3 tcp ts s = Some s' \<Longrightarrow> stepped row s s'" for tcp sp
    using assms(1,2) bar_free_ip [OF assms(3)] by (intro tcp_frame_step [of row ?p s l3]) simp_all
  show ?thesis using assms(1,2,4) unfolding ip_frame_def Let_def
    by (auto split: if_splits option.splits intro: tcp udp_frame_step icmp_step bare_emit)
qed

lemma frame_packet_bare: "bare (frame_row no f) (frame_packet no f)"
  by (simp add: bare_def frame_row_def frame_packet_def row_of_def new_packet_def)

lemma link_frame_step:
  assumes p: "bare row p" and s: "run_ok s" and d: "link_frame lib opts roles dr lt p f s = Some s'"
  shows "stepped row s s'"
proof -
  have arp: "stepped row s (emit (dedupe_issues p1) (s\<lparr>s_net := net'\<rparr>))" if "pktARPDecode w p l2 net = (p1, net')" for w l2 net p1 net'
    using bare_decoded [OF p s, of p1 net'] arp_frame [of w p l2 net] that by simp
  show ?thesis using d p s unfolding link_frame_def
    by (auto split: option.splits if_splits prod.splits intro: arp bare_emit ip_frame_step)
qed

text \<open>A frame past the limit is counted; any other gets a row.\<close>

lemma decode_frame_step:
  assumes s: "run_ok s" and d: "decode_frame lib opts mx roles dr lt f s = Some s'"
  shows "run_ok s' \<and> s_no s' = s_no s + 1 \<and>
    (if mx \<le> length (s_Packets s) then s_Packets s' = s_Packets s \<and> s_Dropped s' = s_Dropped s + 1 \<and> s_Truncat s' = s_Truncat s
     else (\<exists>p. s_Packets s' = s_Packets s @ [p] \<and> row_of p = frame_row (s_no s + 1) f) \<and> s_Dropped s' = s_Dropped s
       \<and> s_Truncat s' = s_Truncat s + (if fr_orig f > length (fr_data f) then 1 else 0))"
proof (cases "mx \<le> length (s_Packets s)")
  case True
  then show ?thesis using s d by (auto simp: decode_frame_def Let_def)
next
  case False
  define t where "t = (if fr_orig f > length (fr_data f) then s\<lparr>s_no := s_no s + 1, s_Truncat := s_Truncat s + 1\<rparr> else s\<lparr>s_no := s_no s + 1\<rparr>)"
  have "run_ok t" using s by (simp add: t_def)
  moreover have "link_frame lib opts roles dr lt (frame_packet (s_no s + 1) f) f t = Some s'"
    using d False by (auto simp: decode_frame_def Let_def t_def split: if_splits)
  ultimately have "stepped (frame_row (s_no s + 1) f) t s'" by (rule link_frame_step [OF frame_packet_bare])
  then show ?thesis using False by (auto simp: stepped_def t_def)
qed

section \<open>All frames\<close>

text \<open>The rows a run must have after the frames \<open>fs\<close>, with room for \<open>mx\<close> rows.\<close>

definition rows_for :: "nat \<Rightarrow> pktFrame list \<Rightarrow> (nat \<times> int \<times> nat \<times> nat \<times> nat) list" where
  "rows_for mx fs = take mx (map2 frame_row [1..<Suc (length fs)] fs)"

definition cut_short :: "pktFrame list \<Rightarrow> nat" where
  "cut_short fs = length (filter (\<lambda>f. fr_orig f > length (fr_data f)) fs)"

definition seen_ok :: "nat \<Rightarrow> pktFrame list \<Rightarrow> pktRun \<Rightarrow> bool" where
  "seen_ok mx fs s \<longleftrightarrow> run_ok s \<and> s_no s = length fs \<and> map row_of (s_Packets s) = rows_for mx fs
     \<and> s_Dropped s = length fs - mx \<and> s_Truncat s = cut_short (take mx fs)"

lemma seen_ok_length: "seen_ok mx fs s \<Longrightarrow> length (s_Packets s) = min mx (length fs)"
  unfolding seen_ok_def rows_for_def by (metis length_map length_take length_upt length_zip min.idem diff_Suc_1 One_nat_def min.commute)

lemma seen_ok_step:
  assumes s: "seen_ok mx fs s" and d: "decode_frame lib opts mx roles dr lt f s = Some s'"
  shows "seen_ok mx (fs @ [f]) s'"
proof -
  have len: "length (s_Packets s) = min mx (length fs)" using s by (rule seen_ok_length)
  have r: "map row_of (s_Packets s) = rows_for mx fs" "s_no s = length fs" using s by (simp_all add: seen_ok_def)
  have u: "[1..<Suc (length (fs @ [f]))] = [1..<Suc (length fs)] @ [length fs + 1]" by simp
  have z: "rows_for mx (fs @ [f]) = (if mx \<le> length fs then rows_for mx fs else rows_for mx fs @ [frame_row (length fs + 1) f])"
    unfolding rows_for_def u by (simp del: upt_Suc)
  show ?thesis using decode_frame_step [OF _ d] s len r z
    by (auto simp: seen_ok_def cut_short_def Suc_diff_le split: if_splits)
qed

lemma decode_frames_ok:
  "seen_ok mx gs s \<Longrightarrow> decode_frames lib opts mx roles dr lt fs s = Some s' \<Longrightarrow> seen_ok mx (gs @ fs) s'"
proof (induction fs arbitrary: gs s)
  case (Cons f fs)
  then obtain s1 where "decode_frame lib opts mx roles dr lt f s = Some s1" "decode_frames lib opts mx roles dr lt fs s1 = Some s'"
    by (auto split: option.splits)
  then show ?case using Cons.IH [of "gs @ [f]" s1] seen_ok_step [OF Cons.prems(1)] by simp
qed simp

lemma seen_ok_new: "seen_ok mx [] new_run"
  using run_ok_new by (simp add: seen_ok_def new_run_def rows_for_def cut_short_def)

section \<open>The post-passes\<close>

text \<open>They add issues and nothing else.\<close>

definition only_issues :: "pktPacket list \<Rightarrow> pktPacket list \<Rightarrow> bool" where
  "only_issues ps qs \<longleftrightarrow> list_all2 (\<lambda>p q. frame_of p = frame_of q \<and> (distinct (p_Issues p) \<longrightarrow> distinct (p_Issues q))) ps qs"

lemma only_issues_refl: "only_issues ps ps"
  by (simp add: only_issues_def list_all2_refl)

lemma only_issues_trans: "only_issues ps qs \<Longrightarrow> only_issues qs rs \<Longrightarrow> only_issues ps rs"
  unfolding only_issues_def by (rule list_all2_trans) auto

lemma mark_frame_only: "only_issues ps (mark_frame no i ps)"
  by (induction ps) (auto simp: only_issues_def frame_of_updates pktDedupe_distinct list_all2_refl)

lemma fold_only: "(\<And>x qs. only_issues qs (f x qs)) \<Longrightarrow> only_issues ps (fold f xs ps)"
  by (induction xs arbitrary: ps) (auto intro: only_issues_refl only_issues_trans)

lemma pktNetFinish_only: "only_issues ps (pktNetFinish ips ids ps st)"
proof -
  have 1: "only_issues qs (fold (\<lambda>ip. fold (\<lambda>f. mark_frame f (arp_unanswered ip)) (arp_pending st ip)) ips qs)" for qs
    by (intro fold_only mark_frame_only)
  have 2: "only_issues qs (fold (\<lambda>i. case n_dnsPending st i of Some q \<Rightarrow> mark_frame (q_frame q) (dns_unanswered (q_name q)) | None \<Rightarrow> id) ids qs)" for qs
    by (intro fold_only) (simp add: mark_frame_only only_issues_refl split: option.split)
  show ?thesis unfolding pktNetFinish_def Let_def by (rule only_issues_trans [OF 1 2])
qed

lemma finish_only: "only_issues (s_Packets s) (d_Packets (finish_run lib r e s))"
proof -
  have "only_issues ps (mark_silent c ps)" "only_issues ps (mark_unanswered c ps)" for c ps
    by (simp_all add: mark_silent_def mark_unanswered_def mark_frame_only only_issues_refl)
  then have "only_issues ps (fold mark_silent cs (fold mark_unanswered cs ps))" for cs ps
    by (meson only_issues_trans fold_only)
  then show ?thesis unfolding finish_run_def Let_def by (simp, meson only_issues_trans pktNetFinish_only)
qed

lemma decoded_run:
  assumes "pktDecode lib buf opts = Some (Inr d)" "pktOpen buf = Inr r"
  obtains s e where "seen_ok (max_packets opts) (all_frames r) s" "d = finish_run lib r e s"
  using assms decode_frames_ok [OF seen_ok_new]
  by (fastforce simp: pktDecode_def run_engine_def Let_def split: option.splits if_splits)

lemma only_issues_rows: "only_issues ps qs \<Longrightarrow> map row_of qs = map row_of ps"
  unfolding only_issues_def by (induction rule: list_all2_induct) (auto dest: frame_of_eq)

lemma only_issues_distinct:
  "only_issues ps qs \<Longrightarrow> list_all (\<lambda>p. distinct (p_Issues p)) ps \<Longrightarrow> list_all (\<lambda>p. distinct (p_Issues p)) qs"
  unfolding only_issues_def by (induction rule: list_all2_induct) auto

lemma only_issues_seg: "only_issues ps qs \<Longrightarrow> list_all (seg_ok cs) ps \<Longrightarrow> list_all (seg_ok cs) qs"
  unfolding only_issues_def
  by (induction rule: list_all2_induct) (auto simp: seg_ok_def ends_match_def dest!: frame_of_eq)

lemma only_issues_stream:
  "only_issues ps qs \<Longrightarrow> map p_FrameLen (of_stream i qs) = map p_FrameLen (of_stream i ps)"
  unfolding only_issues_def of_stream_def by (induction rule: list_all2_induct) (auto dest!: frame_of_eq)

lemma decoded_rows:
  assumes "pktDecode lib buf opts = Some (Inr d)" "pktOpen buf = Inr r"
  shows "map row_of (d_Packets d) = rows_for (max_packets opts) (all_frames r)"
    and "d_Dropped d = length (all_frames r) - max_packets opts"
    and "d_Truncat d = cut_short (take (max_packets opts) (all_frames r))"
    and "list_all (\<lambda>p. distinct (p_Issues p)) (d_Packets d)"
proof -
  obtain s e where s: "seen_ok (max_packets opts) (all_frames r) s" and d: "d = finish_run lib r e s"
    using decoded_run [OF assms] .
  note o = finish_only [of s lib r e]
  show "map row_of (d_Packets d) = rows_for (max_packets opts) (all_frames r)"
    using s only_issues_rows [OF o] by (simp add: d seen_ok_def)
  show "d_Dropped d = length (all_frames r) - max_packets opts" "d_Truncat d = cut_short (take (max_packets opts) (all_frames r))"
    using s by (simp_all add: d seen_ok_def finish_run_def Let_def)
  show "list_all (\<lambda>p. distinct (p_Issues p)) (d_Packets d)"
    using s only_issues_distinct [OF o] by (simp add: d seen_ok_def run_ok_def)
qed

lemma streams_in_order:
  "conns_ok conns cs \<Longrightarrow> sort_key st_Index (map conn_stream cs) = map conn_stream cs"
  by (intro sorted_sort_id sort_key_id_if_sorted) (auto simp: sorted_iff_nth_mono conns_ok_def conn_stream_def)

lemma table_distinct: "conns_ok conns cs \<Longrightarrow> distinct (map (\<lambda>c. (c_client c, c_server c)) cs)"
  unfolding distinct_conv_nth conns_ok_def by (auto) (metis option.inject)

definition stream_match :: "pktStream \<Rightarrow> pktPacket \<Rightarrow> bool" where
  "stream_match st p \<longleftrightarrow> (p_Dir p = ''c2s'' \<and> p_Src p = st_Client st \<and> p_Dst p = st_Server st)
     \<or> (p_Dir p = ''s2c'' \<and> p_Src p = st_Server st \<and> p_Dst p = st_Client st)"

definition stream_ok :: "pktPacket list \<Rightarrow> nat \<Rightarrow> pktStream \<Rightarrow> bool" where
  "stream_ok ps i st \<longleftrightarrow> st_Index st = i \<and> st_Packets st = length (of_stream i ps)
     \<and> st_Bytes st = sum_list (map p_FrameLen (of_stream i ps))
     \<and> list_all (stream_match st) (of_stream i ps)"

lemma decoded_streams:
  assumes "pktDecode lib buf opts = Some (Inr d)"
  shows "distinct (map (\<lambda>st. (st_Client st, st_Server st)) (d_Streams d))"
    and "\<forall>i < length (d_Streams d). stream_ok (d_Packets d) i (d_Streams d ! i)"
    and "\<forall>p \<in> set (d_Packets d). p_Stream p = -1 \<or> (\<exists>i < length (d_Streams d). p_Stream p = int i)"
proof -
  obtain r where r: "pktOpen buf = Inr r" using assms by (auto simp: pktDecode_def split: sum.splits)
  obtain s e where s: "seen_ok (max_packets opts) (all_frames r) s" and d: "d = finish_run lib r e s"
    using decoded_run [OF assms r] .
  have ok: "run_ok s" using s by (simp add: seen_ok_def)
  then have t: "conns_ok (s_conns s) (s_order s)" and seg: "list_all (seg_ok (s_order s)) (d_Packets d)"
    and n: "counts_ok (s_order s) (s_Packets s)"
    using only_issues_seg [OF finish_only] by (simp_all add: run_ok_def d)
  have st: "d_Streams d = map conn_stream (s_order s)"
    using streams_in_order [OF t] by (simp add: d finish_run_def Let_def)
  have fl: "map p_FrameLen (of_stream i (d_Packets d)) = map p_FrameLen (of_stream i (s_Packets s))" for i
    unfolding d by (rule only_issues_stream [OF finish_only])
  show "distinct (map (\<lambda>st. (st_Client st, st_Server st)) (d_Streams d))"
    using table_distinct [OF t] by (simp add: st conn_stream_def comp_def)
  have "stream_ok (d_Packets d) i (conn_stream (s_order s ! i))" if i: "i < length (s_order s)" for i
  proof -
    have "c_Packets (s_order s ! i) = length (of_stream i (d_Packets d))"
      using n i fl [of i] by (metis counts_ok_def length_map)
    moreover have "list_all (stream_match (conn_stream (s_order s ! i))) (of_stream i (d_Packets d))"
      using seg by (auto simp: list_all_iff of_stream_def seg_ok_def stream_match_def ends_match_def conn_stream_def)
    ultimately show ?thesis using n t i fl [of i] by (simp add: stream_ok_def counts_ok_def conns_ok_def conn_stream_def)
  qed
  then show "\<forall>i < length (d_Streams d). stream_ok (d_Packets d) i (d_Streams d ! i)" by (simp add: st)
  show "\<forall>p \<in> set (d_Packets d). p_Stream p = -1 \<or> (\<exists>i < length (d_Streams d). p_Stream p = int i)"
    using seg by (auto simp: st list_all_iff seg_ok_def)
qed

section \<open>A decode that returns\<close>

text \<open>The roles whose decoders are total.\<close>

definition safe_role :: "string \<Rightarrow> bool" where
  "safe_role role \<longleftrightarrow> role \<noteq> pktRoleMongo \<and> role \<noteq> pktRoleValkey \<and> role \<noteq> pktRoleSentinel"

definition safe_roles :: "(nat \<rightharpoonup> string) \<Rightarrow> string \<Rightarrow> bool" where
  "safe_roles roles dr \<longleftrightarrow> safe_role dr \<and> (\<forall>port r. roles port = Some r \<longrightarrow> safe_role r)"

definition safe_run :: "pktRun \<Rightarrow> bool" where
  "safe_run s \<longleftrightarrow> run_ok s \<and> list_all (\<lambda>c. safe_role (c_role c)) (s_order s)"

lemma app_decode_total: "safe_role (c_role c) \<Longrightarrow> app_decode lib p c fc b ts \<noteq> None"
  unfolding app_decode_def Let_def safe_role_def by (simp split: if_split)

lemma conn_decode_total:
  assumes "safe_role (c_role c)"
  obtains p' c' where "conn_decode lib p c fc tcp ts = Some (p', c')" "c_role c' = c_role c"
proof -
  have "c_role (snd (pktTCPHealth p c fc tcp ts)) = c_role c"
    using health_keeps(2) [of p c fc tcp ts] by (simp add: conn_id_def)
  then have "conn_decode lib p c fc tcp ts \<noteq> None"
    using assms app_decode_total by (auto simp: conn_decode_def split: prod.split if_splits)
  then obtain p' c' where d: "conn_decode lib p c fc tcp ts = Some (p', c')" by fastforce
  then show ?thesis using that conn_decode_keeps [OF d] by (simp add: conn_id_def)
qed

lemma port_role_safe: "safe_roles roles dr \<Longrightarrow> safe_role (fst (port_role roles dr sp a b))"
  by (auto simp: port_role_def safe_roles_def split: option.split)

lemma open_conn_safe:
  "safe_role role \<Longrightarrow> list_all (\<lambda>c. safe_role (c_role c)) (s_order s) \<Longrightarrow> open_conn role fc p s = (i, s1) \<Longrightarrow>
     list_all (\<lambda>c. safe_role (c_role c)) (s_order s1)"
  by (auto simp: open_conn_def Let_def split_def split: option.splits)

lemma tcp_frame_total:
  assumes s: "safe_run s" and r: "safe_roles roles dr" and b: "bar_free (l3_srcIP l3)" "bar_free (l3_dstIP l3)"
  shows "\<exists>s'. tcp_frame lib roles dr sp p0 l3 tcp ts s = Some s' \<and> list_all (\<lambda>c. safe_role (c_role c)) (s_order s')"
proof -
  let ?p = "seg_packet p0 l3 tcp"
  obtain role byPort where pr: "port_role roles dr sp (t_srcPort tcp) (t_dstPort tcp) = (role, byPort)" by fastforce
  define known where "known = same_port_note (p_Src ?p) (p_Dst ?p) tcp (s_samePortClient s)"
  define fc where "fc = same_port_dir (p_Src ?p) (p_Dst ?p) tcp known byPort"
  obtain i s1 where o: "open_conn role fc ?p (s\<lparr>s_samePortClient := known\<rparr>) = (i, s1)" by fastforce
  have s1: "i < length (s_order s1)" "list_all (\<lambda>c. safe_role (c_role c)) (s_order s1)"
    using open_conn_ok [OF _ _ _ o] open_conn_safe [OF _ _ o] port_role_safe [OF r, of sp "t_srcPort tcp" "t_dstPort tcp"] pr s b
    by (simp_all add: safe_run_def bar_free_ip_port)
  let ?c = "s_order s1 ! i"
  let ?c1 = "?c\<lparr>c_Packets := c_Packets ?c + 1, c_Bytes := c_Bytes ?c + p_FrameLen ?p, c_EndTS := p_TS ?p\<rparr>"
  have c1: "safe_role (c_role ?c1)" using s1 by (simp add: list_all_length)
  obtain p2 c2 where d: "conn_decode lib (?p\<lparr>p_Stream := int (c_idx ?c), p_Dir := (if fc then ''c2s'' else ''s2c'')\<rparr>) ?c1 fc tcp ts
      = Some (p2, c2)" and c2: "c_role c2 = c_role ?c1"
    by (rule conn_decode_total [OF c1])
  have "list_all (\<lambda>c. safe_role (c_role c)) ((s_order s1)[i := c2])"
    using s1(2) c1 c2 set_update_subset_insert [of "s_order s1" i c2] by (auto simp: list_all_iff)
  then show ?thesis
    unfolding tcp_frame_def Let_def pr prod.case known_def [symmetric] fc_def [symmetric] o d option.case
    by (simp add: emit_def)
qed

lemma udp_order: "s_order (udp_frame lib opts p l3 s) = s_order s"
  by (simp add: udp_frame_def Let_def emit_def split: prod.split)

lemma ip_frame_total:
  assumes s: "safe_run s" and r: "safe_roles roles dr" and i: "pktParseIP et l2 = Some l3"
  shows "\<exists>s'. ip_frame lib opts roles dr p l3 ts s = Some s' \<and> list_all (\<lambda>c. safe_role (c_role c)) (s_order s')"
  using tcp_frame_total [OF s r] bar_free_ip [OF i] s
  by (auto simp: ip_frame_def Let_def udp_order safe_run_def emit_def split: option.split)

lemma decode_frame_total:
  assumes s: "safe_run s" and r: "safe_roles roles dr"
  shows "\<exists>s'. decode_frame lib opts mx roles dr lt f s = Some s' \<and> safe_run s'"
proof -
  define t where "t = (if fr_orig f > length (fr_data f) then s\<lparr>s_no := s_no s + 1, s_Truncat := s_Truncat s + 1\<rparr> else s\<lparr>s_no := s_no s + 1\<rparr>)"
  have t: "safe_run t" using s by (simp add: safe_run_def t_def)
  have l: "\<exists>s'. link_frame lib opts roles dr lt p f t = Some s' \<and> list_all (\<lambda>c. safe_role (c_role c)) (s_order s')" for p
    using ip_frame_total [OF t r] t by (auto simp: link_frame_def safe_run_def emit_def split: option.split prod.split)
  have "\<exists>s'. decode_frame lib opts mx roles dr lt f s = Some s' \<and> list_all (\<lambda>c. safe_role (c_role c)) (s_order s')"
  proof (cases "mx \<le> length (s_Packets s)")
    case True
    then show ?thesis using s by (simp add: decode_frame_def Let_def safe_run_def)
  next
    case False
    then have "decode_frame lib opts mx roles dr lt f s = link_frame lib opts roles dr lt (frame_packet (s_no s + 1) f) f t"
      by (simp add: decode_frame_def Let_def t_def)
    then show ?thesis using l by simp
  qed
  then show ?thesis using decode_frame_step [of s] s by (auto simp: safe_run_def)
qed

lemma decode_frames_total:
  "safe_run s \<Longrightarrow> safe_roles roles dr \<Longrightarrow> decode_frames lib opts mx roles dr lt fs s \<noteq> None"
proof (induction fs arbitrary: s)
  case (Cons f fs)
  then show ?case using decode_frame_total [OF Cons.prems, of lib opts mx lt f] by auto
qed simp

lemma sql_roles_safe:
  assumes "e \<in> {pktEngineMySQL, pktEnginePostgres}"
  shows "safe_roles (engine_roles e port) (default_role e)"
  using assms by (auto simp: safe_roles_def safe_role_def engine_roles_def default_role_def engine_defs pktPGPortRoles_def
      pktGaleraPortRoles_def role_defs pktRoleMongo_def pktRoleValkey_def pktRoleSentinel_def split: if_splits)

lemma sql_decode_total:
  assumes "o_Engine opts \<in> {pktEngineMySQL, pktEnginePostgres}" "o_PortRoles opts = []" "pktOpen buf = Inr r"
  shows "\<exists>d. pktDecode lib buf opts = Some (Inr d)"
proof -
  have "safe_run new_run" using run_ok_new by (simp add: safe_run_def new_run_def)
  then have "decode_frames lib opts (max_packets opts) (engine_roles (o_Engine opts) (o_ServerPort opts)) (default_role (o_Engine opts))
      (r_linkType r) (all_frames r) new_run \<noteq> None"
    using sql_roles_safe [OF assms(1)] by (rule decode_frames_total)
  then show ?thesis using assms by (auto simp: pktDecode_def run_engine_def engine_defs)
qed

section \<open>Directions\<close>

lemma go_less_asym: "go_less a b \<Longrightarrow> \<not> go_less b a"
  by (induction a b rule: go_less.induct) (auto split: if_splits)

lemma go_less_total: "\<not> go_less a b \<Longrightarrow> \<not> go_less b a \<Longrightarrow> a = b"
proof (induction a b rule: go_less.induct)
  case (3 x xs y ys)
  then have "of_char x = (of_char y :: nat)" by (auto split: if_splits)
  then show ?case using 3 by (auto split: if_splits)
next
  case (1 a)
  then show ?case by (cases a) auto
qed simp

lemma pair_key_sym: "pair_key a b = pair_key b a"
  using go_less_asym go_less_total by (auto simp: pair_key_def)

lemma port_role_flip:
  "a \<noteq> b \<Longrightarrow> roles a = None \<or> roles b = None \<Longrightarrow> snd (port_role roles dr sp b a) = (\<not> snd (port_role roles dr sp a b))"
  by (auto simp: port_role_def split: option.split)

section \<open>Requests and replies\<close>

text \<open>The TCP segment of a frame, read off the frame alone.\<close>

definition frame_tcp :: "nat \<Rightarrow> bytes \<Rightarrow> (pktL3 \<times> pktTCP) option" where
  "frame_tcp lt b =
     (case pktStripLink lt b of
        None \<Rightarrow> None
      | Some (et, l2) \<Rightarrow>
          if et = 0x0806 then None
          else (case pktParseIP et l2 of
                  None \<Rightarrow> None
                | Some l3 \<Rightarrow> if l3_proto l3 = 6 then map_option (Pair l3) (pktParseTCP (l3_payload l3)) else None))"

definition seg_src :: "pktL3 \<times> pktTCP \<Rightarrow> string" where "seg_src s = ip_port (l3_srcIP (fst s)) (t_srcPort (snd s))"
definition seg_dst :: "pktL3 \<times> pktTCP \<Rightarrow> string" where "seg_dst s = ip_port (l3_dstIP (fst s)) (t_dstPort (snd s))"

definition note_frame :: "nat \<Rightarrow> pktFrame \<Rightarrow> (string \<rightharpoonup> string) \<Rightarrow> (string \<rightharpoonup> string)" where
  "note_frame lt f known =
     (case frame_tcp lt (fr_data f) of None \<Rightarrow> known | Some s \<Rightarrow> same_port_note (seg_src s) (seg_dst s) (snd s) known)"

text \<open>The row of a segment: its endpoints, its connection, its direction.\<close>

definition seg_row :: "(nat \<rightharpoonup> string) \<Rightarrow> string \<Rightarrow> nat \<Rightarrow> (string \<rightharpoonup> string) \<Rightarrow> pktL3 \<times> pktTCP \<Rightarrow> pktPacket \<Rightarrow> bool" where
  "seg_row roles dr sp known s p \<longleftrightarrow> p_Src p = seg_src s \<and> p_Dst p = seg_dst s \<and> 0 \<le> p_Stream p
     \<and> p_Dir p = (if same_port_dir (seg_src s) (seg_dst s) (snd s) known (snd (port_role roles dr sp (t_srcPort (snd s)) (t_dstPort (snd s))))
                  then ''c2s'' else ''s2c'')"

lemma open_conn_keeps:
  "open_conn role fc p s = (i, s1) \<Longrightarrow> s_samePortClient s1 = s_samePortClient s \<and> s_Packets s1 = s_Packets s"
  by (auto simp: open_conn_def Let_def split_def split: option.splits)

lemma tcp_frame_row:
  assumes t: "tcp_frame lib roles dr sport p0 l3 tcp ts s = Some s'"
  defines "known \<equiv> same_port_note (seg_src (l3, tcp)) (seg_dst (l3, tcp)) tcp (s_samePortClient s)"
  shows "s_samePortClient s' = known \<and> (\<exists>p. s_Packets s' = s_Packets s @ [p] \<and> seg_row roles dr sport known (l3, tcp) p)"
proof -
  let ?p = "seg_packet p0 l3 tcp"
  have ends: "p_Src ?p = seg_src (l3, tcp)" "p_Dst ?p = seg_dst (l3, tcp)" by (simp_all add: seg_src_def seg_dst_def)
  define role fc where "role = fst (port_role roles dr sport (t_srcPort tcp) (t_dstPort tcp))"
    and "fc = same_port_dir (p_Src ?p) (p_Dst ?p) tcp known (snd (port_role roles dr sport (t_srcPort tcp) (t_dstPort tcp)))"
  obtain i s1 where o: "open_conn role fc ?p (s\<lparr>s_samePortClient := known\<rparr>) = (i, s1)" by fastforce
  define c where "c = s_order s1 ! i"
  define p1 where "p1 = ?p\<lparr>p_Stream := int (c_idx c), p_Dir := (if fc then ''c2s'' else ''s2c'')\<rparr>"
  obtain p2 c2 where d: "conn_decode lib p1 (c\<lparr>c_Packets := c_Packets c + 1, c_Bytes := c_Bytes c + p_FrameLen ?p, c_EndTS := p_TS ?p\<rparr>)
      fc tcp ts = Some (p2, c2)" and s': "s' = emit (seg_done tcp p2) (s1\<lparr>s_order := (s_order s1)[i := c2]\<rparr>)"
    using t o unfolding tcp_frame_def Let_def split_def role_def fc_def known_def c_def p1_def ends
    by (auto split: option.splits)
  have "frame_of (seg_done tcp p2) = frame_of p1" using conn_decode_keeps [OF d] by (simp add: seg_done_frame)
  from frame_of_eq [OF this] have "seg_row roles dr sport known (l3, tcp) (seg_done tcp p2)"
    by (simp add: seg_row_def p1_def fc_def seg_src_def seg_dst_def)
  then show ?thesis using open_conn_keeps [OF o] by (simp add: s' emit_def)
qed

lemma udp_frame_known: "s_samePortClient (udp_frame lib opts p l3 s) = s_samePortClient s"
  by (simp add: udp_frame_def Let_def emit_def split_def)

lemma link_frame_known:
  assumes "link_frame lib opts roles dr lt p f s = Some s'"
  shows "s_samePortClient s' = note_frame lt f (s_samePortClient s)"
    and "frame_tcp lt (fr_data f) = Some g \<Longrightarrow>
      \<exists>p. s_Packets s' = s_Packets s @ [p] \<and> seg_row roles dr (o_ServerPort opts) (note_frame lt f (s_samePortClient s)) g p"
proof -
  consider (tcp) l3 tcp q where "frame_tcp lt (fr_data f) = Some (l3, tcp)" "tcp_frame lib roles dr (o_ServerPort opts) q l3 tcp (fr_ts f) s = Some s'"
    | (other) "frame_tcp lt (fr_data f) = None" "s_samePortClient s' = s_samePortClient s"
    using assms unfolding link_frame_def frame_tcp_def ip_frame_def Let_def
    by (auto simp: emit_def udp_frame_known split: option.splits if_splits prod.splits)
  note cases = this
  show "s_samePortClient s' = note_frame lt f (s_samePortClient s)"
    using cases by cases (auto simp: note_frame_def dest: tcp_frame_row)
  show "frame_tcp lt (fr_data f) = Some g \<Longrightarrow>
      \<exists>p. s_Packets s' = s_Packets s @ [p] \<and> seg_row roles dr (o_ServerPort opts) (note_frame lt f (s_samePortClient s)) g p"
    using cases by cases (auto simp: note_frame_def dest: tcp_frame_row)
qed

lemma decode_frame_known:
  assumes "decode_frame lib opts mx roles dr lt f s = Some s'" and "length (s_Packets s) < mx"
  shows "s_samePortClient s' = note_frame lt f (s_samePortClient s)"
    and "frame_tcp lt (fr_data f) = Some g \<Longrightarrow>
      \<exists>p. s_Packets s' = s_Packets s @ [p] \<and> seg_row roles dr (o_ServerPort opts) (note_frame lt f (s_samePortClient s)) g p"
proof -
  define t where "t = (if fr_orig f > length (fr_data f) then s\<lparr>s_no := s_no s + 1, s_Truncat := s_Truncat s + 1\<rparr> else s\<lparr>s_no := s_no s + 1\<rparr>)"
  have l: "link_frame lib opts roles dr lt (frame_packet (s_no s + 1) f) f t = Some s'"
    using assms by (auto simp: decode_frame_def Let_def t_def split: if_splits)
  have e: "s_samePortClient t = s_samePortClient s" "s_Packets t = s_Packets s" by (simp_all add: t_def)
  show "s_samePortClient s' = note_frame lt f (s_samePortClient s)" using link_frame_known(1) [OF l] by (simp add: e)
  show "frame_tcp lt (fr_data f) = Some g \<Longrightarrow>
      \<exists>p. s_Packets s' = s_Packets s @ [p] \<and> seg_row roles dr (o_ServerPort opts) (note_frame lt f (s_samePortClient s)) g p"
    using link_frame_known(2) [OF l, of g] by (simp add: e)
qed


lemma decode_frame_full:
  "decode_frame lib opts mx roles dr lt f s = Some s' \<Longrightarrow> mx \<le> length (s_Packets s) \<Longrightarrow> s_Packets s' = s_Packets s"
  by (auto simp: decode_frame_def Let_def)

text \<open>What is known of the clients after the frames \<open>fs\<close>, and what that makes of the rows.\<close>

definition known_at :: "nat \<Rightarrow> pktFrame list \<Rightarrow> (string \<rightharpoonup> string)" where
  "known_at lt fs = fold (note_frame lt) fs Map.empty"

definition rows_known :: "(nat \<rightharpoonup> string) \<Rightarrow> string \<Rightarrow> nat \<Rightarrow> nat \<Rightarrow> nat \<Rightarrow> pktFrame list \<Rightarrow> pktRun \<Rightarrow> bool" where
  "rows_known roles dr sp lt mx fs s \<longleftrightarrow>
     (length fs \<le> mx \<longrightarrow> s_samePortClient s = known_at lt fs) \<and> length (s_Packets s) = min mx (length fs)
     \<and> (\<forall>i < length (s_Packets s). \<forall>g. frame_tcp lt (fr_data (fs ! i)) = Some g \<longrightarrow>
          seg_row roles dr sp (known_at lt (take (Suc i) fs)) g (s_Packets s ! i))"

lemma known_at_snoc: "known_at lt (fs @ [f]) = note_frame lt f (known_at lt fs)"
  by (simp add: known_at_def)

lemma rows_known_step:
  assumes r: "rows_known roles dr (o_ServerPort opts) lt mx fs s" and d: "decode_frame lib opts mx roles dr lt f s = Some s'"
    and s: "run_ok s"
  shows "rows_known roles dr (o_ServerPort opts) lt mx (fs @ [f]) s'"
proof (cases "length fs < mx")
  case True
  then have n: "length (s_Packets s) = length fs" "length (s_Packets s) < mx" using r by (simp_all add: rows_known_def)
  have k: "s_samePortClient s = known_at lt fs" using r True by (simp add: rows_known_def)
  obtain p where p: "s_Packets s' = s_Packets s @ [p]" using decode_frame_step [OF s d] n by auto
  have old: "seg_row roles dr (o_ServerPort opts) (known_at lt (take (Suc i) fs)) g (s_Packets s ! i)"
    if "i < length fs" "frame_tcp lt (fr_data (fs ! i)) = Some g" for i g
    using r n(1) that unfolding rows_known_def by presburger
  have new: "seg_row roles dr (o_ServerPort opts) (known_at lt (fs @ [f])) g p" if "frame_tcp lt (fr_data f) = Some g" for g
    using decode_frame_known(2) [OF d n(2) that] p by (simp add: k known_at_snoc)
  show ?thesis
    using True n p old new decode_frame_known(1) [OF d n(2)]
    by (auto simp: rows_known_def k known_at_snoc nth_append less_Suc_eq)
next
  case False
  then have n: "mx \<le> length (s_Packets s)" "length (s_Packets s) = mx" using r by (simp_all add: rows_known_def)
  show ?thesis
    using False r n decode_frame_full [OF d n(1)] by (auto simp: rows_known_def nth_append)
qed

lemma rows_known_frames:
  "rows_known roles dr (o_ServerPort opts) lt mx gs s \<Longrightarrow> run_ok s \<Longrightarrow> decode_frames lib opts mx roles dr lt fs s = Some s' \<Longrightarrow>
   rows_known roles dr (o_ServerPort opts) lt mx (gs @ fs) s'"
proof (induction fs arbitrary: gs s)
  case (Cons f fs)
  then obtain s1 where f: "decode_frame lib opts mx roles dr lt f s = Some s1" "decode_frames lib opts mx roles dr lt fs s1 = Some s'"
    by (auto split: option.splits)
  have "run_ok s1" using decode_frame_step [OF Cons.prems(2) f(1)] by blast
  then show ?case using Cons.IH [OF rows_known_step [OF Cons.prems(1) f(1) Cons.prems(2)]] f(2) by simp
qed simp

lemma rows_known_new: "rows_known roles dr sp lt mx [] new_run"
  by (simp add: rows_known_def known_at_def new_run_def)

text \<open>The roles a run goes by.\<close>

definition roles_used :: "pktDecodeOpts \<Rightarrow> string \<Rightarrow> nat \<rightharpoonup> string" where
  "roles_used opts engine = (if o_PortRoles opts = [] then engine_roles engine (o_ServerPort opts) else map_of (o_PortRoles opts))"

lemma decoded_row:
  assumes "pktDecode lib buf opts = Some (Inr d)" and "pktOpen buf = Inr r" and "i < length (d_Packets d)"
    and "frame_tcp (r_linkType r) (fr_data (all_frames r ! i)) = Some g"
  shows "seg_row (roles_used opts (d_Engine d)) (default_role (d_Engine d)) (o_ServerPort opts)
      (known_at (r_linkType r) (take (Suc i) (all_frames r))) g (d_Packets d ! i)"
    and "i < length (all_frames r)"
proof -
  obtain e where e0: "run_engine lib opts r e = Some d"
    using assms(1,2) by (auto simp: pktDecode_def split: option.splits)
  then obtain s where run: "decode_frames lib opts (max_packets opts) (roles_used opts e) (default_role e) (r_linkType r) (all_frames r) new_run = Some s"
    and d: "d = finish_run lib r e s"
    unfolding run_engine_def Let_def roles_used_def [symmetric] map_option_eq_Some by blast
  have e: "d_Engine d = e" by (simp add: d finish_run_def Let_def)
  have k: "rows_known (roles_used opts e) (default_role e) (o_ServerPort opts) (r_linkType r) (max_packets opts) (all_frames r) s"
    using rows_known_frames [OF rows_known_new run_ok_new run] by simp
  have o: "only_issues (s_Packets s) (d_Packets d)" unfolding d by (rule finish_only)
  have i: "i < length (s_Packets s)" using assms(3) o by (simp add: only_issues_def list_all2_lengthD)
  have fo: "frame_of (d_Packets d ! i) = frame_of (s_Packets s ! i)"
    using list_all2_nthD [OF o [unfolded only_issues_def] i] by simp
  have eq: "p_Src (d_Packets d ! i) = p_Src (s_Packets s ! i)" "p_Dst (d_Packets d ! i) = p_Dst (s_Packets s ! i)"
    "p_Dir (d_Packets d ! i) = p_Dir (s_Packets s ! i)" "p_Stream (d_Packets d ! i) = p_Stream (s_Packets s ! i)"
    using frame_of_eq [OF fo] by blast+
  have "seg_row (roles_used opts e) (default_role e) (o_ServerPort opts) (known_at (r_linkType r) (take (Suc i) (all_frames r))) g (s_Packets s ! i)"
    using k i assms(4) unfolding rows_known_def by blast
  then show "seg_row (roles_used opts (d_Engine d)) (default_role (d_Engine d)) (o_ServerPort opts)
      (known_at (r_linkType r) (take (Suc i) (all_frames r))) g (d_Packets d ! i)"
    unfolding e seg_row_def eq .
  show "i < length (all_frames r)" using k i by (simp add: rows_known_def)
qed


lemma split_first: "a @ x # b = c @ x # d \<Longrightarrow> x \<notin> set a \<Longrightarrow> x \<notin> set c \<Longrightarrow> a = c \<and> b = d"
proof (induction a arbitrary: c)
  case Nil
  then show ?case by (cases c) auto
next
  case (Cons y a)
  then show ?case by (cases c) auto
qed

lemma ip_port_inj:
  assumes "ip_port ip n = ip_port jp m"
  shows "ip = jp \<and> n = m"
proof -
  have no: "CHR '':'' \<notin> set (go_utoa k)" for k
    using go_utoa_digits [of k] by (auto simp: go_digit_def)
  have "rev (go_utoa n) @ CHR '':'' # rev ip = rev (go_utoa m) @ CHR '':'' # rev jp"
    using arg_cong [OF assms, of rev] by (simp add: ip_port_def)
  then have "rev (go_utoa n) = rev (go_utoa m) \<and> rev ip = rev jp"
    by (rule split_first) (simp_all add: no)
  then show ?thesis using go_digits_val_utoa [of n] go_digits_val_utoa [of m] by (metis option.inject rev_is_rev_conv)
qed

lemma pair_key_inj:
  assumes "pair_key a b = pair_key c d" and "bar_free a" "bar_free b" "bar_free c" "bar_free d"
  shows "a = c \<and> b = d \<or> a = d \<and> b = c"
proof -
  obtain x y where 1: "pair_key a b = x @ ''|'' @ y" "x = a \<and> y = b \<or> x = b \<and> y = a"
    by (cases "go_less b a") (simp_all add: pair_key_def)
  obtain u v where 2: "pair_key c d = u @ ''|'' @ v" "u = c \<and> v = d \<or> u = d \<and> v = c"
    by (cases "go_less d c") (simp_all add: pair_key_def)
  have "x = u \<and> y = v" using assms 1 2 bar_split [of x y u v] by auto
  with 1(2) 2(2) show ?thesis by auto
qed

lemma frame_tcp_bar_free:
  "frame_tcp lt b = Some g \<Longrightarrow> bar_free (seg_src g) \<and> bar_free (seg_dst g)"
  by (auto simp: frame_tcp_def seg_src_def seg_dst_def bar_free_ip_port dest: bar_free_ip split: option.splits if_splits prod.splits)

text \<open>A frame that opens a connection between the port \<open>port\<close> of two machines.\<close>

definition syn_sent :: "nat \<Rightarrow> pktFrame \<Rightarrow> string \<Rightarrow> string \<Rightarrow> nat \<Rightarrow> bool" where
  "syn_sent lt f from to port \<longleftrightarrow>
     (\<exists>l3 t. frame_tcp lt (fr_data f) = Some (l3, t) \<and> l3_srcIP l3 = from \<and> l3_dstIP l3 = to
        \<and> t_srcPort t = port \<and> t_dstPort t = port \<and> has_flag (t_flags t) tcpSYN \<and> \<not> has_flag (t_flags t) tcpACK)"

lemma note_frame_syn:
  "syn_sent lt f x y port \<Longrightarrow> note_frame lt f known (pair_key (ip_port x port) (ip_port y port)) = Some (ip_port x port)"
  by (auto simp: syn_sent_def note_frame_def same_port_note_def seg_src_def seg_dst_def)

lemma note_frame_other:
  assumes "\<not> syn_sent lt f y x port" and "known (pair_key (ip_port x port) (ip_port y port)) = Some (ip_port x port)"
    and "bar_free x" "bar_free y"
  shows "note_frame lt f known (pair_key (ip_port x port) (ip_port y port)) = Some (ip_port x port)"
proof (cases "frame_tcp lt (fr_data f)")
  case (Some g)
  obtain l3 t where g: "g = (l3, t)" by (cases g)
  have b: "bar_free (seg_src g)" "bar_free (seg_dst g)" using frame_tcp_bar_free [OF Some] by simp_all
  show ?thesis
  proof (cases "t_srcPort t = t_dstPort t \<and> has_flag (t_flags t) tcpSYN \<and> \<not> has_flag (t_flags t) tcpACK
      \<and> pair_key (seg_src g) (seg_dst g) = pair_key (ip_port x port) (ip_port y port)")
    case True
    then consider "seg_src g = ip_port x port" | "seg_src g = ip_port y port" "seg_dst g = ip_port x port"
      using pair_key_inj [of "seg_src g" "seg_dst g" "ip_port x port" "ip_port y port"] b assms(3,4) bar_free_ip_port by blast
    then show ?thesis
    proof cases
      case 1
      then show ?thesis using True Some g by (simp add: note_frame_def same_port_note_def)
    next
      case 2
      then have "syn_sent lt f y x port"
        using True Some g ip_port_inj [of "l3_srcIP l3"] ip_port_inj [of "l3_dstIP l3"]
        by (auto simp: syn_sent_def seg_src_def seg_dst_def)
      then show ?thesis using assms(1) by simp
    qed
  next
    case False
    then show ?thesis using assms(2) Some g by (auto simp: note_frame_def same_port_note_def)
  qed
qed (simp add: note_frame_def assms(2))

lemma known_at_syn:
  assumes "syn_sent lt (fs ! h) x y port" and "bar_free x" "bar_free y" and "h \<le> m" "m < length fs"
    and "\<forall>i. h < i \<and> i \<le> m \<longrightarrow> \<not> syn_sent lt (fs ! i) y x port"
  shows "known_at lt (take (Suc m) fs) (pair_key (ip_port x port) (ip_port y port)) = Some (ip_port x port)"
  using assms(4,5,6)
proof (induction m rule: dec_induct)
  case base
  then show ?case using note_frame_syn [OF assms(1)] by (simp add: take_Suc_conv_app_nth known_at_snoc)
next
  case (step m)
  then have "known_at lt (take (Suc m) fs) (pair_key (ip_port x port) (ip_port y port)) = Some (ip_port x port)" by simp
  note k = note_frame_other [where known = "known_at lt (take (Suc m) fs)", OF _ this assms(2,3)]
  from k step.prems step.hyps show ?case
    by (simp add: take_Suc_conv_app_nth [of "Suc m"] known_at_snoc)
qed


lemma seg_row_flip:
  assumes k: "seg_row roles dr sp known (l3, t) p" and j: "seg_row roles dr sp known' (l3', t') q"
    and sw: "l3_srcIP l3' = l3_dstIP l3" "l3_dstIP l3' = l3_srcIP l3" "t_srcPort t' = t_dstPort t" "t_dstPort t' = t_srcPort t"
    and c: "if t_srcPort t = t_dstPort t
      then cl \<noteq> sv \<and> {cl, sv} = {l3_srcIP l3, l3_dstIP l3}
        \<and> known (pair_key (ip_port cl (t_srcPort t)) (ip_port sv (t_srcPort t))) = Some (ip_port cl (t_srcPort t))
        \<and> known' (pair_key (ip_port cl (t_srcPort t)) (ip_port sv (t_srcPort t))) = Some (ip_port cl (t_srcPort t))
      else roles (t_srcPort t) = None \<or> roles (t_dstPort t) = None"
  shows "p_Src q = p_Dst p \<and> p_Dst q = p_Src p
    \<and> (p_Dir p = ''c2s'' \<and> p_Dir q = ''s2c'' \<or> p_Dir p = ''s2c'' \<and> p_Dir q = ''c2s'')
    \<and> (if t_srcPort t = t_dstPort t then p_Dir p = ''c2s'' \<longleftrightarrow> l3_srcIP l3 = cl
       else (roles (t_dstPort t) \<noteq> None \<longrightarrow> p_Dir p = ''c2s'') \<and> (roles (t_srcPort t) \<noteq> None \<longrightarrow> p_Dir p = ''s2c''))"
proof -
  have ends: "p_Src q = p_Dst p \<and> p_Dst q = p_Src p" using k j sw by (simp add: seg_row_def seg_src_def seg_dst_def)
  show ?thesis
  proof (cases "t_srcPort t = t_dstPort t")
    case True
    let ?n = "t_srcPort t"
    have o: "l3_srcIP l3 = cl \<and> l3_dstIP l3 = sv \<or> l3_srcIP l3 = sv \<and> l3_dstIP l3 = cl" "cl \<noteq> sv"
      using c True by (auto simp: doubleton_eq_iff)
    have ne: "ip_port cl ?n \<noteq> ip_port sv ?n" using o(2) ip_port_inj by blast
    have kn: "known (pair_key (ip_port cl ?n) (ip_port sv ?n)) = Some (ip_port cl ?n)"
      "known' (pair_key (ip_port cl ?n) (ip_port sv ?n)) = Some (ip_port cl ?n)" using c True by simp_all
    note kn' = kn [unfolded pair_key_sym [of "ip_port cl ?n"]]
    show ?thesis using k j sw True o ne kn kn' ends
      by (auto simp: seg_row_def seg_src_def seg_dst_def same_port_dir_def)
  next
    case False
    then have c': "roles (t_srcPort t) = None \<or> roles (t_dstPort t) = None" using c by simp
    have d: "p_Dir p = (if snd (port_role roles dr sp (t_srcPort t) (t_dstPort t)) then ''c2s'' else ''s2c'')"
      "p_Dir q = (if snd (port_role roles dr sp (t_dstPort t) (t_srcPort t)) then ''c2s'' else ''s2c'')"
      using k j False sw by (simp_all add: seg_row_def same_port_dir_def)
    show ?thesis using d port_role_flip [OF False c', of dr sp] False c' ends
      by (auto simp: port_role_def split: option.splits)
  qed
qed

lemma stream_of_ends:
  assumes "pktDecode lib buf opts = Some (Inr d)" and "p \<in> set (d_Packets d)" "q \<in> set (d_Packets d)"
    and "0 \<le> p_Stream p" "0 \<le> p_Stream q" and "p_Src q = p_Dst p \<and> p_Dst q = p_Src p"
    and "p_Dir p = ''c2s'' \<and> p_Dir q = ''s2c'' \<or> p_Dir p = ''s2c'' \<and> p_Dir q = ''c2s''"
  shows "p_Stream p = p_Stream q"
proof -
  note st = decoded_streams [OF assms(1)]
  have pos: "0 \<le> p_Stream x \<Longrightarrow> p_Stream x \<noteq> -1" for x :: pktPacket by simp
  obtain i where i: "i < length (d_Streams d)" "p_Stream p = int i" using st assms(2,4) pos [of p] by blast
  obtain m where m: "m < length (d_Streams d)" "p_Stream q = int m" using st assms(3,5) pos [of q] by blast
  have "stream_match (d_Streams d ! i) p" "stream_match (d_Streams d ! m) q"
    using st(2) i m assms(2,3) by (auto simp: stream_ok_def of_stream_def list_all_iff)
  then have "(st_Client (d_Streams d ! i), st_Server (d_Streams d ! i)) = (st_Client (d_Streams d ! m), st_Server (d_Streams d ! m))"
    using assms(6,7) by (auto simp: stream_match_def)
  then have "i = m"
    using st i(1) m(1) nth_eq_iff_index_eq [of "map (\<lambda>st. (st_Client st, st_Server st)) (d_Streams d)" i m] by simp
  then show ?thesis using i m by simp
qed

section \<open>What makes the guess panic\<close>

definition short_compressed :: "bytes \<Rightarrow> bool" where
  "short_compressed b \<longleftrightarrow> 21 \<le> length b \<and> length b \<le> 24 \<and> 16 \<le> le_i32 b \<and> le_i32 b \<le> mongoMaxMsg
     \<and> le_i32 (drop 12 b) = mongoOpCompressed
     \<and> (length b = 24 \<longrightarrow> mongoKnownOp (le_i32 (drop 16 b)) \<and> le_i32 (drop 16 b) \<noteq> mongoOpCompressed
          \<and> 0 < le_i32 (drop 20 b) \<and> le_i32 (drop 20 b) \<le> mongoMaxMsg)"

lemma mongo_body_None:
  "length b \<ge> 21 \<Longrightarrow> mongo_body opc b = None \<longleftrightarrow> opc = mongoOpCompressed \<and> length b \<le> 24 \<and>
     (length b = 24 \<longrightarrow> mongoKnownOp (le_i32 (drop 16 b)) \<and> le_i32 (drop 16 b) \<noteq> mongoOpCompressed
          \<and> 0 < le_i32 (drop 20 b) \<and> le_i32 (drop 20 b) \<le> mongoMaxMsg)"
  by (auto simp: mongo_body_def mongoHeaderLen_def Let_def mongoOpMsg_def mongoOpCompressed_def mongoOpReply_def
      mongoOpQuery_def split: option.splits)

lemma known_compressed: "mongoKnownOp mongoOpCompressed"
  by (simp add: mongoKnownOp_def)

lemma mongoLooksLikeHeader_panics: "mongoLooksLikeHeader b = None \<longleftrightarrow> short_compressed b"
proof (cases "length b \<ge> 21 \<and> length b \<le> 24 \<and> mongo_head_ok b")
  case True
  then have "\<not> nat (le_i32 b) + 16 \<le> length b" by (simp add: mongo_head_ok_def mongoHeaderLen_def) arith
  then show ?thesis using True mongo_body_None [of b "le_i32 (drop 12 b)"] known_compressed
    by (auto simp: mongoLooksLikeHeader_def short_compressed_def mongoHeaderLen_def mongo_head_ok_def Let_def)
next
  case False
  have "mongoLooksLikeHeader b \<noteq> None"
    using False mongo_body_None [of b "le_i32 (drop 12 b)"]
    by (auto simp: mongoLooksLikeHeader_def mongoHeaderLen_def Let_def split: if_splits)
  then show ?thesis using False known_compressed
    by (auto simp: short_compressed_def mongo_head_ok_def mongoHeaderLen_def)
qed

lemma payload_hits_None: "payload_hits b h = None \<longleftrightarrow> short_compressed b"
  using mongoLooksLikeHeader_panics [of b] by (auto simp: payload_hits_def split: option.splits)

lemma nextNG_link: "nextNG r = Some (f, r') \<Longrightarrow> r_linkType r' = r_linkType r"
proof (induction r rule: nextNG.induct)
  case (1 r)
  then show ?case by (auto simp: nextNG.simps [of r] Let_def split: if_splits option.splits)
qed

lemma next_frame_link: "next_frame r = Some (f, r') \<Longrightarrow> r_linkType r' = r_linkType r"
  by (auto simp: next_frame_def Let_def nextNG_link split: if_splits)

lemma sniff_panic_source:
  "sniff_loop n r h ph = None \<Longrightarrow>
     \<exists>f \<in> set (all_frames r). \<exists>tcp. frame_segment (r_linkType r) (fr_data f) = Some tcp \<and> short_compressed (t_payload tcp)"
proof (induction n arbitrary: r h ph)
  case (Suc n)
  then obtain f r' where n: "next_frame r = Some (f, r')" by (auto split: option.splits)
  have a: "all_frames r = f # all_frames r'" using n by (simp add: all_frames.simps [of r])
  have l: "r_linkType r' = r_linkType r" using n next_frame_link by metis
  have "(\<exists>h1 ph1. sniff_loop n r' h1 ph1 = None)
      \<or> (\<exists>tcp. frame_segment (r_linkType r) (fr_data f) = Some tcp \<and> short_compressed (t_payload tcp))"
    using Suc.prems n by (auto simp: Let_def payload_hits_None split: option.splits if_splits)
  then show ?case using Suc.IH [of r'] a l by auto
qed simp

lemma sniff_step_None:
  "next_frame r = Some (f, r') \<Longrightarrow> frame_segment (r_linkType r) (fr_data f) = Some tcp \<Longrightarrow> short_compressed (t_payload tcp) \<Longrightarrow>
     sniff_loop (Suc n) r h ph = None"
  using payload_hits_None [of "t_payload tcp" h] by (simp add: Let_def) (simp add: short_compressed_def)

lemma sniff_panic_first:
  assumes "pktOpen buf = Inr r" "next_frame r = Some (f, r')" "frame_segment (r_linkType r) (fr_data f) = Some tcp"
    "short_compressed (t_payload tcp)"
  shows "pktSniffEngine buf port = None"
  using sniff_step_None [OF assms(2-4), of 3999 no_hits no_hits] assms(1) by (simp add: pktSniffEngine_def)

section \<open>A capture\<close>

text \<open>A handshake between two hosts on a raw IP link, and the arguments of a decode.\<close>

definition ex_lib :: drv_lib where
  "ex_lib = \<lparr>dl_pg = \<lparr>lib_Quote = id, lib_ToUpper = id, lib_ms0 = go_Itoa, lib_ms1 = go_Itoa, lib_s0 = go_Itoa\<rparr>,
     dl_vk = \<lparr>vl_Quote = id, vl_ToLower = id, vl_ms1 = go_Itoa\<rparr>,
     dl_mg = \<lparr>ml_Quote = id, ml_trunc = (\<lambda>_. 0), ml_float6 = (\<lambda>_. []), ml_inflate = (\<lambda>_ _. None), ml_ms0 = go_Itoa, ml_ms1 = go_Itoa\<rparr>,
     dl_layers = 2, dl_walk = id, dl_dns = (\<lambda>_ _. \<lparr>l_pos = False, l_ns = 0, l_slow = False, l_1f = [], l_0f = []\<rparr>),
     dl_ips = (\<lambda>_. []), dl_ids = (\<lambda>_. [])\<rparr>"

definition ex_ip :: "byte \<Rightarrow> byte \<Rightarrow> bytes \<Rightarrow> bytes" where
  "ex_ip src dst seg = [0x45, 0, 0, of_nat (20 + length seg), 0, 0, 0, 0, 64, 6, 0, 0, 10, 0, 0, src, 10, 0, 0, dst] @ seg"

definition ex_tcp :: "byte \<Rightarrow> byte \<Rightarrow> byte \<Rightarrow> byte \<Rightarrow> byte \<Rightarrow> bytes \<Rightarrow> bytes" where
  "ex_tcp s1 s2 d1 d2 flags payload = [s1, s2, d1, d2, 0, 0, 0, 1, 0, 0, 0, 0, 0x50, flags, 1, 0, 0, 0, 0, 0] @ payload"

definition ex_syn :: bytes where "ex_syn = ex_ip 1 2 (ex_tcp 0 9 0 8 2 [])"
definition ex_ack :: bytes where "ex_ack = ex_ip 2 1 (ex_tcp 0 8 0 9 18 [])"


definition ex_short :: bytes where
  "ex_short = ex_ip 1 2 (ex_tcp 0 9 0 8 16 ([21, 0, 0, 0, 0, 0, 0, 0, 0, 0, 0, 0, 220, 7, 0, 0] @ replicate 5 0))"

definition ex_opts :: pktDecodeOpts where
  "ex_opts = \<lparr>o_ServerPort = 8, o_PortRoles = [], o_Engine = ''mysql'', o_MaxPackets = 5\<rparr>"

definition ex_file :: "bytes list \<Rightarrow> bytes" where
  "ex_file frames = pcap_file True False (replicate 16 0) 101 (map (\<lambda>b. (0, 0, length b, b)) frames)"

lemma ex_open:
  assumes "\<forall>b \<in> set frames. length b < 2 ^ 32"
  obtains r where "pktOpen (ex_file frames) = Inr r" "r_linkType r = 101"
    "map (\<lambda>f. (fr_ts f, fr_data f, fr_orig f)) (all_frames r) = map (\<lambda>b. (0, b, length b)) frames"
proof -
  let ?recs = "map (\<lambda>b. (0, 0, length b, b)) frames"
  have ok: "\<forall>x \<in> set ?recs. rec_ok x" using assms by (simp add: rec_ok_def)
  have f: "map (rec_frame False) ?recs = map (\<lambda>b. (0, b, length b)) frames" by (simp add: rec_frame_def)
  show ?thesis using pcap_read [of "replicate 16 0" 101 ?recs "[]" True False] ok that f by (auto simp: ex_file_def)
qed

lemma ex_handshake_run:
  "map_option (\<lambda>s. (length (s_order s), map p_Stream (s_Packets s)))
     (decode_frames ex_lib ex_opts 5 (engine_roles pktEngineMySQL 8) (default_role pktEngineMySQL) 101
        [\<lparr>fr_ts = 0, fr_data = ex_syn, fr_orig = 40, fr_off = o1\<rparr>, \<lparr>fr_ts = 0, fr_data = ex_ack, fr_orig = 40, fr_off = o2\<rparr>] new_run)
   = Some (1, [0, 0])"
  by code_simp

lemma ex_short_segment:
  "\<exists>tcp. frame_segment 101 ex_short = Some tcp \<and> short_compressed (t_payload tcp)"
proof -
  have 1: "frame_segment 101 ex_short \<noteq> None" by code_simp
  have 2: "map_option (\<lambda>t. short_compressed (t_payload t)) (frame_segment 101 ex_short) = Some True" by code_simp
  show ?thesis using 1 2 by auto
qed

section \<open>Properties\<close>

text \<open>
  C32. What the inspector lists are the frames of the capture file: the rows of a decoded capture are,
  one for one and in order, the frames up to the limit, each with its number, its time, its length on the
  wire and the exact part of the file its bytes are; what is beyond the limit is counted as dropped, the
  frames cut short by the capture are counted, and no row names an issue twice. No decoder of a protocol
  changes any of this.
\<close>

theorem capture_rows:
  assumes "pktDecode lib buf opts = Some (Inr d)" "pktOpen buf = Inr r"
  shows "map row_of (d_Packets d) = rows_for (max_packets opts) (all_frames r)
    \<and> list_all (\<lambda>f. fr_data f = slice (fr_off f) (fr_off f + length (fr_data f)) buf) (all_frames r)
    \<and> d_Dropped d = length (all_frames r) - max_packets opts
    \<and> d_Truncat d = cut_short (take (max_packets opts) (all_frames r))
    \<and> list_all (\<lambda>p. distinct (p_Issues p)) (d_Packets d)"
proof -
  have "r_buf r = buf" using assms(2) by (auto simp: pktOpen_def pktOpenNG_def Let_def split: if_splits)
  then show ?thesis using decoded_rows [OF assms] all_frames_in_buffer [of _ r] by (simp add: list_all_iff)
qed

lemma capture_rows_witness:
  "\<exists>d. pktDecode ex_lib (ex_file [ex_syn]) ex_opts = Some (Inr d)
    \<and> map (\<lambda>p. (p_No p, p_TS p, p_FrameLen p, p_cap p)) (d_Packets d) = [(1, 0, 40, 40)] \<and> d_Dropped d = 0"
proof -
  have l: "length ex_syn = 40" by code_simp
  obtain r where r: "pktOpen (ex_file [ex_syn]) = Inr r" "r_linkType r = 101"
    "map (\<lambda>f. (fr_ts f, fr_data f, fr_orig f)) (all_frames r) = map (\<lambda>b. (0, b, length b)) [ex_syn]"
    by (rule ex_open [of "[ex_syn]"]) (simp add: l)
  then obtain f where f: "all_frames r = [f]" "fr_ts f = 0" "fr_data f = ex_syn" "fr_orig f = 40" using l by auto
  obtain d where d: "pktDecode ex_lib (ex_file [ex_syn]) ex_opts = Some (Inr d)"
    using sql_decode_total [of ex_opts _ r] r(1) by (auto simp: ex_opts_def engine_defs)
  have m: "max_packets ex_opts = 5" by (simp add: max_packets_def ex_opts_def pktMaxPackets_def)
  have "map row_of (d_Packets d) = [(1, 0, 40, fr_off f, 40)]" "d_Dropped d = 0"
    using capture_rows [OF d r(1)] f l by (simp_all add: m rows_for_def frame_row_def pktTS_def zero_time_def)
  then show ?thesis using d by (auto simp: row_of_def)
qed

text \<open>
  C30. The connections of a decoded capture: no two have the same client and server, their indexes are their
  positions, the frames and bytes counted for each are those of its rows, and every row that belongs to a
  connection has its endpoints, in the direction the row says. This holds whatever the decoders make of the
  payloads.
\<close>

theorem capture_streams:
  assumes "pktDecode lib buf opts = Some (Inr d)"
  shows "distinct (map (\<lambda>st. (st_Client st, st_Server st)) (d_Streams d))
    \<and> (\<forall>i < length (d_Streams d). stream_ok (d_Packets d) i (d_Streams d ! i))
    \<and> (\<forall>p \<in> set (d_Packets d). p_Stream p = -1 \<or> (\<exists>i < length (d_Streams d). p_Stream p = int i))"
  using decoded_streams [OF assms] by blast

lemma capture_streams_witness:
  "\<exists>d. pktDecode ex_lib (ex_file [ex_syn, ex_ack]) ex_opts = Some (Inr d) \<and> length (d_Streams d) = 1
    \<and> stream_ok (d_Packets d) 0 (d_Streams d ! 0) \<and> st_Packets (d_Streams d ! 0) = 2"
proof -
  have l: "length ex_syn = 40" "length ex_ack = 40" by code_simp+
  obtain r where r: "pktOpen (ex_file [ex_syn, ex_ack]) = Inr r" "r_linkType r = 101"
    "map (\<lambda>f. (fr_ts f, fr_data f, fr_orig f)) (all_frames r) = map (\<lambda>b. (0, b, length b)) [ex_syn, ex_ack]"
    by (rule ex_open [of "[ex_syn, ex_ack]"]) (simp add: l)
  then obtain o1 o2 where f: "all_frames r = [\<lparr>fr_ts = 0, fr_data = ex_syn, fr_orig = 40, fr_off = o1\<rparr>,
      \<lparr>fr_ts = 0, fr_data = ex_ack, fr_orig = 40, fr_off = o2\<rparr>]"
    using l by (auto simp: map_eq_Cons_conv) (metis (full_types) old.unit.exhaust pktFrame.surjective)
  have m: "max_packets ex_opts = 5" by (simp add: max_packets_def ex_opts_def pktMaxPackets_def)
  obtain s where s: "decode_frames ex_lib ex_opts 5 (engine_roles pktEngineMySQL 8) (default_role pktEngineMySQL) 101
      (all_frames r) new_run = Some s" "length (s_order s) = 1" "map p_Stream (s_Packets s) = [0, 0]"
    using ex_handshake_run [of o1 o2] f by auto
  have d: "pktDecode ex_lib (ex_file [ex_syn, ex_ack]) ex_opts = Some (Inr (finish_run ex_lib r pktEngineMySQL s))"
    using s(1) r(1,2) m by (simp add: pktDecode_def run_engine_def ex_opts_def pktEngineMySQL_def)
  let ?d = "finish_run ex_lib r pktEngineMySQL s"
  have n: "length (d_Streams ?d) = 1" using s(2) by (simp add: finish_run_def Let_def)
  have k: "stream_ok (d_Packets ?d) 0 (d_Streams ?d ! 0)" using capture_streams [OF d] n by simp
  have "length (of_stream 0 (d_Packets ?d)) = length (of_stream 0 (s_Packets s))"
    using only_issues_stream [OF finish_only [of s ex_lib r pktEngineMySQL], of 0] by (metis length_map)
  also have "\<dots> = 2" using s(3) by (auto simp: of_stream_def map_eq_Cons_conv)
  finally show ?thesis using d n k by (auto simp: stream_ok_def)
qed

text \<open>
  C18. Requests and replies meet. Take two TCP frames of a capture that were exchanged between the same two
  endpoints, one each way, and have rows. If the ports differ and at most one of them has a role, or if the ports
  are equal (as between two nodes of a cluster), a SYN of one side (\<open>cl\<close>) was captured no later than both frames
  and the other side sent none after it, then the two rows belong to the same connection, in opposite
  directions. The client is the sender of that SYN when the ports are equal, and otherwise the side whose port
  has no role, if the other has one.
\<close>

theorem reply_joins_request:
  assumes "pktDecode lib buf opts = Some (Inr d)" and "pktOpen buf = Inr r"
    and "k < length (d_Packets d)" and "j < length (d_Packets d)"
    and "frame_tcp (r_linkType r) (fr_data (all_frames r ! k)) = Some (l3, t)"
    and "frame_tcp (r_linkType r) (fr_data (all_frames r ! j)) = Some (l3', t')"
    and "l3_srcIP l3' = l3_dstIP l3" "l3_dstIP l3' = l3_srcIP l3" "t_srcPort t' = t_dstPort t" "t_dstPort t' = t_srcPort t"
    and "if t_srcPort t = t_dstPort t
      then cl \<noteq> sv \<and> {cl, sv} = {l3_srcIP l3, l3_dstIP l3} \<and> h \<le> k \<and> h \<le> j
        \<and> syn_sent (r_linkType r) (all_frames r ! h) cl sv (t_srcPort t)
        \<and> (\<forall>i. h < i \<and> (i \<le> k \<or> i \<le> j) \<longrightarrow> \<not> syn_sent (r_linkType r) (all_frames r ! i) sv cl (t_srcPort t))
      else roles_used opts (d_Engine d) (t_srcPort t) = None \<or> roles_used opts (d_Engine d) (t_dstPort t) = None"
  shows "p_Stream (d_Packets d ! k) = p_Stream (d_Packets d ! j) \<and> 0 \<le> p_Stream (d_Packets d ! k)
    \<and> {p_Dir (d_Packets d ! k), p_Dir (d_Packets d ! j)} = {''c2s'', ''s2c''}
    \<and> (if t_srcPort t = t_dstPort t then p_Dir (d_Packets d ! k) = ''c2s'' \<longleftrightarrow> l3_srcIP l3 = cl
       else (roles_used opts (d_Engine d) (t_dstPort t) \<noteq> None \<longrightarrow> p_Dir (d_Packets d ! k) = ''c2s'')
         \<and> (roles_used opts (d_Engine d) (t_srcPort t) \<noteq> None \<longrightarrow> p_Dir (d_Packets d ! k) = ''s2c''))"
proof -
  let ?lt = "r_linkType r" and ?fs = "all_frames r" and ?n = "t_srcPort t"
  note rk = decoded_row [OF assms(1,2,3,5)] and rj = decoded_row [OF assms(1,2,4,6)]
  have bf: "bar_free (l3_srcIP l3)" "bar_free (l3_dstIP l3)"
    using frame_tcp_bar_free [OF assms(5)] by (simp_all add: seg_src_def seg_dst_def ip_port_def)
  have known: "known_at ?lt (take (Suc m) ?fs) (pair_key (ip_port cl ?n) (ip_port sv ?n)) = Some (ip_port cl ?n)"
    if "t_srcPort t = t_dstPort t" "m = k \<or> m = j" for m
    using that assms(11) bf rk(2) rj(2) by (intro known_at_syn) (auto simp: doubleton_eq_iff)
  note fl = seg_row_flip [OF rk(1) rj(1) assms(7-10), of cl sv]
  have f: "p_Src (d_Packets d ! j) = p_Dst (d_Packets d ! k) \<and> p_Dst (d_Packets d ! j) = p_Src (d_Packets d ! k)"
    and dirs: "p_Dir (d_Packets d ! k) = ''c2s'' \<and> p_Dir (d_Packets d ! j) = ''s2c'' \<or>
      p_Dir (d_Packets d ! k) = ''s2c'' \<and> p_Dir (d_Packets d ! j) = ''c2s''"
    and who: "if t_srcPort t = t_dstPort t then p_Dir (d_Packets d ! k) = ''c2s'' \<longleftrightarrow> l3_srcIP l3 = cl
       else (roles_used opts (d_Engine d) (t_dstPort t) \<noteq> None \<longrightarrow> p_Dir (d_Packets d ! k) = ''c2s'')
         \<and> (roles_used opts (d_Engine d) (t_srcPort t) \<noteq> None \<longrightarrow> p_Dir (d_Packets d ! k) = ''s2c'')"
    using fl known assms(11) by (metis (full_types))+
  have pos: "0 \<le> p_Stream (d_Packets d ! k)" "0 \<le> p_Stream (d_Packets d ! j)" using rk(1) rj(1) by (simp_all add: seg_row_def)
  have "p_Stream (d_Packets d ! k) = p_Stream (d_Packets d ! j)"
    by (rule stream_of_ends [OF assms(1) _ _ pos f dirs]) (use assms(3,4) in simp_all)
  then show ?thesis using pos(1) dirs who by (intro conjI) auto
qed

text \<open>Two nodes of a cluster, both on port 9.\<close>

definition ex_peer_syn :: bytes where "ex_peer_syn = ex_ip 1 2 (ex_tcp 0 9 0 9 2 [])"
definition ex_peer_ack :: bytes where "ex_peer_ack = ex_ip 2 1 (ex_tcp 0 9 0 9 18 [])"

definition ex_peer :: "string \<Rightarrow> string \<Rightarrow> byte \<Rightarrow> pktL3 \<times> pktTCP" where
  "ex_peer src dst fl = (\<lparr>l3_srcIP = src, l3_dstIP = dst, l3_proto = 6, l3_payload = ex_tcp 0 9 0 9 fl [], l3_frag = False\<rparr>,
     \<lparr>t_srcPort = 9, t_dstPort = 9, t_seq = 1, t_ack = 0, t_flags = fl, t_window = 256, t_payload = []\<rparr>)"

lemma ex_peer_frames:
  "frame_tcp 101 ex_peer_syn = Some (ex_peer ''10.0.0.1'' ''10.0.0.2'' 2)"
  "frame_tcp 101 ex_peer_ack = Some (ex_peer ''10.0.0.2'' ''10.0.0.1'' 18)"
  by code_simp+

lemma reply_joins_request_witness:
  "\<exists>d. pktDecode ex_lib (ex_file [ex_peer_syn, ex_peer_ack]) ex_opts = Some (Inr d)
     \<and> p_Stream (d_Packets d ! 0) = p_Stream (d_Packets d ! 1) \<and> 0 \<le> p_Stream (d_Packets d ! 0)
     \<and> p_Dir (d_Packets d ! 0) = ''c2s'' \<and> p_Dir (d_Packets d ! 1) = ''s2c''"
proof -
  have l: "length ex_peer_syn = 40" "length ex_peer_ack = 40" by code_simp+
  obtain r where r: "pktOpen (ex_file [ex_peer_syn, ex_peer_ack]) = Inr r" "r_linkType r = 101"
    "map (\<lambda>f. (fr_ts f, fr_data f, fr_orig f)) (all_frames r) = map (\<lambda>b. (0, b, length b)) [ex_peer_syn, ex_peer_ack]"
    by (rule ex_open [of "[ex_peer_syn, ex_peer_ack]"]) (simp add: l)
  obtain d where d: "pktDecode ex_lib (ex_file [ex_peer_syn, ex_peer_ack]) ex_opts = Some (Inr d)"
    using sql_decode_total [OF _ _ r(1), of ex_opts ex_lib] by (auto simp: ex_opts_def engine_defs)
  obtain f g where fs: "all_frames r = [f, g]" "fr_data f = ex_peer_syn" "fr_data g = ex_peer_ack"
    using r(3) by (auto simp: map_eq_Cons_conv)
  have "max_packets ex_opts = 5" by (simp add: max_packets_def ex_opts_def pktMaxPackets_def)
  then have n: "length (d_Packets d) = 2" using arg_cong [OF decoded_rows(1) [OF d r(1)], of length] fs(1) by (simp add: rows_for_def)
  note fr = ex_peer_frames [folded fs(2,3), unfolded ex_peer_def]
  have syn: "syn_sent 101 f ''10.0.0.1'' ''10.0.0.2'' 9" "\<not> syn_sent 101 g ''10.0.0.2'' ''10.0.0.1'' 9"
    by (simp_all add: syn_sent_def fr has_flag_def tcpSYN_def tcpACK_def)
  have no: "\<forall>i. 0 < i \<and> (i \<le> 0 \<or> i \<le> 1) \<longrightarrow> \<not> syn_sent (r_linkType r) (all_frames r ! i) ''10.0.0.2'' ''10.0.0.1'' 9"
    using syn(2) by (auto simp: le_Suc_eq fs(1) r(2))
  have k: "frame_tcp (r_linkType r) (fr_data (all_frames r ! 0)) = Some (fst (ex_peer ''10.0.0.1'' ''10.0.0.2'' 2), snd (ex_peer ''10.0.0.1'' ''10.0.0.2'' 2))"
    "frame_tcp (r_linkType r) (fr_data (all_frames r ! 1)) = Some (fst (ex_peer ''10.0.0.2'' ''10.0.0.1'' 18), snd (ex_peer ''10.0.0.2'' ''10.0.0.1'' 18))"
    using fr by (simp_all add: fs(1) r(2) ex_peer_def)
  have sw: "l3_srcIP (fst (ex_peer ''10.0.0.2'' ''10.0.0.1'' 18)) = l3_dstIP (fst (ex_peer ''10.0.0.1'' ''10.0.0.2'' 2))"
    "l3_dstIP (fst (ex_peer ''10.0.0.2'' ''10.0.0.1'' 18)) = l3_srcIP (fst (ex_peer ''10.0.0.1'' ''10.0.0.2'' 2))"
    "t_srcPort (snd (ex_peer ''10.0.0.2'' ''10.0.0.1'' 18)) = t_dstPort (snd (ex_peer ''10.0.0.1'' ''10.0.0.2'' 2))"
    "t_dstPort (snd (ex_peer ''10.0.0.2'' ''10.0.0.1'' 18)) = t_srcPort (snd (ex_peer ''10.0.0.1'' ''10.0.0.2'' 2))"
    by (simp_all add: ex_peer_def)
  have kj: "0 < length (d_Packets d)" "1 < length (d_Packets d)" using n by simp_all
  note t = reply_joins_request [OF d r(1) kj k sw, of "''10.0.0.1''" "''10.0.0.2''" 0]
  have port: "t_srcPort (snd (ex_peer ''10.0.0.1'' ''10.0.0.2'' 2)) = 9" "t_dstPort (snd (ex_peer ''10.0.0.1'' ''10.0.0.2'' 2)) = 9"
    "l3_srcIP (fst (ex_peer ''10.0.0.1'' ''10.0.0.2'' 2)) = ''10.0.0.1''" "l3_dstIP (fst (ex_peer ''10.0.0.1'' ''10.0.0.2'' 2)) = ''10.0.0.2''"
    by (simp_all add: ex_peer_def)
  have s0: "syn_sent (r_linkType r) (all_frames r ! 0) ''10.0.0.1'' ''10.0.0.2'' 9" using syn(1) by (simp add: fs(1) r(2))
  have "p_Stream (d_Packets d ! 0) = p_Stream (d_Packets d ! 1) \<and> 0 \<le> p_Stream (d_Packets d ! 0)
    \<and> {p_Dir (d_Packets d ! 0), p_Dir (d_Packets d ! 1)} = {''c2s'', ''s2c''} \<and> p_Dir (d_Packets d ! 0) = ''c2s''"
    using t [unfolded port if_P [OF refl]] no s0 by blast
  then show ?thesis using d by (auto simp: doubleton_eq_iff)
qed

text \<open>
  C20. An upload that panics. When nobody has said which engine a capture holds, a first frame whose payload
  is 21 to 23 bytes starting like a compressed MongoDB message (or 24 that go on like one) ends the decoding
  of the whole capture in an index out of range; and only such a payload does.
\<close>

theorem sniff_panics:
  assumes "pktOpen buf = Inr r" "o_Engine opts = []"
  shows "(\<forall>f r' tcp. next_frame r = Some (f, r') \<and> frame_segment (r_linkType r) (fr_data f) = Some tcp
          \<and> short_compressed (t_payload tcp) \<longrightarrow> pktDecode lib buf opts = None)
    \<and> (pktSniffEngine buf port = None \<longrightarrow> (\<exists>f \<in> set (all_frames r). \<exists>tcp.
          frame_segment (r_linkType r) (fr_data f) = Some tcp \<and> short_compressed (t_payload tcp)))"
  using assms sniff_panic_first [OF assms(1)] sniff_panic_source [of 4000 r no_hits no_hits]
  by (auto simp: pktDecode_def pktSniffEngine_def split: option.splits)

lemma sniff_panics_witness: "pktDecode ex_lib (ex_file [ex_short]) (ex_opts\<lparr>o_Engine := []\<rparr>) = None"
proof -
  have l: "length ex_short = 61" by code_simp
  obtain r where r: "pktOpen (ex_file [ex_short]) = Inr r" "r_linkType r = 101"
    "map (\<lambda>f. (fr_ts f, fr_data f, fr_orig f)) (all_frames r) = map (\<lambda>b. (0, b, length b)) [ex_short]"
    by (rule ex_open [of "[ex_short]"]) (simp add: l)
  then obtain f r' where "next_frame r = Some (f, r')" "fr_data f = ex_short"
    by (auto simp: all_frames.simps [of r] split: option.splits)
  then show ?thesis using sniff_panics [OF r(1), of "ex_opts\<lparr>o_Engine := []\<rparr>" ex_lib 8] ex_short_segment r(2) by auto
qed

end
