(* ===== verification/Pkt_Inspect.thy ===== *)
theory Pkt_Inspect
  imports Pkt_Streams "HOL-Library.Product_Lexorder" "HOL-Library.Multiset"
begin

text \<open>
  What the packet inspector answers about a decoded capture (\<^verbatim>\<open>src/app/pktinspect.go\<close>): the headline numbers
  (\<^verbatim>\<open>pktSummarize\<close>), the filter of a list request and the page it selects (\<^verbatim>\<open>pktQuery.match\<close>, \<^verbatim>\<open>pktAroundPage\<close>,
  the loop of \<^verbatim>\<open>handlePktPackets\<close>), the traffic timeline (\<^verbatim>\<open>pktBuildTimeline\<close>), and the detail of one packet with
  its hex dump.

  The code works with times as \<^verbatim>\<open>float64\<close> seconds. A finite \<^verbatim>\<open>float64\<close> is a whole number of units of 2 to the
  power -1074, and that number is how the model writes it; \<open>il_sec\<close> is the division of \<^verbatim>\<open>pktTS\<close> that turns the
  nanoseconds of a row into such a number, \<open>il_sub\<close> the rounded difference, \<open>il_pos\<close> and \<open>il_start\<close> the two
  expressions of the timeline. With the Unicode tables (\<open>il_ToLower\<close>, \<open>il_EqualFold\<close>), the parser of numbers in
  requests and the order of a walk over a Go map they are arguments, and no theorem depends on what they do unless
  it says so.
\<close>

section \<open>Arguments, requests and replies\<close>

text \<open>A number of a request: what is not positive, or no number, has no effect whatever it is.\<close>

datatype fsec = Fin int | Infinite

record insp_lib =
  il_ToLower :: "string \<Rightarrow> string"
  il_EqualFold :: "string \<Rightarrow> string \<Rightarrow> bool"
  il_ParseFloat :: "string \<Rightarrow> fsec"
  il_sec :: "int \<Rightarrow> int"
  il_sub :: "int \<Rightarrow> int \<Rightarrow> int"
  il_pos :: "int \<Rightarrow> int \<Rightarrow> int \<Rightarrow> nat \<Rightarrow> int"
  il_start :: "int \<Rightarrow> int \<Rightarrow> nat \<Rightarrow> nat \<Rightarrow> int"
  il_walk :: "(string \<times> nat) list \<Rightarrow> (string \<times> nat) list"

record pktIssueStat =
  is_Kind :: string
  is_Count :: nat

record pktSummary =
  su_Packets :: nat
  su_Streams :: nat
  su_Bytes :: nat
  su_FirstTS :: int
  su_LastTS :: int
  su_Protos :: "(string \<times> nat) list"
  su_IssueTop :: "pktIssueStat list"
  su_Queries :: nat
  su_Errors :: nat
  su_TLSStream :: nat
  su_Dropped :: nat
  su_Truncated :: nat
  su_Format :: string
  su_LinkType :: nat

record pktQuery =
  q_FromNo :: int
  q_ToNo :: int
  q_FromTS :: fsec
  q_ToTS :: fsec
  q_Stream :: int
  q_Proto :: string
  q_Issue :: string
  q_Dir :: string
  q_Search :: string
  q_Limit :: int
  q_Offset :: int
  q_Buckets :: int
  q_Around :: fsec

record pktTimeBucket =
  b_TS :: int
  b_FirstNo :: nat
  b_LastNo :: nat
  b_Count :: nat
  b_Bytes :: nat
  b_Warnings :: nat
  b_Errors :: nat
  b_Queries :: nat

record pktStreamBrief =
  sb_Index :: nat
  sb_Client :: string
  sb_Server :: string
  sb_Label :: string

record pktTimeline =
  tl_FromTS :: int
  tl_ToTS :: int
  tl_FromNo :: nat
  tl_ToNo :: nat
  tl_Buckets :: "pktTimeBucket list"
  tl_Total :: nat
  tl_Kinds :: "pktIssueStat list"
  tl_Streams :: "pktStreamBrief list"

section \<open>Numbers of a request\<close>

definition pktClamp :: "int \<Rightarrow> int \<Rightarrow> int \<Rightarrow> int \<Rightarrow> int" where
  "pktClamp v lo hi def =
     (let v1 = (if v \<le> 0 then def else v) in if v1 < lo then lo else if v1 > hi then hi else v1)"

definition atoiDef :: "string \<Rightarrow> int \<Rightarrow> int" where
  "atoiDef s def =
     (if s = [] then def else case go_ParseInt (go_TrimSpace s) of None \<Rightarrow> def | Some n \<Rightarrow> n)"

text \<open>A request maps the name of a parameter to its value; a missing one is the empty string.\<close>

definition pktParseQuery :: "insp_lib \<Rightarrow> (string \<Rightarrow> string) \<Rightarrow> pktQuery" where
  "pktParseQuery lib q =
     \<lparr>q_FromNo = atoiDef (q ''fromNo'') 0, q_ToNo = atoiDef (q ''toNo'') 0,
      q_FromTS = il_ParseFloat lib (q ''fromTs''), q_ToTS = il_ParseFloat lib (q ''toTs''),
      q_Stream = atoiDef (q ''stream'') (-1), q_Proto = go_TrimSpace (q ''proto''), q_Issue = go_TrimSpace (q ''issue''),
      q_Dir = go_TrimSpace (q ''dir''), q_Search = il_ToLower lib (go_TrimSpace (q ''q'')),
      q_Limit = pktClamp (atoiDef (q ''limit'') 0) 1 5000 500, q_Offset = atoiDef (q ''offset'') 0,
      q_Buckets = pktClamp (atoiDef (q ''buckets'') 0) 2 2000 200, q_Around = il_ParseFloat lib (q ''around'')\<rparr>"

section \<open>Kinds of issues\<close>

definition cut_before :: "string \<Rightarrow> string \<Rightarrow> string option" where
  "cut_before s sep = (case go_Index s sep of None \<Rightarrow> None | Some i \<Rightarrow> if i > 0 then Some (take i s) else None)"

definition pktIssueKind :: "string \<Rightarrow> string" where
  "pktIssueKind s =
     (case cut_before s ('' '' @ em_dash @ '' '') of Some k \<Rightarrow> k
      | None \<Rightarrow> (case cut_before s '':'' of Some k \<Rightarrow> k
      | None \<Rightarrow> (case cut_before s '' ('' of Some k \<Rightarrow> k
      | None \<Rightarrow> s)))"

definition pktSevereIssues :: "string \<Rightarrow> bool" where
  "pktSevereIssues kind \<longleftrightarrow>
     List.member
       [''TCP retransmission'', ''TCP reset'', ''TCP gap'', ''TCP zero window'', ''TCP duplicate ACK'', ''Connection refused'',
        ''Connection attempt unanswered'', ''Server closed the connection'', ''TLS alert'', ''MySQL packet sequence'',
        ''Compressed protocol negotiated'', ''ICMP destination unreachable'', ''ICMP port unreachable''] kind
     \<or> List.member (pktErrLabels True) kind"

text \<open>A Go map from strings to counters, and the counting of a list into it.\<close>

fun bump :: "string \<Rightarrow> (string \<times> nat) list \<Rightarrow> (string \<times> nat) list" where
  "bump k [] = [(k, 1)]"
| "bump k ((k', n) # m) = (if k = k' then (k', n + 1) # m else (k', n) # bump k m)"

definition count_in :: "string list \<Rightarrow> (string \<times> nat) list" where
  "count_in ks = fold bump ks []"

definition issue_kinds :: "pktPacket list \<Rightarrow> string list" where
  "issue_kinds ps = concat (map (\<lambda>p. map pktIssueKind (p_Issues p)) ps)"

definition issue_stat :: "string \<times> nat \<Rightarrow> pktIssueStat" where
  "issue_stat kn = \<lparr>is_Kind = fst kn, is_Count = snd kn\<rparr>"

text \<open>
  \<^verbatim>\<open>sort.Slice\<close> is not stable: on equal counts the summary goes by the kind, the timeline leaves the order to the
  walk over the map.
\<close>

definition pktSummarize :: "insp_lib \<Rightarrow> pktDecoded \<Rightarrow> pktSummary" where
  "pktSummarize lib d =
     (let ps = d_Packets d; ss = d_Streams d in
      \<lparr>su_Packets = length ps, su_Streams = length ss, su_Bytes = sum_list (map p_FrameLen ps),
       su_FirstTS = (if ps = [] then 0 else il_sec lib (p_TS (hd ps))),
       su_LastTS = (if ps = [] then 0 else il_sec lib (p_TS (List.last ps))),
       su_Protos = count_in (map p_Proto ps),
       su_IssueTop = sort_key (\<lambda>s. (- int (is_Count s), is_Kind s)) (map issue_stat (il_walk lib (count_in (issue_kinds ps)))),
       su_Queries = sum_list (map st_Queries ss), su_Errors = sum_list (map st_Errors ss),
       su_TLSStream = length (filter st_TLS ss), su_Dropped = d_Dropped d, su_Truncated = d_Truncat d,
       su_Format = d_Format d, su_LinkType = d_LinkType d\<rparr>)"

section \<open>The filter and the page\<close>

definition fsec_pos :: "fsec \<Rightarrow> bool" where
  "fsec_pos x = (case x of Fin i \<Rightarrow> i > 0 | Infinite \<Rightarrow> True)"

definition fsec_gt :: "fsec \<Rightarrow> int \<Rightarrow> bool" where
  "fsec_gt x t = (case x of Fin i \<Rightarrow> t < i | Infinite \<Rightarrow> True)"

definition fsec_lt :: "fsec \<Rightarrow> int \<Rightarrow> bool" where
  "fsec_lt x t = (case x of Fin i \<Rightarrow> t > i | Infinite \<Rightarrow> False)"

definition issue_match :: "string \<Rightarrow> pktPacket \<Rightarrow> bool" where
  "issue_match want p =
     (if want = ''any'' then p_Issues p \<noteq> []
      else if want \<noteq> [] then list_ex (\<lambda>is. pktIssueKind is = want) (p_Issues p)
      else True)"

definition pktQuery_match :: "insp_lib \<Rightarrow> pktQuery \<Rightarrow> pktPacket \<Rightarrow> bool" where
  "pktQuery_match lib q p =
     (let t = il_sec lib (p_TS p) in
      if q_FromNo q > 0 \<and> int (p_No p) < q_FromNo q then False
      else if q_ToNo q > 0 \<and> int (p_No p) > q_ToNo q then False
      else if fsec_pos (q_FromTS q) \<and> fsec_gt (q_FromTS q) t then False
      else if fsec_pos (q_ToTS q) \<and> fsec_lt (q_ToTS q) t then False
      else if q_Stream q \<ge> 0 \<and> p_Stream p \<noteq> q_Stream q then False
      else if q_Proto q \<noteq> [] \<and> \<not> il_EqualFold lib (q_Proto q) (p_Proto p) then False
      else if q_Dir q \<noteq> [] \<and> q_Dir q \<noteq> p_Dir p then False
      else if \<not> issue_match (q_Issue q) p then False
      else if q_Search q \<noteq> []
           \<and> \<not> go_Contains (il_ToLower lib (p_Info p)) (q_Search q)
           \<and> \<not> go_Contains (il_ToLower lib (p_Query p)) (q_Search q)
           \<and> \<not> go_Contains (il_ToLower lib (p_Src p)) (q_Search q)
           \<and> \<not> go_Contains (il_ToLower lib (p_Dst p)) (q_Search q) then False
      else True)"

text \<open>
  The search for the nearest packet: the best so far (its distance, its place among the matching packets, its number
  and its signed distance) and the number of matching packets passed. It starts from \<^verbatim>\<open>math.MaxFloat64\<close>, so a packet
  that is not nearer than that is not found, and from an infinite instant none is.
\<close>

definition maxFloat64 :: int where
  "maxFloat64 = (2 ^ 53 - 1) * 2 ^ (971 + 1074)"

record nearest =
  n_best :: int
  n_idx :: int
  n_no :: nat
  n_delta :: int

definition around_step :: "insp_lib \<Rightarrow> pktQuery \<Rightarrow> pktPacket \<Rightarrow> nearest \<times> nat \<Rightarrow> nearest \<times> nat" where
  "around_step lib q p sn =
     (let (s, n) = sn in
      if \<not> pktQuery_match lib q p then (s, n)
      else (case q_Around q of
          Infinite \<Rightarrow> (s, n + 1)
        | Fin a \<Rightarrow>
            let dl = il_sub lib (il_sec lib (p_TS p)) a in
            if \<bar>dl\<bar> < n_best s
            then (\<lparr>n_best = \<bar>dl\<bar>, n_idx = int n, n_no = p_No p, n_delta = dl\<rparr>, n + 1)
            else (s, n + 1)))"

definition no_nearest :: nearest where
  "no_nearest = \<lparr>n_best = maxFloat64, n_idx = -1, n_no = 0, n_delta = 0\<rparr>"

definition pktAroundPage :: "insp_lib \<Rightarrow> pktDecoded \<Rightarrow> pktQuery \<Rightarrow> int \<times> nat \<times> int" where
  "pktAroundPage lib d q =
     (let (s, n) = fold (around_step lib q) (d_Packets d) (no_nearest, 0) in
      if n_idx s < 0 then (0, 0, 0)
      else (let off = n_idx s - q_Limit q div 2 in (if off < 0 then 0 else off, n_no s, n_delta s)))"

record page_state =
  g_matched :: nat
  g_skipped :: nat
  g_out :: "pktPacket list"

definition page_step :: "insp_lib \<Rightarrow> pktQuery \<Rightarrow> pktPacket \<Rightarrow> page_state \<Rightarrow> page_state" where
  "page_step lib q p s =
     (if \<not> pktQuery_match lib q p then s
      else let s1 = s\<lparr>g_matched := g_matched s + 1\<rparr> in
        if int (g_skipped s1) < q_Offset q then s1\<lparr>g_skipped := g_skipped s1 + 1\<rparr>
        else if int (length (g_out s1)) < q_Limit q then s1\<lparr>g_out := g_out s1 @ [p]\<rparr>
        else s1)"

record page_reply =
  r_packets :: "pktPacket list"
  r_matched :: nat
  r_offset :: int
  r_limit :: int
  r_total :: nat
  r_streams :: "pktStream list"
  r_nearest :: "(nat \<times> int) option"

definition packets_reply :: "insp_lib \<Rightarrow> pktDecoded \<Rightarrow> (string \<Rightarrow> string) \<Rightarrow> page_reply" where
  "packets_reply lib d req =
     (let q0 = pktParseQuery lib req;
          (off, no, dl) = (if fsec_pos (q_Around q0) then pktAroundPage lib d q0 else (q_Offset q0, 0, 0));
          q = q0\<lparr>q_Offset := off\<rparr>;
          s = fold (page_step lib q) (d_Packets d) \<lparr>g_matched = 0, g_skipped = 0, g_out = []\<rparr>
      in \<lparr>r_packets = g_out s, r_matched = g_matched s, r_offset = q_Offset q, r_limit = q_Limit q,
          r_total = length (d_Packets d), r_streams = d_Streams d,
          r_nearest = (if fsec_pos (q_Around q) then Some (no, dl) else None)\<rparr>)"

section \<open>The timeline\<close>

definition stream_brief :: "pktStream \<Rightarrow> pktStreamBrief" where
  "stream_brief s =
     (let l0 = ''#'' @ go_utoa (st_Index s) @ '' '' @ st_Client s @ '' '' @ right_arrow @ '' '' @ st_Server s;
          l1 = (if st_RoleLabel s \<noteq> [] \<and> st_RoleLabel s \<noteq> ''MySQL'' then l0 @ '' '' @ [CHR 0xC2, CHR 0xB7] @ '' '' @ st_RoleLabel s else l0);
          l2 = (if st_User s \<noteq> [] then l1 @ '' ('' @ st_User s @ '')'' else l1);
          l3 = (if st_TLS s then l2 @ '' TLS'' else l2)
      in \<lparr>sb_Index = st_Index s, sb_Client = st_Client s, sb_Server = st_Server s, sb_Label = l3\<rparr>)"

definition bucket_of :: "insp_lib \<Rightarrow> int \<Rightarrow> int \<Rightarrow> nat \<Rightarrow> pktPacket \<Rightarrow> nat" where
  "bucket_of lib lo span n p =
     (if span > 0 then
        (let i = il_pos lib (il_sec lib (p_TS p)) lo span n;
             i1 = (if i \<ge> int n then int n - 1 else i);
             i2 = (if i1 < 0 then 0 else i1)
         in nat i2)
      else 0)"

definition issue_errors :: "pktPacket \<Rightarrow> nat" where
  "issue_errors p = length (filter (\<lambda>is. pktSevereIssues (pktIssueKind is) \<or> p_ErrCode p \<noteq> 0) (p_Issues p))"

definition is_query_row :: "pktPacket \<Rightarrow> bool" where
  "is_query_row p \<longleftrightarrow> p_Command p = ''COM_QUERY'' \<or> p_Command p = ''COM_STMT_EXECUTE'' \<or> p_Command p = ''COM_STMT_PREPARE''"

definition bucket_add :: "pktPacket \<Rightarrow> pktTimeBucket \<Rightarrow> pktTimeBucket" where
  "bucket_add p b =
     \<lparr>b_TS = b_TS b,
      b_FirstNo = (if b_Count b = 0 \<or> p_No p < b_FirstNo b then p_No p else b_FirstNo b),
      b_LastNo = (if p_No p > b_LastNo b then p_No p else b_LastNo b),
      b_Count = b_Count b + 1, b_Bytes = b_Bytes b + p_FrameLen p,
      b_Warnings = b_Warnings b + (length (p_Issues p) - issue_errors p),
      b_Errors = b_Errors b + issue_errors p,
      b_Queries = b_Queries b + (if is_query_row p then 1 else 0)\<rparr>"

definition empty_bucket :: "int \<Rightarrow> pktTimeBucket" where
  "empty_bucket t =
     \<lparr>b_TS = t, b_FirstNo = 0, b_LastNo = 0, b_Count = 0, b_Bytes = 0, b_Warnings = 0, b_Errors = 0, b_Queries = 0\<rparr>"

definition bucket_row :: "insp_lib \<Rightarrow> int \<Rightarrow> int \<Rightarrow> nat \<Rightarrow> pktPacket \<Rightarrow> pktTimeBucket list \<Rightarrow> pktTimeBucket list" where
  "bucket_row lib lo span n p bs = (let i = bucket_of lib lo span n p in bs[i := bucket_add p (bs ! i)])"

definition pktBuildTimeline :: "insp_lib \<Rightarrow> pktDecoded \<Rightarrow> pktQuery \<Rightarrow> pktTimeline" where
  "pktBuildTimeline lib d q =
     (let sel = filter (pktQuery_match lib q) (d_Packets d);
          lo = (if sel = [] then 0 else il_sec lib (p_TS (hd sel)));
          hi = (if sel = [] then 0 else il_sec lib (p_TS (List.last sel)));
          n = nat (q_Buckets q);
          span = il_sub lib hi lo;
          bs = map (\<lambda>i. empty_bucket (il_start lib lo span i n)) [0..<n]
      in \<lparr>tl_FromTS = lo, tl_ToTS = hi, tl_FromNo = (if sel = [] then 0 else p_No (hd sel)),
          tl_ToNo = (if sel = [] then 0 else p_No (List.last sel)),
          tl_Buckets = (if sel = [] then [] else fold (bucket_row lib lo span n) sel bs),
          tl_Total = length sel,
          tl_Kinds = sort_key (\<lambda>s. - int (is_Count s)) (map issue_stat (il_walk lib (count_in (issue_kinds sel)))),
          tl_Streams = map stream_brief (d_Streams d)\<rparr>)"

section \<open>The detail of a packet\<close>

definition dump_ascii :: "byte \<Rightarrow> char" where
  "dump_ascii b = (if b \<ge> 0x20 \<and> b < 0x7f then char_of (unat b) else CHR ''.'')"

definition dump_cell :: "bytes \<Rightarrow> nat \<Rightarrow> nat \<Rightarrow> nat \<Rightarrow> string" where
  "dump_cell b i e j = (if j < e then go_02x (b ! j) @ '' '' else ''   '') @ (if j = i + 7 then '' '' else [])"

definition dump_line :: "bytes \<Rightarrow> nat \<Rightarrow> string" where
  "dump_line b i =
     (let e = (if i + 16 > length b then length b else i + 16) in
      go_04x i @ ''  '' @ concat (map (dump_cell b i e) [i..<i + 16]) @ '' |'' @ map dump_ascii (slice i e b)
        @ ''|'' @ [CHR 0x0A])"

function dump_lines :: "bytes \<Rightarrow> nat \<Rightarrow> string" where
  "dump_lines b i = (if i < length b then dump_line b i @ dump_lines b (i + 16) else [])"
  by pat_completeness auto
termination
  by (relation "measure (\<lambda>(b, i). length b - i)") auto

declare dump_lines.simps [simp del]

definition pktHexDump :: "bytes \<Rightarrow> string" where
  "pktHexDump b =
     dump_lines (take 8192 b) 0
     @ (if length b > 8192 then ellipsis @ '' frame truncated for display'' @ [CHR 0x0A] else [])"

record packet_reply =
  k_packet :: pktPacket
  k_stream :: "pktStream option"
  k_hex :: string
  k_bytes :: nat

definition packet_reply_of :: "bytes \<Rightarrow> pktDecoded \<Rightarrow> string \<Rightarrow> packet_reply option" where
  "packet_reply_of raw d no =
     (case find (\<lambda>p. int (p_No p) = atoiDef no 0) (d_Packets d) of
        None \<Rightarrow> None
      | Some p \<Rightarrow>
          (let frame = (if p_off p + p_cap p \<le> length raw then slice (p_off p) (p_off p + p_cap p) raw else []) in
           Some \<lparr>k_packet = p, k_stream = find (\<lambda>s. int (st_Index s) = p_Stream p) (d_Streams d),
                 k_hex = pktHexDump frame, k_bytes = length frame\<rparr>))"

section \<open>Lemmas: pages\<close>

lemma pktClamp_range: "lo \<le> hi \<Longrightarrow> lo \<le> pktClamp v lo hi df \<and> pktClamp v lo hi df \<le> hi"
  by (simp add: pktClamp_def Let_def)

lemma pktParseQuery_limits [simp]:
  "1 \<le> q_Limit (pktParseQuery lib req)" "q_Limit (pktParseQuery lib req) \<le> 5000"
  "2 \<le> q_Buckets (pktParseQuery lib req)" "q_Buckets (pktParseQuery lib req) \<le> 2000"
  by (simp_all add: pktParseQuery_def pktClamp_range)

lemma match_Offset [simp]: "pktQuery_match lib (q\<lparr>q_Offset := off\<rparr>) = pktQuery_match lib q"
  by (cases q) (rule ext, simp only: pktQuery_match_def pktQuery.simps)

lemma page_matched: "g_matched (fold (page_step lib q) ps s) = g_matched s + length (filter (pktQuery_match lib q) ps)"
  by (induction ps arbitrary: s) (simp_all add: page_step_def Let_def)

lemma page_out:
  assumes "int (g_skipped s) < q_Offset q \<Longrightarrow> g_out s = []" "int (length (g_out s)) \<le> q_Limit q"
  shows "g_out (fold (page_step lib q) ps s)
    = take (nat (q_Limit q)) (g_out s @ drop (nat (q_Offset q) - g_skipped s) (filter (pktQuery_match lib q) ps))"
  using assms
proof (induction ps arbitrary: s)
  case (Cons p ps)
  let ?s' = "page_step lib q p s"
  have "int (g_skipped ?s') < q_Offset q \<Longrightarrow> g_out ?s' = []" "int (length (g_out ?s')) \<le> q_Limit q"
    using Cons.prems by (auto simp: page_step_def Let_def split: if_splits)
  note IH = Cons.IH [OF this]
  consider "\<not> pktQuery_match lib q p" | "pktQuery_match lib q p" "int (g_skipped s) < q_Offset q"
    | "pktQuery_match lib q p" "\<not> int (g_skipped s) < q_Offset q" "int (length (g_out s)) < q_Limit q"
    | "pktQuery_match lib q p" "\<not> int (g_skipped s) < q_Offset q" "int (length (g_out s)) = q_Limit q"
    using Cons.prems by linarith
  then show ?case
  proof cases
    case 2
    have "nat (q_Offset q) - g_skipped s = Suc (nat (q_Offset q) - (g_skipped s + 1))" using 2 by linarith
    with 2 IH show ?thesis by (simp add: page_step_def Let_def)
  next
    case 3
    have "nat (q_Offset q) - g_skipped s = 0" using 3 by linarith
    with 3 IH show ?thesis by (simp add: page_step_def Let_def)
  next
    case 4
    have "nat (q_Limit q) = length (g_out s)" using 4 by linarith
    with 4 IH show ?thesis by (simp add: page_step_def Let_def)
  qed (use IH in \<open>simp add: page_step_def\<close>)
qed simp

text \<open>How far a packet is from an instant, in the arithmetic of the code.\<close>

definition dist_to :: "insp_lib \<Rightarrow> int \<Rightarrow> pktPacket \<Rightarrow> int" where
  "dist_to lib a p = \<bar>il_sub lib (il_sec lib (p_TS p)) a\<bar>"

definition nearest_ok :: "insp_lib \<Rightarrow> int \<Rightarrow> pktPacket list \<Rightarrow> nearest \<times> nat \<Rightarrow> bool" where
  "nearest_ok lib a ms sn \<longleftrightarrow> snd sn = length ms \<and> (\<forall>m \<in> set ms. n_best (fst sn) \<le> dist_to lib a m) \<and>
     (if n_idx (fst sn) < 0 then n_best (fst sn) = maxFloat64
      else nat (n_idx (fst sn)) < length ms \<and> n_no (fst sn) = p_No (ms ! nat (n_idx (fst sn))) \<and> n_best (fst sn) < maxFloat64
        \<and> n_best (fst sn) = dist_to lib a (ms ! nat (n_idx (fst sn))) \<and> \<bar>n_delta (fst sn)\<bar> = n_best (fst sn))"

lemma around_step_ok:
  assumes "nearest_ok lib a ms sn" "q_Around q = Fin a"
  shows "nearest_ok lib a (ms @ filter (pktQuery_match lib q) [p]) (around_step lib q p sn)"
proof -
  obtain s n where sn: "sn = (s, n)" by force
  show ?thesis
  proof (cases "pktQuery_match lib q p")
    case False
    then show ?thesis using assms(1) sn by (simp add: around_step_def)
  next
    case True
    have dl: "\<bar>il_sub lib (il_sec lib (p_TS p)) a\<bar> = dist_to lib a p" by (simp add: dist_to_def)
    have n: "n = length ms" and best: "\<forall>m \<in> set ms. n_best s \<le> dist_to lib a m" "n_best s \<le> maxFloat64"
      using assms(1) sn by (auto simp: nearest_ok_def split: if_splits)
    show ?thesis
    proof (cases "dist_to lib a p < n_best s")
      case t: True
      have "around_step lib q p sn
          = (\<lparr>n_best = dist_to lib a p, n_idx = int n, n_no = p_No p, n_delta = il_sub lib (il_sec lib (p_TS p)) a\<rparr>, n + 1)"
        using t True assms(2) sn by (simp add: around_step_def Let_def dl)
      then show ?thesis using True n t best by (fastforce simp: nearest_ok_def dl)
    next
      case False
      have "around_step lib q p sn = (s, n + 1)" using True False assms(2) sn by (simp add: around_step_def Let_def dl)
      then show ?thesis using True False assms(1) n sn by (auto simp: nearest_ok_def nth_append)
    qed
  qed
qed

lemma around_fold_ok:
  assumes "q_Around q = Fin a"
  shows "nearest_ok lib a ms sn \<Longrightarrow>
    nearest_ok lib a (ms @ filter (pktQuery_match lib q) ps) (fold (around_step lib q) ps sn)"
proof (induction ps arbitrary: ms sn)
  case (Cons p ps)
  have "filter P (p # ps) = filter P [p] @ filter P ps" for P by simp
  with Cons.IH [OF around_step_ok [OF Cons.prems assms, of p]] show ?case by (metis append.assoc fold_simps(2))
qed simp

lemma around_found:
  assumes "q_Around q = Fin a"
  shows "nearest_ok lib a (filter (pktQuery_match lib q) (d_Packets d)) (fold (around_step lib q) (d_Packets d) (no_nearest, 0))"
proof -
  have "nearest_ok lib a [] (no_nearest, 0)" by (simp add: nearest_ok_def no_nearest_def)
  from around_fold_ok [OF assms this, of "d_Packets d"] show ?thesis by simp
qed

lemma around_nothing:
  assumes "q_Around q = Fin a" "\<forall>m \<in> set (filter (pktQuery_match lib q) (d_Packets d)). maxFloat64 \<le> dist_to lib a m"
  shows "pktAroundPage lib d q = (0, 0, 0)"
proof -
  obtain s n where sn: "fold (around_step lib q) (d_Packets d) (no_nearest, 0) = (s, n)" by fastforce
  have ok: "nearest_ok lib a (filter (pktQuery_match lib q) (d_Packets d)) (s, n)" using around_found [OF assms(1), of lib d] sn by simp
  have "n_idx s < 0"
  proof (rule ccontr)
    assume i: "\<not> n_idx s < 0"
    let ?M = "filter (pktQuery_match lib q) (d_Packets d)"
    have "nat (n_idx s) < length ?M" "dist_to lib a (?M ! nat (n_idx s)) < maxFloat64" using ok i by (auto simp: nearest_ok_def)
    then show False using assms(2) nth_mem [of "nat (n_idx s)" ?M] by (metis not_le)
  qed
  then show ?thesis by (simp add: pktAroundPage_def sn)
qed

lemma around_page:
  assumes "q_Around q = Fin a" "1 \<le> q_Limit q" "\<exists>m \<in> set (filter (pktQuery_match lib q) (d_Packets d)). dist_to lib a m < maxFloat64"
  defines "M \<equiv> filter (pktQuery_match lib q) (d_Packets d)"
  obtains i off dl where "pktAroundPage lib d q = (off, p_No (M ! i), dl)" "i < length M"
    "0 \<le> off" "off \<le> int i" "int i < off + q_Limit q" "\<bar>dl\<bar> = dist_to lib a (M ! i)"
    "\<forall>m \<in> set M. dist_to lib a (M ! i) \<le> dist_to lib a m"
proof -
  obtain s n where sn: "fold (around_step lib q) (d_Packets d) (no_nearest, 0) = (s, n)" by fastforce
  have ok: "nearest_ok lib a M (s, n)" using around_found [OF assms(1), of lib d] sn by (simp add: M_def)
  have b: "\<not> n_idx s < 0"
  proof
    assume "n_idx s < 0"
    then have "\<forall>m \<in> set M. maxFloat64 \<le> dist_to lib a m" using ok by (auto simp: nearest_ok_def)
    then show False using assms(3) by (auto simp: M_def simp flip: not_le)
  qed
  show ?thesis
    by (rule that [of "if n_idx s - q_Limit q div 2 < 0 then 0 else n_idx s - q_Limit q div 2" "nat (n_idx s)" "n_delta s"])
       (use ok b assms(2) sn in \<open>auto simp: nearest_ok_def pktAroundPage_def\<close>)
qed

section \<open>Lemmas: buckets\<close>

lemma bucket_of_less: "n > 0 \<Longrightarrow> bucket_of lib lo span n p < n"
  by (simp add: bucket_of_def Let_def) linarith

lemma bucket_fold_length [simp]: "length (fold (bucket_row lib lo span n) ps bs) = length bs"
  by (induction ps arbitrary: bs) (simp_all add: bucket_row_def Let_def)

lemma bucket_fold_nth:
  assumes "n > 0" "length bs = n" "j < n"
  shows "fold (bucket_row lib lo span n) ps bs ! j = fold bucket_add (filter (\<lambda>p. bucket_of lib lo span n p = j) ps) (bs ! j)"
  using assms(2,3)
proof (induction ps arbitrary: bs)
  case (Cons p ps)
  have "bucket_of lib lo span n p < length bs" using bucket_of_less [OF assms(1)] Cons.prems by simp
  with Cons show ?case by (simp add: bucket_row_def Let_def nth_list_update)
qed simp

lemma issue_errors_le: "issue_errors p \<le> length (p_Issues p)"
  by (simp add: issue_errors_def)

lemma bucket_add_fields [simp]:
  "b_TS (bucket_add p b) = b_TS b" "b_Count (bucket_add p b) = b_Count b + 1" "b_Bytes (bucket_add p b) = b_Bytes b + p_FrameLen p"
  "b_Errors (bucket_add p b) = b_Errors b + issue_errors p"
  "b_Warnings (bucket_add p b) = b_Warnings b + (length (p_Issues p) - issue_errors p)"
  "b_Queries (bucket_add p b) = b_Queries b + (if is_query_row p then 1 else 0)"
  by (simp_all add: bucket_add_def)

lemma bucket_add_sums:
  "b_TS (fold bucket_add ps b) = b_TS b"
  "b_Count (fold bucket_add ps b) = b_Count b + length ps"
  "b_Bytes (fold bucket_add ps b) = b_Bytes b + sum_list (map p_FrameLen ps)"
  "b_Errors (fold bucket_add ps b) = b_Errors b + sum_list (map issue_errors ps)"
  "b_Warnings (fold bucket_add ps b) + b_Errors (fold bucket_add ps b)
     = b_Warnings b + b_Errors b + sum_list (map (\<lambda>p. length (p_Issues p)) ps)"
  "b_Queries (fold bucket_add ps b) = b_Queries b + length (filter is_query_row ps)"
proof (induction ps arbitrary: b)
  case (Cons p ps)
  { case 5 then show ?case using issue_errors_le [of p] Cons.IH(5) [of "bucket_add p b"] by simp }
qed simp_all

lemma bucket_add_bounds:
  "b_Count b > 0 \<Longrightarrow> b_FirstNo (fold bucket_add ps b) = Min (insert (b_FirstNo b) (p_No ` set ps))
     \<and> b_LastNo (fold bucket_add ps b) = Max (insert (b_LastNo b) (p_No ` set ps))"
proof (induction ps arbitrary: b)
  case (Cons p ps)
  have fin: "finite (p_No ` set ps)" by simp
  have "b_Count (bucket_add p b) > 0" by (simp add: bucket_add_def)
  note IH = Cons.IH [OF this]
  have "b_FirstNo (bucket_add p b) = min (b_FirstNo b) (p_No p)" "b_LastNo (bucket_add p b) = max (b_LastNo b) (p_No p)"
    using Cons.prems by (auto simp: bucket_add_def min_def max_def)
  with IH fin show ?case
    by (cases "p_No ` set ps = {}") (simp_all add: Min_insert Max_insert min.assoc max.assoc)
qed simp

lemma bucket_first_last:
  assumes "ps \<noteq> []"
  shows "b_FirstNo (fold bucket_add ps (empty_bucket t)) = Min (p_No ` set ps)"
    "b_LastNo (fold bucket_add ps (empty_bucket t)) = Max (p_No ` set ps)"
proof -
  obtain p ps' where ps: "ps = p # ps'" using assms by (cases ps) auto
  let ?b = "bucket_add p (empty_bucket t)"
  have b: "b_Count ?b > 0" "b_FirstNo ?b = p_No p" "b_LastNo ?b = p_No p" by (simp_all add: bucket_add_def empty_bucket_def)
  from bucket_add_bounds [OF b(1), of ps'] b(2,3) ps
  show "b_FirstNo (fold bucket_add ps (empty_bucket t)) = Min (p_No ` set ps)"
    "b_LastNo (fold bucket_add ps (empty_bucket t)) = Max (p_No ` set ps)" by simp_all
qed

lemma sum_by_key:
  assumes "\<forall>p \<in> set ps. f p < n"
  shows "sum_list (map (\<lambda>j. length (filter (\<lambda>p. f p = j) ps)) [0..<n]) = length ps"
  using assms
proof (induction ps)
  case (Cons p ps)
  have "sum_list (map (\<lambda>j. length (filter (\<lambda>p. f p = j) (p # ps))) [0..<n])
      = sum_list (map (\<lambda>j. (if f p = j then 1 else 0) + length (filter (\<lambda>p. f p = j) ps)) [0..<n])"
    by (intro arg_cong [where f = sum_list] map_cong) auto
  also have "\<dots> = sum_list (map (\<lambda>j. if f p = j then 1 else 0) [0..<n]) + length ps"
    using Cons by (simp add: sum_list_addf)
  also have "sum_list (map (\<lambda>j. if f p = j then 1 else 0) [0..<n]) = (1 :: nat)"
    using Cons.prems by (simp add: interv_sum_list_conv_sum_set_nat)
  finally show ?case by simp
qed simp

section \<open>Lemmas: counting\<close>

lemma bump_map_of: "map_of (bump k m) = (map_of m)(k \<mapsto> (case map_of m k of None \<Rightarrow> 1 | Some n \<Rightarrow> n + 1))"
  by (induction k m rule: bump.induct) (auto simp: fun_eq_iff)

lemma bump_keys: "fst ` set (bump k m) = insert k (fst ` set m)"
  by (induction k m rule: bump.induct) auto

lemma bump_distinct: "distinct (map fst m) \<Longrightarrow> distinct (map fst (bump k m))"
  by (induction k m rule: bump.induct) (auto simp: bump_keys)

lemma bump_sum: "sum_list (map snd (bump k m)) = Suc (sum_list (map snd m))"
  by (induction k m rule: bump.induct) auto

lemma count_in_snoc: "count_in (ks @ [k]) = bump k (count_in ks)"
  by (simp add: count_in_def)

lemma count_in_distinct: "distinct (map fst (count_in ks))"
  by (induction ks rule: rev_induct) (simp_all add: count_in_snoc bump_distinct, simp add: count_in_def)

lemma count_in_map_of: "map_of (count_in ks) k = (if k \<in> set ks then Some (count_list ks k) else None)"
  by (induction ks rule: rev_induct) (auto simp: count_in_snoc bump_map_of, simp add: count_in_def)

lemma count_in_sum: "sum_list (map snd (count_in ks)) = length ks"
  by (induction ks rule: rev_induct) (simp_all add: count_in_snoc bump_sum, simp add: count_in_def)

section \<open>Lemmas: hex dumps\<close>

text \<open>
  A reader of hex dumps: the two-digit groups between the offset and the text column of every line.
\<close>

definition hex_val :: "char \<Rightarrow> nat" where
  "hex_val c = (if of_char c < (58 :: nat) then of_char c - 48 else of_char c - 87)"

fun unhex :: "string \<Rightarrow> bytes" where
  "unhex (x # y # s) = of_nat (16 * hex_val x + hex_val y) # unhex s"
| "unhex s = []"

definition undump_line :: "string \<Rightarrow> bytes" where
  "undump_line l = unhex (filter (\<lambda>c. c \<noteq> CHR '' '') (take 49 (drop 6 l)))"

definition undump :: "string \<Rightarrow> bytes" where
  "undump s = concat (map undump_line (go_Split s (CHR 0x0A)))"

lemma hex_char_cases:
  assumes "d < 16"
  shows "hex_val (hex_char d) = d" "hex_char d \<noteq> CHR '' ''" "hex_char d \<noteq> CHR 0x0A"
proof -
  have v: "(of_char (hex_char d) :: nat) = (if d < 10 then 48 + d else 87 + d)" using assms by (simp add: hex_char_def)
  then show "hex_val (hex_char d) = d" by (simp add: hex_val_def)
  show "hex_char d \<noteq> CHR '' ''" "hex_char d \<noteq> CHR 0x0A" using v by (auto split: if_splits)
qed

lemma byte_nibbles: "unat (b :: byte) div 16 < 16" "unat b mod 16 < 16"
  using unsigned_less [of b, where ?'a = nat] by auto

lemma unhex_bytes: "unhex (concat (map go_02x bs)) = bs"
proof (induction bs)
  case (Cons b bs)
  have "unat b = unat b div 16 * 16 + unat b mod 16" by simp
  then show ?case using Cons byte_nibbles [of b] by (simp add: go_02x_def hex_char_cases mult.commute)
qed simp

lemma filter_02x [simp]: "filter (\<lambda>c. c \<noteq> CHR '' '') (go_02x b) = go_02x b" and newline_02x [simp]: "CHR 0x0A \<notin> set (go_02x b)"
proof -
  note h = byte_nibbles [of b, THEN hex_char_cases(2)] byte_nibbles [of b, THEN hex_char_cases(3)]
  show "filter (\<lambda>c. c \<noteq> CHR '' '') (go_02x b) = go_02x b" "CHR 0x0A \<notin> set (go_02x b)"
    using h by (simp_all add: go_02x_def h(3,4) [symmetric])
qed

lemma newline_04x: "CHR 0x0A \<notin> set (go_04x v)"
  using hex_char_cases(3) [of "v div 4096 mod 16"] hex_char_cases(3) [of "v div 256 mod 16"]
    hex_char_cases(3) [of "v div 16 mod 16"] hex_char_cases(3) [of "v mod 16"]
  by (auto simp: go_04x_def)

lemma newline_ascii: "dump_ascii b \<noteq> CHR 0x0A"
proof
  assume *: "dump_ascii b = CHR 0x0A"
  then have b: "b \<ge> 0x20" "char_of (unat b) = CHR 0x0A" by (auto simp: dump_ascii_def split: if_splits)
  have "(of_char (char_of (unat b)) :: nat) = unat b" using unsigned_less [of b, where ?'a = nat] by simp
  then have "unat b = 10" using b by simp
  moreover have "unat b \<ge> 32" using b(1) by (simp add: word_le_nat_alt)
  ultimately show False by simp
qed

lemma dump_cells:
  fixes b :: bytes and i e :: nat
  defines "cells \<equiv> concat (map (dump_cell b i e) [i..<i + 16])"
  shows "length cells = 49" "CHR 0x0A \<notin> set cells"
    "\<lbrakk>i < e; e \<le> i + 16; e \<le> length b\<rbrakk> \<Longrightarrow> filter (\<lambda>c. c \<noteq> CHR '' '') cells = concat (map go_02x (slice i e b))"
proof -
  have len: "length (dump_cell b i e j) = 3 + (if j = i + 7 then 1 else 0)" for j
    by (simp add: dump_cell_def go_02x_def)
  have "[i..<i + 16] = map (\<lambda>k. i + k) [0..<16]" by (simp add: map_add_upt add.commute)
  then have "length cells = sum_list (map (\<lambda>k. 3 + (if k = 7 then 1 else 0)) [0..<16])"
    by (simp add: cells_def length_concat len comp_def)
  then show "length cells = 49" by (simp add: upt_rec)
  show "CHR 0x0A \<notin> set cells" by (auto simp: cells_def dump_cell_def split: if_splits)
  assume e: "i < e" "e \<le> i + 16" "e \<le> length b"
  have f: "filter (\<lambda>c. c \<noteq> CHR '' '') (dump_cell b i e j) = (if j < e then go_02x (b ! j) else [])" for j
    by (simp add: dump_cell_def)
  have "[i..<i + 16] = [i..<e] @ [e..<i + 16]" using e upt_add_eq_append [of i e "i + 16 - e"] by simp
  moreover have "map (\<lambda>j. if j < e then go_02x (b ! j) else []) [i..<e] = map (\<lambda>j. go_02x (b ! j)) [i..<e]" by simp
  moreover have "concat (map (\<lambda>j. if j < e then go_02x (b ! j) else []) [e..<i + 16]) = []" by simp
  ultimately have "filter (\<lambda>c. c \<noteq> CHR '' '') cells = concat (map (\<lambda>j. go_02x (b ! j)) [i..<e])"
    unfolding cells_def filter_concat map_map comp_def f by (simp only: map_append concat_append append_Nil2)
  also have "map (\<lambda>j. go_02x (b ! j)) [i..<e] = map go_02x (slice i e b)"
    using e by (intro nth_equalityI) (simp_all add: slice_def)
  finally show "filter (\<lambda>c. c \<noteq> CHR '' '') cells = concat (map go_02x (slice i e b))" .
qed

lemma dump_line_read:
  assumes "i < length b"
  obtains l where "dump_line b i = l @ [CHR 0x0A]" "CHR 0x0A \<notin> set l" "undump_line l = slice i (min (i + 16) (length b)) b"
proof -
  let ?e = "if i + 16 > length b then length b else i + 16"
  let ?cells = "concat (map (dump_cell b i ?e) [i..<i + 16])"
  have e: "i < ?e" "?e \<le> i + 16" "?e \<le> length b" "?e = min (i + 16) (length b)" using assms by auto
  note c = dump_cells [where b = b and i = i and e = ?e]
  have "length (go_04x i) = 4" by (simp add: go_04x_def)
  then have "take 49 (drop 6 (go_04x i @ ''  '' @ ?cells @ t)) = ?cells" for t using c(1) by simp
  then have "undump_line (go_04x i @ ''  '' @ ?cells @ t) = slice i (min (i + 16) (length b)) b" for t
    unfolding undump_line_def using c(3) [OF e(1-3)] e(4) by (simp add: unhex_bytes)
  moreover have "CHR 0x0A \<notin> dump_ascii ` B" for B using newline_ascii by (auto simp: image_iff) metis
  ultimately show ?thesis using newline_04x c(2)
    by (intro that [of "go_04x i @ ''  '' @ ?cells @ '' |'' @ map dump_ascii (slice i ?e b) @ ''|''"])
       (simp_all add: dump_line_def Let_def)
qed

lemma dump_lines_read: "undump (dump_lines b i) = drop i b"
proof (induction b i rule: dump_lines.induct)
  case (1 b i)
  show ?case
  proof (cases "i < length b")
    case True
    then obtain l where l: "dump_line b i = l @ [CHR 0x0A]" "CHR 0x0A \<notin> set l"
      "undump_line l = slice i (min (i + 16) (length b)) b" by (rule dump_line_read)
    have "drop i b = slice i (min (i + 16) (length b)) b @ drop (i + 16) b"
      using append_take_drop_id [of 16 "drop i b"] True by (cases "i + 16 \<le> length b") (simp_all add: slice_def min_def add.commute)
    moreover have "undump (dump_lines b i) = undump_line l @ undump (dump_lines b (i + 16))"
      using True l(1,2) by (subst dump_lines.simps) (simp add: undump_def go_Split_cut)
    ultimately show ?thesis using l(3) 1 [OF True] by simp
  qed (simp add: dump_lines.simps undump_def undump_line_def)
qed

lemma hexdump_read: "length b \<le> 8192 \<Longrightarrow> undump (pktHexDump b) = b"
  by (simp add: pktHexDump_def dump_lines_read)

lemma hexdump_cut:
  "length b > 8192 \<Longrightarrow> pktHexDump b = pktHexDump (take 8192 b) @ ellipsis @ '' frame truncated for display'' @ [CHR 0x0A]"
  by (simp add: pktHexDump_def)

section \<open>Lemmas: rows of a decoded capture\<close>

lemma find_unique:
  assumes "i < length xs" "P (xs ! i)" "\<forall>j < length xs. P (xs ! j) \<longrightarrow> j = i"
  shows "find P xs = Some (xs ! i)"
  unfolding find_Some_iff using assms by (intro exI [of _ i]) (metis order.strict_trans less_irrefl)

lemma atoiDef_utoa: "n < 2 ^ 63 \<Longrightarrow> atoiDef (go_utoa n) df = int n"
  by (simp add: atoiDef_def go_TrimSpace_utoa go_ParseInt_utoa)

lemma row_of_nth:
  assumes "pktDecode lib buf opts = Some (Inr d)" "pktOpen buf = Inr r" "k < length (d_Packets d)"
  shows "row_of (d_Packets d ! k) = frame_row (Suc k) (all_frames r ! k)" "k < length (all_frames r)" "k < 400000"
proof -
  have rows: "map row_of (d_Packets d) = rows_for (max_packets opts) (all_frames r)" by (rule decoded_rows(1) [OF assms(1,2)])
  have "length (d_Packets d) = min (length (all_frames r)) (max_packets opts)"
    using arg_cong [OF rows, of length] by (simp add: rows_for_def min.commute del: upt_Suc)
  then have k: "k < length (all_frames r)" "k < max_packets opts" using assms(3) by simp_all
  then show "k < length (all_frames r)" "k < 400000" by (auto simp: max_packets_def pktMaxPackets_def split: if_splits)
  have "row_of (d_Packets d ! k) = rows_for (max_packets opts) (all_frames r) ! k" using assms(3) rows by (metis nth_map)
  then show "row_of (d_Packets d ! k) = frame_row (Suc k) (all_frames r ! k)" using k by (simp add: rows_for_def del: upt_Suc)
qed

section \<open>Lemmas: severity\<close>

lemma go_Index_first:
  assumes "prefix t (drop i s)" "\<forall>j < i. \<not> prefix t (drop j s)" "i \<le> length s"
  shows "go_Index s t = Some i"
proof -
  have "[0..<length s + 1] ! j = j" if "j \<le> i" for j using that assms(3) by (subst nth_upt) auto
  then show ?thesis unfolding go_Index_def find_Some_iff using assms by (intro exI [of _ i]) auto
qed

lemma go_Index_absent: "c \<in> set t \<Longrightarrow> c \<notin> set s \<Longrightarrow> go_Index s t = None"
  unfolding go_Index_def find_None_iff by (metis in_set_dropD set_mono_prefix subsetD)

definition no_space_paren :: "string \<Rightarrow> bool" where
  "no_space_paren l = list_all (\<lambda>(x, y). \<not> (x = CHR '' '' \<and> y = CHR ''('')) (zip l (tl l))"

lemma no_space_paren_nth:
  assumes "no_space_paren l" "j < length l"
  shows "\<not> prefix '' ('' (drop j (l @ '' ('' @ r))"
proof
  assume p: "prefix '' ('' (drop j (l @ '' ('' @ r))"
  then obtain r' where r': "drop j (l @ '' ('' @ r) = CHR '' '' # CHR ''('' # r'" by (auto simp: prefix_def)
  have "(l @ '' ('' @ r) ! j = CHR '' ''" "(l @ '' ('' @ r) ! Suc j = CHR ''(''"
    using nth_drop [of j "l @ '' ('' @ r" 0] nth_drop [of j "l @ '' ('' @ r" 1] assms(2) unfolding r' by simp_all
  then show False using assms
    by (cases "Suc j < length l") (auto simp: no_space_paren_def list_all_length nth_append nth_tl)
qed

lemma issue_kind_label:
  assumes "l \<noteq> []" "no_space_paren l" "CHR 0xE2 \<notin> set (l @ r)" "CHR '':'' \<notin> set (l @ r)"
  shows "pktIssueKind (l @ '' ('' @ r) = l"
proof -
  have "go_Index (l @ '' ('' @ r) ('' '' @ em_dash @ '' '') = None"
    by (rule go_Index_absent [of "CHR 0xE2"]) (use assms(3) in \<open>simp_all add: em_dash_def\<close>)
  moreover have "go_Index (l @ '' ('' @ r) '':'' = None"
    by (rule go_Index_absent [of "CHR '':''"]) (use assms(4) in simp_all)
  moreover have "go_Index (l @ '' ('' @ r) '' ('' = Some (length l)"
    by (rule go_Index_first) (use no_space_paren_nth [OF assms(2)] in simp_all)
  ultimately show ?thesis using assms(1) by (simp add: pktIssueKind_def cut_before_def)
qed

lemma issue_kind_colon:
  assumes "l \<noteq> []" "CHR '':'' \<notin> set l" "CHR 0xE2 \<notin> set (l @ r)"
  shows "pktIssueKind (l @ '':'' @ r) = l"
proof -
  have "go_Index (l @ '':'' @ r) ('' '' @ em_dash @ '' '') = None"
    by (rule go_Index_absent [of "CHR 0xE2"]) (use assms(3) in \<open>simp_all add: em_dash_def\<close>)
  moreover have "go_Index (l @ '':'' @ r) '':'' = Some (length l)"
  proof (rule go_Index_first)
    show "\<forall>j < length l. \<not> prefix '':'' (drop j (l @ '':'' @ r))"
      using assms(2) by (auto simp: prefix_def) (metis Cons_nth_drop_Suc append_Cons append_same_eq drop_append list.inject nth_mem diff_is_0_eq' less_imp_le drop0)
  qed simp_all
  ultimately show ?thesis using assms(1) by (simp add: pktIssueKind_def cut_before_def)
qed

definition label_kind_ok :: "nat \<times> pktErrInfo \<Rightarrow> bool" where
  "label_kind_ok ce =
     (let l = ei_Label (snd ce); y = ei_Sym (snd ce) in
      l \<noteq> [] \<and> no_space_paren l \<and> CHR 0xE2 \<notin> set (l @ y) \<and> CHR '':'' \<notin> set y
      \<and> (CHR '':'' \<notin> set l \<or> fst ce = 1189 \<or> fst ce = 1190) \<and> l \<noteq> ''Replication'' \<and> l \<noteq> ''Node not ready for application use'')"

lemma catalog_kinds: "list_all label_kind_ok pktErrCatalog"
  by (simp add: pktErrCatalog_def label_kind_ok_def no_space_paren_def)

lemma severe_label: "pktErrIsSevere code \<Longrightarrow> map_of pktErrCatalog code = Some e \<Longrightarrow> pktSevereIssues (ei_Label e)"
  by (force simp: pktSevereIssues_def pktErrLabels_def dest!: map_of_SomeD)

lemma utoa_no_mark: "CHR 0xE2 \<notin> set (go_utoa n)" "CHR '':'' \<notin> set (go_utoa n)"
  using go_utoa_digits [of n] by (auto simp: go_digit_def)

text \<open>
  The severity of an error reported by a MySQL server: the kind under which its issue is counted is one the timeline
  paints red, for every code of the catalogue that the catalogue calls severe; except for the two of replication,
  whose labels are cut at their own colon, and for 1047, whose label changes with the text of the error.
\<close>

theorem severe_kinds:
  assumes "pktErrIsSevere code" "code \<notin> {1047, 1189, 1190}"
  shows "pktSevereIssues (pktIssueKind (pktErrIssue code txt))"
proof -
  obtain e where e: "map_of pktErrCatalog code = Some e" using assms(1)
    by (cases "map_of pktErrCatalog code") (simp_all add: pktErrIsSevere_def)
  have "label_kind_ok (code, e)" using catalog_kinds map_of_SomeD [OF e] by (auto simp: list_all_iff)
  then have "pktIssueKind (ei_Label e @ '' ('' @ go_utoa code @ '' '' @ ei_Sym e @ '')'') = ei_Label e"
    using assms(2) by (intro issue_kind_label) (auto simp: label_kind_ok_def Let_def utoa_no_mark)
  then have "pktIssueKind (pktErrIssue code txt) = ei_Label e" using assms(2) e by (simp add: pktErrIssue_def)
  then show ?thesis using severe_label [OF assms(1) e] by simp
qed

theorem severe_kinds_exceptions:
  "pktErrIsSevere 1189 \<and> pktErrIsSevere 1047 \<and> pktIssueKind (pktErrIssue 1189 txt) = ''Replication''
    \<and> pktIssueKind (pktErrIssue 1190 txt) = ''Replication'' \<and> \<not> pktSevereIssues ''Replication''
    \<and> pktIssueKind ''Node not ready for application use (1047 wsrep)'' = ''Node not ready for application use''
    \<and> \<not> pktSevereIssues ''Node not ready for application use''"
proof -
  have 1: "pktErrIsSevere 1189" "pktErrIsSevere 1047" by (simp_all add: pktErrIsSevere_def pktErrCatalog_def)
  have 2: "pktErrIssue 1189 txt = ''Replication'' @ '':'' @ '' net error reading from source ('' @ go_utoa 1189 @ '' ER_SOURCE_NET_READ)''"
    "pktErrIssue 1190 txt = ''Replication'' @ '':'' @ '' net error writing to source ('' @ go_utoa 1190 @ '' ER_SOURCE_NET_WRITE)''"
    by (simp_all add: pktErrIssue_def pktErrCatalog_def)
  have 5: "pktIssueKind (''Replication'' @ '':'' @ x @ go_utoa n @ y) = ''Replication''"
    if "CHR 0xE2 \<notin> set (x @ y)" for x n y using that by (intro issue_kind_colon) (simp_all add: utoa_no_mark)
  have 3: "\<not> pktSevereIssues ''Replication''" "\<not> pktSevereIssues ''Node not ready for application use''"
    using catalog_kinds by (auto simp: pktSevereIssues_def pktErrLabels_def list_all_iff label_kind_ok_def Let_def)
  have 4: "pktIssueKind (''Node not ready for application use'' @ '' ('' @ ''1047 wsrep)'') = ''Node not ready for application use''"
    by (rule issue_kind_label) (simp_all add: no_space_paren_def)
  have "pktIssueKind (pktErrIssue 1189 txt) = ''Replication''" "pktIssueKind (pktErrIssue 1190 txt) = ''Replication''"
    unfolding 2 by (intro 5, simp)+
  with 1 3 4 show ?thesis by simp
qed

section \<open>Properties\<close>

text \<open>
  C8. The page of the packet list: it is the stretch of the rows that pass the filter which the offset and the limit of the
  request name, the limit is between 1 and 5000 whatever the request says, and the number of matching rows is reported. When
  the request names an instant instead of an offset, the page contains the matching row nearest to it, and the reply names
  that row and its distance; the one exception is an instant so far off that no matching row is nearer than the largest
  floating-point number, for which the reply names row 0 and shows the first page.
\<close>

theorem packets_page:
  fixes lib d req
  defines "q \<equiv> pktParseQuery lib req" and "rep \<equiv> packets_reply lib d req"
  defines "M \<equiv> filter (pktQuery_match lib q) (d_Packets d)"
  shows "r_packets rep = take (nat (q_Limit q)) (drop (nat (r_offset rep)) M) \<and> r_matched rep = length M
    \<and> 1 \<le> q_Limit q \<and> q_Limit q \<le> 5000
    \<and> (\<not> fsec_pos (q_Around q) \<longrightarrow> r_offset rep = q_Offset q \<and> r_nearest rep = None)
    \<and> (\<forall>a. q_Around q = Fin a \<and> a > 0 \<longrightarrow>
         (if \<forall>m \<in> set M. maxFloat64 \<le> dist_to lib a m then r_offset rep = 0 \<and> r_nearest rep = Some (0, 0)
          else \<exists>p \<in> set (r_packets rep). \<exists>dl. r_nearest rep = Some (p_No p, dl) \<and> \<bar>dl\<bar> = dist_to lib a p
            \<and> (\<forall>m \<in> set M. dist_to lib a p \<le> dist_to lib a m)))"
proof -
  obtain off no dl where o: "(if fsec_pos (q_Around q) then pktAroundPage lib d q else (q_Offset q, 0, 0)) = (off, no, dl)"
    by (metis prod_cases3)
  have lim: "1 \<le> q_Limit q" "q_Limit q \<le> 5000" by (simp_all add: q_def)
  let ?q = "q\<lparr>q_Offset := off\<rparr>"
  have rep: "rep = \<lparr>r_packets = take (nat (q_Limit q)) (drop (nat off) M), r_matched = length M, r_offset = off, r_limit = q_Limit q,
      r_total = length (d_Packets d), r_streams = d_Streams d,
      r_nearest = (if fsec_pos (q_Around q) then Some (no, dl) else None)\<rparr>"
    unfolding rep_def packets_reply_def q_def [symmetric] Let_def o prod.case
    using page_out [of "\<lparr>g_matched = 0, g_skipped = 0, g_out = []\<rparr>" ?q lib "d_Packets d"] lim(1)
    by (simp add: page_matched M_def)
  have near: "\<exists>p \<in> set (r_packets rep). \<exists>dl. r_nearest rep = Some (p_No p, dl) \<and> \<bar>dl\<bar> = dist_to lib a p
      \<and> (\<forall>m \<in> set M. dist_to lib a p \<le> dist_to lib a m)"
    if a: "q_Around q = Fin a" "a > 0" "\<exists>m \<in> set M. dist_to lib a m < maxFloat64" for a
  proof -
    obtain i off' dl' where
      p: "pktAroundPage lib d q = (off', p_No (M ! i), dl')" "i < length M" "0 \<le> off'" "off' \<le> int i" "int i < off' + q_Limit q"
        "\<bar>dl'\<bar> = dist_to lib a (M ! i)" "\<forall>m \<in> set M. dist_to lib a (M ! i) \<le> dist_to lib a m"
      by (rule around_page [OF a(1) lim(1) a(3) [unfolded M_def], folded M_def])
    have eq: "off' = off" "no = p_No (M ! i)" "dl' = dl" using o p(1) a by (auto simp: fsec_pos_def)
    have e: "take (nat (q_Limit q)) (drop (nat off) M) ! (i - nat off) = M ! i"
      "i - nat off < length (take (nat (q_Limit q)) (drop (nat off) M))" using p(2-5) eq(1) by (simp_all, linarith+)
    have "M ! i \<in> set (r_packets rep)" using nth_mem [OF e(2)] unfolding e(1) rep by simp
    then show ?thesis using p(6,7) eq a by (intro bexI [of _ "M ! i"]) (auto simp: rep fsec_pos_def)
  qed
  have far: "r_offset rep = 0 \<and> r_nearest rep = Some (0, 0)"
    if a: "q_Around q = Fin a" "a > 0" "\<forall>m \<in> set M. maxFloat64 \<le> dist_to lib a m" for a
    using o around_nothing [OF a(1) a(3) [unfolded M_def]] a(1,2) by (simp add: rep fsec_pos_def)
  have off: "\<not> fsec_pos (q_Around q) \<longrightarrow> r_offset rep = q_Offset q \<and> r_nearest rep = None" using o by (auto simp: rep)
  show ?thesis
  proof (intro conjI allI impI, goal_cases)
    case (7 a)
    then show ?case using near [of a] far [of a] by (auto simp: not_le)
  qed (use off lim in \<open>simp_all add: rep\<close>)
qed

text \<open>
  C9. The timeline: the buckets divide the rows that pass the filter among them, each bucket counts exactly its rows, their
  bytes, queries and issues, every issue being a warning or an error, and names the first and the last of its rows.
\<close>

theorem timeline_buckets:
  fixes lib d req
  defines "q \<equiv> pktParseQuery lib req"
  defines "t \<equiv> pktBuildTimeline lib d q" and "sel \<equiv> filter (pktQuery_match lib q) (d_Packets d)"
  assumes "sel \<noteq> []"
  shows "tl_Total t = length sel \<and> length (tl_Buckets t) = nat (q_Buckets q) \<and> sum_list (map b_Count (tl_Buckets t)) = tl_Total t
    \<and> (\<forall>j < length (tl_Buckets t).
        let b = tl_Buckets t ! j;
            ps = filter (\<lambda>p. bucket_of lib (tl_FromTS t) (il_sub lib (tl_ToTS t) (tl_FromTS t)) (nat (q_Buckets q)) p = j) sel
        in b_Count b = length ps \<and> b_Bytes b = sum_list (map p_FrameLen ps) \<and> b_Queries b = length (filter is_query_row ps)
          \<and> b_Errors b = sum_list (map issue_errors ps)
          \<and> b_Warnings b + b_Errors b = sum_list (map (\<lambda>p. length (p_Issues p)) ps)
          \<and> (ps \<noteq> [] \<longrightarrow> b_FirstNo b = Min (p_No ` set ps) \<and> b_LastNo b = Max (p_No ` set ps)))"
proof -
  let ?n = "nat (q_Buckets q)" and ?lo = "tl_FromTS t" and ?span = "il_sub lib (tl_ToTS t) (tl_FromTS t)"
  let ?bs = "map (\<lambda>i. empty_bucket (il_start lib ?lo ?span i ?n)) [0..<?n]"
  have n: "?n > 0" using pktParseQuery_limits(3) [of lib req] unfolding q_def by linarith
  have t: "tl_Total t = length sel" "tl_Buckets t = fold (bucket_row lib ?lo ?span ?n) sel ?bs"
    using assms(4) by (simp_all add: t_def pktBuildTimeline_def Let_def sel_def)
  have len: "length (tl_Buckets t) = ?n" by (simp add: t(2))
  have nth: "tl_Buckets t ! j = fold bucket_add (filter (\<lambda>p. bucket_of lib ?lo ?span ?n p = j) sel) (empty_bucket (il_start lib ?lo ?span j ?n))"
    if "j < ?n" for j using bucket_fold_nth [OF n _ that, of ?bs lib ?lo ?span sel] that by (simp add: t(2))
  have "map b_Count (tl_Buckets t) = map (\<lambda>j. length (filter (\<lambda>p. bucket_of lib ?lo ?span ?n p = j) sel)) [0..<?n]"
    by (rule nth_equalityI) (simp_all add: len nth bucket_add_sums, simp add: empty_bucket_def)
  then have "sum_list (map b_Count (tl_Buckets t)) = length sel"
    using sum_by_key [of sel "bucket_of lib ?lo ?span ?n" ?n] bucket_of_less [OF n] by simp
  moreover have "b_Count (empty_bucket u) = 0" "b_Bytes (empty_bucket u) = 0" "b_Errors (empty_bucket u) = 0"
    "b_Warnings (empty_bucket u) = 0" "b_Queries (empty_bucket u) = 0" for u by (simp_all add: empty_bucket_def)
  ultimately show ?thesis using bucket_add_sums(5) [where b = "empty_bucket _"]
    by (simp add: t(1) len nth Let_def bucket_add_sums(1-4,6) bucket_first_last)
qed


text \<open>
  The issues of the summary: every kind with the number of times it occurs, the most frequent first and equal ones by
  name, whatever the order in which the map was walked.
\<close>

theorem summary_issues:
  fixes lib d
  assumes "\<And>m. mset (il_walk lib m) = mset m"
  defines "ks \<equiv> issue_kinds (d_Packets d)" and "tops \<equiv> su_IssueTop (pktSummarize lib d)"
  shows "tops = sort_key (\<lambda>s. (- int (is_Count s), is_Kind s)) (map issue_stat (count_in ks))
    \<and> set tops = {\<lparr>is_Kind = k, is_Count = count_list ks k\<rparr> | k. k \<in> set ks} \<and> sum_list (map is_Count tops) = length ks"
proof -
  let ?f = "\<lambda>s. (- int (is_Count s), is_Kind s)" and ?xs = "map issue_stat (count_in ks)"
  have tops: "tops = sort_key ?f (map issue_stat (il_walk lib (count_in ks)))" by (simp add: tops_def pktSummarize_def Let_def ks_def)
  have inj: "inj_on ?f A" for A :: "pktIssueStat set" by (auto intro!: inj_onI)
  have "sort_key ?f (map issue_stat (il_walk lib (count_in ks))) = sort_key ?f ?xs"
    by (rule sort_key_eq_sort_key) (simp_all add: assms(1) inj)
  then have eq: "tops = sort_key ?f ?xs" by (simp add: tops)
  have "set (count_in ks) = {(k, count_list ks k) | k. k \<in> set ks}"
  proof -
    have "(k, n) \<in> set (count_in ks) \<longleftrightarrow> k \<in> set ks \<and> n = count_list ks k" for k n
      using map_of_eq_Some_iff [OF count_in_distinct, of ks k n] by (auto simp: count_in_map_of split: if_splits)
    then show ?thesis by auto
  qed
  then have "set tops = {\<lparr>is_Kind = k, is_Count = count_list ks k\<rparr> | k. k \<in> set ks}" by (force simp: eq issue_stat_def)
  moreover have "sum_list (map is_Count tops) = length ks"
  proof -
    have "mset (map is_Count tops) = mset (map snd (count_in ks))" by (simp add: eq issue_stat_def multiset.map_comp comp_def)
    then show ?thesis using count_in_sum [of ks] by (metis sum_mset_sum_list)
  qed
  ultimately show ?thesis using eq by blast
qed

text \<open>
  C17. From the file to the screen: the detail of a row of a decoded capture shows the frame of the capture file with that
  number. The row is found by its number, it is shown with the connection it belongs to, and reading its hex dump back
  gives the bytes of the frame, if they are at most the 8192 that are shown.
\<close>

theorem packet_detail:
  assumes "pktDecode lib buf opts = Some (Inr d)" "pktOpen buf = Inr r" "k < length (d_Packets d)"
  defines "p \<equiv> d_Packets d ! k" and "f \<equiv> all_frames r ! k"
  shows "\<exists>rep. packet_reply_of buf d (go_utoa (k + 1)) = Some rep \<and> k_packet rep = p
    \<and> k_stream rep = (if p_Stream p = -1 then None else Some (d_Streams d ! nat (p_Stream p)))
    \<and> k_bytes rep = length (fr_data f) \<and> (length (fr_data f) \<le> 8192 \<longrightarrow> undump (k_hex rep) = fr_data f)"
proof -
  note row = row_of_nth [OF assms(1,2)]
  have nos: "p_No (d_Packets d ! j) = Suc j" if "j < length (d_Packets d)" for j
    using row(1) [OF that] by (simp add: row_of_def frame_row_def)
  have find_p: "find (\<lambda>p. int (p_No p) = atoiDef (go_utoa (k + 1)) 0) (d_Packets d) = Some p"
    unfolding p_def using assms(3) row(3) [OF assms(3)] by (intro find_unique) (auto simp: nos atoiDef_utoa)
  have "r_buf r = buf" using assms(2) by (auto simp: pktOpen_def pktOpenNG_def Let_def split: if_splits)
  then have f: "fr_off f + length (fr_data f) \<le> length buf" "fr_data f = slice (fr_off f) (fr_off f + length (fr_data f)) buf"
    using all_frames_in_buffer [of f r] nth_mem [OF row(2) [OF assms(3)]] by (simp_all add: f_def)
  have pf: "p_off p = fr_off f" "p_cap p = length (fr_data f)"
    using row(1) [OF assms(3)] by (simp_all add: p_def f_def row_of_def frame_row_def)
  have "find (\<lambda>s. int (st_Index s) = p_Stream p) (d_Streams d)
      = (if p_Stream p = -1 then None else Some (d_Streams d ! nat (p_Stream p)))"
  proof (cases "p_Stream p = -1")
    case False
    then obtain i where i: "i < length (d_Streams d)" "p_Stream p = int i"
      using decoded_streams(3) [OF assms(1)] nth_mem [OF assms(3)] by (auto simp: p_def)
    have "st_Index (d_Streams d ! j) = j" if "j < length (d_Streams d)" for j
      using decoded_streams(2) [OF assms(1)] that by (simp add: stream_ok_def)
    then show ?thesis using i by (simp add: find_unique)
  qed (simp add: find_None_iff)
  then show ?thesis using find_p f pf hexdump_read [of "fr_data f"] by (simp add: packet_reply_of_def Let_def)
qed

section \<open>Examples\<close>

definition ex_insp :: insp_lib where
  "ex_insp = \<lparr>il_ToLower = id, il_EqualFold = (=), il_ParseFloat = (\<lambda>s. Fin (atoiDef s 0)), il_sec = id, il_sub = (-),
     il_pos = (\<lambda>t lo span n. (t - lo) * int n div span), il_start = (\<lambda>lo span i n. lo + span * int i div int n), il_walk = id\<rparr>"

definition ex_rows :: pktDecoded where
  "ex_rows = \<lparr>d_Packets = [new_packet\<lparr>p_No := 1, p_TS := 1, p_FrameLen := 60\<rparr>, new_packet\<lparr>p_No := 2, p_TS := 4, p_FrameLen := 70\<rparr>,
     new_packet\<lparr>p_No := 3, p_TS := 9, p_FrameLen := 80\<rparr>], d_Streams = [], d_LinkType = 1, d_Format = ''pcap'', d_Dropped = 0,
     d_Truncat = 0, d_Engine = ''mysql''\<rparr>"

definition ex_req :: "string \<Rightarrow> string" where
  "ex_req k = (if k = ''around'' then go_utoa 5 else if k = ''limit'' then go_utoa 1 else if k = ''buckets'' then go_utoa 2 else [])"

lemma ex_query:
  "pktParseQuery ex_insp ex_req = \<lparr>q_FromNo = 0, q_ToNo = 0, q_FromTS = Fin 0, q_ToTS = Fin 0, q_Stream = -1, q_Proto = [],
     q_Issue = [], q_Dir = [], q_Search = [], q_Limit = 1, q_Offset = 0, q_Buckets = 2, q_Around = Fin 5\<rparr>"
  by (simp add: pktParseQuery_def ex_req_def atoiDef_utoa ex_insp_def pktClamp_def go_TrimSpace_def go_TrimLeft.simps [of "[]"]
      go_TrimRight.simps [of "[]"]) (simp add: atoiDef_def)

lemma ex_match: "filter (pktQuery_match ex_insp (pktParseQuery ex_insp ex_req)) (d_Packets ex_rows) = d_Packets ex_rows"
  unfolding ex_query
  by (simp add: pktQuery_match_def ex_rows_def fsec_pos_def issue_match_def)

lemma packets_page_witness:
  "\<exists>p. set (r_packets (packets_reply ex_insp ex_rows ex_req)) = {p} \<and> p_No p = 2 \<and> r_matched (packets_reply ex_insp ex_rows ex_req) = 3"
proof -
  note w = packets_page [of ex_insp ex_rows ex_req, unfolded ex_match]
  have q: "q_Around (pktParseQuery ex_insp ex_req) = Fin 5" "q_Limit (pktParseQuery ex_insp ex_req) = 1" by (simp_all add: ex_query)
  have "\<not> (\<forall>m \<in> set (d_Packets ex_rows). maxFloat64 \<le> dist_to ex_insp 5 m)"
    by (simp add: ex_rows_def ex_insp_def dist_to_def maxFloat64_def)
  with w q(1) obtain p where p: "p \<in> set (r_packets (packets_reply ex_insp ex_rows ex_req))"
    "\<forall>m \<in> set (d_Packets ex_rows). dist_to ex_insp 5 p \<le> dist_to ex_insp 5 m" by (meson zero_less_numeral)
  have "length (r_packets (packets_reply ex_insp ex_rows ex_req)) \<le> 1"
    "set (r_packets (packets_reply ex_insp ex_rows ex_req)) \<subseteq> set (d_Packets ex_rows)"
    using w q(2) by (simp_all) (meson in_set_dropD in_set_takeD subsetI)
  then have "set (r_packets (packets_reply ex_insp ex_rows ex_req)) = {p}" "p \<in> set (d_Packets ex_rows)"
    using p(1) by (cases "r_packets (packets_reply ex_insp ex_rows ex_req)"; auto)+
  moreover have "p_No p = 2" using p(2) calculation(2) by (auto simp: ex_rows_def dist_to_def ex_insp_def)
  moreover have "r_matched (packets_reply ex_insp ex_rows ex_req) = 3"
    using w by (simp add: ex_rows_def [THEN arg_cong, of d_Packets, simplified])
  ultimately show ?thesis by blast
qed

lemma timeline_buckets_witness:
  "map b_Count (tl_Buckets (pktBuildTimeline ex_insp ex_rows (pktParseQuery ex_insp ex_req))) = [2, 1]
    \<and> tl_Total (pktBuildTimeline ex_insp ex_rows (pktParseQuery ex_insp ex_req)) = 3"
proof -
  let ?t = "pktBuildTimeline ex_insp ex_rows (pktParseQuery ex_insp ex_req)"
  have ne: "filter (pktQuery_match ex_insp (pktParseQuery ex_insp ex_req)) (d_Packets ex_rows) \<noteq> []"
    unfolding ex_match by (simp add: ex_rows_def)
  note w = timeline_buckets [OF ne, unfolded ex_match]
  have q: "q_Buckets (pktParseQuery ex_insp ex_req) = 2" by (simp add: ex_query)
  have t: "tl_FromTS ?t = 1" "tl_ToTS ?t = 9"
    using ex_match by (simp_all add: pktBuildTimeline_def Let_def) (simp_all add: ex_rows_def ex_insp_def)
  have "length (tl_Buckets ?t) = 2" "tl_Total ?t = 3" using w q by (simp_all add: ex_rows_def)
  moreover have "b_Count (tl_Buckets ?t ! 0) = 2" "b_Count (tl_Buckets ?t ! 1) = 1"
    using w calculation by (simp_all add: q t Let_def) (simp_all add: ex_rows_def ex_insp_def bucket_of_def)
  ultimately show ?thesis by (auto simp: list_eq_iff_nth_eq less_Suc_eq numeral_2_eq_2)
qed

lemma packet_detail_witness:
  "\<exists>d rep. pktDecode ex_lib (ex_file [ex_syn]) ex_opts = Some (Inr d) \<and> packet_reply_of (ex_file [ex_syn]) d (go_utoa 1) = Some rep
    \<and> undump (k_hex rep) = ex_syn"
proof -
  have l: "length ex_syn = 40" by code_simp
  obtain r where r: "pktOpen (ex_file [ex_syn]) = Inr r" "r_linkType r = 101"
    "map (\<lambda>f. (fr_ts f, fr_data f, fr_orig f)) (all_frames r) = map (\<lambda>b. (0, b, length b)) [ex_syn]"
    by (rule ex_open [of "[ex_syn]"]) (simp add: l)
  then obtain f where f: "all_frames r = [f]" "fr_data f = ex_syn" by auto
  obtain d where d: "pktDecode ex_lib (ex_file [ex_syn]) ex_opts = Some (Inr d)"
    using sql_decode_total [of ex_opts _ r] r(1) by (auto simp: ex_opts_def engine_defs)
  have "max_packets ex_opts = 5" by (simp add: max_packets_def ex_opts_def pktMaxPackets_def)
  then have "0 < length (d_Packets d)"
    using arg_cong [OF decoded_rows(1) [OF d r(1)], of length] f(1) by (simp add: rows_for_def)
  from packet_detail [OF d r(1) this] d f l show ?thesis by auto
qed
end
