(* ===== verification/Pkt_Captures.thy ===== *)
theory Pkt_Captures
  imports Pkt_Inspect
begin

text \<open>
  The captures of the packet inspector: the command that takes one on its node (\<^verbatim>\<open>src/app/pktcap.go\<close>), the life of
  a capture from \<^verbatim>\<open>handlePktStart\<close> to the decoded rows, the registry that keeps the last of them, and the handlers
  that let a user see one (\<^verbatim>\<open>src/app/pktinspect.go\<close>).

  What a node answers to a script is an argument, a function of everything run on it so far; the scripts themselves
  are shell text and only named here. The goroutine of a capture and the requests of users are the steps of a relation,
  taken in any order.
\<close>

section \<open>The command on the node\<close>

definition pktCapDir :: string where "pktCapDir = ''/var/tmp/dbcanvas-pkt''"
definition pktMaxSeconds :: int where "pktMaxSeconds = 3600"
definition pktMaxCapPackets :: int where "pktMaxCapPackets = 100000"
definition pktMaxCapBytes :: int where "pktMaxCapBytes = push_bit 20 192"

definition go_letter :: "char \<Rightarrow> bool" where
  "go_letter c = (let n = (of_char c :: nat) in 97 \<le> n \<and> n \<le> 122 \<or> 65 \<le> n \<and> n \<le> 90)"

definition pktSafeName :: "string \<Rightarrow> bool" where
  "pktSafeName s \<longleftrightarrow> s \<noteq> [] \<and> list_all (\<lambda>c. go_letter c \<or> go_digit c \<or> c = CHR ''_'' \<or> c = CHR ''-'') s"

definition filter_char :: "char \<Rightarrow> bool" where
  "filter_char c \<longleftrightarrow> go_letter c \<or> go_digit c \<or> List.member '' ._:/()[]<>=!&|+-'' c"

definition pktFilterOK :: "string \<Rightarrow> bool" where
  "pktFilterOK f = list_all filter_char f"

definition pktValidateFilter :: "string \<Rightarrow> string option" where
  "pktValidateFilter f =
     (if \<not> pktFilterOK f then Some ''filter contains characters that are not valid in a BPF expression''
      else if length f > 200 then Some ''filter is too long''
      else None)"

record pktCapRequest =
  cr_Seconds :: int
  cr_Packets :: int
  cr_Snaplen :: int
  cr_Port :: nat
  cr_Engine :: string
  cr_Roles :: "(nat \<times> string) list"
  cr_Filter :: string
  cr_Iface :: string
  cr_NoFilter :: bool

text \<open>Every port once and in order, whatever the order of the walk over the map of roles.\<close>

definition pktCapPorts :: "pktCapRequest \<Rightarrow> nat list" where
  "pktCapPorts req = sort (remdups (filter (\<lambda>p. p > 0) (cr_Port req # map fst (cr_Roles req))))"

definition port_terms :: "pktCapRequest \<Rightarrow> string list" where
  "port_terms req =
     (let pterms = map (\<lambda>p. ''port '' @ go_utoa p) (pktCapPorts req) in
      if length pterms = 1 then [pterms ! 0]
      else if length pterms > 1 then [''('' @ go_Join pterms '' or '' @ '')'']
      else [])"

definition pktBPF :: "pktCapRequest \<Rightarrow> string" where
  "pktBPF req =
     (let terms = (if \<not> cr_NoFilter req then port_terms req else []);
          f = go_TrimSpace (cr_Filter req)
      in go_Join (if f \<noteq> [] then terms @ [''('' @ f @ '')''] else terms) '' and '')"

datatype capScript = PktIfaceScript | PktInstallScript | PktStartScript | PktStatusScript | PktStopScript | PktCleanScript

record exec_result =
  x_Code :: int
  x_Stdout :: string
  x_Stderr :: string

type_synonym node_log = "(capScript \<times> string list) list"

record node_env =
  ne_Exec :: "node_log \<Rightarrow> capScript \<Rightarrow> string list \<Rightarrow> string + exec_result"
  ne_Copy :: "node_log \<Rightarrow> string \<Rightarrow> string \<Rightarrow> string option"
  ne_Read :: "node_log \<Rightarrow> string \<Rightarrow> string + bytes"

definition node_exec :: "node_env \<Rightarrow> capScript \<Rightarrow> string list \<Rightarrow> node_log \<Rightarrow> (string + exec_result) \<times> node_log" where
  "node_exec ne s env log = (ne_Exec ne log s env, log @ [(s, env)])"

definition lastLines :: "string \<Rightarrow> nat \<Rightarrow> string" where
  "lastLines s n = (let t = go_TrimSpace s in if length t > n then drop (length t - n) t else t)"

definition pktResolveIface :: "node_env \<Rightarrow> node_log \<Rightarrow> (string + string) \<times> node_log" where
  "pktResolveIface ne log =
     (case node_exec ne PktIfaceScript [] log of
        (Inl e, log1) \<Rightarrow> (Inl e, log1)
      | (Inr res, log1) \<Rightarrow>
          (let iface = go_TrimSpace (x_Stdout res) in
           if iface = [] \<or> list_ex (\<lambda>c. c = CHR '' '' \<or> c = CHR 0x09 \<or> c = CHR 0x0A) iface
           then (Inl ''could not determine the capture interface'', log1)
           else (Inr iface, log1)))"

definition pktEnsureTcpdump :: "node_env \<Rightarrow> node_log \<Rightarrow> string option \<times> node_log" where
  "pktEnsureTcpdump ne log =
     (case node_exec ne PktInstallScript [] log of
        (Inl e, log1) \<Rightarrow> (Some e, log1)
      | (Inr res, log1) \<Rightarrow> (if x_Code res \<noteq> 0 then Some (go_TrimSpace (x_Stdout res @ x_Stderr res)) else None, log1))"

definition choose_iface :: "node_env \<Rightarrow> string \<Rightarrow> node_log \<Rightarrow> (string + string) \<times> node_log" where
  "choose_iface ne want log =
     (if want = [] then pktResolveIface ne log
      else if \<not> pktSafeName want then (Inl ''invalid interface name'', log)
      else (Inr want, log))"

definition start_env :: "string \<Rightarrow> string \<Rightarrow> pktCapRequest \<Rightarrow> string list" where
  "start_env cid iface req =
     [''DIR='' @ pktCapDir, ''ID='' @ cid, ''IFACE='' @ iface, ''SECS='' @ go_Itoa (cr_Seconds req),
      ''COUNT='' @ go_Itoa (cr_Packets req), ''SNAPLEN='' @ go_Itoa (cr_Snaplen req), ''FILTER='' @ pktBPF req]"

definition last_line :: "string \<Rightarrow> string" where
  "last_line s = (if List.member s (CHR 0x0A) then go_TrimSpace (List.last (go_Split s (CHR 0x0A))) else s)"

definition launch :: "node_env \<Rightarrow> string \<Rightarrow> string \<Rightarrow> pktCapRequest \<Rightarrow> node_log \<Rightarrow> (string + string \<times> string) \<times> node_log" where
  "launch ne cid iface req log =
     (case node_exec ne PktStartScript (start_env cid iface req) log of
        (Inl e, log1) \<Rightarrow> (Inl e, log1)
      | (Inr res, log1) \<Rightarrow>
          if x_Code res \<noteq> 0 then (Inl (lastLines (go_TrimSpace (x_Stdout res @ x_Stderr res)) 300), log1)
          else (case ne_Copy ne log1 (cid @ ''.pid'') (last_line (go_TrimSpace (x_Stdout res)) @ [CHR 0x0A]) of
                  Some e \<Rightarrow> (Inl (''record capture pid: '' @ e), log1)
                | None \<Rightarrow>
                    (Inr (''tcpdump -i '' @ iface @ '' -s '' @ go_Itoa (cr_Snaplen req) @ '' -n -q -c '' @ go_Itoa (cr_Packets req)
                       @ '' '' @ pktBPF req @ '' -w '' @ pktCapDir @ ''/'' @ cid @ ''.cap'', iface), log1)))"

definition pktStartCapture :: "node_env \<Rightarrow> string \<Rightarrow> pktCapRequest \<Rightarrow> node_log \<Rightarrow> (string + string \<times> string) \<times> node_log" where
  "pktStartCapture ne cid req log =
     (if \<not> pktSafeName cid then (Inl ''invalid capture id'', log)
      else case pktValidateFilter (cr_Filter req) of
        Some e \<Rightarrow> (Inl e, log)
      | None \<Rightarrow>
          (case pktEnsureTcpdump ne log of
             (Some e, log1) \<Rightarrow> (Inl (''tcpdump: '' @ e), log1)
           | (None, log1) \<Rightarrow>
               (case choose_iface ne (cr_Iface req) log1 of
                  (Inl e, log2) \<Rightarrow> (Inl e, log2)
                | (Inr iface, log2) \<Rightarrow> launch ne cid iface req log2)))"

record pktCapStatus =
  ps_Running :: bool
  ps_Bytes :: int
  ps_Packets :: int
  ps_KernelDropped :: int

text \<open>Digits only, in 64 bits: a longer number wraps.\<close>

definition atoiSafe :: "string \<Rightarrow> int" where
  "atoiSafe s =
     (let t = go_TrimSpace s in
      if list_all go_digit t then sint (fold (\<lambda>c n. n * 10 + of_nat (go_digit_val c)) t (0 :: 64 word)) else 0)"

definition status_line :: "string \<Rightarrow> pktCapStatus \<Rightarrow> pktCapStatus" where
  "status_line line st =
     (case go_Cut (go_TrimSpace line) (CHR ''='') of (k, v, found) \<Rightarrow>
        if \<not> found then st
        else if k = ''state'' then st\<lparr>ps_Running := (v = ''running'')\<rparr>
        else if k = ''bytes'' then st\<lparr>ps_Bytes := atoiSafe v\<rparr>
        else if k = ''packets'' then st\<lparr>ps_Packets := atoiSafe v\<rparr>
        else if k = ''kdropped'' then st\<lparr>ps_KernelDropped := atoiSafe v\<rparr>
        else st)"

definition id_env :: "string \<Rightarrow> string list" where
  "id_env cid = [''DIR='' @ pktCapDir, ''ID='' @ cid]"

definition pktPollCapture :: "node_env \<Rightarrow> string \<Rightarrow> node_log \<Rightarrow> (string + pktCapStatus) \<times> node_log" where
  "pktPollCapture ne cid log =
     (if \<not> pktSafeName cid then (Inl ''invalid capture id'', log)
      else case node_exec ne PktStatusScript (id_env cid) log of
        (Inl e, log1) \<Rightarrow> (Inl e, log1)
      | (Inr res, log1) \<Rightarrow>
          (Inr (fold status_line (go_Split (x_Stdout res) (CHR 0x0A))
             \<lparr>ps_Running = False, ps_Bytes = 0, ps_Packets = 0, ps_KernelDropped = 0\<rparr>), log1))"

definition pktStopCapture :: "node_env \<Rightarrow> string \<Rightarrow> node_log \<Rightarrow> string option \<times> node_log" where
  "pktStopCapture ne cid log =
     (if \<not> pktSafeName cid then (Some ''invalid capture id'', log)
      else case node_exec ne PktStopScript (id_env cid) log of
        (Inl e, log1) \<Rightarrow> (Some e, log1)
      | (Inr res, log1) \<Rightarrow> (None, log1))"

definition pktFetchCapture :: "node_env \<Rightarrow> string \<Rightarrow> node_log \<Rightarrow> (string + bytes) \<times> node_log" where
  "pktFetchCapture ne cid log =
     (if \<not> pktSafeName cid then (Inl ''invalid capture id'', log)
      else case ne_Read ne log (pktCapDir @ ''/'' @ cid @ ''.cap'') of
        Inl e \<Rightarrow> (Inl (''read capture from node: '' @ e), log)
      | Inr buf \<Rightarrow>
          if int (length buf) > pktMaxCapBytes then
            (Inl (''capture is '' @ pktBytes (length buf) @ '', over the '' @ pktBytes (nat pktMaxCapBytes) @ '' limit ''
               @ em_dash @ '' shorten the duration or narrow the filter''), log)
          else (Inr buf, snd (node_exec ne PktCleanScript (id_env cid) log)))"

section \<open>A capture\<close>

text \<open>A record of a server log; the time is in the units of \<open>il_sec\<close>.\<close>

record pktLogEntry =
  le_TS :: int
  le_Time :: string
  le_Level :: string
  le_Code :: string
  le_Subsys :: string
  le_Class :: string
  le_Label :: string
  le_Reason :: string
  le_Message :: string
  le_InWin :: bool

record pktCapture =
  cap_ID :: string
  cap_StackID :: int
  cap_Stack :: string
  cap_NodeID :: string
  cap_Label :: string
  cap_Engine :: string
  cap_Port :: nat
  cap_Iface :: string
  cap_Command :: string
  cap_Filter :: string
  cap_Source :: string
  cap_NodeType :: string
  cap_Ports :: "(nat \<times> string) list"
  cap_State :: string
  cap_Error :: string
  cap_Start :: string
  cap_End :: string
  cap_Wanted :: int
  cap_Bytes :: int
  cap_NodePackets :: int
  cap_KernelDropped :: int
  cap_SizeCapped :: bool
  cap_Summary :: "pktSummary option"
  cap_LogFile :: string
  cap_LogCount :: nat
  cap_owner :: int
  cap_raw :: bytes
  cap_decoded :: "pktDecoded option"
  cap_logEntries :: "pktLogEntry list"

text \<open>The zero value of the summary is \<open>None\<close>; the current time is an argument.\<close>

definition cap_fail :: "string \<Rightarrow> string \<Rightarrow> pktCapture \<Rightarrow> pktCapture" where
  "cap_fail err now c = c\<lparr>cap_State := ''error'', cap_Error := err, cap_End := now\<rparr>"

definition cap_opts :: "nat \<Rightarrow> (nat \<times> string) list \<Rightarrow> string \<Rightarrow> pktDecodeOpts" where
  "cap_opts serverPort roles engine = \<lparr>o_ServerPort = serverPort, o_PortRoles = roles, o_Engine = engine, o_MaxPackets = 0\<rparr>"

definition cap_finish :: "drv_lib \<Rightarrow> insp_lib \<Rightarrow> bytes \<Rightarrow> nat \<Rightarrow> (nat \<times> string) list \<Rightarrow> string \<Rightarrow> string \<Rightarrow> pktCapture \<Rightarrow> pktCapture option" where
  "cap_finish lib il buf serverPort roles engine now c =
     (case pktDecode lib buf (cap_opts serverPort roles engine) of
        None \<Rightarrow> None
      | Some (Inl err) \<Rightarrow> Some (cap_fail err now c)
      | Some (Inr d) \<Rightarrow>
          Some (c\<lparr>cap_raw := buf, cap_decoded := Some d, cap_Summary := Some (pktSummarize il d), cap_Engine := d_Engine d,
                  cap_State := ''ready'', cap_End := now\<rparr>))"

definition cap_public :: "pktCapture \<Rightarrow> pktCapture" where
  "cap_public c = c\<lparr>cap_raw := [], cap_decoded := None\<rparr>"

definition snapshot :: "pktCapture \<Rightarrow> pktDecoded option" where
  "snapshot c = cap_decoded c"

text \<open>What \<^verbatim>\<open>handlePktStop\<close> does to a capture, and \<^verbatim>\<open>pktRunCapture\<close> once it has stopped polling.\<close>

definition mark_decoding :: "pktCapture \<Rightarrow> pktCapture" where
  "mark_decoding c = (if cap_State c = ''capturing'' then c\<lparr>cap_State := ''decoding''\<rparr> else c)"

text \<open>
  One round of \<^verbatim>\<open>pktRunCapture\<close>: what the node reports (or fails to), whether the deadline has passed, whether the
  context is cancelled; the answer says whether polling is over.
\<close>

definition poll_round :: "pktCapStatus option \<Rightarrow> bool \<Rightarrow> bool \<Rightarrow> pktCapture \<Rightarrow> bool \<times> pktCapture" where
  "poll_round stat late cancelled c =
     (case stat of
        None \<Rightarrow> (late \<or> cancelled, c)
      | Some st \<Rightarrow>
          (let c1 = c\<lparr>cap_Bytes := ps_Bytes st, cap_NodePackets := ps_Packets st, cap_KernelDropped := ps_KernelDropped st\<rparr> in
           if ps_Bytes st \<ge> pktMaxCapBytes then (True, c1\<lparr>cap_SizeCapped := True\<rparr>)
           else (\<not> ps_Running st \<or> late \<or> cancelled, c1)))"

record pktStartBody =
  bd_StackID :: int
  bd_NodeID :: string
  bd_Seconds :: int
  bd_Packets :: int
  bd_Snaplen :: int
  bd_Filter :: string
  bd_Iface :: string
  bd_AllPorts :: bool

definition start_request :: "pktStartBody \<Rightarrow> string \<Rightarrow> nat \<Rightarrow> (nat \<times> string) list \<Rightarrow> pktCapRequest" where
  "start_request body engine port roles =
     \<lparr>cr_Seconds = pktClamp (bd_Seconds body) 1 pktMaxSeconds 20, cr_Packets = pktClamp (bd_Packets body) 100 pktMaxCapPackets 50000,
      cr_Snaplen = pktClamp (bd_Snaplen body) 64 262144 65535, cr_Port = port, cr_Engine = engine, cr_Roles = roles,
      cr_Filter = bd_Filter body, cr_Iface = go_TrimSpace (bd_Iface body), cr_NoFilter = bd_AllPorts body\<rparr>"

section \<open>The registry\<close>

record pktRegistry =
  g_m :: "string \<rightharpoonup> pktCapture"
  g_order :: "string list"

definition pktKeep :: nat where "pktKeep = 12"

function evict :: "pktRegistry \<Rightarrow> pktRegistry" where
  "evict g =
     (if length (g_order g) > pktKeep
      then evict (g\<lparr>g_order := tl (g_order g), g_m := (g_m g)(hd (g_order g) := None)\<rparr>)
      else g)"
  by pat_completeness auto
termination
  by (relation "measure (\<lambda>g. length (g_order g))") auto

declare evict.simps [simp del]

definition pktRemember :: "pktCapture \<Rightarrow> pktRegistry \<Rightarrow> pktRegistry" where
  "pktRemember c g = evict (g\<lparr>g_m := (g_m g)(cap_ID c \<mapsto> c), g_order := g_order g @ [cap_ID c]\<rparr>)"

definition pktGet :: "string \<Rightarrow> pktRegistry \<Rightarrow> pktCapture option" where
  "pktGet cid g = g_m g cid"

record caller =
  cl_ID :: int
  cl_Role :: string

definition may_see :: "caller \<Rightarrow> pktCapture \<Rightarrow> bool" where
  "may_see u c \<longleftrightarrow> cap_owner c = cl_ID u \<or> cl_Role u = ''admin''"

definition pktList :: "caller \<Rightarrow> pktRegistry \<Rightarrow> pktCapture list" where
  "pktList u g =
     List.map_filter (\<lambda>cid. case g_m g cid of None \<Rightarrow> None | Some c \<Rightarrow> if may_see u c then Some c else None) (rev (g_order g))"

section \<open>The handlers\<close>

datatype api_error =
    Unauthorized | BadRequest string | Forbidden | NotFound | Conflict | TooLarge string | BadGateway string

definition pktOwned :: "caller option \<Rightarrow> string \<Rightarrow> pktRegistry \<Rightarrow> api_error + pktCapture" where
  "pktOwned who cid g =
     (case who of
        None \<Rightarrow> Inl Unauthorized
      | Some u \<Rightarrow>
          (case pktGet cid g of
             None \<Rightarrow> Inl NotFound
           | Some c \<Rightarrow> if cap_owner c \<noteq> cl_ID u \<and> cl_Role u \<noteq> ''admin'' then Inl Forbidden else Inr c))"

definition handlePktList :: "caller option \<Rightarrow> pktRegistry \<Rightarrow> api_error + pktCapture list" where
  "handlePktList who g = (case who of None \<Rightarrow> Inl Unauthorized | Some u \<Rightarrow> Inr (map cap_public (pktList u g)))"

definition handlePktGet :: "caller option \<Rightarrow> string \<Rightarrow> pktRegistry \<Rightarrow> api_error + pktCapture" where
  "handlePktGet who cid g = (case pktOwned who cid g of Inl e \<Rightarrow> Inl e | Inr c \<Rightarrow> Inr (cap_public c))"

definition handlePktStop :: "caller option \<Rightarrow> string \<Rightarrow> pktRegistry \<Rightarrow> (api_error + pktCapture) \<times> pktRegistry" where
  "handlePktStop who cid g =
     (case pktOwned who cid g of
        Inl e \<Rightarrow> (Inl e, g)
      | Inr c \<Rightarrow> (let c1 = mark_decoding c in (Inr (cap_public c1), g\<lparr>g_m := (g_m g)(cid \<mapsto> c1)\<rparr>)))"

definition decoded_of :: "caller option \<Rightarrow> string \<Rightarrow> pktRegistry \<Rightarrow> api_error + pktCapture \<times> pktDecoded" where
  "decoded_of who cid g =
     (case pktOwned who cid g of
        Inl e \<Rightarrow> Inl e
      | Inr c \<Rightarrow> (case snapshot c of None \<Rightarrow> Inl Conflict | Some d \<Rightarrow> Inr (c, d)))"

definition handlePktPackets :: "insp_lib \<Rightarrow> caller option \<Rightarrow> string \<Rightarrow> (string \<Rightarrow> string) \<Rightarrow> pktRegistry \<Rightarrow> api_error + page_reply" where
  "handlePktPackets il who cid req g = (case decoded_of who cid g of Inl e \<Rightarrow> Inl e | Inr (c, d) \<Rightarrow> Inr (packets_reply il d req))"

definition handlePktTimeline :: "insp_lib \<Rightarrow> caller option \<Rightarrow> string \<Rightarrow> (string \<Rightarrow> string) \<Rightarrow> pktRegistry \<Rightarrow> api_error + pktTimeline" where
  "handlePktTimeline il who cid req g =
     (case decoded_of who cid g of Inl e \<Rightarrow> Inl e | Inr (c, d) \<Rightarrow> Inr (pktBuildTimeline il d (pktParseQuery il req)))"

definition handlePktPacket :: "caller option \<Rightarrow> string \<Rightarrow> string \<Rightarrow> pktRegistry \<Rightarrow> api_error + packet_reply" where
  "handlePktPacket who cid no g =
     (case decoded_of who cid g of
        Inl e \<Rightarrow> Inl e
      | Inr (c, d) \<Rightarrow> (case packet_reply_of (cap_raw c) d no of None \<Rightarrow> Inl NotFound | Some rep \<Rightarrow> Inr rep))"

definition handlePktDownload :: "caller option \<Rightarrow> string \<Rightarrow> pktRegistry \<Rightarrow> api_error + bytes" where
  "handlePktDownload who cid g =
     (case pktOwned who cid g of Inl e \<Rightarrow> Inl e | Inr c \<Rightarrow> if cap_raw c = [] then Inl Conflict else Inr (cap_raw c))"

text \<open>
  Starting a capture. What the target resolves to (engine, container, label, port), the roles of its ports with the
  type of its node and the name of its stack come from the stack store; the identifier and the time are arguments, and a
  body that cannot be read is \<open>None\<close>.
\<close>

record cap_target =
  ct_engine :: string
  ct_label :: string
  ct_port :: nat
  ct_roles :: "(nat \<times> string) list"
  ct_nodeType :: string
  ct_stack :: string

definition known_engine :: "string \<Rightarrow> bool" where
  "known_engine e \<longleftrightarrow> e = pktEngineMySQL \<or> e = pktEnginePostgres \<or> e = pktEngineMongoDB \<or> e = pktEngineValkey"

definition new_capture :: "caller \<Rightarrow> string \<Rightarrow> string \<Rightarrow> pktCapture" where
  "new_capture u cid now =
     \<lparr>cap_ID = cid, cap_StackID = 0, cap_Stack = [], cap_NodeID = [], cap_Label = [], cap_Engine = [], cap_Port = 0, cap_Iface = [],
      cap_Command = [], cap_Filter = [], cap_Source = [], cap_NodeType = [], cap_Ports = [], cap_State = [], cap_Error = [],
      cap_Start = now, cap_End = [], cap_Wanted = 0, cap_Bytes = 0, cap_NodePackets = 0, cap_KernelDropped = 0,
      cap_SizeCapped = False, cap_Summary = None, cap_LogFile = [], cap_LogCount = 0, cap_owner = cl_ID u, cap_raw = [], cap_decoded = None,
      cap_logEntries = []\<rparr>"

definition handlePktStart :: "node_env \<Rightarrow> caller option \<Rightarrow> pktStartBody option \<Rightarrow> (string + cap_target) \<Rightarrow> string \<Rightarrow> string
    \<Rightarrow> node_log \<Rightarrow> pktRegistry \<Rightarrow> (api_error + pktCapture) \<times> node_log \<times> pktRegistry" where
  "handlePktStart ne who reqBody target cid now log g =
     (case who of
        None \<Rightarrow> (Inl Unauthorized, log, g)
      | Some u \<Rightarrow>
     (case reqBody of
        None \<Rightarrow> (Inl (BadRequest ''invalid request body''), log, g)
      | Some body \<Rightarrow>
     (case target of
        Inl e \<Rightarrow> (Inl (BadRequest e), log, g)
      | Inr t \<Rightarrow>
          if \<not> known_engine (ct_engine t) then
            (Inl (BadRequest ''the Packet Inspector decodes MySQL, PostgreSQL, MongoDB and Valkey traffic; pick one of those targets''), log, g)
          else (case pktValidateFilter (bd_Filter body) of
             Some e \<Rightarrow> (Inl (BadRequest e), log, g)
           | None \<Rightarrow>
               (let req = start_request body (ct_engine t) (ct_port t) (ct_roles t);
                    c = (new_capture u cid now)\<lparr>cap_StackID := bd_StackID body, cap_Stack := ct_stack t, cap_NodeID := bd_NodeID body,
                          cap_Label := ct_label t, cap_Engine := ct_engine t, cap_Port := ct_port t, cap_Filter := pktBPF req,
                          cap_Source := ''node'', cap_NodeType := ct_nodeType t, cap_Ports := ct_roles t, cap_State := ''capturing'',
                          cap_Wanted := cr_Seconds req\<rparr>
                in case pktStartCapture ne cid req log of
                     (Inl e, log1) \<Rightarrow> (Inl (BadGateway e), log1, g)
                   | (Inr (cmdLine, iface), log1) \<Rightarrow>
                       (let c1 = c\<lparr>cap_Command := cmdLine, cap_Iface := iface\<rparr>
                        in (Inr (cap_public c1), log1, pktRemember c1 g)))))))"

text \<open>
  Uploading one. The parts of the form are arguments (or the complaint about a form that cannot be read), with the server log that may
  come with the capture as its name and bytes; \<open>parseLog\<close> is \<^verbatim>\<open>pktParseServerLog\<close>.
\<close>

definition upload_engine :: "insp_lib \<Rightarrow> string \<Rightarrow> string" where
  "upload_engine il form =
     (let e = il_ToLower il (go_TrimSpace form) in if e \<noteq> pktEngineMySQL \<and> e \<noteq> pktEnginePostgres then [] else e)"

definition upload_port :: "bytes \<Rightarrow> string \<Rightarrow> string \<Rightarrow> nat option" where
  "upload_port buf engine form =
     (case (if engine = [] then pktSniffEngine buf 0 else Some engine) of
        None \<Rightarrow> None
      | Some sniffed \<Rightarrow>
          (let defPort = (if sniffed = pktEnginePostgres then pgClientPort
                          else if sniffed = pktEngineMongoDB then mongoClientPort
                          else if sniffed = pktEngineValkey then valkeyClientPort
                          else 3306)
           in Some (nat (pktClamp (atoiDef form 0) 1 65535 (int defPort)))))"

definition pktMaxLogBytes :: int where "pktMaxLogBytes = push_bit 20 64"

record upload_form =
  up_Filename :: string
  up_buf :: bytes
  up_engine :: string
  up_port :: string
  up_log :: "(string \<times> bytes option) option"

definition log_error :: "(bytes \<Rightarrow> string \<Rightarrow> pktLogEntry list) \<Rightarrow> string \<Rightarrow> (string \<times> bytes option) option \<Rightarrow> api_error option" where
  "log_error parseLog engine logf =
     (case logf of
        None \<Rightarrow> None
      | Some (name, None) \<Rightarrow> Some (BadRequest ''could not read the uploaded server log'')
      | Some (name, Some lb) \<Rightarrow>
          if int (length lb) > pktMaxLogBytes then Some (TooLarge (''server log is over the '' @ pktBytes (nat pktMaxLogBytes) @ '' limit''))
          else if parseLog lb engine = [] then Some (BadRequest (''no server-log records were recognised in '' @ name
            @ '' '' @ em_dash @ '' expected MySQL lines like '' @ [CHR 0x22] @ ''2026-08-03T19:19:01.501234Z 12 [Note] [MY-010914] [Server] '' @ ellipsis @ [CHR 0x22] @ '', PostgreSQL lines like '' @ [CHR 0x22] @ ''2026-08-04 06:15:44.142 UTC [2948] ERROR:  '' @ ellipsis @ [CHR 0x22] @ '', or MongoDB JSON lines like {'' @ [CHR 0x22] @ ''t'' @ [CHR 0x22] @ '':{'' @ [CHR 0x22] @ ''$date'' @ [CHR 0x22] @ '':'' @ [CHR 0x22] @ ellipsis @ [CHR 0x22] @ ''},'' @ [CHR 0x22] @ ''s'' @ [CHR 0x22] @ '':'' @ [CHR 0x22] @ ''I'' @ [CHR 0x22] @ '','' @ [CHR 0x22] @ ''c'' @ [CHR 0x22] @ '':'' @ [CHR 0x22] @ ''NETWORK'' @ [CHR 0x22] @ '','' @ [CHR 0x22] @ ''id'' @ [CHR 0x22] @ '':22943,'' @ ellipsis @ ''}''))
          else None)"

definition upload_log :: "(bytes \<Rightarrow> string \<Rightarrow> pktLogEntry list) \<Rightarrow> string \<Rightarrow> (string \<times> bytes option) option \<Rightarrow> string \<times> pktLogEntry list" where
  "upload_log parseLog engine logf =
     (case logf of Some (name, Some lb) \<Rightarrow> (name, parseLog lb engine) | _ \<Rightarrow> ([], []))"

definition handlePktUpload :: "drv_lib \<Rightarrow> insp_lib \<Rightarrow> (bytes \<Rightarrow> string \<Rightarrow> pktLogEntry list) \<Rightarrow> caller option \<Rightarrow> string + upload_form \<Rightarrow> string \<Rightarrow> string
    \<Rightarrow> pktRegistry \<Rightarrow> ((api_error + pktCapture) \<times> pktRegistry) option" where
  "handlePktUpload lib il parseLog who upload cid now g =
     (case who of
        None \<Rightarrow> Some (Inl Unauthorized, g)
      | Some u \<Rightarrow>
     (case upload of
        Inl e \<Rightarrow> Some (Inl (BadRequest e), g)
      | Inr form \<Rightarrow>
          if int (length (up_buf form)) > pktMaxCapBytes then
            Some (Inl (TooLarge (''capture is over the '' @ pktBytes (nat pktMaxCapBytes) @ '' limit'')), g)
          else
            (let engine = upload_engine il (up_engine form) in
             case upload_port (up_buf form) engine (up_port form) of
               None \<Rightarrow> None
             | Some port \<Rightarrow>
                 (case log_error parseLog engine (up_log form) of
                    Some e \<Rightarrow> Some (Inl e, g)
                  | None \<Rightarrow>
                      (let (logName, entries) = upload_log parseLog engine (up_log form);
                           c = (new_capture u cid now)\<lparr>cap_Label := up_Filename form, cap_Source := ''upload'', cap_Engine := engine,
                             cap_Port := port, cap_State := ''decoding'',
                             cap_Command := ''(uploaded '' @ up_Filename form @ '', decoded with server port '' @ go_utoa port @ '')'',
                             cap_LogFile := logName, cap_LogCount := length entries, cap_logEntries := entries\<rparr>;
                           g1 = pktRemember c g
                       in case cap_finish lib il (up_buf form) port [] engine now c of
                            None \<Rightarrow> None
                          | Some c1 \<Rightarrow>
                              (let g2 = g1\<lparr>g_m := (g_m g1)(cid \<mapsto> c1)\<rparr> in
                               if cap_State c1 = ''error'' then Some (Inl (BadRequest (cap_Error c1)), g2)
                               else Some (Inr (cap_public c1), g2)))))))"

section \<open>The life of a capture\<close>

datatype cap_phase = Polling | Fetching | Decoding | Over | Crashed

text \<open>
  The goroutine of a capture (\<^verbatim>\<open>pktRunCapture\<close>) polls, marks the capture, fetches the file and decodes it; a request to
  stop may come at any time. That the node is told to stop as well is not part of the state of the capture. A decoder's panic ends the server, since nothing in the goroutine recovers.
\<close>

inductive cap_step :: "drv_lib \<Rightarrow> insp_lib \<Rightarrow> pktCapRequest \<Rightarrow> cap_phase \<times> pktCapture \<Rightarrow> cap_phase \<times> pktCapture \<Rightarrow> bool"
  for lib il req where
  polls: "poll_round stat late cancelled c = (stop, c') \<Longrightarrow>
    cap_step lib il req (Polling, c) (if stop then Fetching else Polling, c')"
| marks: "cap_step lib il req (Fetching, c) (Decoding, mark_decoding c)"
| fetch_fails: "cap_step lib il req (Decoding, c) (Over, cap_fail err now c)"
| decodes: "cap_finish lib il buf (cr_Port req) (cr_Roles req) (cr_Engine req) now c = Some c' \<Longrightarrow>
    cap_step lib il req (Decoding, c) (Over, c')"
| panics: "cap_finish lib il buf (cr_Port req) (cr_Roles req) (cr_Engine req) now c = None \<Longrightarrow>
    cap_step lib il req (Decoding, c) (Crashed, c)"
| stops: "ph \<noteq> Crashed \<Longrightarrow> cap_step lib il req (ph, c) (ph, mark_decoding c)"

inductive_cases cap_stepE: "cap_step lib il req (ph, c) s'"

definition cap_reach :: "drv_lib \<Rightarrow> insp_lib \<Rightarrow> pktCapRequest \<Rightarrow> pktCapture \<Rightarrow> cap_phase \<times> pktCapture \<Rightarrow> bool" where
  "cap_reach lib il req c0 s = (cap_step lib il req)\<^sup>*\<^sup>* (Polling, c0) s"

definition cap_ready :: "drv_lib \<Rightarrow> insp_lib \<Rightarrow> pktCapRequest \<Rightarrow> pktCapture \<Rightarrow> bool" where
  "cap_ready lib il req c \<longleftrightarrow> cap_State c = ''ready'' \<and>
     (\<exists>d. cap_decoded c = Some d \<and> pktDecode lib (cap_raw c) (cap_opts (cr_Port req) (cr_Roles req) (cr_Engine req)) = Some (Inr d)
        \<and> cap_Summary c = Some (pktSummarize il d) \<and> cap_Engine c = d_Engine d)"

definition cap_waiting :: "pktCapture \<Rightarrow> bool" where
  "cap_waiting c \<longleftrightarrow> cap_decoded c = None \<and> cap_raw c = [] \<and> cap_Summary c = None"

fun cap_inv :: "drv_lib \<Rightarrow> insp_lib \<Rightarrow> pktCapRequest \<Rightarrow> cap_phase \<times> pktCapture \<Rightarrow> bool" where
  "cap_inv lib il req (Polling, c) = (cap_waiting c \<and> (cap_State c = ''capturing'' \<or> cap_State c = ''decoding''))"
| "cap_inv lib il req (Fetching, c) = (cap_waiting c \<and> (cap_State c = ''capturing'' \<or> cap_State c = ''decoding''))"
| "cap_inv lib il req (Decoding, c) = (cap_waiting c \<and> cap_State c = ''decoding'')"
| "cap_inv lib il req (Crashed, c) = (cap_waiting c \<and> cap_State c = ''decoding'')"
| "cap_inv lib il req (Over, c) = (cap_ready lib il req c \<or> cap_waiting c \<and> cap_State c = ''error'')"

lemma mark_decoding_fields [simp]:
  "cap_waiting (mark_decoding c) = cap_waiting c"
  "cap_State (mark_decoding c) = (if cap_State c = ''capturing'' then ''decoding'' else cap_State c)"
  by (simp_all add: mark_decoding_def cap_waiting_def)

lemma mark_decoding_same: "cap_State c \<noteq> ''capturing'' \<Longrightarrow> mark_decoding c = c"
  by (simp add: mark_decoding_def)

lemma poll_round_fields:
  "cap_waiting (snd (poll_round stat late cancelled c)) = cap_waiting c"
  "cap_State (snd (poll_round stat late cancelled c)) = cap_State c"
  by (auto simp: poll_round_def Let_def cap_waiting_def split: option.split)

lemma finish_inv:
  assumes "cap_waiting c" "cap_finish lib il buf (cr_Port req) (cr_Roles req) (cr_Engine req) now c = Some c'"
  shows "cap_inv lib il req (Over, c')"
  using assms by (auto simp: cap_finish_def cap_fail_def cap_waiting_def cap_ready_def split: option.splits sum.splits)

lemma over_not_capturing: "cap_inv lib il req (Over, c) \<Longrightarrow> cap_State c \<noteq> ''capturing''"
  by (auto simp: cap_ready_def)

lemma cap_step_inv: "cap_step lib il req s s' \<Longrightarrow> cap_inv lib il req s \<Longrightarrow> cap_inv lib il req s'"
proof (induction rule: cap_step.induct)
  case (polls stat late cancelled c stop c')
  then show ?case using poll_round_fields [of stat late cancelled c] by (cases stop) simp_all
next
  case (fetch_fails c err now)
  then show ?case by (simp add: cap_fail_def cap_waiting_def)
next
  case (decodes buf now c c')
  then show ?case using finish_inv [of c lib il buf req now c'] by simp
next
  case (stops ph c)
  show ?case
  proof (cases ph)
    case Over
    then show ?thesis using stops.prems over_not_capturing [of lib il req c] by (simp add: mark_decoding_same del: cap_inv.simps)
  qed (use stops in auto)
qed auto

lemma cap_reach_inv:
  assumes "cap_reach lib il req c0 s" "cap_inv lib il req (Polling, c0)"
  shows "cap_inv lib il req s"
  using assms(1) unfolding cap_reach_def by (induction rule: rtranclp_induct) (use assms(2) cap_step_inv in blast)+

lemma over_stays:
  assumes "cap_inv lib il req (Over, c)" "cap_step lib il req (Over, c) s'"
  shows "s' = (Over, c)"
  using assms(2) over_not_capturing [OF assms(1)] by (auto elim: cap_stepE simp: mark_decoding_same)

section \<open>Lemmas: the registry\<close>

definition empty_registry :: pktRegistry where "empty_registry = \<lparr>g_m = Map.empty, g_order = []\<rparr>"

text \<open>The last captures of a list, oldest first.\<close>

definition kept :: "pktCapture list \<Rightarrow> pktCapture list" where
  "kept cs = drop (length cs - pktKeep) cs"

definition holds :: "pktRegistry \<Rightarrow> pktCapture list \<Rightarrow> bool" where
  "holds g cs \<longleftrightarrow> g_order g = map cap_ID cs \<and> g_m g = map_of (map (\<lambda>c. (cap_ID c, c)) cs)"

lemma map_of_by_ID:
  assumes "distinct (map cap_ID cs)"
  shows "map_of (map (\<lambda>c. (cap_ID c, c)) cs) k = Some c \<longleftrightarrow> c \<in> set cs \<and> cap_ID c = k"
proof -
  have "distinct (map fst (map (\<lambda>c. (cap_ID c, c)) cs))" using assms by (simp add: comp_def)
  from map_of_eq_Some_iff [OF this, of k c] show ?thesis by auto
qed

lemma evict_holds: "holds g cs \<Longrightarrow> distinct (map cap_ID cs) \<Longrightarrow> holds (evict g) (kept cs)"
proof (induction g arbitrary: cs rule: evict.induct)
  case (1 g)
  show ?case
  proof (cases "length (g_order g) > pktKeep")
    case True
    then obtain c cs' where cs: "cs = c # cs'" using "1.prems"(1) by (cases cs) (simp_all add: holds_def)
    let ?g = "g\<lparr>g_order := tl (g_order g), g_m := (g_m g)(hd (g_order g) := None)\<rparr>"
    have "map_of (map (\<lambda>c. (cap_ID c, c)) cs') (cap_ID c) = None"
      using "1.prems"(2) cs by (auto simp: map_of_eq_None_iff image_image)
    then have "holds ?g cs'" using "1.prems"(1) cs by (auto simp: holds_def fun_eq_iff)
    then have "holds (evict ?g) (kept cs')" using "1.IH" [OF True] "1.prems"(2) cs by simp
    moreover have "kept cs = kept cs'" using True "1.prems"(1) cs by (simp add: kept_def holds_def Suc_diff_le)
    ultimately show ?thesis using True by (subst evict.simps) simp
  next
    case False
    then show ?thesis using "1.prems"(1) by (subst evict.simps) (simp add: kept_def holds_def)
  qed
qed

lemma remember_holds:
  assumes "holds g cs" "distinct (map cap_ID (cs @ [c]))"
  shows "holds (pktRemember c g) (kept (cs @ [c]))"
proof -
  have k: "map_of (map (\<lambda>c. (cap_ID c, c)) cs) (cap_ID c) = None"
    using assms(2) by (auto simp: map_of_eq_None_iff image_image)
  have "(map_of (map (\<lambda>c. (cap_ID c, c)) cs))(cap_ID c \<mapsto> c) = map_of (map (\<lambda>c. (cap_ID c, c)) (cs @ [c]))"
    by (auto simp: fun_eq_iff map_add_def k split: option.split)
  then have "holds (g\<lparr>g_m := (g_m g)(cap_ID c \<mapsto> c), g_order := g_order g @ [cap_ID c]\<rparr>) (cs @ [c])"
    using assms(1) by (simp add: holds_def)
  from evict_holds [OF this assms(2)] show ?thesis by (simp add: pktRemember_def)
qed

lemma kept_kept: "kept (kept cs @ [c]) = kept (cs @ [c])"
  by (simp add: kept_def pktKeep_def) (rule arg_cong [where f = "\<lambda>n. drop n cs"], linarith)

lemma map_filter_if: "List.map_filter (\<lambda>x. if P x then Some x else None) xs = filter P xs"
  by (induction xs) (simp_all add: map_filter_simps)

lemma registry_holds:
  "distinct (map cap_ID cs) \<Longrightarrow> holds (fold pktRemember cs empty_registry) (kept cs)"
proof (induction cs rule: rev_induct)
  case (snoc c cs)
  have "distinct (map cap_ID (kept cs @ [c]))"
    using snoc.prems by (auto simp: kept_def drop_map [symmetric] dest: in_set_dropD)
  then show ?case using remember_holds [OF snoc.IH] snoc.prems kept_kept by simp
qed (simp add: holds_def kept_def empty_registry_def)

section \<open>Theorems\<close>

text \<open>
  The registry keeps the last twelve captures: after any sequence of captures with identifiers of their own, each of the
  last twelve is found under its identifier and nothing else is, and the list shown to a user is, newest first, those
  of them that belong to the user (all of them to an administrator), the same that can be opened one by one.
\<close>

theorem registry_keeps_last:
  assumes "distinct (map cap_ID cs)"
  defines "g \<equiv> fold pktRemember cs empty_registry"
  shows "(pktGet cid g = Some c \<longleftrightarrow> c \<in> set (kept cs) \<and> cap_ID c = cid) \<and> length (kept cs) \<le> 12
    \<and> pktList u g = rev (filter (may_see u) (kept cs))
    \<and> (pktOwned (Some u) cid g = Inr c \<longleftrightarrow> c \<in> set (pktList u g) \<and> cap_ID c = cid)"
proof -
  have h: "holds g (kept cs)" using registry_holds [OF assms(1)] by (simp add: g_def)
  have d: "distinct (map cap_ID (kept cs))" using assms(1) by (simp add: kept_def drop_map [symmetric])
  have get: "pktGet cid g = Some c \<longleftrightarrow> c \<in> set (kept cs) \<and> cap_ID c = cid" for cid c
    using h map_of_by_ID [OF d] by (simp add: pktGet_def holds_def)
  have m: "(case g_m g (cap_ID c) of None \<Rightarrow> None | Some c \<Rightarrow> if may_see u c then Some c else None)
      = (if may_see u c then Some c else None)" if "c \<in> set (kept cs)" for c
    using get [of "cap_ID c" c] that by (simp add: pktGet_def)
  have "pktList u g = List.map_filter (\<lambda>c. case g_m g (cap_ID c) of None \<Rightarrow> None | Some c \<Rightarrow> if may_see u c then Some c else None) (rev (kept cs))"
    using h by (simp add: pktList_def holds_def map_filter_def rev_map filter_map comp_def)
  also have "\<dots> = List.map_filter (\<lambda>c. if may_see u c then Some c else None) (rev (kept cs))"
    unfolding map_filter_def by (intro map_cong filter_cong) (auto simp: m)
  also have "\<dots> = filter (may_see u) (rev (kept cs))"
    by (rule map_filter_if)
  finally have l: "pktList u g = rev (filter (may_see u) (kept cs))" by (simp add: rev_filter)
  have "pktOwned (Some u) cid g = Inr c \<longleftrightarrow> pktGet cid g = Some c \<and> may_see u c"
    by (auto simp: pktOwned_def may_see_def split: option.splits)
  then show ?thesis using get l by (auto simp: kept_def pktKeep_def)
qed

text \<open>
  What a handler gives away of a capture it gives to its owner or an administrator only, and never before the capture
  is in the registry.
\<close>

theorem capture_access:
  "(handlePktGet who cid g = Inr pub \<longrightarrow> (\<exists>u c. who = Some u \<and> pktGet cid g = Some c \<and> may_see u c))
   \<and> (handlePktPackets il who cid rq g = Inr page \<longrightarrow> (\<exists>u c. who = Some u \<and> pktGet cid g = Some c \<and> may_see u c))
   \<and> (handlePktTimeline il who cid rq g = Inr strip \<longrightarrow> (\<exists>u c. who = Some u \<and> pktGet cid g = Some c \<and> may_see u c))
   \<and> (handlePktPacket who cid no g = Inr rep \<longrightarrow> (\<exists>u c. who = Some u \<and> pktGet cid g = Some c \<and> may_see u c))
   \<and> (handlePktDownload who cid g = Inr raw \<longrightarrow> (\<exists>u c. who = Some u \<and> pktGet cid g = Some c \<and> may_see u c))
   \<and> (snd (handlePktStop who cid g) \<noteq> g \<longrightarrow> (\<exists>u c. who = Some u \<and> pktGet cid g = Some c \<and> may_see u c))"
proof -
  have owned: "\<exists>u c. who = Some u \<and> pktGet cid g = Some c \<and> may_see u c" if "pktOwned who cid g = Inr c" for c
    using that by (auto simp: pktOwned_def may_see_def split: option.splits if_splits)
  have decoded: "\<exists>u c. who = Some u \<and> pktGet cid g = Some c \<and> may_see u c" if "decoded_of who cid g = Inr cd" for cd
    using that owned by (auto simp: decoded_of_def split: sum.splits)
  show ?thesis using owned decoded
    by (auto simp: handlePktGet_def handlePktPackets_def handlePktTimeline_def handlePktPacket_def handlePktDownload_def
        handlePktStop_def split: sum.splits)
qed

section \<open>Lemmas: commands\<close>

lemma FilterOK_append: "pktFilterOK (s @ t) \<longleftrightarrow> pktFilterOK s \<and> pktFilterOK t"
  by (simp add: pktFilterOK_def)

lemma FilterOK_Join: "pktFilterOK sep \<Longrightarrow> list_all pktFilterOK ss \<Longrightarrow> pktFilterOK (go_Join ss sep)"
  by (induction ss sep rule: go_Join.induct) (simp_all add: FilterOK_append, simp add: pktFilterOK_def)

lemma FilterOK_words: "pktFilterOK ''port ''" "pktFilterOK '' or ''" "pktFilterOK '' and ''" "pktFilterOK ''(''" "pktFilterOK '')''"
  by code_simp+

lemma FilterOK_utoa: "pktFilterOK (go_utoa n)"
  using go_utoa_digits [of n] by (auto simp: pktFilterOK_def list_all_iff filter_char_def)

lemma FilterOK_terms: "list_all pktFilterOK (port_terms req)"
proof -
  have p: "list_all pktFilterOK (map (\<lambda>p. ''port '' @ go_utoa p) (pktCapPorts req))"
    unfolding list_all_iff FilterOK_append by (auto simp del: append_Cons simp: FilterOK_append FilterOK_words FilterOK_utoa)
  have j: "pktFilterOK (''('' @ go_Join (map (\<lambda>p. ''port '' @ go_utoa p) (pktCapPorts req)) '' or '' @ '')'')"
    using FilterOK_Join [OF FilterOK_words(2) p] FilterOK_words unfolding FilterOK_append by blast
  show ?thesis using p j unfolding port_terms_def Let_def by (simp add: list_all_length)
qed

lemma pktBPF_chars:
  assumes "pktFilterOK (cr_Filter req)"
  shows "pktFilterOK (pktBPF req)"
proof -
  have "pktFilterOK (go_TrimSpace (cr_Filter req))" using assms set_go_TrimSpace by (fastforce simp: pktFilterOK_def list_all_iff)
  then have "pktFilterOK (''('' @ go_TrimSpace (cr_Filter req) @ '')'')" unfolding FilterOK_append using FilterOK_words by simp
  then show ?thesis unfolding pktBPF_def Let_def using FilterOK_terms
    by (intro FilterOK_Join FilterOK_words) (simp del: append_Cons)
qed

lemma Join_snoc: "\<exists>pre. go_Join (ss @ [z]) sep = pre @ z \<and> (pre = [] \<or> suffix sep pre)"
proof (induction ss)
  case (Cons s ss)
  then obtain pre where pre: "go_Join (ss @ [z]) sep = pre @ z" "pre = [] \<or> suffix sep pre" by blast
  have "go_Join ((s # ss) @ [z]) sep = s @ sep @ pre @ z" using pre(1) by (cases ss) simp_all
  then have "go_Join ((s # ss) @ [z]) sep = (s @ sep @ pre) @ z" by simp
  moreover have "suffix sep (s @ sep @ pre)" using pre(2) by (auto simp: suffix_def)
  ultimately show ?case by blast
qed simp

lemma node_exec_simp: "node_exec ne s env log = (r, log') \<longleftrightarrow> r = ne_Exec ne log s env \<and> log' = log @ [(s, env)]"
  by (auto simp: node_exec_def)

text \<open>
  What is run on the node to start a capture: nothing unless the identifier is a plain name and the filter has only the
  characters of a filter expression; and the script that launches the capture runs at most once, last, with that
  identifier, a plain name or the name the node gave for the interface, and an expression of those characters.
\<close>

theorem start_commands:
  assumes "pktStartCapture ne cid req log = (res, log')"
  shows "log' = log \<or> (pktSafeName cid \<and> pktFilterOK (pktBPF req) \<and>
    (\<exists>front back. log' = log @ front @ back \<and> set front \<subseteq> {(PktInstallScript, []), (PktIfaceScript, [])}
      \<and> (back = [] \<or> (\<exists>iface. back = [(PktStartScript, start_env cid iface req)] \<and> (cr_Iface req \<noteq> [] \<longrightarrow> iface = cr_Iface req \<and> pktSafeName iface)))
      \<and> (\<forall>cmd iface. res = Inr (cmd, iface) \<longrightarrow> back = [(PktStartScript, start_env cid iface req)])))"
proof (cases "pktSafeName cid \<and> pktValidateFilter (cr_Filter req) = None")
  case True
  then have ok: "pktFilterOK (pktBPF req)" by (intro pktBPF_chars) (simp add: pktValidateFilter_def split: if_splits)
  obtain e log1 where e: "pktEnsureTcpdump ne log = (e, log1)" by fastforce
  then have log1: "log1 = log @ [(PktInstallScript, [])]"
    by (auto simp: pktEnsureTcpdump_def node_exec_def split: prod.splits sum.splits)
  obtain i log2 where i: "choose_iface ne (cr_Iface req) log1 = (i, log2)" by fastforce
  then obtain mid where log2: "log2 = log1 @ mid" "set mid \<subseteq> {(PktIfaceScript, [])}"
    by (auto simp: choose_iface_def pktResolveIface_def node_exec_def Let_def split: if_splits sum.splits)
  have iface: "cr_Iface req \<noteq> [] \<Longrightarrow> i = Inr f \<Longrightarrow> f = cr_Iface req \<and> pktSafeName f" for f
    using i by (auto simp: choose_iface_def split: if_splits)
  show ?thesis
  proof (cases "e = None \<and> (\<exists>f. i = Inr f)")
    case False
    then have r: "(\<exists>err. res = Inl err) \<and> (log' = log1 \<or> log' = log2)" using assms True e i
      by (auto simp: pktStartCapture_def split: option.splits sum.splits)
    have "set mid \<subseteq> {(PktInstallScript, []), (PktIfaceScript, [])}" using log2(2) by blast
    then obtain front where "log' = log @ front" "set front \<subseteq> {(PktInstallScript, []), (PktIfaceScript, [])}"
      using r log1 log2 that [of "drop (length log) log'"] by auto
    then show ?thesis using r True ok
      by (intro disjI2 conjI) (simp, simp, (rule exI [of _ front], rule exI [of _ "[]"], auto))
  next
    case t: True
    then obtain f where f: "i = Inr f" by blast
    have "launch ne cid f req log2 = (res, log')" using assms True t e i f by (auto simp: pktStartCapture_def split: option.splits)
    then have "log' = log2 @ [(PktStartScript, start_env cid f req)]" "\<And>cmd g. res = Inr (cmd, g) \<Longrightarrow> g = f"
      by (auto simp: launch_def node_exec_def split: sum.splits if_splits option.splits)
    then show ?thesis using True ok log1 log2 iface f
      by (intro disjI2 conjI exI [of _ "(PktInstallScript, []) # mid"] exI [of _ "[(PktStartScript, start_env cid f req)]"]) auto
  qed
next
  case False
  then have "log' = log" using assms by (auto simp: pktStartCapture_def split: if_splits option.splits)
  then show ?thesis by simp
qed

text \<open>
  The check of the filter does not keep options out: the launching script splits the expression into words, and an accepted
  filter can close the parenthesis in front of it, so that one of the words is an option of the capturing program.
\<close>

theorem filter_adds_option:
  "\<exists>f. pktValidateFilter f = None \<and> (\<forall>req. cr_Filter req = f \<longrightarrow> ''-w'' \<in> set (go_Split (pktBPF req) (CHR '' '')))"
proof (intro exI conjI allI impI)
  let ?f = "''tcp) -w x (ip''"
  show "pktValidateFilter ?f = None" by code_simp
  fix req :: pktCapRequest
  assume f: "cr_Filter req = ?f"
  have t: "go_TrimSpace ?f = ?f" by code_simp
  have w: "''-w'' \<in> set (go_Split (''('' @ ?f @ '')'') (CHR '' ''))" by code_simp
  obtain ts where "pktBPF req = go_Join (ts @ [''('' @ ?f @ '')'']) '' and ''" by (simp add: pktBPF_def Let_def f t)
  then obtain pre where pre: "pktBPF req = pre @ ''('' @ ?f @ '')''" "pre = [] \<or> suffix '' and '' pre"
    using Join_snoc [of ts "''('' @ ?f @ '')''" "'' and ''"] by auto
  show "''-w'' \<in> set (go_Split (pktBPF req) (CHR '' ''))"
  proof (cases "pre = []")
    case False
    then obtain p where "pre = (p @ '' and'') @ [CHR '' '']" using pre(2) by (auto simp: suffix_def)
    then have "pktBPF req = (p @ '' and'') @ CHR '' '' # (''('' @ ?f @ '')'')" using pre(1) by simp
    then show ?thesis unfolding go_Split_append using w by (metis UnI2 go_Split_append set_append)
  qed (use pre w in simp)
qed

section \<open>Properties\<close>

lemma evict_sub: "g_m (evict g) k = Some c \<Longrightarrow> g_m g k = Some c"
  by (induction g rule: evict.induct) (subst (asm) (2) evict.simps, auto split: if_splits)

lemma started_capture:
  assumes "handlePktStart ne who body target cid now log g = (Inr pub, log', g')" "pktGet cid g' = Some c0"
  shows "cap_State c0 = ''capturing'' \<and> cap_waiting c0 \<and> cap_ID c0 = cid \<and> pub = cap_public c0
    \<and> (\<exists>u t. who = Some u \<and> cap_owner c0 = cl_ID u \<and> target = Inr t)"
  using assms
  by (auto simp: handlePktStart_def Let_def pktGet_def pktRemember_def new_capture_def cap_waiting_def
      split: option.splits sum.splits if_splits prod.splits dest!: evict_sub)

lemma mark_decoding_id [simp]: "cap_ID (mark_decoding c) = cap_ID c" "cap_owner (mark_decoding c) = cap_owner c"
  by (simp_all add: mark_decoding_def)

lemma cap_step_id: "cap_step lib il req s s' \<Longrightarrow> cap_ID (snd s') = cap_ID (snd s) \<and> cap_owner (snd s') = cap_owner (snd s)"
  by (induction rule: cap_step.induct)
     (auto simp: poll_round_def cap_fail_def cap_finish_def Let_def split: option.splits sum.splits if_splits)

lemma cap_reach_id: "cap_reach lib il req c0 s \<Longrightarrow> cap_ID (snd s) = cap_ID c0 \<and> cap_owner (snd s) = cap_owner c0"
  unfolding cap_reach_def by (induction rule: rtranclp_induct) (use cap_step_id in fastforce)+

lemma cap_can_end:
  assumes "ph \<noteq> Crashed"
  shows "\<exists>c'. (cap_step lib il req)\<^sup>*\<^sup>* (ph, c) (Over, c')"
proof -
  have d: "(cap_step lib il req)\<^sup>*\<^sup>* (Decoding, c) (Over, cap_fail [] [] c)" for c by (blast intro: fetch_fails)
  have f: "(cap_step lib il req)\<^sup>*\<^sup>* (Fetching, c) (Over, cap_fail [] [] (mark_decoding c))" for c
    by (rule converse_rtranclp_into_rtranclp [OF marks d])
  have "cap_step lib il req (Polling, c) (Fetching, c)"
    using cap_step.polls [of None True True c True c] by (simp add: poll_round_def)
  from converse_rtranclp_into_rtranclp [OF this f] d f assms show ?thesis by (cases ph) blast+
qed

text \<open>
  C21. A capture started on a node, whatever the node reports and whenever its user asks to stop: it keeps its identifier
  and its owner, it is capturing, decoding, ready or failed, its rows can be seen exactly when it is ready, and then they,
  the summary and the engine shown are what the decoder makes of the bytes offered for download; once it is ready
  or has failed it does not change any more, and unless the decoder panics it can always get there.
\<close>

theorem capture_lifecycle:
  assumes "handlePktStart ne (Some u) (Some body) (Inr t) cid now log g = (Inr pub, log', g')" "pktGet cid g' = Some c0"
    "cap_reach lib il req c0 (ph, c)"
  shows "cap_ID c = cid \<and> cap_owner c = cl_ID u
    \<and> (cap_State c = ''capturing'' \<or> cap_State c = ''decoding'' \<or> cap_State c = ''ready'' \<or> cap_State c = ''error'')
    \<and> (snapshot c \<noteq> None \<longleftrightarrow> cap_State c = ''ready'')
    \<and> (cap_State c = ''ready'' \<longrightarrow> cap_ready lib il req c)
    \<and> (cap_State c = ''ready'' \<or> cap_State c = ''error'' \<longrightarrow> ph = Over \<and> (\<forall>s'. cap_step lib il req (ph, c) s' \<longrightarrow> s' = (ph, c)))
    \<and> (ph \<noteq> Crashed \<longrightarrow> (\<exists>c'. (cap_step lib il req)\<^sup>*\<^sup>* (ph, c) (Over, c')))"
proof -
  note c0 = started_capture [OF assms(1,2)]
  have inv: "cap_inv lib il req (ph, c)" using cap_reach_inv [OF assms(3)] c0 by simp
  have ids: "cap_ID c = cid" "cap_owner c = cl_ID u" using cap_reach_id [OF assms(3)] c0 by simp_all
  have over: "ph = Over" if "cap_State c = ''ready'' \<or> cap_State c = ''error''" using inv that by (cases ph) auto
  have stay: "\<forall>s'. cap_step lib il req (ph, c) s' \<longrightarrow> s' = (ph, c)" if "ph = Over" using over_stays inv that by blast
  have "(cap_State c = ''capturing'' \<or> cap_State c = ''decoding'' \<or> cap_State c = ''ready'' \<or> cap_State c = ''error'')"
    "snapshot c \<noteq> None \<longleftrightarrow> cap_State c = ''ready''" "cap_State c = ''ready'' \<longrightarrow> cap_ready lib il req c"
    using inv by (cases ph; auto simp: cap_waiting_def cap_ready_def snapshot_def)+
  then show ?thesis using ids over stay cap_can_end by blast
qed

definition ex_node :: node_env where
  "ex_node = \<lparr>ne_Exec = (\<lambda>log s env. Inr \<lparr>x_Code = 0, x_Stdout = ''eth0'', x_Stderr = []\<rparr>), ne_Copy = (\<lambda>log name content. None),
     ne_Read = (\<lambda>log path. Inl ''no such file'')\<rparr>"

definition ex_body :: pktStartBody where
  "ex_body = \<lparr>bd_StackID = 1, bd_NodeID = ''n1'', bd_Seconds = 5, bd_Packets = 100, bd_Snaplen = 64, bd_Filter = [], bd_Iface = [], bd_AllPorts = False\<rparr>"

definition ex_target :: cap_target where
  "ex_target = \<lparr>ct_engine = pktEngineMySQL, ct_label = ''db'', ct_port = 8, ct_roles = [], ct_nodeType = ''mysql'', ct_stack = ''s''\<rparr>"

definition ex_user :: caller where "ex_user = \<lparr>cl_ID = 7, cl_Role = ''user''\<rparr>"

definition ex_creq :: pktCapRequest where
  "ex_creq = start_request ex_body (ct_engine ex_target) (ct_port ex_target) (ct_roles ex_target)"

lemma ex_started:
  "\<exists>pub log' g' c0. handlePktStart ex_node (Some ex_user) (Some ex_body) (Inr ex_target) ''a1'' [] [] empty_registry = (Inr pub, log', g')
    \<and> pktGet ''a1'' g' = Some c0"
proof -
  have s: "pktSafeName ''a1''" "go_TrimSpace [] = []" "go_TrimSpace ''eth0'' = ''eth0''" "\<not> List.member ''eth0'' (CHR 0x0A)" by code_simp+
  have r: "pktStartCapture ex_node ''a1'' ex_creq []
      = (Inr (''tcpdump -i eth0 -s '' @ go_Itoa 64 @ '' -n -q -c '' @ go_Itoa 100 @ '' '' @ pktBPF ex_creq @ '' -w '' @ pktCapDir @ ''/a1.cap'', ''eth0''),
         [(PktInstallScript, []), (PktIfaceScript, []), (PktStartScript, start_env ''a1'' ''eth0'' ex_creq)])"
    using s by (simp add: pktStartCapture_def pktValidateFilter_def pktFilterOK_def ex_creq_def start_request_def ex_body_def
        pktEnsureTcpdump_def choose_iface_def pktResolveIface_def node_exec_def launch_def ex_node_def pktClamp_def pktMaxSeconds_def
        pktMaxCapPackets_def last_line_def)
  have f: "pktValidateFilter (bd_Filter ex_body) = None" by (simp add: ex_body_def pktValidateFilter_def pktFilterOK_def)
  have e: "known_engine (ct_engine ex_target)" by (simp add: ex_target_def known_engine_def)
  show ?thesis using e f
    by (simp add: handlePktStart_def Let_def r [unfolded ex_creq_def] pktRemember_def evict.simps pktKeep_def empty_registry_def
        new_capture_def pktGet_def)
qed

lemma capture_lifecycle_witness:
  "\<exists>pub log' g' c0 c. handlePktStart ex_node (Some ex_user) (Some ex_body) (Inr ex_target) ''a1'' [] [] empty_registry = (Inr pub, log', g')
    \<and> pktGet ''a1'' g' = Some c0 \<and> cap_reach ex_lib ex_insp ex_creq c0 (Over, c) \<and> cap_State c = ''ready'' \<and> snapshot c \<noteq> None"
proof -
  obtain pub log' g' c0 where s: "handlePktStart ex_node (Some ex_user) (Some ex_body) (Inr ex_target) ''a1'' [] [] empty_registry = (Inr pub, log', g')"
    "pktGet ''a1'' g' = Some c0" using ex_started by blast
  have l: "length ex_syn = 40" by code_simp
  obtain r where r: "pktOpen (ex_file [ex_syn]) = Inr r" by (rule ex_open [of "[ex_syn]"]) (simp_all add: l)
  let ?opts = "cap_opts (cr_Port ex_creq) (cr_Roles ex_creq) (cr_Engine ex_creq)"
  obtain d where d: "pktDecode ex_lib (ex_file [ex_syn]) ?opts = Some (Inr d)"
    using sql_decode_total [of ?opts "ex_file [ex_syn]" r ex_lib] r
    by (auto simp: cap_opts_def ex_creq_def start_request_def ex_target_def)
  let ?c1 = "mark_decoding c0"
  obtain c where c: "cap_finish ex_lib ex_insp (ex_file [ex_syn]) (cr_Port ex_creq) (cr_Roles ex_creq) (cr_Engine ex_creq) [] ?c1 = Some c"
    "cap_State c = ''ready''" by (simp add: cap_finish_def d)
  have "cap_step ex_lib ex_insp ex_creq (Polling, c0) (Fetching, c0)"
    using cap_step.polls [of None True True c0 True c0] by (simp add: poll_round_def)
  then have "cap_reach ex_lib ex_insp ex_creq c0 (Over, c)" unfolding cap_reach_def
    using cap_step.marks cap_step.decodes [OF c(1)] by (meson converse_rtranclp_into_rtranclp rtranclp.rtrancl_refl)
  with capture_lifecycle [OF s this] s c(2) show ?thesis by blast
qed
end
