(* ===== verification/Spec2Isabelle.thy ===== *)
theory Spec2Isabelle
  imports Go_Prelude Go_Strings Frame_Reader Snappy Resp Aio_Ports Sec_Groups Instance_Names Host_Ports
    Deploy_Run Mysql_Wire Pkt_State Mysql_Decode Bson Pcap Pkt_Net Ftdc Rolling Pg_Wire Pg_Error Pg_Decode Pg_Stream
    Pkt_Cluster Valkey_Bus Valkey Valkey_Order Bson_Text Mongo_Wire Mongo Mongo_Order Pkt_Frames Pkt_Driver Pkt_Streams
    Pkt_Inspect Pkt_Captures
begin

text \<open>
  \<^bold>\<open>DBCanvas\<close> is a web application that draws database topologies and deploys them as containers:
  a user designs a stack of nodes, the server provisions them on Docker or Vagrant, and a set of
  tools looks into what runs (a packet inspector, log and diagnostic summaries, a database
  explorer). It is one Go program (\<^verbatim>\<open>src/app\<close>) with an SQLite store, an HTTP API and a browser
  front end. This development models the parts of it whose logic is the program's own.

  \<^bold>\<open>The parts and where they are.\<close>

  \<^item> Shared by all: \<open>Go_Prelude\<close> (bytes, slices, fixed-width integers) and \<open>Go_Strings\<close> (the
    functions of packages \<^verbatim>\<open>strings\<close>, \<^verbatim>\<open>strconv\<close> and \<^verbatim>\<open>unicode/utf8\<close> that the code calls). A byte is an
    8-bit word, a Go string a list of bytes; Go's \<^verbatim>\<open>int\<close> is a \<^typ>\<open>nat\<close> or \<^typ>\<open>int\<close> where it cannot
    overflow, and a word or an explicit wrap where it can.

  \<^item> The port and node book-keeping of the deployer. \<open>Aio_Ports\<close> is \<^verbatim>\<open>aio_ports.go\<close>: the catalogue of
    what an All-in-One node can hold and the allocator that gives every member its own ports.
    \<open>Instance_Names\<close> is \<^verbatim>\<open>instance.go\<close> with the container names of \<^verbatim>\<open>intranet.go\<close>: how installations that
    share a Docker daemon keep apart. \<open>Host_Ports\<close> is \<^verbatim>\<open>hostports.go\<close>: choosing, probing and recording
    the host ports that are published. \<open>Deploy_Run\<close> is \<^verbatim>\<open>deployrun.go\<close>: the life of a deployment's
    goroutines, as a step relation over all their interleavings. \<open>Rolling\<close> is \<^verbatim>\<open>rolling.go\<close> with the probe of
    \<^verbatim>\<open>switchover.go\<close>: restarting a cluster one member at a time, the primary last.

  \<^item> Authorisation. \<open>Sec_Groups\<close> is \<^verbatim>\<open>secgroups.go\<close>: features, groups, the normalization of a stored
    configuration, the gate every request passes and the handler that changes it.

  \<^item> The packet inspector. \<open>Pcap\<close> is the lower half of \<^verbatim>\<open>pktdecode.go\<close>: capture files, link, IP and TCP
    headers, TCP sequence tracking; \<open>Pkt_State\<close> its per-frame and per-connection records. Each protocol has
    its decoder. MySQL: \<open>Mysql_Wire\<close> and \<open>Mysql_Decode\<close> are \<^verbatim>\<open>pktmysql.go\<close>, the framing, packets and TLS records,
    and the client and server state machines on top of them. PostgreSQL: \<open>Pg_Wire\<close>, \<open>Pg_Error\<close> and \<open>Pg_Decode\<close>
    are \<^verbatim>\<open>pktpg.go\<close> and \<^verbatim>\<open>pktpgerr.go\<close>, the framing and the search for alignment, the error catalogue, every message
    of the client and the server with replication and logical decoding; \<open>Pg_Stream\<close> composes them over a whole
    stream. \<open>Pkt_Cluster\<close> is \<^verbatim>\<open>pktgalera.go\<close> and \<^verbatim>\<open>pktpgha.go\<close>: Galera's three ports, Patroni's REST API and etcd.
    Valkey: \<open>Resp\<close> and \<open>Valkey\<close> are \<^verbatim>\<open>pktresp.go\<close>, \<^verbatim>\<open>pktvalkey.go\<close> and \<^verbatim>\<open>pktvalkeyerr.go\<close>, the parser, the queue that
    matches replies to commands and the snapshot transfer of a replication link; \<open>Valkey_Bus\<close> is
    \<^verbatim>\<open>pktvalkeybus.go\<close>, the gossip of a cluster; \<open>Valkey_Order\<close> holds what whole frames of commands and replies do.
    MongoDB: \<open>Bson\<close> and \<open>Bson_Text\<close> are \<^verbatim>\<open>pktbson.go\<close>, \<open>Snappy\<close> is \<^verbatim>\<open>pktsnappy.go\<close>, \<open>Mongo_Wire\<close> the framing of
    \<^verbatim>\<open>pktmongo.go\<close> and \<open>Mongo\<close> its messages with \<^verbatim>\<open>pktmongorepl.go\<close> and \<^verbatim>\<open>pktmongoerr.go\<close>; \<open>Mongo_Order\<close> holds what
    matching by request id and recursive decompression do. \<open>Pkt_Net\<close> is \<^verbatim>\<open>pktnet.go\<close>: ARP and DNS.
    \<open>Pkt_Driver\<close> is the upper half of \<^verbatim>\<open>pktdecode.go\<close>: the guess of the engine and the run over a capture, which
    decides the direction of every segment, finds its connection, has the TCP checks annotate it and hands the
    payload to the decoder of the connection's role; the decoder appends it to the buffer of its direction
    and takes complete messages off its head. \<open>Pkt_Frames\<close> shows what all decoders leave alone, and
    \<open>Pkt_Streams\<close> what a decoded capture promises. \<open>Pkt_Inspect\<close> is the part of \<^verbatim>\<open>pktinspect.go\<close> that answers questions about
    a decoded capture: summary, filter, pages, timeline, the detail of a packet with its hex dump. \<open>Pkt_Captures\<close> is the
    rest of it with \<^verbatim>\<open>pktcap.go\<close>: the command run on a node, the life of a capture, the registry and the handlers.

  \<^item> Diagnostic data. \<open>Ftdc\<close> is \<^verbatim>\<open>ftdc.go\<close>: the metric chunks of MongoDB's diagnostic files, decoded into
    one series per metric over a common clock.

  \<^bold>\<open>Interfaces.\<close> Where one part relies on another's promise, the promise is a locale, interpreted on
  the code's own definitions: \<open>frame_reader\<close> (what a decoder needs of a framing routine: progress,
  bounds, independence of bytes not yet arrived; interpreted on \<open>respParse\<close>, \<open>pktNextMySQL\<close>, \<open>pg_read\<close> and
  \<open>bus_read\<close>), \<open>app_decoder\<close> (what the driver needs of a protocol decoder: that frame and connection keep
  their identity; interpreted on all eight decoders and on the dispatch between them), \<open>port_probe\<close> (what
  choosing ports needs of the probe; interpreted on \<open>probePorts\<close>), \<open>port_plan\<close> (what the disjointness of ports
  needs of slots and families; interpreted on the allocator) and \<open>stored_config\<close> (what the gate needs of the
  configuration store).

  \<^bold>\<open>What is shown.\<close> Captures: the rows of a decoded capture are its frames (C32), its connections agree with
  the rows assigned to them (C30), the two directions of an exchange are rows of one connection, also between equal
  ports once a SYN was captured (C18), the page of rows a request selects (C8) and the timeline over them (C9), the frame
  behind a row (C17), the life of a capture over all interleavings (C21), reading back a capture file (C31), and what
  retransmissions and gaps mean over the life of a connection whose sequence numbers do not wrap (C33). Decoders: the exact
  set of inputs accepted (C1), framing that does not depend on how TCP cut the stream (C2, C6, C23, C25, C28),
  round trips with independently written encoders (C3, C23, C29, C37), the counting of result sets (C26, C28), the
  switch of a MySQL connection to TLS, after which nothing is read (C27), the matching of replies to requests by order and by id (C4, C5), and
  a capture that joins a connection in the middle (C10). Names in DNS messages are read in a bounded number of
  rounds, whatever their pointers, and as RFC 1035 encodes them (C35, C36). The decoded table of diagnostic
  data implements the sequence of samples in the files, and all its series have the length of the clock (C38,
  C39). Book-keeping: disjointness of the ports of an All-in-One node (C7); exclusiveness of
  names between installations (C14); correctness and failure behaviour of host ports (C15, C16);
  one deployment of a stack at a time, over all interleavings (C19); a rolling restart that never has two
  members down and completes on a cluster whose members come back (C40, C34). Authorisation: well-formedness
  of the permissions in force and the effect of a change on every cell (C11, C13).

  Some theorems record what the code does not mean to do: a script command with a single argument panics the
  Valkey decoder (C24), a compressed MongoDB message can decompress to itself and is then never finished (C12),
  a short compressed message panics the guess of the engine (C20), a provisioner joins a cancelled run (C22);
  and beside the numbered properties a map count that wraps (\<open>respParse_map_count_wraps\<close>), unfiltered texts
  (\<open>greeting_error_unfiltered\<close>, \<open>pg_copyfail_unfiltered\<close>), sequence numbers that wrap (\<open>health_sequence_wraps\<close>),
  a late segment taken for a retransmission (\<open>late_segment_dropped\<close>), a ClientHello left in the buffer when it shares the
  segment of the SSLRequest (\<open>tls_hello_shares_segment\<close>),
  a filter that adds an option to a command (\<open>filter_adds_option\<close>), issues outside the severity table
  (\<open>severe_kinds_exceptions\<close>), a mark that is never set (\<open>pg_basebackup_never_set\<close>), a mark that is lost (\<open>rdb_mark_lost\<close>) and replies shown
  under the wrong command (\<open>subscription_mislabels_next_reply\<close>).

  \<^bold>\<open>Arguments that stand for the outside.\<close> The host kernel's answer to a bind, random numbers, the
  environment, file contents, database errors, the BSON driver and the zlib library, the order of a walk over a
  Go map, the probes of a cluster, what a node answers to a script, and the arithmetic and renderings that rest on floating-point numbers or Unicode tables
  are arguments of the definitions that use them; the theorems hold for all of them, or name what they ask
  of them.

  \<^bold>\<open>Bounds and termination.\<close> Every definition is total. Loops over a buffer end because a position
  grows or a buffer shrinks, proved as the termination of the function. A Go panic is the result \<open>None\<close>
  in the guess of the engine, in the decoders of Valkey and MongoDB and in the run that calls them; in the decoders of
  MySQL, PostgreSQL, the cluster bus, Patroni, etcd and Galera an index or slice out of range is not represented, and no
  theorem says that they do not panic. Two
  recursions take a bound: two thousand draws in \<open>probe_pick\<close>, which the code has itself, and the number of
  nested compressed messages in \<open>pktMongoMessage\<close>, which the code does not have; there \<open>None\<close> says that the
  decoder is still going, and C12 shows that no bound is enough for every frame. A DNS name is read within 33
  rounds per byte of the message, since a pointer may be followed 31 times and a label advances. Lengths are
  natural numbers: no buffer of the program reaches 2^63 bytes.

  \<^bold>\<open>What is not modelled.\<close> Provisioning (scripts of Docker, Vagrant and shell commands), HTTP and JSON,
  SQL, WebSockets and the browser; the shell scripts themselves; which nodes a capture can be taken on; the log and diagnostic summaries.

  \<^bold>\<open>Plan.\<close> What could follow: the readers of server logs beside the inspector, version gates, and the layout of
  All-in-One nodes.
\<close>

end
